(* ===== verification/Prelude.thy ===== *)
theory Prelude
  imports Complex_Main "HOL-Library.AList" "HOL-Library.Sublist"
begin

text \<open>
  The part of the JavaScript language and its standard library that the modelled code uses,
  with the generic lemmas every component shares.

  \<^item> A \<open>Map\<close> is an association list in insertion order: \<open>get\<close> is \<open>map_of\<close>, \<open>set\<close> is
    \<open>AList.update\<close> (an existing key keeps its place, a new one goes to the end),
    \<open>delete\<close> is \<open>AList.delete\<close>, \<open>size\<close> is \<open>length\<close>.
  \<^item> A \<open>Set\<close> whose order is never read is a HOL set.
  \<^item> \<open>undefined\<close> and \<open>null\<close> are \<open>None\<close>; a field that can be both is an option of an
    option, with \<open>None\<close> for \<open>undefined\<close> and \<open>Some None\<close> for \<open>null\<close>.
  \<^item> Times, counters and ordinals are \<open>int\<close>. Where the code itself checks that a number is an
    integer the field has the type \<open>js_number\<close>, which has the other values of a number too.
\<close>

named_theorems js_simps \<open>evaluation of the JavaScript helpers\<close>
named_theorems evolve_defs \<open>the branches of the event folds\<close>
named_theorems decide_defs \<open>the branches of the deciders\<close>
named_theorems inv_defs \<open>the component invariants\<close>

section \<open>Nullable values\<close>

text \<open>\<open>a ?? b\<close> with a value that is never null on the right.\<close>

definition or_else :: "'a option \<Rightarrow> 'a \<Rightarrow> 'a" where
  "or_else a b = (case a of None \<Rightarrow> b | Some x \<Rightarrow> x)"

text \<open>\<open>a ?? b\<close> where both sides can be null.\<close>

definition or_opt :: "'a option \<Rightarrow> 'a option \<Rightarrow> 'a option" where
  "or_opt a b = (case a of None \<Rightarrow> b | Some x \<Rightarrow> Some x)"

text \<open>\<open>a ?? null\<close> for a field that is absent, null or a value.\<close>

definition or_null :: "'a option option \<Rightarrow> 'a option" where
  "or_null a = (case a of None \<Rightarrow> None | Some x \<Rightarrow> x)"

lemma or_else_simps [simp]: "or_else None b = b" "or_else (Some x) b = x"
  by (simp_all add: or_else_def)

lemma or_opt_simps [simp]: "or_opt None b = b" "or_opt (Some x) b = Some x" "or_opt a None = a"
  by (simp_all add: or_opt_def split: option.splits)

lemma or_null_simps [simp]: "or_null None = None" "or_null (Some x) = x"
  by (simp_all add: or_null_def)

section \<open>Numbers\<close>

datatype js_number = Finite rat | NotANumber | PosInfinity | NegInfinity

definition js_of_int :: "int \<Rightarrow> js_number" where
  "js_of_int i = Finite (of_int i)"

fun is_integer :: "js_number \<Rightarrow> bool" where
  "is_integer (Finite r) = (of_int \<lfloor>r\<rfloor> = r)"
| "is_integer _ = False"

text \<open>\<open>Number.isSafeInteger\<close>: an integer of magnitude at most \<open>2^53 - 1\<close>.\<close>

fun is_safe_integer :: "js_number \<Rightarrow> bool" where
  "is_safe_integer (Finite r) = (of_int \<lfloor>r\<rfloor> = r \<and> \<bar>r\<bar> \<le> 9007199254740991)"
| "is_safe_integer _ = False"

text \<open>The operators \<open><\<close> and \<open><=\<close>: every comparison with NaN is false.\<close>

fun js_less :: "js_number \<Rightarrow> js_number \<Rightarrow> bool" where
  "js_less (Finite a) (Finite b) = (a < b)"
| "js_less (Finite a) PosInfinity = True"
| "js_less NegInfinity (Finite a) = True"
| "js_less NegInfinity PosInfinity = True"
| "js_less _ _ = False"

fun js_less_eq :: "js_number \<Rightarrow> js_number \<Rightarrow> bool" where
  "js_less_eq NotANumber _ = False"
| "js_less_eq _ NotANumber = False"
| "js_less_eq a b = (a = b \<or> js_less a b)"

lemma is_integer_iff: "is_integer n \<longleftrightarrow> (\<exists>i. n = js_of_int i)"
proof (cases n)
  case (Finite r)
  then show ?thesis by (auto simp: js_of_int_def intro: exI [of _ "\<lfloor>r\<rfloor>"])
qed (simp_all add: js_of_int_def)

lemma js_less_of_int [simp]: "js_less (js_of_int a) (js_of_int b) \<longleftrightarrow> a < b"
  by (simp add: js_of_int_def)

lemma js_less_eq_of_int [simp]: "js_less_eq (js_of_int a) (js_of_int b) \<longleftrightarrow> a \<le> b"
  by (auto simp: js_of_int_def)

lemma js_less_eq_refl: "is_integer n \<Longrightarrow> js_less_eq n n"
  by (cases n) auto

lemma upto_join: "\<lbrakk>0 \<le> n; n \<le> m\<rbrakk> \<Longrightarrow> [1 .. n] @ [n + 1 .. m] = [1 .. m :: int]"
  using upto_split2 [of 1 n m] by (cases "n = 0") simp_all

section \<open>Maps\<close>

type_synonym ('k, 'v) jsmap = "('k \<times> 'v) list"

abbreviation map_has :: "('k, 'v) jsmap \<Rightarrow> 'k \<Rightarrow> bool" where
  "map_has m k \<equiv> map_of m k \<noteq> None"

abbreviation keys :: "('k, 'v) jsmap \<Rightarrow> 'k list" where
  "keys m \<equiv> map fst m"

text \<open>
  \<open>for (const [k, v] of m) m.set(k, f v)\<close>: every entry is replaced in place, because setting
  a key that is present keeps its position.
\<close>

definition map_values :: "('v \<Rightarrow> 'v) \<Rightarrow> ('k, 'v) jsmap \<Rightarrow> ('k, 'v) jsmap" where
  "map_values f m = map (\<lambda>(k, v). (k, f v)) m"

lemma keys_map_values [simp]: "keys (map_values f m) = keys m"
  by (simp add: map_values_def case_prod_beta comp_def)

lemma map_of_map_values [simp]: "map_of (map_values f m) k = map_option f (map_of m k)"
  by (induction m) (auto simp: map_values_def)

lemma set_map_values: "set (map_values f m) = (\<lambda>(k, v). (k, f v)) ` set m"
  by (simp add: map_values_def)

lemma map_has_iff: "map_has m k \<longleftrightarrow> k \<in> set (keys m)"
  by (metis map_of_eq_None_iff list.set_map)

lemma map_of_update [simp]:
  "map_of (AList.update k v m) k' = (if k = k' then Some v else map_of m k')"
  by (simp add: update_conv')

lemma map_of_del [simp]:
  "map_of (AList.delete k m) k' = (if k = k' then None else map_of m k')"
  by (simp add: delete_conv')

lemma keys_update:
  "keys (AList.update k v m) = (if k \<in> set (keys m) then keys m else keys m @ [k])"
  by (simp add: update_keys)

lemma keys_delete: "keys (AList.delete k m) = filter (\<lambda>x. x \<noteq> k) (keys m)"
  by (induction m) auto

lemma distinct_keys_update [simp]: "distinct (keys (AList.update k v m)) \<longleftrightarrow> distinct (keys m)"
  by (auto simp: keys_update)

lemma distinct_keys_delete: "distinct (keys m) \<Longrightarrow> distinct (keys (AList.delete k m))"
  by (simp add: keys_delete)

lemma set_update:
  "distinct (keys m) \<Longrightarrow>
   set (AList.update k v m) = insert (k, v) {x \<in> set m. fst x \<noteq> k}"
  by (induction m) (auto simp: rev_image_eqI)

lemma in_update_cases:
  "\<lbrakk>(k', v') \<in> set (AList.update k v m); distinct (keys m)\<rbrakk> \<Longrightarrow>
   (k' = k \<and> v' = v) \<or> (k' \<noteq> k \<and> (k', v') \<in> set m)"
  by (auto simp: set_update)

lemma in_delete_iff: "(k', v') \<in> set (AList.delete k m) \<longleftrightarrow> k' \<noteq> k \<and> (k', v') \<in> set m"
  by (induction m) auto

lemma length_update:
  "length (AList.update k v m) = (if k \<in> set (keys m) then length m else Suc (length m))"
  by (metis keys_update length_append_singleton length_map)

lemma map_of_in_set: "distinct (keys m) \<Longrightarrow> (k, v) \<in> set m \<longleftrightarrow> map_of m k = Some v"
  by (simp only: map_of_eq_Some_iff)

text \<open>Lookups stay lookups: the library would turn them into membership in the list.\<close>

declare map_of_eq_Some_iff [simp del]
declare Some_eq_map_of_iff [simp del]

lemma ball_map_of:
  "distinct (keys m) \<Longrightarrow> (\<forall>(k, v) \<in> set m. P k v) \<longleftrightarrow> (\<forall>k v. map_of m k = Some v \<longrightarrow> P k v)"
proof -
  assume d: "distinct (keys m)"
  show ?thesis
  proof
    assume *: "\<forall>(k, v) \<in> set m. P k v"
    show "\<forall>k v. map_of m k = Some v \<longrightarrow> P k v"
    proof (intro allI impI)
      fix k v
      assume "map_of m k = Some v"
      then have "(k, v) \<in> set m" by (rule map_of_SomeD)
      with * show "P k v" by blast
    qed
  next
    assume *: "\<forall>k v. map_of m k = Some v \<longrightarrow> P k v"
    show "\<forall>(k, v) \<in> set m. P k v"
    proof clarify
      fix k v
      assume "(k, v) \<in> set m"
      then have "map_of m k = Some v" by (simp only: map_of_in_set [OF d])
      with * show "P k v" by blast
    qed
  qed
qed

end
