(* ===== verification/Js_Strings.thy ===== *)
theory Js_Strings
  imports Prelude
begin

text \<open>
  The string functions of the JavaScript standard library that the code uses.

  A string is the sequence of its UTF-8 bytes. Equality, concatenation and prefix tests on
  bytes agree with the same tests on well-formed code-unit strings; a string with a lone
  surrogate is outside the model (\<open>encodeURIComponent\<close> throws on it). On bytes
  \<open>encodeURIComponent\<close> and the escaping of \<open>JSON.stringify\<close> are bytewise, and \<open>trim\<close> removes
  the byte sequences of the white space and line terminator code points of ECMAScript.
\<close>

section \<open>Joining and printing numbers\<close>

definition join_with :: "string \<Rightarrow> string list \<Rightarrow> string" where
  "join_with sep parts =
     (case parts of [] \<Rightarrow> '''' | p # ps \<Rightarrow> p @ concat (map (\<lambda>q. sep @ q) ps))"

text \<open>Decimal digits, as \<open>String(n)\<close> prints an integer.\<close>

fun nat_to_string :: "nat \<Rightarrow> string" where
  "nat_to_string n =
     (if n < 10 then [char_of (48 + n)] else nat_to_string (n div 10) @ [char_of (48 + n mod 10)])"

declare nat_to_string.simps [simp del]

definition int_to_string :: "int \<Rightarrow> string" where
  "int_to_string i = (if i < 0 then ''-'' @ nat_to_string (nat (- i)) else nat_to_string (nat i))"

fun read_digits :: "nat \<Rightarrow> string \<Rightarrow> nat" where
  "read_digits acc [] = acc"
| "read_digits acc (c # cs) = read_digits (acc * 10 + (of_char c - 48)) cs"

lemma read_digits_append: "read_digits acc (xs @ ys) = read_digits (read_digits acc xs) ys"
  by (induction xs arbitrary: acc) auto

lemma of_char_digit: "d < 10 \<Longrightarrow> of_char (char_of (48 + d) :: char) = (48 + d :: nat)"
  by simp

lemma read_nat_to_string: "read_digits 0 (nat_to_string n) = n"
proof (induction n rule: nat_to_string.induct)
  case (1 n)
  show ?case
  proof (cases "n < 10")
    case True
    then show ?thesis by (subst nat_to_string.simps) simp
  next
    case False
    with 1 show ?thesis
      by (subst nat_to_string.simps) (simp add: read_digits_append)
  qed
qed

lemma nat_to_string_inject [simp]: "nat_to_string a = nat_to_string b \<longleftrightarrow> a = b"
  by (metis read_nat_to_string)

lemma nat_to_string_digit: "c \<in> set (nat_to_string n) \<Longrightarrow> 48 \<le> (of_char c :: nat) \<and> (of_char c :: nat) \<le> 57"
proof (induction n rule: nat_to_string.induct)
  case (1 n)
  show ?case
  proof (cases "n < 10")
    case True
    with "1.prems" show ?thesis by (subst (asm) nat_to_string.simps) auto
  next
    case False
    with "1.prems" have "c \<in> set (nat_to_string (n div 10)) \<or> c = char_of (48 + n mod 10)"
      by (subst (asm) nat_to_string.simps) auto
    with False "1.IH" show ?thesis by auto
  qed
qed

lemma nat_to_string_not_minus: "nat_to_string n \<noteq> CHR ''-'' # s"
proof
  assume "nat_to_string n = CHR ''-'' # s"
  then have "CHR ''-'' \<in> set (nat_to_string n)" by simp
  from nat_to_string_digit [OF this] show False by simp
qed

lemma int_to_string_inject [simp]: "int_to_string a = int_to_string b \<longleftrightarrow> a = b"
  by (auto simp: int_to_string_def nat_to_string_not_minus nat_to_string_not_minus [symmetric]
      eq_nat_nat_iff split: if_splits)

section \<open>encodeURIComponent\<close>

definition byte :: "char \<Rightarrow> nat" where
  "byte c = of_char c"

text \<open>Letters, digits and \<open>- _ . ! ~ * ' ( )\<close> are kept, every other byte becomes \<open>%XX\<close>.\<close>

definition uri_unreserved :: "char \<Rightarrow> bool" where
  "uri_unreserved c =
     (let n = byte c in
      (48 \<le> n \<and> n \<le> 57) \<or> (65 \<le> n \<and> n \<le> 90) \<or> (97 \<le> n \<and> n \<le> 122) \<or>
      n \<in> {45, 95, 46, 33, 126, 42, 39, 40, 41})"

definition hex_upper :: "nat \<Rightarrow> char" where
  "hex_upper d = char_of (if d < 10 then 48 + d else 55 + d)"

definition encode_byte :: "char \<Rightarrow> string" where
  "encode_byte c =
     (if uri_unreserved c then [c]
      else [CHR ''%'', hex_upper (byte c div 16), hex_upper (byte c mod 16)])"

definition encode_uri_component :: "string \<Rightarrow> string" where
  "encode_uri_component s = concat (map encode_byte s)"

definition hex_value :: "char \<Rightarrow> nat" where
  "hex_value c = (if byte c < 58 then byte c - 48 else byte c - 55)"

text \<open>The inverse on encoded text, to state that the encoding loses nothing.\<close>

fun decode_uri_component :: "string \<Rightarrow> string" where
  "decode_uri_component (c # h # l # cs) =
     (if c = CHR ''%'' then char_of (16 * hex_value h + hex_value l) # decode_uri_component cs
      else c # decode_uri_component (h # l # cs))"
| "decode_uri_component (c # cs) = c # decode_uri_component cs"
| "decode_uri_component [] = []"

lemma byte_less: "byte c < 256"
  by (metis byte_def nat_of_char_less_256)

lemma byte_char_of [simp]: "n < 256 \<Longrightarrow> byte (char_of n) = n"
  by (simp add: byte_def)

lemma char_of_byte [simp]: "char_of (byte c) = c"
  by (simp add: byte_def)

lemma hex_value_hex_upper: "d < 16 \<Longrightarrow> hex_value (hex_upper d) = d"
  by (auto simp: hex_value_def hex_upper_def)

lemma percent_reserved: "\<not> uri_unreserved CHR ''%''"
  by (simp add: uri_unreserved_def byte_def)

lemma colon_reserved: "\<not> uri_unreserved CHR '':''"
  by (simp add: uri_unreserved_def byte_def)

lemma decode_plain:
  "c \<noteq> CHR ''%'' \<Longrightarrow> decode_uri_component (c # cs) = c # decode_uri_component cs"
  by (cases cs rule: list.exhaust; cases "tl cs") auto

lemma decode_encode_byte:
  "decode_uri_component (encode_byte c @ cs) = c # decode_uri_component cs"
proof (cases "uri_unreserved c")
  case True
  with percent_reserved have "c \<noteq> CHR ''%''" by auto
  with True show ?thesis by (simp add: encode_byte_def decode_plain)
next
  case False
  have "byte c div 16 < 16" using byte_less [of c] by simp
  with False show ?thesis
    by (simp add: encode_byte_def hex_value_hex_upper)
qed

lemma decode_encode_uri_component [simp]: "decode_uri_component (encode_uri_component s) = s"
  by (induction s) (simp_all add: encode_uri_component_def decode_encode_byte)

lemma encode_uri_component_inject [simp]:
  "encode_uri_component a = encode_uri_component b \<longleftrightarrow> a = b"
  by (metis decode_encode_uri_component)

lemma hex_upper_not_colon: "d < 16 \<Longrightarrow> hex_upper d \<noteq> CHR '':''"
proof
  assume "d < 16" "hex_upper d = CHR '':''"
  then have "byte (hex_upper d) = byte CHR '':''" by simp
  with \<open>d < 16\<close> show False by (auto simp: hex_upper_def byte_def split: if_splits)
qed

lemma encode_byte_no_colon: "CHR '':'' \<notin> set (encode_byte c)"
proof -
  have "byte c div 16 < 16" "byte c mod 16 < 16" using byte_less [of c] by simp_all
  then have "hex_upper (byte c div 16) \<noteq> CHR '':''" "hex_upper (byte c mod 16) \<noteq> CHR '':''"
    by (simp_all add: hex_upper_not_colon)
  with colon_reserved show ?thesis by (auto simp: encode_byte_def)
qed

lemma encode_no_colon [simp]: "CHR '':'' \<notin> set (encode_uri_component s)"
  by (simp add: encode_uri_component_def encode_byte_no_colon)

section \<open>trim\<close>

text \<open>
  The number of bytes of the white space character the text starts with, 0 when it starts
  with none: tab, LF, VT, FF, CR, space, U+00A0, U+1680, U+2000 to U+200A, U+2028, U+2029,
  U+202F, U+205F, U+3000, U+FEFF.
\<close>

fun leading_space :: "nat list \<Rightarrow> nat" where
  "leading_space [] = 0"
| "leading_space (a # bs) =
     (if a \<in> {9, 10, 11, 12, 13, 32} then 1
      else case bs of
        [] \<Rightarrow> 0
      | b # cs \<Rightarrow>
          if a = 194 \<and> b = 160 then 2
          else case cs of
            [] \<Rightarrow> 0
          | c # _ \<Rightarrow>
              if (a = 225 \<and> b = 154 \<and> c = 128) \<or>
                 (a = 226 \<and> b = 128 \<and> (128 \<le> c \<and> c \<le> 138 \<or> c \<in> {168, 169, 175})) \<or>
                 (a = 226 \<and> b = 129 \<and> c = 159) \<or>
                 (a = 227 \<and> b = 128 \<and> c = 128) \<or>
                 (a = 239 \<and> b = 187 \<and> c = 191)
              then 3 else 0)"

text \<open>The same for the end of the text, which is given reversed.\<close>

fun trailing_space :: "nat list \<Rightarrow> nat" where
  "trailing_space [] = 0"
| "trailing_space (c # bs) =
     (if c \<in> {9, 10, 11, 12, 13, 32} then 1
      else case bs of
        [] \<Rightarrow> 0
      | b # as \<Rightarrow>
          if b = 194 \<and> c = 160 then 2
          else case as of
            [] \<Rightarrow> 0
          | a # _ \<Rightarrow> if leading_space [a, b, c] = 3 then 3 else 0)"

function drop_spaces :: "(nat list \<Rightarrow> nat) \<Rightarrow> nat list \<Rightarrow> nat list" where
  "drop_spaces f s = (if f s = 0 \<or> s = [] then s else drop_spaces f (drop (f s) s))"
  by pat_completeness auto
termination
  by (relation "measure (\<lambda>(f, s). length s)") auto

declare drop_spaces.simps [simp del]

definition trim :: "string \<Rightarrow> string" where
  "trim s =
     map char_of
       (rev (drop_spaces trailing_space (rev (drop_spaces leading_space (map byte s)))))"

lemma drop_spaces_stop: "f s = 0 \<Longrightarrow> drop_spaces f s = s"
  by (simp add: drop_spaces.simps)

lemma drop_spaces_result: "f (drop_spaces f s) = 0 \<or> drop_spaces f s = []"
proof (induction f s rule: drop_spaces.induct)
  case (1 f s)
  then show ?case by (subst (1 2) drop_spaces.simps) (auto simp: drop_spaces.simps [of f s])
qed

section \<open>JSON text\<close>

definition hex_lower :: "nat \<Rightarrow> char" where
  "hex_lower d = char_of (if d < 10 then 48 + d else 87 + d)"

text \<open>A byte of a string literal as \<open>JSON.stringify\<close> writes it.\<close>

definition json_byte :: "char \<Rightarrow> string" where
  "json_byte c =
     (let n = byte c; bs = char_of (92 :: nat) in
      if n = 34 then [bs, char_of (34 :: nat)]
      else if n = 92 then [bs, bs]
      else if n = 8 then [bs, CHR ''b'']
      else if n = 12 then [bs, CHR ''f'']
      else if n = 10 then [bs, CHR ''n'']
      else if n = 13 then [bs, CHR ''r'']
      else if n = 9 then [bs, CHR ''t'']
      else if n < 32 then [bs, CHR ''u'', CHR ''0'', CHR ''0'', hex_lower (n div 16), hex_lower (n mod 16)]
      else [c])"

definition json_string :: "string \<Rightarrow> string" where
  "json_string s = [char_of (34 :: nat)] @ concat (map json_byte s) @ [char_of (34 :: nat)]"

definition json_array :: "string list \<Rightarrow> string" where
  "json_array items = ''['' @ join_with '','' items @ '']''"

definition json_object :: "(string \<times> string) list \<Rightarrow> string" where
  "json_object fields =
     ''{'' @ join_with '','' (map (\<lambda>(k, v). json_string k @ '':'' @ v) fields) @ ''}''"

section \<open>Joined text splits uniquely\<close>

fun split_at :: "char \<Rightarrow> string \<Rightarrow> string list" where
  "split_at d [] = [[]]"
| "split_at d (c # cs) =
     (if c = d then [] # split_at d cs
      else case split_at d cs of [] \<Rightarrow> [[c]] | p # ps \<Rightarrow> (c # p) # ps)"

lemma split_at_nonempty [simp]: "split_at d s \<noteq> []"
  by (induction s) (auto split: list.splits)

lemma split_at_plain: "d \<notin> set p \<Longrightarrow> split_at d p = [p]"
  by (induction p) auto

lemma split_at_append:
  "d \<notin> set p \<Longrightarrow> split_at d (p @ d # s) = p # split_at d s"
  by (induction p) auto

lemma join_with_Cons:
  "join_with sep (p # q # ps) = p @ sep @ join_with sep (q # ps)"
  by (simp add: join_with_def)

lemma split_join:
  assumes "ps \<noteq> []" "\<forall>p \<in> set ps. d \<notin> set p"
  shows "split_at d (join_with [d] ps) = ps"
  using assms
proof (induction ps)
  case Nil
  then show ?case by simp
next
  case (Cons p ps)
  then show ?case
    by (cases ps) (simp_all add: join_with_def split_at_plain join_with_Cons [unfolded join_with_def] split_at_append)
qed

end
