(* ===== verification/Agent_Ids.thy ===== *)
theory Agent_Ids
  imports Js_Strings
begin

text \<open>
  \<open>packages/domain/src/agent-engine/ids.ts\<close>: identifiers derived from other identifiers.
  The lemmas show that the derivations are injective, so that two different turns,
  attempts, events or native threads never share a derived identifier, and that scoping a
  provider thread id to its session twice is the same as scoping it once.
\<close>

datatype id_part = Text string | Num int

text \<open>\<open>encodeURIComponent(String(part))\<close>\<close>

fun part_text :: "id_part \<Rightarrow> string" where
  "part_text (Text s) = s"
| "part_text (Num i) = int_to_string i"

definition encode :: "id_part \<Rightarrow> string" where
  "encode part = encode_uri_component (part_text part)"

definition join_id :: "id_part list \<Rightarrow> string" where
  "join_id parts = join_with '':'' (map encode parts)"

definition scope_provider_thread_id :: "string \<Rightarrow> string \<Rightarrow> string" where
  "scope_provider_thread_id session_id thread_id =
     (let pre = join_id [Text ''provider-thread'', Text ''session'', Text session_id] @ '':''
      in if prefix pre thread_id then thread_id else pre @ encode (Text thread_id))"

definition derive_attempt :: "string \<Rightarrow> int \<Rightarrow> string" where
  "derive_attempt turn_id ordinal =
     join_id [Text ''attempt'', Text ''turn'', Text turn_id, Text ''ordinal'', Num ordinal]"

definition derive_root_step :: "string \<Rightarrow> int \<Rightarrow> string" where
  "derive_root_step turn_id attempt_ordinal =
     join_id [Text ''step'', Text ''turn'', Text turn_id, Text ''attempt'', Num attempt_ordinal,
              Text ''root'']"

definition derive_provider_thread :: "string \<Rightarrow> string \<Rightarrow> string \<Rightarrow> string" where
  "derive_provider_thread session_id provider native_thread_id =
     scope_provider_thread_id session_id
       (join_id [Text ''provider-thread'', Text ''provider'', Text provider,
                 Text ''native-thread'', Text native_thread_id])"

definition derive_checkpoint_scope :: "string \<Rightarrow> string \<Rightarrow> string" where
  "derive_checkpoint_scope session_id name =
     join_id [Text ''checkpoint-scope'', Text ''session'', Text session_id, Text ''name'', Text name]"

section \<open>Identifiers determine their parts\<close>

lemma encode_no_separator: "CHR '':'' \<notin> set (encode p)"
  by (simp add: encode_def)

lemma split_join_id: "parts \<noteq> [] \<Longrightarrow> split_at CHR '':'' (join_id parts) = map encode parts"
  unfolding join_id_def by (rule split_join) (auto simp: encode_no_separator)

lemma encode_inject [simp]: "encode p = encode q \<longleftrightarrow> part_text p = part_text q"
  by (simp add: encode_def)

lemma join_id_inject:
  assumes "ps \<noteq> []" "qs \<noteq> []" "join_id ps = join_id qs"
  shows "map part_text ps = map part_text qs"
proof -
  from assms have "map encode ps = map encode qs" by (metis split_join_id)
  then have "map decode_uri_component (map encode ps) = map decode_uri_component (map encode qs)"
    by simp
  then show ?thesis by (simp add: encode_def comp_def)
qed

lemma derive_attempt_inject [simp]:
  "derive_attempt t n = derive_attempt t' n' \<longleftrightarrow> t = t' \<and> n = n'"
  by (auto simp: derive_attempt_def dest!: join_id_inject [rotated 2])

lemma derive_root_step_inject [simp]:
  "derive_root_step t n = derive_root_step t' n' \<longleftrightarrow> t = t' \<and> n = n'"
  by (auto simp: derive_root_step_def dest!: join_id_inject [rotated 2])

lemma derive_checkpoint_scope_inject [simp]:
  "derive_checkpoint_scope t n = derive_checkpoint_scope t' n' \<longleftrightarrow> t = t' \<and> n = n'"
  by (auto simp: derive_checkpoint_scope_def dest!: join_id_inject [rotated 2])

section \<open>Provider threads are scoped to their session\<close>

definition thread_prefix :: "string \<Rightarrow> string" where
  "thread_prefix session_id =
     join_id [Text ''provider-thread'', Text ''session'', Text session_id] @ '':''"

lemma scope_eq:
  "scope_provider_thread_id sid t =
     (if prefix (thread_prefix sid) t then t else thread_prefix sid @ encode (Text t))"
  by (simp add: scope_provider_thread_id_def thread_prefix_def Let_def)

lemma scope_has_prefix: "prefix (thread_prefix sid) (scope_provider_thread_id sid t)"
  by (simp add: scope_eq)

lemma scope_idem [simp]:
  "scope_provider_thread_id sid (scope_provider_thread_id sid t) = scope_provider_thread_id sid t"
  using scope_has_prefix [of sid t] by (simp add: scope_eq [of sid "scope_provider_thread_id sid t"])

lemma split_thread_prefix:
  "split_at CHR '':'' (thread_prefix sid @ s) =
     [''provider-thread'', ''session'', encode (Text sid)] @ split_at CHR '':'' s"
proof -
  have enc: "encode (Text ''provider-thread'') = ''provider-thread''"
    "encode (Text ''session'') = ''session''"
    by (simp_all add: encode_def encode_uri_component_def encode_byte_def uri_unreserved_def byte_def)
  show ?thesis
    using split_at_append [OF encode_no_separator, of "Text sid" s]
    by (simp add: thread_prefix_def join_id_def join_with_def enc)
qed

lemma native_thread_id_unscoped:
  "\<not> prefix (thread_prefix sid)
     (join_id [Text ''provider-thread'', Text ''provider'', Text p, Text ''native-thread'', Text n])"
proof
  assume "prefix (thread_prefix sid)
     (join_id [Text ''provider-thread'', Text ''provider'', Text p, Text ''native-thread'', Text n])"
  then obtain s where
    "join_id [Text ''provider-thread'', Text ''provider'', Text p, Text ''native-thread'', Text n] =
       thread_prefix sid @ s"
    by (auto simp: prefix_def)
  then have "map encode [Text ''provider-thread'', Text ''provider'', Text p, Text ''native-thread'', Text n] =
       [''provider-thread'', ''session'', encode (Text sid)] @ split_at CHR '':'' s"
    by (metis split_join_id split_thread_prefix list.distinct(1))
  then have "encode (Text ''provider'') = ''session''" by simp
  then show False
    by (simp add: encode_def encode_uri_component_def encode_byte_def uri_unreserved_def byte_def)
qed

lemma derive_provider_thread_inject [simp]:
  "derive_provider_thread s p n = derive_provider_thread s' p' n' \<longleftrightarrow> s = s' \<and> p = p' \<and> n = n'"
proof
  let ?j = "\<lambda>p n. join_id [Text ''provider-thread'', Text ''provider'', Text p,
    Text ''native-thread'', Text n]"
  assume "derive_provider_thread s p n = derive_provider_thread s' p' n'"
  then have eq: "thread_prefix s @ encode (Text (?j p n)) = thread_prefix s' @ encode (Text (?j p' n'))"
    by (simp add: derive_provider_thread_def scope_eq native_thread_id_unscoped)
  then have "split_at CHR '':'' (thread_prefix s @ encode (Text (?j p n))) =
      split_at CHR '':'' (thread_prefix s' @ encode (Text (?j p' n')))"
    by simp
  then have "s = s'" and "?j p n = ?j p' n'"
    by (auto simp: split_thread_prefix split_at_plain encode_no_separator)
  then show "s = s' \<and> p = p' \<and> n = n'"
    by (auto dest!: join_id_inject [rotated 2])
qed simp

lemma scope_derive_provider_thread [simp]:
  "scope_provider_thread_id s (derive_provider_thread s p n) = derive_provider_thread s p n"
  by (simp add: derive_provider_thread_def)

end
