(* ===== verification/Contracts.thy ===== *)
theory Contracts
  imports Agent_Ids
begin

text \<open>
  The shared vocabulary of \<open>packages/contracts/src\<close> (\<open>session.ts\<close>, \<open>agent.ts\<close>, \<open>naming.ts\<close>)
  and of \<open>packages/domain/src\<close> (\<open>naming.ts\<close>, \<open>agent-engine/delegation.ts\<close>,
  \<open>agent-engine/input-owner.ts\<close>, \<open>conversation/transcript.ts\<close>): the enumerations, the
  references to provider-native objects and the content of a persisted message.

  A subtree of a message whose shape no modelled code reads (an actor, an attachment, the
  unknown input of a tool) is kept as its JSON text.
\<close>

type_synonym json = string

section \<open>Enumerations\<close>

datatype session_status = StatusBooting | StatusIdle | StatusRunning | StatusClosed | StatusError

datatype runtime_mode =
  ModeAuto | ModeApprovalRequired | ModeAutoAcceptEdits | ModeAutoAcceptEditsAndBash | ModeFullAccess

datatype permission_mode = PermissionDefault | PermissionPlan | PermissionAcceptEdits

datatype title_provenance = ProvenancePending | ProvenanceAutomatic | ProvenanceManual

datatype (plugins only: code size) resume_strategy =
  ClaudeSessionId | CodexThreadId | GrokSessionId | CursorSessionId | GeminiSessionId
| OpencodeSessionId | Opencode2SessionId | KiroSessionId | PiSessionFile | MuseSessionId
| ZuseExecutionId | StrategyNone

datatype settlement_outcome = OutcomeCompleted | OutcomeInterrupted | OutcomeError

datatype turn_phase = PhaseRunning | PhaseInterruptRequested | PhaseInterruptAcknowledged

datatype attempt_reason = ReasonInitial | ReasonRetry | ReasonProviderRecovery

datatype segment_kind = SegmentAssistant | SegmentReasoning | SegmentTool

datatype thread_status = ThreadNotLoaded | ThreadIdle | ThreadActive | ThreadClosed | ThreadError

datatype expiry_reason = ReasonExpired | ReasonUncertain

datatype message_role = RoleUser | RoleAssistant | RoleSystem | RoleTool

datatype agent_error_kind = ErrorAuth | ErrorNetwork | ErrorGeneric

datatype background_outcome = BackgroundCompleted | BackgroundFailed | BackgroundStopped

datatype context_precision = PrecisionExact | PrecisionEstimated | PrecisionCapacityOnly

datatype child_presentation = PresentInline | PresentDetached

datatype switch_context = ContextPreserved | ContextHandoff

datatype compaction_status = CompactionInProgress | CompactionCompleted | CompactionFailed

datatype limit_scope = LimitSession | LimitWeekly | LimitModel | LimitOverall

datatype answer_resolution = AnswerCancelled | AnswerTimedOut

text \<open>\<open>titleProvenanceOrManual\<close>\<close>

definition title_provenance_or_manual :: "title_provenance option \<Rightarrow> title_provenance" where
  "title_provenance_or_manual value = or_else value ProvenanceManual"

section \<open>References\<close>

record turn_reference =
  ref_provider :: string
  ref_nativeThreadId :: string
  ref_nativeTurnId :: string

record attempt_owner =
  own_turnId :: string
  own_attemptId :: string

record input_owner =
  io_providerSessionId :: string
  io_attempt :: "attempt_owner option"

record session_delegation =
  dl_parentSessionId :: string
  dl_parentTurnId :: string
  dl_parentAttemptId :: string
  dl_providerSessionId :: string
  dl_childTurnId :: string

record thread_seed =
  seed_provider :: string
  seed_nativeThreadId :: string
  seed_nativeHeadId :: "string option option"

section \<open>Message content\<close>

record message_checkpoint =
  mc_revision :: js_number
  mc_final :: bool

record subagent_ref =
  sub_childSessionId :: string
  sub_presentation :: child_presentation

record question_answer =
  qa_questionIndex :: int
  qa_selected :: "int list"
  qa_other :: "string option"

record user_question =
  uq_question :: string
  uq_options :: "string list"
  uq_multiSelect :: "bool option"

record tool_use =
  tu_itemId :: string
  tu_tool :: string
  tu_input :: json
  tu_parentItemId :: "string option"
  tu_backgroundTask :: "string option"
  tu_subagent :: "subagent_ref option"

record tool_result =
  tr_itemId :: string
  tr_output :: json
  tr_isError :: bool
  tr_parentItemId :: "string option"
  tr_backgroundOutcome :: "background_outcome option"

record subagent_summary =
  ss_itemId :: string
  ss_agentName :: string
  ss_model :: string
  ss_turns :: js_number
  ss_durationMs :: js_number
  ss_summary :: string
  ss_isError :: bool
  ss_childSessionId :: "string option"
  ss_presentation :: "child_presentation option"

record subagent_progress =
  sp_rootCompleted :: "bool option"
  sp_childId :: string
  sp_parentId :: string
  sp_childSessionId :: string
  sp_status :: string
  sp_durationMs :: js_number
  sp_turns :: js_number
  sp_toolCalls :: js_number
  sp_tokens :: js_number
  sp_contextPercentage :: js_number
  sp_toolsUsed :: "string list"
  sp_errorCount :: js_number

text \<open>
  The union \<open>MessageContent\<close>. The arguments of a constructor are the fields of its struct in
  the order of the source.
\<close>

datatype (plugins only: code size) message_content =
  UserContent string "json option" "json option" "json list option" "json option" "bool option"
| UserRichContent string "json option" "json list" "json list" "json list" "json list"
    "json option" "json list option" "json option" "bool option"
| AssistantContent "string option" string "message_checkpoint option" "bool option" "string option"
| ThinkingContent string string bool "message_checkpoint option" "string option"
| ToolUseContent tool_use
| ToolResultContent tool_result
| ErrorContent string "agent_error_kind option"
| InterruptedContent
| ModelSwitchContent string string string string switch_context
| SubagentSummaryContent subagent_summary
| SubagentProgressContent subagent_progress
| UsageContent "string option" js_number js_number js_number js_number string
| ContextUsageContent string "js_number option" "js_number option" context_precision "string option"
| ContextCompactionContent string string js_number js_number "js_number option" "js_number option"
    compaction_status
| UsageLimitContent "string option" "limit_scope option" string string "js_number option"
    "string option" "js_number option"
| UserQuestionContent string "user_question list" "string option"
| UserQuestionAnswerContent "answer_resolution option" string "question_answer list" "string option"
| UiSpecContent string

text \<open>\<open>content._tag\<close>\<close>

fun content_tag :: "message_content \<Rightarrow> string" where
  "content_tag (UserContent _ _ _ _ _ _) = ''user''"
| "content_tag (UserRichContent _ _ _ _ _ _ _ _ _ _) = ''user_rich''"
| "content_tag (AssistantContent _ _ _ _ _) = ''assistant''"
| "content_tag (ThinkingContent _ _ _ _ _) = ''thinking''"
| "content_tag (ToolUseContent _) = ''tool_use''"
| "content_tag (ToolResultContent _) = ''tool_result''"
| "content_tag (ErrorContent _ _) = ''error''"
| "content_tag InterruptedContent = ''interrupted''"
| "content_tag (ModelSwitchContent _ _ _ _ _) = ''model_switch''"
| "content_tag (SubagentSummaryContent _) = ''subagent_summary''"
| "content_tag (SubagentProgressContent _) = ''subagent_progress''"
| "content_tag (UsageContent _ _ _ _ _ _) = ''usage''"
| "content_tag (ContextUsageContent _ _ _ _ _) = ''context_usage''"
| "content_tag (ContextCompactionContent _ _ _ _ _ _ _) = ''context_compaction''"
| "content_tag (UsageLimitContent _ _ _ _ _ _ _) = ''usage_limit''"
| "content_tag (UserQuestionContent _ _ _) = ''user_question''"
| "content_tag (UserQuestionAnswerContent _ _ _ _) = ''user_question_answer''"
| "content_tag (UiSpecContent _) = ''ui_spec''"

section \<open>Transcripts\<close>

definition transcript_skip_kinds :: "string list" where
  "transcript_skip_kinds =
     [''usage'', ''context_usage'', ''context_compaction'', ''usage_limit'', ''subagent_progress'']"

definition should_include_in_transcript :: "message_content \<Rightarrow> bool" where
  "should_include_in_transcript content = (content_tag content \<notin> set transcript_skip_kinds)"

definition fork_message_id :: "string \<Rightarrow> string \<Rightarrow> string" where
  "fork_message_id session_id source_id = ''fork:'' @ session_id @ '':'' @ source_id"

end
