(* ===== verification/Session_Types.thy ===== *)
theory Session_Types
  imports Contracts
begin

text \<open>
  The commands and events of a session: \<open>core/commands.ts\<close>, \<open>core/events.ts\<close> and
  \<open>core/session-fields.ts\<close> of \<open>packages/domain/src\<close>. Every struct of the two unions is a
  constructor. The arguments are the fields in the order of the source; a struct with many
  fields has a record.
\<close>

section \<open>Session fields\<close>

text \<open>The fields of \<open>SessionCreatedFields\<close>, which both creation commands carry.\<close>

record create_session =
  cs_delegation :: "session_delegation option"
  cs_sessionId :: string
  cs_chatId :: string
  cs_projectId :: string
  cs_createdAt :: int
  cs_title :: string
  cs_titleProvenance :: "title_provenance option"
  cs_providerId :: string
  cs_model :: string
  cs_status :: session_status
  cs_cursor :: "string option option"
  cs_resumeStrategy :: "resume_strategy option"
  cs_runtimeMode :: runtime_mode
  cs_agentsJson :: "string option"
  cs_worktreeId :: "string option"
  cs_forkedFromSessionId :: "string option"
  cs_forkedFromMessageId :: "string option"
  cs_permissionMode :: permission_mode
  cs_toolSearch :: bool
  cs_queuePaused :: bool
  cs_providerStartJson :: "string option"
  cs_providerThread :: "thread_seed option"

text \<open>
  \<open>SessionCreatedEventFields\<close> with \<open>providerStartJson\<close>: a stored event of an older version can
  lack the configuration.
\<close>

record session_created =
  sc_delegation :: "session_delegation option"
  sc_sessionId :: string
  sc_chatId :: string
  sc_projectId :: string
  sc_createdAt :: int
  sc_title :: "string option"
  sc_titleProvenance :: "title_provenance option"
  sc_providerId :: "string option"
  sc_model :: "string option"
  sc_status :: "session_status option"
  sc_cursor :: "string option option"
  sc_resumeStrategy :: "resume_strategy option"
  sc_runtimeMode :: "runtime_mode option"
  sc_agentsJson :: "string option option"
  sc_worktreeId :: "string option option"
  sc_forkedFromSessionId :: "string option option"
  sc_forkedFromMessageId :: "string option option"
  sc_permissionMode :: "permission_mode option"
  sc_toolSearch :: "bool option"
  sc_queuePaused :: "bool option"
  sc_providerStartJson :: "string option"

section \<open>Shared payloads\<close>

text \<open>\<open>ProviderThreadSnapshot\<close>, which is also the state kept of a provider thread.\<close>

record provider_thread =
  pt_id :: string
  pt_provider :: string
  pt_nativeThreadId :: string
  pt_nativeHeadId :: "string option"
  pt_status :: thread_status
  pt_firstTurnOrdinal :: "int option"
  pt_lastTurnOrdinal :: "int option"
  pt_createdAt :: int
  pt_updatedAt :: int

text \<open>The command \<open>PersistMessage\<close> and the event \<open>MessagePersisted\<close> have the same fields.\<close>

record message_fields =
  mf_inputOwner :: "input_owner option"
  mf_messageId :: string
  mf_turnId :: "string option"
  mf_role :: string
  mf_kind :: string
  mf_contentJson :: string
  mf_parentItemId :: "string option"
  mf_checkpointRevision :: "js_number option"
  mf_checkpointFinal :: "bool option"
  mf_createdAt :: int

record attempt_started =
  as_turnId :: string
  as_attemptId :: string
  as_ordinal :: int
  as_reason :: attempt_reason
  as_startedAt :: int
  as_turnOrdinal :: int
  as_providerThreadId :: "string option"
  as_turnRequestedAt :: int

record turns_rolled_back =
  rb_rolledBackTurnIds :: "string list option"
  rb_throughOrdinal :: js_number
  rb_messageSequence :: int
  rb_removedMessageIds :: "string list"
  rb_rolledBackAt :: int

record successor =
  su_predecessorTurnId :: string
  su_turnId :: string
  su_queueId :: string
  su_inputJson :: string

record queued_turn =
  qt_queueId :: string
  qt_inputJson :: string
  qt_position :: int
  qt_createdAt :: int
  qt_ready :: bool

section \<open>Events\<close>

datatype (plugins only: code size) session_event =
  SessionCreated session_created
| SessionTitleSet string "title_provenance option" int
| SessionModelSet string int
| SessionProviderSet string string int
| SessionRuntimeModeSet runtime_mode int
| SessionPermissionModeSet permission_mode int
| SessionWorktreeSet "string option" int
| SessionStatusSet session_status int
| SessionQueuePausedSet bool int
| SessionResumeSet "string option" "resume_strategy option" "string option option" int
| ProviderThreadUpdated provider_thread
| ActiveProviderThreadSet "string option" int
| SessionArchived int
| SessionUnarchived int
| SessionDeleted int
| TurnStarted string int "int option" "string option" "string option option"
| AttemptProviderTurnBound string string turn_reference int
| AttemptStarted attempt_started
| ProviderRecoveryRequested string string string turn_reference int
| ProviderTurnRequested string "string option" string "string option" int
| TurnsRolledBack turns_rolled_back
| TurnFinalizationRequested string string settlement_outcome int
| TurnSettled string settlement_outcome int
| TurnInterruptRequested string "string option" int
| TurnInterruptAcknowledged string int
| TurnInterruptFailed string string int
| QueuedTurnEnqueued queued_turn
| QueuedTurnUpdated string string int bool
| QueuedTurnRemoved string int
| QueuedTurnsReordered "string list" int
| QueuedTurnClaimed string int
| SuccessorTurnScheduled successor int
| ScheduledSuccessorReady successor int
| MessagePersisted message_fields
| SegmentOpened string string segment_kind int
| SegmentSettled string string settlement_outcome int
| PermissionRequested "input_owner option" string string string int
| PermissionResolved string string "string option" int
| PermissionExpired string int
| PlanExpired string expiry_reason int
| QuestionExpired string int
| QuestionResolved string int
| ProviderSessionReserved string string int
| ProviderAttached string "string option" int
| ProviderStopRequested string "string option" int
| ProviderDetached string "string option" int

section \<open>Commands\<close>

record initial_turn =
  it_turnId :: string
  it_messageId :: string
  it_messageContentJson :: string
  it_providerInputJson :: string

record submit_turn =
  st_turnId :: string
  st_messageId :: string
  st_role :: string
  st_kind :: string
  st_contentJson :: string
  st_parentItemId :: "string option"
  st_providerInputJson :: string
  st_createdAt :: int

record reserve_provider =
  rp_ownerAttempt :: "attempt_owner option"
  rp_expectedModel :: "string option"
  rp_expectedWorktreeId :: "string option option"
  rp_providerId :: string
  rp_providerSessionId :: string
  rp_reservedAt :: int

datatype (plugins only: code size) session_command =
  CreateSession create_session
| CreateSessionWithInitialTurn create_session initial_turn
| SetTitle string "title_provenance option" int
| SetModel string int
| SetProvider "string option" "string option option" string string int
| SetRuntimeMode runtime_mode int
| SetPermissionMode permission_mode int
| SetWorktree "string option" int "bool option"
| SetStatus session_status int
| SetQueuePaused bool int
| ReleaseInitialTurn string string "string option" int
| BindAttemptProviderTurn string string turn_reference int
| BindProviderThread string "string option option" int
| ExpireAttempt string string int
| RecoverTurn string string int
| RetryTurn string attempt_reason string "string option" int
| ArchiveSession int
| UnarchiveSession int
| DeleteSession int
| StartTurn string int
| SubmitTurn submit_turn
| RollbackTurns js_number int "string list" int
| FinalizeTurn string settlement_outcome int
| SettleTurn string settlement_outcome int
| RequestTurnInterrupt "string option" int
| AcknowledgeTurnInterrupt string int
| FailTurnInterrupt string string int
| EnqueueTurn queued_turn
| UpdateQueuedTurn string string int bool
| ClaimQueuedTurn string int
| RemoveQueuedTurn string int
| ReorderQueuedTurns "string list" int
| SteerQueuedTurn string string string int
| PersistMessage message_fields
| OpenSegment string string segment_kind int
| SettleSegment string string settlement_outcome int
| RequestPermission "input_owner option" string string string int
| ResolvePermission string string "string option" int
| ExpirePermission string int
| ExpirePlan string expiry_reason int
| ExpireQuestion string int
| ResolveQuestion string int
| ReserveProviderSession reserve_provider
| AttachProvider string "string option" int
| RequestProviderStop int
| DetachProvider int "string option option"

end
