(* ===== verification/Session_State.thy ===== *)
theory Session_State
  imports Session_Types
begin

text \<open>
  The state of a session and the fold of its events: \<open>core/state.ts\<close> of
  \<open>packages/domain/src\<close>.

  Every branch of \<open>evolve\<close> with a body of its own is a definition \<open>evolve_<Event>\<close>. A helper
  that returns some fields of the state, which its callers spread over \<open>...state\<close>, is a
  state transformer here. \<open>dec\<close> is the JSON decoder of message content, which belongs to the
  schema library.
\<close>

section \<open>State\<close>

record open_segment =
  seg_turnId :: string
  seg_kind :: segment_kind

datatype attempt_status =
  AttemptRunning | AttemptCompleted | AttemptInterrupted | AttemptFailed | AttemptSuperseded

record attempt_state =
  att_id :: string
  att_ordinal :: int
  att_reason :: attempt_reason
  att_status :: attempt_status
  att_startedAt :: int
  att_completedAt :: "int option"

datatype turn_status =
  TurnRolledBack | TurnFinalizing | TurnStarting | TurnRunning | TurnCompleted | TurnInterrupted
| TurnFailed

record turn_state =
  tn_id :: string
  tn_ordinal :: int
  tn_status :: turn_status
  tn_phase :: "turn_phase option"
  tn_providerThreadId :: "string option"
  tn_activeAttemptId :: string
  tn_attempts :: "(string, attempt_state) jsmap"
  tn_requestedAt :: int
  tn_completedAt :: "int option"

record attempt_recovery =
  rec_sourceAttemptId :: string
  rec_reference :: turn_reference

record provider_reservation =
  rsv_providerId :: string
  rsv_providerSessionId :: string

record session_state =
  exists :: bool
  sessionId :: "string option"
  chatId :: "string option"
  projectId :: "string option"
  title :: "string option"
  titleProvenance :: title_provenance
  model :: "string option"
  status :: "session_status option"
  queuePaused :: bool
  runtimeMode :: "runtime_mode option"
  worktreeId :: "string option"
  permissionMode :: "permission_mode option"
  archived :: bool
  deleted :: bool
  providerThreads :: "(string, provider_thread) jsmap"
  activeProviderThreadId :: "string option"
  turns :: "(string, turn_state) jsmap"
  attemptRecoveries :: "(string, attempt_recovery) jsmap"
  attemptProviderTurns :: "(string, turn_reference) jsmap"
  turnCount :: int
  currentTurnId :: "string option"
  currentTurnPhase :: "turn_phase option"
  lastSettledTurnId :: "string option"
  lastSettlementOutcome :: "settlement_outcome option"
  settledTurnIds :: "string set"
  queuedTurns :: "(string, queued_turn) jsmap"
  queueOrder :: "string list"
  scheduledSuccessor :: "successor option"
  openSegments :: "(string, open_segment) jsmap"
  messageIds :: "string set"
  messageCheckpoints :: "(string, message_checkpoint) jsmap"
  pendingPermissionIds :: "string set"
  expiredPermissionIds :: "string set"
  expiredQuestionIds :: "string set"
  expiredPlanIds :: "string set"
  resolvedQuestionIds :: "string set"
  providerId :: "string option"
  attachedProviderId :: "string option"
  attachedProviderSessionId :: "string option"
  providerReservation :: "provider_reservation option"
  version :: int

definition initial_session_state :: session_state where
  "initial_session_state =
     \<lparr>exists = False, sessionId = None, chatId = None, projectId = None, title = None,
      titleProvenance = ProvenanceManual, model = None, status = None, queuePaused = False,
      runtimeMode = None, worktreeId = None, permissionMode = None, archived = False,
      deleted = False, providerThreads = [], activeProviderThreadId = None, turns = [],
      attemptRecoveries = [], attemptProviderTurns = [], turnCount = 0, currentTurnId = None,
      currentTurnPhase = None, lastSettledTurnId = None, lastSettlementOutcome = None,
      settledTurnIds = {}, queuedTurns = [], queueOrder = [], scheduledSuccessor = None,
      openSegments = [], messageIds = {}, messageCheckpoints = [], pendingPermissionIds = {},
      expiredPermissionIds = {}, expiredQuestionIds = {}, expiredPlanIds = {},
      resolvedQuestionIds = {}, providerId = None, attachedProviderId = None,
      attachedProviderSessionId = None, providerReservation = None, version = 0\<rparr>"

type_synonym decoder = "string \<Rightarrow> message_content option"

section \<open>Helpers\<close>

text \<open>\<open>added\<close> and \<open>removed\<close> are \<open>insert\<close> and set difference.\<close>

definition provider_thread_id_for :: "string \<Rightarrow> string \<Rightarrow> string \<Rightarrow> string" where
  "provider_thread_id_for session_id provider native_thread_id =
     derive_provider_thread session_id provider native_thread_id"

definition attempt_id_for :: "string \<Rightarrow> int \<Rightarrow> string" where
  "attempt_id_for turn_id ordinal = derive_attempt turn_id ordinal"

definition current_turn :: "session_state \<Rightarrow> turn_state option" where
  "current_turn s = (case currentTurnId s of None \<Rightarrow> None | Some t \<Rightarrow> map_of (turns s) t)"

definition with_provider_thread ::
  "session_state \<Rightarrow> provider_thread \<Rightarrow> bool \<Rightarrow> session_state" where
  "with_provider_thread s thread make_active =
     s\<lparr>providerThreads := AList.update (pt_id thread) thread (providerThreads s),
       activeProviderThreadId :=
         (if make_active then Some (pt_id thread) else activeProviderThreadId s)\<rparr>"

definition bind_legacy_resume ::
  "session_state \<Rightarrow> string \<Rightarrow> string option option \<Rightarrow> int \<Rightarrow> session_state" where
  "bind_legacy_resume s native_thread_id native_head_id tm =
     (let provider = or_else (providerId s) ''unknown'';
          key = provider_thread_id_for (or_else (sessionId s) '''') provider native_thread_id;
          existing = map_of (providerThreads s) key;
          turn = current_turn s in
      with_provider_thread s
        \<lparr>pt_id = key, pt_provider = provider, pt_nativeThreadId = native_thread_id,
         pt_nativeHeadId =
           (case native_head_id of
              None \<Rightarrow> Option.bind existing pt_nativeHeadId
            | Some head \<Rightarrow> head),
         pt_status = (if currentTurnId s = None then ThreadIdle else ThreadActive),
         pt_firstTurnOrdinal =
           or_opt (Option.bind existing pt_firstTurnOrdinal) (map_option tn_ordinal turn),
         pt_lastTurnOrdinal =
           or_opt (map_option tn_ordinal turn) (Option.bind existing pt_lastTurnOrdinal),
         pt_createdAt = or_else (map_option pt_createdAt existing) tm,
         pt_updatedAt = tm\<rparr>
        True)"

definition retire_active_provider_thread :: "session_state \<Rightarrow> int \<Rightarrow> session_state" where
  "retire_active_provider_thread s tm =
     (case activeProviderThreadId s of
        None \<Rightarrow> s\<lparr>activeProviderThreadId := None\<rparr>
      | Some key \<Rightarrow>
          (case map_of (providerThreads s) key of
             None \<Rightarrow> s\<lparr>activeProviderThreadId := None\<rparr>
           | Some active \<Rightarrow>
               s\<lparr>providerThreads :=
                   AList.update (pt_id active)
                     (active\<lparr>pt_status := ThreadClosed, pt_updatedAt := tm\<rparr>) (providerThreads s),
                 activeProviderThreadId := None\<rparr>))"

definition with_turn :: "session_state \<Rightarrow> turn_state \<Rightarrow> session_state" where
  "with_turn s turn =
     s\<lparr>turns := AList.update (tn_id turn) turn (turns s),
       turnCount := max (turnCount s) (tn_ordinal turn)\<rparr>"

definition with_turn_phase :: "session_state \<Rightarrow> string \<Rightarrow> turn_phase \<Rightarrow> session_state" where
  "with_turn_phase s turn_id phase =
     (case map_of (turns s) turn_id of
        None \<Rightarrow> s
      | Some turn \<Rightarrow>
          if currentTurnId s \<noteq> Some turn_id then s
          else s\<lparr>turns := AList.update turn_id (turn\<lparr>tn_phase := Some phase\<rparr>) (turns s),
                 currentTurnPhase := Some phase\<rparr>)"

text \<open>\<open>version\<close>: every event adds one.\<close>

definition next_version :: "session_state \<Rightarrow> session_state" where
  "next_version s = s\<lparr>version := version s + 1\<rparr>"

section \<open>Branches of the fold\<close>

text \<open>
  The collections \<open>evolveAll\<close> owns are updated in place; \<open>evolveMessage\<close> without them works
  on copies. The objects are the ones of the state that is returned.
\<close>

record message_collections =
  own_messageIds :: "string set"
  own_messageCheckpoints :: "(string, message_checkpoint) jsmap"

definition evolve_message ::
  "decoder \<Rightarrow> session_state \<Rightarrow> message_fields \<Rightarrow> int \<Rightarrow> message_collections option \<Rightarrow> session_state" where
  "evolve_message dec s m version' owned =
     (let answered =
            (if mf_kind m = ''user_question_answer'' then
               (case dec (mf_contentJson m) of
                  Some (UserQuestionAnswerContent _ item_id _ _) \<Rightarrow> {item_id}
                | _ \<Rightarrow> {})
             else {});
          checkpoints = or_else (map_option own_messageCheckpoints owned) (messageCheckpoints s);
          ids = or_else (map_option own_messageIds owned) (messageIds s) in
      s\<lparr>expiredQuestionIds := expiredQuestionIds s - answered,
        resolvedQuestionIds := resolvedQuestionIds s \<union> answered,
        messageIds := insert (mf_messageId m) ids,
        messageCheckpoints :=
          (case mf_checkpointRevision m of
             None \<Rightarrow> checkpoints
           | Some revision \<Rightarrow>
               AList.update (mf_messageId m)
                 \<lparr>mc_revision = revision, mc_final = (mf_checkpointFinal m = Some True)\<rparr>
                 checkpoints),
        version := version'\<rparr>)"

definition evolve_SessionCreated :: "session_state \<Rightarrow> session_created \<Rightarrow> session_state" where
  "evolve_SessionCreated s e =
     (let created =
            s\<lparr>exists := True,
              sessionId := Some (sc_sessionId e),
              chatId := Some (sc_chatId e),
              projectId := Some (sc_projectId e),
              title := sc_title e,
              titleProvenance := title_provenance_or_manual (sc_titleProvenance e),
              providerId := sc_providerId e,
              model := sc_model e,
              status := sc_status e,
              runtimeMode := sc_runtimeMode e,
              worktreeId := or_null (sc_worktreeId e),
              permissionMode := sc_permissionMode e,
              queuePaused := or_else (sc_queuePaused e) False,
              version := version s + 1\<rparr> in
      case or_null (sc_cursor e) of
        None \<Rightarrow> created
      | Some cursor \<Rightarrow> bind_legacy_resume created cursor (Some None) (sc_createdAt e))"

definition evolve_SessionProviderSet ::
  "session_state \<Rightarrow> string \<Rightarrow> string \<Rightarrow> int \<Rightarrow> session_state" where
  "evolve_SessionProviderSet s provider' model' tm =
     (retire_active_provider_thread s tm)
       \<lparr>providerId := Some provider', model := Some model', attachedProviderId := None,
        attachedProviderSessionId := None, providerReservation := None,
        version := version s + 1\<rparr>"

definition evolve_SessionWorktreeSet ::
  "session_state \<Rightarrow> string option \<Rightarrow> int \<Rightarrow> session_state" where
  "evolve_SessionWorktreeSet s worktree tm =
     (if worktreeId s = worktree then s else retire_active_provider_thread s tm)
       \<lparr>worktreeId := worktree,
        providerReservation := (if worktreeId s = worktree then providerReservation s else None),
        version := version s + 1\<rparr>"

definition evolve_SessionStatusSet :: "session_state \<Rightarrow> session_status \<Rightarrow> session_state" where
  "evolve_SessionStatusSet s status' =
     (case current_turn s of
        None \<Rightarrow> s\<lparr>status := Some status', version := version s + 1\<rparr>
      | Some current \<Rightarrow>
          if status' = StatusRunning \<and> tn_status current = TurnStarting
          then (with_turn s (current\<lparr>tn_status := TurnRunning\<rparr>))
                 \<lparr>status := Some status', version := version s + 1\<rparr>
          else s\<lparr>status := Some status', version := version s + 1\<rparr>)"

definition evolve_ProviderThreadUpdated :: "session_state \<Rightarrow> provider_thread \<Rightarrow> session_state" where
  "evolve_ProviderThreadUpdated s thread =
     (let key = scope_provider_thread_id (or_else (sessionId s) '''') (pt_id thread);
          previous = map_of (providerThreads s) key in
      next_version
        (with_provider_thread s
           (thread\<lparr>pt_id := key,
                   pt_createdAt := or_else (map_option pt_createdAt previous) (pt_createdAt thread)\<rparr>)
           False))"

definition started_turn :: "string \<Rightarrow> int \<Rightarrow> int \<Rightarrow> string \<Rightarrow> string option \<Rightarrow> turn_state" where
  "started_turn turn_id ordinal started_at attempt_id thread_id =
     \<lparr>tn_id = turn_id, tn_ordinal = ordinal, tn_status = TurnStarting,
      tn_phase = Some PhaseRunning, tn_providerThreadId = thread_id,
      tn_activeAttemptId = attempt_id,
      tn_attempts =
        [(attempt_id,
          \<lparr>att_id = attempt_id, att_ordinal = 1, att_reason = ReasonInitial,
           att_status = AttemptRunning, att_startedAt = started_at, att_completedAt = None\<rparr>)],
      tn_requestedAt = started_at, tn_completedAt = None\<rparr>"

text \<open>The thread a turn starts on: the active one for an event that does not name any.\<close>

definition event_thread :: "session_state \<Rightarrow> string option option \<Rightarrow> string option" where
  "event_thread s thread_id =
     (case thread_id of
        None \<Rightarrow> activeProviderThreadId s
      | Some None \<Rightarrow> None
      | Some (Some key) \<Rightarrow> Some (scope_provider_thread_id (or_else (sessionId s) '''') key))"

definition evolve_TurnStarted ::
  "session_state \<Rightarrow> string \<Rightarrow> int \<Rightarrow> int option \<Rightarrow> string option \<Rightarrow> string option option \<Rightarrow> session_state"
where
  "evolve_TurnStarted s turn_id started_at event_ordinal event_attempt_id event_thread_id =
     (let ordinal = or_else event_ordinal (turnCount s + 1);
          attempt_id = or_else event_attempt_id (attempt_id_for turn_id 1);
          thread_id = event_thread s event_thread_id;
          started = with_turn s (started_turn turn_id ordinal started_at attempt_id thread_id);
          threaded =
            (case Option.bind thread_id (map_of (providerThreads s)) of
               None \<Rightarrow> started
             | Some thread \<Rightarrow>
                 with_provider_thread started
                   (thread\<lparr>pt_status := ThreadActive,
                           pt_firstTurnOrdinal :=
                             Some (or_else (pt_firstTurnOrdinal thread) ordinal),
                           pt_lastTurnOrdinal := Some ordinal,
                           pt_updatedAt := started_at\<rparr>)
                   False) in
      threaded\<lparr>currentTurnId := Some turn_id, currentTurnPhase := Some PhaseRunning,
               version := version s + 1\<rparr>)"

definition evolve_AttemptProviderTurnBound ::
  "session_state \<Rightarrow> string \<Rightarrow> string \<Rightarrow> turn_reference \<Rightarrow> session_state" where
  "evolve_AttemptProviderTurnBound s turn_id attempt_id reference =
     (let attempt =
            Option.bind (map_of (turns s) turn_id) (\<lambda>t. map_of (tn_attempts t) attempt_id) in
      if attempt = None \<or> map_has (attemptProviderTurns s) attempt_id then next_version s
      else next_version
             (s\<lparr>attemptProviderTurns :=
                  AList.update attempt_id reference (attemptProviderTurns s)\<rparr>))"

definition start_attempt :: "turn_state \<Rightarrow> attempt_started \<Rightarrow> turn_state" where
  "start_attempt turn e =
     (let attempts =
            (case map_of (tn_attempts turn) (tn_activeAttemptId turn) of
               None \<Rightarrow> tn_attempts turn
             | Some previous \<Rightarrow>
                 if att_status previous = AttemptRunning
                 then AList.update (att_id previous)
                        (previous\<lparr>att_status := AttemptSuperseded,
                                  att_completedAt := Some (as_startedAt e)\<rparr>)
                        (tn_attempts turn)
                 else tn_attempts turn) in
      turn\<lparr>tn_status := TurnStarting, tn_phase := Some PhaseRunning,
           tn_activeAttemptId := as_attemptId e,
           tn_attempts :=
             AList.update (as_attemptId e)
               \<lparr>att_id = as_attemptId e, att_ordinal = as_ordinal e, att_reason = as_reason e,
                att_status = AttemptRunning, att_startedAt = as_startedAt e,
                att_completedAt = None\<rparr>
               attempts\<rparr>)"

definition evolve_AttemptStarted :: "session_state \<Rightarrow> attempt_started \<Rightarrow> session_state" where
  "evolve_AttemptStarted s e =
     (case map_of (turns s) (as_turnId e) of
        None \<Rightarrow> next_version s
      | Some turn \<Rightarrow>
          (with_turn s (start_attempt turn e))
            \<lparr>currentTurnPhase :=
               (if currentTurnId s = Some (as_turnId e) then Some PhaseRunning
                else currentTurnPhase s),
             version := version s + 1\<rparr>)"

definition evolve_TurnsRolledBack :: "session_state \<Rightarrow> turns_rolled_back \<Rightarrow> session_state" where
  "evolve_TurnsRolledBack s e =
     s\<lparr>turns :=
         map_values
           (\<lambda>turn. if js_less (rb_throughOrdinal e) (js_of_int (tn_ordinal turn))
                   then turn\<lparr>tn_status := TurnRolledBack\<rparr> else turn)
           (turns s),
       messageIds := messageIds s - set (rb_removedMessageIds e),
       messageCheckpoints := fold AList.delete (rb_removedMessageIds e) (messageCheckpoints s),
       providerThreads :=
         map_values
           (\<lambda>thread. thread\<lparr>pt_status := ThreadClosed, pt_updatedAt := rb_rolledBackAt e\<rparr>)
           (providerThreads s),
       pendingPermissionIds := {},
       expiredPermissionIds := expiredPermissionIds s \<union> pendingPermissionIds s,
       activeProviderThreadId := None,
       lastSettledTurnId := None,
       lastSettlementOutcome := None,
       version := version s + 1\<rparr>"

definition evolve_TurnFinalizationRequested :: "session_state \<Rightarrow> string \<Rightarrow> session_state" where
  "evolve_TurnFinalizationRequested s turn_id =
     (case map_of (turns s) turn_id of
        None \<Rightarrow> next_version s
      | Some turn \<Rightarrow> next_version (with_turn s (turn\<lparr>tn_status := TurnFinalizing\<rparr>)))"

text \<open>The status a settled turn and its active attempt get from the outcome.\<close>

fun outcome_turn_status :: "settlement_outcome \<Rightarrow> turn_status" where
  "outcome_turn_status OutcomeCompleted = TurnCompleted"
| "outcome_turn_status OutcomeInterrupted = TurnInterrupted"
| "outcome_turn_status OutcomeError = TurnFailed"

fun outcome_attempt_status :: "settlement_outcome \<Rightarrow> attempt_status" where
  "outcome_attempt_status OutcomeCompleted = AttemptCompleted"
| "outcome_attempt_status OutcomeInterrupted = AttemptInterrupted"
| "outcome_attempt_status OutcomeError = AttemptFailed"

definition settle_turn_state :: "turn_state \<Rightarrow> settlement_outcome \<Rightarrow> int \<Rightarrow> turn_state" where
  "settle_turn_state turn outcome tm =
     turn\<lparr>tn_status := outcome_turn_status outcome, tn_phase := None,
          tn_attempts :=
            (case map_of (tn_attempts turn) (tn_activeAttemptId turn) of
               None \<Rightarrow> tn_attempts turn
             | Some active \<Rightarrow>
                 AList.update (att_id active)
                   (active\<lparr>att_status := outcome_attempt_status outcome,
                           att_completedAt := Some tm\<rparr>)
                   (tn_attempts turn)),
          tn_completedAt := Some tm\<rparr>"

definition evolve_TurnSettled ::
  "session_state \<Rightarrow> string \<Rightarrow> settlement_outcome \<Rightarrow> int \<Rightarrow> session_state" where
  "evolve_TurnSettled s turn_id outcome tm =
     (let turns' =
            (case map_of (turns s) turn_id of
               None \<Rightarrow> turns s
             | Some turn \<Rightarrow>
                 AList.update (tn_id turn) (settle_turn_state turn outcome tm) (turns s));
          threaded =
            (case Option.bind (activeProviderThreadId s) (map_of (providerThreads s)) of
               None \<Rightarrow> s
             | Some thread \<Rightarrow>
                 if pt_status thread \<noteq> ThreadActive then s
                 else with_provider_thread s
                        (thread\<lparr>pt_status := ThreadIdle, pt_updatedAt := tm\<rparr>) False) in
      threaded\<lparr>turns := turns', currentTurnId := None, currentTurnPhase := None,
               lastSettledTurnId := Some turn_id, lastSettlementOutcome := Some outcome,
               settledTurnIds := insert turn_id (settledTurnIds s),
               version := version s + 1\<rparr>)"

definition evolve_QueuedTurnEnqueued :: "session_state \<Rightarrow> queued_turn \<Rightarrow> session_state" where
  "evolve_QueuedTurnEnqueued s q =
     next_version
       (s\<lparr>queuedTurns := AList.update (qt_queueId q) q (queuedTurns s),
          queueOrder := queueOrder s @ [qt_queueId q]\<rparr>)"

definition evolve_QueuedTurnUpdated ::
  "session_state \<Rightarrow> string \<Rightarrow> string \<Rightarrow> bool \<Rightarrow> session_state" where
  "evolve_QueuedTurnUpdated s queue_id input ready =
     (case map_of (queuedTurns s) queue_id of
        None \<Rightarrow> next_version s
      | Some current \<Rightarrow>
          next_version
            (s\<lparr>queuedTurns :=
                 AList.update queue_id (current\<lparr>qt_inputJson := input, qt_ready := ready\<rparr>)
                   (queuedTurns s)\<rparr>))"

definition evolve_QueuedTurnRemoved :: "session_state \<Rightarrow> string \<Rightarrow> session_state" where
  "evolve_QueuedTurnRemoved s queue_id =
     next_version
       (s\<lparr>queuedTurns := AList.delete queue_id (queuedTurns s),
          queueOrder := filter (\<lambda>key. key \<noteq> queue_id) (queueOrder s)\<rparr>)"

definition evolve_SegmentOpened ::
  "session_state \<Rightarrow> string \<Rightarrow> string \<Rightarrow> segment_kind \<Rightarrow> session_state" where
  "evolve_SegmentOpened s turn_id segment_id kind =
     next_version
       (s\<lparr>openSegments :=
            AList.update segment_id \<lparr>seg_turnId = turn_id, seg_kind = kind\<rparr> (openSegments s)\<rparr>)"

definition evolve_PermissionResolved :: "session_state \<Rightarrow> string \<Rightarrow> session_state" where
  "evolve_PermissionResolved s request_id =
     next_version
       (s\<lparr>expiredPermissionIds := expiredPermissionIds s - {request_id},
          pendingPermissionIds := pendingPermissionIds s - {request_id}\<rparr>)"

definition evolve_QuestionResolved :: "session_state \<Rightarrow> string \<Rightarrow> session_state" where
  "evolve_QuestionResolved s item_id =
     next_version
       (s\<lparr>expiredQuestionIds := expiredQuestionIds s - {item_id},
          resolvedQuestionIds := insert item_id (resolvedQuestionIds s)\<rparr>)"

text \<open>
  \<open>state.providerReservation?.providerSessionId === id\<close>, where both sides can be undefined.
\<close>

definition reservation_is :: "session_state \<Rightarrow> string option \<Rightarrow> bool" where
  "reservation_is s key = (map_option rsv_providerSessionId (providerReservation s) = key)"

definition evolve_ProviderAttached ::
  "session_state \<Rightarrow> string \<Rightarrow> string option \<Rightarrow> session_state" where
  "evolve_ProviderAttached s provider' provider_session_id =
     next_version
       (s\<lparr>attachedProviderId := Some provider',
          attachedProviderSessionId := provider_session_id,
          providerReservation :=
            (if reservation_is s provider_session_id then providerReservation s else None)\<rparr>)"

definition evolve_ProviderStopRequested :: "session_state \<Rightarrow> string option \<Rightarrow> session_state" where
  "evolve_ProviderStopRequested s provider_session_id =
     next_version
       (s\<lparr>providerReservation :=
            (if reservation_is s provider_session_id then None else providerReservation s)\<rparr>)"

definition evolve_ProviderDetached :: "session_state \<Rightarrow> string option \<Rightarrow> session_state" where
  "evolve_ProviderDetached s provider_session_id =
     next_version
       (s\<lparr>attachedProviderId := None,
          attachedProviderSessionId := None,
          providerReservation :=
            (if reservation_is s provider_session_id then None else providerReservation s)\<rparr>)"

section \<open>The fold\<close>

primrec evolve :: "decoder \<Rightarrow> session_state \<Rightarrow> session_event \<Rightarrow> session_state" where
  "evolve dec s (SessionCreated e) = evolve_SessionCreated s e"
| "evolve dec s (SessionTitleSet title' provenance tm) =
     next_version
       (s\<lparr>title := Some title', titleProvenance := title_provenance_or_manual provenance\<rparr>)"
| "evolve dec s (SessionModelSet model' tm) =
     next_version
       (s\<lparr>model := Some model', attachedProviderId := None, attachedProviderSessionId := None,
          providerReservation := None\<rparr>)"
| "evolve dec s (SessionProviderSet provider' model' tm) =
     evolve_SessionProviderSet s provider' model' tm"
| "evolve dec s (SessionRuntimeModeSet mode tm) = next_version (s\<lparr>runtimeMode := Some mode\<rparr>)"
| "evolve dec s (SessionPermissionModeSet mode tm) =
     next_version (s\<lparr>permissionMode := Some mode\<rparr>)"
| "evolve dec s (SessionWorktreeSet worktree tm) = evolve_SessionWorktreeSet s worktree tm"
| "evolve dec s (SessionStatusSet status' tm) = evolve_SessionStatusSet s status'"
| "evolve dec s (SessionQueuePausedSet paused tm) = next_version (s\<lparr>queuePaused := paused\<rparr>)"
| "evolve dec s (SessionResumeSet cursor strategy provider_cursor tm) =
     next_version (bind_legacy_resume s (or_else cursor '''') provider_cursor tm)"
| "evolve dec s (ProviderThreadUpdated thread) = evolve_ProviderThreadUpdated s thread"
| "evolve dec s (ActiveProviderThreadSet thread_id tm) =
     next_version
       (s\<lparr>activeProviderThreadId :=
            map_option (scope_provider_thread_id (or_else (sessionId s) '''')) thread_id\<rparr>)"
| "evolve dec s (SessionArchived tm) =
     next_version (s\<lparr>archived := True, providerReservation := None\<rparr>)"
| "evolve dec s (SessionUnarchived tm) = next_version (s\<lparr>archived := False\<rparr>)"
| "evolve dec s (SessionDeleted tm) =
     next_version (s\<lparr>deleted := True, providerReservation := None\<rparr>)"
| "evolve dec s (TurnStarted turn_id tm ordinal attempt_id thread_id) =
     evolve_TurnStarted s turn_id tm ordinal attempt_id thread_id"
| "evolve dec s (AttemptProviderTurnBound turn_id attempt_id reference tm) =
     evolve_AttemptProviderTurnBound s turn_id attempt_id reference"
| "evolve dec s (AttemptStarted e) = evolve_AttemptStarted s e"
| "evolve dec s (ProviderRecoveryRequested turn_id attempt_id source_id reference tm) =
     next_version
       (s\<lparr>attemptRecoveries :=
            AList.update attempt_id
              \<lparr>rec_sourceAttemptId = source_id, rec_reference = reference\<rparr> (attemptRecoveries s)\<rparr>)"
| "evolve dec s (ProviderTurnRequested turn_id attempt_id input start tm) = next_version s"
| "evolve dec s (TurnsRolledBack e) = evolve_TurnsRolledBack s e"
| "evolve dec s (TurnFinalizationRequested turn_id attempt_id outcome tm) =
     evolve_TurnFinalizationRequested s turn_id"
| "evolve dec s (TurnSettled turn_id outcome tm) = evolve_TurnSettled s turn_id outcome tm"
| "evolve dec s (TurnInterruptRequested turn_id attempt_id tm) =
     next_version (with_turn_phase s turn_id PhaseInterruptRequested)"
| "evolve dec s (TurnInterruptAcknowledged turn_id tm) =
     next_version (with_turn_phase s turn_id PhaseInterruptAcknowledged)"
| "evolve dec s (TurnInterruptFailed turn_id reason tm) =
     next_version (with_turn_phase s turn_id PhaseRunning)"
| "evolve dec s (QueuedTurnEnqueued q) = evolve_QueuedTurnEnqueued s q"
| "evolve dec s (QueuedTurnUpdated queue_id input tm ready) =
     evolve_QueuedTurnUpdated s queue_id input ready"
| "evolve dec s (QueuedTurnRemoved queue_id tm) = evolve_QueuedTurnRemoved s queue_id"
| "evolve dec s (QueuedTurnsReordered ids tm) = next_version (s\<lparr>queueOrder := ids\<rparr>)"
| "evolve dec s (QueuedTurnClaimed queue_id tm) = evolve_QueuedTurnRemoved s queue_id"
| "evolve dec s (SuccessorTurnScheduled su tm) = next_version (s\<lparr>scheduledSuccessor := Some su\<rparr>)"
| "evolve dec s (ScheduledSuccessorReady su tm) = next_version (s\<lparr>scheduledSuccessor := None\<rparr>)"
| "evolve dec s (MessagePersisted m) = evolve_message dec s m (version s + 1) None"
| "evolve dec s (SegmentOpened turn_id segment_id kind tm) =
     evolve_SegmentOpened s turn_id segment_id kind"
| "evolve dec s (SegmentSettled turn_id segment_id outcome tm) =
     next_version (s\<lparr>openSegments := AList.delete segment_id (openSegments s)\<rparr>)"
| "evolve dec s (PermissionRequested own request_id turn_id payload tm) =
     next_version (s\<lparr>pendingPermissionIds := insert request_id (pendingPermissionIds s)\<rparr>)"
| "evolve dec s (PermissionResolved request_id decision decision_json tm) =
     evolve_PermissionResolved s request_id"
| "evolve dec s (PermissionExpired request_id tm) =
     next_version (s\<lparr>expiredPermissionIds := insert request_id (expiredPermissionIds s)\<rparr>)"
| "evolve dec s (PlanExpired item_id reason tm) =
     next_version (s\<lparr>expiredPlanIds := insert item_id (expiredPlanIds s)\<rparr>)"
| "evolve dec s (QuestionExpired item_id tm) =
     next_version (s\<lparr>expiredQuestionIds := insert item_id (expiredQuestionIds s)\<rparr>)"
| "evolve dec s (QuestionResolved item_id tm) = evolve_QuestionResolved s item_id"
| "evolve dec s (ProviderSessionReserved provider' provider_session_id tm) =
     next_version
       (s\<lparr>providerReservation :=
            Some \<lparr>rsv_providerId = provider', rsv_providerSessionId = provider_session_id\<rparr>\<rparr>)"
| "evolve dec s (ProviderAttached provider' provider_session_id tm) =
     evolve_ProviderAttached s provider' provider_session_id"
| "evolve dec s (ProviderStopRequested provider' provider_session_id tm) =
     evolve_ProviderStopRequested s provider_session_id"
| "evolve dec s (ProviderDetached provider' provider_session_id tm) =
     evolve_ProviderDetached s provider_session_id"

fun evolve_all_loop ::
  "decoder \<Rightarrow> session_state \<Rightarrow> message_collections option \<Rightarrow> session_event list \<Rightarrow> session_state" where
  "evolve_all_loop dec current owned [] = current"
| "evolve_all_loop dec current owned (e # es) =
     (case e of
        MessagePersisted m \<Rightarrow>
          let collections =
                or_else owned
                  \<lparr>own_messageIds = messageIds current,
                   own_messageCheckpoints = messageCheckpoints current\<rparr>;
              current' = evolve_message dec current m (version current + 1) (Some collections) in
          evolve_all_loop dec current'
            (Some \<lparr>own_messageIds = messageIds current',
                   own_messageCheckpoints = messageCheckpoints current'\<rparr>) es
      | _ \<Rightarrow> evolve_all_loop dec (evolve dec current e) None es)"

definition evolve_all :: "decoder \<Rightarrow> session_state \<Rightarrow> session_event list \<Rightarrow> session_state" where
  "evolve_all dec s events = evolve_all_loop dec s None events"

definition active_provider_thread :: "session_state \<Rightarrow> provider_thread option" where
  "active_provider_thread s =
     (case activeProviderThreadId s of None \<Rightarrow> None | Some key \<Rightarrow> map_of (providerThreads s) key)"

section \<open>The version counts events\<close>

lemmas branch_defs =
  evolve_message_def evolve_SessionCreated_def evolve_SessionProviderSet_def
  evolve_SessionWorktreeSet_def evolve_SessionStatusSet_def evolve_ProviderThreadUpdated_def
  evolve_TurnStarted_def evolve_AttemptProviderTurnBound_def evolve_AttemptStarted_def
  evolve_TurnsRolledBack_def evolve_TurnFinalizationRequested_def evolve_TurnSettled_def
  evolve_QueuedTurnEnqueued_def evolve_QueuedTurnUpdated_def evolve_QueuedTurnRemoved_def
  evolve_SegmentOpened_def evolve_PermissionResolved_def evolve_QuestionResolved_def
  evolve_ProviderAttached_def evolve_ProviderStopRequested_def evolve_ProviderDetached_def

lemmas helper_defs =
  with_provider_thread_def bind_legacy_resume_def retire_active_provider_thread_def with_turn_def
  with_turn_phase_def next_version_def

lemma version_helpers [simp]:
  "version (with_provider_thread s thread b) = version s"
  "version (bind_legacy_resume s native head tm) = version s"
  "version (retire_active_provider_thread s tm) = version s"
  "version (with_turn s turn) = version s"
  "version (with_turn_phase s t p) = version s"
  "version (next_version s) = version s + 1"
  by (simp_all add: helper_defs Let_def split: option.splits)

lemma version_evolve [simp]: "version (evolve dec s e) = version s + 1"
  by (cases e) (simp_all add: branch_defs Let_def split: option.splits)

lemma version_foldl_evolve: "version (foldl (evolve dec) s es) = version s + int (length es)"
  by (induction es arbitrary: s) simp_all

section \<open>The owned collections are not observable\<close>

definition owned_agrees :: "session_state \<Rightarrow> message_collections option \<Rightarrow> bool" where
  "owned_agrees s owned \<longleftrightarrow>
     (\<forall>c. owned = Some c \<longrightarrow>
       own_messageIds c = messageIds s \<and> own_messageCheckpoints c = messageCheckpoints s)"

lemma owned_agrees_copy:
  "owned_agrees s owned \<Longrightarrow>
   owned_agrees s (Some (or_else owned
     \<lparr>own_messageIds = messageIds s, own_messageCheckpoints = messageCheckpoints s\<rparr>))"
  by (cases owned) (auto simp: owned_agrees_def)

lemma owned_agrees_None: "owned_agrees s None"
  by (simp add: owned_agrees_def)

lemma evolve_message_owned:
  assumes "owned_agrees s owned"
  shows "evolve_message dec s m v owned = evolve_message dec s m v None"
proof -
  have "or_else (map_option own_messageCheckpoints owned) (messageCheckpoints s) = messageCheckpoints s"
    "or_else (map_option own_messageIds owned) (messageIds s) = messageIds s"
    using assms by (auto simp: owned_agrees_def or_else_def split: option.splits)
  then show ?thesis by (simp only: evolve_message_def option.map or_else_simps)
qed

lemma evolve_all_loop_message:
  assumes "owned_agrees s owned"
  shows "\<exists>owned'. evolve_all_loop dec s owned (MessagePersisted m # es) =
           evolve_all_loop dec (evolve dec s (MessagePersisted m)) owned' es \<and>
         owned_agrees (evolve dec s (MessagePersisted m)) owned'"
proof -
  let ?s = "evolve dec s (MessagePersisted m)"
  have "evolve_all_loop dec s owned (MessagePersisted m # es) =
      evolve_all_loop dec ?s (Some \<lparr>own_messageIds = messageIds ?s,
        own_messageCheckpoints = messageCheckpoints ?s\<rparr>) es"
    by (simp only: evolve_all_loop.simps session_event.case Let_def evolve.simps
        evolve_message_owned [OF owned_agrees_copy [OF assms]])
  moreover have "owned_agrees ?s (Some \<lparr>own_messageIds = messageIds ?s,
        own_messageCheckpoints = messageCheckpoints ?s\<rparr>)"
    by (simp only: owned_agrees_def option.inject message_collections.simps) simp
  ultimately show ?thesis by blast
qed

lemma evolve_all_loop_other:
  "\<forall>m. e \<noteq> MessagePersisted m \<Longrightarrow>
   evolve_all_loop dec s owned (e # es) = evolve_all_loop dec (evolve dec s e) None es"
  by (cases e) (simp_all only: evolve_all_loop.simps session_event.case session_event.inject simp_thms)

lemma evolve_all_loop_foldl:
  "owned_agrees s owned \<Longrightarrow> evolve_all_loop dec s owned es = foldl (evolve dec) s es"
proof (induction es arbitrary: s owned)
  case Nil
  then show ?case by simp
next
  case (Cons e es)
  show ?case
  proof (cases "\<exists>m. e = MessagePersisted m")
    case True
    then show ?thesis
      using evolve_all_loop_message [OF Cons.prems] Cons.IH by (metis foldl_Cons)
  next
    case False
    then show ?thesis
      using evolve_all_loop_other Cons.IH [OF owned_agrees_None] by (metis foldl_Cons)
  qed
qed

lemma evolve_all_foldl: "evolve_all dec s es = foldl (evolve dec) s es"
  by (simp add: evolve_all_def evolve_all_loop_foldl owned_agrees_def)

end
