(* ===== verification/Session_Decider.thy ===== *)
theory Session_Decider
  imports Session_State
begin

text \<open>
  \<open>core/decider.ts\<close> of \<open>packages/domain/src\<close>: the events a command adds to a session, or the
  error it is refused with. Every branch of the switch is a definition; \<open>decide\<close> puts the
  guard for missing and deleted sessions in front of the branches that follow it.

  A failed \<open>Result\<close> is \<open>Inl\<close>, a successful one \<open>Inr\<close>. Spreading a command into an event keeps
  the fields the event type has.
\<close>

datatype domain_error =
  SessionNotFound
| SessionAlreadyExists
| SessionDeletedConflict
| ValidationFailed string
| TurnAlreadyRunning string
| TurnNotRunning string
| TurnConflict string "string option"
| QueuedTurnNotFound string
| SegmentNotOpen string
| PermissionNotPending string

type_synonym decision = "domain_error + session_event list"

section \<open>Interrupt receipts\<close>

datatype not_active_reason = NoActiveTurn | TurnMismatch

datatype interrupt_receipt =
  InterruptRequested string
| InterruptNotActive not_active_reason "string option" "string option"

definition turn_interrupt_receipt :: "session_state \<Rightarrow> string option \<Rightarrow> interrupt_receipt" where
  "turn_interrupt_receipt s expected =
     (case currentTurnId s of
        None \<Rightarrow> InterruptNotActive NoActiveTurn expected None
      | Some actual \<Rightarrow>
          if expected \<noteq> None \<and> expected \<noteq> Some actual
          then InterruptNotActive TurnMismatch expected (Some actual)
          else InterruptRequested actual)"

section \<open>Shared events\<close>

text \<open>The keys of \<open>targets\<close> are provider session ids, \<open>None\<close> for an attachment without one.\<close>

definition stop_targets :: "session_state \<Rightarrow> (string option, string) jsmap" where
  "stop_targets s =
     (let attached =
            (case attachedProviderId s of
               None \<Rightarrow> []
             | Some p \<Rightarrow> AList.update (attachedProviderSessionId s) p []) in
      case providerReservation s of
        None \<Rightarrow> attached
      | Some r \<Rightarrow> AList.update (Some (rsv_providerSessionId r)) (rsv_providerId r) attached)"

definition provider_stops :: "session_state \<Rightarrow> int \<Rightarrow> session_event list" where
  "provider_stops s tm = map (\<lambda>(psid, p). ProviderStopRequested p psid tm) (stop_targets s)"

definition provider_thread_seed_events ::
  "string \<Rightarrow> thread_seed option \<Rightarrow> int \<Rightarrow> session_event list" where
  "provider_thread_seed_events sid seed tm =
     (case seed of
        None \<Rightarrow> []
      | Some sd \<Rightarrow>
          let key = provider_thread_id_for sid (seed_provider sd) (seed_nativeThreadId sd) in
          [ProviderThreadUpdated
             \<lparr>pt_id = key, pt_provider = seed_provider sd,
              pt_nativeThreadId = seed_nativeThreadId sd,
              pt_nativeHeadId = or_null (seed_nativeHeadId sd), pt_status = ThreadNotLoaded,
              pt_firstTurnOrdinal = None, pt_lastTurnOrdinal = None, pt_createdAt = tm,
              pt_updatedAt = tm\<rparr>,
           ActiveProviderThreadSet (Some key) tm])"

definition seeded_provider_thread_id :: "string \<Rightarrow> thread_seed option \<Rightarrow> string option" where
  "seeded_provider_thread_id sid seed =
     map_option (\<lambda>sd. provider_thread_id_for sid (seed_provider sd) (seed_nativeThreadId sd)) seed"

text \<open>The event of a creation command: \<open>{...created}\<close>.\<close>

definition created_event :: "create_session \<Rightarrow> session_created" where
  "created_event c =
     \<lparr>sc_delegation = cs_delegation c, sc_sessionId = cs_sessionId c, sc_chatId = cs_chatId c,
      sc_projectId = cs_projectId c, sc_createdAt = cs_createdAt c, sc_title = Some (cs_title c),
      sc_titleProvenance = cs_titleProvenance c, sc_providerId = Some (cs_providerId c),
      sc_model = Some (cs_model c), sc_status = Some (cs_status c), sc_cursor = cs_cursor c,
      sc_resumeStrategy = cs_resumeStrategy c, sc_runtimeMode = Some (cs_runtimeMode c),
      sc_agentsJson = Some (cs_agentsJson c), sc_worktreeId = Some (cs_worktreeId c),
      sc_forkedFromSessionId = Some (cs_forkedFromSessionId c),
      sc_forkedFromMessageId = Some (cs_forkedFromMessageId c),
      sc_permissionMode = Some (cs_permissionMode c), sc_toolSearch = Some (cs_toolSearch c),
      sc_queuePaused = Some (cs_queuePaused c), sc_providerStartJson = cs_providerStartJson c\<rparr>"

section \<open>Creation\<close>

definition decide_CreateSession :: "session_state \<Rightarrow> create_session \<Rightarrow> decision" where
  "decide_CreateSession s c =
     (if exists s then Inl SessionAlreadyExists
      else Inr
        (SessionCreated
           ((created_event c)
              \<lparr>sc_titleProvenance := Some (title_provenance_or_manual (cs_titleProvenance c))\<rparr>) #
         provider_thread_seed_events (cs_sessionId c) (cs_providerThread c) (cs_createdAt c)))"

definition user_message :: "string \<Rightarrow> string \<Rightarrow> string \<Rightarrow> int \<Rightarrow> message_fields" where
  "user_message message_id turn_id content tm =
     \<lparr>mf_inputOwner = None, mf_messageId = message_id, mf_turnId = Some turn_id,
      mf_role = ''user'', mf_kind = ''user'', mf_contentJson = content, mf_parentItemId = None,
      mf_checkpointRevision = None, mf_checkpointFinal = None, mf_createdAt = tm\<rparr>"

definition decide_CreateSessionWithInitialTurn ::
  "session_state \<Rightarrow> create_session \<Rightarrow> initial_turn \<Rightarrow> decision" where
  "decide_CreateSessionWithInitialTurn s c t =
     (if exists s then Inl SessionAlreadyExists
      else Inr
        ([SessionCreated (created_event c)] @
         provider_thread_seed_events (cs_sessionId c) (cs_providerThread c) (cs_createdAt c) @
         [MessagePersisted
            (user_message (it_messageId t) (it_turnId t) (it_messageContentJson t) (cs_createdAt c)),
          TurnStarted (it_turnId t) (cs_createdAt c) (Some 1)
            (Some (attempt_id_for (it_turnId t) 1))
            (Some (seeded_provider_thread_id (cs_sessionId c) (cs_providerThread c))),
          SessionStatusSet StatusBooting (cs_createdAt c)] @
         (if cs_queuePaused c then []
          else [ProviderTurnRequested (it_turnId t) (Some (attempt_id_for (it_turnId t) 1))
                  (it_providerInputJson t) (cs_providerStartJson c) (cs_createdAt c)])))"

section \<open>Settings\<close>

definition decide_SetTitle ::
  "session_state \<Rightarrow> string \<Rightarrow> title_provenance option \<Rightarrow> int \<Rightarrow> decision" where
  "decide_SetTitle s raw_title raw_provenance tm =
     (let title' = trim raw_title; provenance = title_provenance_or_manual raw_provenance in
      if length title' = 0 then Inl (ValidationFailed ''title cannot be empty'')
      else if provenance = ProvenanceAutomatic \<and> titleProvenance s \<noteq> ProvenancePending then Inr []
      else if title s = Some title' \<and> titleProvenance s = provenance then Inr []
      else Inr [SessionTitleSet title' (Some provenance) tm])"

definition model_switch_message ::
  "string \<Rightarrow> session_state \<Rightarrow> string \<Rightarrow> string \<Rightarrow> string \<Rightarrow> string \<Rightarrow> int \<Rightarrow> message_fields" where
  "model_switch_message sid s from_provider from_model to_provider to_model tm =
     \<lparr>mf_inputOwner = None,
      mf_messageId = ''model-switch:'' @ sid @ '':'' @ int_to_string (version s),
      mf_turnId = None, mf_role = ''system'', mf_kind = ''model_switch'',
      mf_contentJson =
        json_object
          [(''_tag'', json_string ''model_switch''),
           (''fromProviderId'', json_string from_provider),
           (''fromModel'', json_string from_model),
           (''toProviderId'', json_string to_provider),
           (''toModel'', json_string to_model),
           (''context'',
              json_string (if from_provider = to_provider then ''preserved'' else ''handoff''))],
      mf_parentItemId = None, mf_checkpointRevision = None, mf_checkpointFinal = None,
      mf_createdAt = tm\<rparr>"

definition model_switch_marker ::
  "string \<Rightarrow> session_state \<Rightarrow> string option \<Rightarrow> string \<Rightarrow> int \<Rightarrow> session_event list" where
  "model_switch_marker sid s to_provider to_model tm =
     (case (providerId s, model s, to_provider) of
        (Some from_provider, Some from_model, Some to_provider') \<Rightarrow>
          if messageIds s \<noteq> {}
          then [MessagePersisted
                  (model_switch_message sid s from_provider from_model to_provider' to_model tm)]
          else []
      | _ \<Rightarrow> [])"

text \<open>
  \<open>SetModel\<close> and \<open>SetProvider\<close> share their branch: \<open>provider'\<close> is \<open>None\<close> for \<open>SetModel\<close>, which
  has no \<open>resumeThreadId\<close> and no \<open>expectedProviderThreadId\<close> either.
\<close>

definition decide_switch ::
  "string \<Rightarrow> session_state \<Rightarrow> string option \<Rightarrow> string option \<Rightarrow> string option option \<Rightarrow> string \<Rightarrow> int
     \<Rightarrow> decision" where
  "decide_switch sid s provider' resume expected model' tm =
     (let unchanged = (model s = Some model' \<and> (provider' = None \<or> providerId s = provider'));
          resumed =
            (if provider' \<noteq> None then Option.bind resume (map_of (providerThreads s)) else None);
          to_provider = (if provider' \<noteq> None then provider' else providerId s) in
      if unchanged then Inr []
      else if currentTurnId s \<noteq> None \<or> length (queuedTurns s) > 0 then
        Inl (ValidationFailed ''Finish or stop the active turn and clear queued messages before switching provider or model.'')
      else if provider' \<noteq> None \<and>
         ((expected \<noteq> None \<and> expected \<noteq> Some (activeProviderThreadId s)) \<or>
          (resume \<noteq> None \<and> (resumed = None \<or> map_option pt_provider resumed \<noteq> provider'))) then
        Inl (ValidationFailed ''Provider history changed while switching. Retry the provider selection.'')
      else Inr
        (provider_stops s tm @
         model_switch_marker sid s to_provider model' tm @
         [case provider' of
            None \<Rightarrow> SessionModelSet model' tm
          | Some p \<Rightarrow> SessionProviderSet p model' tm] @
         (case resumed of
            None \<Rightarrow> []
          | Some thread \<Rightarrow>
              [ProviderThreadUpdated (thread\<lparr>pt_status := ThreadIdle, pt_updatedAt := tm\<rparr>),
               ActiveProviderThreadSet (Some (pt_id thread)) tm]) @
         [SessionStatusSet StatusIdle tm]))"

definition decide_SetWorktree ::
  "session_state \<Rightarrow> string option \<Rightarrow> int \<Rightarrow> bool option \<Rightarrow> decision" where
  "decide_SetWorktree s worktree tm force =
     (if worktreeId s = worktree \<and> force \<noteq> Some True then Inr []
      else Inr [SessionWorktreeSet worktree tm])"

section \<open>Provider threads and native executions\<close>

definition decide_BindProviderThread ::
  "string \<Rightarrow> session_state \<Rightarrow> string \<Rightarrow> string option option \<Rightarrow> int \<Rightarrow> decision" where
  "decide_BindProviderThread sid s native_thread_id head tm =
     (let provider = or_else (providerId s) ''unknown'';
          key = provider_thread_id_for sid provider native_thread_id;
          existing = map_of (providerThreads s) key;
          native_head_id =
            (case head of None \<Rightarrow> Option.bind existing pt_nativeHeadId | Some h \<Rightarrow> h);
          turn = current_turn s in
      if (case existing of
            None \<Rightarrow> False
          | Some thread \<Rightarrow>
              activeProviderThreadId s = Some key \<and> pt_nativeHeadId thread = native_head_id \<and>
              pt_status thread \<noteq> ThreadClosed \<and> pt_status thread \<noteq> ThreadError)
      then Inr []
      else Inr
        (ProviderThreadUpdated
           \<lparr>pt_id = key, pt_provider = provider, pt_nativeThreadId = native_thread_id,
            pt_nativeHeadId = native_head_id,
            pt_status = (if turn = None then ThreadIdle else ThreadActive),
            pt_firstTurnOrdinal =
              or_opt (Option.bind existing pt_firstTurnOrdinal) (map_option tn_ordinal turn),
            pt_lastTurnOrdinal =
              or_opt (map_option tn_ordinal turn) (Option.bind existing pt_lastTurnOrdinal),
            pt_createdAt = or_else (map_option pt_createdAt existing) tm,
            pt_updatedAt = tm\<rparr> #
         (if activeProviderThreadId s = Some key then []
          else [ActiveProviderThreadSet (Some key) tm])))"

definition active_attempt :: "session_state \<Rightarrow> string \<Rightarrow> string option" where
  "active_attempt s turn_id = map_option tn_activeAttemptId (map_of (turns s) turn_id)"

definition decide_BindAttemptProviderTurn ::
  "session_state \<Rightarrow> string \<Rightarrow> string \<Rightarrow> turn_reference \<Rightarrow> int \<Rightarrow> decision" where
  "decide_BindAttemptProviderTurn s turn_id attempt_id reference tm =
     (if currentTurnId s \<noteq> Some turn_id \<or> active_attempt s turn_id \<noteq> Some attempt_id \<or> archived s
      then Inl (ValidationFailed ''Native execution must belong to the active attempt'')
      else if Some (ref_provider reference) \<noteq> providerId s \<or>
        length (ref_nativeThreadId reference) = 0 \<or> length (ref_nativeTurnId reference) = 0
      then Inl (ValidationFailed ''Invalid native execution reference'')
      else case map_of (attemptProviderTurns s) attempt_id of
        Some existing \<Rightarrow>
          if ref_provider existing = ref_provider reference \<and>
             ref_nativeThreadId existing = ref_nativeThreadId reference \<and>
             ref_nativeTurnId existing = ref_nativeTurnId reference
          then Inr []
          else Inl (ValidationFailed ''An attempt cannot change its native execution'')
      | None \<Rightarrow>
          if list_ex
               (\<lambda>(other, r). other \<noteq> attempt_id \<and> ref_provider r = ref_provider reference \<and>
                  ref_nativeThreadId r = ref_nativeThreadId reference \<and>
                  ref_nativeTurnId r = ref_nativeTurnId reference)
               (attemptProviderTurns s)
          then Inl (ValidationFailed ''Native execution already belongs to another attempt'')
          else Inr [AttemptProviderTurnBound turn_id attempt_id reference tm])"

section \<open>Turns\<close>

definition decide_SettleTurn ::
  "session_state \<Rightarrow> string \<Rightarrow> settlement_outcome \<Rightarrow> int \<Rightarrow> decision" where
  "decide_SettleTurn s turn_id outcome tm =
     (if currentTurnId s \<noteq> Some turn_id then
        if turn_id \<in> settledTurnIds s then Inr [] else Inl (TurnConflict turn_id (currentTurnId s))
      else
        let succeeds =
              (map_option su_predecessorTurnId (scheduledSuccessor s) = Some turn_id) in
        Inr
          (map (\<lambda>(segment_id, segment). SegmentSettled turn_id segment_id outcome tm)
             (filter (\<lambda>(segment_id, segment). seg_turnId segment = turn_id) (openSegments s)) @
           [TurnSettled turn_id outcome tm,
            SessionStatusSet
              (if succeeds then StatusRunning
               else if outcome = OutcomeError then StatusError else StatusIdle)
              tm] @
           (case scheduledSuccessor s of
              None \<Rightarrow> []
            | Some su \<Rightarrow> if succeeds then [ScheduledSuccessorReady su tm] else [])))"

definition decide_RecoverTurn :: "session_state \<Rightarrow> string \<Rightarrow> string \<Rightarrow> int \<Rightarrow> decision" where
  "decide_RecoverTurn s turn_id expected tm =
     (case map_of (turns s) turn_id of
        None \<Rightarrow> Inl (ValidationFailed ''Recovery must own an active, uninterrupted turn'')
      | Some turn \<Rightarrow>
          if archived s \<or> currentTurnId s \<noteq> Some turn_id \<or> tn_activeAttemptId turn \<noteq> expected \<or>
             tn_phase turn \<noteq> Some PhaseRunning
          then Inl (ValidationFailed ''Recovery must own an active, uninterrupted turn'')
          else
            let prior = map_of (attemptRecoveries s) expected;
                proven =
                  or_opt (map_option rec_reference prior)
                    (map_of (attemptProviderTurns s) expected) in
            case proven of
              None \<Rightarrow> Inl (ValidationFailed ''Recovery requires proven native execution identity'')
            | Some reference \<Rightarrow>
                if Some (ref_provider reference) \<noteq> providerId s then
                  Inl (ValidationFailed ''Recovery requires proven native execution identity'')
                else if tn_status turn = TurnFinalizing then
                  Inl (ValidationFailed ''Checkpoint capture must finish before retrying this turn.'')
                else
                  let ordinal = int (length (tn_attempts turn)) + 1;
                      attempt_id = attempt_id_for turn_id ordinal in
                  Inr
                    (provider_stops s tm @
                     [AttemptStarted
                        \<lparr>as_turnId = turn_id, as_attemptId = attempt_id, as_ordinal = ordinal,
                         as_reason = ReasonProviderRecovery, as_startedAt = tm,
                         as_turnOrdinal = tn_ordinal turn,
                         as_providerThreadId = tn_providerThreadId turn,
                         as_turnRequestedAt = tn_requestedAt turn\<rparr>,
                      SessionStatusSet StatusBooting tm,
                      ProviderRecoveryRequested turn_id attempt_id
                        (or_else (map_option rec_sourceAttemptId prior) expected) reference tm]))"

definition expired_message :: "string \<Rightarrow> string \<Rightarrow> int \<Rightarrow> message_fields" where
  "expired_message turn_id attempt_id tm =
     \<lparr>mf_inputOwner = None, mf_messageId = ''ingestion-expired:'' @ attempt_id,
      mf_turnId = Some turn_id, mf_role = ''system'', mf_kind = ''error'',
      mf_contentJson =
        json_object
          [(''_tag'', json_string ''error''),
           (''message'',
              json_string ''The Agent Engine stopped ingesting this execution. Delivery was not repeated automatically; review the provider result before retrying.'')],
      mf_parentItemId = None, mf_checkpointRevision = None, mf_checkpointFinal = None,
      mf_createdAt = tm\<rparr>"

definition decide_ExpireAttempt :: "session_state \<Rightarrow> string \<Rightarrow> string \<Rightarrow> int \<Rightarrow> decision" where
  "decide_ExpireAttempt s turn_id expected tm =
     (if currentTurnId s \<noteq> Some turn_id \<or> active_attempt s turn_id \<noteq> Some expected
      then Inl (ValidationFailed ''Expired ingestion no longer owns this attempt'')
      else case decide_RecoverTurn s turn_id expected tm of
        Inr events \<Rightarrow> Inr events
      | Inl _ \<Rightarrow>
          let interrupted =
                (Option.bind (map_of (turns s) turn_id) tn_phase \<noteq> Some PhaseRunning \<or> archived s) in
          case decide_SettleTurn s turn_id
                 (if interrupted then OutcomeInterrupted else OutcomeError) tm of
            Inl failure \<Rightarrow> Inl failure
          | Inr settlement \<Rightarrow>
              Inr
                (provider_stops s tm @
                 (if interrupted then []
                  else [MessagePersisted (expired_message turn_id expected tm)]) @
                 settlement))"

definition decide_RetryTurn ::
  "session_state \<Rightarrow> string \<Rightarrow> attempt_reason \<Rightarrow> string \<Rightarrow> string option \<Rightarrow> int \<Rightarrow> decision" where
  "decide_RetryTurn s turn_id reason input start tm =
     (case map_of (turns s) turn_id of
        None \<Rightarrow> Inl (TurnConflict turn_id (currentTurnId s))
      | Some turn \<Rightarrow>
          if currentTurnId s \<noteq> Some turn_id then Inl (TurnConflict turn_id (currentTurnId s))
          else if tn_status turn = TurnFinalizing then
            Inl (ValidationFailed ''Checkpoint capture must finish before retrying this turn.'')
          else
            let ordinal = int (length (tn_attempts turn)) + 1 in
            Inr
              [AttemptStarted
                 \<lparr>as_turnId = turn_id, as_attemptId = attempt_id_for turn_id ordinal,
                  as_ordinal = ordinal, as_reason = reason, as_startedAt = tm,
                  as_turnOrdinal = tn_ordinal turn,
                  as_providerThreadId = tn_providerThreadId turn,
                  as_turnRequestedAt = tn_requestedAt turn\<rparr>,
               SessionStatusSet StatusBooting tm,
               ProviderTurnRequested turn_id (Some (attempt_id_for turn_id ordinal)) input start tm])"

text \<open>\<open>state.turns.get(turnId)?.activeAttemptId ?? attemptIdFor(turnId, 1)\<close>\<close>

definition attempt_or_first :: "session_state \<Rightarrow> string \<Rightarrow> string" where
  "attempt_or_first s turn_id = or_else (active_attempt s turn_id) (attempt_id_for turn_id 1)"

definition decide_ReleaseInitialTurn ::
  "session_state \<Rightarrow> string \<Rightarrow> string \<Rightarrow> string option \<Rightarrow> int \<Rightarrow> decision" where
  "decide_ReleaseInitialTurn s expected input start tm =
     (if archived s then Inl (ValidationFailed ''cannot release an archived session'')
      else if \<not> queuePaused s \<or> currentTurnId s \<noteq> Some expected \<or>
        currentTurnPhase s \<noteq> Some PhaseRunning
      then Inl (ValidationFailed ''initial turn is not paused at the expected turn'')
      else Inr
        [SessionQueuePausedSet False tm,
         ProviderTurnRequested expected (Some (attempt_or_first s expected)) input start tm])"

definition decide_StartTurn :: "session_state \<Rightarrow> string \<Rightarrow> int \<Rightarrow> decision" where
  "decide_StartTurn s turn_id tm =
     (case currentTurnId s of
        None \<Rightarrow>
          Inr [TurnStarted turn_id tm (Some (turnCount s + 1)) (Some (attempt_id_for turn_id 1))
                 (Some (activeProviderThreadId s))]
      | Some current \<Rightarrow> Inl (TurnAlreadyRunning current))"

definition decide_RollbackTurns ::
  "session_state \<Rightarrow> js_number \<Rightarrow> int \<Rightarrow> string list \<Rightarrow> int \<Rightarrow> decision" where
  "decide_RollbackTurns s through message_sequence removed_ids tm =
     (if currentTurnId s \<noteq> None \<or> length (queuedTurns s) > 0 \<or> providerReservation s \<noteq> None
      then Inl (ValidationFailed ''Stop active work and clear queued messages before rollback.'')
      else if \<not> is_integer through \<or> js_less through (js_of_int 0) \<or>
        js_less (js_of_int (turnCount s)) through
      then Inl (ValidationFailed ''Invalid rollback boundary.'')
      else Inr
        [TurnsRolledBack
           \<lparr>rb_rolledBackTurnIds =
              Some (map tn_id
                (filter (\<lambda>t. js_less through (js_of_int (tn_ordinal t))) (map snd (turns s)))),
            rb_throughOrdinal = through, rb_messageSequence = message_sequence,
            rb_removedMessageIds = removed_ids, rb_rolledBackAt = tm\<rparr>,
         ActiveProviderThreadSet None tm])"

definition decide_FinalizeTurn ::
  "session_state \<Rightarrow> string \<Rightarrow> settlement_outcome \<Rightarrow> int \<Rightarrow> decision" where
  "decide_FinalizeTurn s turn_id outcome tm =
     (if currentTurnId s \<noteq> Some turn_id then
        if turn_id \<in> settledTurnIds s then Inr [] else Inl (TurnConflict turn_id (currentTurnId s))
      else if map_option tn_status (map_of (turns s) turn_id) = Some TurnFinalizing then Inr []
      else Inr [TurnFinalizationRequested turn_id (attempt_or_first s turn_id) outcome tm])"

definition decide_RequestTurnInterrupt ::
  "session_state \<Rightarrow> string option \<Rightarrow> int \<Rightarrow> decision" where
  "decide_RequestTurnInterrupt s expected tm =
     (case turn_interrupt_receipt s expected of
        InterruptNotActive _ _ _ \<Rightarrow> Inr []
      | InterruptRequested turn_id \<Rightarrow>
          if currentTurnPhase s = Some PhaseInterruptRequested \<or>
             currentTurnPhase s = Some PhaseInterruptAcknowledged
          then Inr []
          else Inr [TurnInterruptRequested turn_id (Some (attempt_or_first s turn_id)) tm])"

definition decide_AcknowledgeTurnInterrupt :: "session_state \<Rightarrow> string \<Rightarrow> int \<Rightarrow> decision" where
  "decide_AcknowledgeTurnInterrupt s turn_id tm =
     (if currentTurnId s \<noteq> Some turn_id then
        if turn_id \<in> settledTurnIds s then Inr [] else Inl (TurnConflict turn_id (currentTurnId s))
      else if currentTurnPhase s = Some PhaseInterruptAcknowledged then Inr []
      else Inr [TurnInterruptAcknowledged turn_id tm])"

definition decide_FailTurnInterrupt :: "session_state \<Rightarrow> string \<Rightarrow> string \<Rightarrow> int \<Rightarrow> decision" where
  "decide_FailTurnInterrupt s turn_id reason tm =
     (if currentTurnId s \<noteq> Some turn_id then
        if turn_id \<in> settledTurnIds s then Inr [] else Inl (TurnConflict turn_id (currentTurnId s))
      else Inr [TurnInterruptFailed turn_id reason tm])"

section \<open>Queue\<close>

definition decide_EnqueueTurn :: "session_state \<Rightarrow> queued_turn \<Rightarrow> decision" where
  "decide_EnqueueTurn s q =
     (if map_has (queuedTurns s) (qt_queueId q) then Inr [] else Inr [QueuedTurnEnqueued q])"

definition decide_UpdateQueuedTurn ::
  "session_state \<Rightarrow> string \<Rightarrow> string \<Rightarrow> int \<Rightarrow> bool \<Rightarrow> decision" where
  "decide_UpdateQueuedTurn s queue_id input tm ready =
     (if map_has (queuedTurns s) queue_id then Inr [QueuedTurnUpdated queue_id input tm ready]
      else Inl (QueuedTurnNotFound queue_id))"

definition decide_ClaimQueuedTurn :: "session_state \<Rightarrow> string \<Rightarrow> int \<Rightarrow> decision" where
  "decide_ClaimQueuedTurn s queue_id tm =
     (if map_option qt_ready (map_of (queuedTurns s) queue_id) = Some True
      then Inr [QueuedTurnClaimed queue_id tm] else Inr [])"

definition decide_RemoveQueuedTurn :: "session_state \<Rightarrow> string \<Rightarrow> int \<Rightarrow> decision" where
  "decide_RemoveQueuedTurn s queue_id tm =
     (if map_has (queuedTurns s) queue_id then Inr [QueuedTurnRemoved queue_id tm] else Inr [])"

definition decide_ReorderQueuedTurns :: "session_state \<Rightarrow> string list \<Rightarrow> int \<Rightarrow> decision" where
  "decide_ReorderQueuedTurns s ids tm =
     (let known = filter (map_has (queuedTurns s)) ids;
          remaining = filter (\<lambda>q. q \<notin> set known) (queueOrder s) in
      Inr [QueuedTurnsReordered (known @ remaining) tm])"

definition decide_SubmitTurn :: "session_state \<Rightarrow> submit_turn \<Rightarrow> decision" where
  "decide_SubmitTurn s c =
     (case currentTurnId s of
        Some current \<Rightarrow> Inl (TurnAlreadyRunning current)
      | None \<Rightarrow>
          Inr
            [MessagePersisted
               \<lparr>mf_inputOwner = None, mf_messageId = st_messageId c, mf_turnId = Some (st_turnId c),
                mf_role = st_role c, mf_kind = st_kind c, mf_contentJson = st_contentJson c,
                mf_parentItemId = st_parentItemId c, mf_checkpointRevision = None,
                mf_checkpointFinal = None, mf_createdAt = st_createdAt c\<rparr>,
             TurnStarted (st_turnId c) (st_createdAt c) (Some (turnCount s + 1))
               (Some (attempt_id_for (st_turnId c) 1)) (Some (activeProviderThreadId s)),
             SessionStatusSet StatusBooting (st_createdAt c),
             ProviderTurnRequested (st_turnId c) (Some (attempt_id_for (st_turnId c) 1))
               (st_providerInputJson c) None (st_createdAt c)])"

definition decide_SteerQueuedTurn ::
  "session_state \<Rightarrow> string \<Rightarrow> string \<Rightarrow> string \<Rightarrow> int \<Rightarrow> decision" where
  "decide_SteerQueuedTurn s expected queue_id successor_id tm =
     (let scheduled =
            (\<lambda>queued. \<lparr>su_predecessorTurnId = expected, su_turnId = successor_id,
                        su_queueId = queue_id, su_inputJson = qt_inputJson queued\<rparr>) in
      if currentTurnId s \<noteq> Some expected then
        if currentTurnId s = None \<and> expected \<in> settledTurnIds s then
          case map_of (queuedTurns s) queue_id of
            None \<Rightarrow> Inl (QueuedTurnNotFound queue_id)
          | Some queued \<Rightarrow>
              Inr [QueuedTurnClaimed queue_id tm,
                   SuccessorTurnScheduled (scheduled queued) tm,
                   ScheduledSuccessorReady (scheduled queued) tm]
        else Inl (TurnConflict expected (currentTurnId s))
      else
        case map_of (queuedTurns s) queue_id of
          None \<Rightarrow> Inl (QueuedTurnNotFound queue_id)
        | Some queued \<Rightarrow>
            Inr
              ([QueuedTurnClaimed queue_id tm] @
               (if currentTurnPhase s = Some PhaseInterruptRequested \<or>
                   currentTurnPhase s = Some PhaseInterruptAcknowledged
                then []
                else [TurnInterruptRequested expected (Some (attempt_or_first s expected)) tm]) @
               [SuccessorTurnScheduled (scheduled queued) tm]))"

section \<open>Messages, segments and input requests\<close>

definition decide_PersistMessage :: "session_state \<Rightarrow> message_fields \<Rightarrow> decision" where
  "decide_PersistMessage s m =
     (if (mf_checkpointRevision m = None) \<noteq> (mf_checkpointFinal m = None) then
        Inl (ValidationFailed ''checkpoint revision and final must be provided together'')
      else case mf_checkpointRevision m of
        Some revision \<Rightarrow>
          if \<not> is_safe_integer revision \<or> js_less revision (js_of_int 1) then
            Inl (ValidationFailed ''checkpoint revision must be a positive safe integer'')
          else
            (case map_of (messageCheckpoints s) (mf_messageId m) of
               None \<Rightarrow> Inr [MessagePersisted m]
             | Some current \<Rightarrow>
                 if mc_final current \<or> js_less_eq revision (mc_revision current) then Inr []
                 else Inr [MessagePersisted m])
      | None \<Rightarrow>
          if map_has (messageCheckpoints s) (mf_messageId m) then Inr []
          else Inr [MessagePersisted m])"

definition decide_OpenSegment ::
  "session_state \<Rightarrow> string \<Rightarrow> string \<Rightarrow> segment_kind \<Rightarrow> int \<Rightarrow> decision" where
  "decide_OpenSegment s turn_id segment_id kind tm =
     (if currentTurnId s \<noteq> Some turn_id then Inl (TurnNotRunning turn_id)
      else if map_has (openSegments s) segment_id then Inr []
      else Inr [SegmentOpened turn_id segment_id kind tm])"

definition decide_SettleSegment ::
  "session_state \<Rightarrow> string \<Rightarrow> string \<Rightarrow> settlement_outcome \<Rightarrow> int \<Rightarrow> decision" where
  "decide_SettleSegment s turn_id segment_id outcome tm =
     (if map_option seg_turnId (map_of (openSegments s) segment_id) = Some turn_id
      then Inr [SegmentSettled turn_id segment_id outcome tm]
      else Inl (SegmentNotOpen segment_id))"

definition decide_ExpirePermission :: "session_state \<Rightarrow> string \<Rightarrow> int \<Rightarrow> decision" where
  "decide_ExpirePermission s request_id tm =
     (if request_id \<in> pendingPermissionIds s \<and> request_id \<notin> expiredPermissionIds s
      then Inr [PermissionExpired request_id tm] else Inr [])"

definition decide_ResolvePermission ::
  "session_state \<Rightarrow> string \<Rightarrow> string \<Rightarrow> string option \<Rightarrow> int \<Rightarrow> decision" where
  "decide_ResolvePermission s request_id choice choice_json tm =
     (if request_id \<in> pendingPermissionIds s \<and>
         (request_id \<notin> expiredPermissionIds s \<or> choice = ''Deny'')
      then Inr [PermissionResolved request_id choice choice_json tm]
      else Inl (PermissionNotPending request_id))"

definition decide_ExpireQuestion :: "session_state \<Rightarrow> string \<Rightarrow> int \<Rightarrow> decision" where
  "decide_ExpireQuestion s item_id tm =
     (if item_id \<in> resolvedQuestionIds s \<or> item_id \<in> expiredQuestionIds s then Inr []
      else Inr [QuestionExpired item_id tm])"

section \<open>Provider sessions\<close>

definition decide_ReserveProviderSession :: "session_state \<Rightarrow> reserve_provider \<Rightarrow> decision" where
  "decide_ReserveProviderSession s c =
     (if currentTurnId s \<noteq> None \<and>
         (map_option own_turnId (rp_ownerAttempt c) \<noteq> currentTurnId s \<or>
          map_option own_attemptId (rp_ownerAttempt c) \<noteq>
            Option.bind (currentTurnId s) (active_attempt s))
      then Inl (ValidationFailed ''an active attempt owns provider startup'')
      else if currentTurnId s = None \<and> rp_ownerAttempt c \<noteq> None
      then Inl (ValidationFailed ''provider startup attempt is no longer active'')
      else if (rp_expectedModel c \<noteq> None \<and> rp_expectedModel c \<noteq> model s) \<or>
        (rp_expectedWorktreeId c \<noteq> None \<and> rp_expectedWorktreeId c \<noteq> Some (worktreeId s))
      then Inl (ValidationFailed ''provider configuration changed before reservation'')
      else if archived s
      then Inl (ValidationFailed ''cannot start a provider for an archived session'')
      else if providerId s \<noteq> None \<and> providerId s \<noteq> Some (rp_providerId c)
      then Inl (ValidationFailed ''provider reservation must match the selected provider'')
      else if reservation_is s (Some (rp_providerSessionId c)) then Inr []
      else Inr
        (provider_stops s (rp_reservedAt c) @
         [ProviderSessionReserved (rp_providerId c) (rp_providerSessionId c) (rp_reservedAt c)]))"

definition decide_AttachProvider ::
  "session_state \<Rightarrow> string \<Rightarrow> string option \<Rightarrow> int \<Rightarrow> decision" where
  "decide_AttachProvider s provider' psid tm =
     (if attachedProviderId s = Some provider' \<and> attachedProviderSessionId s = psid then Inr []
      else Inr
        ((case attachedProviderId s of
            None \<Rightarrow> []
          | Some attached \<Rightarrow> [ProviderDetached attached (attachedProviderSessionId s) tm]) @
         [ProviderAttached provider' psid tm]))"

definition decide_DetachProvider ::
  "session_state \<Rightarrow> int \<Rightarrow> string option option \<Rightarrow> decision" where
  "decide_DetachProvider s tm expected =
     (if expected \<noteq> None \<and> Some (attachedProviderSessionId s) \<noteq> expected then Inr []
      else case attachedProviderId s of
        None \<Rightarrow> Inr []
      | Some attached \<Rightarrow> Inr [ProviderDetached attached (attachedProviderSessionId s) tm])"

section \<open>The decider\<close>

text \<open>The guard of every command on an existing session.\<close>

definition with_session :: "session_state \<Rightarrow> (string \<Rightarrow> decision) \<Rightarrow> decision" where
  "with_session s f =
     (case sessionId s of
        None \<Rightarrow> Inl SessionNotFound
      | Some sid \<Rightarrow>
          if \<not> exists s then Inl SessionNotFound
          else if deleted s then Inl SessionDeletedConflict
          else f sid)"

primrec decide :: "session_state \<Rightarrow> session_command \<Rightarrow> decision" where
  "decide s (CreateSession c) = decide_CreateSession s c"
| "decide s (CreateSessionWithInitialTurn c t) = decide_CreateSessionWithInitialTurn s c t"
| "decide s (SetTitle title' provenance tm) =
     with_session s (\<lambda>_. decide_SetTitle s title' provenance tm)"
| "decide s (SetModel model' tm) =
     with_session s (\<lambda>sid. decide_switch sid s None None None model' tm)"
| "decide s (SetProvider resume expected provider' model' tm) =
     with_session s (\<lambda>sid. decide_switch sid s (Some provider') resume expected model' tm)"
| "decide s (SetRuntimeMode mode tm) =
     with_session s
       (\<lambda>_. if runtimeMode s = Some mode then Inr [] else Inr [SessionRuntimeModeSet mode tm])"
| "decide s (SetPermissionMode mode tm) =
     with_session s
       (\<lambda>_. if permissionMode s = Some mode then Inr [] else Inr [SessionPermissionModeSet mode tm])"
| "decide s (SetWorktree worktree tm force) =
     with_session s (\<lambda>_. decide_SetWorktree s worktree tm force)"
| "decide s (SetStatus status' tm) =
     with_session s
       (\<lambda>_. if status s = Some status' then Inr [] else Inr [SessionStatusSet status' tm])"
| "decide s (SetQueuePaused paused tm) =
     with_session s
       (\<lambda>_. if queuePaused s = paused then Inr [] else Inr [SessionQueuePausedSet paused tm])"
| "decide s (ReleaseInitialTurn expected input start tm) =
     with_session s (\<lambda>_. decide_ReleaseInitialTurn s expected input start tm)"
| "decide s (BindAttemptProviderTurn turn_id attempt_id reference tm) =
     with_session s (\<lambda>_. decide_BindAttemptProviderTurn s turn_id attempt_id reference tm)"
| "decide s (BindProviderThread native head tm) =
     with_session s (\<lambda>sid. decide_BindProviderThread sid s native head tm)"
| "decide s (ExpireAttempt turn_id expected tm) =
     with_session s (\<lambda>_. decide_ExpireAttempt s turn_id expected tm)"
| "decide s (RecoverTurn turn_id expected tm) =
     with_session s (\<lambda>_. decide_RecoverTurn s turn_id expected tm)"
| "decide s (RetryTurn turn_id reason input start tm) =
     with_session s (\<lambda>_. decide_RetryTurn s turn_id reason input start tm)"
| "decide s (ArchiveSession tm) =
     with_session s (\<lambda>_. if archived s then Inr [] else Inr [SessionArchived tm])"
| "decide s (UnarchiveSession tm) =
     with_session s (\<lambda>_. if archived s then Inr [SessionUnarchived tm] else Inr [])"
| "decide s (DeleteSession tm) = with_session s (\<lambda>_. Inr [SessionDeleted tm])"
| "decide s (StartTurn turn_id tm) = with_session s (\<lambda>_. decide_StartTurn s turn_id tm)"
| "decide s (SubmitTurn c) = with_session s (\<lambda>_. decide_SubmitTurn s c)"
| "decide s (RollbackTurns through message_sequence removed_ids tm) =
     with_session s (\<lambda>_. decide_RollbackTurns s through message_sequence removed_ids tm)"
| "decide s (FinalizeTurn turn_id outcome tm) =
     with_session s (\<lambda>_. decide_FinalizeTurn s turn_id outcome tm)"
| "decide s (SettleTurn turn_id outcome tm) =
     with_session s (\<lambda>_. decide_SettleTurn s turn_id outcome tm)"
| "decide s (RequestTurnInterrupt expected tm) =
     with_session s (\<lambda>_. decide_RequestTurnInterrupt s expected tm)"
| "decide s (AcknowledgeTurnInterrupt turn_id tm) =
     with_session s (\<lambda>_. decide_AcknowledgeTurnInterrupt s turn_id tm)"
| "decide s (FailTurnInterrupt turn_id reason tm) =
     with_session s (\<lambda>_. decide_FailTurnInterrupt s turn_id reason tm)"
| "decide s (EnqueueTurn q) = with_session s (\<lambda>_. decide_EnqueueTurn s q)"
| "decide s (UpdateQueuedTurn queue_id input tm ready) =
     with_session s (\<lambda>_. decide_UpdateQueuedTurn s queue_id input tm ready)"
| "decide s (ClaimQueuedTurn queue_id tm) =
     with_session s (\<lambda>_. decide_ClaimQueuedTurn s queue_id tm)"
| "decide s (RemoveQueuedTurn queue_id tm) =
     with_session s (\<lambda>_. decide_RemoveQueuedTurn s queue_id tm)"
| "decide s (ReorderQueuedTurns ids tm) =
     with_session s (\<lambda>_. decide_ReorderQueuedTurns s ids tm)"
| "decide s (SteerQueuedTurn expected queue_id successor_id tm) =
     with_session s (\<lambda>_. decide_SteerQueuedTurn s expected queue_id successor_id tm)"
| "decide s (PersistMessage m) = with_session s (\<lambda>_. decide_PersistMessage s m)"
| "decide s (OpenSegment turn_id segment_id kind tm) =
     with_session s (\<lambda>_. decide_OpenSegment s turn_id segment_id kind tm)"
| "decide s (SettleSegment turn_id segment_id outcome tm) =
     with_session s (\<lambda>_. decide_SettleSegment s turn_id segment_id outcome tm)"
| "decide s (RequestPermission own request_id turn_id payload tm) =
     with_session s
       (\<lambda>_. if request_id \<in> pendingPermissionIds s then Inr []
            else Inr [PermissionRequested own request_id turn_id payload tm])"
| "decide s (ResolvePermission request_id choice choice_json tm) =
     with_session s (\<lambda>_. decide_ResolvePermission s request_id choice choice_json tm)"
| "decide s (ExpirePermission request_id tm) =
     with_session s (\<lambda>_. decide_ExpirePermission s request_id tm)"
| "decide s (ExpirePlan item_id reason tm) =
     with_session s
       (\<lambda>_. if item_id \<in> expiredPlanIds s then Inr [] else Inr [PlanExpired item_id reason tm])"
| "decide s (ExpireQuestion item_id tm) =
     with_session s (\<lambda>_. decide_ExpireQuestion s item_id tm)"
| "decide s (ResolveQuestion item_id tm) =
     with_session s
       (\<lambda>_. if item_id \<in> resolvedQuestionIds s then Inr [] else Inr [QuestionResolved item_id tm])"
| "decide s (ReserveProviderSession c) = with_session s (\<lambda>_. decide_ReserveProviderSession s c)"
| "decide s (AttachProvider provider' psid tm) =
     with_session s (\<lambda>_. decide_AttachProvider s provider' psid tm)"
| "decide s (RequestProviderStop tm) = with_session s (\<lambda>_. Inr (provider_stops s tm))"
| "decide s (DetachProvider tm expected) =
     with_session s (\<lambda>_. decide_DetachProvider s tm expected)"

end
