(* ===== verification/Aggregate.thy ===== *)
theory Aggregate
  imports Prelude
begin

text \<open>
  The contract of an event-sourced aggregate, which sessions and chats share: an initial state,
  a fold \<open>evolve\<close> over events, a decider that turns a command into events or an error, and a
  version that counts the events. A state is reachable when it comes from the initial state by
  accepted commands; it is then the replay of a log, whose length is its version.

  The second locale adds an invariant that every accepted command keeps.
\<close>

text \<open>The states a sequence of accepted commands leads to, with the log it leaves.\<close>

inductive reachable ::
  "'s \<Rightarrow> ('s \<Rightarrow> 'e \<Rightarrow> 's) \<Rightarrow> ('s \<Rightarrow> 'c \<Rightarrow> 'err + 'e list) \<Rightarrow> 'e list \<Rightarrow> 's \<Rightarrow> bool"
  for start :: 's and apply_event :: "'s \<Rightarrow> 'e \<Rightarrow> 's" and decider :: "'s \<Rightarrow> 'c \<Rightarrow> 'err + 'e list"
where
  reach_start: "reachable start apply_event decider [] start"
| reach_step:
    "reachable start apply_event decider hist s \<Longrightarrow> decider s c = Inr es \<Longrightarrow>
     reachable start apply_event decider (hist @ es) (foldl apply_event s es)"

lemma reachable_replay:
  "reachable start apply_event decider hist s \<Longrightarrow> s = foldl apply_event start hist"
  by (induction rule: reachable.induct) simp_all

locale aggregate =
  fixes start :: 's
    and apply_event :: "'s \<Rightarrow> 'e \<Rightarrow> 's"
    and decider :: "'s \<Rightarrow> 'c \<Rightarrow> 'err + 'e list"
    and count :: "'s \<Rightarrow> int"
  assumes count_start: "count start = 0"
    and count_step: "count (apply_event s e) = count s + 1"
begin

lemma count_foldl: "count (foldl apply_event s es) = count s + int (length es)"
  by (induction es arbitrary: s) (simp_all add: count_step)

lemma count_reachable:
  assumes "reachable start apply_event decider hist s"
  shows "count s = int (length hist)"
proof -
  from assms have "s = foldl apply_event start hist" by (rule reachable_replay)
  then show ?thesis by (simp add: count_foldl count_start)
qed

end

locale aggregate_invariant = aggregate start apply_event decider count
  for start :: 's
    and apply_event :: "'s \<Rightarrow> 'e \<Rightarrow> 's"
    and decider :: "'s \<Rightarrow> 'c \<Rightarrow> 'err + 'e list"
    and count :: "'s \<Rightarrow> int" +
  fixes invar :: "'s \<Rightarrow> bool"
  assumes invar_start: "invar start"
    and invar_step: "invar s \<Longrightarrow> decider s c = Inr es \<Longrightarrow> invar (foldl apply_event s es)"
begin

lemma invar_reachable: "reachable start apply_event decider hist s \<Longrightarrow> invar s"
  by (induction rule: reachable.induct) (simp_all add: invar_start invar_step)

end

end
