(* ===== verification/Session_Invariants.thy ===== *)
theory Session_Invariants
  imports Session_Decider Aggregate
begin

text \<open>
  The well-formedness invariant of a session and the proof that every command keeps it.

  The invariant is split by the fields it speaks about. \<open>event_ok\<close> states what each event
  relies on; an event that meets it keeps the invariant, and the events of a decision meet it
  one after the other.
\<close>

section \<open>Turns and attempts\<close>

definition live_statuses :: "turn_status set" where
  "live_statuses = {TurnStarting, TurnRunning, TurnFinalizing}"

text \<open>
  The attempts of a turn are numbered from 1 without gaps, the last one is the active one and
  all before it are superseded.
\<close>

definition attempts_wf :: "turn_state \<Rightarrow> bool" where
  "attempts_wf t \<longleftrightarrow>
     tn_attempts t \<noteq> [] \<and>
     keys (tn_attempts t) =
       map (\<lambda>i. attempt_id_for (tn_id t) (int i + 1)) [0..<length (tn_attempts t)] \<and>
     map (att_ordinal \<circ> snd) (tn_attempts t) = map (\<lambda>i. int i + 1) [0..<length (tn_attempts t)] \<and>
     (\<forall>(k, a) \<in> set (tn_attempts t). att_id a = k) \<and>
     tn_activeAttemptId t = attempt_id_for (tn_id t) (int (length (tn_attempts t))) \<and>
     (\<forall>(k, a) \<in> set (tn_attempts t).
        k \<noteq> tn_activeAttemptId t \<longrightarrow> att_status a = AttemptSuperseded)"

definition running_attempts :: "turn_state \<Rightarrow> string list" where
  "running_attempts t =
     map fst (filter (\<lambda>(k, a). att_status a = AttemptRunning) (tn_attempts t))"

definition live_turn :: "turn_state \<Rightarrow> bool" where
  "live_turn t \<longleftrightarrow>
     tn_status t \<in> live_statuses \<and> tn_phase t \<noteq> None \<and> tn_completedAt t = None \<and>
     map_option att_status (map_of (tn_attempts t) (tn_activeAttemptId t)) = Some AttemptRunning"

definition ended_turn :: "turn_state \<Rightarrow> bool" where
  "ended_turn t \<longleftrightarrow>
     tn_status t \<notin> live_statuses \<and> tn_phase t = None \<and> tn_completedAt t \<noteq> None \<and>
     (\<forall>a. map_of (tn_attempts t) (tn_activeAttemptId t) = Some a \<longrightarrow>
        att_status a \<in> {AttemptCompleted, AttemptInterrupted, AttemptFailed})"

definition turns_wf ::
  "(string, turn_state) jsmap \<Rightarrow> int \<Rightarrow> string option \<Rightarrow> turn_phase option \<Rightarrow> string set \<Rightarrow> bool" where
  "turns_wf ts n cur phase settled \<longleftrightarrow>
     distinct (keys ts) \<and> 0 \<le> n \<and>
     (\<forall>(k, t) \<in> set ts. \<forall>(k', t') \<in> set ts. tn_ordinal t = tn_ordinal t' \<longrightarrow> k = k') \<and>
     (\<forall>(k, t) \<in> set ts.
        tn_id t = k \<and> 1 \<le> tn_ordinal t \<and> tn_ordinal t \<le> n \<and> attempts_wf t \<and>
        (if cur = Some k then live_turn t else ended_turn t \<and> k \<in> settled)) \<and>
     (case cur of
        None \<Rightarrow> phase = None
      | Some k \<Rightarrow> (\<exists>t. map_of ts k = Some t \<and> tn_phase t = phase))"

abbreviation turns_inv :: "session_state \<Rightarrow> bool" where
  "turns_inv s \<equiv>
     turns_wf (turns s) (turnCount s) (currentTurnId s) (currentTurnPhase s) (settledTurnIds s)"

section \<open>The other collections\<close>

definition threads_wf ::
  "string option \<Rightarrow> (string, provider_thread) jsmap \<Rightarrow> string option \<Rightarrow>
     (string, turn_state) jsmap \<Rightarrow> bool" where
  "threads_wf sid threads active ts \<longleftrightarrow>
     distinct (keys threads) \<and>
     (\<forall>(k, t) \<in> set threads.
        pt_id t = k \<and> scope_provider_thread_id (or_else sid '''') k = k) \<and>
     (\<forall>k. active = Some k \<longrightarrow> map_has threads k) \<and>
     (\<forall>(u, t) \<in> set ts. \<forall>k. tn_providerThreadId t = Some k \<longrightarrow> map_has threads k)"

abbreviation threads_inv :: "session_state \<Rightarrow> bool" where
  "threads_inv s \<equiv>
     threads_wf (sessionId s) (providerThreads s) (activeProviderThreadId s) (turns s)"

definition queue_wf :: "(string, queued_turn) jsmap \<Rightarrow> string list \<Rightarrow> bool" where
  "queue_wf q order \<longleftrightarrow>
     distinct (keys q) \<and> set order = set (keys q) \<and> (\<forall>(k, v) \<in> set q. qt_queueId v = k)"

definition segments_wf :: "(string, open_segment) jsmap \<Rightarrow> string option \<Rightarrow> bool" where
  "segments_wf segs cur \<longleftrightarrow> (\<forall>(k, sg) \<in> set segs. cur = Some (seg_turnId sg))"

definition checkpoint_revision_ok :: "js_number \<Rightarrow> bool" where
  "checkpoint_revision_ok r \<longleftrightarrow> is_safe_integer r \<and> \<not> js_less r (js_of_int 1)"

definition messages_wf :: "string set \<Rightarrow> (string, message_checkpoint) jsmap \<Rightarrow> bool" where
  "messages_wf ids cps \<longleftrightarrow>
     distinct (keys cps) \<and> set (keys cps) \<subseteq> ids \<and>
     (\<forall>(k, c) \<in> set cps. checkpoint_revision_ok (mc_revision c))"

definition references_wf :: "(string, turn_reference) jsmap \<Rightarrow> bool" where
  "references_wf refs \<longleftrightarrow> distinct (keys refs) \<and> distinct (map snd refs)"

text \<open>Everything but the scheduled successor, event by event.\<close>

definition event_inv :: "session_state \<Rightarrow> bool" where
  "event_inv s \<longleftrightarrow>
     turns_inv s \<and> threads_inv s \<and> queue_wf (queuedTurns s) (queueOrder s) \<and>
     segments_wf (openSegments s) (currentTurnId s) \<and>
     messages_wf (messageIds s) (messageCheckpoints s) \<and>
     references_wf (attemptProviderTurns s) \<and>
     expiredQuestionIds s \<inter> resolvedQuestionIds s = {} \<and>
     (archived s \<or> deleted s \<longrightarrow> providerReservation s = None) \<and>
     (\<forall>t. lastSettledTurnId s = Some t \<longrightarrow> t \<in> settledTurnIds s) \<and>
     (lastSettledTurnId s = None \<longleftrightarrow> lastSettlementOutcome s = None) \<and>
     (exists s \<longrightarrow> sessionId s \<noteq> None) \<and>
     (\<not> exists s \<longrightarrow> s = initial_session_state)"

text \<open>A successor waits only for the turn that is running.\<close>

definition successor_inv :: "session_state \<Rightarrow> bool" where
  "successor_inv s \<longleftrightarrow>
     (\<forall>su. scheduledSuccessor s = Some su \<longrightarrow> currentTurnId s = Some (su_predecessorTurnId su))"

definition session_inv :: "session_state \<Rightarrow> bool" where
  "session_inv s \<longleftrightarrow> event_inv s \<and> successor_inv s"

section \<open>What an event relies on\<close>

fun event_ok :: "session_state \<Rightarrow> session_event \<Rightarrow> bool" where
  "event_ok s (SessionCreated e) = (\<not> exists s)"
| "event_ok s (ActiveProviderThreadSet key tm) =
     (exists s \<and>
      (\<forall>k. key = Some k \<longrightarrow>
         map_has (providerThreads s) (scope_provider_thread_id (or_else (sessionId s) '''') k)))"
| "event_ok s (TurnStarted t tm ordinal attempt thread) =
     (exists s \<and> currentTurnId s = None \<and> ordinal = Some (turnCount s + 1) \<and>
      attempt = Some (attempt_id_for t 1) \<and> thread \<noteq> None \<and>
      (\<forall>k. thread = Some (Some k) \<longrightarrow> map_has (providerThreads s) k))"
| "event_ok s (AttemptProviderTurnBound t a reference tm) =
     (exists s \<and> (map_has (attemptProviderTurns s) a \<or> reference \<notin> snd ` set (attemptProviderTurns s)))"
| "event_ok s (AttemptStarted e) =
     (exists s \<and> currentTurnId s = Some (as_turnId e) \<and>
      (\<forall>t. map_of (turns s) (as_turnId e) = Some t \<longrightarrow>
         as_turnOrdinal e = tn_ordinal t \<and>
         as_ordinal e = int (length (tn_attempts t)) + 1 \<and>
         as_attemptId e = attempt_id_for (as_turnId e) (as_ordinal e)))"
| "event_ok s (TurnsRolledBack e) = (exists s \<and> currentTurnId s = None)"
| "event_ok s (TurnFinalizationRequested t a outcome tm) = (exists s \<and> currentTurnId s = Some t)"
| "event_ok s (TurnSettled t outcome tm) =
     (exists s \<and> currentTurnId s = Some t \<and> (\<forall>(k, sg) \<in> set (openSegments s). seg_turnId sg \<noteq> t))"
| "event_ok s (QueuedTurnEnqueued q) =
     (exists s \<and> \<not> map_has (queuedTurns s) (qt_queueId q))"
| "event_ok s (QueuedTurnsReordered ids tm) = (exists s \<and> set ids = set (keys (queuedTurns s)))"
| "event_ok s (MessagePersisted m) =
     (exists s \<and> (\<forall>r. mf_checkpointRevision m = Some r \<longrightarrow> checkpoint_revision_ok r))"
| "event_ok s (SegmentOpened t sg kind tm) = (exists s \<and> currentTurnId s = Some t)"
| "event_ok s (QuestionExpired item tm) = (exists s \<and> item \<notin> resolvedQuestionIds s)"
| "event_ok s (ProviderSessionReserved p psid tm) = (exists s \<and> \<not> archived s \<and> \<not> deleted s)"
| "event_ok s e = exists s"

fun events_ok :: "decoder \<Rightarrow> session_state \<Rightarrow> session_event list \<Rightarrow> bool" where
  "events_ok dec s [] = True"
| "events_ok dec s (e # es) = (event_ok s e \<and> events_ok dec (evolve dec s e) es)"

section \<open>Attempts of one turn\<close>

lemma update_in_place:
  "\<lbrakk>map_of m k = Some a; f a' = f a\<rbrakk> \<Longrightarrow> map (f \<circ> snd) (AList.update k a' m) = map (f \<circ> snd) m"
  by (induction m) auto

lemma update_fresh: "k \<notin> set (keys m) \<Longrightarrow> AList.update k a m = m @ [(k, a)]"
  by (induction m) auto

lemma map_of_keys_Some: "k \<in> set (keys m) \<Longrightarrow> \<exists>v. map_of m k = Some v"
  by (induction m) auto

lemma length_update_old: "k \<in> set (keys m) \<Longrightarrow> length (AList.update k a m) = length m"
  by (simp add: length_update)

lemma attempt_keys_distinct: "attempts_wf t \<Longrightarrow> distinct (keys (tn_attempts t))"
  by (auto simp: attempts_wf_def distinct_map attempt_id_for_def inj_on_def)

lemma active_in_keys:
  assumes "attempts_wf t"
  shows "tn_activeAttemptId t \<in> set (keys (tn_attempts t))"
proof -
  let ?n = "length (tn_attempts t)"
  from assms have keys: "keys (tn_attempts t) = map (\<lambda>i. attempt_id_for (tn_id t) (int i + 1)) [0..<?n]"
    and active: "tn_activeAttemptId t = attempt_id_for (tn_id t) (int ?n)" and "0 < ?n"
    by (simp_all add: attempts_wf_def)
  then obtain m where "?n = Suc m" using gr0_conv_Suc by blast
  then have m: "m \<in> {0..<?n}" "int ?n = int m + 1" by simp_all
  show ?thesis unfolding keys active m(2) set_map set_upt by (rule imageI) (rule m(1))
qed

lemma next_attempt_fresh:
  assumes "attempts_wf t"
  shows "attempt_id_for (tn_id t) (int (length (tn_attempts t)) + 1) \<notin> set (keys (tn_attempts t))"
proof -
  from assms have "set (keys (tn_attempts t)) =
      (\<lambda>i. attempt_id_for (tn_id t) (int i + 1)) ` set [0..<length (tn_attempts t)]"
    unfolding attempts_wf_def by (metis list.set_map)
  then show ?thesis by (auto simp: attempt_id_for_def)
qed

lemma attempts_wf_active:
  assumes wf: "attempts_wf t" and a: "map_of (tn_attempts t) (tn_activeAttemptId t) = Some a"
    and a': "att_id a' = att_id a" "att_ordinal a' = att_ordinal a"
    and t': "tn_id t' = tn_id t" "tn_activeAttemptId t' = tn_activeAttemptId t"
      "tn_attempts t' = AList.update (att_id a) a' (tn_attempts t)"
  shows "attempts_wf t'" "map_of (tn_attempts t') (tn_activeAttemptId t') = Some a'"
proof -
  have id: "att_id a = tn_activeAttemptId t"
    using wf map_of_SomeD [OF a] by (auto simp: attempts_wf_def)
  have keys: "keys (AList.update (att_id a) a' (tn_attempts t)) = keys (tn_attempts t)"
    using active_in_keys [OF wf] by (simp add: id keys_update)
  have len: "length (AList.update (att_id a) a' (tn_attempts t)) = length (tn_attempts t)"
    using active_in_keys [OF wf] by (simp add: id length_update_old)
  have ords: "map (att_ordinal \<circ> snd) (AList.update (att_id a) a' (tn_attempts t)) =
      map (att_ordinal \<circ> snd) (tn_attempts t)"
    using a a'(2) by (intro update_in_place [where f = att_ordinal]) (simp_all add: id)
  have set: "set (AList.update (att_id a) a' (tn_attempts t)) =
      insert (tn_activeAttemptId t, a') {x \<in> set (tn_attempts t). fst x \<noteq> tn_activeAttemptId t}"
    using set_update [OF attempt_keys_distinct [OF wf]] by (simp add: id)
  have ne: "AList.update (att_id a) a' (tn_attempts t) \<noteq> []"
    using len wf by (metis attempts_wf_def length_0_conv)
  show "attempts_wf t'"
    using wf unfolding attempts_wf_def t' len keys ords set
    by (simp add: ne a' id case_prod_beta)
  show "map_of (tn_attempts t') (tn_activeAttemptId t') = Some a'"
    by (simp add: t' id)
qed

lemma attempts_wf_append:
  assumes wf: "attempts_wf t"
    and sup: "\<forall>(k, a) \<in> set (tn_attempts t). att_status a = AttemptSuperseded"
    and n: "n = int (length (tn_attempts t)) + 1"
    and a: "att_id a = attempt_id_for (tn_id t) n" "att_ordinal a = n"
    and t': "tn_id t' = tn_id t" "tn_activeAttemptId t' = attempt_id_for (tn_id t) n"
      "tn_attempts t' = AList.update (attempt_id_for (tn_id t) n) a (tn_attempts t)"
  shows "attempts_wf t'" "map_of (tn_attempts t') (tn_activeAttemptId t') = Some a"
proof -
  have upd: "tn_attempts t' = tn_attempts t @ [(attempt_id_for (tn_id t) n, a)]"
    using next_attempt_fresh [OF wf] by (simp add: t' n update_fresh)
  show "attempts_wf t'"
    using wf sup unfolding attempts_wf_def upd t'
    by (auto simp: n a algebra_simps)
  show "map_of (tn_attempts t') (tn_activeAttemptId t') = Some a"
    by (simp add: t')
qed

lemma attempts_wf_fields [simp]:
  "attempts_wf (t\<lparr>tn_status := x\<rparr>) = attempts_wf t"
  "attempts_wf (t\<lparr>tn_phase := p\<rparr>) = attempts_wf t"
  "attempts_wf (t\<lparr>tn_completedAt := c\<rparr>) = attempts_wf t"
  by (simp_all add: attempts_wf_def)

section \<open>The map of turns\<close>

definition turn_entry :: "int \<Rightarrow> string option \<Rightarrow> string set \<Rightarrow> string \<Rightarrow> turn_state \<Rightarrow> bool" where
  "turn_entry n cur settled k t \<longleftrightarrow>
     tn_id t = k \<and> 1 \<le> tn_ordinal t \<and> tn_ordinal t \<le> n \<and> attempts_wf t \<and>
     (if cur = Some k then live_turn t else ended_turn t \<and> k \<in> settled)"

lemma turns_wf_iff:
  "turns_wf ts n cur phase settled \<longleftrightarrow>
     distinct (keys ts) \<and> 0 \<le> n \<and>
     (\<forall>k t. map_of ts k = Some t \<longrightarrow>
        (\<forall>k' t'. map_of ts k' = Some t' \<longrightarrow> tn_ordinal t = tn_ordinal t' \<longrightarrow> k = k')) \<and>
     (\<forall>k t. map_of ts k = Some t \<longrightarrow> turn_entry n cur settled k t) \<and>
     (case cur of
        None \<Rightarrow> phase = None
      | Some k \<Rightarrow> (\<exists>t. map_of ts k = Some t \<and> tn_phase t = phase))"
  unfolding turns_wf_def turn_entry_def by (cases "distinct (keys ts)") (simp_all add: ball_map_of)

lemma turns_wf_entry:
  "\<lbrakk>turns_wf ts n cur phase settled; map_of ts k = Some t\<rbrakk> \<Longrightarrow> turn_entry n cur settled k t"
  by (simp add: turns_wf_iff)

lemma turns_wf_current:
  "turns_wf ts n (Some k) phase settled \<Longrightarrow> \<exists>t. map_of ts k = Some t \<and> tn_phase t = phase"
  by (simp add: turns_wf_iff)

lemma turns_wf_update_current:
  assumes wf: "turns_wf ts n (Some k) phase settled" and t: "map_of ts k = Some t"
    and t': "tn_id t' = k" "tn_ordinal t' = tn_ordinal t" "attempts_wf t'" "live_turn t'"
      "tn_phase t' = phase'"
  shows "turns_wf (AList.update k t' ts) n (Some k) phase' settled"
proof -
  have "turn_entry n (Some k) settled k t'"
    using turns_wf_entry [OF wf t] t' by (simp add: turn_entry_def)
  then show ?thesis using wf t t' by (auto simp: turns_wf_iff)
qed

lemma turns_wf_settle:
  assumes wf: "turns_wf ts n (Some k) phase settled" and t: "map_of ts k = Some t"
    and t': "tn_id t' = k" "tn_ordinal t' = tn_ordinal t" "attempts_wf t'" "ended_turn t'"
  shows "turns_wf (AList.update k t' ts) n None None (insert k settled)"
proof -
  have "turn_entry n None (insert k settled) k t'"
    using turns_wf_entry [OF wf t] t' by (simp add: turn_entry_def)
  moreover have "turn_entry n (Some k) settled a x \<Longrightarrow> a \<noteq> k \<Longrightarrow> turn_entry n None (insert k settled) a x"
    for a x by (simp add: turn_entry_def)
  ultimately show ?thesis using wf t t' by (auto simp: turns_wf_iff)
qed

lemma turns_wf_start:
  assumes wf: "turns_wf ts n None phase settled"
    and t': "tn_id t' = k" "tn_ordinal t' = n + 1" "attempts_wf t'" "live_turn t'"
  shows "turns_wf (AList.update k t' ts) (n + 1) (Some k) (tn_phase t') settled"
proof -
  have "turn_entry (n + 1) (Some k) settled k t'"
    using wf t' by (simp add: turn_entry_def turns_wf_iff)
  moreover have "turn_entry n None settled a x \<Longrightarrow> a \<noteq> k \<Longrightarrow> turn_entry (n + 1) (Some k) settled a x"
    for a x by (simp add: turn_entry_def)
  moreover have "\<forall>a x. map_of ts a = Some x \<longrightarrow> tn_ordinal x \<noteq> tn_ordinal t'"
    using turns_wf_entry [OF wf] t'(2) by (fastforce simp: turn_entry_def)
  ultimately show ?thesis using wf t' unfolding turns_wf_iff by (auto simp del: t'(2)) metis
qed

text \<open>Marking ended turns as rolled back.\<close>

lemma turns_wf_rollback:
  assumes wf: "turns_wf ts n None phase settled"
  shows "turns_wf (map_values (\<lambda>t. if P t then t\<lparr>tn_status := TurnRolledBack\<rparr> else t) ts) n None phase
           settled"
proof -
  have "turn_entry n None settled k t \<Longrightarrow>
      turn_entry n None settled k (t\<lparr>tn_status := TurnRolledBack\<rparr>)" for k t
    by (simp add: turn_entry_def ended_turn_def live_statuses_def)
  moreover have "tn_ordinal (if P t then t\<lparr>tn_status := TurnRolledBack\<rparr> else t) = tn_ordinal t" for t
    by simp
  ultimately show ?thesis using wf by (auto simp: turns_wf_iff)
qed

section \<open>Events keep the turns well formed\<close>

lemmas turn_preds = live_turn_def ended_turn_def live_statuses_def

lemma current_turn_wf:
  assumes "turns_inv s" "currentTurnId s = Some k"
  obtains t where "map_of (turns s) k = Some t" "tn_phase t = currentTurnPhase s"
    "tn_id t = k" "tn_ordinal t \<le> turnCount s" "attempts_wf t" "live_turn t"
proof -
  from assms have "turns_wf (turns s) (turnCount s) (Some k) (currentTurnPhase s) (settledTurnIds s)"
    by simp
  then obtain t where t: "map_of (turns s) k = Some t" "tn_phase t = currentTurnPhase s"
    using turns_wf_current by blast
  from turns_wf_entry [OF assms(1) t(1)] assms(2) have
    "tn_id t = k" "tn_ordinal t \<le> turnCount s" "attempts_wf t" "live_turn t"
    by (simp_all add: turn_entry_def)
  with t that show ?thesis by blast
qed

lemma turns_inv_current:
  assumes inv: "turns_inv s" and cur: "currentTurnId s = Some k" and t: "map_of (turns s) k = Some t"
    and t': "tn_id t' = k" "tn_ordinal t' = tn_ordinal t" "attempts_wf t'" "live_turn t'"
      "tn_phase t' = p"
  shows "turns_wf (AList.update k t' (turns s)) (max (turnCount s) (tn_ordinal t')) (Some k) p
           (settledTurnIds s)"
proof -
  from turns_wf_entry [OF inv t] t'(2) have "max (turnCount s) (tn_ordinal t') = turnCount s"
    by (simp add: turn_entry_def)
  then show ?thesis
    using turns_wf_update_current [OF _ t t', of "turnCount s" _ "settledTurnIds s"] inv cur by simp
qed

lemma turns_inv_StatusSet:
  assumes inv: "turns_inv s"
  shows "turns_inv (evolve_SessionStatusSet s x)"
proof (cases "currentTurnId s")
  case None
  then show ?thesis using inv by (simp add: evolve_SessionStatusSet_def current_turn_def)
next
  case (Some k)
  from current_turn_wf [OF inv Some] obtain t where t: "map_of (turns s) k = Some t"
    "tn_phase t = currentTurnPhase s" "tn_id t = k" "attempts_wf t" "live_turn t" by blast
  have "live_turn (t\<lparr>tn_status := TurnRunning\<rparr>)" using t(5) by (simp add: turn_preds)
  then show ?thesis
    using inv t Some turns_inv_current [OF inv Some t(1), of "t\<lparr>tn_status := TurnRunning\<rparr>"]
    by (simp add: evolve_SessionStatusSet_def current_turn_def with_turn_def)
qed

lemma turns_inv_phase:
  assumes inv: "turns_inv s"
  shows "turns_inv (with_turn_phase s k p)"
proof (cases "currentTurnId s = Some k")
  case False
  then show ?thesis using inv by (simp add: with_turn_phase_def split: option.splits)
next
  case True
  from current_turn_wf [OF inv True] obtain t where t: "map_of (turns s) k = Some t"
    "tn_id t = k" "attempts_wf t" "live_turn t" by blast
  have "live_turn (t\<lparr>tn_phase := Some p\<rparr>)" using t(4) by (simp add: turn_preds)
  then show ?thesis
    using inv t True
      turns_wf_update_current [OF _ t(1), of "turnCount s" _ "settledTurnIds s" "t\<lparr>tn_phase := Some p\<rparr>"]
    by (simp add: with_turn_phase_def)
qed

lemma turns_inv_Finalization:
  assumes inv: "turns_inv s" and cur: "currentTurnId s = Some k"
  shows "turns_inv (evolve_TurnFinalizationRequested s k)"
proof -
  from current_turn_wf [OF inv cur] obtain t where t: "map_of (turns s) k = Some t"
    "tn_phase t = currentTurnPhase s" "tn_id t = k" "attempts_wf t" "live_turn t" by blast
  have "live_turn (t\<lparr>tn_status := TurnFinalizing\<rparr>)" using t(5) by (simp add: turn_preds)
  then show ?thesis
    using inv t cur turns_inv_current [OF inv cur t(1), of "t\<lparr>tn_status := TurnFinalizing\<rparr>"]
    by (simp add: evolve_TurnFinalizationRequested_def with_turn_def next_version_def)
qed

lemma active_attempt_state:
  assumes "live_turn t"
  obtains a where "map_of (tn_attempts t) (tn_activeAttemptId t) = Some a"
    "att_status a = AttemptRunning"
  using assms by (auto simp: live_turn_def)

lemma settle_turn_state_wf:
  assumes "attempts_wf t" "live_turn t"
  shows "attempts_wf (settle_turn_state t outcome tm)" "ended_turn (settle_turn_state t outcome tm)"
proof -
  from active_attempt_state [OF assms(2)] obtain a where
    a: "map_of (tn_attempts t) (tn_activeAttemptId t) = Some a" by blast
  let ?a = "a\<lparr>att_status := outcome_attempt_status outcome, att_completedAt := Some tm\<rparr>"
  let ?t = "settle_turn_state t outcome tm"
  have t: "tn_id ?t = tn_id t" "tn_activeAttemptId ?t = tn_activeAttemptId t"
    "tn_attempts ?t = AList.update (att_id a) ?a (tn_attempts t)"
    "tn_phase ?t = None" "tn_completedAt ?t = Some tm" "tn_status ?t = outcome_turn_status outcome"
    by (simp_all add: settle_turn_state_def a)
  note wf = attempts_wf_active [OF assms(1) a _ _ t(1-3)]
  show "attempts_wf ?t" by (rule wf(1)) simp_all
  have "map_of (tn_attempts ?t) (tn_activeAttemptId ?t) = Some ?a" by (rule wf(2)) simp_all
  moreover have "outcome_turn_status outcome \<notin> live_statuses"
    "outcome_attempt_status outcome \<in> {AttemptCompleted, AttemptInterrupted, AttemptFailed}"
    by (cases outcome; simp add: live_statuses_def)+
  ultimately show "ended_turn ?t" by (simp only: ended_turn_def t(4-6)) simp
qed

lemma turns_inv_TurnSettled:
  assumes inv: "turns_inv s" and cur: "currentTurnId s = Some k"
  shows "turns_inv (evolve_TurnSettled s k outcome tm)"
proof -
  from current_turn_wf [OF inv cur] obtain t where t: "map_of (turns s) k = Some t"
    "tn_id t = k" "attempts_wf t" "live_turn t" by blast
  have "turns_wf (AList.update k (settle_turn_state t outcome tm) (turns s)) (turnCount s) None None
      (insert k (settledTurnIds s))"
    using inv cur t settle_turn_state_wf [OF t(3,4)]
    by (intro turns_wf_settle [OF _ t(1)]) (simp_all add: settle_turn_state_def)
  then show ?thesis
    using t by (simp add: evolve_TurnSettled_def with_provider_thread_def split: option.split)
qed

lemma start_attempt_wf:
  assumes wf: "attempts_wf t" and live: "live_turn t"
    and e: "as_ordinal e = int (length (tn_attempts t)) + 1"
      "as_attemptId e = attempt_id_for (tn_id t) (as_ordinal e)"
  shows "attempts_wf (start_attempt t e)" "live_turn (start_attempt t e)"
proof -
  from active_attempt_state [OF live] obtain a where
    a: "map_of (tn_attempts t) (tn_activeAttemptId t) = Some a" "att_status a = AttemptRunning" by blast
  let ?a = "a\<lparr>att_status := AttemptSuperseded, att_completedAt := Some (as_startedAt e)\<rparr>"
  let ?m = "t\<lparr>tn_attempts := AList.update (att_id a) ?a (tn_attempts t)\<rparr>"
  have m: "attempts_wf ?m" "map_of (tn_attempts ?m) (tn_activeAttemptId ?m) = Some ?a"
    by (rule attempts_wf_active [OF wf a(1)]; simp)+
  have len: "length (tn_attempts ?m) = length (tn_attempts t)"
  proof -
    have "att_id a = tn_activeAttemptId t"
      using wf map_of_SomeD [OF a(1)] by (auto simp: attempts_wf_def)
    then show ?thesis using active_in_keys [OF wf] by (simp add: length_update_old)
  qed
  have sup: "\<forall>(k, x) \<in> set (tn_attempts ?m). att_status x = AttemptSuperseded"
  proof clarify
    fix k x
    assume kx: "(k, x) \<in> set (tn_attempts ?m)"
    then have "map_of (tn_attempts ?m) k = Some x"
      by (simp only: map_of_in_set [OF attempt_keys_distinct [OF m(1)]])
    with m(2) have "k = tn_activeAttemptId ?m \<Longrightarrow> x = ?a" by simp
    moreover from m(1) kx have "k \<noteq> tn_activeAttemptId ?m \<Longrightarrow> att_status x = AttemptSuperseded"
      unfolding attempts_wf_def by blast
    ultimately show "att_status x = AttemptSuperseded"
      by (cases "k = tn_activeAttemptId ?m") simp_all

  qed
  let ?new = "\<lparr>att_id = as_attemptId e, att_ordinal = as_ordinal e, att_reason = as_reason e,
    att_status = AttemptRunning, att_startedAt = as_startedAt e, att_completedAt = None\<rparr>"
  have st: "tn_id (start_attempt t e) = tn_id ?m"
    "tn_activeAttemptId (start_attempt t e) = attempt_id_for (tn_id ?m) (as_ordinal e)"
    "tn_attempts (start_attempt t e) =
       AList.update (attempt_id_for (tn_id ?m) (as_ordinal e)) ?new (tn_attempts ?m)"
    by (simp_all add: start_attempt_def a e(2) [symmetric])
  have n: "as_ordinal e = int (length (tn_attempts ?m)) + 1" by (simp only: e(1) len)
  note new = attempts_wf_append [OF m(1) sup n _ _ st]
  show "attempts_wf (start_attempt t e)" by (rule new(1)) (simp_all add: e(2))
  have "map_of (tn_attempts (start_attempt t e)) (tn_activeAttemptId (start_attempt t e)) = Some ?new"
    by (rule new(2)) (simp_all add: e(2))
  moreover have "tn_status (start_attempt t e) = TurnStarting"
    "tn_phase (start_attempt t e) = Some PhaseRunning"
    "tn_completedAt (start_attempt t e) = tn_completedAt t"
    by (simp_all add: start_attempt_def Let_def)
  ultimately show "live_turn (start_attempt t e)"
    using live by (simp add: live_turn_def live_statuses_def)
qed

lemma turns_inv_AttemptStarted:
  assumes inv: "turns_inv s" and ok: "event_ok s (AttemptStarted e)"
  shows "turns_inv (evolve_AttemptStarted s e)"
proof -
  from ok have cur: "currentTurnId s = Some (as_turnId e)" by simp
  from current_turn_wf [OF inv cur] obtain t where t: "map_of (turns s) (as_turnId e) = Some t"
    "tn_id t = as_turnId e" "attempts_wf t" "live_turn t" by blast
  from ok t have e: "as_ordinal e = int (length (tn_attempts t)) + 1"
    "as_attemptId e = attempt_id_for (tn_id t) (as_ordinal e)" by auto
  have "tn_id (start_attempt t e) = as_turnId e" "tn_ordinal (start_attempt t e) = tn_ordinal t"
    "tn_phase (start_attempt t e) = Some PhaseRunning"
    by (simp_all add: start_attempt_def t)
  with turns_inv_current [OF inv cur t(1), of "start_attempt t e"] start_attempt_wf [OF t(3,4) e]
  show ?thesis
    using t cur by (simp add: evolve_AttemptStarted_def with_turn_def)
qed

lemma started_turn_fields [simp]:
  "tn_id (started_turn k n tm a th) = k" "tn_ordinal (started_turn k n tm a th) = n"
  "tn_phase (started_turn k n tm a th) = Some PhaseRunning"
  "tn_providerThreadId (started_turn k n tm a th) = th"
  by (simp_all add: started_turn_def)

lemma started_turn_wf:
  "attempts_wf (started_turn k n tm (attempt_id_for k 1) th)"
  "live_turn (started_turn k n tm (attempt_id_for k 1) th)"
  by (simp_all add: started_turn_def attempts_wf_def turn_preds)

lemma TurnStarted_fields:
  "turns (evolve_TurnStarted s k tm (Some n) (Some a) th) =
     AList.update k (started_turn k n tm a (event_thread s th)) (turns s)"
  "turnCount (evolve_TurnStarted s k tm (Some n) (Some a) th) = max (turnCount s) n"
  "currentTurnId (evolve_TurnStarted s k tm (Some n) (Some a) th) = Some k"
  "currentTurnPhase (evolve_TurnStarted s k tm (Some n) (Some a) th) = Some PhaseRunning"
  "settledTurnIds (evolve_TurnStarted s k tm (Some n) (Some a) th) = settledTurnIds s"
  by (simp_all add: evolve_TurnStarted_def Let_def with_turn_def with_provider_thread_def
      split: option.split)

lemma turns_inv_TurnStarted:
  assumes inv: "turns_inv s" and cur: "currentTurnId s = None"
  shows "turns_inv (evolve_TurnStarted s k tm (Some (turnCount s + 1)) (Some (attempt_id_for k 1)) th)"
proof -
  have "max (turnCount s) (turnCount s + 1) = turnCount s + 1" by simp
  then show ?thesis
    using turns_wf_start [of "turns s" "turnCount s" "currentTurnPhase s" "settledTurnIds s"
        "started_turn k (turnCount s + 1) tm (attempt_id_for k 1) (event_thread s th)" k] inv cur
      started_turn_wf
    by (simp add: TurnStarted_fields)
qed

section \<open>Every event keeps the invariant it relies on\<close>

lemmas frame_defs = branch_defs helper_defs

lemma next_version_fields [simp]:
  "turns (next_version s) = turns s" "turnCount (next_version s) = turnCount s"
  "currentTurnId (next_version s) = currentTurnId s"
  "currentTurnPhase (next_version s) = currentTurnPhase s"
  "settledTurnIds (next_version s) = settledTurnIds s"
  by (simp_all add: next_version_def)

lemma turns_inv_rolled_back:
  assumes "turns_inv s" "currentTurnId s = None"
  shows "turns_inv (evolve_TurnsRolledBack s e)"
  using assms turns_wf_rollback [of "turns s" "turnCount s"]
  by (simp add: evolve_TurnsRolledBack_def)

lemma turns_inv_evolve:
  assumes inv: "turns_inv s" and ok: "event_ok s e"
  shows "turns_inv (evolve dec s e)"
proof (cases e)
  case (TurnStarted k tm n a th)
  then show ?thesis using ok turns_inv_TurnStarted [OF inv] by auto
next
  case (AttemptStarted x)
  then show ?thesis using ok turns_inv_AttemptStarted [OF inv] by simp
next
  case (SessionStatusSet x tm)
  then show ?thesis using turns_inv_StatusSet [OF inv] by simp
next
  case (TurnsRolledBack x)
  then show ?thesis using ok turns_inv_rolled_back [OF inv] by simp
next
  case (TurnFinalizationRequested k a outcome tm)
  then show ?thesis using ok turns_inv_Finalization [OF inv] by simp
next
  case (TurnSettled k outcome tm)
  then show ?thesis using ok turns_inv_TurnSettled [OF inv] by simp
qed (use inv turns_inv_phase [OF inv] in
      \<open>simp_all add: evolve_SessionCreated_def evolve_SessionProviderSet_def
         evolve_SessionWorktreeSet_def evolve_ProviderThreadUpdated_def
         evolve_AttemptProviderTurnBound_def evolve_QueuedTurnEnqueued_def
         evolve_QueuedTurnUpdated_def evolve_QueuedTurnRemoved_def evolve_message_def
         evolve_SegmentOpened_def evolve_PermissionResolved_def evolve_QuestionResolved_def
         evolve_ProviderAttached_def evolve_ProviderStopRequested_def evolve_ProviderDetached_def
         with_provider_thread_def bind_legacy_resume_def retire_active_provider_thread_def
         Let_def split: option.split\<close>)

section \<open>Provider threads\<close>

lemma set_update_subset: "set (AList.update k v m) \<subseteq> insert (k, v) (set m)"
  by (induction m) auto

lemma ball_update:
  assumes "\<forall>(a, x) \<in> set m. P a x" "P k v"
  shows "\<forall>(a, x) \<in> set (AList.update k v m). P a x"
  using assms set_update_subset [of k v m] by blast

lemma threads_wf_thread:
  assumes "threads_wf sid ths act ts" "pt_id th = k" "scope_provider_thread_id (or_else sid '''') k = k"
    "\<forall>a. act' = Some a \<longrightarrow> act = Some a \<or> a = k"
  shows "threads_wf sid (AList.update k th ths) act' ts"
  using assms set_update_subset [of k th ths] unfolding threads_wf_def by auto

lemma threads_wf_turn:
  assumes "threads_wf sid ths act ts" "\<forall>k. tn_providerThreadId t = Some k \<longrightarrow> map_has ths k"
  shows "threads_wf sid ths act (AList.update u t ts)"
  using assms ball_update [of ts "\<lambda>_ x. \<forall>k. tn_providerThreadId x = Some k \<longrightarrow> map_has ths k" u t]
  by (simp add: threads_wf_def)

lemma threads_wf_inactive: "threads_wf sid ths act ts \<Longrightarrow> threads_wf sid ths None ts"
  by (simp add: threads_wf_def)

lemma threads_wf_key:
  assumes "threads_wf sid ths act ts" "map_of ths k = Some th"
  shows "pt_id th = k" "scope_provider_thread_id (or_else sid '''') k = k"
  using assms map_of_SomeD [OF assms(2)] unfolding threads_wf_def by auto

lemma threads_wf_turn_key:
  assumes "threads_wf sid ths act ts" "map_of ts u = Some t" "tn_providerThreadId t = Some k"
  shows "map_has ths k"
  using assms map_of_SomeD [OF assms(2)] unfolding threads_wf_def by blast

lemma threads_inv_with_thread:
  assumes "threads_inv s" "scope_provider_thread_id (or_else (sessionId s) '''') (pt_id th) = pt_id th"
  shows "threads_inv (with_provider_thread s th b)"
  using threads_wf_thread [OF assms(1) refl assms(2)] by (simp add: with_provider_thread_def)

lemma threads_inv_with_turn:
  assumes "threads_inv s" "\<forall>k. tn_providerThreadId t = Some k \<longrightarrow> map_has (providerThreads s) k"
  shows "threads_inv (with_turn s t)"
  using threads_wf_turn [OF assms] by (simp add: with_turn_def)

lemma threads_inv_resume: "threads_inv s \<Longrightarrow> threads_inv (bind_legacy_resume s n h tm)"
  unfolding bind_legacy_resume_def Let_def
  by (rule threads_inv_with_thread) (simp_all add: provider_thread_id_for_def)

lemma threads_inv_retire:
  assumes inv: "threads_inv s"
  shows "threads_inv (retire_active_provider_thread s tm)"
proof (cases "Option.bind (activeProviderThreadId s) (map_of (providerThreads s))")
  case None
  then show ?thesis
    using threads_wf_inactive [OF inv]
    by (auto simp: retire_active_provider_thread_def split: option.splits)
next
  case (Some th)
  then obtain k where k: "activeProviderThreadId s = Some k" "map_of (providerThreads s) k = Some th"
    by (auto simp: bind_eq_Some_conv)
  note key = threads_wf_key [OF inv k(2)]
  show ?thesis
    using threads_wf_thread [OF threads_wf_inactive [OF inv], of
        "th\<lparr>pt_status := ThreadClosed, pt_updatedAt := tm\<rparr>" k None] k key
    by (simp add: retire_active_provider_thread_def)
qed

lemma threads_inv_TurnStarted:
  assumes inv: "threads_inv s" and th: "\<forall>k. th = Some (Some k) \<longrightarrow> map_has (providerThreads s) k"
    and set: "th \<noteq> None"
  shows "threads_inv (evolve_TurnStarted s u tm (Some n) (Some a) th)"
proof -
  have ev: "\<forall>k. event_thread s th = Some k \<longrightarrow> map_has (providerThreads s) k"
    using th set threads_wf_key(2) [OF inv]
    by (auto simp: event_thread_def split: option.splits)

  let ?t = "started_turn u n tm a (event_thread s th)"
  have started: "threads_inv (with_turn s ?t)"
    using ev by (intro threads_inv_with_turn [OF inv]) simp
  show ?thesis
  proof (cases "Option.bind (event_thread s th) (map_of (providerThreads s))")
    case None
    then show ?thesis
      using started by (simp add: evolve_TurnStarted_def)
  next
    case (Some thread)
    then obtain k where k: "map_of (providerThreads s) k = Some thread"
      by (auto simp: bind_eq_Some_conv)
    note key = threads_wf_key [OF inv k]
    let ?thread = "thread\<lparr>pt_status := ThreadActive,
      pt_firstTurnOrdinal := Some (or_else (pt_firstTurnOrdinal thread) n),
      pt_lastTurnOrdinal := Some n, pt_updatedAt := tm\<rparr>"
    have "threads_inv (with_provider_thread (with_turn s ?t) ?thread False)"
      by (rule threads_inv_with_thread [OF started]) (simp add: key with_turn_def)
    then show ?thesis
      using Some by (simp add: evolve_TurnStarted_def)
  qed
qed

lemma threads_inv_turn_update:
  assumes inv: "threads_inv s" and t: "map_of (turns s) k = Some t"
    and t': "tn_providerThreadId t' = tn_providerThreadId t"
  shows "threads_wf (sessionId s) (providerThreads s) (activeProviderThreadId s)
           (AList.update u t' (turns s))"
  using threads_wf_turn [OF inv] threads_wf_turn_key [OF inv t] t' by simp

lemma threads_inv_StatusSet: "threads_inv s \<Longrightarrow> threads_inv (evolve_SessionStatusSet s x)"
  by (auto simp: evolve_SessionStatusSet_def with_turn_def current_turn_def
      intro: threads_inv_turn_update split: option.splits)

lemma threads_inv_phase: "threads_inv s \<Longrightarrow> threads_inv (with_turn_phase s k p)"
  by (auto simp: with_turn_phase_def intro: threads_inv_turn_update split: option.splits)

lemma threads_inv_Finalization:
  "threads_inv s \<Longrightarrow> threads_inv (evolve_TurnFinalizationRequested s k)"
  by (auto simp: evolve_TurnFinalizationRequested_def with_turn_def next_version_def
      intro: threads_inv_turn_update split: option.splits)

lemma threads_inv_AttemptStarted: "threads_inv s \<Longrightarrow> threads_inv (evolve_AttemptStarted s e)"
  by (auto simp: evolve_AttemptStarted_def with_turn_def next_version_def start_attempt_def
      intro: threads_inv_turn_update split: option.splits)

lemma threads_inv_TurnSettled:
  assumes inv: "threads_inv s"
  shows "threads_inv (evolve_TurnSettled s k outcome tm)"
proof -
  let ?th = "case Option.bind (activeProviderThreadId s) (map_of (providerThreads s)) of
      None \<Rightarrow> s
    | Some thread \<Rightarrow>
        if pt_status thread \<noteq> ThreadActive then s
        else with_provider_thread s (thread\<lparr>pt_status := ThreadIdle, pt_updatedAt := tm\<rparr>) False"
  have th: "threads_inv ?th"
    using inv threads_wf_key [OF inv]
    by (auto simp: bind_eq_Some_conv intro!: threads_inv_with_thread split: option.split)
  have turns: "turns ?th = turns s"
    by (simp add: with_provider_thread_def split: option.split)
  show ?thesis
  proof (cases "map_of (turns s) k")
    case None
    then show ?thesis using th turns by (simp add: evolve_TurnSettled_def Let_def)
  next
    case (Some t)
    have "threads_wf (sessionId ?th) (providerThreads ?th) (activeProviderThreadId ?th)
        (AList.update (tn_id t) (settle_turn_state t outcome tm) (turns ?th))"
      by (rule threads_inv_turn_update [OF th, of k t]) (simp_all only: turns Some, simp add: settle_turn_state_def)
    then show ?thesis
      using Some turns by (simp add: evolve_TurnSettled_def Let_def)
  qed
qed

lemma threads_inv_rolled_back:
  assumes inv: "threads_inv s"
  shows "threads_inv (evolve_TurnsRolledBack s e)"
proof -
  have [simp]: "tn_providerThreadId (if P then x\<lparr>tn_status := y\<rparr> else x) = tn_providerThreadId x"
    for P and x :: turn_state and y
    by simp
  show ?thesis
    using inv unfolding evolve_TurnsRolledBack_def threads_wf_def
    by (auto simp: set_map_values)
qed

lemma threads_inv_evolve:
  assumes inv: "threads_inv s" and ok: "event_ok s e"
    and new: "\<not> exists s \<Longrightarrow> s = initial_session_state"
  shows "threads_inv (evolve dec s e)"
proof (cases e)
  case (SessionCreated x)
  have created: "threads_inv (s\<lparr>sessionId := sid\<rparr>)" for sid
    using ok new SessionCreated by (simp add: initial_session_state_def threads_wf_def)
  show ?thesis
    using created [of "Some (sc_sessionId x)"] unfolding SessionCreated
    by (auto simp: evolve_SessionCreated_def Let_def intro!: threads_inv_resume split: option.split)
next
  case (SessionStatusSet x tm)
  then show ?thesis using threads_inv_StatusSet [OF inv] by simp
next
  case (AttemptStarted x)
  then show ?thesis using threads_inv_AttemptStarted [OF inv] by simp
next
  case (TurnsRolledBack x)
  then show ?thesis using threads_inv_rolled_back [OF inv] by simp
next
  case (TurnStarted k tm n a th)
  then show ?thesis using ok threads_inv_TurnStarted [OF inv] by auto
next
  case (TurnFinalizationRequested k a outcome tm)
  then show ?thesis using threads_inv_Finalization [OF inv] by simp
next
  case (TurnSettled k outcome tm)
  then show ?thesis using threads_inv_TurnSettled [OF inv] by simp
next
  case (ProviderThreadUpdated th)
  then show ?thesis
    using threads_inv_with_thread [OF inv]
    by (simp add: evolve_ProviderThreadUpdated_def Let_def next_version_def)
next
  case (ActiveProviderThreadSet k tm)
  then show ?thesis using inv ok by (auto simp: threads_wf_def next_version_def)
qed (use inv threads_inv_phase [OF inv] threads_inv_resume [OF inv] threads_inv_retire [OF inv] in
      \<open>simp_all add: evolve_SessionProviderSet_def evolve_SessionWorktreeSet_def
         evolve_AttemptProviderTurnBound_def evolve_QueuedTurnEnqueued_def
         evolve_QueuedTurnUpdated_def evolve_QueuedTurnRemoved_def evolve_message_def
         evolve_SegmentOpened_def evolve_PermissionResolved_def evolve_QuestionResolved_def
         evolve_ProviderAttached_def evolve_ProviderStopRequested_def evolve_ProviderDetached_def
         next_version_def Let_def split: option.split\<close>)

section \<open>Queue, segments, messages, references\<close>

lemma queue_evolve:
  assumes "queue_wf (queuedTurns s) (queueOrder s)" "event_ok s e"
  shows "queue_wf (queuedTurns (evolve dec s e)) (queueOrder (evolve dec s e))"
proof (cases e)
  case (QueuedTurnEnqueued q)
  then show ?thesis
    using assms ball_update [of "queuedTurns s" "\<lambda>k v. qt_queueId v = k" "qt_queueId q" q]
    by (auto simp: evolve_QueuedTurnEnqueued_def next_version_def queue_wf_def keys_update map_has_iff)
next
  case (QueuedTurnUpdated queue_id input tm ready)
  show ?thesis
  proof (cases "map_of (queuedTurns s) queue_id")
    case None
    then show ?thesis
      using assms QueuedTurnUpdated by (simp add: evolve_QueuedTurnUpdated_def next_version_def)
  next
    case (Some q)
    have "queue_id \<in> set (keys (queuedTurns s))" "qt_queueId q = queue_id"
      using Some assms(1) map_of_SomeD [OF Some] by (auto simp: queue_wf_def rev_image_eqI)
    then show ?thesis
      using assms Some QueuedTurnUpdated
        ball_update [of "queuedTurns s" "\<lambda>k v. qt_queueId v = k" queue_id
          "q\<lparr>qt_inputJson := input, qt_ready := ready\<rparr>"]
      by (simp add: evolve_QueuedTurnUpdated_def next_version_def queue_wf_def keys_update)
  qed
next
  case (QueuedTurnRemoved queue_id tm)
  then show ?thesis
    using assms
    by (auto simp: evolve_QueuedTurnRemoved_def next_version_def queue_wf_def keys_delete in_delete_iff)
next
  case (QueuedTurnClaimed queue_id tm)
  then show ?thesis
    using assms
    by (auto simp: evolve_QueuedTurnRemoved_def next_version_def queue_wf_def keys_delete in_delete_iff)
next
  case (QueuedTurnsReordered ids tm)
  then show ?thesis using assms by (simp add: next_version_def queue_wf_def)
qed (use assms in \<open>simp_all add: frame_defs Let_def split: option.split\<close>)

lemma segments_evolve:
  assumes "segments_wf (openSegments s) (currentTurnId s)" "event_ok s e"
  shows "segments_wf (openSegments (evolve dec s e)) (currentTurnId (evolve dec s e))"
proof (cases e)
  case (TurnStarted k tm n a th)
  then have "openSegments s = []"
    using assms by (cases "openSegments s") (auto simp: segments_wf_def)
  then show ?thesis
    using TurnStarted by (simp add: segments_wf_def evolve_TurnStarted_def Let_def with_turn_def
        with_provider_thread_def split: option.split)
next
  case (TurnSettled k outcome tm)
  then have "openSegments s = []"
    using assms by (cases "openSegments s") (auto simp: segments_wf_def)
  then show ?thesis
    using TurnSettled by (simp add: segments_wf_def evolve_TurnSettled_def Let_def
        with_provider_thread_def split: option.split)
next
  case (SegmentOpened k sg kind tm)
  then show ?thesis
    using assms ball_update [of "openSegments s" "\<lambda>_ x. currentTurnId s = Some (seg_turnId x)" sg
        "\<lparr>seg_turnId = k, seg_kind = kind\<rparr>"]
    by (simp add: segments_wf_def evolve_SegmentOpened_def next_version_def)
next
  case (SegmentSettled k sg outcome tm)
  then show ?thesis using assms by (auto simp: segments_wf_def next_version_def in_delete_iff)
qed (use assms in \<open>auto simp: frame_defs Let_def split: option.split\<close>)

lemma in_fold_delete: "(k, v) \<in> set (fold AList.delete ids m) \<longleftrightarrow> k \<notin> set ids \<and> (k, v) \<in> set m"
  by (induction ids arbitrary: m) (auto simp: in_delete_iff)

lemma keys_fold_delete: "keys (fold AList.delete ids m) = filter (\<lambda>k. k \<notin> set ids) (keys m)"
  by (induction ids arbitrary: m) (auto simp: keys_delete intro: filter_cong)

lemma messages_evolve:
  assumes "messages_wf (messageIds s) (messageCheckpoints s)" "event_ok s e"
  shows "messages_wf (messageIds (evolve dec s e)) (messageCheckpoints (evolve dec s e))"
proof (cases e)
  case (MessagePersisted m)
  show ?thesis
  proof (cases "mf_checkpointRevision m")
    case None
    then show ?thesis
      using assms MessagePersisted by (auto simp: messages_wf_def evolve_message_def Let_def)
  next
    case (Some r)
    then show ?thesis
      using assms MessagePersisted
        ball_update [of "messageCheckpoints s" "\<lambda>_ c. checkpoint_revision_ok (mc_revision c)"
          "mf_messageId m" "\<lparr>mc_revision = r, mc_final = (mf_checkpointFinal m = Some True)\<rparr>"]
      by (auto simp: messages_wf_def evolve_message_def Let_def keys_update)
  qed
next
  case (TurnsRolledBack x)
  then show ?thesis
    using assms
    by (auto simp: messages_wf_def evolve_TurnsRolledBack_def keys_fold_delete in_fold_delete)
qed (use assms in \<open>simp_all add: frame_defs Let_def split: option.split\<close>)

lemma references_evolve:
  assumes "references_wf (attemptProviderTurns s)" "event_ok s e"
  shows "references_wf (attemptProviderTurns (evolve dec s e))"
proof (cases e)
  case (AttemptProviderTurnBound k a reference tm)
  show ?thesis
  proof (cases "map_has (attemptProviderTurns s) a")
    case True
    then show ?thesis
      using assms AttemptProviderTurnBound by (simp add: evolve_AttemptProviderTurnBound_def next_version_def)
  next
    case False
    then have "AList.update a reference (attemptProviderTurns s) = attemptProviderTurns s @ [(a, reference)]"
      "a \<notin> set (keys (attemptProviderTurns s))"
      using update_fresh [of a "attemptProviderTurns s" reference] by (auto simp only: map_has_iff)
    then show ?thesis
      using assms False AttemptProviderTurnBound
      by (auto simp: evolve_AttemptProviderTurnBound_def next_version_def references_wf_def Let_def)
  qed
qed (use assms in \<open>simp_all add: frame_defs Let_def split: option.split\<close>)

section \<open>The remaining fields\<close>

definition misc_wf :: "session_state \<Rightarrow> bool" where
  "misc_wf s \<longleftrightarrow>
     expiredQuestionIds s \<inter> resolvedQuestionIds s = {} \<and>
     (archived s \<or> deleted s \<longrightarrow> providerReservation s = None) \<and>
     (\<forall>t. lastSettledTurnId s = Some t \<longrightarrow> t \<in> settledTurnIds s) \<and>
     (lastSettledTurnId s = None \<longleftrightarrow> lastSettlementOutcome s = None) \<and>
     (exists s \<longrightarrow> sessionId s \<noteq> None)"

lemma misc_evolve_message:
  "misc_wf s \<Longrightarrow> misc_wf (evolve_message dec s m v owned)"
  by (auto simp: misc_wf_def evolve_message_def Let_def)

lemma misc_evolve:
  assumes "misc_wf s" "event_ok s e"
  shows "misc_wf (evolve dec s e)"
proof (cases e)
  case (MessagePersisted m)
  then show ?thesis using assms misc_evolve_message by simp
next
  case (SessionCreated x)
  then show ?thesis
    using assms by (simp add: misc_wf_def evolve_SessionCreated_def bind_legacy_resume_def
        with_provider_thread_def Let_def split: option.split)
next
  case (SessionProviderSet p m tm)
  then show ?thesis
    using assms by (simp add: misc_wf_def evolve_SessionProviderSet_def
        retire_active_provider_thread_def split: option.split)
next
  case (SessionWorktreeSet w tm)
  then show ?thesis
    using assms by (simp add: misc_wf_def evolve_SessionWorktreeSet_def
        retire_active_provider_thread_def split: option.split)
next
  case (SessionStatusSet x tm)
  then show ?thesis
    using assms by (simp add: misc_wf_def evolve_SessionStatusSet_def with_turn_def split: option.split)
next
  case (TurnStarted k tm n a th)
  then show ?thesis
    using assms by (simp add: misc_wf_def evolve_TurnStarted_def Let_def with_turn_def
        with_provider_thread_def split: option.split)
next
  case (TurnSettled k outcome tm)
  then show ?thesis
    using assms by (simp add: misc_wf_def evolve_TurnSettled_def Let_def
        with_provider_thread_def split: option.split)
qed (use assms in
      \<open>auto simp: misc_wf_def frame_defs Let_def split: option.split\<close>)

lemma exists_evolve:
  assumes "event_ok s e"
  shows "exists (evolve dec s e)"
  using assms
  by (cases e) (simp_all add: frame_defs Let_def split: option.split)

lemma event_inv_alt:
  "event_inv s \<longleftrightarrow>
     turns_inv s \<and> threads_inv s \<and> queue_wf (queuedTurns s) (queueOrder s) \<and>
     segments_wf (openSegments s) (currentTurnId s) \<and>
     messages_wf (messageIds s) (messageCheckpoints s) \<and>
     references_wf (attemptProviderTurns s) \<and> misc_wf s \<and>
     (\<not> exists s \<longrightarrow> s = initial_session_state)"
  by (simp only: event_inv_def misc_wf_def conj_assoc)

lemma event_inv_evolve:
  assumes inv: "event_inv s" and ok: "event_ok s e"
  shows "event_inv (evolve dec s e)"
proof -
  note i = inv [unfolded event_inv_alt]
  have "threads_inv (evolve dec s e)" using i ok by (intro threads_inv_evolve) blast+
  with i ok show ?thesis
    unfolding event_inv_alt
    by (simp only: turns_inv_evolve queue_evolve segments_evolve messages_evolve references_evolve
        misc_evolve exists_evolve simp_thms)
qed

lemma event_inv_foldl:
  "\<lbrakk>event_inv s; events_ok dec s es\<rbrakk> \<Longrightarrow> event_inv (foldl (evolve dec) s es)"
  by (induction es arbitrary: s) (simp_all add: event_inv_evolve)

end
