(* ===== verification/Session_Safety.thy ===== *)
theory Session_Safety
  imports Session_Invariants
begin

text \<open>
  Every accepted command keeps the invariant of a session: the events of a decision meet what
  each of them relies on, in the state the events before it lead to. The invariant therefore
  holds in every reachable state, and the aggregate contract is interpreted on the session.
\<close>

section \<open>Lists of events\<close>

lemma events_ok_append:
  "events_ok dec s (xs @ ys) \<longleftrightarrow> events_ok dec s xs \<and> events_ok dec (foldl (evolve dec) s xs) ys"
  by (induction xs arbitrary: s) simp_all

lemma with_session_Inr:
  "with_session s f = Inr es \<longleftrightarrow>
     (\<exists>sid. sessionId s = Some sid \<and> exists s \<and> \<not> deleted s \<and> f sid = Inr es)"
  by (auto simp: with_session_def split: option.splits)

text \<open>The fields the conditions of the events read, apart from the question sets.\<close>

definition core_fields where
  "core_fields s =
     (exists s, sessionId s, turns s, turnCount s, currentTurnId s, currentTurnPhase s,
      providerThreads s, activeProviderThreadId s, queuedTurns s, openSegments s,
      scheduledSuccessor s, attemptProviderTurns s, archived s, deleted s)"

fun quiet_event :: "session_event \<Rightarrow> bool" where
  "quiet_event (ProviderStopRequested p psid tm) = True"
| "quiet_event (MessagePersisted m) = (mf_checkpointRevision m = None)"
| "quiet_event (ProviderTurnRequested t a i st tm) = True"
| "quiet_event (SessionQueuePausedSet p tm) = True"
| "quiet_event (SessionModelSet m tm) = True"
| "quiet_event (ProviderDetached p psid tm) = True"
| "quiet_event (ProviderRecoveryRequested t a src r tm) = True"
| "quiet_event _ = False"

lemma quiet_core: "quiet_event e \<Longrightarrow> core_fields (evolve dec s e) = core_fields s"
  by (cases e)
    (simp_all add: core_fields_def evolve_message_def evolve_ProviderStopRequested_def
      evolve_ProviderDetached_def next_version_def Let_def)

lemma quiet_ok: "\<lbrakk>quiet_event e; exists s\<rbrakk> \<Longrightarrow> event_ok s e"
  by (cases e) simp_all

lemma core_exists: "core_fields s' = core_fields s \<Longrightarrow> exists s' = exists s"
  by (simp add: core_fields_def)

lemma quiet_events:
  "\<lbrakk>list_all quiet_event es; exists s\<rbrakk> \<Longrightarrow>
   events_ok dec s es \<and> core_fields (foldl (evolve dec) s es) = core_fields s"
proof (induction es arbitrary: s)
  case Nil
  then show ?case by simp
next
  case (Cons e es)
  then have q: "quiet_event e" "core_fields (evolve dec s e) = core_fields s" "exists (evolve dec s e)"
    using quiet_core [of e dec s] core_exists [of "evolve dec s e" s] by simp_all
  with Cons show ?case by (simp add: quiet_ok)
qed

lemma quiet_stops: "list_all quiet_event (provider_stops s tm)"
  by (auto simp: provider_stops_def list_all_iff)

text \<open>Events that rely on nothing but the session.\<close>

definition easy_event :: "session_event \<Rightarrow> bool" where
  "easy_event e \<longleftrightarrow> (\<forall>s. exists s \<longrightarrow> event_ok s e)"

lemma easy_events: "\<lbrakk>list_all easy_event es; exists s\<rbrakk> \<Longrightarrow> events_ok dec s es"
  by (induction es arbitrary: s) (auto simp: easy_event_def intro: exists_evolve)

lemma events_ok_exists:
  "\<lbrakk>events_ok dec s es; es \<noteq> [] \<or> exists s\<rbrakk> \<Longrightarrow> exists (foldl (evolve dec) s es)"
proof (induction es arbitrary: s)
  case (Cons e es)
  then have "exists (evolve dec s e)" by (intro exists_evolve) simp
  with Cons show ?case by simp
qed simp

lemma events_ok_easy_tail:
  assumes "events_ok dec s xs" "xs \<noteq> [] \<or> exists s" "list_all easy_event ys"
  shows "events_ok dec s (xs @ ys)"
  using assms easy_events events_ok_exists by (simp add: events_ok_append)

section \<open>Creation\<close>

lemma seed_events_ok:
  assumes "exists s" "sessionId s = Some sid" "es = provider_thread_seed_events sid seed tm"
  shows "events_ok dec s es"
    and "exists (foldl (evolve dec) s es)"
    and "sessionId (foldl (evolve dec) s es) = Some sid"
    and "currentTurnId (foldl (evolve dec) s es) = currentTurnId s"
    and "turnCount (foldl (evolve dec) s es) = turnCount s"
    and "seeded_provider_thread_id sid seed = Some k \<Longrightarrow>
           map_has (providerThreads (foldl (evolve dec) s es)) k"
  using assms
  by (auto simp: provider_thread_seed_events_def seeded_provider_thread_id_def
      evolve_ProviderThreadUpdated_def with_provider_thread_def next_version_def Let_def
      provider_thread_id_for_def split: option.splits)

lemma created_fields:
  assumes "currentTurnId s = None"
  shows "exists (evolve dec s (SessionCreated x))"
    and "sessionId (evolve dec s (SessionCreated x)) = Some (sc_sessionId x)"
    and "currentTurnId (evolve dec s (SessionCreated x)) = None"
    and "turnCount (evolve dec s (SessionCreated x)) = turnCount s"
  using assms
  by (simp_all add: evolve_SessionCreated_def bind_legacy_resume_def with_provider_thread_def Let_def
      split: option.split)

lemma initial_fields [simp]:
  "currentTurnId initial_session_state = None" "turnCount initial_session_state = 0"
  "exists initial_session_state = False" "scheduledSuccessor initial_session_state = None"
  by (simp_all add: initial_session_state_def)

lemma event_inv_fresh: "event_inv s \<Longrightarrow> \<not> exists s \<Longrightarrow> s = initial_session_state"
  by (simp add: event_inv_alt)

lemma create_ok:
  assumes "event_inv s" "decide_CreateSession s c = Inr es"
  shows "events_ok dec s es"
proof -
  from assms have "\<not> exists s" by (simp add: decide_CreateSession_def split: if_splits)
  with assms have s: "s = initial_session_state" by (intro event_inv_fresh)
  let ?e = "SessionCreated ((created_event c)
    \<lparr>sc_titleProvenance := Some (title_provenance_or_manual (cs_titleProvenance c))\<rparr>)"
  have "events_ok dec (evolve dec s ?e)
      (provider_thread_seed_events (cs_sessionId c) (cs_providerThread c) (cs_createdAt c))"
    by (rule seed_events_ok) (simp_all only: created_fields s initial_fields, simp add: created_event_def)
  with assms show ?thesis
    by (auto simp: decide_CreateSession_def s simp del: evolve.simps)
qed

lemma create_with_turn_ok:
  assumes "event_inv s" "decide_CreateSessionWithInitialTurn s c t = Inr es"
  shows "events_ok dec s es"
proof -
  from assms have ne: "\<not> exists s" by (simp add: decide_CreateSessionWithInitialTurn_def split: if_splits)
  with assms have s: "s = initial_session_state" by (intro event_inv_fresh)
  let ?s1 = "evolve dec s (SessionCreated (created_event c))"
  let ?seed = "provider_thread_seed_events (cs_sessionId c) (cs_providerThread c) (cs_createdAt c)"
  let ?s2 = "foldl (evolve dec) ?s1 ?seed"
  let ?m = "MessagePersisted
    (user_message (it_messageId t) (it_turnId t) (it_messageContentJson t) (cs_createdAt c))"
  let ?s3 = "evolve dec ?s2 ?m"
  let ?th = "seeded_provider_thread_id (cs_sessionId c) (cs_providerThread c)"
  have s1: "exists ?s1" "sessionId ?s1 = Some (cs_sessionId c)" "currentTurnId ?s1 = None"
    "turnCount ?s1 = 0"
    by (simp_all only: created_fields s initial_fields) (simp add: created_event_def)
  note s2 = seed_events_ok [OF s1(1,2) refl]
  have q: "quiet_event ?m" by (simp add: user_message_def)
  have s3: "core_fields ?s3 = core_fields ?s2" by (rule quiet_core [OF q])
  have "event_ok ?s3 (TurnStarted (it_turnId t) (cs_createdAt c) (Some 1)
      (Some (attempt_id_for (it_turnId t) 1)) (Some ?th))"
    using s3 s2 s1 by (simp add: core_fields_def del: evolve.simps)
  moreover have "event_ok ?s2 ?m" by (rule quiet_ok [OF q s2(2)])
  moreover have "event_ok s (SessionCreated (created_event c))" using ne by simp
  ultimately have pre: "events_ok dec s ([SessionCreated (created_event c)] @ ?seed @
      [?m, TurnStarted (it_turnId t) (cs_createdAt c) (Some 1)
         (Some (attempt_id_for (it_turnId t) 1)) (Some ?th)])"
    using s2(1) by (simp add: events_ok_append del: event_ok.simps evolve.simps)
  moreover have "list_all easy_event (SessionStatusSet StatusBooting (cs_createdAt c) #
      (if cs_queuePaused c then []
       else [ProviderTurnRequested (it_turnId t) (Some (attempt_id_for (it_turnId t) 1))
               (it_providerInputJson t) (cs_providerStartJson c) (cs_createdAt c)]))"
    by (simp add: easy_event_def)
  ultimately have "events_ok dec s (([SessionCreated (created_event c)] @ ?seed @
      [?m, TurnStarted (it_turnId t) (cs_createdAt c) (Some 1)
         (Some (attempt_id_for (it_turnId t) 1)) (Some ?th)]) @
      (SessionStatusSet StatusBooting (cs_createdAt c) #
      (if cs_queuePaused c then []
       else [ProviderTurnRequested (it_turnId t) (Some (attempt_id_for (it_turnId t) 1))
               (it_providerInputJson t) (cs_providerStartJson c) (cs_createdAt c)])))"
    by (intro events_ok_easy_tail [OF pre]) simp_all
  with assms(2) ne show ?thesis by (auto simp: decide_CreateSessionWithInitialTurn_def simp del: events_ok.simps)
qed

section \<open>Commands on an existing session\<close>

text \<open>
  Commands whose events rely on nothing but the session, or on a condition the decider has
  just tested on the same state.
\<close>

lemma one_event_ok: "event_ok s e \<Longrightarrow> events_ok dec s [e]"
  by simp

lemma stops_then:
  assumes "exists s" "list_all quiet_event xs" "\<And>s'. core_fields s' = core_fields s \<Longrightarrow> events_ok dec s' ys"
  shows "events_ok dec s (xs @ ys)"
  using assms quiet_events [OF assms(2,1)] by (simp add: events_ok_append)

lemma settle_events_ok:
  assumes "exists s" "currentTurnId s = Some k"
    and "\<forall>(g, sg) \<in> set (openSegments s). seg_turnId sg = k \<longrightarrow> (g, sg) \<in> set segs"
  shows "events_ok dec s
           (map (\<lambda>(g, sg). SegmentSettled k g outcome tm) segs @ [TurnSettled k outcome tm])"
  using assms
proof (induction segs arbitrary: s)
  case Nil
  then show ?case by auto
next
  case (Cons x segs)
  obtain g sg where x: "x = (g, sg)" by (cases x)
  have "events_ok dec (evolve dec s (SegmentSettled k g outcome tm))
      (map (\<lambda>(g, sg). SegmentSettled k g outcome tm) segs @ [TurnSettled k outcome tm])"
    by (rule Cons.IH) (use Cons.prems in \<open>auto simp: x next_version_def in_delete_iff\<close>)
  with Cons.prems show ?case by (simp add: x)
qed

lemma settle_ok:
  assumes "exists s" "core_fields s' = core_fields s" "decide_SettleTurn s k outcome tm = Inr es"
  shows "events_ok dec s' es"
proof (cases "currentTurnId s = Some k")
  case False
  with assms(3) show ?thesis by (simp add: decide_SettleTurn_def split: if_splits)
next
  case True
  let ?segs = "filter (\<lambda>(g, sg). seg_turnId sg = k) (openSegments s)"
  have s': "exists s'" "currentTurnId s' = Some k" "openSegments s' = openSegments s"
    using assms(1,2) True by (simp_all add: core_fields_def)
  have "events_ok dec s'
      (map (\<lambda>(g, sg). SegmentSettled k g outcome tm) ?segs @ [TurnSettled k outcome tm])"
    by (rule settle_events_ok [OF s'(1,2)]) (auto simp: s'(3))
  from events_ok_easy_tail [OF this] s'(1) have
    "list_all easy_event ys \<Longrightarrow> events_ok dec s'
      ((map (\<lambda>(g, sg). SegmentSettled k g outcome tm) ?segs @ [TurnSettled k outcome tm]) @ ys)" for ys
    by blast
  then show ?thesis
    using assms(3) True
    by (auto simp: decide_SettleTurn_def Let_def easy_event_def split: option.splits
        simp del: events_ok.simps)
qed

lemma thread_then_active_ok:
  "exists s \<Longrightarrow> events_ok dec s [ProviderThreadUpdated th, ActiveProviderThreadSet (Some (pt_id th)) tm]"
  by (simp add: evolve_ProviderThreadUpdated_def with_provider_thread_def next_version_def Let_def)

lemma marker_quiet: "list_all quiet_event (model_switch_marker sid s p m tm)"
  by (simp add: model_switch_marker_def model_switch_message_def split: option.split)

lemma switch_ok:
  assumes "exists s" "decide_switch sid s p resume expected m tm = Inr es"
  shows "events_ok dec s es"
proof -
  define quiet where "quiet = provider_stops s tm @ model_switch_marker sid s
    (if p \<noteq> None then p else providerId s) m tm"
  define resumed where "resumed = (if p \<noteq> None then Option.bind resume (map_of (providerThreads s)) else None)"
  define change where "change = (case p of None \<Rightarrow> SessionModelSet m tm | Some p' \<Rightarrow> SessionProviderSet p' m tm)"
  define threads where "threads = (case resumed of
              None \<Rightarrow> []
            | Some thread \<Rightarrow>
                [ProviderThreadUpdated (thread\<lparr>pt_status := ThreadIdle, pt_updatedAt := tm\<rparr>),
                 ActiveProviderThreadSet (Some (pt_id thread)) tm])"
  have "events_ok dec s' (([change] @ threads) @ [SessionStatusSet StatusIdle tm])" if "exists s'" for s'
  proof (rule events_ok_easy_tail)
    have c: "event_ok s' change" using that by (simp add: change_def split: option.split)
    then have "exists (evolve dec s' change)" by (rule exists_evolve)
    then have "events_ok dec (evolve dec s' change) threads"
      using thread_then_active_ok [of _ dec "the resumed\<lparr>pt_status := ThreadIdle, pt_updatedAt := tm\<rparr>" tm]
      by (cases resumed) (simp_all add: threads_def del: events_ok.simps(2) evolve.simps event_ok.simps)
    with c show "events_ok dec s' ([change] @ threads)" by simp
  qed (simp_all add: easy_event_def)
  moreover have "list_all quiet_event quiet"
    by (simp only: quiet_def list_all_append quiet_stops marker_quiet simp_thms)
  ultimately have "events_ok dec s (quiet @ ([change] @ threads) @ [SessionStatusSet StatusIdle tm])"
    using stops_then [OF assms(1)] core_exists [of _ s] assms(1) by blast
  then have *: "events_ok dec s (provider_stops s tm @ model_switch_marker sid s
      (if p \<noteq> None then p else providerId s) m tm @ change # threads @ [SessionStatusSet StatusIdle tm])"
    by (simp only: quiet_def append_assoc append_Cons append_Nil)
  have "es = [] \<or> es = provider_stops s tm @ model_switch_marker sid s
      (if p \<noteq> None then p else providerId s) m tm @ change # threads @ [SessionStatusSet StatusIdle tm]"
    using assms(2) unfolding decide_switch_def Let_def resumed_def [symmetric]
    by (simp add: change_def threads_def split: if_splits option.splits)
  with * show ?thesis by auto
qed

lemma bind_thread_ok:
  assumes "exists s" "decide_BindProviderThread sid s n h tm = Inr es"
  shows "events_ok dec s es"
proof -
  obtain th where "es = [] \<or> es = [ProviderThreadUpdated th] \<or>
      es = [ProviderThreadUpdated th, ActiveProviderThreadSet (Some (pt_id th)) tm]"
    using assms(2) by (fastforce simp: decide_BindProviderThread_def Let_def split: if_splits option.splits)
  with assms(1) thread_then_active_ok [OF assms(1), of dec th tm] show ?thesis by auto
qed

lemma bind_attempt_ok:
  assumes "exists s" "decide_BindAttemptProviderTurn s k a r tm = Inr es"
  shows "events_ok dec s es"
proof -
  have "r \<notin> snd ` set (attemptProviderTurns s)"
    if none: "map_of (attemptProviderTurns s) a = None"
      and free: "\<not> list_ex (\<lambda>(other, x). other \<noteq> a \<and> ref_provider x = ref_provider r \<and>
        ref_nativeThreadId x = ref_nativeThreadId r \<and> ref_nativeTurnId x = ref_nativeTurnId r)
        (attemptProviderTurns s)"
  proof
    assume "r \<in> snd ` set (attemptProviderTurns s)"
    then obtain other where in_refs: "(other, r) \<in> set (attemptProviderTurns s)" by auto
    have "a \<notin> fst ` set (attemptProviderTurns s)" using none by (simp add: map_of_eq_None_iff)
    with in_refs have "other \<noteq> a" by force
    with in_refs free show False by (auto simp: list_ex_iff)
  qed
  with assms show ?thesis
    unfolding decide_BindAttemptProviderTurn_def by (auto split: if_splits option.splits)
qed

lemma attempt_started_ok:
  assumes s': "core_fields s' = core_fields s" and ex: "exists s" and cur: "currentTurnId s = Some k"
    and t: "map_of (turns s) k = Some t"
    and e: "as_turnId e = k" "as_turnOrdinal e = tn_ordinal t" "as_ordinal e = int (length (tn_attempts t)) + 1"
      "as_attemptId e = attempt_id_for k (int (length (tn_attempts t)) + 1)"
    and ys: "list_all easy_event ys"
  shows "events_ok dec s' (AttemptStarted e # ys)"
proof -
  have "event_ok s' (AttemptStarted e)"
    using s' ex cur t e by (auto simp: core_fields_def)
  then have "events_ok dec s' [AttemptStarted e]" by (rule one_event_ok)
  from events_ok_easy_tail [OF this _ ys] show ?thesis
    by (simp only: append_Cons append_Nil list.distinct simp_thms)
qed

lemma recover_ok:
  assumes "exists s" "decide_RecoverTurn s k a tm = Inr es"
  shows "events_ok dec s es"
proof -
  from assms(2) obtain t reference prior where t: "map_of (turns s) k = Some t" "currentTurnId s = Some k"
    and es: "es = provider_stops s tm @
      AttemptStarted
        \<lparr>as_turnId = k, as_attemptId = attempt_id_for k (int (length (tn_attempts t)) + 1),
         as_ordinal = int (length (tn_attempts t)) + 1, as_reason = ReasonProviderRecovery,
         as_startedAt = tm, as_turnOrdinal = tn_ordinal t,
         as_providerThreadId = tn_providerThreadId t, as_turnRequestedAt = tn_requestedAt t\<rparr> #
      [SessionStatusSet StatusBooting tm,
       ProviderRecoveryRequested k (attempt_id_for k (int (length (tn_attempts t)) + 1)) prior reference tm]"
    by (auto simp: decide_RecoverTurn_def Let_def split: option.splits if_splits)
  show ?thesis
    unfolding es
    by (rule stops_then [OF assms(1) quiet_stops], rule attempt_started_ok [OF _ assms(1) t(2,1)])
      (simp_all add: easy_event_def)
qed

lemma retry_ok:
  assumes "exists s" "decide_RetryTurn s k reason input start tm = Inr es"
  shows "events_ok dec s es"
proof -
  from assms(2) obtain t where t: "map_of (turns s) k = Some t" "currentTurnId s = Some k"
    and es: "es = AttemptStarted
        \<lparr>as_turnId = k, as_attemptId = attempt_id_for k (int (length (tn_attempts t)) + 1),
         as_ordinal = int (length (tn_attempts t)) + 1, as_reason = reason,
         as_startedAt = tm, as_turnOrdinal = tn_ordinal t,
         as_providerThreadId = tn_providerThreadId t, as_turnRequestedAt = tn_requestedAt t\<rparr> #
      [SessionStatusSet StatusBooting tm,
       ProviderTurnRequested k (Some (attempt_id_for k (int (length (tn_attempts t)) + 1))) input start tm]"
    by (auto simp: decide_RetryTurn_def Let_def split: option.splits if_splits)
  show ?thesis
    unfolding es
    by (rule attempt_started_ok [OF refl assms(1) t(2,1)]) (simp_all add: easy_event_def)
qed

lemma expire_ok:
  assumes "exists s" "decide_ExpireAttempt s k a tm = Inr es"
  shows "events_ok dec s es"
proof (cases "decide_RecoverTurn s k a tm")
  case (Inr r)
  with assms have "es = r" by (simp add: decide_ExpireAttempt_def split: if_splits)
  with recover_ok [OF assms(1) Inr] show ?thesis by simp
next
  case (Inl f)
  with assms(2) obtain explanation settlement outcome where
    es: "es = (provider_stops s tm @ explanation) @ settlement"
    and settlement: "decide_SettleTurn s k outcome tm = Inr settlement"
    and explanation: "explanation = [] \<or> explanation = [MessagePersisted (expired_message k a tm)]"
  proof -
    let ?i = "Option.bind (map_of (turns s) k) tn_phase \<noteq> Some PhaseRunning \<or> archived s"
    from assms(2) Inl obtain x where
      x: "decide_SettleTurn s k (if ?i then OutcomeInterrupted else OutcomeError) tm = Inr x"
      "es = provider_stops s tm @ (if ?i then [] else [MessagePersisted (expired_message k a tm)]) @ x"
      by (simp add: decide_ExpireAttempt_def Let_def split: if_splits sum.splits)
    then show ?thesis
      by (intro that [of "if ?i then [] else [MessagePersisted (expired_message k a tm)]" x]) simp_all
  qed
  have "list_all quiet_event (provider_stops s tm @ explanation)"
    using explanation quiet_stops by (auto simp: expired_message_def)
  then show ?thesis
    unfolding es using stops_then [OF assms(1)] settle_ok [OF assms(1) _ settlement] by blast
qed

lemma turn_start_ok:
  assumes "event_inv s" "exists s" "core_fields s' = core_fields s" "currentTurnId s = None"
    and ys: "list_all easy_event ys"
  shows "events_ok dec s' (TurnStarted k tm (Some (turnCount s + 1)) (Some (attempt_id_for k 1))
           (Some (activeProviderThreadId s)) # ys)"
proof -
  have "event_ok s' (TurnStarted k tm (Some (turnCount s + 1)) (Some (attempt_id_for k 1))
           (Some (activeProviderThreadId s)))"
    using assms(1-4) by (auto simp: core_fields_def event_inv_alt threads_wf_def)
  then have "events_ok dec s' [TurnStarted k tm (Some (turnCount s + 1)) (Some (attempt_id_for k 1))
           (Some (activeProviderThreadId s))]" by (rule one_event_ok)
  from events_ok_easy_tail [OF this _ ys] show ?thesis
    by (simp only: append_Cons append_Nil list.distinct simp_thms)
qed

lemma start_ok:
  assumes "event_inv s" "exists s" "decide_StartTurn s k tm = Inr es"
  shows "events_ok dec s es"
  using assms turn_start_ok [OF assms(1,2) refl, of "[]"]
  by (auto simp: decide_StartTurn_def simp del: events_ok.simps split: option.splits)

lemma submit_ok:
  assumes "event_inv s" "exists s" "decide_SubmitTurn s c = Inr es"
  shows "events_ok dec s es"
proof -
  from assms(3) have cur: "currentTurnId s = None" by (simp add: decide_SubmitTurn_def split: option.splits)
  let ?m = "\<lparr>mf_inputOwner = None, mf_messageId = st_messageId c, mf_turnId = Some (st_turnId c),
    mf_role = st_role c, mf_kind = st_kind c, mf_contentJson = st_contentJson c,
    mf_parentItemId = st_parentItemId c, mf_checkpointRevision = None, mf_checkpointFinal = None,
    mf_createdAt = st_createdAt c\<rparr>"
  have m: "quiet_event (MessagePersisted ?m)" by simp
  from assms(3) have es: "es = [MessagePersisted ?m] @
      TurnStarted (st_turnId c) (st_createdAt c) (Some (turnCount s + 1))
        (Some (attempt_id_for (st_turnId c) 1)) (Some (activeProviderThreadId s)) #
      [SessionStatusSet StatusBooting (st_createdAt c),
       ProviderTurnRequested (st_turnId c) (Some (attempt_id_for (st_turnId c) 1))
         (st_providerInputJson c) None (st_createdAt c)]"
    by (simp add: decide_SubmitTurn_def cur)
  show ?thesis
    unfolding es
    by (rule stops_then [OF assms(2)], use m in simp, rule turn_start_ok [OF assms(1,2) _ cur])
      (simp_all add: easy_event_def)
qed

lemma reserve_ok:
  assumes "exists s" "\<not> deleted s" "decide_ReserveProviderSession s c = Inr es"
  shows "events_ok dec s es"
proof -
  from assms(3) have "es = [] \<or> \<not> archived s \<and> es = provider_stops s (rp_reservedAt c) @
      [ProviderSessionReserved (rp_providerId c) (rp_providerSessionId c) (rp_reservedAt c)]"
    by (auto simp: decide_ReserveProviderSession_def split: if_splits)
  moreover have "events_ok dec s (provider_stops s (rp_reservedAt c) @
      [ProviderSessionReserved (rp_providerId c) (rp_providerSessionId c) (rp_reservedAt c)])"
    if "\<not> archived s"
    by (rule stops_then [OF assms(1) quiet_stops]) (use assms that in \<open>simp add: core_fields_def\<close>)
  ultimately show ?thesis by auto
qed

lemma reorder_ok:
  assumes "event_inv s" "exists s" "decide_ReorderQueuedTurns s ids tm = Inr es"
  shows "events_ok dec s es"
proof -
  have "set (queueOrder s) = set (keys (queuedTurns s))"
    using assms(1) by (simp add: event_inv_alt queue_wf_def)
  then have "set (filter (map_has (queuedTurns s)) ids @
      filter (\<lambda>q. q \<notin> set (filter (map_has (queuedTurns s)) ids)) (queueOrder s)) =
      set (keys (queuedTurns s))"
    by (auto simp only: set_append set_filter map_has_iff)
  then have "event_ok s (QueuedTurnsReordered (filter (map_has (queuedTurns s)) ids @
      filter (\<lambda>q. q \<notin> set (filter (map_has (queuedTurns s)) ids)) (queueOrder s)) tm)"
    using assms(2) by (simp only: event_ok.simps)
  then show ?thesis
    using assms(3) one_event_ok by (auto simp: decide_ReorderQueuedTurns_def Let_def simp del: event_ok.simps)
qed

section \<open>Every decision\<close>

lemma rollback_ok:
  assumes "exists s" "decide_RollbackTurns s through sq ids tm = Inr es"
  shows "events_ok dec s es"
  using assms
  by (auto simp: decide_RollbackTurns_def evolve_TurnsRolledBack_def split: if_splits)

lemma steer_ok:
  assumes "exists s" "decide_SteerQueuedTurn s k q su tm = Inr es"
  shows "events_ok dec s es"
proof -
  have "list_all easy_event es"
    using assms(2)
    by (auto simp: decide_SteerQueuedTurn_def Let_def easy_event_def split: if_splits option.splits)
  with assms(1) show ?thesis by (rule easy_events [rotated])
qed

lemma persist_ok:
  assumes "exists s" "decide_PersistMessage s m = Inr es"
  shows "events_ok dec s es"
  using assms
  by (auto simp: decide_PersistMessage_def checkpoint_revision_ok_def split: if_splits option.splits)

lemma attach_ok:
  assumes "exists s" "decide_AttachProvider s p psid tm = Inr es"
  shows "events_ok dec s es"
proof -
  have "list_all easy_event es"
    using assms(2) by (auto simp: decide_AttachProvider_def easy_event_def split: if_splits option.splits)
  with assms(1) show ?thesis by (rule easy_events [rotated])
qed

lemma stops_ok: "exists s \<Longrightarrow> events_ok dec s (provider_stops s tm)"
  using quiet_events [OF quiet_stops] by blast

lemmas small_decisions =
  decide_SetTitle_def decide_SetWorktree_def decide_ReleaseInitialTurn_def decide_FinalizeTurn_def
  decide_RequestTurnInterrupt_def decide_AcknowledgeTurnInterrupt_def decide_FailTurnInterrupt_def
  decide_EnqueueTurn_def decide_UpdateQueuedTurn_def decide_ClaimQueuedTurn_def
  decide_RemoveQueuedTurn_def decide_OpenSegment_def decide_SettleSegment_def
  decide_ExpirePermission_def decide_ResolvePermission_def decide_ExpireQuestion_def
  decide_DetachProvider_def

lemma exists_next_version [simp]: "exists (next_version s) = exists s"
  by (simp add: next_version_def)

lemma inline_ok:
  "\<lbrakk>(if b then Inr [] else Inr [e]) = Inr es; event_ok s e\<rbrakk> \<Longrightarrow> events_ok dec s es"
  "\<lbrakk>(if b then Inr [e] else Inr []) = Inr es; event_ok s e\<rbrakk> \<Longrightarrow> events_ok dec s es"
  "\<lbrakk>Inr [e] = Inr es; event_ok s e\<rbrakk> \<Longrightarrow> events_ok dec s es"
  "\<lbrakk>Inr (provider_stops s tm) = Inr es; exists s\<rbrakk> \<Longrightarrow> events_ok dec s es"
  by (auto simp: stops_ok split: if_splits)

lemma small_decision_ok:
  assumes "exists s"
  shows "decide_SetTitle s a b tm = Inr es \<Longrightarrow> events_ok dec s es"
    and "decide_SetWorktree s w tm fo = Inr es \<Longrightarrow> events_ok dec s es"
    and "decide_ReleaseInitialTurn s k i st tm = Inr es \<Longrightarrow> events_ok dec s es"
    and "decide_FinalizeTurn s k outcome tm = Inr es \<Longrightarrow> events_ok dec s es"
    and "decide_RequestTurnInterrupt s ex tm = Inr es \<Longrightarrow> events_ok dec s es"
    and "decide_AcknowledgeTurnInterrupt s k tm = Inr es \<Longrightarrow> events_ok dec s es"
    and "decide_FailTurnInterrupt s k r tm = Inr es \<Longrightarrow> events_ok dec s es"
    and "decide_EnqueueTurn s q = Inr es \<Longrightarrow> events_ok dec s es"
    and "decide_UpdateQueuedTurn s k i tm rdy = Inr es \<Longrightarrow> events_ok dec s es"
    and "decide_ClaimQueuedTurn s k tm = Inr es \<Longrightarrow> events_ok dec s es"
    and "decide_RemoveQueuedTurn s k tm = Inr es \<Longrightarrow> events_ok dec s es"
    and "decide_OpenSegment s k g kd tm = Inr es \<Longrightarrow> events_ok dec s es"
    and "decide_SettleSegment s k g outcome tm = Inr es \<Longrightarrow> events_ok dec s es"
    and "decide_ExpirePermission s k tm = Inr es \<Longrightarrow> events_ok dec s es"
    and "decide_ResolvePermission s k c cj tm = Inr es \<Longrightarrow> events_ok dec s es"
    and "decide_ExpireQuestion s k tm = Inr es \<Longrightarrow> events_ok dec s es"
    and "decide_DetachProvider s tm expd = Inr es \<Longrightarrow> events_ok dec s es"
  using assms
  by (auto simp: small_decisions Let_def split: if_splits option.splits interrupt_receipt.splits)

lemmas decision_rules =
  small_decision_ok [rotated] switch_ok [rotated] bind_thread_ok [rotated] bind_attempt_ok [rotated]
  recover_ok [rotated] retry_ok [rotated] expire_ok [rotated] rollback_ok [rotated] steer_ok [rotated]
  persist_ok [rotated] attach_ok [rotated] start_ok [rotated 2] submit_ok [rotated 2]
  reserve_ok [rotated 2] reorder_ok [rotated 2]

theorem decide_events_ok:
  assumes inv: "event_inv s" and d: "decide s c = Inr es"
  shows "events_ok dec s es"
proof (cases c)
  case (CreateSession x)
  then show ?thesis using d create_ok [OF inv] by simp
next
  case (CreateSessionWithInitialTurn x t)
  then show ?thesis using d create_with_turn_ok [OF inv] by simp
next
  case (SettleTurn k outcome tm)
  then show ?thesis using d settle_ok [OF _ refl] by (auto simp: with_session_Inr)
qed (use d inv in \<open>simp_all only: decide.simps with_session_Inr\<close>,
     (elim exE conjE, (erule decision_rules, assumption+ | erule inline_ok, simp))+)

section \<open>The scheduled successor\<close>

text \<open>Events that change neither the running turn nor the scheduled successor.\<close>

fun steady_event :: "session_event \<Rightarrow> bool" where
  "steady_event (TurnStarted t tm n a th) = False"
| "steady_event (TurnSettled t outcome tm) = False"
| "steady_event (SuccessorTurnScheduled su tm) = False"
| "steady_event (ScheduledSuccessorReady su tm) = False"
| "steady_event e = True"

lemma steady_fields:
  "steady_event e \<Longrightarrow>
   scheduledSuccessor (evolve dec s e) = scheduledSuccessor s \<and>
   currentTurnId (evolve dec s e) = currentTurnId s"
  by (cases e) (simp_all add: frame_defs Let_def split: option.split)

lemma steady_foldl:
  "list_all steady_event es \<Longrightarrow>
   scheduledSuccessor (foldl (evolve dec) s es) = scheduledSuccessor s \<and>
   currentTurnId (foldl (evolve dec) s es) = currentTurnId s"
  by (induction es arbitrary: s) (simp_all add: steady_fields)

lemma successor_steady:
  "\<lbrakk>successor_inv s; list_all steady_event es\<rbrakk> \<Longrightarrow> successor_inv (foldl (evolve dec) s es)"
  using steady_foldl [of es dec s] by (simp add: successor_inv_def)

fun schedules :: "session_event \<Rightarrow> bool" where
  "schedules (SuccessorTurnScheduled su tm) = True"
| "schedules e = False"

lemma unscheduled_event:
  "\<lbrakk>scheduledSuccessor s = None; \<not> schedules e\<rbrakk> \<Longrightarrow> scheduledSuccessor (evolve dec s e) = None"
  by (cases e) (simp_all add: frame_defs Let_def split: option.split)

lemma unscheduled_foldl:
  "\<lbrakk>scheduledSuccessor s = None; list_all (Not \<circ> schedules) es\<rbrakk> \<Longrightarrow>
   scheduledSuccessor (foldl (evolve dec) s es) = None"
  by (induction es arbitrary: s) (simp_all add: unscheduled_event)

lemma successor_unscheduled:
  "\<lbrakk>scheduledSuccessor s = None; list_all (Not \<circ> schedules) es\<rbrakk> \<Longrightarrow>
   successor_inv (foldl (evolve dec) s es)"
  by (simp add: successor_inv_def unscheduled_foldl)

lemma successor_ready:
  "successor_inv (foldl (evolve dec) s (es @ [ScheduledSuccessorReady su tm]))"
  by (simp add: successor_inv_def next_version_def)

lemma settle_successor:
  assumes inv: "successor_inv s" and pre: "list_all steady_event xs" "list_all (Not \<circ> schedules) xs"
    and d: "decide_SettleTurn s k outcome tm = Inr es"
  shows "successor_inv (foldl (evolve dec) s (xs @ es))"
proof (cases "currentTurnId s = Some k")
  case False
  with d have "es = []" by (simp add: decide_SettleTurn_def split: if_splits)
  with inv pre show ?thesis by (simp add: successor_steady)
next
  case True
  show ?thesis
  proof (cases "scheduledSuccessor s")
    case None
    have "list_all (Not \<circ> schedules) (xs @ es)"
      using d True pre None by (auto simp: decide_SettleTurn_def Let_def list_all_iff)
    then show ?thesis by (rule successor_unscheduled [OF None])
  next
    case (Some su)
    with inv True have "su_predecessorTurnId su = k" by (simp add: successor_inv_def)
    with d True Some obtain ys where "es = ys @ [ScheduledSuccessorReady su tm]"
      by (simp add: decide_SettleTurn_def Let_def) (metis append.assoc append_Cons append_Nil)
    then show ?thesis using successor_ready [of dec s "xs @ ys" su tm] by simp
  qed
qed

lemma stops_steady: "list_all steady_event (provider_stops s tm)"
  "list_all (Not \<circ> schedules) (provider_stops s tm)"
  by (auto simp: provider_stops_def list_all_iff)

lemma marker_steady: "list_all steady_event (model_switch_marker sid s p m tm)"
  by (simp add: model_switch_marker_def split: option.split)

lemma switch_steady: "decide_switch sid s p resume expected m tm = Inr es \<Longrightarrow> list_all steady_event es"
  unfolding decide_switch_def Let_def
  by (simp add: stops_steady marker_steady split: if_splits option.splits)
     (auto simp: stops_steady marker_steady split: option.splits)

lemma recover_steady: "decide_RecoverTurn s k a tm = Inr es \<Longrightarrow> list_all steady_event es"
  by (auto simp: decide_RecoverTurn_def Let_def stops_steady split: if_splits option.splits)

lemma branch_steady:
  "decide_BindProviderThread sid s n h tm = Inr es \<Longrightarrow> list_all steady_event es"
  "decide_BindAttemptProviderTurn s k a r tm = Inr es \<Longrightarrow> list_all steady_event es"
  "decide_RetryTurn s k reason input start tm = Inr es \<Longrightarrow> list_all steady_event es"
  "decide_RollbackTurns s through sq ids tm = Inr es \<Longrightarrow> list_all steady_event es"
  "decide_PersistMessage s m = Inr es \<Longrightarrow> list_all steady_event es"
  "decide_AttachProvider s p psid tm = Inr es \<Longrightarrow> list_all steady_event es"
  "decide_ReserveProviderSession s c = Inr es \<Longrightarrow> list_all steady_event es"
  "decide_ReorderQueuedTurns s ids tm = Inr es \<Longrightarrow> list_all steady_event es"
  by (auto simp: decide_BindProviderThread_def decide_BindAttemptProviderTurn_def
      decide_RetryTurn_def decide_RollbackTurns_def decide_PersistMessage_def
      decide_AttachProvider_def decide_ReserveProviderSession_def decide_ReorderQueuedTurns_def
      Let_def stops_steady split: if_splits option.splits)

lemma small_steady:
  "decide_SetTitle s a b tm = Inr es \<Longrightarrow> list_all steady_event es"
  "decide_SetWorktree s w tm fo = Inr es \<Longrightarrow> list_all steady_event es"
  "decide_ReleaseInitialTurn s k i st tm = Inr es \<Longrightarrow> list_all steady_event es"
  "decide_FinalizeTurn s k outcome tm = Inr es \<Longrightarrow> list_all steady_event es"
  "decide_RequestTurnInterrupt s ex tm = Inr es \<Longrightarrow> list_all steady_event es"
  "decide_AcknowledgeTurnInterrupt s k tm = Inr es \<Longrightarrow> list_all steady_event es"
  "decide_FailTurnInterrupt s k r tm = Inr es \<Longrightarrow> list_all steady_event es"
  "decide_EnqueueTurn s q = Inr es \<Longrightarrow> list_all steady_event es"
  "decide_UpdateQueuedTurn s k i tm rdy = Inr es \<Longrightarrow> list_all steady_event es"
  "decide_ClaimQueuedTurn s k tm = Inr es \<Longrightarrow> list_all steady_event es"
  "decide_RemoveQueuedTurn s k tm = Inr es \<Longrightarrow> list_all steady_event es"
  "decide_OpenSegment s k g kd tm = Inr es \<Longrightarrow> list_all steady_event es"
  "decide_SettleSegment s k g outcome tm = Inr es \<Longrightarrow> list_all steady_event es"
  "decide_ExpirePermission s k tm = Inr es \<Longrightarrow> list_all steady_event es"
  "decide_ResolvePermission s k c cj tm = Inr es \<Longrightarrow> list_all steady_event es"
  "decide_ExpireQuestion s k tm = Inr es \<Longrightarrow> list_all steady_event es"
  "decide_DetachProvider s tm expd = Inr es \<Longrightarrow> list_all steady_event es"
  by (auto simp: small_decisions Let_def split: if_splits option.splits interrupt_receipt.splits)

lemma inline_steady:
  "\<lbrakk>(if b then Inr [] else Inr [e]) = Inr es; steady_event e\<rbrakk> \<Longrightarrow> list_all steady_event es"
  "\<lbrakk>(if b then Inr [e] else Inr []) = Inr es; steady_event e\<rbrakk> \<Longrightarrow> list_all steady_event es"
  "\<lbrakk>Inr [e] = Inr es; steady_event e\<rbrakk> \<Longrightarrow> list_all steady_event es"
  "\<lbrakk>Inr (provider_stops s tm) = Inr es; True\<rbrakk> \<Longrightarrow> list_all steady_event es"
  by (auto simp: stops_steady split: if_splits)

lemma seeds_unscheduled: "list_all (Not \<circ> schedules) (provider_thread_seed_events sid seed tm)"
  by (simp add: provider_thread_seed_events_def Let_def split: option.split)

lemma seeds_steady: "list_all steady_event (provider_thread_seed_events sid seed tm)"
  by (simp add: provider_thread_seed_events_def Let_def split: option.split)

lemma decide_successor:
  assumes inv: "event_inv s" "successor_inv s" and d: "decide s c = Inr es"
  shows "successor_inv (foldl (evolve dec) s es)"
proof -
  have idle: "currentTurnId s = None \<Longrightarrow> scheduledSuccessor s = None"
    using inv(2) by (cases "scheduledSuccessor s") (auto simp: successor_inv_def)
  have fresh: "\<not> exists s \<Longrightarrow> scheduledSuccessor s = None"
    using event_inv_fresh [OF inv(1)] by auto
  show ?thesis
  proof (cases c)
    case (CreateSession x)
    with d have "list_all steady_event es"
      by (auto simp: decide_CreateSession_def seeds_steady split: if_splits)
    then show ?thesis by (rule successor_steady [OF inv(2)])
  next
    case (CreateSessionWithInitialTurn x t)
    with d fresh have "scheduledSuccessor s = None" "list_all (Not \<circ> schedules) es"
      by (auto simp: decide_CreateSessionWithInitialTurn_def seeds_unscheduled split: if_splits)
    then show ?thesis by (rule successor_unscheduled)
  next
    case (StartTurn k tm)
    with d idle have "scheduledSuccessor s = None" "list_all (Not \<circ> schedules) es"
      by (auto simp: with_session_Inr decide_StartTurn_def split: option.splits)
    then show ?thesis by (rule successor_unscheduled)
  next
    case (SubmitTurn x)
    with d idle have "scheduledSuccessor s = None" "list_all (Not \<circ> schedules) es"
      by (auto simp: with_session_Inr decide_SubmitTurn_def split: option.splits)
    then show ?thesis by (rule successor_unscheduled)
  next
    case (SettleTurn k outcome tm)
    with d have "decide_SettleTurn s k outcome tm = Inr es" by (auto simp: with_session_Inr)
    from settle_successor [OF inv(2) _ _ this, of "[]"] show ?thesis by simp
  next
    case (ExpireAttempt k a tm)
    with d have x: "decide_ExpireAttempt s k a tm = Inr es" by (auto simp: with_session_Inr)
    show ?thesis
    proof (cases "decide_RecoverTurn s k a tm")
      case (Inr r)
      with x have "es = r" by (simp add: decide_ExpireAttempt_def split: if_splits)
      with successor_steady [OF inv(2) recover_steady [OF Inr]] show ?thesis by simp
    next
      case (Inl f)
      define i where "i \<longleftrightarrow> Option.bind (map_of (turns s) k) tn_phase \<noteq> Some PhaseRunning \<or> archived s"
      define ex where "ex = (if i then [] else [MessagePersisted (expired_message k a tm)])"
      from x Inl obtain y where
        "decide_SettleTurn s k (if i then OutcomeInterrupted else OutcomeError) tm = Inr y"
        "es = (provider_stops s tm @ ex) @ y"
        by (simp add: decide_ExpireAttempt_def Let_def i_def ex_def split: if_splits sum.splits)
      moreover have "list_all steady_event (provider_stops s tm @ ex)"
        "list_all (Not \<circ> schedules) (provider_stops s tm @ ex)"
        using stops_steady by (simp_all add: ex_def)
      ultimately show ?thesis using settle_successor [OF inv(2)] by blast
    qed
  next
    case (SteerQueuedTurn k q su tm)
    with d have x: "decide_SteerQueuedTurn s k q su tm = Inr es" by (auto simp: with_session_Inr)
    show ?thesis
    proof (cases "currentTurnId s = Some k")
      case True
      with x show ?thesis
        by (auto simp: decide_SteerQueuedTurn_def Let_def successor_inv_def next_version_def
            evolve_QueuedTurnRemoved_def with_turn_phase_def split: option.splits if_splits)
    next
      case False
      with x obtain ys su' where "es = ys @ [ScheduledSuccessorReady su' tm]"
        by (fastforce simp: decide_SteerQueuedTurn_def Let_def split: option.splits if_splits)
      then show ?thesis using successor_ready [of dec s ys su' tm] by simp
    qed
  qed (use d in \<open>simp_all only: decide.simps with_session_Inr\<close>,
       (rule successor_steady [OF inv(2)], elim exE conjE,
         (erule switch_steady recover_steady branch_steady small_steady
          | erule inline_steady, simp))+)
qed

section \<open>The session as an aggregate\<close>

lemma session_inv_initial: "session_inv initial_session_state"
  by (simp add: session_inv_def event_inv_alt successor_inv_def)
    (simp add: initial_session_state_def turns_wf_def threads_wf_def queue_wf_def segments_wf_def
      messages_wf_def references_wf_def misc_wf_def)

lemma session_inv_decide:
  assumes "session_inv s" "decide s c = Inr es"
  shows "session_inv (foldl (evolve dec) s es)"
proof -
  from assms(1) have i: "event_inv s" "successor_inv s" by (simp_all add: session_inv_def)
  with decide_successor [OF i assms(2)] event_inv_foldl [OF i(1) decide_events_ok [OF i(1) assms(2)]]
  show ?thesis by (simp add: session_inv_def)
qed

interpretation session_agg: aggregate_invariant initial_session_state "evolve dec" decide version session_inv
  for dec
proof unfold_locales
  show "version initial_session_state = 0" by (simp add: initial_session_state_def)
qed (simp_all add: session_inv_initial session_inv_decide)

abbreviation session_reachable :: "decoder \<Rightarrow> session_event list \<Rightarrow> session_state \<Rightarrow> bool" where
  "session_reachable dec \<equiv> reachable initial_session_state (evolve dec) decide"

lemmas session_reachable_inv = session_agg.invar_reachable

end
