(* ===== verification/Session_Properties.thy ===== *)
theory Session_Properties
  imports Session_Safety
begin

text \<open>
  What the session aggregate promises: the statements about \<open>core/state.ts\<close> and
  \<open>core/decider.ts\<close> that the rest of the program relies on, over the lemmas of
  \<open>Session_Invariants\<close> and \<open>Session_Safety\<close>. The witnesses use one small session.
\<close>

section \<open>A small session\<close>

definition demo_create :: create_session where
  "demo_create =
     \<lparr>cs_delegation = None, cs_sessionId = ''s1'', cs_chatId = ''c1'', cs_projectId = ''p1'',
      cs_createdAt = 10, cs_title = ''demo'', cs_titleProvenance = Some ProvenancePending,
      cs_providerId = ''codex'', cs_model = ''m1'', cs_status = StatusIdle, cs_cursor = None,
      cs_resumeStrategy = None, cs_runtimeMode = ModeAuto, cs_agentsJson = None,
      cs_worktreeId = None, cs_forkedFromSessionId = None, cs_forkedFromMessageId = None,
      cs_permissionMode = PermissionDefault, cs_toolSearch = False, cs_queuePaused = False,
      cs_providerStartJson = None, cs_providerThread = None\<rparr>"

definition demo_turn :: initial_turn where
  "demo_turn =
     \<lparr>it_turnId = ''t1'', it_messageId = ''m1'', it_messageContentJson = ''{}'',
      it_providerInputJson = ''{}''\<rparr>"

definition no_decoder :: decoder where
  "no_decoder = (\<lambda>_. None)"

definition apply_command :: "decoder \<Rightarrow> session_state \<Rightarrow> session_command \<Rightarrow> session_state" where
  "apply_command dec s c = (case decide s c of Inl f \<Rightarrow> s | Inr es \<Rightarrow> foldl (evolve dec) s es)"

definition demo_running :: session_state where
  "demo_running =
     apply_command no_decoder initial_session_state
       (CreateSessionWithInitialTurn demo_create demo_turn)"

lemma apply_command_reachable:
  assumes "session_reachable dec hist s"
  shows "\<exists>hist'. session_reachable dec hist' (apply_command dec s c)"
proof (cases "decide s c")
  case (Inl f)
  with assms show ?thesis by (auto simp: apply_command_def)
next
  case (Inr es)
  then show ?thesis using reach_step [OF assms Inr] by (auto simp: apply_command_def)
qed

lemma demo_running_reachable: "\<exists>hist. session_reachable no_decoder hist demo_running"
  unfolding demo_running_def by (rule apply_command_reachable, rule reach_start)

section \<open>Well-formedness\<close>

text \<open>C15: A session state that accepted commands lead to is the replay of
  its log, its version is the length of the log, and it is well formed: turn ordinals are unique and
  at most the turn count, exactly the current turn is live, attempts are numbered without gaps,
  the queue order lists the queued items, open segments belong to the current turn, an archived
  or deleted session has no provider reservation, a successor waits only for the current turn.\<close>

theorem session_wellformed:
  assumes "session_reachable dec hist s"
  shows "session_inv s \<and> version s = int (length hist) \<and> s = evolve_all dec initial_session_state hist"
  using session_reachable_inv [OF assms] session_agg.count_reachable [OF assms]
    reachable_replay [OF assms]
  by (simp add: evolve_all_foldl)

theorem session_wellformed_witness:
  "\<exists>hist. session_inv demo_running \<and> version demo_running = int (length hist) \<and>
     demo_running = evolve_all no_decoder initial_session_state hist"
  using demo_running_reachable session_wellformed by blast

text \<open>C37: Folding a log with \<open>evolveAll\<close>, which updates the message
  collections it owns in place, gives the state that \<open>evolve\<close> gives event by event.\<close>

theorem evolve_all_is_fold: "evolve_all dec s es = foldl (evolve dec) s es"
  by (rule evolve_all_foldl)

section \<open>One execution at a time\<close>

lemma filter_single_key:
  "\<lbrakk>distinct (keys m); c \<in> set (keys m); \<forall>(k, a) \<in> set m. P a \<longleftrightarrow> k = c\<rbrakk> \<Longrightarrow>
   map fst (filter (\<lambda>(k, a). P a) m) = [c]"
proof (induction m)
  case (Cons x m)
  show ?case
  proof (cases "fst x = c")
    case True
    with Cons.prems have "\<forall>(k, a) \<in> set m. \<not> P a" by force
    then have "filter (\<lambda>(k, a). P a) m = []" by (auto simp: filter_empty_conv)
    with True Cons.prems show ?thesis by (cases x) simp
  next
    case False
    with Cons show ?thesis by (cases x) auto
  qed
qed simp

lemma attempts_by_key:
  "\<lbrakk>attempts_wf t; (k, a) \<in> set (tn_attempts t)\<rbrakk> \<Longrightarrow> map_of (tn_attempts t) k = Some a"
  using map_of_in_set [OF attempt_keys_distinct] by blast

lemma running_live:
  assumes "attempts_wf t" "live_turn t"
  shows "running_attempts t = [tn_activeAttemptId t]"
proof -
  from active_attempt_state [OF assms(2)] obtain a where
    a: "map_of (tn_attempts t) (tn_activeAttemptId t) = Some a" "att_status a = AttemptRunning" by blast
  have "\<forall>(k, x) \<in> set (tn_attempts t). att_status x = AttemptRunning \<longleftrightarrow> k = tn_activeAttemptId t"
  proof clarify
    fix k x
    assume kx: "(k, x) \<in> set (tn_attempts t)"
    note attempts_by_key [OF assms(1) kx]
    moreover have "k \<noteq> tn_activeAttemptId t \<Longrightarrow> att_status x = AttemptSuperseded"
      using assms(1) kx unfolding attempts_wf_def by blast
    ultimately show "att_status x = AttemptRunning \<longleftrightarrow> k = tn_activeAttemptId t"
      using a by (cases "k = tn_activeAttemptId t") simp_all
  qed
  then show ?thesis
    unfolding running_attempts_def
    by (rule filter_single_key [OF attempt_keys_distinct [OF assms(1)] active_in_keys [OF assms(1)]])
qed

lemma running_ended:
  assumes "attempts_wf t" "ended_turn t"
  shows "running_attempts t = []"
proof -
  have "att_status x \<noteq> AttemptRunning" if kx: "(k, x) \<in> set (tn_attempts t)" for k x
  proof (cases "k = tn_activeAttemptId t")
    case True
    then show ?thesis using attempts_by_key [OF assms(1) kx] assms(2) by (auto simp: ended_turn_def)
  next
    case False
    then have "att_status x = AttemptSuperseded"
      using assms(1) kx unfolding attempts_wf_def by blast
    then show ?thesis by simp
  qed
  then show ?thesis by (auto simp: running_attempts_def filter_empty_conv)
qed

lemma concat_single_key:
  "distinct (keys m) \<Longrightarrow>
   concat (map (\<lambda>(k, x). if cur = Some k then [f x] else []) m) =
     (case Option.bind cur (map_of m) of None \<Rightarrow> [] | Some x \<Rightarrow> [f x])"
proof (induction m)
  case Nil
  then show ?case by (cases cur) auto
next
  case (Cons a m)
  obtain k x where a: "a = (k, x)" by (cases a)
  show ?case
  proof (cases "cur = Some k")
    case True
    with Cons.prems a have "map_of m k = None" by (simp add: map_of_eq_None_iff)
    with Cons True a show ?thesis by simp
  next
    case False
    with Cons a show ?thesis by (cases cur) auto
  qed
qed

text \<open>C4: In a reachable session the running attempts of all turns
  together are the active attempt of the current turn, or none when no turn is current.\<close>

theorem one_running_attempt:
  assumes "session_reachable dec hist s"
  shows "concat (map (running_attempts \<circ> snd) (turns s)) =
           (case Option.bind (currentTurnId s) (active_attempt s) of None \<Rightarrow> [] | Some a \<Rightarrow> [a])"
proof -
  have inv: "turns_inv s"
    using session_reachable_inv [OF assms] by (simp add: session_inv_def event_inv_alt)
  then have d: "distinct (keys (turns s))" by (simp add: turns_wf_iff)
  have each: "running_attempts t = (if currentTurnId s = Some k then [tn_activeAttemptId t] else [])"
    if "(k, t) \<in> set (turns s)" for k t
  proof -
    from that have "map_of (turns s) k = Some t" by (simp only: map_of_in_set [OF d])
    from turns_wf_entry [OF inv this] show ?thesis
      by (auto simp: turn_entry_def running_live running_ended split: if_splits)
  qed
  have "map (running_attempts \<circ> snd) (turns s) =
      map (\<lambda>(k, t). if currentTurnId s = Some k then [tn_activeAttemptId t] else []) (turns s)"
  proof (rule map_cong [OF refl])
    fix x
    assume "x \<in> set (turns s)"
    then have "(fst x, snd x) \<in> set (turns s)" by simp
    from each [OF this] show "(running_attempts \<circ> snd) x =
        (case x of (k, t) \<Rightarrow> if currentTurnId s = Some k then [tn_activeAttemptId t] else [])"
      by (simp add: case_prod_beta)
  qed
  also have "concat \<dots> = (case Option.bind (currentTurnId s) (map_of (turns s)) of
      None \<Rightarrow> [] | Some t \<Rightarrow> [tn_activeAttemptId t])"
    by (rule concat_single_key [OF d])
  also have "\<dots> = (case Option.bind (currentTurnId s) (active_attempt s) of None \<Rightarrow> [] | Some a \<Rightarrow> [a])"
    by (cases "currentTurnId s") (simp_all add: active_attempt_def split: option.split)
  finally show ?thesis .
qed

theorem one_running_attempt_witness:
  "concat (map (running_attempts \<circ> snd) (turns demo_running)) =
     (case Option.bind (currentTurnId demo_running) (active_attempt demo_running) of
        None \<Rightarrow> [] | Some a \<Rightarrow> [a])"
  using demo_running_reachable one_running_attempt by blast

section \<open>Turn ordinals\<close>

fun started_ordinal :: "session_event \<Rightarrow> int option" where
  "started_ordinal (TurnStarted t tm n a th) = n"
| "started_ordinal e = None"

definition started_ordinals :: "session_event list \<Rightarrow> int list" where
  "started_ordinals es = List.map_filter started_ordinal es"

lemma started_ordinals_simps:
  "started_ordinals [] = []"
  "started_ordinals (e # es) =
     (case started_ordinal e of None \<Rightarrow> started_ordinals es | Some n \<Rightarrow> n # started_ordinals es)"
  "started_ordinals (xs @ ys) = started_ordinals xs @ started_ordinals ys"
  by (simp_all add: started_ordinals_def map_filter_def split: option.split)

lemma turnCount_with_current:
  assumes "turns_inv s" "map_of (turns s) k = Some t"
  shows "max (turnCount s) (tn_ordinal t) = turnCount s"
  using turns_wf_entry [OF assms] by (simp add: turn_entry_def)

lemma current_turn_Some: "current_turn s = Some t \<Longrightarrow> \<exists>k. map_of (turns s) k = Some t"
  by (auto simp: current_turn_def split: option.splits)

lemma turnCount_evolve:
  assumes inv: "turns_inv s" and ok: "event_ok s e"
  shows "turnCount (evolve dec s e) =
           (case started_ordinal e of None \<Rightarrow> turnCount s | Some n \<Rightarrow> turnCount s + 1) \<and>
         (\<forall>n. started_ordinal e = Some n \<longrightarrow> n = turnCount s + 1)"
proof (cases e)
  case (TurnStarted k tm n a th)
  then show ?thesis using ok by (auto simp: TurnStarted_fields)
next
  case (SessionStatusSet x tm)
  then show ?thesis
    using turnCount_with_current [OF inv] current_turn_Some [of s]
    by (auto simp: evolve_SessionStatusSet_def with_turn_def split: option.split)
next
  case (AttemptStarted x)
  then show ?thesis
    using turnCount_with_current [OF inv]
    by (auto simp: evolve_AttemptStarted_def with_turn_def next_version_def start_attempt_def
        split: option.split)
next
  case (TurnFinalizationRequested k a outcome tm)
  then show ?thesis
    using turnCount_with_current [OF inv]
    by (auto simp: evolve_TurnFinalizationRequested_def with_turn_def next_version_def
        split: option.split)
qed (use ok in \<open>simp_all add: evolve_SessionCreated_def evolve_SessionProviderSet_def
         evolve_SessionWorktreeSet_def evolve_ProviderThreadUpdated_def
         evolve_AttemptProviderTurnBound_def evolve_QueuedTurnEnqueued_def
         evolve_QueuedTurnUpdated_def evolve_QueuedTurnRemoved_def evolve_message_def
         evolve_SegmentOpened_def evolve_PermissionResolved_def evolve_QuestionResolved_def
         evolve_ProviderAttached_def evolve_ProviderStopRequested_def evolve_ProviderDetached_def
         evolve_TurnsRolledBack_def evolve_TurnSettled_def with_turn_phase_def
         with_provider_thread_def bind_legacy_resume_def retire_active_provider_thread_def
         Let_def split: option.split\<close>)

lemma ordinals_foldl:
  "\<lbrakk>event_inv s; events_ok dec s es\<rbrakk> \<Longrightarrow>
   turnCount s \<le> turnCount (foldl (evolve dec) s es) \<and>
   started_ordinals es = [turnCount s + 1 .. turnCount (foldl (evolve dec) s es)]"
proof (induction es arbitrary: s)
  case Nil
  then show ?case by (simp add: started_ordinals_simps)
next
  case (Cons e es)
  have ok: "event_ok s e" and inv: "turns_inv s" "event_inv (evolve dec s e)"
    using Cons.prems event_inv_evolve by (simp_all add: event_inv_alt)
  note tc = turnCount_evolve [OF inv(1) ok, of dec]
  from Cons.IH [OF inv(2)] Cons.prems have IH:
    "turnCount (evolve dec s e) \<le> turnCount (foldl (evolve dec) s (e # es))"
    "started_ordinals es = [turnCount (evolve dec s e) + 1 .. turnCount (foldl (evolve dec) s (e # es))]"
    by simp_all
  show ?case
  proof (cases "started_ordinal e")
    case None
    with tc IH show ?thesis by (simp add: started_ordinals_simps)
  next
    case (Some n)
    with tc IH show ?thesis by (simp add: started_ordinals_simps upto_rec1)
  qed
qed

text \<open>C21: The ordinals of the turns started in the log of a session are
  1, 2, 3 and so on up to the turn count, whatever was retried, settled or rolled back between.\<close>

theorem ordinals_never_reused:
  assumes "session_reachable dec hist s"
  shows "started_ordinals hist = [1 .. turnCount s]"
  using assms
proof (induction rule: reachable.induct)
  case reach_start
  then show ?case by (simp add: started_ordinals_simps)
next
  case (reach_step hist s c es)
  have inv: "event_inv s"
    using session_reachable_inv [OF reach_step.hyps(1)] by (simp add: session_inv_def)
  then have "0 \<le> turnCount s" by (simp add: event_inv_alt turns_wf_def)
  moreover note ordinals_foldl [OF inv decide_events_ok [OF inv reach_step.hyps(2)], of dec]
  ultimately show ?case
    using reach_step.IH upto_join by (simp add: started_ordinals_simps(3))
qed

theorem ordinals_never_reused_witness:
  "\<exists>hist. session_reachable no_decoder hist demo_running \<and>
     started_ordinals hist = [1 .. turnCount demo_running]"
  using demo_running_reachable ordinals_never_reused by blast

section \<open>Errors\<close>

fun creates :: "session_command \<Rightarrow> bool" where
  "creates (CreateSession c) = True"
| "creates (CreateSessionWithInitialTurn c t) = True"
| "creates _ = False"

text \<open>C34: A creation command is refused exactly when the session exists; any other
  command is refused with \<open>SessionNotFound\<close> before the creation and with
  \<open>SessionDeletedConflict\<close> after the deletion, whatever the command is.\<close>

theorem guards:
  "(exists s \<and> creates c \<longrightarrow> decide s c = Inl SessionAlreadyExists) \<and>
   (\<not> exists s \<and> creates c \<longrightarrow> (\<exists>es. decide s c = Inr es)) \<and>
   ((\<not> exists s \<or> sessionId s = None) \<and> \<not> creates c \<longrightarrow> decide s c = Inl SessionNotFound) \<and>
   (exists s \<and> sessionId s \<noteq> None \<and> deleted s \<and> \<not> creates c \<longrightarrow>
      decide s c = Inl SessionDeletedConflict)"
  by (cases c; simp add: decide_CreateSession_def decide_CreateSessionWithInitialTurn_def
      with_session_def split: option.split)

theorem guards_witness:
  "decide demo_running (CreateSession demo_create) = Inl SessionAlreadyExists \<and>
   decide initial_session_state (StartTurn ''t1'' 5) = Inl SessionNotFound \<and>
   decide (apply_command no_decoder demo_running (DeleteSession 20)) (StartTurn ''t2'' 30) =
     Inl SessionDeletedConflict"
proof -
  let ?d = "apply_command no_decoder demo_running (DeleteSession 20)"
  have "exists demo_running \<and> \<not> exists initial_session_state \<and> exists ?d \<and> sessionId ?d \<noteq> None \<and> deleted ?d"
    by code_simp
  then show ?thesis
    using guards [of demo_running "CreateSession demo_create"]
      guards [of initial_session_state "StartTurn ''t1'' 5"] guards [of ?d "StartTurn ''t2'' 30"]
    by (simp only: creates.simps simp_thms)
qed

section \<open>Steering\<close>

definition queued :: "string \<Rightarrow> string \<Rightarrow> queued_turn" where
  "queued queue_id input =
     \<lparr>qt_queueId = queue_id, qt_inputJson = input, qt_position = 0, qt_createdAt = 0, qt_ready = True\<rparr>"

definition demo_queued :: session_state where
  "demo_queued =
     apply_command no_decoder
       (apply_command no_decoder demo_running (EnqueueTurn (queued ''q1'' ''first'')))
       (EnqueueTurn (queued ''q2'' ''second''))"

lemma demo_queued_reachable: "\<exists>hist. session_reachable no_decoder hist demo_queued"
  using demo_running_reachable apply_command_reachable unfolding demo_queued_def by blast

fun ready_event :: "session_event \<Rightarrow> bool" where
  "ready_event (ScheduledSuccessorReady su tm) = True"
| "ready_event e = False"

lemma demo_queued_facts:
  "exists demo_queued \<and> sessionId demo_queued \<noteq> None \<and> \<not> deleted demo_queued \<and>
   currentTurnId demo_queued = Some ''t1'' \<and>
   map_of (queuedTurns demo_queued) ''q1'' = Some (queued ''q1'' ''first'') \<and>
   map_of (queuedTurns demo_queued) ''q2'' = Some (queued ''q2'' ''second'')"
  by code_simp

definition ready_events :: "session_event list \<Rightarrow> session_event list" where
  "ready_events es = filter ready_event es"

lemma ready_events_simps [simp]:
  "ready_events [] = []"
  "ready_events (xs @ ys) = ready_events xs @ ready_events ys"
  "ready_events (e # es) = (if ready_event e then e # ready_events es else ready_events es)"
  by (simp_all add: ready_events_def)

lemma ready_events_segments [simp]:
  "ready_events (map (\<lambda>(g, sg). SegmentSettled k g outcome tm) segs) = []"
  by (induction segs) auto

lemma steer_result:
  assumes "exists s" "sessionId s \<noteq> None" "\<not> deleted s" "currentTurnId s = Some k"
    "map_of (queuedTurns s) q = Some item"
    and s': "s' = apply_command dec s (SteerQueuedTurn k q su tm)"
  shows "exists s'" "sessionId s' \<noteq> None" "\<not> deleted s'" "currentTurnId s' = Some k"
    "queuedTurns s' = AList.delete q (queuedTurns s)"
    "scheduledSuccessor s' =
       Some \<lparr>su_predecessorTurnId = k, su_turnId = su, su_queueId = q, su_inputJson = qt_inputJson item\<rparr>"
  using assms
  by (auto simp: apply_command_def with_session_def decide_SteerQueuedTurn_def
      evolve_QueuedTurnRemoved_def with_turn_phase_def next_version_def split: option.split)

lemma settle_result:
  assumes "exists s" "sessionId s \<noteq> None" "\<not> deleted s" "currentTurnId s = Some k"
  shows "\<exists>es. decide s (SettleTurn k outcome tm) = Inr es \<and>
           ready_events es =
             (case scheduledSuccessor s of
                None \<Rightarrow> []
              | Some x \<Rightarrow> if su_predecessorTurnId x = k then [ScheduledSuccessorReady x tm] else [])"
  using assms
  by (auto simp: with_session_def decide_SettleTurn_def Let_def split: option.split)

fun steers :: "session_command \<Rightarrow> bool" where
  "steers (SteerQueuedTurn k q su tm) = True"
| "steers c = False"

fun settles :: "string \<Rightarrow> session_event \<Rightarrow> bool" where
  "settles k (TurnSettled t outcome tm) = (t = k)"
| "settles k e = False"

fun calm_event :: "session_event \<Rightarrow> bool" where
  "calm_event (SuccessorTurnScheduled su tm) = False"
| "calm_event (ScheduledSuccessorReady su tm) = False"
| "calm_event e = True"

text \<open>The events that a list of commands appends; a refused command appends none.\<close>

fun command_events :: "decoder \<Rightarrow> session_state \<Rightarrow> session_command list \<Rightarrow> session_event list" where
  "command_events dec s [] = []"
| "command_events dec s (c # cs) =
     (case decide s c of
        Inl f \<Rightarrow> command_events dec s cs
      | Inr es \<Rightarrow> es @ command_events dec (foldl (evolve dec) s es) cs)"

lemma steady_calm: "list_all steady_event es \<Longrightarrow> list_all calm_event es"
proof -
  have "steady_event e \<Longrightarrow> calm_event e" for e by (cases e) simp_all
  then show "list_all steady_event es \<Longrightarrow> list_all calm_event es" by (auto simp: list_all_iff)
qed

lemma steady_settles: "list_all steady_event es \<Longrightarrow> \<not> list_ex (settles k) es"
proof -
  have "steady_event e \<Longrightarrow> \<not> settles k e" for e by (cases e) simp_all
  then show "list_all steady_event es \<Longrightarrow> \<not> list_ex (settles k) es" by (auto simp: list_all_iff list_ex_iff)
qed

lemma calm_ready: "list_all calm_event es \<Longrightarrow> ready_events es = []"
proof -
  have "calm_event e \<Longrightarrow> \<not> ready_event e" for e by (cases e) simp_all
  then show "list_all calm_event es \<Longrightarrow> ready_events es = []" by (auto simp: list_all_iff ready_events_def)
qed

lemma calm_unscheduled:
  "\<lbrakk>scheduledSuccessor s = None; list_all calm_event es\<rbrakk> \<Longrightarrow> scheduledSuccessor (foldl (evolve dec) s es) = None"
proof -
  have "calm_event e \<Longrightarrow> \<not> schedules e" for e by (cases e) simp_all
  then show "\<lbrakk>scheduledSuccessor s = None; list_all calm_event es\<rbrakk> \<Longrightarrow> scheduledSuccessor (foldl (evolve dec) s es) = None"
    by (intro unscheduled_foldl) (auto simp: list_all_iff)
qed

text \<open>A settlement of the running turn makes its successor ready, or there is none.\<close>

lemma settlement_ready:
  assumes "decide_SettleTurn s k outcome tm = Inr es" "list_all steady_event xs"
    and "currentTurnId s = Some k" "scheduledSuccessor s = Some su" "su_predecessorTurnId su = k"
  shows "list_ex (settles k) (xs @ es)" "ready_events (xs @ es) = [ScheduledSuccessorReady su tm]"
    "scheduledSuccessor (foldl (evolve dec) s (xs @ es)) = None"
proof -
  let ?segs = "map (\<lambda>(segment_id, segment). SegmentSettled k segment_id outcome tm)
      (filter (\<lambda>(segment_id, segment). seg_turnId segment = k) (openSegments s))"
  have "es = ?segs @ [TurnSettled k outcome tm, SessionStatusSet StatusRunning tm, ScheduledSuccessorReady su tm]"
    using assms(1,3-5) by (simp add: decide_SettleTurn_def Let_def)
  then show "list_ex (settles k) (xs @ es)" "ready_events (xs @ es) = [ScheduledSuccessorReady su tm]"
    "scheduledSuccessor (foldl (evolve dec) s (xs @ es)) = None"
    using calm_ready [OF steady_calm [OF assms(2)]] by (simp_all add: next_version_def)
qed

lemma settlement_other:
  assumes "decide_SettleTurn s k outcome tm = Inr es" "currentTurnId s \<noteq> Some k"
  shows "es = []"
  using assms by (simp add: decide_SettleTurn_def split: if_splits)

lemma settlement_calm:
  assumes "decide_SettleTurn s k outcome tm = Inr es" "scheduledSuccessor s = None"
  shows "list_all calm_event es"
  using assms by (auto simp: decide_SettleTurn_def Let_def list_all_iff split: if_splits)

lemma expire_cases:
  assumes "decide_ExpireAttempt s k a tm = Inr es"
  obtains "list_all steady_event es"
  | xs outcome ys where "es = xs @ ys" "list_all steady_event xs" "decide_SettleTurn s k outcome tm = Inr ys"
proof (cases "decide_RecoverTurn s k a tm")
  case (Inr r)
  with assms have "es = r" by (simp add: decide_ExpireAttempt_def split: if_splits)
  with that(1) recover_steady [OF Inr] show ?thesis by simp
next
  case (Inl f)
  define i where "i \<longleftrightarrow> Option.bind (map_of (turns s) k) tn_phase \<noteq> Some PhaseRunning \<or> archived s"
  define ex where "ex = (if i then [] else [MessagePersisted (expired_message k a tm)])"
  from assms Inl obtain y where
    "decide_SettleTurn s k (if i then OutcomeInterrupted else OutcomeError) tm = Inr y"
    "es = (provider_stops s tm @ ex) @ y"
    by (simp add: decide_ExpireAttempt_def Let_def i_def ex_def split: if_splits sum.splits)
  moreover have "list_all steady_event (provider_stops s tm @ ex)"
    using stops_steady by (simp add: ex_def)
  ultimately show ?thesis using that(2) by blast
qed

lemma busy_steady:
  assumes "currentTurnId s = Some k"
  shows "decide_StartTurn s t tm = Inr es \<Longrightarrow> list_all steady_event es"
    "decide_SubmitTurn s x = Inr es \<Longrightarrow> list_all steady_event es"
  using assms by (auto simp: decide_StartTurn_def decide_SubmitTurn_def split: option.splits if_splits)

lemma running_exists:
  assumes "session_inv s" "currentTurnId s = Some k"
  shows "exists s \<and> sessionId s \<noteq> None"
proof -
  have i: "event_inv s" using assms(1) by (simp add: session_inv_def)
  have "exists s"
  proof (rule ccontr)
    assume "\<not> exists s"
    with event_inv_fresh [OF i] assms(2) show False by (simp add: initial_session_state_def)
  qed
  with i show ?thesis by (simp add: event_inv_def)
qed

text \<open>While the turn runs and the item is scheduled behind it\<close>

lemma pending_step:
  assumes inv: "session_inv s" and now: "currentTurnId s = Some k" "scheduledSuccessor s = Some su"
    and d: "decide s c = Inr es" and c: "\<not> steers c"
  shows "list_all steady_event es \<or>
    (list_ex (settles k) es \<and> (\<exists>tm. ready_events es = [ScheduledSuccessorReady su tm]) \<and>
     scheduledSuccessor (foldl (evolve dec) s es) = None)"
proof -
  have i: "event_inv s" "successor_inv s" using inv by (simp_all add: session_inv_def)
  have pre: "su_predecessorTurnId su = k" using i(2) now by (simp add: successor_inv_def)
  have here: "exists s" using running_exists [OF inv now(1)] by simp
  have settled: ?thesis
    if "decide_SettleTurn s k' outcome tm = Inr ys" "es = xs @ ys" "list_all steady_event xs" for k' outcome tm xs ys
  proof (cases "k' = k")
    case True
    note ready = settlement_ready [OF that(1) [unfolded True] that(3) now pre]
    from ready(1,2) ready(3) [of dec] show ?thesis by (auto simp: that(2))
  next
    case False
    with settlement_other [OF that(1)] now that(2,3) show ?thesis by simp
  qed
  show ?thesis
  proof (cases c)
    case (CreateSession x)
    with d here show ?thesis by (simp add: decide_CreateSession_def)
  next
    case (CreateSessionWithInitialTurn x t)
    with d here show ?thesis by (simp add: decide_CreateSessionWithInitialTurn_def)
  next
    case (StartTurn t tm)
    with d busy_steady(1) [OF now(1)] show ?thesis by (auto simp: with_session_Inr)
  next
    case (SubmitTurn x)
    with d busy_steady(2) [OF now(1)] show ?thesis by (auto simp: with_session_Inr)
  next
    case (SettleTurn t outcome tm)
    with d settled [of t outcome tm es "[]"] show ?thesis by (auto simp: with_session_Inr)
  next
    case (ExpireAttempt t a tm)
    with d have "decide_ExpireAttempt s t a tm = Inr es" by (auto simp: with_session_Inr)
    then show ?thesis by (rule expire_cases) (simp, rule settled)
  next
    case (SteerQueuedTurn t q su' tm)
    with c show ?thesis by simp
  qed (use d in \<open>simp_all only: decide.simps with_session_Inr\<close>,
       (rule disjI1, elim exE conjE,
         (erule switch_steady recover_steady branch_steady small_steady
          | erule inline_steady, simp))+)
qed

text \<open>Once nothing is scheduled, only another steer schedules something.\<close>

lemma unscheduled_step:
  assumes none: "scheduledSuccessor s = None" and d: "decide s c = Inr es" and c: "\<not> steers c"
  shows "list_all calm_event es"
proof (cases c)
  case (CreateSession x)
  with d show ?thesis by (auto simp: decide_CreateSession_def steady_calm [OF seeds_steady] split: if_splits)
next
  case (CreateSessionWithInitialTurn x t)
  with d show ?thesis
    by (auto simp: decide_CreateSessionWithInitialTurn_def steady_calm [OF seeds_steady] split: if_splits)
next
  case (StartTurn t tm)
  with d show ?thesis by (auto simp: with_session_Inr decide_StartTurn_def split: option.splits if_splits)
next
  case (SubmitTurn x)
  with d show ?thesis by (auto simp: with_session_Inr decide_SubmitTurn_def split: option.splits if_splits)
next
  case (SettleTurn t outcome tm)
  with d settlement_calm none show ?thesis by (auto simp: with_session_Inr)
next
  case (ExpireAttempt t a tm)
  with d have "decide_ExpireAttempt s t a tm = Inr es" by (auto simp: with_session_Inr)
  then show ?thesis
  proof (rule expire_cases)
    fix xs outcome ys
    assume "es = xs @ ys" "list_all steady_event xs" "decide_SettleTurn s t outcome tm = Inr ys"
    with settlement_calm [OF _ none] steady_calm show ?thesis by simp
  qed (rule steady_calm)
next
  case (SteerQueuedTurn t q su' tm)
  with c show ?thesis by simp
qed (use d in \<open>simp_all only: decide.simps with_session_Inr\<close>,
     (rule steady_calm, elim exE conjE,
       (erule switch_steady recover_steady branch_steady small_steady
        | erule inline_steady, simp))+)

lemma unscheduled_commands:
  "\<lbrakk>scheduledSuccessor s = None; \<forall>c \<in> set cs. \<not> steers c\<rbrakk> \<Longrightarrow> ready_events (command_events dec s cs) = []"
proof (induction cs arbitrary: s)
  case (Cons c cs)
  show ?case
  proof (cases "decide s c")
    case (Inr es)
    have calm: "list_all calm_event es" using unscheduled_step [OF Cons.prems(1) Inr] Cons.prems(2) by simp
    from Cons.IH [OF calm_unscheduled [OF Cons.prems(1) calm], of dec] Cons.prems(2) show ?thesis
      by (simp add: Inr calm_ready [OF calm])
  qed (use Cons in simp)
qed simp

lemma pending_commands:
  assumes "session_inv s" "currentTurnId s = Some k" "scheduledSuccessor s = Some su"
    and "\<forall>c \<in> set cs. \<not> steers c"
    and "es = command_events dec s cs"
  shows "if list_ex (settles k) es then \<exists>tm. ready_events es = [ScheduledSuccessorReady su tm]
    else ready_events es = [] \<and> session_inv (foldl (evolve dec) s es) \<and>
      currentTurnId (foldl (evolve dec) s es) = Some k \<and> scheduledSuccessor (foldl (evolve dec) s es) = Some su"
  using assms
proof (induction cs arbitrary: s es)
  case (Cons c cs)
  show ?case
  proof (cases "decide s c")
    case (Inl f)
    with Cons show ?thesis by simp
  next
    case (Inr xs)
    let ?s = "foldl (evolve dec) s xs"
    have es: "es = xs @ command_events dec ?s cs" using Cons.prems(5) Inr by simp
    have calm: "\<forall>c \<in> set cs. \<not> steers c" and c: "\<not> steers c" using Cons.prems(4) by simp_all
    from pending_step [OF Cons.prems(1-3) Inr c, of dec] show ?thesis
    proof (elim disjE conjE exE)
      assume steady: "list_all steady_event xs"
      from steady_foldl [OF steady, of dec s] Cons.prems(2,3)
      have "currentTurnId ?s = Some k" "scheduledSuccessor ?s = Some su" by simp_all
      from Cons.IH [OF session_inv_decide [OF Cons.prems(1) Inr] this calm refl]
      show ?thesis
        using steady_settles [OF steady, of k] calm_ready [OF steady_calm [OF steady]] by (simp add: es)
    next
      fix tm
      assume "list_ex (settles k) xs" "ready_events xs = [ScheduledSuccessorReady su tm]"
        "scheduledSuccessor ?s = None"
      with unscheduled_commands [OF _ calm, of ?s dec] show ?thesis by (simp add: es)
    qed
  qed
qed simp

text \<open>C16: Steering a queued item onto the running turn takes the item out of the queue, and
  whatever commands follow, as long as no other item is steered, its input becomes ready as the next
  turn exactly once if the turn settles, and not at all before that; as long as the turn has not
  settled and the session is not deleted, settling it is accepted and makes exactly this input
  ready. It is neither dropped nor delivered twice.\<close>

theorem steered_input_follows:
  assumes "session_reachable dec hist s" "exists s" "\<not> deleted s" "currentTurnId s = Some k"
    "map_of (queuedTurns s) q = Some item"
    and "\<forall>c \<in> set cs. \<not> steers c"
  shows "let s' = apply_command dec s (SteerQueuedTurn k q su tm);
             successor = \<lparr>su_predecessorTurnId = k, su_turnId = su, su_queueId = q, su_inputJson = qt_inputJson item\<rparr>;
             es = command_events dec s' cs; s'' = foldl (evolve dec) s' es in
     \<not> map_has (queuedTurns s') q \<and>
     (if list_ex (settles k) es then \<exists>tm'. ready_events es = [ScheduledSuccessorReady successor tm']
      else ready_events es = [] \<and>
        (\<not> deleted s'' \<longrightarrow> (\<exists>es'. decide s'' (SettleTurn k outcome tm') = Inr es' \<and>
           ready_events es' = [ScheduledSuccessorReady successor tm'])))"
proof -
  let ?s = "apply_command dec s (SteerQueuedTurn k q su tm)"
  let ?es = "command_events dec ?s cs"
  let ?s' = "foldl (evolve dec) ?s ?es"
  let ?su = "\<lparr>su_predecessorTurnId = k, su_turnId = su, su_queueId = q, su_inputJson = qt_inputJson item\<rparr>"
  have inv: "session_inv s" by (rule session_reachable_inv [OF assms(1)])
  note steer = steer_result [OF assms(2) _ assms(3-5) refl, of dec su tm]
  have sid: "sessionId s \<noteq> None" using running_exists [OF inv assms(4)] by simp
  have inv': "session_inv ?s"
    using apply_command_reachable [OF assms(1)] session_reachable_inv by blast
  note all = pending_commands [OF inv' steer(4) [OF sid] steer(6) [OF sid] assms(6) refl]
  have "\<exists>es'. decide ?s' (SettleTurn k outcome tm') = Inr es' \<and> ready_events es' = [ScheduledSuccessorReady ?su tm']"
    if "\<not> list_ex (settles k) ?es" "\<not> deleted ?s'"
  proof -
    from all that(1) have r: "session_inv ?s'" "currentTurnId ?s' = Some k" "scheduledSuccessor ?s' = Some ?su" by simp_all
    from settle_result [OF _ _ that(2) r(2), of outcome tm'] running_exists [OF r(1,2)] r(3) show ?thesis by simp
  qed
  with all steer(5) [OF sid] show ?thesis by (simp add: Let_def)
qed

theorem steered_input_follows_witness:
  "let s' = apply_command no_decoder demo_queued (SteerQueuedTurn ''t1'' ''q1'' ''t2'' 30);
       es = command_events no_decoder s'
         [RemoveQueuedTurn ''q2'' 31, AcknowledgeTurnInterrupt ''t1'' 32,
          SettleTurn ''t1'' OutcomeInterrupted 40, StartTurn ''t2'' 41, SettleTurn ''t2'' OutcomeCompleted 50] in
     \<not> map_has (queuedTurns s') ''q1'' \<and> list_ex (settles ''t1'') es \<and> list_ex (settles ''t2'') es \<and>
     (\<exists>tm. ready_events es =
        [ScheduledSuccessorReady
           \<lparr>su_predecessorTurnId = ''t1'', su_turnId = ''t2'', su_queueId = ''q1'',
            su_inputJson = qt_inputJson (queued ''q1'' ''first'')\<rparr> tm])"
proof -
  let ?s = "apply_command no_decoder demo_queued (SteerQueuedTurn ''t1'' ''q1'' ''t2'' 30)"
  let ?cs = "[RemoveQueuedTurn ''q2'' 31, AcknowledgeTurnInterrupt ''t1'' 32,
          SettleTurn ''t1'' OutcomeInterrupted 40, StartTurn ''t2'' 41, SettleTurn ''t2'' OutcomeCompleted 50]"
  obtain hist where r: "session_reachable no_decoder hist demo_queued" using demo_queued_reachable by blast
  have c: "\<forall>c \<in> set ?cs. \<not> steers c" by simp
  have "list_ex (settles ''t1'') (command_events no_decoder ?s ?cs)"
    "list_ex (settles ''t2'') (command_events no_decoder ?s ?cs)" by code_simp+
  with steered_input_follows [OF r _ _ _ _ c, of "''t1''" "''q1''" "queued ''q1'' ''first''" "''t2''" 30 OutcomeError 0]
    demo_queued_facts show ?thesis by (simp add: Let_def)
qed

text \<open>C30: When a second queued item is steered onto the same turn
  before it settles, the settlement makes only the second input ready. The first item is no
  longer in the queue either: its input is lost.\<close>

theorem second_steer_replaces_first:
  assumes "exists s" "sessionId s \<noteq> None" "\<not> deleted s" "currentTurnId s = Some k"
    "map_of (queuedTurns s) q1 = Some item1" "map_of (queuedTurns s) q2 = Some item2" "q1 \<noteq> q2"
  shows "let s' = apply_command dec (apply_command dec s (SteerQueuedTurn k q1 su1 tm1))
                    (SteerQueuedTurn k q2 su2 tm2) in
     \<not> map_has (queuedTurns s') q1 \<and> \<not> map_has (queuedTurns s') q2 \<and>
     (\<exists>es. decide s' (SettleTurn k outcome tm) = Inr es \<and>
        ready_events es =
          [ScheduledSuccessorReady
             \<lparr>su_predecessorTurnId = k, su_turnId = su2, su_queueId = q2,
              su_inputJson = qt_inputJson item2\<rparr> tm])"
proof -
  let ?s1 = "apply_command dec s (SteerQueuedTurn k q1 su1 tm1)"
  let ?s2 = "apply_command dec ?s1 (SteerQueuedTurn k q2 su2 tm2)"
  note r1 = steer_result [OF assms(1-5) refl, of dec su1 tm1]
  have "map_of (queuedTurns ?s1) q2 = Some item2" using r1(5) assms(6,7) by simp
  note r2 = steer_result [OF r1(1-4) this refl, of dec su2 tm2]
  from settle_result [OF r2(1-4), of outcome tm] r1(5) r2(5,6) show ?thesis
    by (simp add: Let_def)
qed

theorem second_steer_replaces_first_witness:
  "let s' = apply_command no_decoder
              (apply_command no_decoder demo_queued (SteerQueuedTurn ''t1'' ''q1'' ''t2'' 30))
              (SteerQueuedTurn ''t1'' ''q2'' ''t3'' 31) in
     \<not> map_has (queuedTurns s') ''q1'' \<and> \<not> map_has (queuedTurns s') ''q2'' \<and>
     (\<exists>es. decide s' (SettleTurn ''t1'' OutcomeInterrupted 40) = Inr es \<and>
        ready_events es =
          [ScheduledSuccessorReady
             \<lparr>su_predecessorTurnId = ''t1'', su_turnId = ''t3'', su_queueId = ''q2'',
              su_inputJson = qt_inputJson (queued ''q2'' ''second'')\<rparr> 40])"
  by (rule second_steer_replaces_first) (simp_all add: demo_queued_facts)

end
