(* ===== verification/Chat.thy ===== *)
theory Chat
  imports Contracts Aggregate
begin

text \<open>
  The chat aggregate: \<open>chat/commands.ts\<close>, \<open>chat/events.ts\<close>, \<open>chat/state.ts\<close> and
  \<open>chat/decider.ts\<close> of \<open>packages/domain/src\<close>. A chat groups sessions; it is renamed, read,
  archived with a checkpoint of its worktree, unarchived and deleted. The lemmas show the
  invariant of a chat, interpret the aggregate contract and show that a command that is
  delivered twice is silent the second time.
\<close>

section \<open>Commands and events\<close>

record chat_created =
  cc_chatId :: string
  cc_projectId :: string
  cc_worktreeId :: "string option"
  cc_title :: string
  cc_titleProvenance :: "title_provenance option"
  cc_originSessionId :: "string option"
  cc_lastReadAt :: "int option"
  cc_createdAt :: int

datatype chat_command =
  CreateChat chat_created
| RenameChat string "title_provenance option" int
| MarkChatRead int
| SetChatWorktree "string option" int
| SetActiveSession "string option" int
| RequestArchiveChat int bool
| ArchiveChat int "string option"
| RecordArchiveCheckpoint string int
| UnarchiveChat int "string option"
| RequestDeleteChat int
| DeleteChat int

datatype chat_event =
  ChatCreated chat_created
| ChatRenamed string "title_provenance option" int
| ChatRead int
| ChatWorktreeSet "string option" int
| ChatActiveSessionSet "string option" int
| ChatLastMessageSet "int option"
| ChatArchiveRequested int "bool option"
| ChatArchived int "string option"
| ChatArchiveCheckpointRecorded string int
| ChatUnarchived int "string option"
| ChatDeleteRequested int
| ChatDeleted int

section \<open>State\<close>

record chat_state =
  ch_exists :: bool
  ch_deleted :: bool
  ch_archived :: bool
  ch_archiveRequested :: bool
  ch_deleteRequested :: bool
  ch_chatId :: "string option"
  ch_projectId :: "string option"
  ch_worktreeId :: "string option"
  ch_title :: "string option"
  ch_titleProvenance :: title_provenance
  ch_activeSessionId :: "string option"
  ch_originSessionId :: "string option"
  ch_lastReadAt :: "int option"
  ch_lastMessageAt :: "int option"
  ch_archivedWorktreeJson :: "string option"
  ch_version :: int

definition initial_chat_state :: chat_state where
  "initial_chat_state =
     \<lparr>ch_exists = False, ch_deleted = False, ch_archived = False, ch_archiveRequested = False,
      ch_deleteRequested = False, ch_chatId = None, ch_projectId = None, ch_worktreeId = None,
      ch_title = None, ch_titleProvenance = ProvenanceManual, ch_activeSessionId = None,
      ch_originSessionId = None, ch_lastReadAt = None, ch_lastMessageAt = None,
      ch_archivedWorktreeJson = None, ch_version = 0\<rparr>"

fun evolve_chat :: "chat_state \<Rightarrow> chat_event \<Rightarrow> chat_state" where
  "evolve_chat s (ChatCreated e) =
     s\<lparr>ch_exists := True, ch_chatId := Some (cc_chatId e), ch_projectId := Some (cc_projectId e),
       ch_worktreeId := cc_worktreeId e, ch_title := Some (cc_title e),
       ch_titleProvenance := title_provenance_or_manual (cc_titleProvenance e),
       ch_originSessionId := cc_originSessionId e, ch_lastReadAt := cc_lastReadAt e,
       ch_version := ch_version s + 1\<rparr>"
| "evolve_chat s (ChatRenamed title' provenance tm) =
     s\<lparr>ch_title := Some title', ch_titleProvenance := title_provenance_or_manual provenance,
       ch_version := ch_version s + 1\<rparr>"
| "evolve_chat s (ChatRead tm) = s\<lparr>ch_lastReadAt := Some tm, ch_version := ch_version s + 1\<rparr>"
| "evolve_chat s (ChatWorktreeSet worktree tm) =
     s\<lparr>ch_worktreeId := worktree, ch_version := ch_version s + 1\<rparr>"
| "evolve_chat s (ChatActiveSessionSet session tm) =
     s\<lparr>ch_activeSessionId := session, ch_version := ch_version s + 1\<rparr>"
| "evolve_chat s (ChatLastMessageSet tm) =
     s\<lparr>ch_lastMessageAt := tm, ch_version := ch_version s + 1\<rparr>"
| "evolve_chat s (ChatArchiveRequested tm force) =
     s\<lparr>ch_archiveRequested := True, ch_version := ch_version s + 1\<rparr>"
| "evolve_chat s (ChatArchived tm worktree_json) =
     s\<lparr>ch_archived := True, ch_archiveRequested := False,
       ch_archivedWorktreeJson := worktree_json, ch_version := ch_version s + 1\<rparr>"
| "evolve_chat s (ChatArchiveCheckpointRecorded worktree_json tm) =
     s\<lparr>ch_archivedWorktreeJson := Some worktree_json, ch_version := ch_version s + 1\<rparr>"
| "evolve_chat s (ChatUnarchived tm worktree) =
     s\<lparr>ch_archived := False, ch_archiveRequested := False, ch_worktreeId := worktree,
       ch_archivedWorktreeJson := None, ch_version := ch_version s + 1\<rparr>"
| "evolve_chat s (ChatDeleteRequested tm) =
     s\<lparr>ch_deleteRequested := True, ch_version := ch_version s + 1\<rparr>"
| "evolve_chat s (ChatDeleted tm) =
     s\<lparr>ch_deleted := True, ch_deleteRequested := False, ch_version := ch_version s + 1\<rparr>"

definition evolve_chats :: "chat_state \<Rightarrow> chat_event list \<Rightarrow> chat_state" where
  "evolve_chats s events = foldl evolve_chat s events"

section \<open>Decider\<close>

datatype chat_error = ChatNotFound | ChatAlreadyExists | ChatDeletedConflict | ChatValidationFailed string

type_synonym chat_decision = "chat_error + chat_event list"

definition decide_CreateChat :: "chat_state \<Rightarrow> chat_created \<Rightarrow> chat_decision" where
  "decide_CreateChat s c =
     (let title' = trim (cc_title c);
          provenance = title_provenance_or_manual (cc_titleProvenance c) in
      if length title' = 0 then Inl (ChatValidationFailed ''title cannot be empty'')
      else if ch_exists s then Inl ChatAlreadyExists
      else Inr [ChatCreated (c\<lparr>cc_title := title', cc_titleProvenance := Some provenance\<rparr>)])"

definition decide_RenameChat ::
  "chat_state \<Rightarrow> string \<Rightarrow> title_provenance option \<Rightarrow> int \<Rightarrow> chat_decision" where
  "decide_RenameChat s raw_title raw_provenance tm =
     (let title' = trim raw_title; provenance = title_provenance_or_manual raw_provenance in
      if length title' = 0 then Inl (ChatValidationFailed ''title cannot be empty'')
      else if provenance = ProvenanceAutomatic \<and> ch_titleProvenance s \<noteq> ProvenancePending then Inr []
      else if ch_title s = Some title' \<and> ch_titleProvenance s = provenance then Inr []
      else Inr [ChatRenamed title' (Some provenance) tm])"

definition with_chat :: "chat_state \<Rightarrow> chat_decision \<Rightarrow> chat_decision" where
  "with_chat s d =
     (if \<not> ch_exists s then Inl ChatNotFound
      else if ch_deleted s then Inl ChatDeletedConflict
      else d)"

fun decide_chat :: "chat_state \<Rightarrow> chat_command \<Rightarrow> chat_decision" where
  "decide_chat s (CreateChat c) = decide_CreateChat s c"
| "decide_chat s (RenameChat title' provenance tm) =
     with_chat s (decide_RenameChat s title' provenance tm)"
| "decide_chat s (MarkChatRead tm) =
     with_chat s (if ch_lastReadAt s = Some tm then Inr [] else Inr [ChatRead tm])"
| "decide_chat s (SetChatWorktree worktree tm) =
     with_chat s (if ch_worktreeId s = worktree then Inr [] else Inr [ChatWorktreeSet worktree tm])"
| "decide_chat s (SetActiveSession session tm) =
     with_chat s
       (if ch_activeSessionId s = session then Inr [] else Inr [ChatActiveSessionSet session tm])"
| "decide_chat s (RequestArchiveChat tm force) =
     with_chat s
       (if ch_archived s \<or> ch_archiveRequested s then Inr []
        else Inr [ChatArchiveRequested tm (Some force)])"
| "decide_chat s (ArchiveChat tm worktree_json) =
     with_chat s (if ch_archived s then Inr [] else Inr [ChatArchived tm worktree_json])"
| "decide_chat s (RecordArchiveCheckpoint worktree_json tm) =
     with_chat s
       (if ch_archived s then Inr [ChatArchiveCheckpointRecorded worktree_json tm] else Inr [])"
| "decide_chat s (UnarchiveChat tm worktree) =
     with_chat s (if ch_archived s then Inr [ChatUnarchived tm worktree] else Inr [])"
| "decide_chat s (RequestDeleteChat tm) =
     with_chat s (if ch_deleteRequested s then Inr [] else Inr [ChatDeleteRequested tm])"
| "decide_chat s (DeleteChat tm) = with_chat s (Inr [ChatDeleted tm])"

section \<open>Invariant\<close>

definition chat_inv :: "chat_state \<Rightarrow> bool" where
  "chat_inv s \<longleftrightarrow>
     (ch_exists s \<longrightarrow>
        ch_chatId s \<noteq> None \<and> ch_projectId s \<noteq> None \<and> (\<exists>t. ch_title s = Some t \<and> t \<noteq> '''')) \<and>
     (\<not> ch_exists s \<longrightarrow> s = initial_chat_state) \<and>
     (ch_archived s \<longrightarrow> \<not> ch_archiveRequested s) \<and>
     (ch_archivedWorktreeJson s \<noteq> None \<longrightarrow> ch_archived s) \<and>
     (ch_deleted s \<longrightarrow> \<not> ch_deleteRequested s)"

lemma chat_version_evolve [simp]: "ch_version (evolve_chat s e) = ch_version s + 1"
  by (cases e) simp_all

lemma with_chat_Inr:
  "with_chat s d = Inr es \<longleftrightarrow> ch_exists s \<and> \<not> ch_deleted s \<and> d = Inr es"
  by (simp add: with_chat_def)

lemma chat_inv_decide:
  assumes "chat_inv s" "decide_chat s c = Inr es"
  shows "chat_inv (foldl evolve_chat s es)"
proof (cases c)
  case (CreateChat x)
  with assms show ?thesis
    by (auto simp: chat_inv_def decide_CreateChat_def Let_def initial_chat_state_def split: if_splits)
next
  case (RenameChat t p tm)
  with assms show ?thesis
    by (auto simp: chat_inv_def with_chat_Inr decide_RenameChat_def Let_def split: if_splits)
qed (use assms in \<open>auto simp: chat_inv_def with_chat_Inr split: if_splits\<close>)

interpretation chat_agg: aggregate_invariant initial_chat_state evolve_chat decide_chat ch_version chat_inv
proof unfold_locales
  show "ch_version initial_chat_state = 0" by (simp add: initial_chat_state_def)
  show "chat_inv initial_chat_state" by (simp add: chat_inv_def initial_chat_state_def)
qed (simp_all add: chat_inv_decide)

abbreviation chat_reachable :: "chat_event list \<Rightarrow> chat_state \<Rightarrow> bool" where
  "chat_reachable \<equiv> reachable initial_chat_state evolve_chat decide_chat"

section \<open>Properties\<close>

definition demo_chat :: chat_created where
  "demo_chat =
     \<lparr>cc_chatId = ''c1'', cc_projectId = ''p1'', cc_worktreeId = None, cc_title = '' chat '',
      cc_titleProvenance = Some ProvenancePending, cc_originSessionId = None, cc_lastReadAt = None,
      cc_createdAt = 1\<rparr>"

definition demo_chat_state :: chat_state where
  "demo_chat_state =
     (case decide_chat initial_chat_state (CreateChat demo_chat) of
        Inr es \<Rightarrow> foldl evolve_chat initial_chat_state es | Inl _ \<Rightarrow> initial_chat_state)"

lemma demo_chat_decided:
  "decide_chat initial_chat_state (CreateChat demo_chat) =
     Inr [ChatCreated (demo_chat\<lparr>cc_title := ''chat'', cc_titleProvenance := Some ProvenancePending\<rparr>)]"
  by code_simp

lemma demo_chat_reachable: "\<exists>hist. chat_reachable hist demo_chat_state"
  unfolding demo_chat_state_def demo_chat_decided sum.case
  using reach_step [where decider = decide_chat and s = initial_chat_state and c = "CreateChat demo_chat",
      OF reach_start demo_chat_decided] by blast

text \<open>C38: A chat that accepted commands lead to has a project and a non-empty
  title, an archived chat has no pending archive request, only an archived chat keeps an
  archived worktree, a deleted chat has no pending delete request, and its version is the
  number of its events.\<close>

theorem chat_wellformed:
  assumes "chat_reachable hist s"
  shows "chat_inv s \<and> ch_version s = int (length hist) \<and> s = evolve_chats initial_chat_state hist"
  using chat_agg.invar_reachable [OF assms] chat_agg.count_reachable [OF assms]
    reachable_replay [OF assms]
  by (simp add: evolve_chats_def)

theorem chat_wellformed_witness:
  "\<exists>hist. chat_inv demo_chat_state \<and> ch_version demo_chat_state = int (length hist) \<and>
     demo_chat_state = evolve_chats initial_chat_state hist"
  using demo_chat_reachable chat_wellformed by blast

fun redeliverable_chat :: "chat_command \<Rightarrow> bool" where
  "redeliverable_chat (CreateChat c) = False"
| "redeliverable_chat (RecordArchiveCheckpoint worktree_json tm) = False"
| "redeliverable_chat (DeleteChat tm) = False"
| "redeliverable_chat _ = True"

text \<open>Delivering any chat command twice, except the creation, the deletion
  and the recording of a checkpoint, adds no event the second time.\<close>

theorem chat_redelivery:
  assumes "redeliverable_chat c" "decide_chat s c = Inr es"
  shows "decide_chat (foldl evolve_chat s es) c = Inr []"
proof (cases c)
  case (RenameChat t p tm)
  with assms show ?thesis
    by (auto simp: with_chat_def decide_RenameChat_def title_provenance_or_manual_def Let_def
        split: if_splits)
qed (use assms in \<open>auto simp: with_chat_def split: if_splits\<close>)

theorem chat_redelivery_witness:
  "decide_chat (foldl evolve_chat demo_chat_state [ChatRead 9]) (MarkChatRead 9) = Inr []"
  by (rule chat_redelivery) code_simp+

end
