(* ===== verification/Execution_Steps.thy ===== *)
theory Execution_Steps
  imports Contracts
begin

text \<open>
  The execution tree of a turn: \<open>projectors/execution-steps.ts\<close> of \<open>packages/domain/src\<close>. A
  tool call opens a step, its result or a child summary closes it, and the tree keeps the 200
  newest steps. \<open>collate\<close> is \<open>localeCompare\<close>, whose order depends on the locale of the host.

  A step a message leaves alone is the object it was: \<open>evolve_execution_step\<close> returns \<open>None\<close>
  where the code returns \<open>previous\<close>, and the new step otherwise.
\<close>

section \<open>Array.prototype.sort\<close>

text \<open>The stable sort by a comparator: \<open>a\<close> may stay before \<open>b\<close> when \<open>cmp a b \<le> 0\<close>.\<close>

fun insert_by :: "('a \<Rightarrow> 'a \<Rightarrow> int) \<Rightarrow> 'a \<Rightarrow> 'a list \<Rightarrow> 'a list" where
  "insert_by cmp x [] = [x]"
| "insert_by cmp x (y # ys) = (if cmp x y \<le> 0 then x # y # ys else y # insert_by cmp x ys)"

fun sort_by :: "('a \<Rightarrow> 'a \<Rightarrow> int) \<Rightarrow> 'a list \<Rightarrow> 'a list" where
  "sort_by cmp [] = []"
| "sort_by cmp (x # xs) = insert_by cmp x (sort_by cmp xs)"

lemma set_insert_by [simp]: "set (insert_by cmp x xs) = insert x (set xs)"
  by (induction xs) auto

lemma length_insert_by [simp]: "length (insert_by cmp x xs) = Suc (length xs)"
  by (induction xs) auto

lemma set_sort_by [simp]: "set (sort_by cmp xs) = set xs"
  by (induction xs) auto

lemma length_sort_by [simp]: "length (sort_by cmp xs) = length xs"
  by (induction xs) auto

lemma distinct_map_insert_by: "distinct (map f (insert_by cmp x xs)) \<longleftrightarrow> distinct (map f (x # xs))"
  by (induction xs) auto

lemma set_map_sort_by: "set (map f (sort_by cmp xs)) = set (map f xs)"
  by simp

lemma distinct_map_sort_by [simp]: "distinct (map f (sort_by cmp xs)) \<longleftrightarrow> distinct (map f xs)"
  by (induction xs) (auto simp: distinct_map_insert_by)

text \<open>Sorting by an integer key.\<close>

lemma sorted_insert_by:
  "sorted (map f xs) \<Longrightarrow> sorted (map f (insert_by (\<lambda>a b. f a - f b) x xs :: 'a list))"
  for f :: "'a \<Rightarrow> int"
  by (induction xs) auto

lemma sorted_sort_by: "sorted (map f (sort_by (\<lambda>a b. f a - f b) xs))"
  for f :: "'a \<Rightarrow> int"
  by (induction xs) (simp_all add: sorted_insert_by)

section \<open>Steps\<close>

datatype step_kind = StepTool | StepBackground | StepSubagent

datatype step_status = StepRunning | StepCompleted | StepFailed | StepCancelled

record execution_step =
  xs_id :: string
  xs_turnId :: string
  xs_attemptId :: string
  xs_itemId :: string
  xs_parentItemId :: "string option"
  xs_kind :: step_kind
  xs_label :: string
  xs_status :: step_status
  xs_childSessionId :: "string option"
  xs_nativeChildId :: "string option"
  xs_rootCompletedAt :: "int option"
  xs_createdAt :: int
  xs_updatedAt :: int

record execution_identity =
  xi_sessionId :: string
  xi_turnId :: string
  xi_attemptId :: string
  xi_at :: int

fun execution_step_item :: "message_content \<Rightarrow> string option" where
  "execution_step_item (ToolUseContent u) = Some (tu_itemId u)"
| "execution_step_item (ToolResultContent r) = Some (tr_itemId r)"
| "execution_step_item (SubagentSummaryContent m) = Some (ss_itemId m)"
| "execution_step_item _ = None"

text \<open>\<open>content.subagent?.childSessionId ?? content.backgroundTask?.taskId ?? null\<close>\<close>

definition native_child :: "tool_use \<Rightarrow> string option" where
  "native_child u = or_opt (map_option sub_childSessionId (tu_subagent u)) (tu_backgroundTask u)"

definition child_session :: "string \<Rightarrow> tool_use \<Rightarrow> string option" where
  "child_session step_id u = (if tu_subagent u = None then None else Some (''native:'' @ step_id))"

definition opened_step :: "execution_identity \<Rightarrow> tool_use \<Rightarrow> execution_step" where
  "opened_step i u =
     (let key = json_array (map json_string
            [xi_sessionId i, xi_turnId i, xi_attemptId i, tu_itemId u]) in
      \<lparr>xs_id = key, xs_turnId = xi_turnId i, xs_attemptId = xi_attemptId i,
       xs_itemId = tu_itemId u, xs_parentItemId = tu_parentItemId u,
       xs_kind =
         (if tu_subagent u \<noteq> None then StepSubagent
          else if tu_backgroundTask u \<noteq> None then StepBackground else StepTool),
       xs_label = tu_tool u, xs_status = StepRunning, xs_childSessionId = child_session key u,
       xs_nativeChildId = native_child u, xs_rootCompletedAt = None, xs_createdAt = xi_at i,
       xs_updatedAt = xi_at i\<rparr>)"

definition promoted_step :: "execution_step \<Rightarrow> execution_identity \<Rightarrow> tool_use \<Rightarrow> execution_step" where
  "promoted_step p i u =
     p\<lparr>xs_kind := (if tu_subagent u \<noteq> None then StepSubagent else StepBackground),
       xs_status := StepRunning, xs_nativeChildId := native_child u,
       xs_childSessionId := child_session (xs_id p) u, xs_updatedAt := xi_at i\<rparr>"

fun evolve_execution_step ::
  "execution_step option \<Rightarrow> execution_identity \<Rightarrow> message_content \<Rightarrow> execution_step option" where
  "evolve_execution_step previous i (ToolUseContent u) =
     (case previous of
        None \<Rightarrow> Some (opened_step i u)
      | Some p \<Rightarrow>
          if xs_kind p = StepTool \<and> (tu_subagent u \<noteq> None \<or> tu_backgroundTask u \<noteq> None)
          then Some (promoted_step p i u) else None)"
| "evolve_execution_step previous i (SubagentSummaryContent m) =
     (case previous of
        None \<Rightarrow> None
      | Some p \<Rightarrow>
          if xs_status p \<noteq> StepRunning then None
          else Some (p\<lparr>xs_status := (if ss_isError m then StepFailed else StepCompleted),
                       xs_updatedAt := xi_at i\<rparr>))"
| "evolve_execution_step previous i (ToolResultContent r) =
     (case previous of
        None \<Rightarrow> None
      | Some p \<Rightarrow>
          if xs_status p \<noteq> StepRunning \<or> xs_kind p = StepSubagent then None
          else Some (p\<lparr>xs_status :=
                         (if tr_backgroundOutcome r = Some BackgroundStopped then StepCancelled
                          else if tr_isError r then StepFailed else StepCompleted),
                       xs_updatedAt := xi_at i\<rparr>))"
| "evolve_execution_step previous i (SubagentProgressContent g) =
     (case previous of
        None \<Rightarrow> None
      | Some p \<Rightarrow>
          if xs_status p \<noteq> StepRunning then None
          else Some (p\<lparr>xs_rootCompletedAt :=
                         (if sp_rootCompleted g = Some True
                          then Some (or_else (xs_rootCompletedAt p) (xi_at i))
                          else xs_rootCompletedAt p),
                       xs_updatedAt := xi_at i\<rparr>))"
| "evolve_execution_step previous i _ = None"

text \<open>\<open>findIndex\<close>: the position of the first element that satisfies the test.\<close>

fun find_index :: "('a \<Rightarrow> bool) \<Rightarrow> 'a list \<Rightarrow> nat option" where
  "find_index P [] = None"
| "find_index P (x # xs) = (if P x then Some 0 else map_option Suc (find_index P xs))"

lemma find_index_Some: "find_index P xs = Some i \<Longrightarrow> i < length xs \<and> P (xs ! i)"
  by (induction xs arbitrary: i) (auto split: if_splits)

lemma find_index_None: "find_index P xs = None \<longleftrightarrow> (\<forall>x \<in> set xs. \<not> P x)"
  by (induction xs) auto

definition step_matches :: "execution_identity \<Rightarrow> message_content \<Rightarrow> execution_step \<Rightarrow> bool" where
  "step_matches i content step =
     (xs_turnId step = xi_turnId i \<and> xs_attemptId step = xi_attemptId i \<and>
      (case execution_step_item content of
         Some item \<Rightarrow> xs_itemId step = item
       | None \<Rightarrow>
           (case content of
              SubagentProgressContent g \<Rightarrow> xs_nativeChildId step = Some (sp_childSessionId g)
            | _ \<Rightarrow> False)))"

type_synonym collation = "string \<Rightarrow> string \<Rightarrow> int"

text \<open>\<open>b.createdAt - a.createdAt || a.id.localeCompare(b.id)\<close>\<close>

definition step_order :: "collation \<Rightarrow> execution_step \<Rightarrow> execution_step \<Rightarrow> int" where
  "step_order collate a b =
     (let d = xs_createdAt b - xs_createdAt a in
      if d \<noteq> 0 then d else collate (xs_id a) (xs_id b))"

definition apply_execution_message ::
  "collation \<Rightarrow> execution_step list \<Rightarrow> execution_identity \<Rightarrow> message_content \<Rightarrow> execution_step list"
where
  "apply_execution_message collate steps i content =
     (let index = find_index (step_matches i content) steps;
          previous = map_option (\<lambda>n. steps ! n) index in
      if execution_step_item content = None \<and> content_tag content \<noteq> ''subagent_progress'' then steps
      else case evolve_execution_step previous i content of
        None \<Rightarrow> steps
      | Some new_step \<Rightarrow>
          let updated = (case index of None \<Rightarrow> steps @ [new_step] | Some n \<Rightarrow> steps[n := new_step]) in
          take 200 (sort_by (step_order collate) updated))"

definition settle_execution_steps ::
  "execution_step list \<Rightarrow> string \<Rightarrow> step_status \<Rightarrow> int \<Rightarrow> execution_step list" where
  "settle_execution_steps steps turn_id status' tm =
     map (\<lambda>step. if xs_turnId step = turn_id \<and> xs_status step = StepRunning
                 then step\<lparr>xs_status := status', xs_updatedAt := tm\<rparr> else step)
       steps"

section \<open>Bounds and settlement\<close>

lemma apply_execution_message_bound:
  "length steps \<le> 200 \<Longrightarrow> length (apply_execution_message collate steps i content) \<le> 200"
  unfolding apply_execution_message_def Let_def
  by (cases "evolve_execution_step
        (map_option (\<lambda>n. steps ! n) (find_index (step_matches i content) steps)) i content")
    (simp_all only: if_cancel option.case length_take, simp_all)

lemma settle_length [simp]: "length (settle_execution_steps steps t st tm) = length steps"
  by (simp add: settle_execution_steps_def)

lemma settle_none_running:
  assumes "status' \<noteq> StepRunning" "step \<in> set (settle_execution_steps steps t status' tm)"
    "xs_turnId step = t"
  shows "xs_status step \<noteq> StepRunning"
proof -
  from assms(2) obtain x where "step = (if xs_turnId x = t \<and> xs_status x = StepRunning
      then x\<lparr>xs_status := status', xs_updatedAt := tm\<rparr> else x)"
    unfolding settle_execution_steps_def set_map by blast
  with assms(1,3) show ?thesis
    by (cases "xs_turnId x = t \<and> xs_status x = StepRunning") simp_all
qed

text \<open>A closed step keeps its status, except a tool call that turns out to have a child.\<close>

lemma closed_step_stays:
  assumes "xs_status p \<noteq> StepRunning" "evolve_execution_step (Some p) i content = Some p'"
  shows "xs_kind p = StepTool \<and> content_tag content = ''tool_use''"
  using assms by (cases content) (auto split: if_splits)

end
