(* ===== verification/Timeline.thy ===== *)
theory Timeline
  imports Execution_Steps Session_Types
begin

text \<open>
  The timeline a client shows: \<open>projectors/timeline-projection.ts\<close>, which translates a session
  event, and \<open>projectors/timeline-reducer.ts\<close>, which folds the translated events into the
  projection, both in \<open>packages/domain/src\<close>.

  The decoders of JSON text are parameters: \<open>dec\<close> for message content, \<open>dec_input\<close> for a queued
  composer input (the input and the actor it carries) and \<open>dec_permission\<close> for a permission
  request. \<open>Class.make\<close> of the schema library builds the record it is given.
\<close>

section \<open>Projection\<close>

datatype timeline_phase =
  TimelineRequested | TimelineStarting | TimelineRunning | TimelineInterruptRequested
| TimelineInterruptAcknowledged

datatype timeline_turn_status =
  TurnIsPreparing | TurnIsQueued | TurnIsStarting | TurnIsRunning | TurnIsFinalizing
| TurnIsCompleted | TurnIsInterrupted | TurnIsFailed | TurnIsCancelled | TurnIsRolledBack

record timeline_attempt =
  ta_id :: string
  ta_ordinal :: int
  ta_reason :: attempt_reason

record timeline_turn =
  tt_id :: string
  tt_ordinal :: int
  tt_status :: timeline_turn_status
  tt_phase :: timeline_phase
  tt_attempt :: timeline_attempt
  tt_providerThreadId :: "string option"
  tt_requestedAt :: int
  tt_completedAt :: "int option"

record timeline_message =
  tm_id :: string
  tm_sessionId :: string
  tm_role :: message_role
  tm_content :: message_content
  tm_createdAt :: int

record permission_request =
  pr_id :: string
  pr_sessionId :: string
  pr_kind :: json
  pr_requestedAt :: int
  pr_forcePrompt :: bool
  pr_expired :: bool

text \<open>A plan or a question can carry a recovery state, a permission carries it in its request.\<close>

datatype interaction =
  PlanInteraction string int "expiry_reason option"
| QuestionInteraction string bool "user_question list" int
| PermissionInteraction string permission_request

record queued_message =
  qm_id :: string
  qm_sessionId :: string
  qm_input :: json
  qm_actor :: "json option"
  qm_position :: int
  qm_createdAt :: int
  qm_updatedAt :: int
  qm_ready :: bool

record queue_state =
  qs_items :: "queued_message list"
  qs_paused :: bool

datatype runtime_state =
  RuntimeIdle | RuntimeStarting | RuntimeRunning | RuntimeFinalizing | RuntimeBlocked | RuntimeStalled
| RuntimeUnavailable

record runtime_observation =
  ro_state :: runtime_state
  ro_observedAt :: int
  ro_attemptId :: "string option"
  ro_lastProviderActivityAt :: "int option"

record timeline_projection =
  tp_messages :: "timeline_message list"
  tp_executionSteps :: "execution_step list option"
  tp_executionStepsTruncated :: "bool option"
  tp_runtimeObservation :: "runtime_observation option"
  tp_olderMessageSequence :: "int option option"
  tp_status :: session_status
  tp_activeTurn :: "timeline_turn option"
  tp_turnCount :: int
  tp_queue :: queue_state
  tp_permissionMode :: permission_mode
  tp_runtimeMode :: runtime_mode
  tp_interactions :: "interaction list"

datatype (plugins only: code size) timeline_event =
  TlNoop
| TlMessagePersisted timeline_message "string option option"
| TlStatusSet session_status
| TlTurnStarted timeline_turn
| TlTurnUpdated timeline_turn "int option"
| TlTurnPhaseSet string timeline_phase
| TlTranscriptRolledBack "string list option" "int option" "string list"
| TlTurnFinalizing string
| TlTurnSettled string settlement_outcome "int option"
| TlPermissionModeSet permission_mode
| TlRuntimeModeSet runtime_mode
| TlPermissionRequested permission_request
| TlPermissionResolved string
| TlPermissionExpired string
| TlQuestionExpired string
| TlPlanExpired string expiry_reason
| TlQuestionResolved string
| TlQueuePausedSet bool
| TlQueueEnqueued queued_message
| TlQueueUpdated string json int bool
| TlQueueRemoved string
| TlQueueReordered "string list"

definition empty_timeline_projection :: timeline_projection where
  "empty_timeline_projection =
     \<lparr>tp_messages = [], tp_executionSteps = None, tp_executionStepsTruncated = None,
      tp_runtimeObservation = None, tp_olderMessageSequence = Some None, tp_status = StatusIdle,
      tp_activeTurn = None, tp_turnCount = 0,
      tp_queue = \<lparr>qs_items = [], qs_paused = False\<rparr>, tp_permissionMode = PermissionDefault,
      tp_runtimeMode = ModeApprovalRequired, tp_interactions = []\<rparr>"

section \<open>Interactions\<close>

datatype interaction_tag = TagPlan | TagQuestion | TagPermission

fun interaction_key :: "interaction \<Rightarrow> interaction_tag \<times> string" where
  "interaction_key (PlanInteraction i tm r) = (TagPlan, i)"
| "interaction_key (QuestionInteraction i e qs tm) = (TagQuestion, i)"
| "interaction_key (PermissionInteraction i r) = (TagPermission, i)"

definition upsert_interaction :: "interaction list \<Rightarrow> interaction \<Rightarrow> interaction list" where
  "upsert_interaction interactions interaction =
     (case find_index (\<lambda>x. interaction_key x = interaction_key interaction) interactions of
        None \<Rightarrow> interactions @ [interaction]
      | Some n \<Rightarrow> interactions[n := interaction])"

definition remove_interaction ::
  "interaction list \<Rightarrow> interaction_tag \<Rightarrow> string \<Rightarrow> interaction list" where
  "remove_interaction interactions tag key = filter (\<lambda>x. interaction_key x \<noteq> (tag, key)) interactions"

definition has_interaction :: "interaction list \<Rightarrow> interaction_tag \<Rightarrow> string \<Rightarrow> bool" where
  "has_interaction interactions tag key = list_ex (\<lambda>x. interaction_key x = (tag, key)) interactions"

section \<open>Messages\<close>

fun result_of :: "string \<Rightarrow> message_content \<Rightarrow> bool" where
  "result_of item (ToolResultContent r) = (tr_itemId r = item)"
| "result_of item _ = False"

text \<open>The interactions after a message; \<open>known\<close> says whether its id was in the projection.\<close>

fun message_interactions ::
  "bool \<Rightarrow> timeline_message list \<Rightarrow> int \<Rightarrow> message_content \<Rightarrow> interaction list \<Rightarrow> interaction list"
where
  "message_interactions known messages tm (ToolUseContent u) interactions =
     (if tu_tool u = ''ExitPlanMode'' then
        if known \<or> has_interaction interactions TagPlan (tu_itemId u) \<or>
           list_ex (\<lambda>m. result_of (tu_itemId u) (tm_content m)) messages
        then interactions
        else upsert_interaction interactions (PlanInteraction (tu_itemId u) tm None)
      else interactions)"
| "message_interactions known messages tm (ToolResultContent r) interactions =
     remove_interaction interactions TagPlan (tr_itemId r)"
| "message_interactions known messages tm (UserQuestionContent item questions parent) interactions =
     (if known \<or> has_interaction interactions TagQuestion item then interactions
      else upsert_interaction interactions (QuestionInteraction item False questions tm))"
| "message_interactions known messages tm (UserQuestionAnswerContent res item answers parent)
       interactions =
     remove_interaction interactions TagQuestion item"
| "message_interactions known messages tm _ interactions = interactions"

fun truncates_steps ::
  "execution_step list option \<Rightarrow> timeline_turn option \<Rightarrow> message_content \<Rightarrow> bool" where
  "truncates_steps steps turn (ToolUseContent u) =
     (length (or_else steps []) \<ge> 200 \<and>
      \<not> list_ex
          (\<lambda>step. Some (xs_turnId step) = map_option tt_id turn \<and>
             Some (xs_attemptId step) = map_option (ta_id \<circ> tt_attempt) turn \<and>
             xs_itemId step = tu_itemId u)
          (or_else steps []))"
| "truncates_steps steps turn _ = False"

definition apply_message ::
  "collation \<Rightarrow> timeline_projection \<Rightarrow> timeline_message \<Rightarrow> string option option \<Rightarrow> timeline_projection"
where
  "apply_message collate p m turn_id =
     (let index = find_index (\<lambda>x. tm_id x = tm_id m) (tp_messages p);
          messages =
            (case index of None \<Rightarrow> tp_messages p @ [m] | Some n \<Rightarrow> (tp_messages p)[n := m]);
          content = tm_content m;
          steps =
            (case tp_activeTurn p of
               None \<Rightarrow> tp_executionSteps p
             | Some turn \<Rightarrow>
                 if turn_id \<noteq> None \<and> turn_id \<noteq> Some (Some (tt_id turn)) then tp_executionSteps p
                 else Some (apply_execution_message collate (or_else (tp_executionSteps p) [])
                   \<lparr>xi_sessionId = tm_sessionId m, xi_turnId = tt_id turn,
                    xi_attemptId = ta_id (tt_attempt turn), xi_at = tm_createdAt m\<rparr>
                   content)) in
      p\<lparr>tp_messages := messages, tp_executionSteps := steps,
        tp_executionStepsTruncated :=
          (if tp_executionStepsTruncated p = Some True then Some True
           else Some (truncates_steps (tp_executionSteps p) (tp_activeTurn p) content)),
        tp_interactions :=
          message_interactions (index \<noteq> None) messages (tm_createdAt m) content
            (tp_interactions p)\<rparr>)"

section \<open>The reducer\<close>

text \<open>\<open>projection.activeTurn?.id === turnId\<close>\<close>

definition active_is :: "timeline_projection \<Rightarrow> string \<Rightarrow> bool" where
  "active_is p turn_id = (map_option tt_id (tp_activeTurn p) = Some turn_id)"

definition apply_StatusSet :: "timeline_projection \<Rightarrow> session_status \<Rightarrow> timeline_projection" where
  "apply_StatusSet p status' =
     p\<lparr>tp_status := status',
       tp_activeTurn :=
         map_option
           (\<lambda>turn. if status' = StatusRunning \<and> tt_status turn = TurnIsStarting
                   then turn\<lparr>tt_status := TurnIsRunning\<rparr> else turn)
           (tp_activeTurn p)\<rparr>"

definition apply_TurnUpdated ::
  "timeline_projection \<Rightarrow> timeline_turn \<Rightarrow> int option \<Rightarrow> timeline_projection" where
  "apply_TurnUpdated p turn updated =
     (case tp_activeTurn p of
        None \<Rightarrow> p
      | Some active \<Rightarrow>
          if tt_id active \<noteq> tt_id turn then p
          else
            p\<lparr>tp_executionSteps :=
                (if ta_id (tt_attempt active) = ta_id (tt_attempt turn) then tp_executionSteps p
                 else Some (settle_execution_steps (or_else (tp_executionSteps p) []) (tt_id turn)
                   StepCancelled (or_else updated (tt_requestedAt turn)))),
              tp_activeTurn := Some turn\<rparr>)"

definition apply_TranscriptRolledBack ::
  "timeline_projection \<Rightarrow> string list option \<Rightarrow> int option \<Rightarrow> string list \<Rightarrow> timeline_projection"
where
  "apply_TranscriptRolledBack p turn_ids tm removed_ids =
     p\<lparr>tp_executionSteps :=
         map_option
           (map (\<lambda>step. if xs_turnId step \<in> set (or_else turn_ids [])
                        then step\<lparr>xs_status := StepCancelled,
                                  xs_updatedAt := or_else tm (xs_updatedAt step)\<rparr>
                        else step))
           (tp_executionSteps p),
       tp_messages := filter (\<lambda>m. tm_id m \<notin> set removed_ids) (tp_messages p),
       tp_interactions := []\<rparr>"

definition apply_TurnSettled ::
  "timeline_projection \<Rightarrow> string \<Rightarrow> settlement_outcome \<Rightarrow> int option \<Rightarrow> timeline_projection" where
  "apply_TurnSettled p turn_id outcome tm =
     p\<lparr>tp_status := StatusIdle,
       tp_executionSteps :=
         Some (settle_execution_steps (or_else (tp_executionSteps p) []) turn_id
           (if outcome = OutcomeError then StepFailed else StepCancelled) (or_else tm 0)),
       tp_activeTurn := None\<rparr>"

fun expire_permission :: "string \<Rightarrow> interaction \<Rightarrow> interaction" where
  "expire_permission key (PermissionInteraction i r) =
     (if i = key then PermissionInteraction i (r\<lparr>pr_expired := True\<rparr>)
      else PermissionInteraction i r)"
| "expire_permission key x = x"

fun expire_plan :: "string \<Rightarrow> expiry_reason \<Rightarrow> interaction \<Rightarrow> interaction" where
  "expire_plan key reason (PlanInteraction i tm r) =
     (if i = key then PlanInteraction i tm (Some reason) else PlanInteraction i tm r)"
| "expire_plan key reason x = x"

fun expire_question :: "string \<Rightarrow> interaction \<Rightarrow> interaction" where
  "expire_question key (QuestionInteraction i e qs tm) =
     (if i = key then QuestionInteraction i True qs tm else QuestionInteraction i e qs tm)"
| "expire_question key x = x"

definition with_items :: "timeline_projection \<Rightarrow> queued_message list \<Rightarrow> timeline_projection" where
  "with_items p items = p\<lparr>tp_queue := (tp_queue p)\<lparr>qs_items := items\<rparr>\<rparr>"

definition by_position :: "queued_message \<Rightarrow> queued_message \<Rightarrow> int" where
  "by_position a b = qm_position a - qm_position b"

definition apply_QueueEnqueued :: "timeline_projection \<Rightarrow> queued_message \<Rightarrow> timeline_projection" where
  "apply_QueueEnqueued p item =
     (let items = qs_items (tp_queue p);
          replaced =
            (case find_index (\<lambda>x. qm_id x = qm_id item) items of
               None \<Rightarrow> items @ [item] | Some n \<Rightarrow> items[n := item]) in
      with_items p (sort_by by_position replaced))"

text \<open>\<open>new Map(ids.map((id, position) => [id, position]))\<close>: a later position of an id wins.\<close>

definition last_positions :: "string list \<Rightarrow> (string, int) jsmap" where
  "last_positions ids = rev (zip ids (map int [0..<length ids]))"

definition apply_QueueReordered :: "timeline_projection \<Rightarrow> string list \<Rightarrow> timeline_projection" where
  "apply_QueueReordered p ids =
     with_items p
       (sort_by by_position
          (map (\<lambda>item. item\<lparr>qm_position :=
                  or_else (map_of (last_positions ids) (qm_id item)) (qm_position item)\<rparr>)
             (qs_items (tp_queue p))))"

primrec apply_timeline_event ::
  "collation \<Rightarrow> timeline_projection \<Rightarrow> timeline_event \<Rightarrow> timeline_projection" where
  "apply_timeline_event collate p TlNoop = p"
| "apply_timeline_event collate p (TlMessagePersisted m turn_id) = apply_message collate p m turn_id"
| "apply_timeline_event collate p (TlStatusSet status') = apply_StatusSet p status'"
| "apply_timeline_event collate p (TlTurnStarted turn) =
     p\<lparr>tp_activeTurn := Some turn, tp_turnCount := max (tp_turnCount p) (tt_ordinal turn)\<rparr>"
| "apply_timeline_event collate p (TlTurnUpdated turn tm) = apply_TurnUpdated p turn tm"
| "apply_timeline_event collate p (TlTurnPhaseSet turn_id phase) =
     (if active_is p turn_id
      then p\<lparr>tp_activeTurn := map_option (\<lambda>t. t\<lparr>tt_phase := phase\<rparr>) (tp_activeTurn p)\<rparr> else p)"
| "apply_timeline_event collate p (TlTranscriptRolledBack turn_ids tm removed_ids) =
     apply_TranscriptRolledBack p turn_ids tm removed_ids"
| "apply_timeline_event collate p (TlTurnFinalizing turn_id) =
     (if active_is p turn_id
      then p\<lparr>tp_activeTurn := map_option (\<lambda>t. t\<lparr>tt_status := TurnIsFinalizing\<rparr>) (tp_activeTurn p)\<rparr>
      else p)"
| "apply_timeline_event collate p (TlTurnSettled turn_id outcome tm) =
     apply_TurnSettled p turn_id outcome tm"
| "apply_timeline_event collate p (TlPermissionModeSet mode) = p\<lparr>tp_permissionMode := mode\<rparr>"
| "apply_timeline_event collate p (TlRuntimeModeSet mode) = p\<lparr>tp_runtimeMode := mode\<rparr>"
| "apply_timeline_event collate p (TlPermissionRequested r) =
     p\<lparr>tp_interactions :=
         upsert_interaction (tp_interactions p) (PermissionInteraction (pr_id r) r)\<rparr>"
| "apply_timeline_event collate p (TlPermissionResolved request_id) =
     p\<lparr>tp_interactions := remove_interaction (tp_interactions p) TagPermission request_id\<rparr>"
| "apply_timeline_event collate p (TlPermissionExpired request_id) =
     p\<lparr>tp_interactions := map (expire_permission request_id) (tp_interactions p)\<rparr>"
| "apply_timeline_event collate p (TlQuestionExpired item) =
     p\<lparr>tp_interactions := map (expire_question item) (tp_interactions p)\<rparr>"
| "apply_timeline_event collate p (TlPlanExpired item reason) =
     p\<lparr>tp_interactions := map (expire_plan item reason) (tp_interactions p)\<rparr>"
| "apply_timeline_event collate p (TlQuestionResolved item) =
     p\<lparr>tp_interactions := remove_interaction (tp_interactions p) TagQuestion item\<rparr>"
| "apply_timeline_event collate p (TlQueuePausedSet paused) =
     p\<lparr>tp_queue := (tp_queue p)\<lparr>qs_paused := paused\<rparr>\<rparr>"
| "apply_timeline_event collate p (TlQueueEnqueued item) = apply_QueueEnqueued p item"
| "apply_timeline_event collate p (TlQueueUpdated queue_id input tm ready) =
     with_items p
       (map (\<lambda>item. if qm_id item = queue_id
                    then item\<lparr>qm_input := input, qm_updatedAt := tm, qm_ready := ready\<rparr> else item)
          (qs_items (tp_queue p)))"
| "apply_timeline_event collate p (TlQueueRemoved queue_id) =
     with_items p (filter (\<lambda>item. qm_id item \<noteq> queue_id) (qs_items (tp_queue p)))"
| "apply_timeline_event collate p (TlQueueReordered ids) = apply_QueueReordered p ids"

section \<open>Translation of session events\<close>

record timeline_decoders =
  dec_content :: "string \<Rightarrow> message_content option"
  dec_input :: "string \<Rightarrow> (json \<times> json option) option"
  dec_permission :: "string \<Rightarrow> permission_request option"

definition decode_role :: "string \<Rightarrow> message_role option" where
  "decode_role r =
     (if r = ''user'' then Some RoleUser
      else if r = ''assistant'' then Some RoleAssistant
      else if r = ''system'' then Some RoleSystem
      else if r = ''tool'' then Some RoleTool
      else None)"

definition translate_message ::
  "timeline_decoders \<Rightarrow> string \<Rightarrow> message_fields \<Rightarrow> timeline_event" where
  "translate_message d sid m =
     (case (dec_content d (mf_contentJson m), decode_role (mf_role m)) of
        (Some content, Some role) \<Rightarrow>
          TlMessagePersisted
            \<lparr>tm_id = mf_messageId m, tm_sessionId = sid, tm_role = role, tm_content = content,
             tm_createdAt = mf_createdAt m\<rparr>
            (Some (mf_turnId m))
      | _ \<Rightarrow> TlNoop)"

definition translate_TurnStarted ::
  "string \<Rightarrow> string \<Rightarrow> int \<Rightarrow> int option \<Rightarrow> string option \<Rightarrow> string option option \<Rightarrow> timeline_event"
where
  "translate_TurnStarted sid turn_id started_at ordinal attempt_id thread_id =
     TlTurnStarted
       \<lparr>tt_id = turn_id, tt_ordinal = or_else ordinal 0, tt_status = TurnIsStarting,
        tt_phase = TimelineRunning,
        tt_attempt =
          \<lparr>ta_id = or_else attempt_id (''attempt:turn:'' @ turn_id @ '':ordinal:1''),
           ta_ordinal = 1, ta_reason = ReasonInitial\<rparr>,
        tt_providerThreadId = map_option (scope_provider_thread_id sid) (or_null thread_id),
        tt_requestedAt = started_at, tt_completedAt = None\<rparr>"

definition translate_AttemptStarted :: "string \<Rightarrow> attempt_started \<Rightarrow> timeline_event" where
  "translate_AttemptStarted sid e =
     TlTurnUpdated
       \<lparr>tt_id = as_turnId e, tt_ordinal = as_turnOrdinal e, tt_status = TurnIsStarting,
        tt_phase = TimelineRunning,
        tt_attempt =
          \<lparr>ta_id = as_attemptId e, ta_ordinal = as_ordinal e, ta_reason = as_reason e\<rparr>,
        tt_providerThreadId = map_option (scope_provider_thread_id sid) (as_providerThreadId e),
        tt_requestedAt = as_turnRequestedAt e, tt_completedAt = None\<rparr>
       (Some (as_startedAt e))"

definition translate_QueuedTurnEnqueued ::
  "timeline_decoders \<Rightarrow> string \<Rightarrow> queued_turn \<Rightarrow> timeline_event" where
  "translate_QueuedTurnEnqueued d sid q =
     (case dec_input d (qt_inputJson q) of
        None \<Rightarrow> TlNoop
      | Some (input, actor) \<Rightarrow>
          TlQueueEnqueued
            \<lparr>qm_id = qt_queueId q, qm_sessionId = sid, qm_input = input, qm_actor = actor,
             qm_position = qt_position q, qm_createdAt = qt_createdAt q,
             qm_updatedAt = qt_createdAt q, qm_ready = qt_ready q\<rparr>)"

fun timeline_event_from_domain ::
  "timeline_decoders \<Rightarrow> string \<Rightarrow> session_event \<Rightarrow> timeline_event" where
  "timeline_event_from_domain d sid (MessagePersisted m) = translate_message d sid m"
| "timeline_event_from_domain d sid (SessionStatusSet status' tm) = TlStatusSet status'"
| "timeline_event_from_domain d sid (TurnStarted turn_id tm ordinal attempt_id thread_id) =
     translate_TurnStarted sid turn_id tm ordinal attempt_id thread_id"
| "timeline_event_from_domain d sid (AttemptStarted e) = translate_AttemptStarted sid e"
| "timeline_event_from_domain d sid (TurnInterruptRequested turn_id a tm) =
     TlTurnPhaseSet turn_id TimelineInterruptRequested"
| "timeline_event_from_domain d sid (TurnInterruptAcknowledged turn_id tm) =
     TlTurnPhaseSet turn_id TimelineInterruptAcknowledged"
| "timeline_event_from_domain d sid (TurnInterruptFailed turn_id reason tm) =
     TlTurnPhaseSet turn_id TimelineRunning"
| "timeline_event_from_domain d sid (TurnsRolledBack e) =
     TlTranscriptRolledBack (rb_rolledBackTurnIds e) (Some (rb_rolledBackAt e))
       (rb_removedMessageIds e)"
| "timeline_event_from_domain d sid (TurnFinalizationRequested turn_id a outcome tm) =
     TlTurnFinalizing turn_id"
| "timeline_event_from_domain d sid (TurnSettled turn_id outcome tm) =
     TlTurnSettled turn_id outcome (Some tm)"
| "timeline_event_from_domain d sid (SessionPermissionModeSet mode tm) = TlPermissionModeSet mode"
| "timeline_event_from_domain d sid (SessionRuntimeModeSet mode tm) = TlRuntimeModeSet mode"
| "timeline_event_from_domain d sid (PermissionRequested own request_id turn_id payload tm) =
     (case dec_permission d payload of None \<Rightarrow> TlNoop | Some r \<Rightarrow> TlPermissionRequested r)"
| "timeline_event_from_domain d sid (PermissionExpired request_id tm) = TlPermissionExpired request_id"
| "timeline_event_from_domain d sid (PermissionResolved request_id c cj tm) =
     TlPermissionResolved request_id"
| "timeline_event_from_domain d sid (PlanExpired item reason tm) = TlPlanExpired item reason"
| "timeline_event_from_domain d sid (QuestionExpired item tm) = TlQuestionExpired item"
| "timeline_event_from_domain d sid (QuestionResolved item tm) = TlQuestionResolved item"
| "timeline_event_from_domain d sid (SessionQueuePausedSet paused tm) = TlQueuePausedSet paused"
| "timeline_event_from_domain d sid (QueuedTurnEnqueued q) = translate_QueuedTurnEnqueued d sid q"
| "timeline_event_from_domain d sid (QueuedTurnUpdated queue_id input tm ready) =
     (case dec_input d input of
        None \<Rightarrow> TlNoop | Some (i, actor) \<Rightarrow> TlQueueUpdated queue_id i tm ready)"
| "timeline_event_from_domain d sid (QueuedTurnRemoved queue_id tm) = TlQueueRemoved queue_id"
| "timeline_event_from_domain d sid (QueuedTurnClaimed queue_id tm) = TlQueueRemoved queue_id"
| "timeline_event_from_domain d sid (QueuedTurnsReordered ids tm) = TlQueueReordered ids"
| "timeline_event_from_domain d sid _ = TlNoop"

end
