(* ===== verification/Timeline_Properties.thy ===== *)
theory Timeline_Properties
  imports Timeline Session_Safety
begin

text \<open>
  What the timeline promises: it stays well formed whatever events it is given, and the turn it
  shows as active is the current turn of the session whose log it folds.
\<close>

section \<open>Well-formed projections\<close>

definition timeline_wf :: "timeline_projection \<Rightarrow> bool" where
  "timeline_wf p \<longleftrightarrow>
     distinct (map tm_id (tp_messages p)) \<and>
     distinct (map interaction_key (tp_interactions p)) \<and>
     distinct (map qm_id (qs_items (tp_queue p))) \<and>
     sorted (map qm_position (qs_items (tp_queue p))) \<and>
     length (or_else (tp_executionSteps p) []) \<le> 200"

text \<open>\<open>findIndex\<close> and replace, or append: the keys stay distinct.\<close>

lemma upsert_distinct:
  assumes "distinct (map f xs)"
  shows "distinct (map f (case find_index (\<lambda>y. f y = f x) xs of None \<Rightarrow> xs @ [x] | Some n \<Rightarrow> xs[n := x]))"
proof (cases "find_index (\<lambda>y. f y = f x) xs")
  case None
  then have "f x \<notin> f ` set xs" unfolding find_index_None by force
  with assms show ?thesis by (simp add: None)
next
  case (Some n)
  from find_index_Some [OF Some] have "map f (xs[n := x]) = map f xs"
    by (metis list_update_id map_update nth_map)
  with Some assms show ?thesis by simp
qed

lemma upsert_interaction_distinct:
  "distinct (map interaction_key xs) \<Longrightarrow> distinct (map interaction_key (upsert_interaction xs x))"
  unfolding upsert_interaction_def by (rule upsert_distinct)

lemma filter_distinct: "distinct (map f xs) \<Longrightarrow> distinct (map f (filter P xs))"
  by (induction xs) auto

lemma filter_sorted: "sorted (map f xs) \<Longrightarrow> sorted (map f (filter P xs))"
  by (induction xs) auto

lemma expire_keys [simp]:
  "interaction_key (expire_permission i x) = interaction_key x"
  "interaction_key (expire_plan i r x) = interaction_key x"
  "interaction_key (expire_question i x) = interaction_key x"
  by (cases x; simp)+

lemma expire_keys_comp [simp]:
  "interaction_key \<circ> expire_permission i = interaction_key"
  "interaction_key \<circ> expire_plan i r = interaction_key"
  "interaction_key \<circ> expire_question i = interaction_key"
  by (simp_all add: fun_eq_iff)

lemma message_interactions_distinct:
  "distinct (map interaction_key xs) \<Longrightarrow>
   distinct (map interaction_key (message_interactions known ms tm c xs))"
  by (cases c) (simp_all add: upsert_interaction_distinct remove_interaction_def filter_distinct)

lemma apply_message_wf:
  assumes "timeline_wf p"
  shows "timeline_wf (apply_message collate p m turn_id)"
proof -
  from assms have wf: "distinct (map tm_id (tp_messages p))"
    "distinct (map interaction_key (tp_interactions p))"
    "length (or_else (tp_executionSteps p) []) \<le> 200"
    by (simp_all add: timeline_wf_def)
  let ?q = "apply_message collate p m turn_id"
  have "distinct (map tm_id (tp_messages ?q))"
    using upsert_distinct [OF wf(1), of m] by (simp add: apply_message_def Let_def)
  moreover have "distinct (map interaction_key (tp_interactions ?q))"
    by (simp add: apply_message_def Let_def message_interactions_distinct wf(2))
  moreover have "length (or_else (tp_executionSteps ?q) []) \<le> 200"
    using wf(3) apply_execution_message_bound [OF wf(3)]
    by (simp add: apply_message_def Let_def split: option.split)
  moreover have "tp_queue ?q = tp_queue p" by (simp add: apply_message_def Let_def)
  ultimately show ?thesis using assms by (simp add: timeline_wf_def)
qed

lemma queue_wf_sorted:
  "distinct (map qm_id xs) \<Longrightarrow>
   distinct (map qm_id (sort_by by_position xs)) \<and> sorted (map qm_position (sort_by by_position xs))"
  using sorted_sort_by [of qm_position xs] unfolding by_position_def by simp

lemma apply_timeline_event_wf:
  assumes "timeline_wf p"
  shows "timeline_wf (apply_timeline_event collate p e)"
proof (cases e)
  case (TlMessagePersisted m turn_id)
  then show ?thesis using apply_message_wf [OF assms] by simp
next
  case (TlQueueEnqueued item)
  let ?xs = "case find_index (\<lambda>x. qm_id x = qm_id item) (qs_items (tp_queue p)) of
      None \<Rightarrow> qs_items (tp_queue p) @ [item] | Some n \<Rightarrow> (qs_items (tp_queue p))[n := item]"
  have "distinct (map qm_id ?xs)"
    using assms by (intro upsert_distinct) (simp add: timeline_wf_def)
  from queue_wf_sorted [OF this] show ?thesis
    using TlQueueEnqueued assms
    by (simp add: timeline_wf_def apply_QueueEnqueued_def with_items_def Let_def)
next
  case (TlQueueReordered ids)
  let ?xs = "map (\<lambda>item. item\<lparr>qm_position :=
      or_else (map_of (last_positions ids) (qm_id item)) (qm_position item)\<rparr>) (qs_items (tp_queue p))"
  have "distinct (map qm_id ?xs)"
    using assms by (simp add: timeline_wf_def comp_def)
  from queue_wf_sorted [OF this] show ?thesis
    using TlQueueReordered assms
    by (simp add: timeline_wf_def apply_QueueReordered_def with_items_def)
next
  case (TlQueueUpdated queue_id input tm ready)
  let ?f = "\<lambda>item :: queued_message. if qm_id item = queue_id
      then item\<lparr>qm_input := input, qm_updatedAt := tm, qm_ready := ready\<rparr> else item"
  have "map qm_id (map ?f xs) = map qm_id xs" "map qm_position (map ?f xs) = map qm_position xs" for xs
    by (simp_all only: map_map) (rule map_cong; simp)+
  with TlQueueUpdated assms show ?thesis
    by (simp add: timeline_wf_def with_items_def del: map_map)
next
  case (TlPermissionRequested r)
  then show ?thesis using assms by (simp add: timeline_wf_def upsert_interaction_distinct)
qed (use assms in \<open>simp_all add: timeline_wf_def apply_StatusSet_def apply_TurnUpdated_def
       apply_TranscriptRolledBack_def apply_TurnSettled_def with_items_def remove_interaction_def
       filter_distinct filter_sorted or_else_def split: option.split option.split_asm\<close>)

text \<open>C18: Whatever timeline events a client folds, no message, queued
  item or interaction appears twice, the queue is ordered by position, and at most 200
  execution steps are kept.\<close>

theorem timeline_always_wellformed:
  "timeline_wf (foldl (apply_timeline_event collate) empty_timeline_projection es)"
proof -
  have "timeline_wf p \<Longrightarrow> timeline_wf (foldl (apply_timeline_event collate) p es)" for p
    by (induction es arbitrary: p) (simp_all add: apply_timeline_event_wf)
  moreover have "timeline_wf empty_timeline_projection"
    by (simp add: timeline_wf_def empty_timeline_projection_def)
  ultimately show ?thesis by blast
qed

end
