(* ===== verification/Read_Model.thy ===== *)
theory Read_Model
  imports Session_State Execution_Steps Chat
begin

text \<open>
  The tables of the read model that the projectors of \<open>packages/domain/src/projectors\<close> write, as
  the statements of the projectors and \<open>test/sql-schema.ts\<close> declare them, and
  \<open>chat-last-message-projection.ts\<close>.

  A table is the list of its rows in the order they were inserted; a column that holds a derived
  JSON text of a struct keeps the struct, a timestamp column keeps the time its ISO text prints.
  The constraints of a table are checked where a statement can break them. The foreign keys are
  those of \<open>createSessionInputProjection\<close> and, where the database was made by the migrations of
  \<open>apps/server/src/persistence/migrations\<close> and not by \<open>test/sql-schema.ts\<close>, those of its sessions,
  chats, messages and queued messages.
\<close>

section \<open>Statements\<close>

text \<open>\<open>UPDATE ... SET f WHERE p\<close> and \<open>DELETE ... WHERE p\<close>\<close>

definition update_where :: "('r \<Rightarrow> bool) \<Rightarrow> ('r \<Rightarrow> 'r) \<Rightarrow> 'r list \<Rightarrow> 'r list" where
  "update_where p f rows = map (\<lambda>r. if p r then f r else r) rows"

definition delete_where :: "('r \<Rightarrow> bool) \<Rightarrow> 'r list \<Rightarrow> 'r list" where
  "delete_where p rows = filter (\<lambda>r. \<not> p r) rows"

text \<open>\<open>INSERT ... ON CONFLICT DO NOTHING\<close>: \<open>same\<close> are the rows in conflict.\<close>

definition insert_or_ignore :: "('r \<Rightarrow> bool) \<Rightarrow> 'r \<Rightarrow> 'r list \<Rightarrow> 'r list" where
  "insert_or_ignore same row rows = (if list_ex same rows then rows else rows @ [row])"

text \<open>\<open>INSERT ... ON CONFLICT DO UPDATE SET f WHERE p\<close>\<close>

definition upsert :: "('r \<Rightarrow> bool) \<Rightarrow> ('r \<Rightarrow> bool) \<Rightarrow> ('r \<Rightarrow> 'r) \<Rightarrow> 'r \<Rightarrow> 'r list \<Rightarrow> 'r list" where
  "upsert same p f row rows =
     (if list_ex same rows then update_where (\<lambda>r. same r \<and> p r) f rows else rows @ [row])"

text \<open>A statement that fails ends the transaction.\<close>

definition and_then :: "'e + 'a \<Rightarrow> ('a \<Rightarrow> 'e + 'b) \<Rightarrow> 'e + 'b" where
  "and_then x f = (case x of Inl e \<Rightarrow> Inl e | Inr a \<Rightarrow> f a)"

lemma and_then_simps [simp]: "and_then (Inl e) f = Inl e" "and_then (Inr a) f = f a"
  by (simp_all add: and_then_def)

lemma and_then_Inr: "and_then x f = Inr b \<longleftrightarrow> (\<exists>a. x = Inr a \<and> f a = Inr b)"
  by (cases x) simp_all

lemma update_where_simps [simp]:
  "update_where p f [] = []"
  "update_where p f (r # rs) = (if p r then f r else r) # update_where p f rs"
  "update_where p f (rs @ rs') = update_where p f rs @ update_where p f rs'"
  "length (update_where p f rs) = length rs"
  by (simp_all add: update_where_def)

text \<open>A selection the update keeps selects the updated rows.\<close>

lemma filter_update_where:
  "(\<And>r. r \<in> set rs \<Longrightarrow> p r \<Longrightarrow> q (f r) = q r) \<Longrightarrow>
   filter q (update_where p f rs) = update_where p f (filter q rs)"
  by (induction rs) auto

lemma update_where_other: "(\<And>r. r \<in> set rs \<Longrightarrow> \<not> p r) \<Longrightarrow> update_where p f rs = rs"
  by (induction rs) auto

lemma map_update_where:
  "(\<And>r. r \<in> set rs \<Longrightarrow> p r \<Longrightarrow> g (f r) = g r) \<Longrightarrow> map g (update_where p f rs) = map g rs"
  by (induction rs) auto

section \<open>Tables\<close>

record chat_row =
  kr_id :: string
  kr_projectId :: string
  kr_worktreeId :: "string option"
  kr_title :: string
  kr_titleProvenance :: title_provenance
  kr_activeSessionId :: "string option"
  kr_originSessionId :: "string option"
  kr_archivedAt :: "int option"
  kr_archivedWorktreeJson :: "string option"
  kr_lastMessageAt :: "int option"
  kr_lastUserMessageAt :: "int option"
  kr_lastReadAt :: "int option"
  kr_createdAt :: int
  kr_updatedAt :: int

record session_row =
  sr_id :: string
  sr_projectId :: string
  sr_title :: string
  sr_titleProvenance :: title_provenance
  sr_providerId :: string
  sr_model :: string
  sr_status :: session_status
  sr_archivedAt :: "int option"
  sr_activeProviderThreadId :: "string option"
  sr_providerReservationId :: "string option"
  sr_runtimeMode :: runtime_mode
  sr_agentsJson :: "string option"
  sr_worktreeId :: "string option"
  sr_chatId :: string
  sr_forkedFromSessionId :: "string option"
  sr_forkedFromMessageId :: "string option"
  sr_permissionMode :: permission_mode
  sr_toolSearch :: bool
  sr_queuePaused :: bool
  sr_createdAt :: int
  sr_updatedAt :: int

record thread_row =
  hr_id :: string
  hr_sessionId :: string
  hr_provider :: string
  hr_nativeThreadId :: string
  hr_nativeHeadId :: "string option"
  hr_status :: thread_status
  hr_firstTurnOrdinal :: "int option"
  hr_lastTurnOrdinal :: "int option"
  hr_createdAt :: int
  hr_updatedAt :: int

record turn_row =
  tr_id :: string
  tr_sessionId :: string
  tr_ordinal :: int
  tr_status :: turn_status
  tr_phase :: "turn_phase option"
  tr_providerThreadId :: "string option"
  tr_activeAttemptId :: string
  tr_attemptOrdinal :: int
  tr_attemptReason :: attempt_reason
  tr_requestedAt :: int
  tr_completedAt :: "int option"

record attempt_row =
  ar_sessionId :: string
  ar_id :: string
  ar_turnId :: string
  ar_ordinal :: int
  ar_reason :: attempt_reason
  ar_status :: attempt_status
  ar_startedAt :: int
  ar_completedAt :: "int option"
  ar_startedSequence :: int
  ar_updatedSequence :: int
  ar_providerTurnJson :: "turn_reference option"

record queue_row =
  qr_id :: string
  qr_sessionId :: string
  qr_queueOrder :: int
  qr_inputJson :: string
  qr_createdAt :: int
  qr_updatedAt :: int
  qr_ready :: bool

record message_row =
  mr_id :: string
  mr_sessionId :: string
  mr_turnId :: "string option"
  mr_role :: string
  mr_kind :: string
  mr_contentJson :: string
  mr_parentItemId :: "string option"
  mr_createdAt :: int
  mr_sequence :: int
  mr_checkpointRevision :: "js_number option"
  mr_checkpointFinal :: "bool option"

datatype input_kind = InputQuestion | InputPermission | InputPlan

datatype input_status = InputPending | InputAnswered | InputCancelled | InputExpired

record input_row =
  ir_sessionId :: string
  ir_kind :: input_kind
  ir_requestId :: string
  ir_status :: input_status
  ir_requestJson :: "string option"
  ir_awaitingDismissal :: int
  ir_ownerJson :: "input_owner option"
  ir_turnId :: "string option"
  ir_requestedAt :: "int option"
  ir_requestedSequence :: "int option"
  ir_updatedSequence :: int

record step_row =
  pr_sessionId :: string
  pr_step :: execution_step

record delegation_row =
  dr_childSessionId :: string
  dr_childTurnId :: string
  dr_parentSessionId :: string
  dr_parentTurnId :: string
  dr_parentAttemptId :: string
  dr_providerSessionId :: string
  dr_createdAt :: int

record fork_row =
  fr_sessionId :: string
  fr_payloadJson :: string
  fr_createdAt :: int
  fr_error :: "string option"
  fr_cancelledAt :: "int option"
  fr_completedAt :: "int option"

record read_model =
  rm_chats :: "chat_row list"
  rm_sessions :: "session_row list"
  rm_threads :: "thread_row list"
  rm_turns :: "turn_row list"
  rm_attempts :: "attempt_row list"
  rm_queue :: "queue_row list"
  rm_messages :: "message_row list"
  rm_inputs :: "input_row list"
  rm_steps :: "step_row list"
  rm_delegations :: "delegation_row list"
  rm_forks :: "fork_row list"

definition empty_read_model :: read_model where
  "empty_read_model =
     \<lparr>rm_chats = [], rm_sessions = [], rm_threads = [], rm_turns = [], rm_attempts = [],
      rm_queue = [], rm_messages = [], rm_inputs = [], rm_steps = [], rm_delegations = [],
      rm_forks = []\<rparr>"

text \<open>
  \<open>json_extract(text, '$.itemId')\<close>, \<open>json_extract(text, '$.chatId')\<close> and
  \<open>json_set(text, '$.messages', json('[]'))\<close> of SQLite; a text that is not JSON has no value.
  \<open>sj_foreignKeys\<close> says that the database has the foreign keys of the server's migrations; the
  tables of projects and worktrees they refer to are known by the ids of their rows.
\<close>

record sqlite_json =
  sj_itemId :: "string \<Rightarrow> string option"
  sj_chatId :: "string \<Rightarrow> string option"
  sj_dropMessages :: "string \<Rightarrow> string option"
  sj_foreignKeys :: bool
  sj_project :: "string \<Rightarrow> bool"
  sj_worktree :: "string \<Rightarrow> bool"

text \<open>\<open>ProjectorRangeError\<close> is the exception of \<open>Date.prototype.toISOString\<close>.\<close>

datatype projector_error =
    ProjectorSqlFailure
  | SessionProjectionDecodeError string string
  | ProjectorRangeError

text \<open>
  A \<open>Date\<close> holds the times up to 8.64e15 milliseconds from 1970; \<open>at_date\<close> evaluates
  \<open>new Date(tm).toISOString()\<close> before it goes on.
\<close>

definition date_valid :: "int \<Rightarrow> bool" where
  "date_valid tm \<longleftrightarrow> \<bar>tm\<bar> \<le> 8640000000000000"

definition at_date :: "int \<Rightarrow> projector_error + 'a \<Rightarrow> projector_error + 'a" where
  "at_date tm x = (if date_valid tm then x else Inl ProjectorRangeError)"

lemma at_date_Inr [simp]: "at_date tm x = Inr y \<longleftrightarrow> date_valid tm \<and> x = Inr y"
  by (simp add: at_date_def)

lemma at_date_valid [simp]: "date_valid tm \<Longrightarrow> at_date tm x = x"
  by (simp add: at_date_def)

definition find_session :: "read_model \<Rightarrow> string \<Rightarrow> session_row option" where
  "find_session rm sid = find (\<lambda>r. sr_id r = sid) (rm_sessions rm)"

definition update_session ::
  "string \<Rightarrow> (session_row \<Rightarrow> session_row) \<Rightarrow> read_model \<Rightarrow> read_model" where
  "update_session sid f rm =
     rm\<lparr>rm_sessions := update_where (\<lambda>r. sr_id r = sid) f (rm_sessions rm)\<rparr>"

section \<open>Foreign keys\<close>

definition session_row_exists :: "read_model \<Rightarrow> string \<Rightarrow> bool" where
  "session_row_exists rm sid = list_ex (\<lambda>r. sr_id r = sid) (rm_sessions rm)"

definition chat_row_exists :: "read_model \<Rightarrow> string \<Rightarrow> bool" where
  "chat_row_exists rm cid = list_ex (\<lambda>c. kr_id c = cid) (rm_chats rm)"

text \<open>A reference that is \<open>NULL\<close> or has its row.\<close>

definition refers :: "(string \<Rightarrow> bool) \<Rightarrow> string option \<Rightarrow> bool" where
  "refers has_row key = (case key of None \<Rightarrow> True | Some k \<Rightarrow> has_row k)"

definition session_refers :: "sqlite_json \<Rightarrow> read_model \<Rightarrow> session_row \<Rightarrow> bool" where
  "session_refers sj rm r \<longleftrightarrow>
     sj_project sj (sr_projectId r) \<and> refers (sj_worktree sj) (sr_worktreeId r) \<and>
     chat_row_exists rm (sr_chatId r) \<and> refers (session_row_exists rm) (sr_forkedFromSessionId r)"

definition chat_refers :: "sqlite_json \<Rightarrow> read_model \<Rightarrow> chat_row \<Rightarrow> bool" where
  "chat_refers sj rm c \<longleftrightarrow>
     sj_project sj (kr_projectId c) \<and> refers (sj_worktree sj) (kr_worktreeId c) \<and>
     refers (session_row_exists rm) (kr_activeSessionId c) \<and>
     refers (session_row_exists rm) (kr_originSessionId c)"

text \<open>Every row that refers to a row of another table has it.\<close>

definition references_hold :: "sqlite_json \<Rightarrow> read_model \<Rightarrow> bool" where
  "references_hold sj rm \<longleftrightarrow>
     list_all (\<lambda>i. session_row_exists rm (ir_sessionId i)) (rm_inputs rm) \<and>
     (sj_foreignKeys sj \<longrightarrow>
        list_all (session_refers sj rm) (rm_sessions rm) \<and>
        list_all (chat_refers sj rm) (rm_chats rm) \<and>
        list_all (\<lambda>m. session_row_exists rm (mr_sessionId m)) (rm_messages rm) \<and>
        list_all (\<lambda>q. session_row_exists rm (qr_sessionId q)) (rm_queue rm))"

text \<open>
  A statement that leaves a row without the row it refers to fails. The statements of a projection
  that add a row are the only ones that could give it its reference, so the check at the end of the
  projection fails when the check of one of its statements does.
\<close>

definition check_references :: "sqlite_json \<Rightarrow> read_model \<Rightarrow> projector_error + read_model" where
  "check_references sj rm =
     (if references_hold sj rm then Inr rm else Inl ProjectorSqlFailure)"

lemma check_references_Inr [simp]:
  "check_references sj rm = Inr rm' \<longleftrightarrow> references_hold sj rm \<and> rm' = rm"
  by (auto simp: check_references_def)

text \<open>
  \<open>DELETE FROM sessions WHERE p\<close> with its \<open>ON DELETE CASCADE\<close> and \<open>ON DELETE SET NULL\<close>
\<close>

definition delete_sessions :: "sqlite_json \<Rightarrow> (session_row \<Rightarrow> bool) \<Rightarrow> read_model \<Rightarrow> read_model" where
  "delete_sessions sj p rm =
     (let gone = set (map sr_id (filter p (rm_sessions rm)));
          kept = delete_where p (rm_sessions rm);
          inputs = delete_where (\<lambda>i. ir_sessionId i \<in> gone) (rm_inputs rm) in
      if \<not> sj_foreignKeys sj then rm\<lparr>rm_sessions := kept, rm_inputs := inputs\<rparr>
      else
        rm\<lparr>rm_sessions :=
             update_where (\<lambda>r. sr_forkedFromSessionId r \<in> Some ` gone)
               (\<lambda>r. r\<lparr>sr_forkedFromSessionId := None\<rparr>) kept,
           rm_chats :=
             update_where (\<lambda>c. kr_originSessionId c \<in> Some ` gone) (\<lambda>c. c\<lparr>kr_originSessionId := None\<rparr>)
               (update_where (\<lambda>c. kr_activeSessionId c \<in> Some ` gone)
                  (\<lambda>c. c\<lparr>kr_activeSessionId := None\<rparr>) (rm_chats rm)),
           rm_messages := delete_where (\<lambda>m. mr_sessionId m \<in> gone) (rm_messages rm),
           rm_queue := delete_where (\<lambda>q. qr_sessionId q \<in> gone) (rm_queue rm),
           rm_inputs := inputs\<rparr>)"

section \<open>The last messages of a chat\<close>

datatype last_message_target = TargetChat string | TargetSession string

text \<open>\<open>MAX\<close> of a column, \<open>NULL\<close> of no rows.\<close>

definition sql_max :: "int list \<Rightarrow> int option" where
  "sql_max xs = (case xs of [] \<Rightarrow> None | x # rest \<Rightarrow> Some (fold max rest x))"

definition in_chat :: "read_model \<Rightarrow> string \<Rightarrow> string \<Rightarrow> bool" where
  "in_chat rm chat_id sid =
     list_ex (\<lambda>r. sr_id r = sid \<and> sr_chatId r = chat_id) (rm_sessions rm)"

text \<open>The times of the user's messages and of the queued messages of a chat.\<close>

definition user_message_times :: "read_model \<Rightarrow> string \<Rightarrow> int list" where
  "user_message_times rm chat_id =
     map mr_createdAt
       (filter (\<lambda>m. in_chat rm chat_id (mr_sessionId m) \<and> mr_role m = ''user'') (rm_messages rm)) @
     map qr_createdAt (filter (\<lambda>q. in_chat rm chat_id (qr_sessionId q)) (rm_queue rm))"

definition update_chat_last_message ::
  "last_message_target \<Rightarrow> int option \<Rightarrow> read_model \<Rightarrow> read_model" where
  "update_chat_last_message target message_at rm =
     (case target of
        TargetChat chat_id \<Rightarrow>
          rm\<lparr>rm_chats :=
               update_where (\<lambda>c. kr_id c = chat_id)
                 (\<lambda>c. c\<lparr>kr_lastMessageAt := message_at,
                        kr_lastUserMessageAt := sql_max (user_message_times rm (kr_id c))\<rparr>)
                 (rm_chats rm)\<rparr>
      | TargetSession sid \<Rightarrow>
          rm\<lparr>rm_chats :=
               update_where (\<lambda>c. Some (kr_id c) = map_option sr_chatId (find_session rm sid))
                 (\<lambda>c. c\<lparr>kr_lastMessageAt := message_at\<rparr>) (rm_chats rm)\<rparr>)"

definition update_chat_last_user_message :: "string \<Rightarrow> int \<Rightarrow> read_model \<Rightarrow> read_model" where
  "update_chat_last_user_message sid message_at rm =
     rm\<lparr>rm_chats :=
          update_where
            (\<lambda>c. Some (kr_id c) = map_option sr_chatId (find_session rm sid) \<and>
               (case kr_lastUserMessageAt c of None \<Rightarrow> True | Some tm \<Rightarrow> tm < message_at))
            (\<lambda>c. c\<lparr>kr_lastUserMessageAt := Some message_at\<rparr>) (rm_chats rm)\<rparr>"

end
