(* ===== verification/Dispatch.thy ===== *)
theory Dispatch
  imports Session_Decider
begin

text \<open>
  Dispatching a command: \<open>engine/dispatch.ts\<close> and \<open>engine/aggregate-dispatch.ts\<close> of
  \<open>packages/domain/src\<close>. An engine looks for a receipt of the command, reads the stream, folds
  it, checks who owns the write, decides and appends with the version it read.

  The storage is a record of its three operations. An operation that only reads leaves the
  storage state alone; \<open>append\<close> returns the new one. Event ids come from a generator \<open>mk\<close> that
  threads its own state and can fail. The queue in front of an engine that runs the commands of
  a stream one after the other belongs to \<open>packages/utils\<close>; \<open>Dispatch_Laws\<close> does without it and
  lets all commands interleave.
\<close>

section \<open>Provider tools\<close>

fun provider_tool_reference :: "message_content \<Rightarrow> string option" where
  "provider_tool_reference (ToolResultContent r) = Some (tr_itemId r)"
| "provider_tool_reference (SubagentSummaryContent m) = Some (ss_itemId m)"
| "provider_tool_reference (AssistantContent item txt checkpoint partial parent) = parent"
| "provider_tool_reference (ThinkingContent item txt redacted checkpoint parent) = parent"
| "provider_tool_reference (ToolUseContent u) = tu_parentItemId u"
| "provider_tool_reference (SubagentProgressContent g) = Some (sp_parentId g)"
| "provider_tool_reference _ = None"

section \<open>Records\<close>

record 'e stored_event =
  se_eventId :: string
  se_correlationId :: string
  se_causationEventId :: "string option"
  se_streamId :: string
  se_streamVersion :: int
  se_sequence :: int
  se_event :: 'e

record receipt_identity =
  ri_fingerprint :: string
  ri_commandKind :: string
  ri_schemaVersion :: int
  ri_storageIncarnationId :: string

record command_receipt =
  cr_commandId :: string
  cr_streamId :: string
  cr_streamVersion :: int
  cr_eventIds :: "string list"
  cr_result :: "interrupt_receipt option"
  cr_receiptIdentity :: "receipt_identity option"

record attempt_ownership =
  ao_requireUninterrupted :: "bool option"
  ao_turnId :: string
  ao_attemptId :: string

record 'c dispatch_input =
  di_commandId :: string
  di_streamId :: string
  di_correlationId :: "string option"
  di_causationEventId :: "string option"
  di_receiptIdentity :: "receipt_identity option"
  di_expectedAttempt :: "attempt_ownership option"
  di_expectedProviderSessionId :: "string option"
  di_command :: 'c

record 'e append_input =
  ai_commandId :: string
  ai_streamId :: string
  ai_correlationId :: string
  ai_causationEventId :: "string option"
  ai_expectedVersion :: int
  ai_events :: "(string \<times> 'e) list"
  ai_result :: "interrupt_receipt option"
  ai_receiptIdentity :: "receipt_identity option"

datatype dispatch_error =
  AttemptOwnershipConflict string string "string option"
| ProviderSessionOwnershipConflict string "string option"
| CommandReceiptConflict string string string
| CommandReceiptIdentityConflict string
| ConcurrencyConflict string int int

datatype ('d, 's, 'i) dispatch_failure =
  DomainFailure 'd
| DispatchConflict dispatch_error
| StorageFailure 's
| EventIdFailure 'i

text \<open>The interface \<open>DispatchStorage\<close>.\<close>

record ('st, 's, 'e) storage_ops =
  op_receipt :: "'st \<Rightarrow> string \<Rightarrow> 's + command_receipt option"
  op_events :: "'st \<Rightarrow> string \<Rightarrow> 's + 'e stored_event list"
  op_append :: "'st \<Rightarrow> 'e append_input \<Rightarrow> ('s + command_receipt) \<times> 'st"

section \<open>Receipts\<close>

definition same_receipt_identity :: "receipt_identity \<Rightarrow> receipt_identity \<Rightarrow> bool" where
  "same_receipt_identity left right =
     (ri_fingerprint left = ri_fingerprint right \<and>
      ri_commandKind left = ri_commandKind right \<and>
      ri_schemaVersion left = ri_schemaVersion right \<and>
      ri_storageIncarnationId left = ri_storageIncarnationId right)"

text \<open>The fields of the input that \<open>validateCommandReceipt\<close> reads are its first arguments.\<close>

definition validate_command_receipt ::
  "string \<Rightarrow> string \<Rightarrow> receipt_identity option \<Rightarrow> command_receipt \<Rightarrow> dispatch_error + command_receipt"
where
  "validate_command_receipt command_id stream_id identity receipt =
     (if cr_streamId receipt \<noteq> stream_id
      then Inl (CommandReceiptConflict command_id stream_id (cr_streamId receipt))
      else
        case (identity, cr_receiptIdentity receipt) of
          (Some expected, Some actual) \<Rightarrow>
            if same_receipt_identity expected actual then Inr receipt
            else Inl (CommandReceiptIdentityConflict command_id)
        | _ \<Rightarrow> Inr receipt)"

definition validated ::
  "'c dispatch_input \<Rightarrow> command_receipt \<Rightarrow> ('d, 's, 'i) dispatch_failure + command_receipt" where
  "validated input receipt =
     (case validate_command_receipt (di_commandId input) (di_streamId input)
             (di_receiptIdentity input) receipt of
        Inl e \<Rightarrow> Inl (DispatchConflict e)
      | Inr r \<Rightarrow> Inr r)"

section \<open>Ownership\<close>

text \<open>\<open>"turnId" in event\<close>, with the turn it names.\<close>

fun event_turn_id :: "session_event \<Rightarrow> string option" where
  "event_turn_id (TurnStarted t tm n a th) = Some t"
| "event_turn_id (AttemptProviderTurnBound t a r tm) = Some t"
| "event_turn_id (AttemptStarted e) = Some (as_turnId e)"
| "event_turn_id (ProviderRecoveryRequested t a src r tm) = Some t"
| "event_turn_id (ProviderTurnRequested t a input start tm) = Some t"
| "event_turn_id (TurnFinalizationRequested t a outcome tm) = Some t"
| "event_turn_id (TurnSettled t outcome tm) = Some t"
| "event_turn_id (TurnInterruptRequested t a tm) = Some t"
| "event_turn_id (TurnInterruptAcknowledged t tm) = Some t"
| "event_turn_id (TurnInterruptFailed t reason tm) = Some t"
| "event_turn_id (SuccessorTurnScheduled su tm) = Some (su_turnId su)"
| "event_turn_id (ScheduledSuccessorReady su tm) = Some (su_turnId su)"
| "event_turn_id (MessagePersisted m) = mf_turnId m"
| "event_turn_id (SegmentOpened t g kind tm) = Some t"
| "event_turn_id (SegmentSettled t g outcome tm) = Some t"
| "event_turn_id (PermissionRequested own r t payload tm) = Some t"
| "event_turn_id _ = None"

text \<open>The scan from the newest event back to the start of the turn's last attempt.\<close>

fun has_tool_anchor :: "decoder \<Rightarrow> string \<Rightarrow> string \<Rightarrow> session_event list \<Rightarrow> bool" where
  "has_tool_anchor dec turn_id reference [] = False"
| "has_tool_anchor dec turn_id reference (e # es) =
     (if event_turn_id e \<noteq> Some turn_id then has_tool_anchor dec turn_id reference es
      else case e of
        TurnStarted t tm n a th \<Rightarrow> False
      | AttemptStarted x \<Rightarrow> False
      | MessagePersisted m \<Rightarrow>
          if mf_kind m \<noteq> ''tool_use'' then has_tool_anchor dec turn_id reference es
          else (case dec (mf_contentJson m) of
                  Some (ToolUseContent u) \<Rightarrow>
                    tu_itemId u = reference \<or> has_tool_anchor dec turn_id reference es
                | _ \<Rightarrow> has_tool_anchor dec turn_id reference es)
      | _ \<Rightarrow> has_tool_anchor dec turn_id reference es)"

definition owns_tool_tail ::
  "decoder \<Rightarrow> session_state \<Rightarrow> session_event list \<Rightarrow> session_command dispatch_input \<Rightarrow> string \<Rightarrow> bool"
where
  "owns_tool_tail dec s events input turn_id =
     (case (di_command input, map_of (turns s) turn_id) of
        (PersistMessage m, Some turn) \<Rightarrow>
          di_expectedProviderSessionId input \<noteq> None \<and> tn_status turn = TurnCompleted \<and>
          tn_ordinal turn = turnCount s \<and> mf_turnId m = Some turn_id \<and>
          (case Option.bind (dec (mf_contentJson m)) provider_tool_reference of
             None \<Rightarrow> False
           | Some reference \<Rightarrow> has_tool_anchor dec turn_id reference (rev events))
      | _ \<Rightarrow> False)"

definition owns_tail :: "session_state \<Rightarrow> session_command \<Rightarrow> string \<Rightarrow> bool" where
  "owns_tail s command turn_id =
     (case command of
        BindProviderThread t h tm \<Rightarrow>
          map_option tn_ordinal (map_of (turns s) turn_id) = Some (turnCount s)
      | _ \<Rightarrow> False)"

definition owning_attempt ::
  "decoder \<Rightarrow> session_state \<Rightarrow> session_event list \<Rightarrow> session_command dispatch_input \<Rightarrow>
   attempt_ownership \<Rightarrow> string option"
where
  "owning_attempt dec s events input expected =
     (let turn = map_of (turns s) (ao_turnId expected) in
      if (currentTurnId s = Some (ao_turnId expected) \<or>
          owns_tail s (di_command input) (ao_turnId expected) \<or>
          owns_tool_tail dec s events input (ao_turnId expected)) \<and>
         \<not> deleted s \<and> \<not> archived s \<and>
         (ao_requireUninterrupted expected \<noteq> Some True \<or>
          Option.bind turn tn_phase = Some PhaseRunning)
      then map_option tn_activeAttemptId turn
      else None)"

definition reserved_provider_session :: "session_state \<Rightarrow> string option" where
  "reserved_provider_session s =
     (if deleted s \<or> archived s then None
      else map_option rsv_providerSessionId (providerReservation s))"

definition ownership_conflict ::
  "decoder \<Rightarrow> session_state \<Rightarrow> session_event list \<Rightarrow> session_command dispatch_input \<Rightarrow>
   dispatch_error option"
where
  "ownership_conflict dec s events input =
     (let provider =
            (case di_expectedProviderSessionId input of
               None \<Rightarrow> None
             | Some expected \<Rightarrow>
                 if reserved_provider_session s = Some expected then None
                 else Some (ProviderSessionOwnershipConflict expected (reserved_provider_session s)))
      in case provider of
           Some conflict \<Rightarrow> Some conflict
         | None \<Rightarrow>
             (case di_expectedAttempt input of
                None \<Rightarrow> None
              | Some expected \<Rightarrow>
                  let actual = owning_attempt dec s events input expected in
                  if actual = Some (ao_attemptId expected) then None
                  else Some (AttemptOwnershipConflict (ao_turnId expected)
                               (ao_attemptId expected) actual)))"

section \<open>The engines\<close>

type_synonym ('g, 'i) id_generator = "'g \<Rightarrow> ('i + string) \<times> 'g"

text \<open>\<open>Effect.forEach\<close> over the events: one id each, the first failure ends it.\<close>

fun mint :: "('g, 'i) id_generator \<Rightarrow> 'g \<Rightarrow> 'e list \<Rightarrow> ('i + (string \<times> 'e) list) \<times> 'g" where
  "mint mk g [] = (Inr [], g)"
| "mint mk g (e # es) =
     (case mk g of
        (Inl i, g') \<Rightarrow> (Inl i, g')
      | (Inr key, g') \<Rightarrow>
          (case mint mk g' es of
             (Inl i, g'') \<Rightarrow> (Inl i, g'')
           | (Inr rest, g'') \<Rightarrow> (Inr ((key, e) # rest), g'')))"

text \<open>What an engine does before the append: it is finished, or it knows what to append.\<close>

datatype ('f, 'e) prepared = Finished "'f + command_receipt" | Appending "'e append_input"

definition append_of ::
  "'c dispatch_input \<Rightarrow> int \<Rightarrow> interrupt_receipt option \<Rightarrow> (string \<times> 'e) list \<Rightarrow> 'e append_input"
where
  "append_of input expected result events =
     \<lparr>ai_commandId = di_commandId input, ai_streamId = di_streamId input,
      ai_correlationId = or_else (di_correlationId input) (di_commandId input),
      ai_causationEventId = di_causationEventId input, ai_expectedVersion = expected,
      ai_events = events, ai_result = result, ai_receiptIdentity = di_receiptIdentity input\<rparr>"

definition prepare_append ::
  "('g, 'i) id_generator \<Rightarrow> 'g \<Rightarrow> 'c dispatch_input \<Rightarrow> int \<Rightarrow> interrupt_receipt option \<Rightarrow>
   'd + 'e list \<Rightarrow> (('d, 's, 'i) dispatch_failure, 'e) prepared \<times> 'g"
where
  "prepare_append mk g input expected result decided =
     (case decided of
        Inl failure \<Rightarrow> (Finished (Inl (DomainFailure failure)), g)
      | Inr es \<Rightarrow>
          (case mint mk g es of
             (Inl i, g') \<Rightarrow> (Finished (Inl (EventIdFailure i)), g')
           | (Inr events, g') \<Rightarrow> (Appending (append_of input expected result events), g')))"

definition interrupt_result ::
  "session_state \<Rightarrow> session_command \<Rightarrow> interrupt_receipt option" where
  "interrupt_result s command =
     (case command of
        RequestTurnInterrupt expected tm \<Rightarrow> Some (turn_interrupt_receipt s expected)
      | _ \<Rightarrow> None)"

definition prepare_dispatch ::
  "decoder \<Rightarrow> ('st, 's, session_event) storage_ops \<Rightarrow> ('g, 'i) id_generator \<Rightarrow> 'st \<Rightarrow> 'g \<Rightarrow>
   command_receipt option \<Rightarrow> session_command dispatch_input \<Rightarrow>
   ((domain_error, 's, 'i) dispatch_failure, session_event) prepared \<times> 'g"
where
  "prepare_dispatch dec ops mk st g existing input =
     (case (existing, di_expectedAttempt input, di_expectedProviderSessionId input) of
        (Some receipt, None, None) \<Rightarrow> (Finished (validated input receipt), g)
      | _ \<Rightarrow>
          (case op_events ops st (di_streamId input) of
             Inl e \<Rightarrow> (Finished (Inl (StorageFailure e)), g)
           | Inr stored \<Rightarrow>
               let events = map se_event stored;
                   s = evolve_all dec initial_session_state events in
               case ownership_conflict dec s events input of
                 Some conflict \<Rightarrow> (Finished (Inl (DispatchConflict conflict)), g)
               | None \<Rightarrow>
                   (case existing of
                      Some receipt \<Rightarrow> (Finished (validated input receipt), g)
                    | None \<Rightarrow>
                        prepare_append mk g input (version s)
                          (interrupt_result s (di_command input)) (decide s (di_command input)))))"

text \<open>The last step of a run: append what was prepared.\<close>

definition finish_dispatch ::
  "('st, 's, 'e) storage_ops \<Rightarrow> 'st \<Rightarrow> (('d, 's, 'i) dispatch_failure, 'e) prepared \<Rightarrow>
   (('d, 's, 'i) dispatch_failure + command_receipt) \<times> 'st"
where
  "finish_dispatch ops st p =
     (case p of
        Finished x \<Rightarrow> (x, st)
      | Appending ai \<Rightarrow>
          (case op_append ops st ai of
             (Inl e, st') \<Rightarrow> (Inl (StorageFailure e), st')
           | (Inr receipt, st') \<Rightarrow> (Inr receipt, st')))"

definition dispatch_run ::
  "decoder \<Rightarrow> ('st, 's, session_event) storage_ops \<Rightarrow> ('g, 'i) id_generator \<Rightarrow> 'st \<Rightarrow> 'g \<Rightarrow>
   session_command dispatch_input \<Rightarrow>
   ((domain_error, 's, 'i) dispatch_failure + command_receipt) \<times> 'st"
where
  "dispatch_run dec ops mk st g input =
     (case op_receipt ops st (di_commandId input) of
        Inl e \<Rightarrow> (Inl (StorageFailure e), st)
      | Inr existing \<Rightarrow>
          finish_dispatch ops st (fst (prepare_dispatch dec ops mk st g existing input)))"

text \<open>\<open>AggregateDispatchEngine\<close>: the same for any aggregate, without ownership.\<close>

record ('a, 'c, 'e, 'd) aggregate_definition =
  ad_initialState :: 'a
  ad_version :: "'a \<Rightarrow> int"
  ad_evolveAll :: "'a \<Rightarrow> 'e list \<Rightarrow> 'a"
  ad_decide :: "'a \<Rightarrow> 'c \<Rightarrow> 'd + 'e list"

definition prepare_aggregate_dispatch ::
  "('a, 'c, 'e, 'd) aggregate_definition \<Rightarrow> ('st, 's, 'e) storage_ops \<Rightarrow> ('g, 'i) id_generator \<Rightarrow>
   'st \<Rightarrow> 'g \<Rightarrow> command_receipt option \<Rightarrow> 'c dispatch_input \<Rightarrow>
   (('d, 's, 'i) dispatch_failure, 'e) prepared \<times> 'g"
where
  "prepare_aggregate_dispatch ad ops mk st g existing input =
     (case existing of
        Some receipt \<Rightarrow> (Finished (validated input receipt), g)
      | None \<Rightarrow>
          (case op_events ops st (di_streamId input) of
             Inl e \<Rightarrow> (Finished (Inl (StorageFailure e)), g)
           | Inr stored \<Rightarrow>
               let s = ad_evolveAll ad (ad_initialState ad) (map se_event stored) in
               prepare_append mk g input (ad_version ad s) None (ad_decide ad s (di_command input))))"

definition aggregate_dispatch_run ::
  "('a, 'c, 'e, 'd) aggregate_definition \<Rightarrow> ('st, 's, 'e) storage_ops \<Rightarrow> ('g, 'i) id_generator \<Rightarrow>
   'st \<Rightarrow> 'g \<Rightarrow> 'c dispatch_input \<Rightarrow> (('d, 's, 'i) dispatch_failure + command_receipt) \<times> 'st"
where
  "aggregate_dispatch_run ad ops mk st g input =
     (case op_receipt ops st (di_commandId input) of
        Inl e \<Rightarrow> (Inl (StorageFailure e), st)
      | Inr existing \<Rightarrow>
          finish_dispatch ops st
            (fst (prepare_aggregate_dispatch ad ops mk st g existing input)))"

section \<open>The storage in memory\<close>

record 'e memory_store =
  im_eventLog :: "'e stored_event list"
  im_receipts :: "(string, command_receipt) jsmap"

definition memory_events_for :: "'e memory_store \<Rightarrow> string \<Rightarrow> 'e stored_event list" where
  "memory_events_for st stream_id = filter (\<lambda>r. se_streamId r = stream_id) (im_eventLog st)"

text \<open>The loop over the events of an append: \<open>v\<close> is \<open>streamVersion\<close>.\<close>

fun memory_push :: "'e append_input \<Rightarrow> int \<Rightarrow> (string \<times> 'e) list \<Rightarrow> 'e stored_event list \<Rightarrow>
  int \<times> 'e stored_event list" where
  "memory_push ai v [] events = (v, events)"
| "memory_push ai v ((key, e) # rest) events =
     memory_push ai (v + 1) rest
       (events @
        [\<lparr>se_eventId = key, se_correlationId = ai_correlationId ai,
          se_causationEventId = ai_causationEventId ai, se_streamId = ai_streamId ai,
          se_streamVersion = v + 1, se_sequence = int (length events) + 1, se_event = e\<rparr>])"

definition receipt_for :: "'e append_input \<Rightarrow> int \<Rightarrow> command_receipt" where
  "receipt_for ai v =
     \<lparr>cr_commandId = ai_commandId ai, cr_streamId = ai_streamId ai, cr_streamVersion = v,
      cr_eventIds = map fst (ai_events ai), cr_result = ai_result ai,
      cr_receiptIdentity = ai_receiptIdentity ai\<rparr>"

definition memory_append ::
  "'e memory_store \<Rightarrow> 'e append_input \<Rightarrow> (dispatch_error + command_receipt) \<times> 'e memory_store" where
  "memory_append st ai =
     (case map_of (im_receipts st) (ai_commandId ai) of
        Some existing \<Rightarrow>
          (validate_command_receipt (ai_commandId ai) (ai_streamId ai) (ai_receiptIdentity ai)
             existing, st)
      | None \<Rightarrow>
          let actual = int (length (memory_events_for st (ai_streamId ai))) in
          if actual \<noteq> ai_expectedVersion ai
          then (Inl (ConcurrencyConflict (ai_streamId ai) (ai_expectedVersion ai) actual), st)
          else
            let (v, events) =
                  memory_push ai (ai_expectedVersion ai) (ai_events ai) (im_eventLog st);
                receipt = receipt_for ai v in
            (Inr receipt,
             st\<lparr>im_eventLog := events,
                im_receipts := AList.update (ai_commandId ai) receipt (im_receipts st)\<rparr>))"

definition memory_ops :: "('e memory_store, dispatch_error, 'e) storage_ops" where
  "memory_ops =
     \<lparr>op_receipt = (\<lambda>st command_id. Inr (map_of (im_receipts st) command_id)),
      op_events = (\<lambda>st stream_id. Inr (memory_events_for st stream_id)),
      op_append = memory_append\<rparr>"

definition empty_memory_store :: "'e memory_store" where
  "empty_memory_store = \<lparr>im_eventLog = [], im_receipts = []\<rparr>"

end
