(* ===== verification/Sql_Projectors.thy ===== *)
theory Sql_Projectors
  imports Read_Model Dispatch
begin

text \<open>
  The projectors a session's events share: \<open>sql-attempt-projector.ts\<close>,
  \<open>sql-execution-step-projector.ts\<close> and \<open>sql-input-projector.ts\<close> of
  \<open>packages/domain/src/projectors\<close>. \<open>dec\<close> decodes the JSON of a message's content, \<open>sj\<close> are the
  JSON functions of SQLite.
\<close>

section \<open>Attempts\<close>

text \<open>
  \<open>INSERT INTO session_attempts ... ON CONFLICT(session_id, id) DO NOTHING\<close>: another row of the
  same turn and ordinal, or an ordinal that is not positive, breaks a constraint.
\<close>

definition insert_attempt_row :: "attempt_row \<Rightarrow> attempt_row list \<Rightarrow> projector_error + attempt_row list" where
  "insert_attempt_row row rows =
     (if ar_ordinal row \<le> 0 then Inl ProjectorSqlFailure
      else if list_ex (\<lambda>r. ar_sessionId r = ar_sessionId row \<and> ar_id r = ar_id row) rows then Inr rows
      else if list_ex (\<lambda>r. ar_sessionId r = ar_sessionId row \<and> ar_turnId r = ar_turnId row \<and>
                ar_ordinal r = ar_ordinal row) rows
      then Inl ProjectorSqlFailure
      else Inr (rows @ [row]))"

definition running_attempt_row ::
  "string \<Rightarrow> string \<Rightarrow> string \<Rightarrow> int \<Rightarrow> attempt_reason \<Rightarrow> int \<Rightarrow> int \<Rightarrow> attempt_row" where
  "running_attempt_row stream_id key turn_id ordinal reason started_at seq =
     \<lparr>ar_sessionId = stream_id, ar_id = key, ar_turnId = turn_id, ar_ordinal = ordinal,
      ar_reason = reason, ar_status = AttemptRunning, ar_startedAt = started_at,
      ar_completedAt = None, ar_startedSequence = seq, ar_updatedSequence = seq,
      ar_providerTurnJson = None\<rparr>"

definition supersede_attempts ::
  "string \<Rightarrow> string \<Rightarrow> int \<Rightarrow> int \<Rightarrow> int \<Rightarrow> attempt_row list \<Rightarrow> attempt_row list" where
  "supersede_attempts stream_id turn_id ordinal started_at seq =
     update_where
       (\<lambda>r. ar_sessionId r = stream_id \<and> ar_turnId r = turn_id \<and> ar_ordinal r < ordinal \<and>
          ar_status r = AttemptRunning \<and> ar_updatedSequence r < seq)
       (\<lambda>r. r\<lparr>ar_status := AttemptSuperseded, ar_completedAt := Some started_at,
              ar_updatedSequence := seq\<rparr>)"

text \<open>\<open>ORDER BY ordinal DESC LIMIT 1\<close>\<close>

definition latest_attempt :: "string \<Rightarrow> string \<Rightarrow> int \<Rightarrow> attempt_row list \<Rightarrow> string option" where
  "latest_attempt stream_id turn_id seq rows =
     (case sort_key (\<lambda>r. - ar_ordinal r)
             (filter (\<lambda>r. ar_sessionId r = stream_id \<and> ar_turnId r = turn_id \<and>
                ar_startedSequence r \<le> seq) rows) of
        [] \<Rightarrow> None | r # _ \<Rightarrow> Some (ar_id r))"

definition settle_attempt ::
  "string \<Rightarrow> string \<Rightarrow> settlement_outcome \<Rightarrow> int \<Rightarrow> int \<Rightarrow> attempt_row list \<Rightarrow> attempt_row list" where
  "settle_attempt stream_id turn_id outcome settled_at seq rows =
     update_where
       (\<lambda>r. ar_sessionId r = stream_id \<and> ar_updatedSequence r < seq \<and>
          Some (ar_id r) = latest_attempt stream_id turn_id seq rows)
       (\<lambda>r. r\<lparr>ar_status := outcome_attempt_status outcome, ar_completedAt := Some settled_at,
              ar_updatedSequence := seq\<rparr>) rows"

definition project_attempts ::
  "session_event stored_event \<Rightarrow> attempt_row list \<Rightarrow> projector_error + attempt_row list" where
  "project_attempts record rows =
     (let stream_id = se_streamId record; seq = se_sequence record in
      case se_event record of
        SessionDeleted tm \<Rightarrow> Inr (delete_where (\<lambda>r. ar_sessionId r = stream_id) rows)
      | AttemptProviderTurnBound turn_id attempt_id reference tm \<Rightarrow>
          Inr (update_where
                 (\<lambda>r. ar_sessionId r = stream_id \<and> ar_turnId r = turn_id \<and> ar_id r = attempt_id \<and>
                    ar_providerTurnJson r = None)
                 (\<lambda>r. r\<lparr>ar_providerTurnJson := Some reference\<rparr>) rows)
      | TurnStarted turn_id tm ordinal attempt_id thread_id \<Rightarrow>
          at_date tm
            (insert_attempt_row
               (running_attempt_row stream_id (or_else attempt_id (attempt_id_for turn_id 1)) turn_id 1
                  ReasonInitial tm seq) rows)
      | AttemptStarted e \<Rightarrow>
          at_date (as_startedAt e)
            (if \<not> list_ex (\<lambda>r. ar_sessionId r = stream_id \<and> ar_turnId r = as_turnId e) rows
             then Inr rows
             else
               insert_attempt_row
                 (running_attempt_row stream_id (as_attemptId e) (as_turnId e) (as_ordinal e)
                    (as_reason e) (as_startedAt e) seq)
                 (supersede_attempts stream_id (as_turnId e) (as_ordinal e) (as_startedAt e) seq rows))
      | TurnSettled turn_id outcome tm \<Rightarrow>
          at_date tm (Inr (settle_attempt stream_id turn_id outcome tm seq rows))
      | _ \<Rightarrow> Inr rows)"

definition project_session_attempt ::
  "session_event stored_event \<Rightarrow> read_model \<Rightarrow> projector_error + read_model" where
  "project_session_attempt record rm =
     and_then (project_attempts record (rm_attempts rm)) (\<lambda>rows. Inr (rm\<lparr>rm_attempts := rows\<rparr>))"

section \<open>Execution steps\<close>

definition close_steps ::
  "(step_row \<Rightarrow> bool) \<Rightarrow> step_status \<Rightarrow> int \<Rightarrow> read_model \<Rightarrow> read_model" where
  "close_steps p status' updated_at rm =
     rm\<lparr>rm_steps :=
          update_where p
            (\<lambda>r. r\<lparr>pr_step := (pr_step r)\<lparr>xs_status := status', xs_updatedAt := updated_at\<rparr>\<rparr>)
            (rm_steps rm)\<rparr>"

text \<open>
  The row a message continues: \<open>item_id = item\<close>, or the native child of a progress message. Of
  several rows the first one is taken.
\<close>

definition previous_step ::
  "string \<Rightarrow> string \<Rightarrow> string \<Rightarrow> message_content \<Rightarrow> step_row list \<Rightarrow> execution_step option" where
  "previous_step stream_id turn_id attempt_id content rows =
     map_option pr_step
       (find (\<lambda>r. pr_sessionId r = stream_id \<and> xs_turnId (pr_step r) = turn_id \<and>
                xs_attemptId (pr_step r) = attempt_id \<and>
                (case execution_step_item content of
                   Some item \<Rightarrow> xs_itemId (pr_step r) = item
                 | None \<Rightarrow>
                     (case content of
                        SubagentProgressContent p \<Rightarrow>
                          xs_nativeChildId (pr_step r) = Some (sp_childSessionId p)
                      | _ \<Rightarrow> False)))
          rows)"

text \<open>
  \<open>INSERT ... ON CONFLICT(id) DO UPDATE\<close>: a row with another id and the same session, turn,
  attempt and item breaks the constraint of the table.
\<close>

definition write_step ::
  "string \<Rightarrow> execution_step \<Rightarrow> step_row list \<Rightarrow> projector_error + step_row list" where
  "write_step stream_id new_step rows =
     (if list_ex (\<lambda>r. xs_id (pr_step r) = xs_id new_step) rows
      then Inr (update_where (\<lambda>r. xs_id (pr_step r) = xs_id new_step)
             (\<lambda>r. r\<lparr>pr_step := (pr_step r)
                      \<lparr>xs_kind := xs_kind new_step, xs_childSessionId := xs_childSessionId new_step,
                       xs_nativeChildId := xs_nativeChildId new_step,
                       xs_status := xs_status new_step,
                       xs_rootCompletedAt := xs_rootCompletedAt new_step,
                       xs_updatedAt := xs_updatedAt new_step\<rparr>\<rparr>) rows)
      else if list_ex (\<lambda>r. pr_sessionId r = stream_id \<and> xs_turnId (pr_step r) = xs_turnId new_step \<and>
                xs_attemptId (pr_step r) = xs_attemptId new_step \<and>
                xs_itemId (pr_step r) = xs_itemId new_step) rows
      then Inl ProjectorSqlFailure
      else Inr (rows @ [\<lparr>pr_sessionId = stream_id, pr_step = new_step\<rparr>]))"

definition project_step_message ::
  "decoder \<Rightarrow> string option \<Rightarrow> string \<Rightarrow> message_fields \<Rightarrow> read_model \<Rightarrow> projector_error + read_model"
where
  "project_step_message dec attempt_override stream_id m rm =
     (case mf_turnId m of
        None \<Rightarrow> Inr rm
      | Some turn_id \<Rightarrow>
          if mf_kind m \<notin> {''tool_use'', ''tool_result'', ''subagent_summary'', ''subagent_progress''}
          then Inr rm
          else if \<not> list_ex (\<lambda>r. mr_id r = mf_messageId m \<and> mr_sessionId r = stream_id \<and>
                     mr_contentJson r = mf_contentJson m) (rm_messages rm)
          then Inr rm
          else
            (case dec (mf_contentJson m) of
               None \<Rightarrow> Inr rm
             | Some content \<Rightarrow>
                 (case or_opt attempt_override
                         (map_option tr_activeAttemptId
                            (find (\<lambda>r. tr_sessionId r = stream_id \<and> tr_id r = turn_id) (rm_turns rm))) of
                    None \<Rightarrow> Inr rm
                  | Some attempt_id \<Rightarrow>
                      if execution_step_item content = None \<and>
                         content_tag content \<noteq> ''subagent_progress''
                      then Inr rm
                      else
                        (case evolve_execution_step
                                (previous_step stream_id turn_id attempt_id content (rm_steps rm))
                                \<lparr>xi_sessionId = stream_id, xi_turnId = turn_id,
                                 xi_attemptId = attempt_id, xi_at = mf_createdAt m\<rparr> content of
                           None \<Rightarrow> Inr rm
                         | Some new_step \<Rightarrow>
                             and_then (write_step stream_id new_step (rm_steps rm))
                               (\<lambda>rows. Inr (rm\<lparr>rm_steps := rows\<rparr>))))))"

definition project_execution_step ::
  "decoder \<Rightarrow> string option \<Rightarrow> session_event stored_event \<Rightarrow> read_model \<Rightarrow>
   projector_error + read_model"
where
  "project_execution_step dec attempt_override record rm =
     (let stream_id = se_streamId record in
      case se_event record of
        AttemptStarted e \<Rightarrow>
          Inr (close_steps
                 (\<lambda>r. pr_sessionId r = stream_id \<and> xs_turnId (pr_step r) = as_turnId e \<and>
                    xs_attemptId (pr_step r) \<noteq> as_attemptId e \<and> xs_status (pr_step r) = StepRunning)
                 StepCancelled (as_startedAt e) rm)
      | TurnsRolledBack e \<Rightarrow>
          Inr (close_steps
                 (\<lambda>r. pr_sessionId r = stream_id \<and>
                    list_ex (\<lambda>t. tr_id t = xs_turnId (pr_step r) \<and> tr_sessionId t = stream_id \<and>
                       js_less (rb_throughOrdinal e) (js_of_int (tr_ordinal t))) (rm_turns rm))
                 StepCancelled (rb_rolledBackAt e) rm)
      | TurnSettled turn_id outcome tm \<Rightarrow>
          Inr (close_steps
                 (\<lambda>r. pr_sessionId r = stream_id \<and> xs_turnId (pr_step r) = turn_id \<and>
                    xs_status (pr_step r) = StepRunning)
                 (if outcome = OutcomeError then StepFailed else StepCancelled) tm rm)
      | SessionDeleted tm \<Rightarrow>
          Inr (rm\<lparr>rm_steps := delete_where (\<lambda>r. pr_sessionId r = stream_id) (rm_steps rm)\<rparr>)
      | MessagePersisted m \<Rightarrow> project_step_message dec attempt_override stream_id m rm
      | _ \<Rightarrow> Inr rm)"

section \<open>Inputs\<close>

definition same_input :: "string \<Rightarrow> input_kind \<Rightarrow> string \<Rightarrow> input_row \<Rightarrow> bool" where
  "same_input stream_id kind key r \<longleftrightarrow>
     ir_sessionId r = stream_id \<and> ir_kind r = kind \<and> ir_requestId r = key"

text \<open>\<open>Number.isNaN(new Date(at).getTime())\<close> is false in the range of a \<open>Date\<close>.\<close>

definition request_input ::
  "string \<Rightarrow> int \<Rightarrow> input_kind \<Rightarrow> string \<Rightarrow> string \<Rightarrow> int \<Rightarrow> string option \<Rightarrow> input_owner option \<Rightarrow>
   input_row list \<Rightarrow> input_row list"
where
  "request_input stream_id seq kind key request_json requested_at turn_id owner rows =
     (if \<not> date_valid requested_at then rows
      else
        upsert (same_input stream_id kind key)
          (\<lambda>r. case ir_requestedSequence r of None \<Rightarrow> True | Some previous \<Rightarrow> previous \<ge> seq)
          (\<lambda>r. r\<lparr>ir_requestJson := Some request_json,
                 ir_ownerJson :=
                   (case ir_requestedSequence r of
                      Some previous \<Rightarrow> if previous > seq then owner else or_opt (ir_ownerJson r) owner
                    | None \<Rightarrow> or_opt (ir_ownerJson r) owner),
                 ir_turnId := turn_id, ir_requestedAt := Some requested_at,
                 ir_requestedSequence := Some seq,
                 ir_updatedSequence := max (ir_updatedSequence r) seq\<rparr>)
          \<lparr>ir_sessionId = stream_id, ir_kind = kind, ir_requestId = key, ir_status = InputPending,
           ir_requestJson = Some request_json, ir_awaitingDismissal = 0, ir_ownerJson = owner,
           ir_turnId = turn_id, ir_requestedAt = Some requested_at,
           ir_requestedSequence = Some seq, ir_updatedSequence = seq\<rparr>
          rows)"

definition resolve_input ::
  "string \<Rightarrow> int \<Rightarrow> input_kind \<Rightarrow> string \<Rightarrow> input_status \<Rightarrow> input_row list \<Rightarrow> input_row list" where
  "resolve_input stream_id seq kind key status' rows =
     upsert (same_input stream_id kind key)
       (\<lambda>r. ir_status r = InputPending \<or>
          (ir_status r = InputExpired \<and> ir_updatedSequence r < seq))
       (\<lambda>r. r\<lparr>ir_status := status', ir_awaitingDismissal := 0,
              ir_updatedSequence := max (ir_updatedSequence r) seq\<rparr>)
       \<lparr>ir_sessionId = stream_id, ir_kind = kind, ir_requestId = key, ir_status = status',
        ir_requestJson = None, ir_awaitingDismissal = 0, ir_ownerJson = None, ir_turnId = None,
        ir_requestedAt = None, ir_requestedSequence = None, ir_updatedSequence = seq\<rparr>
       rows"

text \<open>An expired request waits to be dismissed: \<open>UPDATE session_inputs SET awaiting_dismissal\<close>.\<close>

definition await_dismissal ::
  "string \<Rightarrow> int \<Rightarrow> input_kind \<Rightarrow> string \<Rightarrow> int \<Rightarrow> input_row list \<Rightarrow> input_row list" where
  "await_dismissal stream_id seq kind key value =
     update_where
       (\<lambda>r. same_input stream_id kind key r \<and> ir_status r = InputExpired \<and> ir_updatedSequence r = seq)
       (\<lambda>r. r\<lparr>ir_awaitingDismissal := value\<rparr>)"

definition question_answer_status :: "answer_resolution option \<Rightarrow> input_status" where
  "question_answer_status resolution =
     (case resolution of
        Some AnswerTimedOut \<Rightarrow> InputExpired
      | Some AnswerCancelled \<Rightarrow> InputCancelled
      | None \<Rightarrow> InputAnswered)"

text \<open>A plan whose tool call already has a result is answered when it is read.\<close>

definition plan_result_exists :: "sqlite_json \<Rightarrow> string \<Rightarrow> string \<Rightarrow> message_row list \<Rightarrow> bool" where
  "plan_result_exists sj stream_id item_id messages =
     list_ex (\<lambda>m. mr_sessionId m = stream_id \<and> mr_kind m = ''tool_result'' \<and>
        sj_itemId sj (mr_contentJson m) = Some item_id) messages"

definition input_message_kinds :: "string set" where
  "input_message_kinds = {''user_question'', ''user_question_answer'', ''tool_use'', ''tool_result''}"

definition project_input_content ::
  "sqlite_json \<Rightarrow> string \<Rightarrow> int \<Rightarrow> message_fields \<Rightarrow> message_content \<Rightarrow> message_row list \<Rightarrow>
   input_row list \<Rightarrow> input_row list"
where
  "project_input_content sj stream_id seq m content messages rows =
     (case content of
        ToolUseContent u \<Rightarrow>
          if tu_tool u = ''ExitPlanMode''
          then
            update_where
              (\<lambda>r. same_input stream_id InputPlan (tu_itemId u) r \<and>
                 plan_result_exists sj stream_id (tu_itemId u) messages)
              (\<lambda>r. r\<lparr>ir_status := InputAnswered, ir_awaitingDismissal := 0\<rparr>)
              (request_input stream_id seq InputPlan (tu_itemId u) (mf_contentJson m)
                 (mf_createdAt m) (mf_turnId m) (mf_inputOwner m) rows)
          else rows
      | ToolResultContent r \<Rightarrow>
          update_where (same_input stream_id InputPlan (tr_itemId r))
            (\<lambda>x. x\<lparr>ir_status := InputAnswered, ir_awaitingDismissal := 0,
                   ir_updatedSequence := max (ir_updatedSequence x) seq\<rparr>) rows
      | UserQuestionContent item_id questions parent \<Rightarrow>
          request_input stream_id seq InputQuestion item_id (mf_contentJson m) (mf_createdAt m)
            (mf_turnId m) (mf_inputOwner m) rows
      | UserQuestionAnswerContent resolution item_id answers parent \<Rightarrow>
          resolve_input stream_id seq InputQuestion item_id (question_answer_status resolution) rows
      | _ \<Rightarrow> rows)"

definition project_inputs ::
  "decoder \<Rightarrow> sqlite_json \<Rightarrow> session_event stored_event \<Rightarrow> message_row list \<Rightarrow> input_row list \<Rightarrow>
   input_row list"
where
  "project_inputs dec sj record messages rows =
     (let stream_id = se_streamId record; seq = se_sequence record in
      case se_event record of
        SessionDeleted tm \<Rightarrow> delete_where (\<lambda>r. ir_sessionId r = stream_id) rows
      | PermissionRequested owner request_id turn_id payload tm \<Rightarrow>
          request_input stream_id seq InputPermission request_id payload tm
            (case owner of
               None \<Rightarrow> Some turn_id
             | Some own \<Rightarrow> map_option own_turnId (io_attempt own)) owner rows
      | PermissionExpired request_id tm \<Rightarrow>
          resolve_input stream_id seq InputPermission request_id InputExpired rows
      | PermissionResolved request_id decision decision_json tm \<Rightarrow>
          resolve_input stream_id seq InputPermission request_id InputAnswered rows
      | PlanExpired item_id reason tm \<Rightarrow>
          await_dismissal stream_id seq InputPlan item_id (if reason = ReasonUncertain then 2 else 1)
            (resolve_input stream_id seq InputPlan item_id InputExpired rows)
      | QuestionExpired item_id tm \<Rightarrow>
          await_dismissal stream_id seq InputQuestion item_id 1
            (resolve_input stream_id seq InputQuestion item_id InputExpired rows)
      | QuestionResolved item_id tm \<Rightarrow>
          resolve_input stream_id seq InputQuestion item_id InputCancelled rows
      | MessagePersisted m \<Rightarrow>
          if mf_kind m \<notin> input_message_kinds then rows
          else
            (case dec (mf_contentJson m) of
               None \<Rightarrow> rows
             | Some content \<Rightarrow> project_input_content sj stream_id seq m content messages rows)
      | _ \<Rightarrow> rows)"

definition project_session_input ::
  "decoder \<Rightarrow> sqlite_json \<Rightarrow> session_event stored_event \<Rightarrow> read_model \<Rightarrow> read_model" where
  "project_session_input dec sj record rm =
     rm\<lparr>rm_inputs := project_inputs dec sj record (rm_messages rm) (rm_inputs rm)\<rparr>"

text \<open>The accepted message, after the conflict of its checkpoint was handled.\<close>

definition project_committed_message_input ::
  "decoder \<Rightarrow> sqlite_json \<Rightarrow> session_event stored_event \<Rightarrow> read_model \<Rightarrow> read_model" where
  "project_committed_message_input dec sj record rm =
     (case se_event record of
        MessagePersisted m \<Rightarrow>
          if mf_kind m \<notin> input_message_kinds then rm
          else
            (case find (\<lambda>r. mr_id r = mf_messageId m \<and> mr_sessionId r = se_streamId record)
                    (rm_messages rm) of
               None \<Rightarrow> rm
             | Some row \<Rightarrow>
                 project_session_input dec sj
                   (record\<lparr>se_sequence := mr_sequence row,
                           se_event :=
                             MessagePersisted
                               (m\<lparr>mf_contentJson := mr_contentJson row, mf_kind := mr_kind row,
                                  mf_createdAt := mr_createdAt row\<rparr>)\<rparr>) rm)
      | _ \<Rightarrow> rm)"

end
