(* ===== verification/Sql_Session_Projector.thy ===== *)
theory Sql_Session_Projector
  imports Sql_Projectors
begin

text \<open>
  The projector of sessions: \<open>projectors/sql-session-projector.ts\<close> of \<open>packages/domain/src\<close>. Every
  branch of \<open>apply\<close> with statements of its own is a definition \<open>project_<Event>\<close>.
\<close>

definition active_session_turn_statuses :: "turn_status list" where
  "active_session_turn_statuses = [TurnStarting, TurnRunning, TurnFinalizing]"

section \<open>Helpers\<close>

text \<open>\<open>ORDER BY updated_at DESC, id ASC LIMIT 1\<close>; texts compare bytewise.\<close>

fun text_less :: "string \<Rightarrow> string \<Rightarrow> bool" where
  "text_less xs [] = False"
| "text_less [] (y # ys) = True"
| "text_less (x # xs) (y # ys) =
     (byte x < byte y \<or> (byte x = byte y \<and> text_less xs ys))"

definition newer_session :: "session_row \<Rightarrow> session_row \<Rightarrow> bool" where
  "newer_session a b \<longleftrightarrow>
     sr_updatedAt a > sr_updatedAt b \<or> (sr_updatedAt a = sr_updatedAt b \<and> text_less (sr_id a) (sr_id b))"

definition first_session :: "session_row list \<Rightarrow> session_row option" where
  "first_session rows =
     (case rows of
        [] \<Rightarrow> None
      | r # rest \<Rightarrow> Some (fold (\<lambda>x best. if newer_session x best then x else best) rest r))"

definition replace_unavailable_active_session ::
  "string \<Rightarrow> int \<Rightarrow> read_model \<Rightarrow> read_model" where
  "replace_unavailable_active_session sid updated_at rm =
     rm\<lparr>rm_chats :=
          update_where (\<lambda>c. kr_activeSessionId c = Some sid)
            (\<lambda>c. c\<lparr>kr_activeSessionId :=
                     map_option sr_id
                       (first_session
                          (filter (\<lambda>r. sr_chatId r = kr_id c \<and> sr_id r \<noteq> sid \<and> sr_archivedAt r = None)
                             (rm_sessions rm))),
                   kr_updatedAt := updated_at\<rparr>)
            (rm_chats rm)\<rparr>"

definition upsert_provider_thread :: "string \<Rightarrow> provider_thread \<Rightarrow> read_model \<Rightarrow> read_model" where
  "upsert_provider_thread sid thread rm =
     (let key = scope_provider_thread_id sid (pt_id thread) in
      rm\<lparr>rm_threads :=
           upsert (\<lambda>r. hr_id r = key) (\<lambda>r. hr_sessionId r = sid)
             (\<lambda>r. r\<lparr>hr_nativeThreadId := pt_nativeThreadId thread,
                    hr_nativeHeadId := pt_nativeHeadId thread, hr_status := pt_status thread,
                    hr_firstTurnOrdinal :=
                      or_opt (hr_firstTurnOrdinal r) (pt_firstTurnOrdinal thread),
                    hr_lastTurnOrdinal := pt_lastTurnOrdinal thread,
                    hr_updatedAt := pt_updatedAt thread\<rparr>)
             \<lparr>hr_id = key, hr_sessionId = sid, hr_provider = pt_provider thread,
              hr_nativeThreadId = pt_nativeThreadId thread, hr_nativeHeadId = pt_nativeHeadId thread,
              hr_status = pt_status thread, hr_firstTurnOrdinal = pt_firstTurnOrdinal thread,
              hr_lastTurnOrdinal = pt_lastTurnOrdinal thread, hr_createdAt = pt_createdAt thread,
              hr_updatedAt = pt_updatedAt thread\<rparr>
             (rm_threads rm)\<rparr>)"

definition set_active_provider_thread ::
  "string \<Rightarrow> string option \<Rightarrow> int \<Rightarrow> read_model \<Rightarrow> read_model" where
  "set_active_provider_thread sid thread_id updated_at =
     update_session sid
       (\<lambda>r. r\<lparr>sr_activeProviderThreadId := map_option (scope_provider_thread_id sid) thread_id,
              sr_updatedAt := updated_at\<rparr>)"

text \<open>\<open>SELECT active_provider_thread_id FROM sessions WHERE id = ...\<close>\<close>

definition active_thread_of :: "read_model \<Rightarrow> string \<Rightarrow> string option" where
  "active_thread_of rm sid = Option.bind (find_session rm sid) sr_activeProviderThreadId"

definition retire_active_thread_row :: "string \<Rightarrow> int \<Rightarrow> read_model \<Rightarrow> read_model" where
  "retire_active_thread_row sid updated_at rm =
     set_active_provider_thread sid None updated_at
       (rm\<lparr>rm_threads :=
             update_where (\<lambda>r. Some (hr_id r) = active_thread_of rm sid)
               (\<lambda>r. r\<lparr>hr_status := ThreadClosed, hr_updatedAt := updated_at\<rparr>) (rm_threads rm)\<rparr>)"

definition active_turn_ordinal :: "read_model \<Rightarrow> string \<Rightarrow> int option" where
  "active_turn_ordinal rm sid =
     sql_max (map tr_ordinal
       (filter (\<lambda>t. tr_sessionId t = sid \<and> tr_status t \<in> set active_session_turn_statuses)
          (rm_turns rm)))"

definition bind_legacy_resume_row ::
  "string \<Rightarrow> string \<Rightarrow> string option option \<Rightarrow> int \<Rightarrow> read_model \<Rightarrow> read_model" where
  "bind_legacy_resume_row sid native_thread_id native_head_id tm rm =
     (case find_session rm sid of
        None \<Rightarrow> rm
      | Some row \<Rightarrow>
          let ordinal = active_turn_ordinal rm sid;
              head =
                Option.bind (find (\<lambda>p. Some (hr_id p) = sr_activeProviderThreadId row) (rm_threads rm))
                  hr_nativeHeadId;
              key = provider_thread_id_for sid (sr_providerId row) native_thread_id in
          set_active_provider_thread sid (Some key) tm
            (upsert_provider_thread sid
               \<lparr>pt_id = key, pt_provider = sr_providerId row, pt_nativeThreadId = native_thread_id,
                pt_nativeHeadId = (case native_head_id of None \<Rightarrow> head | Some h \<Rightarrow> h),
                pt_status = (if ordinal = None then ThreadIdle else ThreadActive),
                pt_firstTurnOrdinal = ordinal, pt_lastTurnOrdinal = ordinal,
                pt_createdAt = tm, pt_updatedAt = tm\<rparr> rm))"

section \<open>Creation\<close>

text \<open>
  \<open>decodeCreated\<close>: a stored creation is complete when no required field is missing; a missing
  \<open>queuePaused\<close> is false. The text of the failure names the first missing field.
\<close>

definition missing_created_field :: "session_created \<Rightarrow> string option" where
  "missing_created_field e =
     (if sc_title e = None then Some ''title''
      else if sc_providerId e = None then Some ''providerId''
      else if sc_model e = None then Some ''model''
      else if sc_status e = None then Some ''status''
      else if sc_runtimeMode e = None then Some ''runtimeMode''
      else if sc_agentsJson e = None then Some ''agentsJson''
      else if sc_worktreeId e = None then Some ''worktreeId''
      else if sc_forkedFromSessionId e = None then Some ''forkedFromSessionId''
      else if sc_forkedFromMessageId e = None then Some ''forkedFromMessageId''
      else if sc_permissionMode e = None then Some ''permissionMode''
      else if sc_toolSearch e = None then Some ''toolSearch''
      else None)"

definition created_session_row :: "session_created \<Rightarrow> session_row" where
  "created_session_row e =
     \<lparr>sr_id = sc_sessionId e, sr_projectId = sc_projectId e, sr_title = the (sc_title e),
      sr_titleProvenance = title_provenance_or_manual (sc_titleProvenance e),
      sr_providerId = the (sc_providerId e), sr_model = the (sc_model e),
      sr_status = the (sc_status e), sr_archivedAt = None, sr_activeProviderThreadId = None,
      sr_providerReservationId = None, sr_runtimeMode = the (sc_runtimeMode e),
      sr_agentsJson = or_null (sc_agentsJson e), sr_worktreeId = or_null (sc_worktreeId e),
      sr_chatId = sc_chatId e, sr_forkedFromSessionId = or_null (sc_forkedFromSessionId e),
      sr_forkedFromMessageId = or_null (sc_forkedFromMessageId e),
      sr_permissionMode = the (sc_permissionMode e), sr_toolSearch = the (sc_toolSearch e),
      sr_queuePaused = or_else (sc_queuePaused e) False, sr_createdAt = sc_createdAt e,
      sr_updatedAt = sc_createdAt e\<rparr>"

definition insert_delegation :: "session_created \<Rightarrow> delegation_row list \<Rightarrow> delegation_row list" where
  "insert_delegation e rows =
     (case sc_delegation e of
        None \<Rightarrow> rows
      | Some d \<Rightarrow>
          insert_or_ignore (\<lambda>r. dr_childSessionId r = sc_sessionId e)
            \<lparr>dr_childSessionId = sc_sessionId e, dr_childTurnId = dl_childTurnId d,
             dr_parentSessionId = dl_parentSessionId d, dr_parentTurnId = dl_parentTurnId d,
             dr_parentAttemptId = dl_parentAttemptId d,
             dr_providerSessionId = dl_providerSessionId d, dr_createdAt = sc_createdAt e\<rparr> rows)"

definition project_SessionCreated ::
  "string \<Rightarrow> session_created \<Rightarrow> read_model \<Rightarrow> projector_error + read_model" where
  "project_SessionCreated event_id e rm =
     (case missing_created_field e of
        Some field \<Rightarrow> Inl (SessionProjectionDecodeError event_id (''Missing key '' @ field))
      | None \<Rightarrow>
          at_date (sc_createdAt e)
            (let created =
                  rm\<lparr>rm_sessions :=
                       insert_or_ignore (\<lambda>r. sr_id r = sc_sessionId e) (created_session_row e)
                         (rm_sessions rm),
                     rm_chats :=
                       update_where (\<lambda>c. kr_id c = sc_chatId e)
                         (\<lambda>c. c\<lparr>kr_activeSessionId := Some (sc_sessionId e),
                                kr_updatedAt := sc_createdAt e\<rparr>) (rm_chats rm),
                     rm_delegations := insert_delegation e (rm_delegations rm)\<rparr> in
            Inr (case or_null (sc_cursor e) of
                   None \<Rightarrow> created
                 | Some cursor \<Rightarrow>
                     bind_legacy_resume_row (sc_sessionId e) cursor (Some None) (sc_createdAt e)
                       created)))"

section \<open>Sessions and threads\<close>

definition project_SessionProviderSet ::
  "string \<Rightarrow> string \<Rightarrow> string \<Rightarrow> int \<Rightarrow> read_model \<Rightarrow> read_model" where
  "project_SessionProviderSet sid provider' model' tm rm =
     update_session sid
       (\<lambda>r. r\<lparr>sr_providerId := provider', sr_model := model', sr_providerReservationId := None,
              sr_updatedAt := tm\<rparr>)
       (retire_active_thread_row sid tm rm)"

definition project_SessionWorktreeSet ::
  "string \<Rightarrow> string option \<Rightarrow> int \<Rightarrow> read_model \<Rightarrow> read_model" where
  "project_SessionWorktreeSet sid worktree tm rm =
     (let retired =
            (case find_session rm sid of
               None \<Rightarrow> rm
             | Some row \<Rightarrow>
                 if sr_worktreeId row \<noteq> worktree then retire_active_thread_row sid tm rm else rm) in
      update_session sid
        (\<lambda>r. r\<lparr>sr_providerReservationId :=
                 (if sr_worktreeId r = worktree then sr_providerReservationId r else None),
               sr_worktreeId := worktree, sr_updatedAt := tm\<rparr>) retired)"

definition project_SessionStatusSet ::
  "string \<Rightarrow> session_status \<Rightarrow> int \<Rightarrow> read_model \<Rightarrow> read_model" where
  "project_SessionStatusSet sid status' tm rm =
     (let updated =
            update_session sid (\<lambda>r. r\<lparr>sr_status := status', sr_updatedAt := tm\<rparr>) rm in
      if status' = StatusRunning
      then updated\<lparr>rm_turns :=
             update_where (\<lambda>t. tr_sessionId t = sid \<and> tr_status t = TurnStarting)
               (\<lambda>t. t\<lparr>tr_status := TurnRunning\<rparr>) (rm_turns updated)\<rparr>
      else updated)"

definition project_SessionArchived :: "string \<Rightarrow> int \<Rightarrow> read_model \<Rightarrow> read_model" where
  "project_SessionArchived sid tm rm =
     replace_unavailable_active_session sid tm
       (update_session sid
          (\<lambda>r. r\<lparr>sr_archivedAt := Some tm, sr_providerReservationId := None, sr_updatedAt := tm\<rparr>) rm)"

definition project_SessionUnarchived :: "string \<Rightarrow> int \<Rightarrow> read_model \<Rightarrow> read_model" where
  "project_SessionUnarchived sid tm rm =
     (let updated =
            update_session sid (\<lambda>r. r\<lparr>sr_archivedAt := None, sr_updatedAt := tm\<rparr>) rm in
      updated\<lparr>rm_chats :=
        update_where
          (\<lambda>c. kr_activeSessionId c = None \<and>
             Some (kr_id c) = map_option sr_chatId (find_session updated sid))
          (\<lambda>c. c\<lparr>kr_activeSessionId := Some sid, kr_updatedAt := tm\<rparr>) (rm_chats updated)\<rparr>)"

text \<open>A construction whose payload is not JSON makes the statement fail.\<close>

fun cancel_forks ::
  "sqlite_json \<Rightarrow> (fork_row \<Rightarrow> bool) \<Rightarrow> int \<Rightarrow> fork_row list \<Rightarrow> projector_error + fork_row list" where
  "cancel_forks sj p tm [] = Inr []"
| "cancel_forks sj p tm (r # rs) =
     and_then (cancel_forks sj p tm rs) (\<lambda>rest.
       if p r \<and> fr_completedAt r = None
       then (case sj_dropMessages sj (fr_payloadJson r) of
               None \<Rightarrow> Inl ProjectorSqlFailure
             | Some payload \<Rightarrow>
                 Inr (r\<lparr>fr_completedAt := Some tm, fr_cancelledAt := Some tm, fr_error := None,
                        fr_payloadJson := payload\<rparr> # rest))
       else Inr (r # rest))"

definition project_SessionDeleted ::
  "sqlite_json \<Rightarrow> string \<Rightarrow> int \<Rightarrow> read_model \<Rightarrow> projector_error + read_model" where
  "project_SessionDeleted sj sid tm rm =
     and_then (cancel_forks sj (\<lambda>r. fr_sessionId r = sid) tm (rm_forks rm)) (\<lambda>forks.
       at_date tm
         (let rm' = replace_unavailable_active_session sid tm (rm\<lparr>rm_forks := forks\<rparr>) in
          Inr (delete_sessions sj (\<lambda>r. sr_id r = sid)
                 (rm'\<lparr>rm_turns := delete_where (\<lambda>t. tr_sessionId t = sid) (rm_turns rm'),
                      rm_threads := delete_where (\<lambda>h. hr_sessionId h = sid) (rm_threads rm')\<rparr>))))"

section \<open>The queue\<close>

definition project_QueuedTurnEnqueued :: "string \<Rightarrow> queued_turn \<Rightarrow> read_model \<Rightarrow> read_model" where
  "project_QueuedTurnEnqueued sid q rm =
     update_chat_last_user_message sid (qt_createdAt q)
       (rm\<lparr>rm_queue :=
             insert_or_ignore (\<lambda>r. qr_id r = qt_queueId q)
               \<lparr>qr_id = qt_queueId q, qr_sessionId = sid, qr_queueOrder = qt_position q,
                qr_inputJson = qt_inputJson q, qr_createdAt = qt_createdAt q,
                qr_updatedAt = qt_createdAt q, qr_ready = qt_ready q\<rparr> (rm_queue rm)\<rparr>)"

definition update_queue_row ::
  "string \<Rightarrow> string \<Rightarrow> (queue_row \<Rightarrow> queue_row) \<Rightarrow> read_model \<Rightarrow> read_model" where
  "update_queue_row sid queue_id f rm =
     rm\<lparr>rm_queue := update_where (\<lambda>r. qr_id r = queue_id \<and> qr_sessionId r = sid) f (rm_queue rm)\<rparr>"

definition remove_queue_row :: "string \<Rightarrow> string \<Rightarrow> read_model \<Rightarrow> read_model" where
  "remove_queue_row sid queue_id rm =
     rm\<lparr>rm_queue := delete_where (\<lambda>r. qr_id r = queue_id \<and> qr_sessionId r = sid) (rm_queue rm)\<rparr>"

definition project_QueuedTurnsReordered ::
  "string \<Rightarrow> string list \<Rightarrow> int \<Rightarrow> read_model \<Rightarrow> read_model" where
  "project_QueuedTurnsReordered sid ids tm rm =
     fold (\<lambda>(position, queue_id).
             update_queue_row sid queue_id
               (\<lambda>r. r\<lparr>qr_queueOrder := int position, qr_updatedAt := tm\<rparr>))
       (zip [0..<length ids] ids) rm"

section \<open>Turns\<close>

text \<open>\<open>ON CONFLICT(id) DO NOTHING\<close>; a second turn with the ordinal breaks a constraint.\<close>

definition insert_turn_row :: "turn_row \<Rightarrow> turn_row list \<Rightarrow> projector_error + turn_row list" where
  "insert_turn_row row rows =
     (if list_ex (\<lambda>t. tr_id t = tr_id row) rows then Inr rows
      else if list_ex (\<lambda>t. tr_sessionId t = tr_sessionId row \<and> tr_ordinal t = tr_ordinal row) rows
      then Inl ProjectorSqlFailure
      else Inr (rows @ [row]))"

definition next_turn_ordinal :: "read_model \<Rightarrow> string \<Rightarrow> int" where
  "next_turn_ordinal rm sid =
     or_else (sql_max (map tr_ordinal (filter (\<lambda>t. tr_sessionId t = sid) (rm_turns rm)))) 0 + 1"

definition project_TurnStarted ::
  "string \<Rightarrow> string \<Rightarrow> int \<Rightarrow> int option \<Rightarrow> string option \<Rightarrow> string option option \<Rightarrow> read_model \<Rightarrow>
   projector_error + read_model"
where
  "project_TurnStarted sid turn_id tm event_ordinal event_attempt_id event_thread_id rm =
     (let ordinal = or_else event_ordinal (next_turn_ordinal rm sid);
          attempt_id = or_else event_attempt_id (attempt_id_for turn_id 1);
          thread_id =
            (case event_thread_id of
               None \<Rightarrow> active_thread_of rm sid
             | Some None \<Rightarrow> None
             | Some (Some key) \<Rightarrow> Some (scope_provider_thread_id sid key)) in
      and_then
        (insert_turn_row
           \<lparr>tr_id = turn_id, tr_sessionId = sid, tr_ordinal = ordinal, tr_status = TurnStarting,
            tr_phase = Some PhaseRunning, tr_providerThreadId = thread_id,
            tr_activeAttemptId = attempt_id, tr_attemptOrdinal = 1,
            tr_attemptReason = ReasonInitial, tr_requestedAt = tm, tr_completedAt = None\<rparr>
           (rm_turns rm))
        (\<lambda>turns'.
           let inserted = rm\<lparr>rm_turns := turns'\<rparr>;
               threaded =
                 (case thread_id of
                    None \<Rightarrow> inserted
                  | Some key \<Rightarrow>
                      inserted\<lparr>rm_threads :=
                        update_where (\<lambda>h. hr_id h = key \<and> hr_sessionId h = sid)
                          (\<lambda>h. h\<lparr>hr_status := ThreadActive,
                                 hr_firstTurnOrdinal :=
                                   Some (or_else (hr_firstTurnOrdinal h) ordinal),
                                 hr_lastTurnOrdinal := Some ordinal, hr_updatedAt := tm\<rparr>)
                          (rm_threads inserted)\<rparr>) in
           Inr (update_session sid (\<lambda>r. r\<lparr>sr_status := StatusRunning, sr_updatedAt := tm\<rparr>) threaded)))"

definition update_turn_row ::
  "string \<Rightarrow> string \<Rightarrow> (turn_row \<Rightarrow> turn_row) \<Rightarrow> read_model \<Rightarrow> read_model" where
  "update_turn_row sid turn_id f rm =
     rm\<lparr>rm_turns := update_where (\<lambda>t. tr_id t = turn_id \<and> tr_sessionId t = sid) f (rm_turns rm)\<rparr>"

definition touch_session :: "string \<Rightarrow> int \<Rightarrow> read_model \<Rightarrow> read_model" where
  "touch_session sid tm = update_session sid (\<lambda>r. r\<lparr>sr_updatedAt := tm\<rparr>)"

definition project_AttemptStarted :: "string \<Rightarrow> attempt_started \<Rightarrow> read_model \<Rightarrow> read_model" where
  "project_AttemptStarted sid e rm =
     touch_session sid (as_startedAt e)
       (update_turn_row sid (as_turnId e)
          (\<lambda>t. t\<lparr>tr_status := TurnStarting, tr_phase := Some PhaseRunning,
                 tr_activeAttemptId := as_attemptId e, tr_attemptOrdinal := as_ordinal e,
                 tr_attemptReason := as_reason e\<rparr>) rm)"

text \<open>The phase of a turn that is active.\<close>

definition project_phase ::
  "string \<Rightarrow> string \<Rightarrow> turn_phase \<Rightarrow> int \<Rightarrow> read_model \<Rightarrow> read_model" where
  "project_phase sid turn_id phase tm rm =
     touch_session sid tm
       (rm\<lparr>rm_turns :=
             update_where
               (\<lambda>t. tr_id t = turn_id \<and> tr_sessionId t = sid \<and>
                  tr_status t \<in> set active_session_turn_statuses)
               (\<lambda>t. t\<lparr>tr_phase := Some phase\<rparr>) (rm_turns rm)\<rparr>)"

definition last_message_time :: "read_model \<Rightarrow> string \<Rightarrow> int option" where
  "last_message_time rm chat_id =
     sql_max (map mr_createdAt (filter (\<lambda>m. in_chat rm chat_id (mr_sessionId m)) (rm_messages rm)))"

definition project_TurnsRolledBack :: "string \<Rightarrow> turns_rolled_back \<Rightarrow> read_model \<Rightarrow> read_model" where
  "project_TurnsRolledBack sid e rm =
     (let tm = rb_rolledBackAt e;
          cleared =
            update_session sid (\<lambda>r. r\<lparr>sr_activeProviderThreadId := None, sr_updatedAt := tm\<rparr>)
              (rm\<lparr>rm_turns :=
                    update_where
                      (\<lambda>t. tr_sessionId t = sid \<and>
                         js_less (rb_throughOrdinal e) (js_of_int (tr_ordinal t)))
                      (\<lambda>t. t\<lparr>tr_status := TurnRolledBack\<rparr>) (rm_turns rm),
                  rm_messages :=
                    delete_where (\<lambda>m. mr_sessionId m = sid \<and> mr_sequence m > rb_messageSequence e)
                      (rm_messages rm),
                  rm_threads :=
                    update_where (\<lambda>h. hr_sessionId h = sid)
                      (\<lambda>h. h\<lparr>hr_status := ThreadClosed, hr_updatedAt := tm\<rparr>) (rm_threads rm),
                  rm_inputs :=
                    update_where (\<lambda>r. ir_sessionId r = sid \<and> ir_status r = InputPending)
                      (\<lambda>r. r\<lparr>ir_status := InputExpired, ir_awaitingDismissal := 0\<rparr>)
                      (delete_where
                         (\<lambda>r. ir_sessionId r = sid \<and>
                            (case ir_requestedSequence r of
                               None \<Rightarrow> False | Some n \<Rightarrow> n > rb_messageSequence e))
                         (rm_inputs rm))\<rparr>) in
      case find_session cleared sid of
        None \<Rightarrow> cleared
      | Some row \<Rightarrow>
          update_chat_last_message (TargetChat (sr_chatId row))
            (last_message_time cleared (sr_chatId row)) cleared)"

definition project_TurnFinalizationRequested ::
  "string \<Rightarrow> string \<Rightarrow> string \<Rightarrow> read_model \<Rightarrow> read_model" where
  "project_TurnFinalizationRequested sid turn_id attempt_id rm =
     rm\<lparr>rm_turns :=
          update_where
            (\<lambda>t. tr_id t = turn_id \<and> tr_sessionId t = sid \<and> tr_activeAttemptId t = attempt_id \<and>
               (tr_status t = TurnStarting \<or> tr_status t = TurnRunning))
            (\<lambda>t. t\<lparr>tr_status := TurnFinalizing\<rparr>) (rm_turns rm)\<rparr>"

definition project_TurnSettled ::
  "string \<Rightarrow> string \<Rightarrow> settlement_outcome \<Rightarrow> int \<Rightarrow> read_model \<Rightarrow> read_model" where
  "project_TurnSettled sid turn_id outcome tm rm =
     (let settled =
            update_turn_row sid turn_id
              (\<lambda>t. t\<lparr>tr_status := outcome_turn_status outcome, tr_phase := None,
                     tr_completedAt := Some tm\<rparr>) rm in
      update_session sid (\<lambda>r. r\<lparr>sr_status := StatusIdle, sr_updatedAt := tm\<rparr>)
        (settled\<lparr>rm_threads :=
           update_where (\<lambda>h. Some (hr_id h) = active_thread_of settled sid \<and> hr_status h = ThreadActive)
             (\<lambda>h. h\<lparr>hr_status := ThreadIdle, hr_updatedAt := tm\<rparr>) (rm_threads settled)\<rparr>))"

section \<open>Messages\<close>

text \<open>SQLite stores NaN as \<open>NULL\<close>.\<close>

definition sql_number :: "js_number option \<Rightarrow> js_number option" where
  "sql_number n = (if n = Some NotANumber then None else n)"

definition newer_checkpoint :: "js_number option \<Rightarrow> js_number option \<Rightarrow> bool" where
  "newer_checkpoint stored incoming =
     (case incoming of
        None \<Rightarrow> stored = None
      | Some revision \<Rightarrow> (case stored of None \<Rightarrow> True | Some previous \<Rightarrow> js_less previous revision))"

definition upsert_message ::
  "string \<Rightarrow> int \<Rightarrow> message_fields \<Rightarrow> message_row list \<Rightarrow> message_row list" where
  "upsert_message sid seq m rows =
     (let revision = sql_number (mf_checkpointRevision m) in
      upsert (\<lambda>r. mr_id r = mf_messageId m)
        (\<lambda>r. mr_checkpointFinal r \<noteq> Some True \<and> newer_checkpoint (mr_checkpointRevision r) revision)
        (\<lambda>r. r\<lparr>mr_turnId := mf_turnId m, mr_role := mf_role m, mr_kind := mf_kind m,
               mr_contentJson := mf_contentJson m, mr_parentItemId := mf_parentItemId m,
               mr_checkpointRevision := revision, mr_checkpointFinal := mf_checkpointFinal m\<rparr>)
        \<lparr>mr_id = mf_messageId m, mr_sessionId = sid, mr_turnId = mf_turnId m, mr_role = mf_role m,
         mr_kind = mf_kind m, mr_contentJson = mf_contentJson m,
         mr_parentItemId = mf_parentItemId m, mr_createdAt = mf_createdAt m, mr_sequence = seq,
         mr_checkpointRevision = revision, mr_checkpointFinal = mf_checkpointFinal m\<rparr>
        rows)"

definition project_MessagePersisted ::
  "decoder \<Rightarrow> sqlite_json \<Rightarrow> session_event stored_event \<Rightarrow> message_fields \<Rightarrow> read_model \<Rightarrow>
   projector_error + read_model"
where
  "project_MessagePersisted dec sj record m rm =
     (let sid = se_streamId record;
          stored = rm\<lparr>rm_messages := upsert_message sid (se_sequence record) m (rm_messages rm)\<rparr> in
      and_then
        (project_execution_step dec None record (project_committed_message_input dec sj record stored))
        (\<lambda>stepped.
           let touched =
                 update_chat_last_message (TargetSession sid) (Some (mf_createdAt m))
                   (touch_session sid (mf_createdAt m) stepped) in
           Inr (if mf_role m = ''user''
                then update_chat_last_user_message sid (mf_createdAt m) touched else touched)))"

section \<open>The projector\<close>

definition session_projector_name :: string where
  "session_projector_name = ''session-read-model''"

primrec project_event ::
  "decoder \<Rightarrow> sqlite_json \<Rightarrow> session_event stored_event \<Rightarrow> read_model \<Rightarrow> session_event \<Rightarrow>
   projector_error + read_model"
where
  "project_event dec sj record rm (SessionCreated e) =
     project_SessionCreated (se_eventId record) e rm"
| "project_event dec sj record rm (SessionTitleSet title' provenance tm) =
     at_date tm
       (Inr (update_session (se_streamId record)
         (\<lambda>r. r\<lparr>sr_title := title', sr_titleProvenance := title_provenance_or_manual provenance,
                sr_updatedAt := tm\<rparr>) rm))"
| "project_event dec sj record rm (SessionModelSet model' tm) =
     at_date tm
       (Inr (update_session (se_streamId record)
         (\<lambda>r. r\<lparr>sr_model := model', sr_providerReservationId := None, sr_updatedAt := tm\<rparr>) rm))"
| "project_event dec sj record rm (SessionProviderSet provider' model' tm) =
     at_date tm
       (Inr (project_SessionProviderSet (se_streamId record) provider' model' tm rm))"
| "project_event dec sj record rm (SessionRuntimeModeSet mode tm) =
     at_date tm
       (Inr (update_session (se_streamId record)
         (\<lambda>r. r\<lparr>sr_runtimeMode := mode, sr_updatedAt := tm\<rparr>) rm))"
| "project_event dec sj record rm (SessionPermissionModeSet mode tm) =
     at_date tm
       (Inr (update_session (se_streamId record)
         (\<lambda>r. r\<lparr>sr_permissionMode := mode, sr_updatedAt := tm\<rparr>) rm))"
| "project_event dec sj record rm (SessionWorktreeSet worktree tm) =
     at_date tm
       (Inr (project_SessionWorktreeSet (se_streamId record) worktree tm rm))"
| "project_event dec sj record rm (SessionStatusSet status' tm) =
     at_date tm
       (Inr (project_SessionStatusSet (se_streamId record) status' tm rm))"
| "project_event dec sj record rm (SessionQueuePausedSet paused tm) =
     at_date tm
       (Inr (update_session (se_streamId record)
         (\<lambda>r. r\<lparr>sr_queuePaused := paused, sr_updatedAt := tm\<rparr>) rm))"
| "project_event dec sj record rm (SessionResumeSet cursor strategy provider_cursor tm) =
     (case cursor of
        None \<Rightarrow> Inr rm
      | Some native \<Rightarrow>
          if find_session rm (se_streamId record) = None then Inr rm
          else
            at_date tm
              (Inr (bind_legacy_resume_row (se_streamId record) native provider_cursor tm rm)))"
| "project_event dec sj record rm (ProviderThreadUpdated thread) =
     at_date (pt_createdAt thread)
       (at_date (pt_updatedAt thread) (Inr (upsert_provider_thread (se_streamId record) thread rm)))"
| "project_event dec sj record rm (ActiveProviderThreadSet thread_id tm) =
     at_date tm
       (Inr (set_active_provider_thread (se_streamId record) thread_id tm rm))"
| "project_event dec sj record rm (SessionArchived tm) =
     at_date tm
       (Inr (project_SessionArchived (se_streamId record) tm rm))"
| "project_event dec sj record rm (SessionUnarchived tm) =
     at_date tm
       (Inr (project_SessionUnarchived (se_streamId record) tm rm))"
| "project_event dec sj record rm (SessionDeleted tm) =
     project_SessionDeleted sj (se_streamId record) tm rm"
| "project_event dec sj record rm (TurnStarted turn_id tm ordinal attempt_id thread_id) =
     at_date tm
       (project_TurnStarted (se_streamId record) turn_id tm ordinal attempt_id thread_id rm)"
| "project_event dec sj record rm (AttemptProviderTurnBound turn_id attempt_id reference tm) = Inr rm"
| "project_event dec sj record rm (AttemptStarted e) =
     at_date (as_startedAt e)
       (Inr (project_AttemptStarted (se_streamId record) e rm))"
| "project_event dec sj record rm (ProviderRecoveryRequested turn_id attempt_id source_id reference tm) =
     Inr rm"
| "project_event dec sj record rm (ProviderTurnRequested turn_id attempt_id input start tm) = Inr rm"
| "project_event dec sj record rm (TurnsRolledBack e) =
     at_date (rb_rolledBackAt e)
       (Inr (project_TurnsRolledBack (se_streamId record) e rm))"
| "project_event dec sj record rm (TurnFinalizationRequested turn_id attempt_id outcome tm) =
     Inr (project_TurnFinalizationRequested (se_streamId record) turn_id attempt_id rm)"
| "project_event dec sj record rm (TurnSettled turn_id outcome tm) =
     at_date tm
       (Inr (project_TurnSettled (se_streamId record) turn_id outcome tm rm))"
| "project_event dec sj record rm (TurnInterruptRequested turn_id attempt_id tm) =
     at_date tm
       (Inr (project_phase (se_streamId record) turn_id PhaseInterruptRequested tm rm))"
| "project_event dec sj record rm (TurnInterruptAcknowledged turn_id tm) =
     at_date tm
       (Inr (project_phase (se_streamId record) turn_id PhaseInterruptAcknowledged tm rm))"
| "project_event dec sj record rm (TurnInterruptFailed turn_id reason tm) =
     at_date tm
       (Inr (project_phase (se_streamId record) turn_id PhaseRunning tm rm))"
| "project_event dec sj record rm (QueuedTurnEnqueued q) =
     at_date (qt_createdAt q)
       (Inr (project_QueuedTurnEnqueued (se_streamId record) q rm))"
| "project_event dec sj record rm (QueuedTurnUpdated queue_id input tm ready) =
     at_date tm
       (Inr (update_queue_row (se_streamId record) queue_id
         (\<lambda>r. r\<lparr>qr_inputJson := input, qr_updatedAt := tm, qr_ready := ready\<rparr>) rm))"
| "project_event dec sj record rm (QueuedTurnRemoved queue_id tm) =
     Inr (remove_queue_row (se_streamId record) queue_id rm)"
| "project_event dec sj record rm (QueuedTurnsReordered ids tm) =
     at_date tm
       (Inr (project_QueuedTurnsReordered (se_streamId record) ids tm rm))"
| "project_event dec sj record rm (QueuedTurnClaimed queue_id tm) =
     Inr (remove_queue_row (se_streamId record) queue_id rm)"
| "project_event dec sj record rm (SuccessorTurnScheduled su tm) = Inr rm"
| "project_event dec sj record rm (ScheduledSuccessorReady su tm) = Inr rm"
| "project_event dec sj record rm (MessagePersisted m) =
     at_date (mf_createdAt m)
       (project_MessagePersisted dec sj record m rm)"
| "project_event dec sj record rm (SegmentOpened turn_id segment_id kind tm) = Inr rm"
| "project_event dec sj record rm (SegmentSettled turn_id segment_id outcome tm) = Inr rm"
| "project_event dec sj record rm (PermissionRequested own request_id turn_id payload tm) = Inr rm"
| "project_event dec sj record rm (PermissionResolved request_id decision decision_json tm) = Inr rm"
| "project_event dec sj record rm (PermissionExpired request_id tm) = Inr rm"
| "project_event dec sj record rm (PlanExpired item_id reason tm) = Inr rm"
| "project_event dec sj record rm (QuestionExpired item_id tm) = Inr rm"
| "project_event dec sj record rm (QuestionResolved item_id tm) = Inr rm"
| "project_event dec sj record rm (ProviderSessionReserved provider' provider_session_id tm) =
     Inr (update_session (se_streamId record)
       (\<lambda>r. r\<lparr>sr_providerReservationId := Some provider_session_id\<rparr>) rm)"
| "project_event dec sj record rm (ProviderAttached provider' provider_session_id tm) =
     Inr (update_session (se_streamId record)
       (\<lambda>r. if sr_providerReservationId r \<noteq> provider_session_id
            then r\<lparr>sr_providerReservationId := None\<rparr> else r) rm)"
| "project_event dec sj record rm (ProviderStopRequested provider' provider_session_id tm) =
     Inr (update_session (se_streamId record)
       (\<lambda>r. if provider_session_id \<noteq> None \<and> sr_providerReservationId r = provider_session_id
            then r\<lparr>sr_providerReservationId := None\<rparr> else r) rm)"
| "project_event dec sj record rm (ProviderDetached provider' provider_session_id tm) =
     Inr (update_session (se_streamId record)
       (\<lambda>r. if provider_session_id \<noteq> None \<and> sr_providerReservationId r = provider_session_id
            then r\<lparr>sr_providerReservationId := None\<rparr> else r) rm)"

definition project_session ::
  "decoder \<Rightarrow> sqlite_json \<Rightarrow> session_event stored_event \<Rightarrow> read_model \<Rightarrow> projector_error + read_model"
where
  "project_session dec sj record rm =
     and_then (project_session_attempt record rm) (\<lambda>rm1.
       and_then
         (case se_event record of
            MessagePersisted m \<Rightarrow> Inr rm1
          | _ \<Rightarrow>
              and_then (project_execution_step dec None record rm1)
                (\<lambda>rm2. Inr (project_session_input dec sj record rm2)))
         (\<lambda>rm3.
           and_then (project_event dec sj record rm3 (se_event record)) (check_references sj)))"

section \<open>Queries of the session service\<close>

text \<open>\<open>providerReservation\<close> and \<open>activeAttempt\<close> of \<open>engine/session-domain.ts\<close>.\<close>

definition provider_reservation_query :: "read_model \<Rightarrow> string \<Rightarrow> string option" where
  "provider_reservation_query rm sid =
     Option.bind (find (\<lambda>r. sr_id r = sid \<and> sr_archivedAt r = None) (rm_sessions rm))
       sr_providerReservationId"

definition active_attempt_query :: "read_model \<Rightarrow> string \<Rightarrow> (string \<times> string) option" where
  "active_attempt_query rm sid =
     (case sort_key (\<lambda>t. - tr_ordinal t)
             (filter (\<lambda>t. tr_sessionId t = sid \<and> tr_status t \<in> set active_session_turn_statuses \<and>
                list_ex (\<lambda>r. sr_id r = tr_sessionId t \<and> sr_archivedAt r = None) (rm_sessions rm))
                (rm_turns rm)) of
        [] \<Rightarrow> None
      | t # _ \<Rightarrow> Some (tr_id t, tr_activeAttemptId t))"

end
