(* ===== verification/Sql_Chat_Projector.thy ===== *)
theory Sql_Chat_Projector
  imports Sql_Session_Projector
begin

text \<open>The projector of chats: \<open>projectors/sql-chat-projector.ts\<close> of \<open>packages/domain/src\<close>.\<close>

definition chat_projector_name :: string where
  "chat_projector_name = ''chat-read-model''"

definition update_chat :: "string \<Rightarrow> (chat_row \<Rightarrow> chat_row) \<Rightarrow> read_model \<Rightarrow> read_model" where
  "update_chat cid f rm = rm\<lparr>rm_chats := update_where (\<lambda>c. kr_id c = cid) f (rm_chats rm)\<rparr>"

definition project_ChatCreated :: "chat_created \<Rightarrow> read_model \<Rightarrow> read_model" where
  "project_ChatCreated e rm =
     rm\<lparr>rm_chats :=
          insert_or_ignore (\<lambda>c. kr_id c = cc_chatId e)
            \<lparr>kr_id = cc_chatId e, kr_projectId = cc_projectId e, kr_worktreeId = cc_worktreeId e,
             kr_title = cc_title e,
             kr_titleProvenance = title_provenance_or_manual (cc_titleProvenance e),
             kr_activeSessionId = None, kr_originSessionId = cc_originSessionId e,
             kr_archivedAt = None, kr_archivedWorktreeJson = None, kr_lastMessageAt = None,
             kr_lastUserMessageAt = None, kr_lastReadAt = cc_lastReadAt e,
             kr_createdAt = cc_createdAt e, kr_updatedAt = cc_createdAt e\<rparr>
            (rm_chats rm)\<rparr>"

text \<open>\<open>DELETE FROM chats\<close>, which deletes the sessions of the chat where the foreign key says so\<close>

definition project_ChatDeleted ::
  "sqlite_json \<Rightarrow> string \<Rightarrow> int \<Rightarrow> read_model \<Rightarrow> projector_error + read_model" where
  "project_ChatDeleted sj cid tm rm =
     and_then (cancel_forks sj (\<lambda>r. sj_chatId sj (fr_payloadJson r) = Some cid) tm (rm_forks rm))
       (\<lambda>forks.
          let rm' = rm\<lparr>rm_forks := forks,
                       rm_chats := delete_where (\<lambda>c. kr_id c = cid) (rm_chats rm)\<rparr> in
          Inr (if sj_foreignKeys sj \<and> chat_row_exists rm cid
               then delete_sessions sj (\<lambda>r. sr_chatId r = cid) rm' else rm'))"

text \<open>The branches of \<open>apply\<close>\<close>

fun project_chat_event ::
  "sqlite_json \<Rightarrow> string \<Rightarrow> chat_event \<Rightarrow> read_model \<Rightarrow> projector_error + read_model" where
  "project_chat_event sj cid (ChatCreated e) rm =
     at_date (cc_createdAt e)
       (case cc_lastReadAt e of
          None \<Rightarrow> Inr (project_ChatCreated e rm)
        | Some read_at \<Rightarrow> at_date read_at (Inr (project_ChatCreated e rm)))"
| "project_chat_event sj cid (ChatRenamed title' provenance tm) rm =
     at_date tm
       (Inr (update_chat cid
          (\<lambda>c. c\<lparr>kr_title := title', kr_titleProvenance := title_provenance_or_manual provenance,
                 kr_updatedAt := tm\<rparr>) rm))"
| "project_chat_event sj cid (ChatRead tm) rm =
     at_date tm (Inr (update_chat cid (\<lambda>c. c\<lparr>kr_lastReadAt := Some tm\<rparr>) rm))"
| "project_chat_event sj cid (ChatWorktreeSet worktree tm) rm =
     at_date tm
       (Inr (update_chat cid (\<lambda>c. c\<lparr>kr_worktreeId := worktree, kr_updatedAt := tm\<rparr>) rm))"
| "project_chat_event sj cid (ChatActiveSessionSet session tm) rm =
     at_date tm
       (Inr (if (case session of
                   None \<Rightarrow> True
                 | Some sid \<Rightarrow> list_ex (\<lambda>r. sr_id r = sid \<and> sr_chatId r = cid) (rm_sessions rm))
             then update_chat cid (\<lambda>c. c\<lparr>kr_activeSessionId := session, kr_updatedAt := tm\<rparr>) rm
             else rm))"
| "project_chat_event sj cid (ChatLastMessageSet message_at) rm =
     (case message_at of
        None \<Rightarrow> Inr (update_chat_last_message (TargetChat cid) None rm)
      | Some tm \<Rightarrow> at_date tm (Inr (update_chat_last_message (TargetChat cid) (Some tm) rm)))"
| "project_chat_event sj cid (ChatArchiveRequested tm force) rm = Inr rm"
| "project_chat_event sj cid (ChatArchived tm worktree_json) rm =
     at_date tm
       (Inr (update_chat cid
          (\<lambda>c. c\<lparr>kr_archivedAt := Some tm, kr_archivedWorktreeJson := worktree_json,
                 kr_updatedAt := tm\<rparr>) rm))"
| "project_chat_event sj cid (ChatArchiveCheckpointRecorded worktree_json tm) rm =
     at_date tm
       (Inr (update_chat cid
          (\<lambda>c. if kr_archivedAt c \<noteq> None
               then c\<lparr>kr_archivedWorktreeJson := Some worktree_json, kr_updatedAt := tm\<rparr> else c) rm))"
| "project_chat_event sj cid (ChatUnarchived tm worktree) rm =
     at_date tm
       (Inr (update_chat cid
          (\<lambda>c. c\<lparr>kr_archivedAt := None, kr_worktreeId := worktree,
                 kr_archivedWorktreeJson := None, kr_updatedAt := tm\<rparr>) rm))"
| "project_chat_event sj cid (ChatDeleteRequested tm) rm = Inr rm"
| "project_chat_event sj cid (ChatDeleted tm) rm = project_ChatDeleted sj cid tm rm"

definition project_chat ::
  "sqlite_json \<Rightarrow> string \<Rightarrow> chat_event \<Rightarrow> read_model \<Rightarrow> projector_error + read_model" where
  "project_chat sj cid e rm = and_then (project_chat_event sj cid e rm) (check_references sj)"

end
