(* ===== verification/Dispatch_Laws.thy ===== *)
theory Dispatch_Laws
  imports Dispatch Aggregate
begin

text \<open>
  The contract between the dispatch engines and their storage, and what follows for every
  engine and every storage that meets it.

  \<open>dispatch_storage\<close> states what a storage promises: reading returns the stream and the
  receipts, an append either leaves the state alone or adds its events to the end of one stream
  and its receipt, and it adds them only when the stream still has the expected length.
  \<open>event_sourced\<close> adds an engine: what it wants to append was decided on the state of the
  stream it read. The commands of any number of engines interleave step by step
  (\<open>interleaved\<close>): a receipt is looked up, a decision is taken on the events of that moment, and
  the append happens at some later moment.
\<close>

lemma upto_step: "[v + 1 .. v + int (Suc n)] = (v + 1) # [v + 1 + 1 .. v + 1 + int n]"
  by (subst upto_rec1) (simp_all add: algebra_simps)

section \<open>Interleaved commands\<close>

datatype ('c, 'e) flight =
  Looked "'c dispatch_input" "command_receipt option"
| Prepared "'c dispatch_input" "'e append_input"

text \<open>
  \<open>prepares st existing input ai\<close>: the engine that found \<open>existing\<close> as the receipt of \<open>input\<close>
  and reads the events in state \<open>st\<close> wants to append \<open>ai\<close>. A command may take a step more than
  once, and it may stop anywhere.
\<close>

inductive interleaved ::
  "('st, 's, 'e) storage_ops \<Rightarrow>
   ('st \<Rightarrow> command_receipt option \<Rightarrow> 'c dispatch_input \<Rightarrow> 'e append_input \<Rightarrow> bool) \<Rightarrow>
   'st \<Rightarrow> 'st \<Rightarrow> ('c, 'e) flight set \<Rightarrow> bool"
  for ops :: "('st, 's, 'e) storage_ops"
    and prepares :: "'st \<Rightarrow> command_receipt option \<Rightarrow> 'c dispatch_input \<Rightarrow> 'e append_input \<Rightarrow> bool"
    and st0 :: 'st
where
  idle: "interleaved ops prepares st0 st0 {}"
| look:
    "interleaved ops prepares st0 st fl \<Longrightarrow> op_receipt ops st (di_commandId input) = Inr existing \<Longrightarrow>
     interleaved ops prepares st0 st (insert (Looked input existing) fl)"
| choose:
    "interleaved ops prepares st0 st fl \<Longrightarrow> Looked input existing \<in> fl \<Longrightarrow>
     prepares st existing input ai \<Longrightarrow>
     interleaved ops prepares st0 st (insert (Prepared input ai) fl)"
| commit:
    "interleaved ops prepares st0 st fl \<Longrightarrow> Prepared input ai \<in> fl \<Longrightarrow>
     op_append ops st ai = (x, st') \<Longrightarrow> interleaved ops prepares st0 st' fl"

section \<open>The storage\<close>

locale dispatch_storage =
  fixes ops :: "('st, 's, 'e) storage_ops"
    and inv :: "'st \<Rightarrow> bool"
    and stream :: "'st \<Rightarrow> string \<Rightarrow> 'e stored_event list"
    and receipt_of :: "'st \<Rightarrow> string \<Rightarrow> command_receipt option"
  assumes read_receipt: "inv st \<Longrightarrow> op_receipt ops st command_id = Inr (receipt_of st command_id)"
    and read_events: "inv st \<Longrightarrow> op_events ops st stream_id = Inr (stream st stream_id)"
    and versions:
      "inv st \<Longrightarrow> map se_streamVersion (stream st sid) = [1 .. int (length (stream st sid))]"
    and append_inv: "inv st \<Longrightarrow> inv (snd (op_append ops st ai))"
    and append_refused: "\<lbrakk>inv st; op_append ops st ai = (Inl e, st')\<rbrakk> \<Longrightarrow> st' = st"
    and append_known:
      "\<lbrakk>inv st; receipt_of st (ai_commandId ai) = Some r; op_append ops st ai = (Inr r', st')\<rbrakk> \<Longrightarrow>
       st' = st \<and> r' = r \<and>
       validate_command_receipt (ai_commandId ai) (ai_streamId ai) (ai_receiptIdentity ai) r = Inr r"
    and append_new:
      "\<lbrakk>inv st; receipt_of st (ai_commandId ai) = None; op_append ops st ai = (Inr r, st')\<rbrakk> \<Longrightarrow>
       ai_expectedVersion ai = int (length (stream st (ai_streamId ai))) \<and>
       r = receipt_for ai (ai_expectedVersion ai + int (length (ai_events ai))) \<and>
       receipt_of st' = (receipt_of st)(ai_commandId ai \<mapsto> r) \<and>
       (\<exists>new. stream st' = (stream st)(ai_streamId ai := stream st (ai_streamId ai) @ new) \<and>
          map (\<lambda>x. (se_eventId x, se_event x)) new = ai_events ai)"
begin

definition grows :: "'st \<Rightarrow> 'st \<Rightarrow> bool" where
  "grows st st' \<longleftrightarrow>
     inv st' \<and> (\<forall>sid. \<exists>new. stream st' sid = stream st sid @ new) \<and> receipt_of st \<subseteq>\<^sub>m receipt_of st'"

lemma grows_refl: "inv st \<Longrightarrow> grows st st"
  by (simp add: grows_def map_le_def)

lemma grows_trans: "\<lbrakk>grows a b; grows b c\<rbrakk> \<Longrightarrow> grows a c"
  unfolding grows_def by (metis append_assoc map_le_trans)

lemma append_cases:
  assumes "inv st" "op_append ops st ai = (x, st')"
  obtains
    (same) "st' = st"
  | (new) r new where "x = Inr r" "receipt_of st (ai_commandId ai) = None"
      "ai_expectedVersion ai = int (length (stream st (ai_streamId ai)))"
      "r = receipt_for ai (ai_expectedVersion ai + int (length (ai_events ai)))"
      "receipt_of st' = (receipt_of st)(ai_commandId ai \<mapsto> r)"
      "stream st' = (stream st)(ai_streamId ai := stream st (ai_streamId ai) @ new)"
      "map (\<lambda>x. (se_eventId x, se_event x)) new = ai_events ai"
proof (cases x)
  case (Inl e)
  with assms append_refused that(1) show ?thesis by blast
next
  case (Inr r)
  show ?thesis
  proof (cases "receipt_of st (ai_commandId ai)")
    case None
    from append_new [OF assms(1) None assms(2) [unfolded Inr]] Inr None that(2) show ?thesis by blast
  next
    case (Some r0)
    from append_known [OF assms(1) Some assms(2) [unfolded Inr]] that(1) show ?thesis by blast
  qed
qed

lemma append_grows:
  assumes "inv st" "op_append ops st ai = (x, st')"
  shows "grows st st'"
  using assms
proof (cases rule: append_cases)
  case same
  with assms(1) show ?thesis by (simp add: grows_refl)
next
  case (new r new)
  moreover have "inv st'" using append_inv [OF assms(1), of ai] assms(2) by simp
  ultimately show ?thesis by (auto simp: grows_def map_le_def)
qed

lemma interleaved_grows:
  "\<lbrakk>interleaved ops prepares st0 st fl; inv st0\<rbrakk> \<Longrightarrow> grows st0 st"
proof (induction rule: interleaved.induct)
  case idle
  then show ?case by (rule grows_refl)
next
  case (commit st fl input ai x st')
  then have "grows st0 st" by simp
  moreover from this have "grows st st'"
    using commit.hyps(3) append_grows grows_def by blast
  ultimately show ?case by (rule grows_trans)
qed simp_all

text \<open>A finished append leaves the receipt it returns, and the receipt answers the input.\<close>

lemma append_receipt:
  assumes "inv st" "op_append ops st ai = (Inr r, st')"
  shows "receipt_of st' (ai_commandId ai) = Some r \<and>
    validate_command_receipt (ai_commandId ai) (ai_streamId ai) (ai_receiptIdentity ai) r = Inr r"
proof (cases "receipt_of st (ai_commandId ai)")
  case None
  from append_new [OF assms(1) None assms(2)] show ?thesis
    by (auto simp: validate_command_receipt_def receipt_for_def same_receipt_identity_def
        split: option.split)
next
  case (Some r0)
  from append_known [OF assms(1) Some assms(2)] Some show ?thesis by simp
qed

end

section \<open>An engine on a storage\<close>

locale event_sourced =
  dispatch_storage ops inv stream receipt_of +
  aggregate start apply_event decider count
  for ops :: "('st, 's, 'e) storage_ops"
    and inv :: "'st \<Rightarrow> bool"
    and stream :: "'st \<Rightarrow> string \<Rightarrow> 'e stored_event list"
    and receipt_of :: "'st \<Rightarrow> string \<Rightarrow> command_receipt option"
    and start :: 'a
    and apply_event :: "'a \<Rightarrow> 'e \<Rightarrow> 'a"
    and decider :: "'a \<Rightarrow> 'c \<Rightarrow> 'd + 'e list"
    and count :: "'a \<Rightarrow> int" +
  fixes prepares ::
    "'st \<Rightarrow> command_receipt option \<Rightarrow> 'c dispatch_input \<Rightarrow> 'e append_input \<Rightarrow> bool"
  assumes decided:
    "\<lbrakk>inv st; prepares st existing input ai\<rbrakk> \<Longrightarrow>
     ai_streamId ai = di_streamId input \<and>
     ai_expectedVersion ai =
       count (foldl apply_event start (map se_event (stream st (di_streamId input)))) \<and>
     decider (foldl apply_event start (map se_event (stream st (di_streamId input))))
       (di_command input) = Inr (map snd (ai_events ai))"
begin

definition log_of :: "'st \<Rightarrow> string \<Rightarrow> 'e list" where
  "log_of st sid = map se_event (stream st sid)"

definition replayed :: "'e list \<Rightarrow> 'a" where
  "replayed es = foldl apply_event start es"

text \<open>What a prepared append relies on: its decision was taken on a prefix of the stream.\<close>

definition decided_on_prefix :: "'st \<Rightarrow> 'e append_input \<Rightarrow> bool" where
  "decided_on_prefix st ai \<longleftrightarrow>
     (\<exists>old new c. log_of st (ai_streamId ai) = old @ new \<and>
        ai_expectedVersion ai = int (length old) \<and>
        decider (replayed old) c = Inr (map snd (ai_events ai)))"

lemma decided_when_prepared: "\<lbrakk>inv st; prepares st existing input ai\<rbrakk> \<Longrightarrow> decided_on_prefix st ai"
  using decided [of st existing input ai]
  unfolding decided_on_prefix_def log_of_def replayed_def
  by (intro exI [of _ "map se_event (stream st (ai_streamId ai))"] exI [of _ "[]"]
      exI [of _ "di_command input"]) (simp add: count_foldl count_start)

lemma decided_stays:
  assumes "decided_on_prefix st ai" "grows st st'"
  shows "decided_on_prefix st' ai"
proof -
  from assms(1) obtain old rest c where d: "log_of st (ai_streamId ai) = old @ rest"
    "ai_expectedVersion ai = int (length old)" "decider (replayed old) c = Inr (map snd (ai_events ai))"
    by (auto simp: decided_on_prefix_def)
  from assms(2) obtain new where "stream st' (ai_streamId ai) = stream st (ai_streamId ai) @ new"
    unfolding grows_def by blast
  with d(1) have "log_of st' (ai_streamId ai) = old @ rest @ map se_event new"
    by (simp add: log_of_def)
  with d(2,3) show ?thesis unfolding decided_on_prefix_def by blast
qed

lemma commit_reachable:
  assumes "inv st" "decided_on_prefix st ai" "op_append ops st ai = (x, st')"
    and logs: "\<forall>sid. reachable start apply_event decider (log_of st sid) (replayed (log_of st sid))"
  shows "reachable start apply_event decider (log_of st' sid) (replayed (log_of st' sid))"
  using assms(1,3)
proof (cases rule: append_cases)
  case same
  with logs show ?thesis by simp
next
  case (new r new)
  from assms(2) obtain old rest c where d:
    "log_of st (ai_streamId ai) = old @ rest" "ai_expectedVersion ai = int (length old)"
    "decider (replayed old) c = Inr (map snd (ai_events ai))"
    by (auto simp: decided_on_prefix_def)
  have "length (log_of st (ai_streamId ai)) = length old"
    using new(3) d(2) by (simp add: log_of_def)
  with d have c: "decider (replayed (log_of st (ai_streamId ai))) c = Inr (map snd (ai_events ai))"
    by simp
  have "map se_event new = map snd (ai_events ai)"
    unfolding new(7) [symmetric] by simp
  then have "log_of st' (ai_streamId ai) = log_of st (ai_streamId ai) @ map snd (ai_events ai)"
    using new(6) by (simp add: log_of_def)
  moreover have "log_of st' sid = log_of st sid" if "sid \<noteq> ai_streamId ai"
    using new(6) that by (simp add: log_of_def)
  ultimately show ?thesis
    using reach_step [OF logs [rule_format, of "ai_streamId ai"] c] logs
    by (cases "sid = ai_streamId ai") (simp_all add: replayed_def)
qed

text \<open>
  Whatever the interleaving, the log of every stream is one that accepted commands write one
  after the other.
\<close>

lemma interleaved_reachable:
  assumes "interleaved ops prepares st0 st fl" "inv st0"
    and "\<forall>sid. reachable start apply_event decider (log_of st0 sid) (replayed (log_of st0 sid))"
  shows "(\<forall>sid. reachable start apply_event decider (log_of st sid) (replayed (log_of st sid))) \<and>
    (\<forall>input ai. Prepared input ai \<in> fl \<longrightarrow> decided_on_prefix st ai)"
  using assms
proof (induction rule: interleaved.induct)
  case idle
  then show ?case by simp
next
  case (look st fl input existing)
  then show ?case by simp
next
  case (choose st fl input existing ai)
  moreover have "inv st"
    using interleaved_grows [OF choose.hyps(1) choose.prems(1)] by (simp add: grows_def)
  ultimately show ?case using decided_when_prepared by auto
next
  case (commit st fl input ai x st')
  have i: "inv st"
    using interleaved_grows [OF commit.hyps(1) commit.prems(1)] by (simp add: grows_def)
  note g = append_grows [OF i commit.hyps(3)]
  from commit.IH [OF commit.prems] have
    logs: "\<forall>sid. reachable start apply_event decider (log_of st sid) (replayed (log_of st sid))"
    and pre: "\<forall>input ai. Prepared input ai \<in> fl \<longrightarrow> decided_on_prefix st ai" by blast+
  from pre commit.hyps(2) have "decided_on_prefix st ai" by blast
  note commit_reachable [OF i this commit.hyps(3) logs]
  moreover have "decided_on_prefix st' ai'" if "Prepared input' ai' \<in> fl" for input' ai'
    using that pre by (intro decided_stays [OF _ g]) blast
  ultimately show ?case by simp
qed

end

section \<open>The engines meet the contract\<close>

definition session_prepares ::
  "decoder \<Rightarrow> ('st, 's, session_event) storage_ops \<Rightarrow> ('g, 'i) id_generator \<Rightarrow> 'st \<Rightarrow>
   command_receipt option \<Rightarrow> session_command dispatch_input \<Rightarrow> session_event append_input \<Rightarrow> bool"
where
  "session_prepares dec ops mk st existing input ai \<longleftrightarrow>
     (\<exists>g. fst (prepare_dispatch dec ops mk st g existing input) = Appending ai)"

definition aggregate_prepares ::
  "('a, 'c, 'e, 'd) aggregate_definition \<Rightarrow> ('st, 's, 'e) storage_ops \<Rightarrow> ('g, 'i) id_generator \<Rightarrow>
   'st \<Rightarrow> command_receipt option \<Rightarrow> 'c dispatch_input \<Rightarrow> 'e append_input \<Rightarrow> bool"
where
  "aggregate_prepares ad ops mk st existing input ai \<longleftrightarrow>
     (\<exists>g. fst (prepare_aggregate_dispatch ad ops mk st g existing input) = Appending ai)"

lemma mint_events: "mint mk g es = (Inr events, g') \<Longrightarrow> map snd events = es"
  by (induction es arbitrary: g g' events) (auto split: prod.splits sum.splits)

lemma prepare_append_Appending:
  "fst (prepare_append mk g input expected result decided) = Appending ai \<Longrightarrow>
   \<exists>es. decided = Inr es \<and> map snd (ai_events ai) = es \<and> ai_expectedVersion ai = expected \<and>
     ai_streamId ai = di_streamId input \<and> ai_commandId ai = di_commandId input \<and>
     ai_receiptIdentity ai = di_receiptIdentity input"
  using mint_events [of mk g]
  by (fastforce simp: prepare_append_def append_of_def split: sum.splits prod.splits)

lemma session_prepares_sound:
  assumes events: "op_events ops st (di_streamId input) = Inr stored"
    and prep: "session_prepares dec ops mk st existing input ai"
  shows "existing = None \<and> ai_streamId ai = di_streamId input \<and> ai_commandId ai = di_commandId input \<and>
    ai_receiptIdentity ai = di_receiptIdentity input \<and>
    ai_expectedVersion ai =
      version (foldl (evolve dec) initial_session_state (map se_event stored)) \<and>
    decide (foldl (evolve dec) initial_session_state (map se_event stored)) (di_command input) =
      Inr (map snd (ai_events ai))"
proof -
  from prep obtain g where g: "fst (prepare_dispatch dec ops mk st g existing input) = Appending ai"
    by (auto simp: session_prepares_def)
  then have "existing = None"
    by (auto simp: prepare_dispatch_def events Let_def split: option.splits)
  with g show ?thesis
    by (auto simp: prepare_dispatch_def events evolve_all_foldl Let_def split: option.splits
        dest!: prepare_append_Appending)
qed

lemma aggregate_prepares_sound:
  assumes events: "op_events ops st (di_streamId input) = Inr stored"
    and prep: "aggregate_prepares ad ops mk st existing input ai"
  shows "existing = None \<and> ai_streamId ai = di_streamId input \<and> ai_commandId ai = di_commandId input \<and>
    ai_receiptIdentity ai = di_receiptIdentity input \<and>
    ai_expectedVersion ai =
      ad_version ad (ad_evolveAll ad (ad_initialState ad) (map se_event stored)) \<and>
    ad_decide ad (ad_evolveAll ad (ad_initialState ad) (map se_event stored)) (di_command input) =
      Inr (map snd (ai_events ai))"
proof -
  from prep obtain g where g:
    "fst (prepare_aggregate_dispatch ad ops mk st g existing input) = Appending ai"
    by (auto simp: aggregate_prepares_def)
  then have "existing = None"
    by (auto simp: prepare_aggregate_dispatch_def split: option.splits)
  with g show ?thesis
    by (auto simp: prepare_aggregate_dispatch_def events Let_def dest!: prepare_append_Appending)
qed

section \<open>A command takes effect once\<close>

definition plain_input :: "'c dispatch_input \<Rightarrow> bool" where
  "plain_input input \<longleftrightarrow> di_expectedAttempt input = None \<and> di_expectedProviderSessionId input = None"

context dispatch_storage
begin

definition answered :: "'st \<Rightarrow> 'c dispatch_input \<Rightarrow> command_receipt \<Rightarrow> bool" where
  "answered st input r \<longleftrightarrow>
     receipt_of st (di_commandId input) = Some r \<and>
     validate_command_receipt (di_commandId input) (di_streamId input) (di_receiptIdentity input) r =
       Inr r"

lemma answered_grows: "\<lbrakk>answered st input r; grows st st'\<rbrakk> \<Longrightarrow> answered st' input r"
  by (auto simp: answered_def grows_def map_le_def dom_def)

lemma validated_Inr:
  "validated input r0 = Inr r \<longleftrightarrow>
     r0 = r \<and> validate_command_receipt (di_commandId input) (di_streamId input)
       (di_receiptIdentity input) r = Inr r"
  by (auto simp: validated_def validate_command_receipt_def split: sum.splits option.splits if_splits)

text \<open>The receipt a run returns answers the input from then on.\<close>

lemma finish_answered:
  assumes "inv st" "finish_dispatch ops st p = (Inr r, st')"
    and "\<And>x. p = Finished (Inr x) \<Longrightarrow> answered st input x"
    and "\<And>ai. p = Appending ai \<Longrightarrow> ai_streamId ai = di_streamId input \<and>
           ai_commandId ai = di_commandId input \<and> ai_receiptIdentity ai = di_receiptIdentity input"
  shows "answered st' input r \<and> inv st'"
proof (cases p)
  case (Finished x)
  with assms show ?thesis by (simp add: finish_dispatch_def)
next
  case (Appending ai)
  with assms(2) have a: "op_append ops st ai = (Inr r, st')"
    by (auto simp: finish_dispatch_def split: prod.splits sum.splits)
  from append_receipt [OF assms(1) a] append_inv [OF assms(1), of ai] a assms(4) [OF Appending]
  show ?thesis by (simp add: answered_def)
qed

end

text \<open>A storage of session events, and the engine of sessions on it.\<close>

locale session_storage = dispatch_storage ops inv stream receipt_of
  for ops :: "('st, 's, session_event) storage_ops"
    and inv :: "'st \<Rightarrow> bool"
    and stream :: "'st \<Rightarrow> string \<Rightarrow> session_event stored_event list"
    and receipt_of :: "'st \<Rightarrow> string \<Rightarrow> command_receipt option"
begin

lemma dispatch_answered:
  assumes "inv st" "dispatch_run dec ops mk st g input = (Inr r, st')"
  shows "answered st' input r \<and> inv st'"
proof -
  let ?e = "receipt_of st (di_commandId input)"
  let ?p = "fst (prepare_dispatch dec ops mk st g ?e input)"
  have "finish_dispatch ops st ?p = (Inr r, st')"
    using assms(2) by (simp add: dispatch_run_def read_receipt [OF assms(1)])
  moreover have "answered st input x" if "?p = Finished (Inr x)" for x
  proof -
    from that obtain r0 where "?e = Some r0" "validated input r0 = (Inr x :: (domain_error, 's, 'a) dispatch_failure + _)"
      by (auto simp: prepare_dispatch_def read_events [OF assms(1)] prepare_append_def Let_def
          split: option.splits sum.splits prod.splits)
    then show ?thesis by (simp add: answered_def validated_Inr)
  qed
  moreover have "ai_streamId ai = di_streamId input \<and> ai_commandId ai = di_commandId input \<and>
      ai_receiptIdentity ai = di_receiptIdentity input" if "?p = Appending ai" for ai
    using session_prepares_sound [OF read_events [OF assms(1)], of dec mk "?e" input ai] that
    by (auto simp: session_prepares_def)
  ultimately show ?thesis using finish_answered [OF assms(1)] by blast
qed

text \<open>What the ownership check says of an input on the events of a stream\<close>

definition conflict_on :: "decoder \<Rightarrow> 'st \<Rightarrow> session_command dispatch_input \<Rightarrow> dispatch_error option" where
  "conflict_on dec st input =
     (let log = map se_event (stream st (di_streamId input)) in
      ownership_conflict dec (evolve_all dec initial_session_state log) log input)"

lemma dispatch_repeat:
  assumes "inv st" "answered st input r"
  shows "dispatch_run dec ops mk st g input =
    (case conflict_on dec st input of None \<Rightarrow> Inr r | Some c \<Rightarrow> Inl (DispatchConflict c), st)"
proof (cases "plain_input input")
  case True
  then have "conflict_on dec st input = None"
    by (simp add: conflict_on_def ownership_conflict_def plain_input_def Let_def)
  with True assms show ?thesis
    by (simp add: dispatch_run_def read_receipt prepare_dispatch_def finish_dispatch_def answered_def
        validated_Inr plain_input_def)
next
  case False
  with assms show ?thesis
    by (auto simp: dispatch_run_def read_receipt read_events prepare_dispatch_def finish_dispatch_def answered_def
        validated_Inr plain_input_def conflict_on_def Let_def split: option.splits)
qed

text \<open>
  However often a finished command is dispatched again, and whatever other commands do in
  between, it appends nothing and returns the receipt of the first time, or is refused by the
  ownership check, which comes first.
\<close>

lemma dispatch_exactly_once:
  assumes "inv st" "dispatch_run dec ops mk st g input = (Inr r, st')"
    and "interleaved ops prepares st' st'' fl"
  shows "dispatch_run dec ops mk' st'' g' input =
    (case conflict_on dec st'' input of None \<Rightarrow> Inr r | Some c \<Rightarrow> Inl (DispatchConflict c), st'')"
proof -
  from dispatch_answered [OF assms(1,2)] have a: "answered st' input r" and "inv st'" by simp_all
  with interleaved_grows [OF assms(3)] have g: "grows st' st''" by simp
  then have "inv st''" by (simp add: grows_def)
  then show ?thesis by (rule dispatch_repeat) (rule answered_grows [OF a g])
qed

end

end
