(* ===== verification/Sql_Dispatch.thy ===== *)
theory Sql_Dispatch
  imports Dispatch_Laws
begin

text \<open>
  The storage of the server: \<open>engine/sql-dispatch-storage.ts\<close> and \<open>engine/persisted-event.ts\<close> of
  \<open>packages/domain/src\<close>, over the tables \<open>events\<close> and \<open>command_receipts\<close>.

  A table is the list of its rows in the order they were inserted. An insert that breaks a
  \<open>UNIQUE\<close> or \<open>PRIMARY KEY\<close> constraint fails, and \<open>withTransaction\<close> leaves the tables of a
  failed transaction as they were. The encoders and decoders of the schema library are
  parameters; an encoded value decodes to itself (\<open>codec_ok\<close>, \<open>receipt_codec_ok\<close>). The clock is
  a function of the database, which every insert changes.
\<close>

section \<open>Tables\<close>

record event_row =
  er_sequence :: int
  er_eventId :: string
  er_correlationId :: "string option"
  er_causationEventId :: "string option"
  er_streamKind :: string
  er_streamId :: string
  er_streamVersion :: int
  er_type :: string
  er_occurredAt :: string
  er_actor :: "string option"
  er_payloadJson :: string

record receipt_row =
  rr_commandId :: string
  rr_streamKind :: string
  rr_streamId :: string
  rr_streamVersion :: int
  rr_eventIdsJson :: string
  rr_resultJson :: "string option"
  rr_createdAt :: string
  rr_fingerprint :: "string option"
  rr_commandKind :: "string option"
  rr_schemaVersion :: "int option"
  rr_storageIncarnationId :: "string option"

text \<open>\<open>db_lastSequence\<close> is the counter of the \<open>AUTOINCREMENT\<close> key of \<open>events\<close>.\<close>

record event_db =
  db_events :: "event_row list"
  db_lastSequence :: int
  db_receipts :: "receipt_row list"

section \<open>Encoding\<close>

text \<open>A decoder returns the text of its failure or the value.\<close>

type_synonym 'a json_decoder = "string \<Rightarrow> string + 'a"

record 'e event_codec =
  ec_streamKind :: string
  ec_tag :: "'e \<Rightarrow> string"
  ec_encode :: "'e \<Rightarrow> string"
  ec_decode :: "'e json_decoder"

record receipt_codec =
  rc_encode :: "command_receipt \<Rightarrow> string"
  rc_decode :: "command_receipt json_decoder"
  rc_decodeIds :: "string list json_decoder"

definition codec_ok :: "'e event_codec \<Rightarrow> bool" where
  "codec_ok ec \<longleftrightarrow> (\<forall>e. ec_decode ec (ec_encode ec e) = Inr e)"

definition receipt_codec_ok :: "receipt_codec \<Rightarrow> bool" where
  "receipt_codec_ok rc \<longleftrightarrow> (\<forall>r. rc_decode rc (rc_encode rc r) = Inr r)"

datatype record_kind = EventRecord | ReceiptRecord

datatype sql_storage_error =
  SqlFailure
| StorageConflict dispatch_error
| DispatchPersistenceDecodeError record_kind string string

definition receipt_decode_error :: "string \<Rightarrow> string \<Rightarrow> sql_storage_error" where
  "receipt_decode_error record_id cause = DispatchPersistenceDecodeError ReceiptRecord record_id cause"

text \<open>\<open>None\<close> is \<open>"invalid"\<close>: some of the columns are bound and some are not.\<close>

definition receipt_identity_from_row :: "receipt_row \<Rightarrow> receipt_identity option option" where
  "receipt_identity_from_row row =
     (case (rr_fingerprint row, rr_commandKind row, rr_schemaVersion row, rr_storageIncarnationId row) of
        (None, None, None, None) \<Rightarrow> Some None
      | (Some fingerprint, Some kind, Some schema, Some incarnation) \<Rightarrow>
          Some (Some \<lparr>ri_fingerprint = fingerprint, ri_commandKind = kind,
                      ri_schemaVersion = schema, ri_storageIncarnationId = incarnation\<rparr>)
      | _ \<Rightarrow> None)"

definition receipt_from_row ::
  "receipt_codec \<Rightarrow> receipt_row \<Rightarrow> sql_storage_error + command_receipt" where
  "receipt_from_row rc row =
     (case receipt_identity_from_row row of
        None \<Rightarrow>
          Inl (receipt_decode_error (rr_commandId row) ''partially bound command receipt identity'')
      | Some identity \<Rightarrow>
          (case rr_resultJson row of
             Some result_json \<Rightarrow>
               (case rc_decode rc result_json of
                  Inl cause \<Rightarrow> Inl (receipt_decode_error (rr_commandId row) cause)
                | Inr receipt \<Rightarrow> Inr (receipt\<lparr>cr_receiptIdentity := identity\<rparr>))
           | None \<Rightarrow>
               (case rc_decodeIds rc (rr_eventIdsJson row) of
                  Inl cause \<Rightarrow> Inl (receipt_decode_error (rr_commandId row) cause)
                | Inr event_ids \<Rightarrow>
                    Inr \<lparr>cr_commandId = rr_commandId row, cr_streamId = rr_streamId row,
                         cr_streamVersion = rr_streamVersion row, cr_eventIds = event_ids,
                         cr_result = None, cr_receiptIdentity = identity\<rparr>)))"

definition decode_persisted_event ::
  "'e event_codec \<Rightarrow> event_row \<Rightarrow> sql_storage_error + 'e stored_event" where
  "decode_persisted_event ec row =
     (case ec_decode ec (er_payloadJson row) of
        Inl cause \<Rightarrow> Inl (DispatchPersistenceDecodeError EventRecord (er_eventId row) cause)
      | Inr e \<Rightarrow>
          Inr \<lparr>se_eventId = er_eventId row,
               se_correlationId = or_else (er_correlationId row) (er_eventId row),
               se_causationEventId = er_causationEventId row, se_streamId = er_streamId row,
               se_streamVersion = er_streamVersion row, se_sequence = er_sequence row,
               se_event = e\<rparr>)"

fun decode_rows ::
  "'e event_codec \<Rightarrow> event_row list \<Rightarrow> sql_storage_error + 'e stored_event list" where
  "decode_rows ec [] = Inr []"
| "decode_rows ec (row # rows) =
     (case decode_persisted_event ec row of
        Inl e \<Rightarrow> Inl e
      | Inr record \<Rightarrow>
          (case decode_rows ec rows of Inl e \<Rightarrow> Inl e | Inr rest \<Rightarrow> Inr (record # rest)))"

section \<open>Reading\<close>

definition sql_receipt ::
  "receipt_codec \<Rightarrow> 'z event_db_scheme \<Rightarrow> string \<Rightarrow> sql_storage_error + command_receipt option" where
  "sql_receipt rc db command_id =
     (case filter (\<lambda>row. rr_commandId row = command_id) (db_receipts db) of
        [] \<Rightarrow> Inr None
      | row # _ \<Rightarrow> (case receipt_from_row rc row of Inl e \<Rightarrow> Inl e | Inr r \<Rightarrow> Inr (Some r)))"

definition stream_rows :: "string \<Rightarrow> 'z event_db_scheme \<Rightarrow> string \<Rightarrow> event_row list" where
  "stream_rows kind db stream_id =
     filter (\<lambda>row. er_streamKind row = kind \<and> er_streamId row = stream_id) (db_events db)"

definition sql_events ::
  "'e event_codec \<Rightarrow> 'z event_db_scheme \<Rightarrow> string \<Rightarrow> sql_storage_error + 'e stored_event list" where
  "sql_events ec db stream_id =
     decode_rows ec (sort_key er_streamVersion (stream_rows (ec_streamKind ec) db stream_id))"

definition sql_events_after_sequence ::
  "'e event_codec \<Rightarrow> 'z event_db_scheme \<Rightarrow> string \<Rightarrow> int \<Rightarrow> sql_storage_error + 'e stored_event list"
where
  "sql_events_after_sequence ec db stream_id after_seq =
     decode_rows ec
       (sort_key er_sequence
          (filter (\<lambda>row. er_sequence row > after_seq) (stream_rows (ec_streamKind ec) db stream_id)))"

definition sql_all_events_after_sequence ::
  "'e event_codec \<Rightarrow> 'z event_db_scheme \<Rightarrow> int \<Rightarrow> sql_storage_error + 'e stored_event list" where
  "sql_all_events_after_sequence ec db after_seq =
     decode_rows ec
       (sort_key er_sequence
          (filter (\<lambda>row. er_streamKind row = ec_streamKind ec \<and> er_sequence row > after_seq)
             (db_events db)))"

definition sql_events_in_version_range ::
  "'e event_codec \<Rightarrow> 'z event_db_scheme \<Rightarrow> string \<Rightarrow> int \<Rightarrow> int \<Rightarrow>
   sql_storage_error + 'e stored_event list"
where
  "sql_events_in_version_range ec db stream_id from_exclusive to_inclusive =
     decode_rows ec
       (sort_key er_streamVersion
          (filter (\<lambda>row. er_streamVersion row > from_exclusive \<and> er_streamVersion row \<le> to_inclusive)
             (stream_rows (ec_streamKind ec) db stream_id)))"

text \<open>\<open>COALESCE(MAX(stream_version), 0)\<close>\<close>

definition sql_current_stream_version :: "string \<Rightarrow> 'z event_db_scheme \<Rightarrow> string \<Rightarrow> int" where
  "sql_current_stream_version kind db stream_id =
     (case map er_streamVersion (stream_rows kind db stream_id) of
        [] \<Rightarrow> 0 | v # vs \<Rightarrow> fold max vs v)"

section \<open>Appending\<close>

definition insert_event_row ::
  "'z event_db_scheme \<Rightarrow> event_row \<Rightarrow> sql_storage_error + 'z event_db_scheme" where
  "insert_event_row db row =
     (if list_ex (\<lambda>x. er_eventId x = er_eventId row \<or>
           (er_streamKind x = er_streamKind row \<and> er_streamId x = er_streamId row \<and>
            er_streamVersion x = er_streamVersion row)) (db_events db)
      then Inl SqlFailure
      else Inr (db\<lparr>db_events := db_events db @ [row\<lparr>er_sequence := db_lastSequence db + 1\<rparr>],
                   db_lastSequence := db_lastSequence db + 1\<rparr>))"

text \<open>The loop over the events of an append: \<open>v\<close> is \<open>streamVersion\<close>.\<close>

fun insert_events ::
  "'e event_codec \<Rightarrow> string \<Rightarrow> 'e append_input \<Rightarrow> int \<Rightarrow> (string \<times> 'e) list \<Rightarrow> 'z event_db_scheme \<Rightarrow>
   sql_storage_error + int \<times> 'z event_db_scheme"
where
  "insert_events ec occurred_at ai v [] db = Inr (v, db)"
| "insert_events ec occurred_at ai v ((key, e) # rest) db =
     (case insert_event_row db
             \<lparr>er_sequence = 0, er_eventId = key, er_correlationId = Some (ai_correlationId ai),
              er_causationEventId = ai_causationEventId ai, er_streamKind = ec_streamKind ec,
              er_streamId = ai_streamId ai, er_streamVersion = v + 1, er_type = ec_tag ec e,
              er_occurredAt = occurred_at, er_actor = None, er_payloadJson = ec_encode ec e\<rparr> of
        Inl failure \<Rightarrow> Inl failure
      | Inr db' \<Rightarrow> insert_events ec occurred_at ai (v + 1) rest db')"

definition receipt_row_for ::
  "receipt_codec \<Rightarrow> string \<Rightarrow> string \<Rightarrow> command_receipt \<Rightarrow> receipt_row" where
  "receipt_row_for rc kind occurred_at result =
     (let identity = cr_receiptIdentity result in
      \<lparr>rr_commandId = cr_commandId result, rr_streamKind = kind, rr_streamId = cr_streamId result,
       rr_streamVersion = cr_streamVersion result,
       rr_eventIdsJson = json_array (map json_string (cr_eventIds result)),
       rr_resultJson = Some (rc_encode rc (result\<lparr>cr_receiptIdentity := None\<rparr>)),
       rr_createdAt = occurred_at, rr_fingerprint = map_option ri_fingerprint identity,
       rr_commandKind = map_option ri_commandKind identity,
       rr_schemaVersion = map_option ri_schemaVersion identity,
       rr_storageIncarnationId = map_option ri_storageIncarnationId identity\<rparr>)"

definition insert_receipt_row ::
  "'z event_db_scheme \<Rightarrow> receipt_row \<Rightarrow> sql_storage_error + 'z event_db_scheme" where
  "insert_receipt_row db row =
     (if list_ex (\<lambda>x. rr_commandId x = rr_commandId row) (db_receipts db) then Inl SqlFailure
      else Inr (db\<lparr>db_receipts := db_receipts db @ [row]\<rparr>))"

text \<open>The body of the transaction; \<open>sql_append\<close> rolls a failed one back.\<close>

definition append_transaction ::
  "'e event_codec \<Rightarrow> receipt_codec \<Rightarrow> ('z event_db_scheme \<Rightarrow> string) \<Rightarrow> 'z event_db_scheme \<Rightarrow>
   'e append_input \<Rightarrow> sql_storage_error + command_receipt \<times> 'z event_db_scheme"
where
  "append_transaction ec rc now db ai =
     (case sql_receipt rc db (ai_commandId ai) of
        Inl e \<Rightarrow> Inl e
      | Inr (Some existing) \<Rightarrow>
          (case validate_command_receipt (ai_commandId ai) (ai_streamId ai) (ai_receiptIdentity ai)
                  existing of
             Inl e \<Rightarrow> Inl (StorageConflict e)
           | Inr r \<Rightarrow> Inr (r, db))
      | Inr None \<Rightarrow>
          let actual = sql_current_stream_version (ec_streamKind ec) db (ai_streamId ai) in
          if actual \<noteq> ai_expectedVersion ai
          then Inl (StorageConflict
                 (ConcurrencyConflict (ai_streamId ai) (ai_expectedVersion ai) actual))
          else
            (case insert_events ec (now db) ai (ai_expectedVersion ai) (ai_events ai) db of
               Inl e \<Rightarrow> Inl e
             | Inr (v, db') \<Rightarrow>
                 let result = receipt_for ai v in
                 (case insert_receipt_row db' (receipt_row_for rc (ec_streamKind ec) (now db) result) of
                    Inl e \<Rightarrow> Inl e
                  | Inr db'' \<Rightarrow> Inr (result, db''))))"

definition sql_append ::
  "'e event_codec \<Rightarrow> receipt_codec \<Rightarrow> ('z event_db_scheme \<Rightarrow> string) \<Rightarrow> 'z event_db_scheme \<Rightarrow>
   'e append_input \<Rightarrow> (sql_storage_error + command_receipt) \<times> 'z event_db_scheme"
where
  "sql_append ec rc now db ai =
     (case append_transaction ec rc now db ai of
        Inl e \<Rightarrow> (Inl e, db)
      | Inr (receipt, db') \<Rightarrow> (Inr receipt, db'))"

definition sql_ops ::
  "'e event_codec \<Rightarrow> receipt_codec \<Rightarrow> ('z event_db_scheme \<Rightarrow> string) \<Rightarrow>
   ('z event_db_scheme, sql_storage_error, 'e) storage_ops"
where
  "sql_ops ec rc now =
     \<lparr>op_receipt = sql_receipt rc, op_events = sql_events ec, op_append = sql_append ec rc now\<rparr>"

end
