(* ===== verification/Sql_Dispatch_Laws.thy ===== *)
theory Sql_Dispatch_Laws
  imports Sql_Dispatch
begin

text \<open>
  The SQL storage meets the storage contract, for every encoder whose values decode to
  themselves. The invariant of the tables is what the \<open>UNIQUE\<close> constraints and the appends give:
  the versions of a stream are 1, 2, 3 in the order of insertion, sequences grow, and every row
  decodes.
\<close>

definition streams_numbered :: "'z event_db_scheme \<Rightarrow> bool" where
  "streams_numbered db \<longleftrightarrow>
     (\<forall>kind sid. map er_streamVersion (stream_rows kind db sid) =
        [1 .. int (length (stream_rows kind db sid))])"

definition sequences_grow :: "'z event_db_scheme \<Rightarrow> bool" where
  "sequences_grow db \<longleftrightarrow>
     sorted_wrt (<) (map er_sequence (db_events db)) \<and>
     (\<forall>row \<in> set (db_events db). er_sequence row \<le> db_lastSequence db)"

definition rows_decode :: "'e event_codec \<Rightarrow> 'z event_db_scheme \<Rightarrow> bool" where
  "rows_decode ec db \<longleftrightarrow>
     (\<forall>row \<in> set (db_events db). er_streamKind row = ec_streamKind ec \<longrightarrow>
        (\<exists>record. decode_persisted_event ec row = Inr record))"

definition receipts_decode :: "receipt_codec \<Rightarrow> 'z event_db_scheme \<Rightarrow> bool" where
  "receipts_decode rc db \<longleftrightarrow>
     distinct (map rr_commandId (db_receipts db)) \<and>
     (\<forall>row \<in> set (db_receipts db). \<exists>r. receipt_from_row rc row = Inr r)"

definition sql_inv :: "'e event_codec \<Rightarrow> receipt_codec \<Rightarrow> 'z event_db_scheme \<Rightarrow> bool" where
  "sql_inv ec rc db \<longleftrightarrow>
     distinct (map er_eventId (db_events db)) \<and> streams_numbered db \<and> sequences_grow db \<and>
     rows_decode ec db \<and> receipts_decode rc db"

definition decoded_row :: "'e event_codec \<Rightarrow> event_row \<Rightarrow> 'e stored_event list" where
  "decoded_row ec row = (case decode_persisted_event ec row of Inl _ \<Rightarrow> [] | Inr r \<Rightarrow> [r])"

definition sql_stream :: "'e event_codec \<Rightarrow> 'z event_db_scheme \<Rightarrow> string \<Rightarrow> 'e stored_event list" where
  "sql_stream ec db sid = concat (map (decoded_row ec) (stream_rows (ec_streamKind ec) db sid))"

definition sql_receipt_of ::
  "receipt_codec \<Rightarrow> 'z event_db_scheme \<Rightarrow> string \<Rightarrow> command_receipt option" where
  "sql_receipt_of rc db command_id =
     (case sql_receipt rc db command_id of Inl _ \<Rightarrow> None | Inr x \<Rightarrow> x)"

section \<open>Reading\<close>

lemma decode_rows_ok:
  "(\<forall>row \<in> set rows. \<exists>record. decode_persisted_event ec row = Inr record) \<Longrightarrow>
   decode_rows ec rows = Inr (concat (map (decoded_row ec) rows))"
  by (induction rows) (auto simp: decoded_row_def)

lemma decoded_fields:
  assumes "\<forall>row \<in> set rows. \<exists>record. decode_persisted_event ec row = Inr record"
  shows "map se_streamVersion (concat (map (decoded_row ec) rows)) = map er_streamVersion rows"
    "map se_eventId (concat (map (decoded_row ec) rows)) = map er_eventId rows"
    "map se_sequence (concat (map (decoded_row ec) rows)) = map er_sequence rows"
    "length (concat (map (decoded_row ec) rows)) = length rows"
  using assms
  by (induction rows) (auto simp: decoded_row_def decode_persisted_event_def split: sum.splits)

lemma stream_rows_subset: "set (stream_rows kind db sid) \<subseteq> set (db_events db)"
  by (auto simp: stream_rows_def)

lemma stream_rows_decode:
  "rows_decode ec db \<Longrightarrow>
   \<forall>row \<in> set (stream_rows (ec_streamKind ec) db sid). \<exists>record. decode_persisted_event ec row = Inr record"
  by (auto simp: rows_decode_def stream_rows_def)

lemma versions_sorted:
  "streams_numbered db \<Longrightarrow> sort_key er_streamVersion (stream_rows kind db sid) = stream_rows kind db sid"
  by (rule sort_key_id_if_sorted) (simp add: streams_numbered_def)

lemma sql_events_ok:
  "sql_inv ec rc db \<Longrightarrow> sql_events ec db sid = Inr (sql_stream ec db sid)"
  unfolding sql_events_def sql_stream_def sql_inv_def
  by (simp only: versions_sorted decode_rows_ok [OF stream_rows_decode])

lemma sql_receipt_ok:
  "sql_inv ec rc db \<Longrightarrow> sql_receipt rc db command_id = Inr (sql_receipt_of rc db command_id)"
proof -
  assume "sql_inv ec rc db"
  then have d: "\<forall>row \<in> set (db_receipts db). \<exists>r. receipt_from_row rc row = Inr r"
    by (simp add: sql_inv_def receipts_decode_def)
  show ?thesis
  proof (cases "filter (\<lambda>row. rr_commandId row = command_id) (db_receipts db)")
    case Nil
    then show ?thesis by (simp add: sql_receipt_of_def sql_receipt_def)
  next
    case (Cons row rows)
    then have "row \<in> set (db_receipts db)" by (auto dest!: filter_eq_ConsD)
    with d obtain r where "receipt_from_row rc row = Inr r" by blast
    with Cons show ?thesis by (simp add: sql_receipt_of_def sql_receipt_def)
  qed
qed

lemma max_upto: "(case [1 .. int n] of [] \<Rightarrow> 0 | v # vs \<Rightarrow> fold max vs v) = int n"
proof (induction n)
  case (Suc n)
  have "[1 .. int (Suc n)] = [1 .. int n] @ [int n + 1]"
    using upto_rec2 [of 1 "int (Suc n)"] by simp
  with Suc show ?case by (cases "[1 .. int n]") auto
qed simp

lemma current_version_length:
  "streams_numbered db \<Longrightarrow> sql_current_stream_version kind db sid = int (length (stream_rows kind db sid))"
  by (simp only: sql_current_stream_version_def streams_numbered_def max_upto)

lemma sql_stream_length:
  "sql_inv ec rc db \<Longrightarrow> length (sql_stream ec db sid) = length (stream_rows (ec_streamKind ec) db sid)"
  by (simp only: sql_stream_def sql_inv_def decoded_fields [OF stream_rows_decode])

section \<open>Appending\<close>

text \<open>The row an event becomes.\<close>

definition appended_row :: "'e event_codec \<Rightarrow> 'e append_input \<Rightarrow> string \<times> 'e \<Rightarrow> event_row \<Rightarrow> bool" where
  "appended_row ec ai x row \<longleftrightarrow>
     er_eventId row = fst x \<and> er_payloadJson row = ec_encode ec (snd x) \<and>
     er_streamKind row = ec_streamKind ec \<and> er_streamId row = ai_streamId ai"

lemma insert_events_result:
  assumes "insert_events ec occurred_at ai v es db = Inr (v', db')"
    "distinct (map er_eventId (db_events db))" "sequences_grow db"
  shows "\<exists>rows n. db' = db\<lparr>db_events := db_events db @ rows, db_lastSequence := n\<rparr> \<and>
    v' = v + int (length es) \<and> length rows = length es \<and> list_all2 (appended_row ec ai) es rows \<and>
    map er_streamVersion rows = [v + 1 .. v + int (length es)] \<and>
    distinct (map er_eventId (db_events db')) \<and> sequences_grow db'"
  using assms
proof (induction es arbitrary: v db)
  case Nil
  then show ?case by (intro exI [of _ "[]"] exI [of _ "db_lastSequence db"]) auto
next
  case (Cons x es)
  obtain key e where x: "x = (key, e)" by (cases x)
  let ?row = "\<lparr>er_sequence = db_lastSequence db + 1, er_eventId = key,
      er_correlationId = Some (ai_correlationId ai), er_causationEventId = ai_causationEventId ai,
      er_streamKind = ec_streamKind ec, er_streamId = ai_streamId ai, er_streamVersion = v + 1,
      er_type = ec_tag ec e, er_occurredAt = occurred_at, er_actor = None,
      er_payloadJson = ec_encode ec e\<rparr>"
  let ?db = "db\<lparr>db_events := db_events db @ [?row], db_lastSequence := db_lastSequence db + 1\<rparr>"
  from Cons.prems(1) x have new: "key \<notin> er_eventId ` set (db_events db)"
    and rest: "insert_events ec occurred_at ai (v + 1) es ?db = Inr (v', db')"
    by (auto simp: insert_event_row_def list_ex_iff split: if_split_asm)
  have "distinct (map er_eventId (db_events ?db))" using Cons.prems(2) new by simp
  moreover have "sequences_grow ?db"
    using Cons.prems(3) by (fastforce simp: sequences_grow_def sorted_wrt_append)
  ultimately obtain rows n where r: "db' = ?db\<lparr>db_events := db_events ?db @ rows, db_lastSequence := n\<rparr>"
    "v' = v + 1 + int (length es)" "length rows = length es" "list_all2 (appended_row ec ai) es rows"
    "map er_streamVersion rows = [v + 1 + 1 .. v + 1 + int (length es)]"
    "distinct (map er_eventId (db_events db'))" "sequences_grow db'"
    using Cons.IH [OF rest] by blast
  have "map er_streamVersion (?row # rows) = [v + 1 .. v + int (length (x # es))]"
    unfolding length_Cons upto_step using r(5) by simp
  moreover have "db' = db\<lparr>db_events := db_events db @ (?row # rows), db_lastSequence := n\<rparr>"
    using r(1) by simp
  moreover have "list_all2 (appended_row ec ai) (x # es) (?row # rows)"
    using r(4) x by (simp add: appended_row_def)
  ultimately show ?case using r(2,3,6,7) by (intro exI [of _ "?row # rows"] exI [of _ n]) simp
qed

lemma receipt_row_decodes:
  assumes "receipt_codec_ok rc"
  shows "receipt_from_row rc (receipt_row_for rc kind tm r) = Inr r"
  using assms
  by (auto simp: receipt_codec_ok_def receipt_row_for_def receipt_from_row_def
      receipt_identity_from_row_def Let_def split: option.split)

lemma appended_rows_decode:
  assumes "codec_ok ec" "list_all2 (appended_row ec ai) es rows"
  shows "\<forall>row \<in> set rows. er_streamKind row = ec_streamKind ec \<and> er_streamId row = ai_streamId ai \<and>
      (\<exists>record. decode_persisted_event ec row = Inr record)"
    "map (\<lambda>x. (se_eventId x, se_event x)) (concat (map (decoded_row ec) rows)) = es"
  using assms(2)
  by (induction rule: list_all2_induct)
    (use assms(1) in \<open>auto simp: appended_row_def codec_ok_def decode_persisted_event_def decoded_row_def\<close>)

lemma append_transaction_new:
  assumes ok: "codec_ok ec" "receipt_codec_ok rc" and inv: "sql_inv ec rc db"
    and known: "sql_receipt_of rc db (ai_commandId ai) = None"
    and app: "append_transaction ec rc now db ai = Inr (r, db')"
  shows "sql_inv ec rc db' \<and> ai_expectedVersion ai = int (length (sql_stream ec db (ai_streamId ai))) \<and>
    r = receipt_for ai (ai_expectedVersion ai + int (length (ai_events ai))) \<and>
    sql_receipt_of rc db' = (sql_receipt_of rc db)(ai_commandId ai \<mapsto> r) \<and>
    (\<exists>new. sql_stream ec db' = (sql_stream ec db)(ai_streamId ai := sql_stream ec db (ai_streamId ai) @ new) \<and>
       map (\<lambda>x. (se_eventId x, se_event x)) new = ai_events ai)"
proof -
  note parts = inv [unfolded sql_inv_def]
  have nr: "sql_receipt rc db (ai_commandId ai) = Inr None"
    using known by (simp add: sql_receipt_ok [OF inv])
  from app obtain v db1 where
    ver: "sql_current_stream_version (ec_streamKind ec) db (ai_streamId ai) = ai_expectedVersion ai"
    and ins: "insert_events ec (now db) ai (ai_expectedVersion ai) (ai_events ai) db = Inr (v, db1)"
    and r: "r = receipt_for ai v"
    and rec: "insert_receipt_row db1 (receipt_row_for rc (ec_streamKind ec) (now db) r) = Inr db'"
    by (auto simp: append_transaction_def nr Let_def split: if_split_asm sum.splits)
  from insert_events_result [OF ins] parts obtain rows n where rows:
    "db1 = db\<lparr>db_events := db_events db @ rows, db_lastSequence := n\<rparr>"
    "v = ai_expectedVersion ai + int (length (ai_events ai))" "length rows = length (ai_events ai)"
    "list_all2 (appended_row ec ai) (ai_events ai) rows"
    "map er_streamVersion rows = [ai_expectedVersion ai + 1 .. ai_expectedVersion ai + int (length (ai_events ai))]"
    "distinct (map er_eventId (db_events db1))" "sequences_grow db1"
    by blast
  let ?row = "receipt_row_for rc (ec_streamKind ec) (now db) r"
  from rec have db': "db' = db1\<lparr>db_receipts := db_receipts db1 @ [?row]\<rparr>"
    and fresh: "\<forall>x \<in> set (db_receipts db1). rr_commandId x \<noteq> ai_commandId ai"
    by (simp_all add: insert_receipt_row_def list_ex_iff split: if_split_asm)
      (simp_all add: receipt_row_for_def r receipt_for_def Let_def)
  have events: "db_events db' = db_events db @ rows" "db_receipts db' = db_receipts db @ [?row]"
    by (simp_all add: db' rows(1))
  have receipts_db: "db_receipts db1 = db_receipts db" by (simp add: rows(1))
  have key: "rr_commandId ?row = ai_commandId ai"
    by (simp add: receipt_row_for_def r receipt_for_def Let_def)
  note dec = appended_rows_decode [OF ok(1) rows(4)]
  have here: "stream_rows kind db' sid = stream_rows kind db sid @
      (if kind = ec_streamKind ec \<and> sid = ai_streamId ai then rows else [])" for kind sid
    using dec(1) by (auto simp: stream_rows_def events(1) filter_id_conv filter_empty_conv)
  have expected: "ai_expectedVersion ai = int (length (stream_rows (ec_streamKind ec) db (ai_streamId ai)))"
    using current_version_length [of db "ec_streamKind ec" "ai_streamId ai"] ver parts by simp
  have numbered: "streams_numbered db'"
    using parts unfolding streams_numbered_def here
    by (auto simp: rows(3,5) expected upto_join)
  have "rows_decode ec db'"
    using parts dec(1) by (auto simp: rows_decode_def events(1))
  moreover have "receipts_decode rc db'"
    using parts fresh receipts_db receipt_row_decodes [OF ok(2)]
    by (auto simp: receipts_decode_def events(2) key)
  moreover have "sequences_grow db'" "distinct (map er_eventId (db_events db'))"
    using rows(6,7) by (simp_all add: db' sequences_grow_def)
  ultimately have "sql_inv ec rc db'" using numbered by (simp add: sql_inv_def)
  moreover have "sql_receipt_of rc db' = (sql_receipt_of rc db)(ai_commandId ai \<mapsto> r)"
  proof
    fix command_id
    have "filter (\<lambda>row. rr_commandId row = ai_commandId ai) (db_receipts db) = []"
      using fresh by (simp add: receipts_db filter_empty_conv)
    then show "sql_receipt_of rc db' command_id = ((sql_receipt_of rc db)(ai_commandId ai \<mapsto> r)) command_id"
      using receipt_row_decodes [OF ok(2)] key
      by (auto simp: sql_receipt_of_def sql_receipt_def events(2) split: list.split)
  qed
  moreover have "sql_stream ec db' =
      (sql_stream ec db)(ai_streamId ai := sql_stream ec db (ai_streamId ai) @ concat (map (decoded_row ec) rows))"
    by (auto simp: sql_stream_def here)
  ultimately show ?thesis
    using dec(2) r rows(2) expected sql_stream_length [OF inv] by (metis (no_types, lifting))
qed

lemma sql_append_cases:
  assumes "sql_append ec rc now db ai = (x, db')"
  shows "(\<exists>e. x = Inl e \<and> db' = db) \<or>
    (\<exists>r. x = Inr r \<and> append_transaction ec rc now db ai = Inr (r, db'))"
  using assms by (auto simp: sql_append_def split: sum.splits prod.splits)

lemma append_transaction_known:
  assumes "sql_receipt rc db (ai_commandId ai) = Inr (Some r)"
    "append_transaction ec rc now db ai = Inr (r', db')"
  shows "db' = db \<and> r' = r \<and>
    validate_command_receipt (ai_commandId ai) (ai_streamId ai) (ai_receiptIdentity ai) r = Inr r"
  using assms
  by (auto simp: append_transaction_def validate_command_receipt_def split: if_splits option.splits)

theorem sql_storage_laws:
  fixes now :: "'z event_db_scheme \<Rightarrow> string" and ec :: "'e event_codec"
  assumes ok: "codec_ok ec" "receipt_codec_ok rc"
  shows "dispatch_storage (sql_ops ec rc now) (sql_inv ec rc) (sql_stream ec) (sql_receipt_of rc)"
proof unfold_locales
  fix db :: "'z event_db_scheme" and ai
  assume inv: "sql_inv ec rc db"
  obtain x db' where app: "sql_append ec rc now db ai = (x, db')" by (cases "sql_append ec rc now db ai")
  show "sql_inv ec rc (snd (op_append (sql_ops ec rc now) db ai))"
    using sql_append_cases [OF app]
  proof (elim disjE exE conjE)
    fix r
    assume r: "append_transaction ec rc now db ai = Inr (r, db')"
    show ?thesis
    proof (cases "sql_receipt_of rc db (ai_commandId ai)")
      case None
      with append_transaction_new [OF ok inv None r] app show ?thesis by (simp add: sql_ops_def)
    next
      case (Some r0)
      then have "sql_receipt rc db (ai_commandId ai) = Inr (Some r0)"
        by (simp add: sql_receipt_ok [OF inv])
      from append_transaction_known [OF this r] app inv show ?thesis by (simp add: sql_ops_def)
    qed
  qed (use app inv in \<open>simp add: sql_ops_def\<close>)
next
  fix db :: "'z event_db_scheme" and ai r db'
  assume inv: "sql_inv ec rc db" and none: "sql_receipt_of rc db (ai_commandId ai) = None"
    and "op_append (sql_ops ec rc now) db ai = (Inr r, db')"
  then have "append_transaction ec rc now db ai = Inr (r, db')"
    using sql_append_cases [of ec rc now db ai "Inr r" db'] by (simp add: sql_ops_def)
  from append_transaction_new [OF ok inv none this] show
    "ai_expectedVersion ai = int (length (sql_stream ec db (ai_streamId ai))) \<and>
     r = receipt_for ai (ai_expectedVersion ai + int (length (ai_events ai))) \<and>
     sql_receipt_of rc db' = (sql_receipt_of rc db)(ai_commandId ai \<mapsto> r) \<and>
     (\<exists>new. sql_stream ec db' = (sql_stream ec db)(ai_streamId ai := sql_stream ec db (ai_streamId ai) @ new) \<and>
        map (\<lambda>x. (se_eventId x, se_event x)) new = ai_events ai)"
    by blast
next
  fix db :: "'z event_db_scheme" and ai r r' db'
  assume inv: "sql_inv ec rc db" and some: "sql_receipt_of rc db (ai_commandId ai) = Some r"
    and app: "op_append (sql_ops ec rc now) db ai = (Inr r', db')"
  then have "append_transaction ec rc now db ai = Inr (r', db')"
    using sql_append_cases [of ec rc now db ai "Inr r'" db'] by (simp add: sql_ops_def)
  moreover have "sql_receipt rc db (ai_commandId ai) = Inr (Some r)"
    using some by (simp add: sql_receipt_ok [OF inv])
  ultimately show "db' = db \<and> r' = r \<and>
    validate_command_receipt (ai_commandId ai) (ai_streamId ai) (ai_receiptIdentity ai) r = Inr r"
    by (rule append_transaction_known [rotated])
next
  fix db :: "'z event_db_scheme" and ai e db'
  assume "op_append (sql_ops ec rc now) db ai = (Inl e, db')"
  then show "db' = db"
    using sql_append_cases [of ec rc now db ai "Inl e" db'] by (simp add: sql_ops_def)
next
  fix db :: "'z event_db_scheme" and sid
  assume inv: "sql_inv ec rc db"
  then show "map se_streamVersion (sql_stream ec db sid) = [1 .. int (length (sql_stream ec db sid))]"
    using decoded_fields(1) [OF stream_rows_decode [of ec db sid]] sql_stream_length [OF inv, of sid]
    by (simp add: sql_stream_def sql_inv_def streams_numbered_def)
qed (simp_all add: sql_ops_def sql_events_ok sql_receipt_ok)

end
