(* ===== verification/Cursors.thy ===== *)
theory Cursors
  imports Sql_Dispatch_Laws
begin

text \<open>
  Consumers of the event log: \<open>engine/cursor-storage.ts\<close>, \<open>engine/projector-runner.ts\<close>,
  \<open>engine/reactor-runner.ts\<close> and \<open>engine/sql-consumer-storage.ts\<close> of \<open>packages/domain/src\<close>. A
  consumer remembers in a cursor the sequence of the last event it has handled.

  What a consumer writes besides its cursor is part of the state \<open>'st\<close>; an operation that fails
  inside a transaction leaves the state as it was.
\<close>

section \<open>Interfaces\<close>

text \<open>\<open>CursorStorage\<close> and \<open>ProjectorStorage\<close>\<close>

record ('st, 'err, 'ev) cursor_ops =
  co_cursor :: "'st \<Rightarrow> string \<Rightarrow> 'err + int"
  co_eventsAfter :: "'st \<Rightarrow> int \<Rightarrow> 'err + 'ev list"
  co_commitCursor :: "'st \<Rightarrow> string \<Rightarrow> int \<Rightarrow> 'err + 'st"

record ('st, 'err, 'ev) projector_ops = "('st, 'err, 'ev) cursor_ops" +
  po_applyAndCommit :: "'st \<Rightarrow> string \<Rightarrow> int \<Rightarrow> ('st \<Rightarrow> 'err + 'st) \<Rightarrow> 'err + 'st"

record ('st, 'err, 'ev) projector_definition =
  pd_name :: string
  pd_sequenceOf :: "'ev \<Rightarrow> int"
  pd_apply :: "'ev \<Rightarrow> 'st \<Rightarrow> 'err + 'st"

section \<open>The projector runner\<close>

text \<open>\<open>catchUp\<close>: every event is its own transaction, so the state of a failure is the one the
  last event left.\<close>

fun catch_up_loop ::
  "('st, 'err, 'ev) projector_ops \<Rightarrow> ('st, 'err, 'ev) projector_definition \<Rightarrow> int \<Rightarrow> 'ev list \<Rightarrow>
   'st \<Rightarrow> ('err + int) \<times> 'st"
where
  "catch_up_loop ops pd cursor [] st = (Inr cursor, st)"
| "catch_up_loop ops pd cursor (e # es) st =
     (let seq = pd_sequenceOf pd e in
      if seq \<le> cursor then catch_up_loop ops pd cursor es st
      else
        (case po_applyAndCommit ops st (pd_name pd) seq (pd_apply pd e) of
           Inl err \<Rightarrow> (Inl err, st)
         | Inr st' \<Rightarrow> catch_up_loop ops pd seq es st'))"

definition projector_catch_up ::
  "('st, 'err, 'ev) projector_ops \<Rightarrow> ('st, 'err, 'ev) projector_definition \<Rightarrow> 'st \<Rightarrow> ('err + int) \<times> 'st"
where
  "projector_catch_up ops pd st =
     (case co_cursor ops st (pd_name pd) of
        Inl err \<Rightarrow> (Inl err, st)
      | Inr cursor \<Rightarrow>
          (case co_eventsAfter ops st cursor of
             Inl err \<Rightarrow> (Inl err, st)
           | Inr events \<Rightarrow> catch_up_loop ops pd cursor events st))"

section \<open>The storage in memory\<close>

record 'ev memory_cursors =
  mc_cursors :: "(string, int) jsmap"
  mc_eventLog :: "'ev stored_event list"

definition memory_cursor_value :: "('ev, 'z) memory_cursors_scheme \<Rightarrow> string \<Rightarrow> int" where
  "memory_cursor_value st name = or_else (map_of (mc_cursors st) name) 0"

definition memory_events_after :: "('ev, 'z) memory_cursors_scheme \<Rightarrow> int \<Rightarrow> 'ev stored_event list" where
  "memory_events_after st seq = filter (\<lambda>e. se_sequence e > seq) (mc_eventLog st)"

definition memory_commit_cursor ::
  "('ev, 'z) memory_cursors_scheme \<Rightarrow> string \<Rightarrow> int \<Rightarrow> ('ev, 'z) memory_cursors_scheme" where
  "memory_commit_cursor st name seq = st\<lparr>mc_cursors := AList.update name seq (mc_cursors st)\<rparr>"

definition memory_projector_ops ::
  "(('ev, 'z) memory_cursors_scheme, 'err, 'ev stored_event) projector_ops" where
  "memory_projector_ops =
     \<lparr>co_cursor = (\<lambda>st name. Inr (memory_cursor_value st name)),
      co_eventsAfter = (\<lambda>st seq. Inr (memory_events_after st seq)),
      co_commitCursor = (\<lambda>st name seq. Inr (memory_commit_cursor st name seq)),
      po_applyAndCommit =
        (\<lambda>st name seq apply_event.
           case apply_event st of
             Inl err \<Rightarrow> Inl err
           | Inr st' \<Rightarrow> Inr (memory_commit_cursor st' name seq))\<rparr>"

section \<open>The storage in SQL\<close>

record cursor_row =
  cu_projectorName :: string
  cu_lastSequence :: int
  cu_updatedAt :: string

record consumer_db = event_db +
  cd_cursors :: "cursor_row list"

definition sql_cursor :: "'z consumer_db_scheme \<Rightarrow> string \<Rightarrow> int" where
  "sql_cursor db name =
     or_else (map_option cu_lastSequence (find (\<lambda>r. cu_projectorName r = name) (cd_cursors db))) 0"

text \<open>\<open>INSERT ... ON CONFLICT DO UPDATE SET last_sequence = MAX(...)\<close>\<close>

definition upsert_cursor :: "string \<Rightarrow> string \<Rightarrow> int \<Rightarrow> cursor_row list \<Rightarrow> cursor_row list" where
  "upsert_cursor updated_at name seq rows =
     (if list_ex (\<lambda>r. cu_projectorName r = name) rows
      then map (\<lambda>r. if cu_projectorName r = name
                    then r\<lparr>cu_lastSequence := max (cu_lastSequence r) seq,
                           cu_updatedAt := updated_at\<rparr>
                    else r) rows
      else rows @ [\<lparr>cu_projectorName = name, cu_lastSequence = seq, cu_updatedAt = updated_at\<rparr>])"

definition sql_commit_cursor ::
  "('z consumer_db_scheme \<Rightarrow> string) \<Rightarrow> 'z consumer_db_scheme \<Rightarrow> string \<Rightarrow> int \<Rightarrow>
   'z consumer_db_scheme"
where
  "sql_commit_cursor now db name seq =
     db\<lparr>cd_cursors := upsert_cursor (now db) name seq (cd_cursors db)\<rparr>"

text \<open>\<open>eventsAfter\<close> is the statement of \<open>sql_all_events_after_sequence\<close>.\<close>

definition sql_projector_ops ::
  "(sql_storage_error \<Rightarrow> 'err) \<Rightarrow> 'e event_codec \<Rightarrow> ('z consumer_db_scheme \<Rightarrow> string) \<Rightarrow>
   ('z consumer_db_scheme, 'err, 'e stored_event) projector_ops"
where
  "sql_projector_ops fail ec now =
     \<lparr>co_cursor = (\<lambda>db name. Inr (sql_cursor db name)),
      co_eventsAfter =
        (\<lambda>db seq. map_sum fail id (sql_all_events_after_sequence ec db seq)),
      co_commitCursor = (\<lambda>db name seq. Inr (sql_commit_cursor now db name seq)),
      po_applyAndCommit =
        (\<lambda>db name seq apply_event.
           case apply_event db of
             Inl err \<Rightarrow> Inl err
           | Inr db' \<Rightarrow> Inr (sql_commit_cursor now db' name seq))\<rparr>"

lemma sql_cursor_commit [simp]:
  "sql_cursor (sql_commit_cursor now db name seq) name =
     (if list_ex (\<lambda>r. cu_projectorName r = name) (cd_cursors db) then max (sql_cursor db name) seq else seq)"
proof -
  have upd: "map_option cu_lastSequence (find (\<lambda>r. cu_projectorName r = name) (upsert_cursor t name seq rows)) =
      Some (if list_ex (\<lambda>r. cu_projectorName r = name) rows
        then max (or_else (map_option cu_lastSequence (find (\<lambda>r. cu_projectorName r = name) rows)) 0) seq
        else seq)" for t rows
  proof (cases "list_ex (\<lambda>r. cu_projectorName r = name) rows")
    case True
    have "list_ex (\<lambda>r. cu_projectorName r = name) xs \<Longrightarrow>
       map_option cu_lastSequence (find (\<lambda>r. cu_projectorName r = name)
         (map (\<lambda>r. if cu_projectorName r = name
                    then r\<lparr>cu_lastSequence := max (cu_lastSequence r) seq, cu_updatedAt := t\<rparr> else r) xs)) =
       Some (max (or_else (map_option cu_lastSequence (find (\<lambda>r. cu_projectorName r = name) xs)) 0) seq)" for xs
      by (induction xs) auto
    with True show ?thesis by (simp add: upsert_cursor_def)
  next
    case False
    have "find P (rows @ [x]) = (if P x then Some x else None)" if "\<not> list_ex P rows" for P and x :: cursor_row
      using that by (induction rows) auto
    with False show ?thesis by (simp add: upsert_cursor_def)
  qed
  show ?thesis by (simp add: sql_cursor_def sql_commit_cursor_def upd)
qed

lemma sql_cursor_other [simp]:
  assumes ne: "name' \<noteq> name"
  shows "sql_cursor (sql_commit_cursor now db name seq) name' = sql_cursor db name'"
proof -
  have upd: "find (\<lambda>r. cu_projectorName r = name') (map (\<lambda>r. if cu_projectorName r = name
      then r\<lparr>cu_lastSequence := max (cu_lastSequence r) seq, cu_updatedAt := t\<rparr> else r) xs) =
      find (\<lambda>r. cu_projectorName r = name') xs" for t xs
    using ne by (induction xs) auto
  have app: "find P (xs @ [x]) = find P xs" if "\<not> P x" for P xs and x :: cursor_row
    using that by (induction xs) auto
  have "find (\<lambda>r. cu_projectorName r = name') (upsert_cursor t name seq rows) =
      find (\<lambda>r. cu_projectorName r = name') rows" for t rows
    using ne upd app by (auto simp: upsert_cursor_def)
  then show ?thesis by (simp add: sql_cursor_def sql_commit_cursor_def)
qed

end
