(* ===== verification/Jobs.thy ===== *)
theory Jobs
  imports Dispatch
begin

text \<open>
  Durable jobs: \<open>agent-engine/jobs.ts\<close> and \<open>agent-engine/job-ledger.ts\<close> of
  \<open>packages/domain/src\<close>. A job is provider-facing work that a committed event implies; the
  ledger keeps it in the table \<open>jobs\<close>, leases it to one worker and settles it.

  A timestamp column holds \<open>toISOString()\<close> of a time; such texts compare as the times they
  print, and the model keeps the time in milliseconds. \<open>jc\<close> are the encoder and the decoder of
  the schema library for a request. Every operation takes the time of its clock.
\<close>

section \<open>Requests\<close>

datatype job_request =
  CheckpointCapture string string settlement_outcome int
| ProviderStop "string option" int
| ProviderTurnRecover string string string turn_reference
| ProviderTurnSend string "string option" string "string option"
| ProviderTurnInterrupt string "string option" int
| ProviderSuccessorStart string string string

datatype job_kind =
  KindCheckpointCapture | KindProviderStop | KindTurnSend | KindTurnRecover | KindTurnInterrupt
| KindSuccessorStart

fun request_kind :: "job_request \<Rightarrow> job_kind" where
  "request_kind (CheckpointCapture t a outcome tm) = KindCheckpointCapture"
| "request_kind (ProviderStop p tm) = KindProviderStop"
| "request_kind (ProviderTurnRecover t a src r) = KindTurnRecover"
| "request_kind (ProviderTurnSend t a input start) = KindTurnSend"
| "request_kind (ProviderTurnInterrupt t a tm) = KindTurnInterrupt"
| "request_kind (ProviderSuccessorStart t q input) = KindSuccessorStart"

definition job_kinds :: "job_kind list" where
  "job_kinds =
     [KindCheckpointCapture, KindProviderStop, KindTurnSend, KindTurnRecover, KindTurnInterrupt,
      KindSuccessorStart]"

definition replayable_job_kinds :: "job_kind list" where
  "replayable_job_kinds =
     [KindCheckpointCapture, KindProviderStop, KindTurnSend, KindTurnRecover, KindTurnInterrupt,
      KindSuccessorStart]"

definition is_replayable_job_kind :: "job_kind \<Rightarrow> bool" where
  "is_replayable_job_kind kind = (kind \<in> set replayable_job_kinds)"

datatype job_status =
  JobPending | JobWaiting | JobRunning | JobSucceeded | JobFailed | JobCancelled

record job =
  jo_id :: string
  jo_sequence :: int
  jo_sessionId :: string
  jo_request :: job_request
  jo_status :: job_status
  jo_attemptCount :: int
  jo_availableAt :: int
  jo_leaseOwner :: "string option"
  jo_leaseExpiresAt :: "int option"
  jo_causationEventId :: "string option"
  jo_correlationId :: "string option"
  jo_lastError :: "string option"
  jo_createdAt :: int
  jo_updatedAt :: int
  jo_completedAt :: "int option"

record pending_job =
  pj_id :: string
  pj_sessionId :: string
  pj_request :: job_request
  pj_causationEventId :: string
  pj_correlationId :: string

section \<open>The jobs of an event\<close>

fun job_requests_for_event :: "session_event \<Rightarrow> job_request list" where
  "job_requests_for_event (ProviderStopRequested p psid tm) = [ProviderStop psid tm]"
| "job_requests_for_event (ProviderRecoveryRequested t a src r tm) = [ProviderTurnRecover t a src r]"
| "job_requests_for_event (TurnFinalizationRequested t a outcome tm) =
     [CheckpointCapture t a outcome tm]"
| "job_requests_for_event (ProviderTurnRequested t a input start tm) =
     [ProviderTurnSend t a input start]"
| "job_requests_for_event (TurnInterruptRequested t a tm) = [ProviderTurnInterrupt t a tm]"
| "job_requests_for_event (ScheduledSuccessorReady su tm) =
     [ProviderSuccessorStart (su_turnId su) (su_queueId su) (su_inputJson su)]"
| "job_requests_for_event _ = []"

definition job_id_for_event :: "session_event stored_event \<Rightarrow> nat \<Rightarrow> string" where
  "job_id_for_event record index = join_id [Text ''job'', Text (se_eventId record), Num (int index)]"

definition jobs_for_session_event :: "session_event stored_event \<Rightarrow> pending_job list" where
  "jobs_for_session_event record =
     (let requests = job_requests_for_event (se_event record) in
      map (\<lambda>(index, request).
             \<lparr>pj_id = job_id_for_event record index, pj_sessionId = se_streamId record,
              pj_request = request, pj_causationEventId = se_eventId record,
              pj_correlationId = se_correlationId record\<rparr>)
        (zip [0..<length requests] requests))"

section \<open>The table\<close>

record job_row =
  jr_sequence :: int
  jr_id :: string
  jr_sessionId :: string
  jr_kind :: job_kind
  jr_requestJson :: string
  jr_status :: job_status
  jr_attemptCount :: int
  jr_availableAt :: int
  jr_leaseOwner :: "string option"
  jr_leaseExpiresAt :: "int option"
  jr_causationEventId :: "string option"
  jr_correlationId :: "string option"
  jr_lastError :: "string option"
  jr_createdAt :: int
  jr_updatedAt :: int
  jr_completedAt :: "int option"

record job_table =
  jt_rows :: "job_row list"
  jt_lastSequence :: int

record job_codec =
  jc_encode :: "job_request \<Rightarrow> string"
  jc_decode :: "string \<Rightarrow> string + job_request"

datatype job_ledger_error = JobRowDecodeError string string

definition decode_job_row :: "job_codec \<Rightarrow> job_row \<Rightarrow> job_ledger_error + job" where
  "decode_job_row jc row =
     (case jc_decode jc (jr_requestJson row) of
        Inl cause \<Rightarrow> Inl (JobRowDecodeError (jr_id row) cause)
      | Inr request \<Rightarrow>
          Inr \<lparr>jo_id = jr_id row, jo_sequence = jr_sequence row, jo_sessionId = jr_sessionId row,
               jo_request = request, jo_status = jr_status row,
               jo_attemptCount = jr_attemptCount row, jo_availableAt = jr_availableAt row,
               jo_leaseOwner = jr_leaseOwner row, jo_leaseExpiresAt = jr_leaseExpiresAt row,
               jo_causationEventId = jr_causationEventId row,
               jo_correlationId = jr_correlationId row, jo_lastError = jr_lastError row,
               jo_createdAt = jr_createdAt row, jo_updatedAt = jr_updatedAt row,
               jo_completedAt = jr_completedAt row\<rparr>)"

text \<open>\<open>UPDATE jobs SET f WHERE p RETURNING id\<close>\<close>

definition update_jobs ::
  "(job_row \<Rightarrow> bool) \<Rightarrow> (job_row \<Rightarrow> job_row) \<Rightarrow> job_table \<Rightarrow> string list \<times> job_table" where
  "update_jobs p f jt =
     (map jr_id (filter p (jt_rows jt)),
      jt\<lparr>jt_rows := map (\<lambda>row. if p row then f row else row) (jt_rows jt)\<rparr>)"

section \<open>Enqueueing\<close>

text \<open>\<open>INSERT OR IGNORE ... RETURNING id\<close>: a job whose id is taken is not inserted.\<close>

definition insert_job :: "job_codec \<Rightarrow> int \<Rightarrow> job_table \<Rightarrow> pending_job \<Rightarrow> int \<times> job_table" where
  "insert_job jc now jt p =
     (if list_ex (\<lambda>row. jr_id row = pj_id p) (jt_rows jt) then (0, jt)
      else
        (1, jt\<lparr>jt_rows := jt_rows jt @
                 [\<lparr>jr_sequence = jt_lastSequence jt + 1, jr_id = pj_id p,
                   jr_sessionId = pj_sessionId p, jr_kind = request_kind (pj_request p),
                   jr_requestJson = jc_encode jc (pj_request p), jr_status = JobPending,
                   jr_attemptCount = 0, jr_availableAt = now, jr_leaseOwner = None,
                   jr_leaseExpiresAt = None, jr_causationEventId = Some (pj_causationEventId p),
                   jr_correlationId = Some (pj_correlationId p), jr_lastError = None,
                   jr_createdAt = now, jr_updatedAt = now, jr_completedAt = None\<rparr>],
               jt_lastSequence := jt_lastSequence jt + 1\<rparr>))"

fun enqueue_jobs :: "job_codec \<Rightarrow> int \<Rightarrow> pending_job list \<Rightarrow> job_table \<Rightarrow> int \<times> job_table" where
  "enqueue_jobs jc now [] jt = (0, jt)"
| "enqueue_jobs jc now (p # ps) jt =
     (case insert_job jc now jt p of
        (inserted, jt') \<Rightarrow>
          (case enqueue_jobs jc now ps jt' of (rest, jt'') \<Rightarrow> (inserted + rest, jt'')))"

section \<open>Claiming\<close>

record claim_input =
  cl_excludedKinds :: "job_kind list"
  cl_workerId :: string
  cl_leaseMs :: int
  cl_minAgeMs :: int
  cl_sessionId :: "string option"
  cl_includeWaitingBefore :: "int option"

text \<open>A missing \<open>includeWaitingBefore\<close> compares as the empty text, which no timestamp is below.\<close>

definition claimable :: "claim_input \<Rightarrow> int \<Rightarrow> job_row list \<Rightarrow> job_row \<Rightarrow> bool" where
  "claimable input now rows candidate \<longleftrightarrow>
     (jr_status candidate = JobPending \<and> jr_availableAt candidate \<le> now - cl_minAgeMs input \<or>
      jr_status candidate = JobWaiting \<and>
        (case cl_includeWaitingBefore input of
           None \<Rightarrow> False | Some before \<Rightarrow> jr_updatedAt candidate < before)) \<and>
     (case cl_sessionId input of None \<Rightarrow> True | Some sid \<Rightarrow> jr_sessionId candidate = sid) \<and>
     jr_kind candidate \<notin> set (cl_excludedKinds input) \<and>
     \<not> list_ex (\<lambda>active. jr_sessionId active = jr_sessionId candidate \<and> jr_status active = JobRunning)
         rows"

definition claimed_row :: "claim_input \<Rightarrow> int \<Rightarrow> job_row \<Rightarrow> job_row" where
  "claimed_row input now row =
     row\<lparr>jr_status := JobRunning, jr_leaseOwner := Some (cl_workerId input),
         jr_leaseExpiresAt := Some (now + cl_leaseMs input),
         jr_attemptCount := jr_attemptCount row + 1, jr_lastError := None, jr_updatedAt := now\<rparr>"

definition claim_next ::
  "job_codec \<Rightarrow> int \<Rightarrow> claim_input \<Rightarrow> job_table \<Rightarrow> (job_ledger_error + job option) \<times> job_table" where
  "claim_next jc now input jt =
     (case sort_key jr_sequence (filter (claimable input now (jt_rows jt)) (jt_rows jt)) of
        [] \<Rightarrow> (Inr None, jt)
      | row # _ \<Rightarrow>
          (case decode_job_row jc (claimed_row input now row) of
             Inl e \<Rightarrow> Inl e | Inr job \<Rightarrow> Inr (Some job),
           snd (update_jobs (\<lambda>x. jr_sequence x = jr_sequence row) (claimed_row input now) jt)))"

section \<open>The holder of a lease\<close>

text \<open>\<open>id = ... AND status = 'running' AND lease_owner = ... AND lease_expires_at > now\<close>\<close>

definition holds_lease :: "int \<Rightarrow> string \<Rightarrow> string \<Rightarrow> job_row \<Rightarrow> bool" where
  "holds_lease now job_id worker_id row \<longleftrightarrow>
     jr_id row = job_id \<and> jr_status row = JobRunning \<and> jr_leaseOwner row = Some worker_id \<and>
     (case jr_leaseExpiresAt row of None \<Rightarrow> False | Some expires \<Rightarrow> expires > now)"

definition released :: "job_row \<Rightarrow> job_row" where
  "released row = row\<lparr>jr_leaseOwner := None, jr_leaseExpiresAt := None\<rparr>"

definition held_update ::
  "int \<Rightarrow> string \<Rightarrow> string \<Rightarrow> (job_row \<Rightarrow> job_row) \<Rightarrow> job_table \<Rightarrow> bool \<times> job_table" where
  "held_update now job_id worker_id f jt =
     (case update_jobs (holds_lease now job_id worker_id) f jt of (ids, jt') \<Rightarrow> (length ids > 0, jt'))"

definition renew_lease :: "int \<Rightarrow> string \<Rightarrow> string \<Rightarrow> int \<Rightarrow> job_table \<Rightarrow> bool \<times> job_table" where
  "renew_lease now job_id worker_id lease_ms =
     held_update now job_id worker_id
       (\<lambda>row. row\<lparr>jr_leaseExpiresAt := Some (now + lease_ms), jr_updatedAt := now\<rparr>)"

definition reclaim_expired :: "int \<Rightarrow> job_table \<Rightarrow> int \<times> job_table" where
  "reclaim_expired now jt =
     (case update_jobs
             (\<lambda>row. jr_status row = JobRunning \<and>
                (case jr_leaseExpiresAt row of None \<Rightarrow> False | Some expires \<Rightarrow> expires \<le> now))
             (\<lambda>row. (released row)\<lparr>jr_status := JobPending, jr_availableAt := now, jr_updatedAt := now,
                jr_lastError := Some ''Claim expired; delivery requires reconciliation.''\<rparr>) jt of
        (ids, jt') \<Rightarrow> (int (length ids), jt'))"

definition succeed_job :: "int \<Rightarrow> string \<Rightarrow> string \<Rightarrow> job_table \<Rightarrow> bool \<times> job_table" where
  "succeed_job now job_id worker_id =
     held_update now job_id worker_id
       (\<lambda>row. (released row)\<lparr>jr_status := JobSucceeded, jr_completedAt := Some now, jr_updatedAt := now\<rparr>)"

definition retry_job :: "int \<Rightarrow> string \<Rightarrow> string \<Rightarrow> int \<Rightarrow> string \<Rightarrow> job_table \<Rightarrow> bool \<times> job_table" where
  "retry_job now job_id worker_id delay_ms err =
     held_update now job_id worker_id
       (\<lambda>row. (released row)\<lparr>jr_status := JobPending, jr_availableAt := now + delay_ms,
          jr_lastError := Some err, jr_updatedAt := now\<rparr>)"

definition hold_job :: "int \<Rightarrow> string \<Rightarrow> string \<Rightarrow> string \<Rightarrow> job_table \<Rightarrow> bool \<times> job_table" where
  "hold_job now job_id worker_id err =
     held_update now job_id worker_id
       (\<lambda>row. (released row)\<lparr>jr_status := JobWaiting, jr_availableAt := now,
          jr_lastError := Some err, jr_updatedAt := now\<rparr>)"

definition fail_job :: "int \<Rightarrow> string \<Rightarrow> string \<Rightarrow> string \<Rightarrow> job_table \<Rightarrow> bool \<times> job_table" where
  "fail_job now job_id worker_id err =
     held_update now job_id worker_id
       (\<lambda>row. (released row)\<lparr>jr_status := JobFailed, jr_lastError := Some err,
          jr_completedAt := Some now, jr_updatedAt := now\<rparr>)"

section \<open>Cancelling and recovering\<close>

definition unsettled :: "job_status \<Rightarrow> bool" where
  "unsettled s \<longleftrightarrow> s = JobPending \<or> s = JobWaiting \<or> s = JobRunning"

definition cancelled_row :: "int \<Rightarrow> string \<Rightarrow> job_row \<Rightarrow> job_row" where
  "cancelled_row now reason row =
     (released row)\<lparr>jr_status := JobCancelled, jr_lastError := Some reason,
        jr_completedAt := Some now, jr_updatedAt := now\<rparr>"

definition cancel_unsettled ::
  "int \<Rightarrow> string \<Rightarrow> job_kind list \<Rightarrow> string \<Rightarrow> job_table \<Rightarrow> string list \<times> job_table" where
  "cancel_unsettled now session_id kinds reason jt =
     (if kinds = [] then ([], jt)
      else update_jobs
             (\<lambda>row. jr_sessionId row = session_id \<and> unsettled (jr_status row) \<and> jr_kind row \<in> set kinds)
             (cancelled_row now reason) jt)"

definition reconcile_after_process_loss :: "int \<Rightarrow> job_table \<Rightarrow> (int \<times> int) \<times> job_table" where
  "reconcile_after_process_loss now jt =
     (case update_jobs
             (\<lambda>row. (jr_status row = JobRunning \<or> jr_status row = JobWaiting) \<and>
                jr_kind row \<in> set replayable_job_kinds)
             (\<lambda>row. (released row)\<lparr>jr_status := JobPending, jr_availableAt := now,
                jr_lastError := Some ''Requeued after the previous server process ended.'',
                jr_updatedAt := now\<rparr>) jt of
        (requeued, jt') \<Rightarrow>
          (case update_jobs
                  (\<lambda>row. unsettled (jr_status row) \<and> jr_kind row \<notin> set replayable_job_kinds)
                  (cancelled_row now
                     ''Cancelled because the server process ended before the job completed.'') jt' of
             (cancelled, jt'') \<Rightarrow> ((int (length requeued), int (length cancelled)), jt'')))"

section \<open>Reading\<close>

text \<open>\<open>MIN(available_at)\<close> of the pending jobs, \<open>NULL\<close> of none.\<close>

definition next_available_at :: "job_table \<Rightarrow> int option" where
  "next_available_at jt =
     (case map jr_availableAt (filter (\<lambda>row. jr_status row = JobPending) (jt_rows jt)) of
        [] \<Rightarrow> None | a # rest \<Rightarrow> Some (fold min rest a))"

definition has_running :: "job_table \<Rightarrow> string \<Rightarrow> bool" where
  "has_running jt session_id =
     list_ex (\<lambda>row. jr_sessionId row = session_id \<and> jr_status row = JobRunning) (jt_rows jt)"

definition unsettled_count :: "job_table \<Rightarrow> int" where
  "unsettled_count jt = int (length (filter (\<lambda>row. unsettled (jr_status row)) (jt_rows jt)))"

definition get_job :: "job_codec \<Rightarrow> job_table \<Rightarrow> string \<Rightarrow> job_ledger_error + job option" where
  "get_job jc jt job_id =
     (case filter (\<lambda>row. jr_id row = job_id) (jt_rows jt) of
        [] \<Rightarrow> Inr None
      | row # _ \<Rightarrow> (case decode_job_row jc row of Inl e \<Rightarrow> Inl e | Inr job \<Rightarrow> Inr (Some job)))"

text \<open>\<open>Effect.forEach\<close> over the rows: the first row that does not decode ends it.\<close>

fun decode_job_rows :: "job_codec \<Rightarrow> job_row list \<Rightarrow> job_ledger_error + job list" where
  "decode_job_rows jc [] = Inr []"
| "decode_job_rows jc (row # rows) =
     (case decode_job_row jc row of
        Inl e \<Rightarrow> Inl e
      | Inr job \<Rightarrow>
          (case decode_job_rows jc rows of Inl e \<Rightarrow> Inl e | Inr jobs \<Rightarrow> Inr (job # jobs)))"

definition list_by_session :: "job_codec \<Rightarrow> job_table \<Rightarrow> string \<Rightarrow> job_ledger_error + job list" where
  "list_by_session jc jt session_id =
     decode_job_rows jc
       (sort_key jr_sequence (filter (\<lambda>row. jr_sessionId row = session_id) (jt_rows jt)))"

end
