(* ===== verification/Admission.thy ===== *)
theory Admission
  imports Jobs
begin

text \<open>
  The gate in front of durable work: \<open>engine/admission.ts\<close> of \<open>packages/domain/src\<close>, and the
  ledger behind it as \<open>engine/session-domain.ts\<close> wraps it. The gate belongs to the process; its
  checks run inside SQL transactions, which do not overlap, so each is one step.
\<close>

section \<open>The gate\<close>

record admission_gate =
  ag_closed :: bool
  ag_activeOperations :: int

definition open_gate :: admission_gate where
  "open_gate = \<lparr>ag_closed = False, ag_activeOperations = 0\<rparr>"

text \<open>\<open>run\<close>: the work is the rest of the transaction, rolled back when it fails.\<close>

definition admission_run ::
  "'err \<Rightarrow> admission_gate \<Rightarrow> ('db \<Rightarrow> 'err + 'a \<times> 'db) \<Rightarrow> 'db \<Rightarrow> ('err + 'a) \<times> 'db" where
  "admission_run closed_error gate work db =
     (if ag_closed gate then (Inl closed_error, db)
      else
        (case work db of
           Inl e \<Rightarrow> (Inl e, db)
         | Inr (a, db') \<Rightarrow> (Inr a, db')))"

text \<open>\<open>withOperation\<close>, up to the work and after it; the work runs outside of the transaction.\<close>

definition begin_operation :: "admission_gate \<Rightarrow> bool \<times> admission_gate" where
  "begin_operation gate =
     (if ag_closed gate then (False, gate)
      else (True, gate\<lparr>ag_activeOperations := ag_activeOperations gate + 1\<rparr>))"

definition end_operation :: "bool \<Rightarrow> admission_gate \<Rightarrow> admission_gate" where
  "end_operation acquired gate =
     (if acquired then gate\<lparr>ag_activeOperations := ag_activeOperations gate - 1\<rparr> else gate)"

text \<open>\<open>closeIf\<close>: \<open>idle\<close> is only asked when no operation is active.\<close>

definition close_if :: "('err + bool) \<Rightarrow> admission_gate \<Rightarrow> ('err + bool) \<times> admission_gate" where
  "close_if idle gate =
     (if ag_closed gate then (Inr True, gate)
      else if ag_activeOperations gate > 0 then (Inr False, gate)
      else
        (case idle of
           Inl e \<Rightarrow> (Inl e, gate)
         | Inr False \<Rightarrow> (Inr False, gate)
         | Inr True \<Rightarrow> (Inr True, gate\<lparr>ag_closed := True\<rparr>)))"

section \<open>The ledger behind the gate\<close>

definition admitted_enqueue ::
  "job_codec \<Rightarrow> int \<Rightarrow> admission_gate \<Rightarrow> pending_job list \<Rightarrow> job_table \<Rightarrow> (unit + int) \<times> job_table" where
  "admitted_enqueue jc now gate ps jt =
     admission_run () gate (\<lambda>jt. Inr (enqueue_jobs jc now ps jt)) jt"

text \<open>A closed gate hands out no job. A row that does not decode rolls its claim back.\<close>

definition admitted_claim ::
  "job_codec \<Rightarrow> int \<Rightarrow> admission_gate \<Rightarrow> claim_input \<Rightarrow> job_table \<Rightarrow>
   (job_ledger_error + job option) \<times> job_table"
where
  "admitted_claim jc now gate input jt =
     (case admission_run None gate
             (\<lambda>jt. case claim_next jc now input jt of
                     (Inl e, _) \<Rightarrow> Inl (Some e) | (Inr claimed, jt') \<Rightarrow> Inr (claimed, jt')) jt of
        (Inl None, jt') \<Rightarrow> (Inr None, jt')
      | (Inl (Some e), jt') \<Rightarrow> (Inl e, jt')
      | (Inr claimed, jt') \<Rightarrow> (Inr claimed, jt'))"

section \<open>Histories of the gate\<close>



text \<open>\<open>n\<close> operations are between their begin and their end.\<close>

inductive gate_history :: "nat \<Rightarrow> admission_gate \<Rightarrow> bool" where
  opened: "gate_history 0 open_gate"
| admitted: "gate_history n gate \<Longrightarrow> begin_operation gate = (True, gate') \<Longrightarrow> gate_history (Suc n) gate'"
| refused: "gate_history n gate \<Longrightarrow> begin_operation gate = (False, gate') \<Longrightarrow> gate_history n (end_operation False gate')"
| ended: "gate_history (Suc n) gate \<Longrightarrow> gate_history n (end_operation True gate)"
| asked: "gate_history n gate \<Longrightarrow> close_if (idle :: string + bool) gate = (answer, gate') \<Longrightarrow> gate_history n gate'"

lemma gate_counts:
  "gate_history n gate \<Longrightarrow> ag_activeOperations gate = int n \<and> (ag_closed gate \<longrightarrow> n = 0)"
  by (induction rule: gate_history.induct)
    (auto simp: open_gate_def begin_operation_def end_operation_def close_if_def
      split: if_splits sum.splits bool.splits)

end
