(* ===== verification/Session_Domain.thy ===== *)
theory Session_Domain
  imports Cursors Sql_Session_Projector Admission
begin

text \<open>
  The service of sessions: \<open>engine/session-domain.ts\<close> of \<open>packages/domain/src\<close>. One transaction
  dispatches a command, projects its events, cancels the jobs they supersede, enqueues the jobs
  they imply and runs the caller's continuation; the wake-ups follow the commit.

  The database is one record: the event log, the cursors, the read model, the jobs and the open
  restores of checkpoints. SQL transactions do not overlap, so a transaction is a function of the
  database. The codecs, the clock and the generator of ids are parameters.
\<close>

section \<open>The database\<close>

record restore_row =
  cs_completedAt :: "int option"

record service_db = consumer_db +
  sd_readModel :: read_model
  sd_jobs :: job_table
  sd_restores :: "restore_row list"

record ('g, 'i) service_env =
  sv_decoder :: decoder
  sv_json :: sqlite_json
  sv_events :: "session_event event_codec"
  sv_receipts :: receipt_codec
  sv_jobs :: job_codec
  sv_now :: "service_db \<Rightarrow> int"
  sv_nowText :: "service_db \<Rightarrow> string"
  sv_mint :: "('g, 'i) id_generator"

datatype ('i, 'x) service_error =
  AdmissionClosed
| DispatchFailed "(domain_error, sql_storage_error, 'i) dispatch_failure"
| StorageFailed sql_storage_error
| ProjectionFailed projector_error
| CallbackFailed 'x

record 'a dispatch_outcome =
  do_result :: 'a
  do_appended :: "session_event stored_event list"
  do_enqueued :: int
  do_cancelled :: "string list"

section \<open>The projector of the service\<close>

definition apply_session_record ::
  "('g, 'i) service_env \<Rightarrow> session_event stored_event \<Rightarrow> service_db \<Rightarrow> ('i, 'x) service_error + service_db"
where
  "apply_session_record env record db =
     (case project_session (sv_decoder env) (sv_json env) record (sd_readModel db) of
        Inl e \<Rightarrow> Inl (ProjectionFailed e)
      | Inr rm \<Rightarrow> Inr (db\<lparr>sd_readModel := rm\<rparr>))"

definition session_projector ::
  "('g, 'i) service_env \<Rightarrow>
   (service_db, ('i, 'x) service_error, session_event stored_event) projector_definition"
where
  "session_projector env =
     \<lparr>pd_name = session_projector_name, pd_sequenceOf = se_sequence,
      pd_apply = apply_session_record env\<rparr>"

definition service_catch_up ::
  "('g, 'i) service_env \<Rightarrow> service_db \<Rightarrow> (('i, 'x) service_error + int) \<times> service_db" where
  "service_catch_up env db =
     projector_catch_up (sql_projector_ops StorageFailed (sv_events env) (sv_nowText env))
       (session_projector env) db"

section \<open>Guards\<close>

text \<open>Commands that a session under construction by a fork has to wait for.\<close>

fun awaits_fork :: "session_command \<Rightarrow> bool" where
  "awaits_fork (CreateSession c) = False"
| "awaits_fork (DeleteSession tm) = False"
| "awaits_fork (RequestProviderStop tm) = False"
| "awaits_fork (PersistMessage m) = False"
| "awaits_fork c = True"

text \<open>Commands that start work in a worktree, which a restore of a checkpoint may be rewriting.\<close>

fun awaits_restore :: "session_command \<Rightarrow> bool" where
  "awaits_restore (SubmitTurn t) = True"
| "awaits_restore (StartTurn t tm) = True"
| "awaits_restore (RetryTurn t reason input start tm) = True"
| "awaits_restore (RecoverTurn t a tm) = True"
| "awaits_restore (CreateSessionWithInitialTurn c t) = True"
| "awaits_restore (ReleaseInitialTurn t input start tm) = True"
| "awaits_restore (ClaimQueuedTurn q tm) = True"
| "awaits_restore (SteerQueuedTurn q t su tm) = True"
| "awaits_restore (ReserveProviderSession r) = True"
| "awaits_restore (SetProvider resume expected p m tm) = True"
| "awaits_restore (SetModel m tm) = True"
| "awaits_restore (SetWorktree w tm force) = True"
| "awaits_restore (UnarchiveSession tm) = True"
| "awaits_restore c = False"

definition fork_pending :: "service_db \<Rightarrow> string \<Rightarrow> bool" where
  "fork_pending db sid =
     list_ex (\<lambda>f. fr_sessionId f = sid \<and> fr_completedAt f = None) (rm_forks (sd_readModel db))"

definition restore_pending :: "service_db \<Rightarrow> bool" where
  "restore_pending db = list_ex (\<lambda>r. cs_completedAt r = None) (sd_restores db)"

definition command_blocked :: "service_db \<Rightarrow> session_command dispatch_input \<Rightarrow> bool" where
  "command_blocked db input \<longleftrightarrow>
     awaits_fork (di_command input) \<and> fork_pending db (di_streamId input) \<or>
     awaits_restore (di_command input) \<and> restore_pending db"

section \<open>Dispatch with retries\<close>

definition service_ops ::
  "('g, 'i) service_env \<Rightarrow> (service_db, sql_storage_error, session_event) storage_ops" where
  "service_ops env = sql_ops (sv_events env) (sv_receipts env) (sv_nowText env)"

text \<open>A run of the engine that hands the generator on.\<close>

definition dispatch_attempt ::
  "('g, 'i) service_env \<Rightarrow> service_db \<Rightarrow> 'g \<Rightarrow> session_command dispatch_input \<Rightarrow>
   (((domain_error, sql_storage_error, 'i) dispatch_failure + command_receipt) \<times> service_db) \<times> 'g"
where
  "dispatch_attempt env db g input =
     (case op_receipt (service_ops env) db (di_commandId input) of
        Inl e \<Rightarrow> ((Inl (StorageFailure e), db), g)
      | Inr existing \<Rightarrow>
          (case prepare_dispatch (sv_decoder env) (service_ops env) (sv_mint env) db g existing input of
             (p, g') \<Rightarrow> (finish_dispatch (service_ops env) db p, g')))"

fun is_concurrency_conflict :: "(domain_error, sql_storage_error, 'i) dispatch_failure \<Rightarrow> bool" where
  "is_concurrency_conflict (StorageFailure (StorageConflict (ConcurrencyConflict sid expected actual))) = True"
| "is_concurrency_conflict (DispatchConflict (ConcurrencyConflict sid expected actual)) = True"
| "is_concurrency_conflict e = False"

text \<open>\<open>Effect.retry\<close> with \<open>Schedule.recurs(n)\<close>\<close>

fun dispatch_retrying ::
  "('g, 'i) service_env \<Rightarrow> nat \<Rightarrow> service_db \<Rightarrow> 'g \<Rightarrow> session_command dispatch_input \<Rightarrow>
   ((domain_error, sql_storage_error, 'i) dispatch_failure + command_receipt) \<times> service_db"
where
  "dispatch_retrying env 0 db g input = fst (dispatch_attempt env db g input)"
| "dispatch_retrying env (Suc n) db g input =
     (case dispatch_attempt env db g input of
        ((Inl e, db'), g') \<Rightarrow>
          if is_concurrency_conflict e then dispatch_retrying env n db' g' input else (Inl e, db')
      | ((Inr receipt, db'), g') \<Rightarrow> (Inr receipt, db'))"

section \<open>What follows the append\<close>

definition receipt_records ::
  "('g, 'i) service_env \<Rightarrow> service_db \<Rightarrow> string \<Rightarrow> command_receipt \<Rightarrow>
   sql_storage_error + session_event stored_event list"
where
  "receipt_records env db sid receipt =
     (if cr_eventIds receipt = [] then Inr []
      else sql_events_in_version_range (sv_events env) db sid
             (cr_streamVersion receipt - int (length (cr_eventIds receipt))) (cr_streamVersion receipt))"

text \<open>The loop over the appended records, with the cursor of the projector.\<close>

fun project_appended ::
  "('g, 'i) service_env \<Rightarrow> int \<Rightarrow> session_event stored_event list \<Rightarrow> service_db \<Rightarrow>
   ('i, 'x) service_error + service_db"
where
  "project_appended env cursor [] db = Inr db"
| "project_appended env cursor (record # records) db =
     (if se_sequence record \<le> cursor then project_appended env cursor records db
      else
        (case apply_session_record env record db of
           Inl e \<Rightarrow> Inl e
         | Inr db' \<Rightarrow>
             project_appended env (se_sequence record) records
               (sql_commit_cursor (sv_nowText env) db' session_projector_name (se_sequence record))))"

definition is_AttemptStarted :: "session_event \<Rightarrow> bool" where
  "is_AttemptStarted e = (case e of AttemptStarted x \<Rightarrow> True | _ \<Rightarrow> False)"

definition is_TurnInterruptRequested :: "session_event \<Rightarrow> bool" where
  "is_TurnInterruptRequested e = (case e of TurnInterruptRequested t a tm \<Rightarrow> True | _ \<Rightarrow> False)"

definition is_ExpireAttempt :: "session_command \<Rightarrow> bool" where
  "is_ExpireAttempt c = (case c of ExpireAttempt t a tm \<Rightarrow> True | _ \<Rightarrow> False)"

definition cancel_superseded ::
  "int \<Rightarrow> session_command dispatch_input \<Rightarrow> session_event list \<Rightarrow> job_table \<Rightarrow> string list \<times> job_table"
where
  "cancel_superseded now input events jt =
     (if is_ExpireAttempt (di_command input) \<or> list_ex is_AttemptStarted events
      then cancel_unsettled now (di_streamId input) [KindTurnSend, KindTurnInterrupt, KindTurnRecover]
             ''Superseded by a new attempt.'' jt
      else ([], jt))"

definition cancel_interrupted ::
  "int \<Rightarrow> session_command dispatch_input \<Rightarrow> session_event list \<Rightarrow> job_table \<Rightarrow> string list \<times> job_table"
where
  "cancel_interrupted now input events jt =
     (if list_ex is_TurnInterruptRequested events
      then cancel_unsettled now (di_streamId input) [KindTurnSend, KindTurnRecover]
             ''Turn interrupted by the user.'' jt
      else ([], jt))"

text \<open>The cancellations and the new jobs of the appended records.\<close>

definition settle_jobs ::
  "('g, 'i) service_env \<Rightarrow> session_command dispatch_input \<Rightarrow> session_event stored_event list \<Rightarrow>
   service_db \<Rightarrow> (string list \<times> int) \<times> service_db"
where
  "settle_jobs env input appended db =
     (let events = map se_event appended;
          (superseded, jt1) = cancel_superseded (sv_now env db) input events (sd_jobs db);
          (interrupted, jt2) = cancel_interrupted (sv_now env db) input events jt1;
          (enqueued, jt3) =
            enqueue_jobs (sv_jobs env) (sv_now env db)
              (concat (map jobs_for_session_event appended)) jt2
      in ((superseded @ interrupted, enqueued), db\<lparr>sd_jobs := jt3\<rparr>))"

section \<open>The transaction\<close>

text \<open>\<open>onCommitted\<close> runs last, in the same transaction.\<close>

type_synonym ('x, 'a) continuation = "command_receipt \<Rightarrow> service_db \<Rightarrow> 'x + 'a \<times> service_db"

definition dispatch_transaction ::
  "('g, 'i) service_env \<Rightarrow> ('x, 'a) continuation \<Rightarrow> session_command dispatch_input \<Rightarrow> 'g \<Rightarrow>
   service_db \<Rightarrow> ('i, 'x) service_error + 'a dispatch_outcome \<times> service_db"
where
  "dispatch_transaction env on_committed input g db =
     (if command_blocked db input then Inl AdmissionClosed
      else
        (case dispatch_retrying env 8 db g input of
           (Inl e, _) \<Rightarrow> Inl (DispatchFailed e)
         | (Inr receipt, db1) \<Rightarrow>
             (case receipt_records env db1 (di_streamId input) receipt of
                Inl e \<Rightarrow> Inl (StorageFailed e)
              | Inr appended \<Rightarrow>
                  (case project_appended env (sql_cursor db1 session_projector_name) appended db1 of
                     Inl e \<Rightarrow> Inl e
                   | Inr db2 \<Rightarrow>
                       (case settle_jobs env input appended db2 of
                          ((cancelled, enqueued), db3) \<Rightarrow>
                            (case on_committed receipt db3 of
                               Inl x \<Rightarrow> Inl (CallbackFailed x)
                             | Inr (result, db4) \<Rightarrow>
                                 Inr (\<lparr>do_result = result, do_appended = appended,
                                       do_enqueued = enqueued, do_cancelled = cancelled\<rparr>,
                                      db4)))))))"

definition dispatch_transactionally ::
  "('g, 'i) service_env \<Rightarrow> admission_gate \<Rightarrow> ('x, 'a) continuation \<Rightarrow>
   session_command dispatch_input \<Rightarrow> 'g \<Rightarrow> service_db \<Rightarrow>
   (('i, 'x) service_error + 'a dispatch_outcome) \<times> service_db"
where
  "dispatch_transactionally env gate on_committed input g db =
     admission_run AdmissionClosed gate (dispatch_transaction env on_committed input g) db"

text \<open>\<open>dispatch\<close>: the continuation returns the receipt.\<close>

definition service_dispatch ::
  "('g, 'i) service_env \<Rightarrow> admission_gate \<Rightarrow> session_command dispatch_input \<Rightarrow> 'g \<Rightarrow> service_db \<Rightarrow>
   (('i, unit) service_error + command_receipt dispatch_outcome) \<times> service_db"
where
  "service_dispatch env gate input g db =
     dispatch_transactionally env gate (\<lambda>receipt db. Inr (receipt, db)) input g db"

text \<open>The wake-ups that are published after the commit.\<close>

datatype wake_up = JobsCancelled "string list" | ReconciliationWake | JobsAvailable

definition wake_ups :: "'a dispatch_outcome \<Rightarrow> wake_up list" where
  "wake_ups out =
     (if do_cancelled out \<noteq> [] then [JobsCancelled (do_cancelled out)] else []) @
     (if do_appended out \<noteq> [] then [ReconciliationWake] else []) @
     (if do_enqueued out > 0 then [JobsAvailable] else [])"

section \<open>Queries\<close>

text \<open>\<open>COALESCE(MAX(sequence), 0)\<close> of the events of sessions\<close>

definition current_sequence :: "('g, 'i) service_env \<Rightarrow> service_db \<Rightarrow> int" where
  "current_sequence env db =
     or_else (sql_max (map er_sequence
       (filter (\<lambda>row. er_streamKind row = ec_streamKind (sv_events env)) (db_events db)))) 0"

definition current_stream_version :: "('g, 'i) service_env \<Rightarrow> service_db \<Rightarrow> string \<Rightarrow> int" where
  "current_stream_version env db sid = sql_current_stream_version (ec_streamKind (sv_events env)) db sid"

end
