(* ===== verification/Event_Log.thy ===== *)
theory Event_Log
  imports Sql_Dispatch_Laws
begin

text \<open>
  The event table as one log: the records of a kind of stream in the order of their sequences. The
  reads of \<open>engine/sql-dispatch-storage.ts\<close> select from it and an append adds to its end.
\<close>

definition logged_records :: "'e event_codec \<Rightarrow> 'z event_db_scheme \<Rightarrow> 'e stored_event list" where
  "logged_records ec db =
     concat (map (decoded_row ec) (filter (\<lambda>row. er_streamKind row = ec_streamKind ec) (db_events db)))"

section \<open>Reads select\<close>

lemma decoded_row_fields:
  "r \<in> set (decoded_row ec row) \<Longrightarrow>
     se_sequence r = er_sequence row \<and> se_streamId r = er_streamId row \<and>
     se_streamVersion r = er_streamVersion row \<and> se_eventId r = er_eventId row"
  by (auto simp: decoded_row_def decode_persisted_event_def split: sum.splits)

lemma decoded_row_cases:
  obtains "decoded_row ec row = []" | r where "decoded_row ec row = [r]" "se_sequence r = er_sequence row"
  using decoded_row_fields [of _ ec row] that by (cases "decode_persisted_event ec row") (auto simp: decoded_row_def)

lemma filter_decoded:
  assumes "\<And>row r. r \<in> set (decoded_row ec row) \<Longrightarrow> Q r \<longleftrightarrow> P row"
  shows "filter Q (concat (map (decoded_row ec) rows)) = concat (map (decoded_row ec) (filter P rows))"
proof (induction rows)
  case (Cons row rows)
  have "filter Q (decoded_row ec row) = (if P row then decoded_row ec row else [])"
    using assms by (auto simp: filter_id_conv filter_empty_conv)
  with Cons show ?case by simp
qed simp

lemma stream_of_log: "sql_stream ec db sid = filter (\<lambda>r. se_streamId r = sid) (logged_records ec db)"
proof -
  have "filter (\<lambda>r. se_streamId r = sid) (logged_records ec db) = concat (map (decoded_row ec)
      (filter (\<lambda>row. er_streamId row = sid)
         (filter (\<lambda>row. er_streamKind row = ec_streamKind ec) (db_events db))))"
    unfolding logged_records_def by (rule filter_decoded) (simp add: decoded_row_fields)
  then show ?thesis by (simp add: sql_stream_def stream_rows_def conj_commute)
qed

lemma sequences_sorted_filter:
  "sequences_grow db \<Longrightarrow> sort_key er_sequence (filter P (db_events db)) = filter P (db_events db)"
  by (rule sort_key_id_if_sorted)
    (auto simp: sequences_grow_def sorted_wrt_map intro!: sorted_wrt_filter
       elim: sorted_wrt_mono_rel [rotated])

lemma all_events_of_log:
  assumes "rows_decode ec db" "sequences_grow db"
  shows "sql_all_events_after_sequence ec db n =
    Inr (filter (\<lambda>r. n < se_sequence r) (logged_records ec db))"
proof -
  have rows: "filter (\<lambda>row. er_streamKind row = ec_streamKind ec \<and> n < er_sequence row) (db_events db) =
      filter (\<lambda>row. n < er_sequence row)
        (filter (\<lambda>row. er_streamKind row = ec_streamKind ec) (db_events db))"
    by (simp add: conj_commute)
  have "decode_rows ec (filter (\<lambda>row. er_streamKind row = ec_streamKind ec \<and> n < er_sequence row) (db_events db)) =
      Inr (concat (map (decoded_row ec)
        (filter (\<lambda>row. er_streamKind row = ec_streamKind ec \<and> n < er_sequence row) (db_events db))))"
    using assms(1) by (intro decode_rows_ok) (auto simp: rows_decode_def)
  moreover have "filter (\<lambda>r. n < se_sequence r) (logged_records ec db) =
      concat (map (decoded_row ec)
        (filter (\<lambda>row. er_streamKind row = ec_streamKind ec \<and> n < er_sequence row) (db_events db)))"
    unfolding logged_records_def rows by (rule filter_decoded) (simp add: decoded_row_fields)
  ultimately show ?thesis
    by (simp only: sql_all_events_after_sequence_def sequences_sorted_filter [OF assms(2)])
qed

lemma version_range_of_stream:
  assumes "rows_decode ec db" "streams_numbered db"
  shows "sql_events_in_version_range ec db sid a b =
    Inr (filter (\<lambda>r. a < se_streamVersion r \<and> se_streamVersion r \<le> b) (sql_stream ec db sid))"
proof -
  let ?rows = "stream_rows (ec_streamKind ec) db sid"
  let ?P = "\<lambda>row. a < er_streamVersion row \<and> er_streamVersion row \<le> b"
  have "sorted (map er_streamVersion ?rows)" using assms(2) by (simp add: streams_numbered_def)
  then have "sort_key er_streamVersion (filter ?P ?rows) = filter ?P ?rows"
    by (intro sort_key_id_if_sorted) (simp only: sorted_map sorted_wrt_filter)
  moreover have "decode_rows ec (filter ?P ?rows) = Inr (concat (map (decoded_row ec) (filter ?P ?rows)))"
    using assms(1) by (intro decode_rows_ok) (auto simp: rows_decode_def stream_rows_def)
  moreover have "filter (\<lambda>r. a < se_streamVersion r \<and> se_streamVersion r \<le> b) (sql_stream ec db sid) =
      concat (map (decoded_row ec) (filter ?P ?rows))"
    unfolding sql_stream_def by (rule filter_decoded) (simp add: decoded_row_fields)
  ultimately show ?thesis by (simp add: sql_events_in_version_range_def)
qed

lemma log_sequences:
  assumes "sequences_grow db"
  shows "sorted_wrt (<) (map se_sequence (logged_records ec db))"
    "\<forall>r \<in> set (logged_records ec db). se_sequence r \<le> db_lastSequence db"
proof -
  have "sorted_wrt (<) (map er_sequence rows) \<Longrightarrow>
      sorted_wrt (<) (map se_sequence (concat (map (decoded_row ec) rows)))" for rows
  proof (induction rows)
    case (Cons row rows)
    show ?case
      by (rule decoded_row_cases [of ec row]) (use Cons in \<open>auto simp: decoded_row_fields\<close>)
  qed simp
  moreover have "sorted_wrt (<) (map er_sequence (filter P (db_events db)))" for P
    using assms by (auto simp: sequences_grow_def sorted_wrt_map intro: sorted_wrt_filter)
  ultimately show "sorted_wrt (<) (map se_sequence (logged_records ec db))"
    by (simp add: logged_records_def)
  show "\<forall>r \<in> set (logged_records ec db). se_sequence r \<le> db_lastSequence db"
    using assms by (auto simp: sequences_grow_def logged_records_def decoded_row_fields)
qed

section \<open>Appends add\<close>

lemma insert_events_above:
  assumes "insert_events ec occurred_at ai v es db = Inr (v', db')"
  shows "db_lastSequence db \<le> db_lastSequence db' \<and>
    (\<exists>rows. db_events db' = db_events db @ rows \<and> (\<forall>row \<in> set rows. db_lastSequence db < er_sequence row))"
  using assms
proof (induction es arbitrary: v db)
  case (Cons x es)
  obtain key e where x: "x = (key, e)" by (cases x)
  let ?row = "\<lparr>er_sequence = db_lastSequence db + 1, er_eventId = key,
      er_correlationId = Some (ai_correlationId ai), er_causationEventId = ai_causationEventId ai,
      er_streamKind = ec_streamKind ec, er_streamId = ai_streamId ai, er_streamVersion = v + 1,
      er_type = ec_tag ec e, er_occurredAt = occurred_at, er_actor = None,
      er_payloadJson = ec_encode ec e\<rparr>"
  let ?db = "db\<lparr>db_events := db_events db @ [?row], db_lastSequence := db_lastSequence db + 1\<rparr>"
  from Cons.prems x have rest: "insert_events ec occurred_at ai (v + 1) es ?db = Inr (v', db')"
    by (auto simp: insert_event_row_def split: if_split_asm)
  from Cons.IH [OF rest] show ?case by force
qed simp

text \<open>The rows of an append, and the tables it leaves alone.\<close>

lemma append_rows:
  assumes inv: "sql_inv ec rc db" and known: "sql_receipt_of rc db (ai_commandId ai) = None"
    and app: "append_transaction ec rc now db ai = Inr (r, db')"
  obtains rows n rrow where
    "db' = db\<lparr>db_events := db_events db @ rows, db_lastSequence := n, db_receipts := db_receipts db @ [rrow]\<rparr>"
    "list_all2 (appended_row ec ai) (ai_events ai) rows" "\<forall>row \<in> set rows. db_lastSequence db < er_sequence row"
    "db_lastSequence db \<le> n"
proof -
  have nr: "sql_receipt rc db (ai_commandId ai) = Inr None"
    using known by (simp add: sql_receipt_ok [OF inv])
  from app obtain v db1 where
    ins: "insert_events ec (now db) ai (ai_expectedVersion ai) (ai_events ai) db = Inr (v, db1)"
    and rec: "insert_receipt_row db1 (receipt_row_for rc (ec_streamKind ec) (now db) r) = Inr db'"
    by (auto simp: append_transaction_def nr Let_def split: if_split_asm sum.splits)
  from insert_events_result [OF ins] inv obtain rows n where rows:
    "db1 = db\<lparr>db_events := db_events db @ rows, db_lastSequence := n\<rparr>"
    "list_all2 (appended_row ec ai) (ai_events ai) rows" "sequences_grow db1"
    unfolding sql_inv_def by blast
  from insert_events_above [OF ins] have "\<forall>row \<in> set rows. db_lastSequence db < er_sequence row"
    "db_lastSequence db \<le> n"
    by (simp_all add: rows(1))
  moreover from rec have "db' = db1\<lparr>db_receipts := db_receipts db1 @ [receipt_row_for rc (ec_streamKind ec) (now db) r]\<rparr>"
    by (simp add: insert_receipt_row_def split: if_split_asm)
  ultimately show ?thesis using that rows by auto
qed

lemma append_logged:
  assumes ok: "codec_ok ec" "receipt_codec_ok rc" and inv: "sql_inv ec rc db"
    and known: "sql_receipt_of rc db (ai_commandId ai) = None"
    and app: "append_transaction ec rc now db ai = Inr (r, db')"
  obtains new where
    "logged_records ec db' = logged_records ec db @ new"
    "\<forall>x \<in> set new. se_streamId x = ai_streamId ai \<and> db_lastSequence db < se_sequence x"
    "map (\<lambda>x. (se_eventId x, se_event x)) new = ai_events ai"
    "sql_events_in_version_range ec db' (ai_streamId ai)
       (cr_streamVersion r - int (length (cr_eventIds r))) (cr_streamVersion r) = Inr new"
proof -
  obtain rows n rrow where
    db': "db' = db\<lparr>db_events := db_events db @ rows, db_lastSequence := n,
      db_receipts := db_receipts db @ [rrow]\<rparr>"
    and rows: "list_all2 (appended_row ec ai) (ai_events ai) rows"
      "\<forall>row \<in> set rows. db_lastSequence db < er_sequence row"
    by (rule append_rows [OF inv known app])
  let ?new = "concat (map (decoded_row ec) rows)" let ?sid = "ai_streamId ai"
  note dec = appended_rows_decode [OF ok(1) rows(1)]
  have "filter (\<lambda>row. er_streamKind row = ec_streamKind ec) rows = rows"
    using dec(1) by (simp add: filter_id_conv)
  then have log: "logged_records ec db' = logged_records ec db @ ?new"
    by (simp add: logged_records_def db')
  have mem: "\<forall>x \<in> set ?new. se_streamId x = ?sid \<and> db_lastSequence db < se_sequence x"
    using dec(1) rows(2) by (auto simp: decoded_row_fields)
  then have "filter (\<lambda>r. se_streamId r = ?sid) ?new = ?new" by (intro filter_True) blast
  then have stream: "sql_stream ec db' ?sid = sql_stream ec db ?sid @ ?new"
    by (simp only: stream_of_log log filter_append)
  from append_transaction_new [OF ok inv known app] have inv': "sql_inv ec rc db'"
    and ver: "ai_expectedVersion ai = int (length (sql_stream ec db ?sid))"
    and r: "r = receipt_for ai (ai_expectedVersion ai + int (length (ai_events ai)))" by blast+
  note versions = dispatch_storage.versions [OF sql_storage_laws [OF ok]]
  have len: "length ?new = length (ai_events ai)" using dec(2) length_map by metis
  have old: "map se_streamVersion (sql_stream ec db ?sid) = [1 .. ai_expectedVersion ai]"
    using versions [OF inv] ver by simp
  moreover have "map se_streamVersion (sql_stream ec db ?sid @ ?new) =
      [1 .. ai_expectedVersion ai] @ [ai_expectedVersion ai + 1 .. ai_expectedVersion ai + int (length (ai_events ai))]"
    using versions [OF inv', of ?sid] ver len by (simp add: stream upto_join)
  ultimately have new: "map se_streamVersion ?new =
      [ai_expectedVersion ai + 1 .. ai_expectedVersion ai + int (length (ai_events ai))]" by simp
  have "se_streamVersion x \<le> ai_expectedVersion ai" if "x \<in> set (sql_stream ec db ?sid)" for x
  proof -
    from that have "se_streamVersion x \<in> set (map se_streamVersion (sql_stream ec db ?sid))" by simp
    then show ?thesis unfolding old by simp
  qed
  moreover have "ai_expectedVersion ai < se_streamVersion x \<and>
      se_streamVersion x \<le> ai_expectedVersion ai + int (length (ai_events ai))" if "x \<in> set ?new" for x
  proof -
    from imageI [OF that, of se_streamVersion]
    have "se_streamVersion x \<in> set (map se_streamVersion ?new)" by (simp only: set_map)
    then show ?thesis unfolding new by simp
  qed
  ultimately have "filter (\<lambda>x. ai_expectedVersion ai < se_streamVersion x \<and>
      se_streamVersion x \<le> ai_expectedVersion ai + int (length (ai_events ai)))
      (sql_stream ec db ?sid @ ?new) = ?new"
    by (simp only: filter_append) (fastforce simp: filter_empty_conv filter_id_conv)
  then have "sql_events_in_version_range ec db' ?sid
      (cr_streamVersion r - int (length (cr_eventIds r))) (cr_streamVersion r) = Inr ?new"
    using inv' by (simp add: version_range_of_stream sql_inv_def stream r receipt_for_def)
  with that log mem dec(2) show ?thesis by blast
qed

text \<open>An append of another kind of stream, the events of chats, leaves the log of this kind.\<close>

lemma append_other_kind:
  assumes ok: "codec_ok ec'" "receipt_codec_ok rc" and inv: "sql_inv ec' rc db" "sql_inv ec rc db"
    and kind: "ec_streamKind ec' \<noteq> ec_streamKind ec"
    and known: "sql_receipt_of rc db (ai_commandId ai) = None"
    and app: "append_transaction ec' rc now db ai = Inr (r, db')"
  shows "sql_inv ec rc db' \<and> logged_records ec db' = logged_records ec db"
proof -
  obtain rows n rrow where
    db': "db' = db\<lparr>db_events := db_events db @ rows, db_lastSequence := n,
      db_receipts := db_receipts db @ [rrow]\<rparr>"
    and rows: "list_all2 (appended_row ec' ai) (ai_events ai) rows"
    by (rule append_rows [OF inv(1) known app])
  note dec = appended_rows_decode [OF ok(1) rows(1)]
  have none: "filter (\<lambda>row. er_streamKind row = ec_streamKind ec) rows = []"
    using dec(1) kind by (auto simp: filter_empty_conv)
  from append_transaction_new [OF ok inv(1) known app] have "sql_inv ec' rc db'" by blast
  moreover have "rows_decode ec db'"
    using inv(2) dec(1) kind by (auto simp: sql_inv_def rows_decode_def db')
  ultimately show ?thesis by (simp add: sql_inv_def logged_records_def db' none)
qed

end
