(* ===== verification/Read_Model_Events.thy ===== *)
theory Read_Model_Events
  imports Session_Properties Sql_Session_Projector
begin

text \<open>
  What the read model relies on in the events of a session, beyond what the fold relies on:
  creations are complete, nothing follows a deletion, the legacy event \<open>SessionResumeSet\<close> is not
  written, and a finalization names the active attempt. Every accepted command keeps to it.
\<close>

section \<open>What a record relies on\<close>

fun shown_ok :: "session_state \<Rightarrow> session_event \<Rightarrow> bool" where
  "shown_ok s (SessionCreated e) = (\<not> deleted s \<and> missing_created_field e = None)"
| "shown_ok s (SessionResumeSet cursor strategy head tm) = False"
| "shown_ok s (TurnFinalizationRequested t a outcome tm) =
     (\<not> deleted s \<and> active_attempt s t = Some a \<and>
      map_option tn_status (map_of (turns s) t) \<noteq> Some TurnFinalizing)"
| "shown_ok s e = (\<not> deleted s)"

fun shown_events :: "decoder \<Rightarrow> session_state \<Rightarrow> session_event list \<Rightarrow> bool" where
  "shown_events dec s [] = True"
| "shown_events dec s (e # es) = (shown_ok s e \<and> shown_events dec (evolve dec s e) es)"

text \<open>Events that rely on nothing but a session that is not deleted.\<close>

fun mild_event :: "session_event \<Rightarrow> bool" where
  "mild_event (SessionCreated e) = False"
| "mild_event (SessionResumeSet cursor strategy head tm) = False"
| "mild_event (TurnFinalizationRequested t a outcome tm) = False"
| "mild_event (SessionDeleted tm) = False"
| "mild_event e = True"

lemma mild_shown: "\<lbrakk>mild_event e; \<not> deleted s\<rbrakk> \<Longrightarrow> shown_ok s e"
  by (cases e) simp_all

lemma deleted_evolve: "\<forall>tm. e \<noteq> SessionDeleted tm \<Longrightarrow> deleted (evolve dec s e) = deleted s"
  by (cases e) (simp_all add: branch_defs helper_defs Let_def split: option.splits)

lemma mild_deleted: "mild_event e \<Longrightarrow> deleted (evolve dec s e) = deleted s"
  by (rule deleted_evolve) auto

lemma mild_events: "\<lbrakk>list_all mild_event es; \<not> deleted s\<rbrakk> \<Longrightarrow> shown_events dec s es"
  by (induction es arbitrary: s) (simp_all add: mild_shown mild_deleted)

lemma shown_events_append:
  "shown_events dec s (xs @ ys) \<longleftrightarrow>
     shown_events dec s xs \<and> shown_events dec (foldl (evolve dec) s xs) ys"
  by (induction xs arbitrary: s) simp_all

section \<open>The events of a command\<close>

lemma stops_mild: "list_all mild_event (provider_stops s tm)"
  by (simp add: provider_stops_def list_all_iff split_def)

lemma marker_mild: "list_all mild_event (model_switch_marker sid s p m tm)"
  by (simp add: model_switch_marker_def split: option.split)

lemma seeds_mild: "list_all mild_event (provider_thread_seed_events sid seed tm)"
  by (simp add: provider_thread_seed_events_def Let_def split: option.split)

lemma settle_mild: "decide_SettleTurn s k outcome tm = Inr es \<Longrightarrow> list_all mild_event es"
  by (auto simp: decide_SettleTurn_def Let_def list_all_iff split: if_splits option.splits)

lemma recover_mild: "decide_RecoverTurn s k a tm = Inr es \<Longrightarrow> list_all mild_event es"
  by (auto simp: decide_RecoverTurn_def Let_def stops_mild split: if_splits option.splits)

lemma expire_mild: "decide_ExpireAttempt s k a tm = Inr es \<Longrightarrow> list_all mild_event es"
  by (auto simp: decide_ExpireAttempt_def Let_def stops_mild recover_mild settle_mild
      split: if_splits sum.splits)

lemma switch_mild: "decide_switch sid s p resume expected m tm = Inr es \<Longrightarrow> list_all mild_event es"
  by (auto simp: decide_switch_def Let_def stops_mild marker_mild split: if_splits option.splits)

lemma bind_mild: "decide_BindProviderThread sid s n h tm = Inr es \<Longrightarrow> list_all mild_event es"
  by (auto simp: decide_BindProviderThread_def Let_def split: if_splits option.splits)

lemmas mild_decisions =
  decide_SetTitle_def decide_SetWorktree_def decide_ReleaseInitialTurn_def
  decide_RequestTurnInterrupt_def decide_AcknowledgeTurnInterrupt_def decide_FailTurnInterrupt_def
  decide_EnqueueTurn_def decide_UpdateQueuedTurn_def decide_ClaimQueuedTurn_def
  decide_RemoveQueuedTurn_def decide_OpenSegment_def decide_SettleSegment_def
  decide_ExpirePermission_def decide_ResolvePermission_def decide_ExpireQuestion_def
  decide_DetachProvider_def decide_AttachProvider_def decide_ReserveProviderSession_def
  decide_PersistMessage_def decide_StartTurn_def decide_SubmitTurn_def decide_RollbackTurns_def
  decide_ReorderQueuedTurns_def decide_RetryTurn_def decide_BindAttemptProviderTurn_def

lemma small_mild:
  "decide_SetTitle s a b tm = Inr es \<Longrightarrow> list_all mild_event es"
  "decide_SetWorktree s w tm fo = Inr es \<Longrightarrow> list_all mild_event es"
  "decide_ReleaseInitialTurn s k i st tm = Inr es \<Longrightarrow> list_all mild_event es"
  "decide_RequestTurnInterrupt s ex tm = Inr es \<Longrightarrow> list_all mild_event es"
  "decide_AcknowledgeTurnInterrupt s k tm = Inr es \<Longrightarrow> list_all mild_event es"
  "decide_FailTurnInterrupt s k r tm = Inr es \<Longrightarrow> list_all mild_event es"
  "decide_EnqueueTurn s q = Inr es \<Longrightarrow> list_all mild_event es"
  "decide_UpdateQueuedTurn s k i tm rdy = Inr es \<Longrightarrow> list_all mild_event es"
  "decide_ClaimQueuedTurn s k tm = Inr es \<Longrightarrow> list_all mild_event es"
  "decide_RemoveQueuedTurn s k tm = Inr es \<Longrightarrow> list_all mild_event es"
  "decide_OpenSegment s k g kd tm = Inr es \<Longrightarrow> list_all mild_event es"
  "decide_SettleSegment s k g outcome tm = Inr es \<Longrightarrow> list_all mild_event es"
  "decide_ExpirePermission s k tm = Inr es \<Longrightarrow> list_all mild_event es"
  "decide_ResolvePermission s k c cj tm = Inr es \<Longrightarrow> list_all mild_event es"
  "decide_ExpireQuestion s k tm = Inr es \<Longrightarrow> list_all mild_event es"
  "decide_DetachProvider s tm expd = Inr es \<Longrightarrow> list_all mild_event es"
  "decide_AttachProvider s p psid tm = Inr es \<Longrightarrow> list_all mild_event es"
  "decide_ReserveProviderSession s rsv = Inr es \<Longrightarrow> list_all mild_event es"
  "decide_PersistMessage s m = Inr es \<Longrightarrow> list_all mild_event es"
  "decide_StartTurn s k tm = Inr es \<Longrightarrow> list_all mild_event es"
  "decide_SubmitTurn s x = Inr es \<Longrightarrow> list_all mild_event es"
  "decide_RollbackTurns s n sq ids tm = Inr es \<Longrightarrow> list_all mild_event es"
  "decide_ReorderQueuedTurns s ids tm = Inr es \<Longrightarrow> list_all mild_event es"
  "decide_RetryTurn s k rs i st tm = Inr es \<Longrightarrow> list_all mild_event es"
  "decide_BindAttemptProviderTurn s k a rf tm = Inr es \<Longrightarrow> list_all mild_event es"
  by (auto simp: mild_decisions Let_def stops_mild
      split: if_splits option.splits interrupt_receipt.splits)

lemma steer_mild: "decide_SteerQueuedTurn s k q su tm = Inr es \<Longrightarrow> list_all mild_event es"
  by (auto simp: decide_SteerQueuedTurn_def Let_def split: if_splits option.splits)

lemma inline_mild:
  "\<lbrakk>(if b then Inr [] else Inr [e]) = Inr es; mild_event e\<rbrakk> \<Longrightarrow> list_all mild_event es"
  "\<lbrakk>(if b then Inr [e] else Inr []) = Inr es; mild_event e\<rbrakk> \<Longrightarrow> list_all mild_event es"
  "\<lbrakk>Inr [e] = Inr es; mild_event e\<rbrakk> \<Longrightarrow> list_all mild_event es"
  "\<lbrakk>Inr (provider_stops s tm) = Inr es; True\<rbrakk> \<Longrightarrow> list_all mild_event es"
  by (auto simp: stops_mild split: if_splits)

lemmas mild_rules =
  small_mild settle_mild recover_mild expire_mild switch_mild bind_mild steer_mild

fun special_command :: "session_command \<Rightarrow> bool" where
  "special_command (CreateSession c) = True"
| "special_command (CreateSessionWithInitialTurn c t) = True"
| "special_command (FinalizeTurn t outcome tm) = True"
| "special_command (DeleteSession tm) = True"
| "special_command c = False"

lemma decide_mild:
  assumes "\<not> special_command c" "decide s c = Inr es"
  shows "list_all mild_event es \<and> \<not> deleted s"
  using assms
  by (cases c; simp only: decide.simps with_session_Inr special_command.simps simp_thms)
    (elim exE conjE, rule conjI, (erule mild_rules | erule inline_mild, simp), assumption)+

lemma created_complete:
  "missing_created_field (created_event c) = None"
  "missing_created_field ((created_event c)\<lparr>sc_titleProvenance := p\<rparr>) = None"
  by (simp_all add: missing_created_field_def created_event_def)

lemma initial_not_deleted [simp]: "deleted initial_session_state = False"
  by (simp add: initial_session_state_def)

lemma decide_shown:
  assumes inv: "event_inv s" and d: "decide s c = Inr es"
  shows "shown_events dec s es"
proof (cases "special_command c")
  case False
  from decide_mild [OF False d] mild_events show ?thesis by blast
next
  case True
  have created: "shown_events dec s (SessionCreated e # ys)"
    if "\<not> exists s" "missing_created_field e = None" "list_all mild_event ys" for e ys
  proof -
    from that(1) have s: "s = initial_session_state" by (rule event_inv_fresh [OF inv])
    have "\<not> deleted (evolve dec s (SessionCreated e))" by (subst deleted_evolve) (simp_all add: s)
    with that(2) mild_events [OF that(3)] show ?thesis by (simp add: s del: evolve.simps)
  qed
  from True show ?thesis
  proof (cases c)
    case (CreateSession x)
    with d show ?thesis
      by (auto simp: decide_CreateSession_def created_complete seeds_mild simp del: shown_events.simps
          split: if_splits intro!: created)
  next
    case (CreateSessionWithInitialTurn x t)
    with d show ?thesis
      by (auto simp: decide_CreateSessionWithInitialTurn_def created_complete seeds_mild
          simp del: shown_events.simps split: if_splits intro!: created)
  next
    case (FinalizeTurn t outcome tm)
    with d have es: "decide_FinalizeTurn s t outcome tm = Inr es" and "\<not> deleted s"
      by (auto simp: with_session_Inr)
    moreover have "active_attempt s t = Some (attempt_or_first s t)" if "currentTurnId s = Some t"
    proof -
      from inv that obtain u where "map_of (turns s) t = Some u"
        using turns_wf_current [of "turns s" "turnCount s" t] by (auto simp: event_inv_alt)
      then show ?thesis by (simp add: active_attempt_def attempt_or_first_def)
    qed
    ultimately show ?thesis by (auto simp: decide_FinalizeTurn_def split: if_splits)
  next
    case (DeleteSession tm)
    with d show ?thesis by (auto simp: with_session_Inr)
  qed simp_all
qed

text \<open>The log of a session relies on nothing it does not have.\<close>

lemma log_ok:
  assumes "session_reachable dec hist s"
  shows "events_ok dec initial_session_state hist \<and> shown_events dec initial_session_state hist"
  using assms
proof (induction rule: reachable.induct)
  case reach_start
  then show ?case by simp
next
  case (reach_step hist s c es)
  have inv: "event_inv s"
    using session_reachable_inv [OF reach_step.hyps(1)] by (simp add: session_inv_def)
  have s: "s = foldl (evolve dec) initial_session_state hist"
    by (rule reachable_replay [OF reach_step.hyps(1)])
  from reach_step.IH decide_events_ok [OF inv reach_step.hyps(2)] decide_shown [OF inv reach_step.hyps(2)]
  show ?case by (simp add: events_ok_append shown_events_append s)
qed

section \<open>The turns of a log\<close>

fun started_turn_id :: "session_event \<Rightarrow> string option" where
  "started_turn_id (TurnStarted t tm ordinal attempt thread) = Some t"
| "started_turn_id e = None"

definition started_turns :: "session_event list \<Rightarrow> string list" where
  "started_turns es = List.map_filter started_turn_id es"

lemma started_turns_simps [simp]:
  "started_turns [] = []"
  "started_turns (e # es) =
     (case started_turn_id e of None \<Rightarrow> started_turns es | Some t \<Rightarrow> t # started_turns es)"
  "started_turns (xs @ ys) = started_turns xs @ started_turns ys"
  by (simp_all add: started_turns_def map_filter_def split: option.split)

end
