(* ===== verification/Read_Model_Refinement.thy ===== *)
theory Read_Model_Refinement
  imports Read_Model_Events
begin

text \<open>
  The read model refines the session state: the rows the projector of
  \<open>projectors/sql-session-projector.ts\<close> writes for a session show the state its events fold to.

  \<open>displays\<close> is the relation between the two. The turns, attempts, provider threads and queued
  items of the state are maps in insertion order, the rows of a session are in insertion order
  too, so the relation goes entry by entry (\<open>list_all2\<close>). The lemmas below are one per table.
\<close>

section \<open>Rows and entries\<close>

lemma find_filter: "find P xs = (case filter P xs of [] \<Rightarrow> None | x # _ \<Rightarrow> Some x)"
  by (induction xs) auto

lemma update_alist_fresh: "k \<notin> set (keys m) \<Longrightarrow> AList.update k v m = m @ [(k, v)]"
  by (induction m) auto

text \<open>A statement that changes exactly the row of one entry.\<close>

lemma rows_update:
  assumes "list_all2 P rows m" "distinct (keys m)" "map_of m k = Some v"
    and "\<And>r k' w. \<lbrakk>r \<in> set rows; map_of m k' = Some w; P r (k', w)\<rbrakk> \<Longrightarrow> p r \<longleftrightarrow> k' = k"
    and "\<And>r. P r (k, v) \<Longrightarrow> P (f r) (k, v')"
  shows "list_all2 P (update_where p f rows) (AList.update k v' m)"
  using assms
proof (induction rows m rule: list_all2_induct)
  case (Cons r rows e m)
  obtain k' w where e: "e = (k', w)" by (cases e)
  have w: "map_of (e # m) k' = Some w" by (simp add: e)
  from Cons.prems(3) [OF _ w] Cons.hyps(1) have p: "p r \<longleftrightarrow> k' = k" by (simp add: e)
  show ?case
  proof (cases "k' = k")
    case True
    with Cons.prems have "v = w" and out: "k \<notin> set (keys m)" by (auto simp: e)
    have "\<not> p r'" if r': "r' \<in> set rows" for r'
    proof -
      from Cons.hyps(2) r' obtain x where x: "x \<in> set m" "P r' x"
        by (metis in_set_conv_nth list_all2_conv_all_nth)
      obtain k2 w2 where x2: "x = (k2, w2)" by (cases x)
      from x(1) x2 out have "k2 \<noteq> k" by force
      moreover have "map_of (e # m) k2 = Some w2"
        using x(1) x2 Cons.prems(1) \<open>k2 \<noteq> k\<close> True by (simp add: e)
      ultimately show ?thesis using Cons.prems(3) [of r' k2 w2] r' x x2 by auto
    qed
    then have "update_where p f rows = rows" by (intro update_where_other)
    with True p \<open>v = w\<close> Cons.hyps Cons.prems(4) [of r] show ?thesis by (simp add: e)
  next
    case False
    with Cons.prems have "map_of m k = Some v" "distinct (keys m)" by (auto simp: e)
    moreover have "p r' \<longleftrightarrow> k2 = k" if "r' \<in> set rows" "map_of m k2 = Some w2" "P r' (k2, w2)" for r' k2 w2
    proof -
      from that(2) Cons.prems(1) have "k2 \<noteq> k'" by (force simp: e dest!: map_of_SomeD)
      with that(2) have "map_of (e # m) k2 = Some w2" by (simp add: e)
      with Cons.prems(3) [of r' k2 w2] that show ?thesis by auto
    qed
    ultimately have "list_all2 P (update_where p f rows) (AList.update k v' m)"
      using Cons.IH Cons.prems(4) by blast
    with False p Cons.hyps show ?thesis by (simp add: e)
  qed
qed simp

lemma rows_append:
  assumes "list_all2 P rows m" "k \<notin> set (keys m)" "P r (k, v)"
  shows "list_all2 P (rows @ [r]) (AList.update k v m)"
  using assms by (simp add: update_alist_fresh list_all2_appendI)

lemma rows_keep:
  assumes "list_all2 P rows m"
    and "\<And>r k v. \<lbrakk>r \<in> set rows; (k, v) \<in> set m; P r (k, v); p r\<rbrakk> \<Longrightarrow> P (f r) (k, v)"
  shows "list_all2 P (update_where p f rows) m"
  using assms by (induction rows m rule: list_all2_induct) (auto simp: split_paired_all)

lemma rows_map_values:
  assumes "list_all2 P rows m"
    and "\<And>r k v. \<lbrakk>r \<in> set rows; (k, v) \<in> set m; P r (k, v)\<rbrakk> \<Longrightarrow> P (if p r then f r else r) (k, g v)"
  shows "list_all2 P (update_where p f rows) (map_values g m)"
  using assms
  by (induction rows m rule: list_all2_induct) (auto simp: map_values_def split_paired_all)

lemma rows_delete:
  assumes "list_all2 P rows m" "\<And>r k v. \<lbrakk>r \<in> set rows; P r (k, v)\<rbrakk> \<Longrightarrow> p r \<longleftrightarrow> k = key"
  shows "list_all2 P (delete_where p rows) (AList.delete key m)"
  using assms
  by (induction rows m rule: list_all2_induct) (auto simp: delete_where_def split_paired_all)

lemma rows_in:
  "\<lbrakk>list_all2 P rows m; r \<in> set rows\<rbrakk> \<Longrightarrow> \<exists>k v. (k, v) \<in> set m \<and> P r (k, v)"
  by (induction rows m rule: list_all2_induct) auto

lemma rows_of:
  "\<lbrakk>list_all2 P rows m; (k, v) \<in> set m\<rbrakk> \<Longrightarrow> \<exists>r. r \<in> set rows \<and> P r (k, v)"
  by (induction rows m rule: list_all2_induct) auto

section \<open>The relation\<close>

definition own_session :: "read_model \<Rightarrow> string \<Rightarrow> session_row list" where
  "own_session rm sid = filter (\<lambda>r. sr_id r = sid) (rm_sessions rm)"

definition own_turns :: "string \<Rightarrow> turn_row list \<Rightarrow> turn_row list" where
  "own_turns sid rows = filter (\<lambda>t. tr_sessionId t = sid) rows"

definition own_threads :: "string \<Rightarrow> thread_row list \<Rightarrow> thread_row list" where
  "own_threads sid rows = filter (\<lambda>h. hr_sessionId h = sid) rows"

definition own_queue :: "string \<Rightarrow> queue_row list \<Rightarrow> queue_row list" where
  "own_queue sid rows = filter (\<lambda>q. qr_sessionId q = sid) rows"

definition own_attempts :: "string \<Rightarrow> string \<Rightarrow> attempt_row list \<Rightarrow> attempt_row list" where
  "own_attempts sid k rows = filter (\<lambda>r. ar_sessionId r = sid \<and> ar_turnId r = k) rows"

definition shows_session :: "session_row \<Rightarrow> session_state \<Rightarrow> bool" where
  "shows_session r s \<longleftrightarrow>
     Some (sr_title r) = title s \<and> sr_titleProvenance r = titleProvenance s \<and>
     Some (sr_providerId r) = providerId s \<and> Some (sr_model r) = model s \<and>
     (sr_archivedAt r \<noteq> None) = archived s \<and>
     sr_activeProviderThreadId r = activeProviderThreadId s \<and>
     sr_providerReservationId r = map_option rsv_providerSessionId (providerReservation s) \<and>
     Some (sr_runtimeMode r) = runtimeMode s \<and> sr_worktreeId r = worktreeId s \<and>
     Some (sr_chatId r) = chatId s \<and> Some (sr_projectId r) = projectId s \<and>
     Some (sr_permissionMode r) = permissionMode s \<and> sr_queuePaused r = queuePaused s"

fun shows_turn :: "turn_row \<Rightarrow> string \<times> turn_state \<Rightarrow> bool" where
  "shows_turn r (k, t) \<longleftrightarrow>
     tr_id r = k \<and> tr_ordinal r = tn_ordinal t \<and> tr_status r = tn_status t \<and>
     tr_phase r = tn_phase t \<and> tr_providerThreadId r = tn_providerThreadId t \<and>
     tr_activeAttemptId r = tn_activeAttemptId t \<and> tr_requestedAt r = tn_requestedAt t \<and>
     tr_completedAt r = tn_completedAt t \<and>
     map_option (\<lambda>a. (att_ordinal a, att_reason a)) (map_of (tn_attempts t) (tn_activeAttemptId t)) =
       Some (tr_attemptOrdinal r, tr_attemptReason r)"

fun shows_attempt :: "attempt_row \<Rightarrow> string \<times> attempt_state \<Rightarrow> bool" where
  "shows_attempt r (k, a) \<longleftrightarrow>
     ar_id r = k \<and> ar_ordinal r = att_ordinal a \<and> ar_reason r = att_reason a \<and>
     ar_status r = att_status a \<and> ar_startedAt r = att_startedAt a \<and>
     ar_completedAt r = att_completedAt a"

fun shows_thread :: "thread_row \<Rightarrow> string \<times> provider_thread \<Rightarrow> bool" where
  "shows_thread r (k, h) \<longleftrightarrow>
     hr_id r = k \<and> hr_nativeThreadId r = pt_nativeThreadId h \<and>
     hr_nativeHeadId r = pt_nativeHeadId h \<and> hr_status r = pt_status h \<and>
     hr_lastTurnOrdinal r = pt_lastTurnOrdinal h"

fun shows_queued :: "queue_row \<Rightarrow> string \<times> queued_turn \<Rightarrow> bool" where
  "shows_queued r (k, q) \<longleftrightarrow>
     qr_id r = k \<and> qr_inputJson r = qt_inputJson q \<and> qr_ready r = qt_ready q"

definition session_shown :: "string \<Rightarrow> read_model \<Rightarrow> session_state \<Rightarrow> bool" where
  "session_shown sid rm s \<longleftrightarrow>
     (if exists s \<and> \<not> deleted s then \<exists>r. own_session rm sid = [r] \<and> shows_session r s
      else own_session rm sid = [])"

definition turns_shown :: "string \<Rightarrow> turn_row list \<Rightarrow> session_state \<Rightarrow> bool" where
  "turns_shown sid rows s \<longleftrightarrow>
     (if deleted s then own_turns sid rows = []
      else list_all2 shows_turn (own_turns sid rows) (turns s))"

definition threads_shown :: "string \<Rightarrow> thread_row list \<Rightarrow> session_state \<Rightarrow> bool" where
  "threads_shown sid rows s \<longleftrightarrow>
     (if deleted s then own_threads sid rows = []
      else list_all2 shows_thread (own_threads sid rows) (providerThreads s))"

text \<open>A session that is deleted has no row left where the foreign key deletes them with it.\<close>

definition queue_shown :: "string \<Rightarrow> queue_row list \<Rightarrow> session_state \<Rightarrow> bool" where
  "queue_shown sid rows s \<longleftrightarrow>
     list_all2 shows_queued (own_queue sid rows) (queuedTurns s) \<or>
     deleted s \<and> own_queue sid rows = []"

text \<open>No row has a sequence after \<open>n\<close>, the last one that was projected.\<close>

definition attempts_shown :: "string \<Rightarrow> int \<Rightarrow> attempt_row list \<Rightarrow> session_state \<Rightarrow> bool" where
  "attempts_shown sid n rows s \<longleftrightarrow>
     (if deleted s then \<forall>r \<in> set rows. ar_sessionId r \<noteq> sid
      else
        (\<forall>k t. map_of (turns s) k = Some t \<longrightarrow>
           list_all2 shows_attempt (own_attempts sid k rows) (tn_attempts t)) \<and>
        (\<forall>r \<in> set rows. ar_sessionId r = sid \<longrightarrow>
           map_has (turns s) (ar_turnId r) \<and> ar_startedSequence r \<le> n \<and> ar_updatedSequence r \<le> n))"

definition displays :: "string \<Rightarrow> int \<Rightarrow> read_model \<Rightarrow> session_state \<Rightarrow> bool" where
  "displays sid n rm s \<longleftrightarrow>
     session_shown sid rm s \<and> turns_shown sid (rm_turns rm) s \<and>
     attempts_shown sid n (rm_attempts rm) s \<and> threads_shown sid (rm_threads rm) s \<and>
     queue_shown sid (rm_queue rm) s"

section \<open>The rows of other sessions\<close>

text \<open>
  The rows of other sessions do not use the turn and queue ids of this one; the ids of its
  provider threads are scoped by its own id. The payloads of its forks are JSON.
\<close>

definition foreign_free ::
  "sqlite_json \<Rightarrow> string \<Rightarrow> string set \<Rightarrow> string set \<Rightarrow> read_model \<Rightarrow> bool" where
  "foreign_free sj sid T Q rm \<longleftrightarrow>
     (\<forall>t \<in> set (rm_turns rm). tr_sessionId t \<noteq> sid \<longrightarrow> tr_id t \<notin> T) \<and>
     (\<forall>q \<in> set (rm_queue rm). qr_sessionId q \<noteq> sid \<longrightarrow> qr_id q \<notin> Q) \<and>
     (\<forall>h \<in> set (rm_threads rm). hr_sessionId h \<noteq> sid \<longrightarrow> scope_provider_thread_id sid (hr_id h) \<noteq> hr_id h) \<and>
     (\<forall>f \<in> set (rm_forks rm). fr_sessionId f = sid \<and> fr_completedAt f = None \<longrightarrow>
        sj_dropMessages sj (fr_payloadJson f) \<noteq> None)"

end
