(* ===== verification/Read_Model_Tables.thy ===== *)
theory Read_Model_Tables
  imports Read_Model_Refinement
begin

text \<open>
  The effect of one record on each table of the read model, and that it keeps the relation
  between the rows and the state.
\<close>

section \<open>The stages of a record\<close>

definition same_tables :: "read_model \<Rightarrow> read_model \<Rightarrow> bool" where
  "same_tables a b \<longleftrightarrow>
     rm_sessions a = rm_sessions b \<and> rm_threads a = rm_threads b \<and> rm_turns a = rm_turns b \<and>
     rm_attempts a = rm_attempts b \<and> rm_queue a = rm_queue b \<and> rm_forks a = rm_forks b"

lemma same_tables_refl [simp]: "same_tables rm rm"
  by (simp add: same_tables_def)

lemma project_execution_step_same:
  "project_execution_step dec ov record rm = Inr rm' \<Longrightarrow> same_tables rm rm'"
  by (cases "se_event record")
    (auto simp: project_execution_step_def project_step_message_def same_tables_def close_steps_def
      and_then_Inr Let_def split: option.splits if_splits)

lemma project_session_input_same: "same_tables rm (project_session_input dec sj record rm)"
  by (simp add: same_tables_def project_session_input_def)

lemma committed_input_same: "same_tables rm (project_committed_message_input dec sj record rm)"
  using project_session_input_same
  by (simp add: project_committed_message_input_def split: session_event.split option.split)

lemma same_tables_trans: "\<lbrakk>same_tables a b; same_tables b c\<rbrakk> \<Longrightarrow> same_tables a c"
  by (simp add: same_tables_def)

text \<open>The attempts come first, then the tables of the event.\<close>

lemma project_session_stages:
  assumes "project_session dec sj record rm = Inr rm'"
  obtains rows rm3 where "project_attempts record (rm_attempts rm) = Inr rows"
    "same_tables (rm\<lparr>rm_attempts := rows\<rparr>) rm3"
    "project_event dec sj record rm3 (se_event record) = Inr rm'" "references_hold sj rm'"
proof -
  from assms obtain rows where rows: "project_attempts record (rm_attempts rm) = Inr rows"
    by (auto simp: project_session_def project_session_attempt_def and_then_Inr)
  with assms have rest: "and_then
      (case se_event record of MessagePersisted m \<Rightarrow> Inr (rm\<lparr>rm_attempts := rows\<rparr>)
       | _ \<Rightarrow> and_then (project_execution_step dec None record (rm\<lparr>rm_attempts := rows\<rparr>))
              (\<lambda>rm2. Inr (project_session_input dec sj record rm2)))
      (\<lambda>rm3. and_then (project_event dec sj record rm3 (se_event record)) (check_references sj)) = Inr rm'"
    by (simp add: project_session_def project_session_attempt_def)
  then obtain rm3 where rm3: "project_event dec sj record rm3 (se_event record) = Inr rm'"
    "references_hold sj rm'"
    "rm3 = rm\<lparr>rm_attempts := rows\<rparr> \<or>
     (\<exists>rm2. project_execution_step dec None record (rm\<lparr>rm_attempts := rows\<rparr>) = Inr rm2 \<and>
        rm3 = project_session_input dec sj record rm2)"
    by (cases "se_event record") (auto simp: and_then_Inr)
  then have "same_tables (rm\<lparr>rm_attempts := rows\<rparr>) rm3"
    using project_execution_step_same project_session_input_same same_tables_trans same_tables_refl
    by metis
  with that rows rm3(1,2) show ?thesis by blast
qed

lemma update_session_tables [simp]:
  "rm_threads (update_session sid f rm) = rm_threads rm"
  "rm_turns (update_session sid f rm) = rm_turns rm"
  "rm_attempts (update_session sid f rm) = rm_attempts rm"
  "rm_queue (update_session sid f rm) = rm_queue rm"
  "rm_steps (update_session sid f rm) = rm_steps rm"
  "rm_forks (update_session sid f rm) = rm_forks rm"
  "rm_inputs (update_session sid f rm) = rm_inputs rm"
  "rm_messages (update_session sid f rm) = rm_messages rm"
  "rm_chats (update_session sid f rm) = rm_chats rm"
  by (simp_all add: update_session_def)

lemma touch_session_tables [simp]:
  "rm_threads (touch_session sid tm rm) = rm_threads rm"
  "rm_turns (touch_session sid tm rm) = rm_turns rm"
  "rm_attempts (touch_session sid tm rm) = rm_attempts rm"
  "rm_queue (touch_session sid tm rm) = rm_queue rm"
  "rm_steps (touch_session sid tm rm) = rm_steps rm"
  "rm_forks (touch_session sid tm rm) = rm_forks rm"
  by (simp_all add: touch_session_def)

lemma chat_recency_tables [simp]:
  "rm_sessions (update_chat_last_message tg m rm) = rm_sessions rm"
  "rm_threads (update_chat_last_message tg m rm) = rm_threads rm"
  "rm_turns (update_chat_last_message tg m rm) = rm_turns rm"
  "rm_attempts (update_chat_last_message tg m rm) = rm_attempts rm"
  "rm_queue (update_chat_last_message tg m rm) = rm_queue rm"
  "rm_steps (update_chat_last_message tg m rm) = rm_steps rm"
  "rm_forks (update_chat_last_message tg m rm) = rm_forks rm"
  "rm_sessions (update_chat_last_user_message k tm rm) = rm_sessions rm"
  "rm_threads (update_chat_last_user_message k tm rm) = rm_threads rm"
  "rm_turns (update_chat_last_user_message k tm rm) = rm_turns rm"
  "rm_attempts (update_chat_last_user_message k tm rm) = rm_attempts rm"
  "rm_queue (update_chat_last_user_message k tm rm) = rm_queue rm"
  "rm_steps (update_chat_last_user_message k tm rm) = rm_steps rm"
  "rm_forks (update_chat_last_user_message k tm rm) = rm_forks rm"
  by (simp_all add: update_chat_last_message_def update_chat_last_user_message_def
      split: last_message_target.split)

lemma replace_active_tables [simp]:
  "rm_sessions (replace_unavailable_active_session k tm rm) = rm_sessions rm"
  "rm_threads (replace_unavailable_active_session k tm rm) = rm_threads rm"
  "rm_turns (replace_unavailable_active_session k tm rm) = rm_turns rm"
  "rm_attempts (replace_unavailable_active_session k tm rm) = rm_attempts rm"
  "rm_queue (replace_unavailable_active_session k tm rm) = rm_queue rm"
  "rm_steps (replace_unavailable_active_session k tm rm) = rm_steps rm"
  "rm_forks (replace_unavailable_active_session k tm rm) = rm_forks rm"
  by (simp_all add: replace_unavailable_active_session_def)

lemma upsert_thread_tables [simp]:
  "rm_sessions (upsert_provider_thread k h rm) = rm_sessions rm"
  "rm_turns (upsert_provider_thread k h rm) = rm_turns rm"
  "rm_attempts (upsert_provider_thread k h rm) = rm_attempts rm"
  "rm_queue (upsert_provider_thread k h rm) = rm_queue rm"
  "rm_steps (upsert_provider_thread k h rm) = rm_steps rm"
  "rm_forks (upsert_provider_thread k h rm) = rm_forks rm"
  by (simp_all add: upsert_provider_thread_def Let_def)

lemma set_active_tables [simp]:
  "rm_threads (set_active_provider_thread k h tm rm) = rm_threads rm"
  "rm_turns (set_active_provider_thread k h tm rm) = rm_turns rm"
  "rm_attempts (set_active_provider_thread k h tm rm) = rm_attempts rm"
  "rm_queue (set_active_provider_thread k h tm rm) = rm_queue rm"
  "rm_steps (set_active_provider_thread k h tm rm) = rm_steps rm"
  "rm_forks (set_active_provider_thread k h tm rm) = rm_forks rm"
  by (simp_all add: set_active_provider_thread_def)

lemma retire_tables [simp]:
  "rm_turns (retire_active_thread_row k tm rm) = rm_turns rm"
  "rm_attempts (retire_active_thread_row k tm rm) = rm_attempts rm"
  "rm_queue (retire_active_thread_row k tm rm) = rm_queue rm"
  "rm_steps (retire_active_thread_row k tm rm) = rm_steps rm"
  "rm_forks (retire_active_thread_row k tm rm) = rm_forks rm"
  by (simp_all add: retire_active_thread_row_def)

lemma legacy_resume_tables [simp]:
  "rm_turns (bind_legacy_resume_row k n h tm rm) = rm_turns rm"
  "rm_attempts (bind_legacy_resume_row k n h tm rm) = rm_attempts rm"
  "rm_queue (bind_legacy_resume_row k n h tm rm) = rm_queue rm"
  "rm_steps (bind_legacy_resume_row k n h tm rm) = rm_steps rm"
  "rm_forks (bind_legacy_resume_row k n h tm rm) = rm_forks rm"
  by (simp_all add: bind_legacy_resume_row_def Let_def split: option.split)

lemma queue_row_tables [simp]:
  "rm_sessions (update_queue_row k q f rm) = rm_sessions rm"
  "rm_threads (update_queue_row k q f rm) = rm_threads rm"
  "rm_turns (update_queue_row k q f rm) = rm_turns rm"
  "rm_attempts (update_queue_row k q f rm) = rm_attempts rm"
  "rm_steps (update_queue_row k q f rm) = rm_steps rm"
  "rm_forks (update_queue_row k q f rm) = rm_forks rm"
  "rm_sessions (remove_queue_row k q rm) = rm_sessions rm"
  "rm_threads (remove_queue_row k q rm) = rm_threads rm"
  "rm_turns (remove_queue_row k q rm) = rm_turns rm"
  "rm_attempts (remove_queue_row k q rm) = rm_attempts rm"
  "rm_steps (remove_queue_row k q rm) = rm_steps rm"
  "rm_forks (remove_queue_row k q rm) = rm_forks rm"
  by (simp_all add: update_queue_row_def remove_queue_row_def)

lemma reorder_fold_tables [simp]:
  "rm_sessions (fold (\<lambda>(p, q). update_queue_row k q (g p)) xs rm) = rm_sessions rm"
  "rm_threads (fold (\<lambda>(p, q). update_queue_row k q (g p)) xs rm) = rm_threads rm"
  "rm_turns (fold (\<lambda>(p, q). update_queue_row k q (g p)) xs rm) = rm_turns rm"
  "rm_attempts (fold (\<lambda>(p, q). update_queue_row k q (g p)) xs rm) = rm_attempts rm"
  "rm_steps (fold (\<lambda>(p, q). update_queue_row k q (g p)) xs rm) = rm_steps rm"
  "rm_forks (fold (\<lambda>(p, q). update_queue_row k q (g p)) xs rm) = rm_forks rm"
  by (induction xs arbitrary: rm) auto

lemma update_turn_tables [simp]:
  "rm_sessions (update_turn_row k t f rm) = rm_sessions rm"
  "rm_threads (update_turn_row k t f rm) = rm_threads rm"
  "rm_attempts (update_turn_row k t f rm) = rm_attempts rm"
  "rm_queue (update_turn_row k t f rm) = rm_queue rm"
  "rm_steps (update_turn_row k t f rm) = rm_steps rm"
  "rm_forks (update_turn_row k t f rm) = rm_forks rm"
  by (simp_all add: update_turn_row_def)

lemma delete_sessions_tables [simp]:
  "rm_threads (delete_sessions sj p rm) = rm_threads rm"
  "rm_turns (delete_sessions sj p rm) = rm_turns rm"
  "rm_attempts (delete_sessions sj p rm) = rm_attempts rm"
  "rm_steps (delete_sessions sj p rm) = rm_steps rm"
  "rm_forks (delete_sessions sj p rm) = rm_forks rm"
  by (simp_all add: delete_sessions_def Let_def)

text \<open>The rows of other sessions, when one session is deleted.\<close>

lemma delete_session_queue:
  "rm_queue (delete_sessions sj (\<lambda>r. sr_id r = sid) rm) = rm_queue rm \<or>
   rm_queue (delete_sessions sj (\<lambda>r. sr_id r = sid) rm) =
     delete_where (\<lambda>q. qr_sessionId q = sid) (rm_queue rm)"
proof -
  let ?gone = "set (map sr_id (filter (\<lambda>r. sr_id r = sid) (rm_sessions rm)))"
  consider "?gone = {}" | "?gone = {sid}" by auto
  then show ?thesis
    by cases (simp_all only: delete_sessions_def Let_def, simp_all add: delete_where_def)
qed

lemma own_session_forked:
  "filter (\<lambda>r. sr_id r = b) (update_where p (\<lambda>r. r\<lparr>sr_forkedFromSessionId := x\<rparr>) rows) =
   update_where p (\<lambda>r. r\<lparr>sr_forkedFromSessionId := x\<rparr>) (filter (\<lambda>r. sr_id r = b) rows)"
  by (rule filter_update_where) simp

lemma delete_session_own:
  "own_session (delete_sessions sj (\<lambda>r. sr_id r = sid) rm) sid = []"
  "b \<noteq> sid \<Longrightarrow> \<exists>p. own_session (delete_sessions sj (\<lambda>r. sr_id r = sid) rm) b =
     update_where p (\<lambda>r. r\<lparr>sr_forkedFromSessionId := None\<rparr>) (own_session rm b)"
proof -
  have gone: "filter (\<lambda>r. sr_id r = sid) (delete_where (\<lambda>r. sr_id r = sid) (rm_sessions rm)) = []"
    by (simp add: delete_where_def filter_empty_conv)
  have kept: "filter (\<lambda>r. sr_id r = b) (delete_where (\<lambda>r. sr_id r = sid) (rm_sessions rm)) =
      filter (\<lambda>r. sr_id r = b) (rm_sessions rm)" if "b \<noteq> sid"
    unfolding delete_where_def filter_filter using that by (intro filter_cong) auto
  show "own_session (delete_sessions sj (\<lambda>r. sr_id r = sid) rm) sid = []"
    by (simp add: delete_sessions_def Let_def own_session_def own_session_forked gone)
  show "\<exists>p. own_session (delete_sessions sj (\<lambda>r. sr_id r = sid) rm) b =
      update_where p (\<lambda>r. r\<lparr>sr_forkedFromSessionId := None\<rparr>) (own_session rm b)" if "b \<noteq> sid"
  proof (cases "sj_foreignKeys sj")
    case True
    then show ?thesis
      by (auto simp: delete_sessions_def Let_def own_session_def own_session_forked kept [OF that])
  next
    case False
    then show ?thesis
      by (intro exI [of _ "\<lambda>r. False"])
        (simp add: delete_sessions_def Let_def own_session_def kept [OF that] update_where_other)
  qed
qed

lemmas project_defs =
  project_SessionCreated_def project_SessionProviderSet_def project_SessionWorktreeSet_def
  project_SessionStatusSet_def project_SessionArchived_def project_SessionUnarchived_def
  project_SessionDeleted_def project_QueuedTurnEnqueued_def project_QueuedTurnsReordered_def
  project_TurnStarted_def project_AttemptStarted_def project_phase_def project_TurnsRolledBack_def
  project_TurnFinalizationRequested_def project_TurnSettled_def

lemma deleted_rows:
  assumes "project_SessionDeleted sj sid tm rm = Inr rm'"
  obtains rm0 where "rm' = delete_sessions sj (\<lambda>r. sr_id r = sid) rm0"
    "rm_sessions rm0 = rm_sessions rm" "rm_queue rm0 = rm_queue rm" "rm_attempts rm0 = rm_attempts rm"
    "rm_turns rm0 = delete_where (\<lambda>t. tr_sessionId t = sid) (rm_turns rm)"
    "rm_threads rm0 = delete_where (\<lambda>h. hr_sessionId h = sid) (rm_threads rm)"
    "cancel_forks sj (\<lambda>r. fr_sessionId r = sid) tm (rm_forks rm) = Inr (rm_forks rm0)"
proof -
  from assms obtain forks where forks: "cancel_forks sj (\<lambda>r. fr_sessionId r = sid) tm (rm_forks rm) = Inr forks"
    "project_SessionDeleted sj sid tm rm = Inr rm'"
    by (auto simp: project_SessionDeleted_def and_then_Inr)
  let ?rm0 = "(replace_unavailable_active_session sid tm (rm\<lparr>rm_forks := forks\<rparr>))
    \<lparr>rm_turns := delete_where (\<lambda>t. tr_sessionId t = sid) (rm_turns rm),
     rm_threads := delete_where (\<lambda>h. hr_sessionId h = sid) (rm_threads rm)\<rparr>"
  from forks have "rm' = delete_sessions sj (\<lambda>r. sr_id r = sid) ?rm0"
    by (simp add: project_SessionDeleted_def Let_def)
  then show thesis by (rule that) (simp_all add: forks(1))
qed

text \<open>A message writes none of the tables the relation is about.\<close>

lemma message_tables:
  assumes "project_MessagePersisted dec sj record m rm = Inr rm'"
  shows "rm_threads rm' = rm_threads rm" "rm_turns rm' = rm_turns rm" "rm_forks rm' = rm_forks rm"
    "rm_attempts rm' = rm_attempts rm" "rm_queue rm' = rm_queue rm"
    "\<exists>tm. rm_sessions rm' =
       update_where (\<lambda>r. sr_id r = se_streamId record) (\<lambda>r. r\<lparr>sr_updatedAt := tm\<rparr>) (rm_sessions rm)"
proof -
  let ?stored = "rm\<lparr>rm_messages := upsert_message (se_streamId record) (se_sequence record) m (rm_messages rm)\<rparr>"
  from assms obtain rm1 where rm1:
    "project_execution_step dec None record (project_committed_message_input dec sj record ?stored) = Inr rm1"
    and rm': "rm' = (let touched = update_chat_last_message (TargetSession (se_streamId record))
                 (Some (mf_createdAt m)) (touch_session (se_streamId record) (mf_createdAt m) rm1) in
         if mf_role m = ''user''
         then update_chat_last_user_message (se_streamId record) (mf_createdAt m) touched else touched)"
    by (auto simp: project_MessagePersisted_def and_then_Inr Let_def)
  have same: "same_tables ?stored rm1"
    by (rule same_tables_trans [OF committed_input_same project_execution_step_same [OF rm1]])
  then show "rm_threads rm' = rm_threads rm" "rm_turns rm' = rm_turns rm" "rm_forks rm' = rm_forks rm"
    "rm_attempts rm' = rm_attempts rm" "rm_queue rm' = rm_queue rm"
    "\<exists>tm. rm_sessions rm' =
       update_where (\<lambda>r. sr_id r = se_streamId record) (\<lambda>r. r\<lparr>sr_updatedAt := tm\<rparr>) (rm_sessions rm)"
    by (auto simp: rm' Let_def same_tables_def touch_session_def update_session_def)
qed

section \<open>The queue\<close>

lemma shown_not_deleted: "shown_ok s e \<Longrightarrow> \<not> deleted s"
  by (cases e) simp_all

fun queue_event :: "session_event \<Rightarrow> bool" where
  "queue_event (QueuedTurnEnqueued q) = True"
| "queue_event (QueuedTurnUpdated k i tm r) = True"
| "queue_event (QueuedTurnRemoved k tm) = True"
| "queue_event (QueuedTurnClaimed k tm) = True"
| "queue_event (QueuedTurnsReordered ids tm) = True"
| "queue_event (SessionDeleted tm) = True"
| "queue_event e = False"

lemma queue_untouched:
  assumes "project_event dec sj record rm e = Inr rm'" "\<not> queue_event e"
  shows "rm_queue rm' = rm_queue rm"
proof (cases e)
  case (MessagePersisted m)
  with assms show ?thesis by (auto dest: message_tables)
qed (use assms in \<open>auto simp: project_defs and_then_Inr Let_def split: option.splits if_splits\<close>)

lemma queue_state:
  "\<not> queue_event e \<Longrightarrow> queuedTurns (evolve dec s e) = queuedTurns s \<and> deleted (evolve dec s e) = deleted s"
  by (cases e) (simp_all add: branch_defs helper_defs Let_def split: option.splits)

lemma own_queue_update:
  "(\<And>r. qr_sessionId (f r) = qr_sessionId r) \<Longrightarrow>
   own_queue sid (update_where p f rows) = update_where p f (own_queue sid rows)"
  by (simp add: own_queue_def filter_update_where)

lemma own_queue_delete: "own_queue sid (delete_where p rows) = delete_where p (own_queue sid rows)"
  by (simp add: own_queue_def delete_where_def) (metis filter_filter conj_commute)

lemma reorder_shown:
  "list_all2 shows_queued (own_queue sid (rm_queue rm)) m \<Longrightarrow>
   list_all2 shows_queued (own_queue sid (rm_queue
     (fold (\<lambda>(p, q). update_queue_row sid q
        (\<lambda>r. r\<lparr>qr_queueOrder := int p, qr_updatedAt := tm\<rparr>)) xs rm))) m"
proof (induction xs arbitrary: rm)
  case (Cons x xs)
  obtain p q where x: "x = (p, q)" by (cases x)
  have "list_all2 shows_queued (own_queue sid (rm_queue (update_queue_row sid q
      (\<lambda>r. r\<lparr>qr_queueOrder := int p, qr_updatedAt := tm\<rparr>) rm))) m"
    by (auto simp: update_queue_row_def own_queue_update intro!: rows_keep [OF Cons.prems])
  from Cons.IH [OF this] show ?case by (simp add: x)
qed simp

lemma queue_step:
  assumes shown: "queue_shown sid (rm_queue rm) s" and inv: "queue_wf (queuedTurns s) (queueOrder s)"
    and ok: "event_ok s e" and okr: "shown_ok s e" and p: "project_event dec sj record rm e = Inr rm'"
    and sid [simp]: "se_streamId record = sid"
    and free: "\<And>q. e = QueuedTurnEnqueued q \<Longrightarrow>
      \<forall>r \<in> set (rm_queue rm). qr_sessionId r \<noteq> sid \<longrightarrow> qr_id r \<noteq> qt_queueId q"
  shows "queue_shown sid (rm_queue rm') (evolve dec s e)"
proof (cases "queue_event e")
  case False
  with shown queue_untouched [OF p] queue_state [of e dec s] show ?thesis by (simp add: queue_shown_def)
next
  case True
  from shown okr have rows: "list_all2 shows_queued (own_queue sid (rm_queue rm)) (queuedTurns s)"
    by (simp add: queue_shown_def shown_not_deleted)
  have gone: "list_all2 shows_queued (own_queue sid (rm_queue (remove_queue_row sid k rm)))
      (AList.delete k (queuedTurns s))" for k
    by (auto simp: remove_queue_row_def own_queue_delete own_queue_def [symmetric]
        intro!: rows_delete [OF rows]) (auto simp: own_queue_def)
  from True show ?thesis
  proof (cases e)
    case (QueuedTurnEnqueued q)
    have fresh: "qt_queueId q \<notin> set (keys (queuedTurns s))"
      using ok QueuedTurnEnqueued by (simp add: map_of_eq_None_iff)
    have "qr_id r \<noteq> qt_queueId q" if "r \<in> set (rm_queue rm)" for r
    proof (cases "qr_sessionId r = sid")
      case True
      with that have "r \<in> set (own_queue sid (rm_queue rm))" by (simp add: own_queue_def)
      from rows_in [OF rows this] fresh show ?thesis by force
    next
      case False
      with that free [OF QueuedTurnEnqueued] show ?thesis by blast
    qed
    then have "\<not> list_ex (\<lambda>r. qr_id r = qt_queueId q) (rm_queue rm)" by (auto simp: list_ex_iff)
    with p QueuedTurnEnqueued show ?thesis
      by (auto simp: queue_shown_def project_defs insert_or_ignore_def own_queue_def
          evolve_QueuedTurnEnqueued_def next_version_def
          intro!: rows_append [OF rows [unfolded own_queue_def] fresh])
  next
    case (QueuedTurnUpdated k i tm r)
    show ?thesis
    proof (cases "map_of (queuedTurns s) k")
      case None
      have "list_all2 shows_queued
          (update_where (\<lambda>x. qr_id x = k \<and> qr_sessionId x = sid)
             (\<lambda>x. x\<lparr>qr_inputJson := i, qr_updatedAt := tm, qr_ready := r\<rparr>) (own_queue sid (rm_queue rm)))
          (queuedTurns s)"
        using None by (intro rows_keep [OF rows]) (auto simp: map_of_eq_None_iff rev_image_eqI)
      with p QueuedTurnUpdated None show ?thesis
        by (auto simp: queue_shown_def update_queue_row_def own_queue_update
            evolve_QueuedTurnUpdated_def next_version_def)
    next
      case (Some q)
      have "list_all2 shows_queued
          (update_where (\<lambda>x. qr_id x = k \<and> qr_sessionId x = sid)
             (\<lambda>x. x\<lparr>qr_inputJson := i, qr_updatedAt := tm, qr_ready := r\<rparr>) (own_queue sid (rm_queue rm)))
          (AList.update k (q\<lparr>qt_inputJson := i, qt_ready := r\<rparr>) (queuedTurns s))"
        using inv by (intro rows_update [OF rows _ Some]) (auto simp: queue_wf_def own_queue_def)
      with p QueuedTurnUpdated Some show ?thesis
        by (auto simp: queue_shown_def update_queue_row_def own_queue_update
            evolve_QueuedTurnUpdated_def next_version_def)
    qed
  next
    case (QueuedTurnsReordered ids tm)
    with p reorder_shown [OF rows] show ?thesis
      by (auto simp: queue_shown_def project_defs next_version_def)
  next
    case (SessionDeleted tm)
    from p SessionDeleted have "project_SessionDeleted sj sid tm rm = Inr rm'" by simp
    from deleted_rows [OF this] obtain rm0 where rm0: "rm_queue rm0 = rm_queue rm"
      "rm' = delete_sessions sj (\<lambda>r. sr_id r = sid) rm0" by metis
    have "own_queue sid (delete_where (\<lambda>q. qr_sessionId q = sid) (rm_queue rm)) = []"
      by (simp add: own_queue_def delete_where_def filter_empty_conv)
    with delete_session_queue [of sj sid rm0] rows rm0 SessionDeleted show ?thesis
      by (auto simp: queue_shown_def next_version_def)
  qed (use p gone in \<open>auto simp: queue_shown_def evolve_QueuedTurnRemoved_def next_version_def\<close>)
qed

section \<open>Turns\<close>

fun turn_event :: "session_event \<Rightarrow> bool" where
  "turn_event (TurnStarted t tm ordinal attempt thread) = True"
| "turn_event (SessionStatusSet st tm) = True"
| "turn_event (AttemptStarted x) = True"
| "turn_event (TurnInterruptRequested t a tm) = True"
| "turn_event (TurnInterruptAcknowledged t tm) = True"
| "turn_event (TurnInterruptFailed t r tm) = True"
| "turn_event (TurnsRolledBack x) = True"
| "turn_event (TurnFinalizationRequested t a outcome tm) = True"
| "turn_event (TurnSettled t outcome tm) = True"
| "turn_event (SessionDeleted tm) = True"
| "turn_event e = False"

lemma turns_untouched:
  assumes "project_event dec sj record rm e = Inr rm'" "\<not> turn_event e"
  shows "rm_turns rm' = rm_turns rm"
proof (cases e)
  case (MessagePersisted m)
  with assms show ?thesis by (auto dest: message_tables)
qed (use assms in \<open>auto simp: project_defs and_then_Inr Let_def split: option.splits if_splits\<close>)

lemma turns_state: "\<not> turn_event e \<Longrightarrow> turns (evolve dec s e) = turns s"
  by (cases e) (simp_all add: branch_defs helper_defs Let_def split: option.splits)

lemma own_turns_update:
  "(\<And>r. tr_sessionId (f r) = tr_sessionId r) \<Longrightarrow>
   own_turns sid (update_where p f rows) = update_where p f (own_turns sid rows)"
  by (simp add: own_turns_def filter_update_where)

lemma own_turns_session: "r \<in> set (own_turns sid rows) \<Longrightarrow> tr_sessionId r = sid"
  by (simp add: own_turns_def)

lemma live_is_current:
  assumes "turns_inv s" "map_of (turns s) k = Some t"
  shows "tn_status t \<in> {TurnStarting, TurnRunning, TurnFinalizing} \<longleftrightarrow> currentTurnId s = Some k"
  using turns_wf_entry [OF assms]
  by (auto simp: turn_entry_def live_turn_def ended_turn_def live_statuses_def split: if_splits)

lemma active_statuses [simp]:
  "set active_session_turn_statuses = {TurnStarting, TurnRunning, TurnFinalizing}"
  by (simp add: active_session_turn_statuses_def)

lemma phase_rows:
  assumes rows: "list_all2 shows_turn (own_turns sid rows) (turns s)" and inv: "turns_inv s"
  shows "list_all2 shows_turn
    (own_turns sid (update_where (\<lambda>t. tr_id t = k \<and> tr_sessionId t = sid \<and>
        tr_status t \<in> {TurnStarting, TurnRunning, TurnFinalizing}) (\<lambda>t. t\<lparr>tr_phase := Some ph\<rparr>) rows))
    (turns (with_turn_phase s k ph))"
proof (cases "currentTurnId s = Some k")
  case True
  then obtain t where t: "map_of (turns s) k = Some t" using inv turns_wf_current by fastforce
  have "list_all2 shows_turn
    (update_where (\<lambda>t. tr_id t = k \<and> tr_sessionId t = sid \<and>
        tr_status t \<in> {TurnStarting, TurnRunning, TurnFinalizing}) (\<lambda>t. t\<lparr>tr_phase := Some ph\<rparr>)
      (own_turns sid rows))
    (AList.update k (t\<lparr>tn_phase := Some ph\<rparr>) (turns s))"
    by (rule rows_update [OF rows _ t])
      (use inv live_is_current [OF inv t] True t in \<open>auto simp: turns_wf_def dest: own_turns_session\<close>)
  with True t show ?thesis by (simp add: with_turn_phase_def own_turns_update)
next
  case False
  have "list_all2 shows_turn
    (update_where (\<lambda>t. tr_id t = k \<and> tr_sessionId t = sid \<and>
        tr_status t \<in> {TurnStarting, TurnRunning, TurnFinalizing}) (\<lambda>t. t\<lparr>tr_phase := Some ph\<rparr>)
      (own_turns sid rows)) (turns s)"
  proof (rule rows_keep [OF rows])
    fix r k' t
    assume r: "(k', t) \<in> set (turns s)" "shows_turn r (k', t)"
      "tr_id r = k \<and> tr_sessionId r = sid \<and> tr_status r \<in> {TurnStarting, TurnRunning, TurnFinalizing}"
    then have "map_of (turns s) k = Some t"
      using inv map_of_in_set [of "turns s" k t] by (auto simp: turns_wf_def)
    from live_is_current [OF inv this] r False show "shows_turn (r\<lparr>tr_phase := Some ph\<rparr>) (k', t)" by auto
  qed
  with False show ?thesis by (simp add: with_turn_phase_def own_turns_update split: option.split)
qed

lemma started_rows:
  assumes rows: "list_all2 shows_turn (own_turns sid rows) (turns s)" and inv: "turns_inv s"
    and fresh: "\<not> map_has (turns s) k"
    and free: "\<forall>r \<in> set rows. tr_sessionId r \<noteq> sid \<longrightarrow> tr_id r \<noteq> k"
    and row: "tr_id row = k" "tr_sessionId row = sid" "tr_ordinal row = turnCount s + 1"
  shows "insert_turn_row row rows = Inr (rows @ [row])"
proof -
  have "tr_id r \<noteq> k \<and> (tr_sessionId r = sid \<longrightarrow> tr_ordinal r \<noteq> turnCount s + 1)" if r: "r \<in> set rows" for r
  proof (cases "tr_sessionId r = sid")
    case True
    with r have "r \<in> set (own_turns sid rows)" by (simp add: own_turns_def)
    from rows_in [OF rows this] obtain k' t where kt: "(k', t) \<in> set (turns s)" "shows_turn r (k', t)" by blast
    moreover have "distinct (keys (turns s))" using inv by (simp add: turns_wf_def)
    ultimately have t: "map_of (turns s) k' = Some t" by (metis map_of_in_set)
    have "tn_ordinal t \<le> turnCount s" using turns_wf_entry [OF inv t] by (simp add: turn_entry_def)
    moreover from fresh have "map_of (turns s) k = None" by (simp add: map_of_eq_None_iff)
    with t have "k' \<noteq> k" by auto
    ultimately show ?thesis using kt(2) by simp
  next
    case False
    with r free show ?thesis by blast
  qed
  with row show ?thesis by (auto simp: insert_turn_row_def list_ex_iff)
qed

lemma started_attempt_shown:
  "as_ordinal e = n \<Longrightarrow>
   map_option (\<lambda>a. (att_ordinal a, att_reason a))
     (map_of (tn_attempts (start_attempt t e)) (tn_activeAttemptId (start_attempt t e))) =
   Some (n, as_reason e)"
  by (simp add: start_attempt_def Let_def)

lemma settled_attempt_shown:
  assumes "attempts_wf t" "map_of (tn_attempts t) (tn_activeAttemptId t) = Some a"
  shows "map_option (\<lambda>a. (att_ordinal a, att_reason a))
     (map_of (tn_attempts (settle_turn_state t outcome tm)) (tn_activeAttemptId (settle_turn_state t outcome tm))) =
   Some (att_ordinal a, att_reason a)"
proof -
  have "att_id a = tn_activeAttemptId t"
    using assms(1) map_of_SomeD [OF assms(2)] by (auto simp: attempts_wf_def)
  with assms(2) show ?thesis by (simp add: settle_turn_state_def)
qed

lemma turns_step:
  assumes shown: "turns_shown sid (rm_turns rm) s" and inv: "turns_inv s"
    and ok: "event_ok s e" and okr: "shown_ok s e" and p: "project_event dec sj record rm e = Inr rm'"
    and sid [simp]: "se_streamId record = sid" and own: "exists s \<Longrightarrow> sessionId s = Some sid"
    and start: "\<And>k. started_turn_id e = Some k \<Longrightarrow>
      \<not> map_has (turns s) k \<and> (\<forall>r \<in> set (rm_turns rm). tr_sessionId r \<noteq> sid \<longrightarrow> tr_id r \<noteq> k)"
  shows "turns_shown sid (rm_turns rm') (evolve dec s e)"
proof (cases "turn_event e")
  case False
  then have "deleted (evolve dec s e) = deleted s" by (intro deleted_evolve) auto
  with False shown turns_untouched [OF p] turns_state [of e dec s] show ?thesis by (simp add: turns_shown_def)
next
  case True
  have nd: "\<not> deleted s" by (rule shown_not_deleted [OF okr])
  with shown have rows: "list_all2 shows_turn (own_turns sid (rm_turns rm)) (turns s)"
    by (simp add: turns_shown_def)
  have dist: "distinct (keys (turns s))" using inv by (simp add: turns_wf_def)
  have entry: "turn_entry (turnCount s) (currentTurnId s) (settledTurnIds s) k t"
    if "map_of (turns s) k = Some t" for k t by (rule turns_wf_entry [OF inv that])
  have cur: "\<exists>t. map_of (turns s) k = Some t" if "currentTurnId s = Some k" for k
    using inv that turns_wf_current by fastforce
  from True show ?thesis
  proof (cases e)
    case (TurnStarted k tm ord att th)
    from ok TurnStarted obtain th' where e: "ord = Some (turnCount s + 1)" "att = Some (attempt_id_for k 1)"
      "th = Some th'" and ex: "exists s" by auto
    from start [of k] TurnStarted have fresh: "\<not> map_has (turns s) k"
      and free: "\<forall>r \<in> set (rm_turns rm). tr_sessionId r \<noteq> sid \<longrightarrow> tr_id r \<noteq> k" by auto
    let ?row = "\<lparr>tr_id = k, tr_sessionId = sid, tr_ordinal = turnCount s + 1, tr_status = TurnStarting,
        tr_phase = Some PhaseRunning, tr_providerThreadId = event_thread s (Some th'),
        tr_activeAttemptId = attempt_id_for k 1, tr_attemptOrdinal = 1,
        tr_attemptReason = ReasonInitial, tr_requestedAt = tm, tr_completedAt = None\<rparr>"
    have th: "(case th' of None \<Rightarrow> None | Some key \<Rightarrow> Some (scope_provider_thread_id sid key)) =
        event_thread s (Some th')"
      using own [OF ex] by (simp add: event_thread_def split: option.split)
    have "insert_turn_row ?row (rm_turns rm) = Inr (rm_turns rm @ [?row])"
      by (rule started_rows [OF rows inv fresh free]) simp_all
    with p have "rm_turns rm' = rm_turns rm @ [?row]"
      by (auto simp: TurnStarted e project_TurnStarted_def th Let_def split: option.splits)
    moreover have "list_all2 shows_turn (own_turns sid (rm_turns rm) @ [?row])
        (AList.update k (started_turn k (turnCount s + 1) tm (attempt_id_for k 1)
           (event_thread s (Some th'))) (turns s))"
      using fresh by (intro rows_append [OF rows]) (simp_all add: map_of_eq_None_iff started_turn_def)
    moreover have "\<not> deleted (evolve dec s e)" using nd by (subst deleted_evolve) (simp_all add: TurnStarted)
    ultimately show ?thesis
      by (simp add: turns_shown_def TurnStarted e TurnStarted_fields own_turns_def)
  next
    case (SessionStatusSet st tm)
    have nd': "\<not> deleted (evolve dec s e)" using nd by (subst deleted_evolve) (simp_all add: SessionStatusSet)
    let ?p = "\<lambda>t. tr_sessionId t = sid \<and> tr_status t = TurnStarting"
    let ?f = "\<lambda>t. t\<lparr>tr_status := TurnRunning\<rparr>"
    show ?thesis
    proof (cases "st = StatusRunning \<and> (\<exists>k t. currentTurnId s = Some k \<and> map_of (turns s) k = Some t \<and>
        tn_status t = TurnStarting)")
      case True
      then obtain k t where t: "currentTurnId s = Some k" "map_of (turns s) k = Some t"
        "tn_status t = TurnStarting" and st: "st = StatusRunning" by blast
      have "list_all2 shows_turn (update_where ?p ?f (own_turns sid (rm_turns rm)))
          (AList.update k (t\<lparr>tn_status := TurnRunning\<rparr>) (turns s))"
        by (rule rows_update [OF rows dist t(2)])
          (use live_is_current [OF inv] t in \<open>auto dest: own_turns_session\<close>)
      moreover have "tn_id t = k" using entry [OF t(2)] by (simp add: turn_entry_def)
      ultimately show ?thesis using p nd' t st
        by (auto simp: SessionStatusSet turns_shown_def project_SessionStatusSet_def Let_def
            own_turns_update evolve_SessionStatusSet_def current_turn_def with_turn_def)
    next
      case False
      have "list_all2 shows_turn (update_where ?p ?f (own_turns sid (rm_turns rm))) (turns s)"
        if st: "st = StatusRunning"
      proof (rule rows_keep [OF rows])
        fix r k t
        assume r: "(k, t) \<in> set (turns s)" "shows_turn r (k, t)" "?p r"
        then have "map_of (turns s) k = Some t" using dist map_of_in_set by metis
        with live_is_current [OF inv this] r False st show "shows_turn (?f r) (k, t)" by auto
      qed
      moreover have "turns (evolve dec s e) = turns s"
        using False by (auto simp: SessionStatusSet evolve_SessionStatusSet_def current_turn_def
            split: option.split)
      ultimately show ?thesis using p nd' rows
        by (auto simp: SessionStatusSet turns_shown_def project_SessionStatusSet_def Let_def
            own_turns_update split: if_splits)
    qed
  next
    case (AttemptStarted x)
    have nd': "\<not> deleted (evolve dec s e)" using nd by (subst deleted_evolve) (simp_all add: AttemptStarted)
    from ok AttemptStarted cur obtain t where t: "map_of (turns s) (as_turnId x) = Some t" by auto
    have "list_all2 shows_turn
        (update_where (\<lambda>t. tr_id t = as_turnId x \<and> tr_sessionId t = sid)
           (\<lambda>t. t\<lparr>tr_status := TurnStarting, tr_phase := Some PhaseRunning,
                 tr_activeAttemptId := as_attemptId x, tr_attemptOrdinal := as_ordinal x,
                 tr_attemptReason := as_reason x\<rparr>) (own_turns sid (rm_turns rm)))
        (AList.update (as_turnId x) (start_attempt t x) (turns s))"
      by (rule rows_update [OF rows dist t])
        (use started_attempt_shown [OF refl, of t x] in
          \<open>auto simp: start_attempt_def Let_def dest: own_turns_session\<close>)
    moreover have "tn_id (start_attempt t x) = as_turnId x"
      using entry [OF t] by (simp add: turn_entry_def start_attempt_def Let_def)
    ultimately show ?thesis using p nd' t
      by (auto simp: AttemptStarted turns_shown_def project_AttemptStarted_def update_turn_row_def
          own_turns_update evolve_AttemptStarted_def with_turn_def)
  next
    case (TurnInterruptRequested k a tm)
    have nd': "\<not> deleted (evolve dec s e)" using nd by (subst deleted_evolve) (simp_all add: TurnInterruptRequested)
    with p phase_rows [OF rows inv] show ?thesis
      by (auto simp: TurnInterruptRequested turns_shown_def project_phase_def next_version_def)
  next
    case (TurnInterruptAcknowledged k tm)
    have nd': "\<not> deleted (evolve dec s e)" using nd by (subst deleted_evolve) (simp_all add: TurnInterruptAcknowledged)
    with p phase_rows [OF rows inv] show ?thesis
      by (auto simp: TurnInterruptAcknowledged turns_shown_def project_phase_def next_version_def)
  next
    case (TurnInterruptFailed k r tm)
    have nd': "\<not> deleted (evolve dec s e)" using nd by (subst deleted_evolve) (simp_all add: TurnInterruptFailed)
    with p phase_rows [OF rows inv] show ?thesis
      by (auto simp: TurnInterruptFailed turns_shown_def project_phase_def next_version_def)
  next
    case (TurnsRolledBack x)
    have nd': "\<not> deleted (evolve dec s e)" using nd by (subst deleted_evolve) (simp_all add: TurnsRolledBack)
    have "list_all2 shows_turn
        (update_where (\<lambda>t. tr_sessionId t = sid \<and> js_less (rb_throughOrdinal x) (js_of_int (tr_ordinal t)))
           (\<lambda>t. t\<lparr>tr_status := TurnRolledBack\<rparr>) (own_turns sid (rm_turns rm)))
        (map_values (\<lambda>turn. if js_less (rb_throughOrdinal x) (js_of_int (tn_ordinal turn))
           then turn\<lparr>tn_status := TurnRolledBack\<rparr> else turn) (turns s))"
      by (rule rows_map_values [OF rows]) (auto dest: own_turns_session)
    with p nd' show ?thesis
      by (auto simp: TurnsRolledBack turns_shown_def project_TurnsRolledBack_def Let_def own_turns_update
          evolve_TurnsRolledBack_def split: option.splits)
  next
    case (TurnFinalizationRequested k a outcome tm)
    have nd': "\<not> deleted (evolve dec s e)"
      using nd by (subst deleted_evolve) (simp_all add: TurnFinalizationRequested)
    from ok TurnFinalizationRequested have c: "currentTurnId s = Some k" by simp
    with cur obtain t where t: "map_of (turns s) k = Some t" by blast
    with okr TurnFinalizationRequested have a: "tn_activeAttemptId t = a" "tn_status t \<noteq> TurnFinalizing"
      by (simp_all add: active_attempt_def)
    have "list_all2 shows_turn
        (update_where (\<lambda>t. tr_id t = k \<and> tr_sessionId t = sid \<and> tr_activeAttemptId t = a \<and>
            (tr_status t = TurnStarting \<or> tr_status t = TurnRunning))
           (\<lambda>t. t\<lparr>tr_status := TurnFinalizing\<rparr>) (own_turns sid (rm_turns rm)))
        (AList.update k (t\<lparr>tn_status := TurnFinalizing\<rparr>) (turns s))"
      by (rule rows_update [OF rows dist t])
        (use live_is_current [OF inv t] c a t in \<open>auto dest: own_turns_session\<close>)
    moreover have "tn_id t = k" using entry [OF t] by (simp add: turn_entry_def)
    ultimately show ?thesis using p nd' t
      by (auto simp: TurnFinalizationRequested turns_shown_def project_TurnFinalizationRequested_def
          own_turns_update evolve_TurnFinalizationRequested_def with_turn_def next_version_def)
  next
    case (TurnSettled k outcome tm)
    have nd': "\<not> deleted (evolve dec s e)" using nd by (subst deleted_evolve) (simp_all add: TurnSettled)
    from ok TurnSettled have c: "currentTurnId s = Some k" by simp
    with cur obtain t where t: "map_of (turns s) k = Some t" by blast
    from entry [OF t] c have wf: "attempts_wf t" "live_turn t" "tn_id t = k" by (simp_all add: turn_entry_def)
    then obtain at' where at': "map_of (tn_attempts t) (tn_activeAttemptId t) = Some at'"
      by (metis active_attempt_state)
    have "list_all2 shows_turn
        (update_where (\<lambda>t. tr_id t = k \<and> tr_sessionId t = sid)
           (\<lambda>t. t\<lparr>tr_status := outcome_turn_status outcome, tr_phase := None,
                 tr_completedAt := Some tm\<rparr>) (own_turns sid (rm_turns rm)))
        (AList.update k (settle_turn_state t outcome tm) (turns s))"
      by (rule rows_update [OF rows dist t])
        (use settled_attempt_shown [OF wf(1) at', of outcome tm] at' in
          \<open>auto simp: settle_turn_state_def dest: own_turns_session\<close>)
    with p nd' t wf show ?thesis
      by (auto simp: TurnSettled turns_shown_def project_TurnSettled_def update_turn_row_def
          own_turns_update evolve_TurnSettled_def with_provider_thread_def Let_def split: option.splits)
  next
    case (SessionDeleted tm)
    with p show ?thesis
      by (auto simp: turns_shown_def project_SessionDeleted_def and_then_Inr Let_def own_turns_def
          delete_where_def next_version_def)
  qed simp_all
qed

end
