(* ===== verification/Read_Model_Threads.thy ===== *)
theory Read_Model_Threads
  imports Read_Model_Tables
begin

text \<open>
  The table of provider threads. The ids of a session's threads are scoped by the id of the
  session, so a row of another session is never in conflict with one of them.
\<close>

section \<open>The row of the session\<close>

lemma find_append: "find P (xs @ ys) = (case find P xs of None \<Rightarrow> find P ys | Some x \<Rightarrow> Some x)"
  by (induction xs) simp_all

lemma session_row_found:
  assumes "session_shown sid rm s" "exists s" "\<not> deleted s"
  obtains row where "own_session rm sid = [row]" "find_session rm sid = Some row" "shows_session row s"
  using assms by (auto simp: session_shown_def find_session_def own_session_def find_filter)

lemma active_thread_shown:
  assumes "session_shown sid rm s" "exists s" "\<not> deleted s"
  shows "active_thread_of rm sid = activeProviderThreadId s"
  using assms by (elim session_row_found) (simp_all add: active_thread_of_def shows_session_def)

text \<open>The rows a creation writes before it binds a thread.\<close>

definition with_created_rows :: "session_created \<Rightarrow> read_model \<Rightarrow> read_model" where
  "with_created_rows c rm = rm\<lparr>
     rm_sessions := insert_or_ignore (\<lambda>r. sr_id r = sc_sessionId c) (created_session_row c) (rm_sessions rm),
     rm_chats := update_where (\<lambda>x. kr_id x = sc_chatId c)
       (\<lambda>x. x\<lparr>kr_activeSessionId := Some (sc_sessionId c), kr_updatedAt := sc_createdAt c\<rparr>) (rm_chats rm),
     rm_delegations := insert_delegation c (rm_delegations rm)\<rparr>"

lemma project_SessionCreated_rows:
  "missing_created_field c = None \<Longrightarrow>
   project_SessionCreated eid c rm =
     at_date (sc_createdAt c)
       (Inr (case or_null (sc_cursor c) of
               None \<Rightarrow> with_created_rows c rm
             | Some cursor \<Rightarrow>
                 bind_legacy_resume_row (sc_sessionId c) cursor (Some None) (sc_createdAt c)
                   (with_created_rows c rm)))"
  by (simp add: project_SessionCreated_def with_created_rows_def Let_def split: option.split)

section \<open>Statements\<close>

lemma own_threads_update:
  "(\<And>r. hr_sessionId (f r) = hr_sessionId r) \<Longrightarrow>
   own_threads sid (update_where p f rows) = update_where p f (own_threads sid rows)"
  by (simp add: own_threads_def filter_update_where)

lemma in_own_threads: "r \<in> set (own_threads sid rows) \<longleftrightarrow> r \<in> set rows \<and> hr_sessionId r = sid"
  by (auto simp: own_threads_def)

lemma threads_upsert:
  assumes rows: "list_all2 shows_thread (own_threads sid rows) m" and dist: "distinct (keys m)"
    and free: "\<And>r. \<lbrakk>r \<in> set rows; hr_sessionId r \<noteq> sid\<rbrakk> \<Longrightarrow> hr_id r \<noteq> key"
    and row: "hr_sessionId row = sid" "shows_thread row (key, h)"
    and f: "\<And>r. hr_sessionId (f r) = hr_sessionId r" "\<And>r. hr_id r = key \<Longrightarrow> shows_thread (f r) (key, h)"
  shows "list_all2 shows_thread
    (own_threads sid (upsert (\<lambda>r. hr_id r = key) (\<lambda>r. hr_sessionId r = sid) f row rows))
    (AList.update key h m)"
proof (cases "map_of m key")
  case None
  then have fresh: "key \<notin> set (keys m)" by (simp add: map_of_eq_None_iff)
  have "hr_id r \<noteq> key" if r: "r \<in> set rows" for r
  proof (cases "hr_sessionId r = sid")
    case True
    with r have "r \<in> set (own_threads sid rows)" by (simp add: in_own_threads)
    from rows_in [OF rows this] fresh show ?thesis by force
  next
    case False
    with r free show ?thesis by blast
  qed
  then have "\<not> list_ex (\<lambda>r. hr_id r = key) rows" by (auto simp: list_ex_iff)
  moreover have "list_all2 shows_thread (own_threads sid rows @ [row]) (AList.update key h m)"
    by (rule rows_append [OF rows fresh row(2)])
  ultimately show ?thesis using row(1) by (simp add: upsert_def own_threads_def)
next
  case (Some v)
  from rows_of [OF rows map_of_SomeD [OF Some]] obtain r
    where "r \<in> set rows" "hr_id r = key" by (auto simp: in_own_threads)
  then have "list_ex (\<lambda>r. hr_id r = key) rows" by (auto simp: list_ex_iff)
  moreover have "list_all2 shows_thread
      (update_where (\<lambda>r. hr_id r = key \<and> hr_sessionId r = sid) f (own_threads sid rows)) (AList.update key h m)"
    by (rule rows_update [OF rows dist Some], force simp: in_own_threads, rule f(2), simp)
  ultimately show ?thesis by (simp add: upsert_def own_threads_update f(1))
qed

lemma threads_retire:
  assumes rows: "list_all2 shows_thread (own_threads sid rows) (providerThreads s)"
    and inv: "threads_inv s"
  shows "list_all2 shows_thread
    (own_threads sid (update_where (\<lambda>r. Some (hr_id r) = activeProviderThreadId s)
       (\<lambda>r. r\<lparr>hr_status := ThreadClosed, hr_updatedAt := tm\<rparr>) rows))
    (providerThreads (retire_active_provider_thread s tm))"
proof (cases "activeProviderThreadId s")
  case None
  with rows show ?thesis by (simp add: own_threads_update retire_active_provider_thread_def update_where_other)
next
  case (Some key)
  with inv obtain h where h: "map_of (providerThreads s) key = Some h" by (auto simp: threads_wf_def)
  with inv have key: "pt_id h = key" by (auto simp: threads_wf_def dest!: map_of_SomeD)
  have "list_all2 shows_thread
      (update_where (\<lambda>r. Some (hr_id r) = Some key) (\<lambda>r. r\<lparr>hr_status := ThreadClosed, hr_updatedAt := tm\<rparr>)
         (own_threads sid rows))
      (AList.update key (h\<lparr>pt_status := ThreadClosed, pt_updatedAt := tm\<rparr>) (providerThreads s))"
    by (rule rows_update [OF rows _ h]) (use inv in \<open>auto simp: threads_wf_def\<close>)
  with Some h key show ?thesis by (simp add: own_threads_update retire_active_provider_thread_def)
qed

section \<open>Every event keeps the relation\<close>

fun thread_event :: "session_event \<Rightarrow> bool" where
  "thread_event (SessionCreated c) = True"
| "thread_event (SessionProviderSet p m tm) = True"
| "thread_event (SessionWorktreeSet w tm) = True"
| "thread_event (SessionResumeSet cursor strategy head tm) = True"
| "thread_event (ProviderThreadUpdated h) = True"
| "thread_event (TurnStarted t tm ordinal attempt thread) = True"
| "thread_event (TurnsRolledBack x) = True"
| "thread_event (TurnSettled t outcome tm) = True"
| "thread_event (SessionDeleted tm) = True"
| "thread_event e = False"

lemma threads_untouched:
  assumes "project_event dec sj record rm e = Inr rm'" "\<not> thread_event e"
  shows "rm_threads rm' = rm_threads rm"
proof (cases e)
  case (MessagePersisted m)
  with assms show ?thesis by (auto dest: message_tables)
qed (use assms in \<open>auto simp: project_defs and_then_Inr Let_def split: option.splits if_splits\<close>)

lemma threads_state: "\<not> thread_event e \<Longrightarrow> providerThreads (evolve dec s e) = providerThreads s"
  by (cases e) (simp_all add: branch_defs helper_defs Let_def split: option.splits)

lemma threads_TurnStarted:
  assumes rows: "list_all2 shows_thread (own_threads sid rows) (providerThreads s)"
    and dist: "distinct (keys (providerThreads s))" and wf: "threads_inv s"
  shows "list_all2 shows_thread
    (own_threads sid (update_where (\<lambda>h. hr_id h = key \<and> hr_sessionId h = sid)
       (\<lambda>h. h\<lparr>hr_status := ThreadActive, hr_firstTurnOrdinal := Some (or_else (hr_firstTurnOrdinal h) n),
              hr_lastTurnOrdinal := Some n, hr_updatedAt := tm\<rparr>) rows))
    (case map_of (providerThreads s) key of
       None \<Rightarrow> providerThreads s
     | Some h \<Rightarrow>
         AList.update (pt_id h)
           (h\<lparr>pt_status := ThreadActive, pt_firstTurnOrdinal := Some (or_else (pt_firstTurnOrdinal h) n),
              pt_lastTurnOrdinal := Some n, pt_updatedAt := tm\<rparr>) (providerThreads s))"
    (is "list_all2 _ (own_threads sid (update_where ?p ?f rows)) _")
proof (cases "map_of (providerThreads s) key")
  case None
  have "list_all2 shows_thread (update_where ?p ?f (own_threads sid rows)) (providerThreads s)"
    using None by (intro rows_keep [OF rows]) (auto simp: map_of_eq_None_iff rev_image_eqI)
  with None show ?thesis by (simp add: own_threads_update)
next
  case (Some h)
  have "list_all2 shows_thread (update_where ?p ?f (own_threads sid rows))
      (AList.update key (h\<lparr>pt_status := ThreadActive,
         pt_firstTurnOrdinal := Some (or_else (pt_firstTurnOrdinal h) n),
         pt_lastTurnOrdinal := Some n, pt_updatedAt := tm\<rparr>) (providerThreads s))"
    by (rule rows_update [OF rows dist Some]) (auto simp: in_own_threads)
  with Some threads_wf_key(1) [OF wf Some] show ?thesis by (simp add: own_threads_update)
qed

lemma threads_TurnSettled:
  assumes rows: "list_all2 shows_thread (own_threads sid rows) (providerThreads s)" and wf: "threads_inv s"
  shows "list_all2 shows_thread
    (own_threads sid (update_where
       (\<lambda>h. Some (hr_id h) = activeProviderThreadId s \<and> hr_status h = ThreadActive)
       (\<lambda>h. h\<lparr>hr_status := ThreadIdle, hr_updatedAt := tm\<rparr>) rows))
    (providerThreads (evolve_TurnSettled s k outcome tm))"
    (is "list_all2 _ (own_threads sid (update_where ?p ?f rows)) _")
proof (cases "Option.bind (activeProviderThreadId s) (map_of (providerThreads s))")
  case None
  then have "activeProviderThreadId s = None"
    using wf by (cases "activeProviderThreadId s") (auto simp: threads_wf_def)
  with rows None show ?thesis
    by (simp add: evolve_TurnSettled_def own_threads_update update_where_other)
next
  case (Some h)
  then obtain key where key: "activeProviderThreadId s = Some key" "map_of (providerThreads s) key = Some h"
    by (auto simp: bind_eq_Some_conv)
  have dist: "distinct (keys (providerThreads s))" using wf by (simp add: threads_wf_def)
  show ?thesis
  proof (cases "pt_status h = ThreadActive")
    case True
    have "list_all2 shows_thread (update_where ?p ?f (own_threads sid rows))
        (AList.update key (h\<lparr>pt_status := ThreadIdle, pt_updatedAt := tm\<rparr>) (providerThreads s))"
    proof (rule rows_update [OF rows dist key(2)])
      fix r k' w
      assume "map_of (providerThreads s) k' = Some w" "shows_thread r (k', w)"
      with key True show "?p r \<longleftrightarrow> k' = key" by (cases "k' = key") simp_all
    qed simp
    with True key threads_wf_key(1) [OF wf key(2)] show ?thesis
      by (simp add: evolve_TurnSettled_def own_threads_update with_provider_thread_def)
  next
    case False
    have "list_all2 shows_thread (update_where ?p ?f (own_threads sid rows)) (providerThreads s)"
    proof (rule rows_keep [OF rows])
      fix r k' v
      assume r: "(k', v) \<in> set (providerThreads s)" "shows_thread r (k', v)" "?p r"
      from r(1) have "map_of (providerThreads s) k' = Some v" by (simp only: map_of_in_set [OF dist])
      moreover have "k' = key" using r key(1) by simp
      ultimately have "v = h" using key(2) by simp
      with r False show "shows_thread (?f r) (k', v)" by auto
    qed
    with False key show ?thesis by (simp add: evolve_TurnSettled_def own_threads_update)
  qed
qed

lemma threads_step:
  assumes session: "session_shown sid rm s" and shown: "threads_shown sid (rm_threads rm) s"
    and wf: "threads_inv s" and turns: "own_turns sid (rm_turns rm) = [] \<or> exists s"
    and start: "\<not> exists s \<Longrightarrow> s = initial_session_state"
    and ok: "event_ok s e" and okr: "shown_ok s e" and p: "project_event dec sj record rm e = Inr rm'"
    and sid [simp]: "se_streamId record = sid" and own: "sessionId (evolve dec s e) = Some sid"
    and own_before: "exists s \<Longrightarrow> sessionId s = Some sid"
    and free: "\<And>r. \<lbrakk>r \<in> set (rm_threads rm); hr_sessionId r \<noteq> sid\<rbrakk> \<Longrightarrow>
      scope_provider_thread_id sid (hr_id r) \<noteq> hr_id r"
  shows "threads_shown sid (rm_threads rm') (evolve dec s e)"
proof (cases "thread_event e")
  case False
  then have "deleted (evolve dec s e) = deleted s" by (intro deleted_evolve) auto
  with False shown threads_untouched [OF p] threads_state [of e dec s] show ?thesis
    by (simp add: threads_shown_def)
next
  case True
  have nd: "\<not> deleted s" by (rule shown_not_deleted [OF okr])
  with shown have rows: "list_all2 shows_thread (own_threads sid (rm_threads rm)) (providerThreads s)"
    by (simp add: threads_shown_def)
  have dist: "distinct (keys (providerThreads s))" using wf by (simp add: threads_wf_def)
  have upserted: "list_all2 shows_thread
      (own_threads sid (rm_threads (upsert_provider_thread sid h rm0)))
      (AList.update (scope_provider_thread_id sid (pt_id h)) h' (providerThreads s))"
    if "rm_threads rm0 = rm_threads rm" "pt_nativeThreadId h' = pt_nativeThreadId h"
      "pt_nativeHeadId h' = pt_nativeHeadId h" "pt_status h' = pt_status h"
      "pt_lastTurnOrdinal h' = pt_lastTurnOrdinal h" for h h' rm0
    unfolding upsert_provider_thread_def Let_def
    using that by (simp, intro threads_upsert [OF rows dist]) (use free scope_idem in \<open>force+\<close>)
  from True show ?thesis
  proof (cases e)
    case (SessionCreated c)
    with ok start have s: "s = initial_session_state" by simp
    from own SessionCreated have c: "sc_sessionId c = sid"
      by (simp add: evolve_SessionCreated_def bind_legacy_resume_def with_provider_thread_def Let_def
          split: option.splits)
    have "find_session rm sid = None" using session s
      by (auto simp: session_shown_def own_session_def find_session_def find_filter initial_session_state_def)
    then have none: "\<not> list_ex (\<lambda>r. sr_id r = sid) (rm_sessions rm)"
      by (simp add: find_session_def find_None_iff list_ex_iff)
    have nt: "own_turns sid (rm_turns rm) = []" using turns s by (simp add: initial_session_state_def)
    from okr SessionCreated obtain pr where pr: "sc_providerId c = Some pr"
      by (auto simp: missing_created_field_def split: if_splits)
    have nd': "\<not> deleted (evolve dec s e)" using nd by (subst deleted_evolve) (simp_all add: SessionCreated)
    have pt: "providerThreads s = []" "currentTurnId s = None" by (simp_all add: s initial_session_state_def)
    let ?created = "with_created_rows c rm"
    have rm': "rm' = (case or_null (sc_cursor c) of None \<Rightarrow> ?created
        | Some cursor \<Rightarrow> bind_legacy_resume_row sid cursor (Some None) (sc_createdAt c) ?created)"
      using p okr by (auto simp: SessionCreated project_SessionCreated_rows c split: option.splits)
    have row: "find_session ?created sid = Some (created_session_row c)" and th: "rm_threads ?created = rm_threads rm"
      "rm_turns ?created = rm_turns rm"
      using none c \<open>find_session rm sid = None\<close>
      by (simp_all add: with_created_rows_def find_session_def insert_or_ignore_def find_append created_session_row_def)
    have ordinal: "active_turn_ordinal ?created sid = None"
      using nt th(2) unfolding active_turn_ordinal_def own_turns_def
      by (auto simp: sql_max_def filter_empty_conv)
    show ?thesis
    proof (cases "or_null (sc_cursor c)")
      case None
      with rows th(1) nd' show ?thesis
        by (simp add: threads_shown_def rm' SessionCreated evolve_SessionCreated_def Let_def)
    next
      case (Some cursor)
      let ?key = "provider_thread_id_for sid pr cursor"
      have "provider_thread_id_for sid (sr_providerId (created_session_row c)) cursor = ?key"
        by (simp add: created_session_row_def pr)
      moreover have "scope_provider_thread_id sid ?key = ?key" by (simp add: provider_thread_id_for_def)
      moreover have "list_all2 shows_thread
          (own_threads sid (rm_threads (upsert_provider_thread sid
             \<lparr>pt_id = ?key, pt_provider = sr_providerId (created_session_row c),
              pt_nativeThreadId = cursor, pt_nativeHeadId = None, pt_status = ThreadIdle,
              pt_firstTurnOrdinal = None, pt_lastTurnOrdinal = None, pt_createdAt = sc_createdAt c,
              pt_updatedAt = sc_createdAt c\<rparr> (with_created_rows c rm))))
          (AList.update (scope_provider_thread_id sid ?key)
             \<lparr>pt_id = ?key, pt_provider = pr, pt_nativeThreadId = cursor, pt_nativeHeadId = None,
              pt_status = ThreadIdle, pt_firstTurnOrdinal = None, pt_lastTurnOrdinal = None,
              pt_createdAt = sc_createdAt c, pt_updatedAt = sc_createdAt c\<rparr> (providerThreads s))"
        using upserted [OF th(1), of _ "\<lparr>pt_id = ?key, pt_provider = sr_providerId (created_session_row c),
              pt_nativeThreadId = cursor, pt_nativeHeadId = None, pt_status = ThreadIdle,
              pt_firstTurnOrdinal = None, pt_lastTurnOrdinal = None, pt_createdAt = sc_createdAt c,
              pt_updatedAt = sc_createdAt c\<rparr>"] by simp
      ultimately show ?thesis
        using Some nd' by (simp add: threads_shown_def rm' row bind_legacy_resume_row_def ordinal
            SessionCreated evolve_SessionCreated_def bind_legacy_resume_def with_provider_thread_def
            c pr pt current_turn_def Let_def)
    qed
  next
    case (SessionProviderSet pr m tm)
    with ok have ex: "exists s" by simp
    have nd': "\<not> deleted (evolve dec s e)" using nd by (subst deleted_evolve) (simp_all add: SessionProviderSet)
    with p threads_retire [OF rows wf] active_thread_shown [OF session ex nd] show ?thesis
      by (auto simp: threads_shown_def SessionProviderSet project_SessionProviderSet_def
          retire_active_thread_row_def evolve_SessionProviderSet_def)
  next
    case (SessionWorktreeSet w tm)
    with ok have ex: "exists s" by simp
    from session_row_found [OF session ex nd] obtain row where
      row: "find_session rm sid = Some row" "sr_worktreeId row = worktreeId s"
      by (auto simp: shows_session_def)
    have nd': "\<not> deleted (evolve dec s e)" using nd by (subst deleted_evolve) (simp_all add: SessionWorktreeSet)
    with p row rows threads_retire [OF rows wf] active_thread_shown [OF session ex nd] show ?thesis
      by (auto simp: threads_shown_def SessionWorktreeSet project_SessionWorktreeSet_def Let_def
          retire_active_thread_row_def evolve_SessionWorktreeSet_def)
  next
    case (SessionResumeSet c st h tm)
    with okr show ?thesis by simp
  next
    case (ProviderThreadUpdated h)
    with ok own_before have sidS: "sessionId s = Some sid" by simp
    have nd': "\<not> deleted (evolve dec s e)" using nd by (subst deleted_evolve) (simp_all add: ProviderThreadUpdated)
    with p sidS upserted [OF refl, of "h\<lparr>pt_id := scope_provider_thread_id sid (pt_id h),
         pt_createdAt := or_else (map_option pt_createdAt
           (map_of (providerThreads s) (scope_provider_thread_id sid (pt_id h)))) (pt_createdAt h)\<rparr>" h]
    show ?thesis
      by (auto simp: threads_shown_def ProviderThreadUpdated evolve_ProviderThreadUpdated_def Let_def
          with_provider_thread_def next_version_def)
  next
    case (TurnStarted k tm ord att th)
    from ok TurnStarted obtain th' where ev: "ord = Some (turnCount s + 1)" "att = Some (attempt_id_for k 1)"
      "th = Some th'" and ex: "exists s" by auto
    have nd': "\<not> deleted (evolve dec s e)" using nd by (subst deleted_evolve) (simp_all add: TurnStarted)
    have th: "(case th' of None \<Rightarrow> None | Some key \<Rightarrow> Some (scope_provider_thread_id sid key)) =
        event_thread s (Some th')"
      using own_before [OF ex] by (simp add: event_thread_def split: option.split)
    show ?thesis
    proof (cases "event_thread s (Some th')")
      case None
      with p rows nd' show ?thesis
        by (auto simp: threads_shown_def TurnStarted ev project_TurnStarted_def th Let_def and_then_Inr
            evolve_TurnStarted_def with_turn_def)
    next
      case (Some key)
      note upd = threads_TurnStarted [OF rows dist wf, of key tm "turnCount s + 1"]
      have "rm_threads rm' = update_where (\<lambda>h. hr_id h = key \<and> hr_sessionId h = sid)
          (\<lambda>h. h\<lparr>hr_status := ThreadActive, hr_firstTurnOrdinal := Some (or_else (hr_firstTurnOrdinal h) (turnCount s + 1)),
              hr_lastTurnOrdinal := Some (turnCount s + 1), hr_updatedAt := tm\<rparr>) (rm_threads rm)"
        using p Some by (auto simp: TurnStarted ev project_TurnStarted_def th Let_def and_then_Inr)
      moreover have "providerThreads (evolve dec s e) =
          (case map_of (providerThreads s) key of None \<Rightarrow> providerThreads s
           | Some h \<Rightarrow> AList.update (pt_id h)
               (h\<lparr>pt_status := ThreadActive, pt_firstTurnOrdinal := Some (or_else (pt_firstTurnOrdinal h) (turnCount s + 1)),
                  pt_lastTurnOrdinal := Some (turnCount s + 1), pt_updatedAt := tm\<rparr>) (providerThreads s))"
        using Some by (simp add: TurnStarted ev evolve_TurnStarted_def with_turn_def with_provider_thread_def Let_def
            split: option.split)
      ultimately show ?thesis using upd nd' by (simp add: threads_shown_def)
    qed
  next
    case (TurnsRolledBack x)
    have nd': "\<not> deleted (evolve dec s e)" using nd by (subst deleted_evolve) (simp_all add: TurnsRolledBack)
    have "list_all2 shows_thread
        (update_where (\<lambda>h. hr_sessionId h = sid)
           (\<lambda>h. h\<lparr>hr_status := ThreadClosed, hr_updatedAt := rb_rolledBackAt x\<rparr>) (own_threads sid (rm_threads rm)))
        (map_values (\<lambda>thread. thread\<lparr>pt_status := ThreadClosed, pt_updatedAt := rb_rolledBackAt x\<rparr>)
           (providerThreads s))"
      by (rule rows_map_values [OF rows]) (auto simp: in_own_threads)
    with p nd' show ?thesis
      by (auto simp: TurnsRolledBack threads_shown_def project_TurnsRolledBack_def Let_def own_threads_update
          evolve_TurnsRolledBack_def split: option.splits)
  next
    case (TurnSettled k outcome tm)
    with ok have ex: "exists s" by simp
    have nd': "\<not> deleted (evolve dec s e)" using nd by (subst deleted_evolve) (simp_all add: TurnSettled)
    have "active_thread_of (update_turn_row sid k f rm) sid = activeProviderThreadId s" for f
      using active_thread_shown [OF session ex nd] by (simp add: active_thread_of_def find_session_def)
    with p nd' threads_TurnSettled [OF rows wf] show ?thesis
      by (auto simp: TurnSettled threads_shown_def project_TurnSettled_def Let_def)
  next
    case (SessionDeleted tm)
    with p show ?thesis
      by (auto simp: threads_shown_def project_SessionDeleted_def and_then_Inr Let_def own_threads_def
          delete_where_def next_version_def)
  qed simp_all
qed

end
