(* ===== verification/Read_Model_Session.thy ===== *)
theory Read_Model_Session
  imports Read_Model_Threads
begin

text \<open>The row of a session in the table of sessions.\<close>

lemma own_row_update [simp]:
  "(\<And>r. sr_id (f r) = sr_id r) \<Longrightarrow>
   filter (\<lambda>r. sr_id r = sid) (update_where (\<lambda>r. sr_id r = sid) f rows) =
     map f (filter (\<lambda>r. sr_id r = sid) rows)"
  by (induction rows) auto

fun quiet_event :: "session_event \<Rightarrow> bool" where
  "quiet_event (SessionCreated c) = False"
| "quiet_event (SessionTitleSet t p tm) = False"
| "quiet_event (SessionModelSet m tm) = False"
| "quiet_event (SessionProviderSet p m tm) = False"
| "quiet_event (SessionRuntimeModeSet m tm) = False"
| "quiet_event (SessionPermissionModeSet m tm) = False"
| "quiet_event (SessionWorktreeSet w tm) = False"
| "quiet_event (SessionQueuePausedSet q tm) = False"
| "quiet_event (SessionResumeSet cursor strategy head tm) = False"
| "quiet_event (ActiveProviderThreadSet h tm) = False"
| "quiet_event (SessionArchived tm) = False"
| "quiet_event (SessionUnarchived tm) = False"
| "quiet_event (SessionDeleted tm) = False"
| "quiet_event (TurnsRolledBack x) = False"
| "quiet_event (ProviderSessionReserved p psid tm) = False"
| "quiet_event (ProviderAttached p psid tm) = False"
| "quiet_event (ProviderStopRequested p psid tm) = False"
| "quiet_event (ProviderDetached p psid tm) = False"
| "quiet_event e = True"

lemma quiet_state:
  assumes "quiet_event e" "shows_session r s"
  shows "shows_session r (evolve dec s e)"
  using assms
  by (cases e) (simp_all add: branch_defs helper_defs shows_session_def Let_def split: option.split)

lemma own_session_update [simp]:
  "(\<And>r. sr_id (f r) = sr_id r) \<Longrightarrow> own_session (update_session sid f rm) sid = map f (own_session rm sid)"
  by (simp add: own_session_def update_session_def)

lemma own_session_active [simp]:
  "own_session (set_active_provider_thread sid h tm rm) sid =
     map (\<lambda>r. r\<lparr>sr_activeProviderThreadId := map_option (scope_provider_thread_id sid) h,
              sr_updatedAt := tm\<rparr>) (own_session rm sid)"
  by (simp add: set_active_provider_thread_def)

lemma own_session_frame: "rm_sessions a = rm_sessions b \<Longrightarrow> own_session a sid = own_session b sid"
  by (simp add: own_session_def)

lemma own_session_retire [simp]:
  "own_session (retire_active_thread_row sid tm rm) sid =
     map (\<lambda>r. r\<lparr>sr_activeProviderThreadId := None, sr_updatedAt := tm\<rparr>) (own_session rm sid)"
  by (simp add: retire_active_thread_row_def own_session_frame [of "rm\<lparr>rm_threads := x\<rparr>" rm for x])

text \<open>The displayed fields that the state's helpers do not change.\<close>

lemma retire_fields [simp]:
  "title (retire_active_provider_thread s tm) = title s"
  "titleProvenance (retire_active_provider_thread s tm) = titleProvenance s"
  "providerId (retire_active_provider_thread s tm) = providerId s"
  "model (retire_active_provider_thread s tm) = model s"
  "archived (retire_active_provider_thread s tm) = archived s"
  "activeProviderThreadId (retire_active_provider_thread s tm) = None"
  "runtimeMode (retire_active_provider_thread s tm) = runtimeMode s"
  "worktreeId (retire_active_provider_thread s tm) = worktreeId s"
  "chatId (retire_active_provider_thread s tm) = chatId s"
  "projectId (retire_active_provider_thread s tm) = projectId s"
  "permissionMode (retire_active_provider_thread s tm) = permissionMode s"
  "queuePaused (retire_active_provider_thread s tm) = queuePaused s"
  by (simp_all add: retire_active_provider_thread_def split: option.split)

text \<open>The row is the same up to columns the relation does not show.\<close>

definition touched :: "string \<Rightarrow> read_model \<Rightarrow> read_model \<Rightarrow> bool" where
  "touched sid rm rm' \<longleftrightarrow>
     (\<exists>f. (\<forall>r. sr_id (f r) = sr_id r \<and> (\<forall>s. shows_session r s \<longrightarrow> shows_session (f r) s)) \<and>
        rm_sessions rm' = update_where (\<lambda>r. sr_id r = sid) f (rm_sessions rm))"

lemma touched_same: "rm_sessions rm' = rm_sessions rm \<Longrightarrow> touched sid rm rm'"
  unfolding touched_def by (rule exI [of _ "\<lambda>r. r"]) (simp add: update_where_def)

lemma touched_time:
  "rm_sessions rm' = update_where (\<lambda>r. sr_id r = sid) (\<lambda>r. r\<lparr>sr_updatedAt := tm\<rparr>) (rm_sessions rm) \<Longrightarrow>
   touched sid rm rm'"
  unfolding touched_def by (rule exI [of _ "\<lambda>r. r\<lparr>sr_updatedAt := tm\<rparr>"]) (simp add: shows_session_def)

lemma touched_status:
  "rm_sessions rm' =
     update_where (\<lambda>r. sr_id r = sid) (\<lambda>r. r\<lparr>sr_status := st, sr_updatedAt := tm\<rparr>) (rm_sessions rm) \<Longrightarrow>
   touched sid rm rm'"
  unfolding touched_def
  by (rule exI [of _ "\<lambda>r. r\<lparr>sr_status := st, sr_updatedAt := tm\<rparr>"]) (simp add: shows_session_def)

lemma touched_updates:
  "rm_sessions rm2 = rm_sessions rm \<Longrightarrow> touched sid rm (touch_session sid tm rm2)"
  "rm_sessions rm2 = rm_sessions rm \<Longrightarrow>
   touched sid rm (update_session sid (\<lambda>r. r\<lparr>sr_status := st, sr_updatedAt := tm\<rparr>) rm2)"
  by (rule touched_time, simp add: touch_session_def update_session_def)
    (rule touched_status, simp add: update_session_def)

lemma touched_frame: "\<lbrakk>touched sid rm a; rm_sessions b = rm_sessions a\<rbrakk> \<Longrightarrow> touched sid rm b"
  by (simp add: touched_def)

lemma quiet_rows:
  assumes "project_event dec sj record rm e = Inr rm'" "quiet_event e"
  shows "touched (se_streamId record) rm rm'"
proof (cases e)
  case (MessagePersisted m)
  with assms(1) have "project_MessagePersisted dec sj record m rm = Inr rm'" by simp
  from message_tables(6) [OF this] show ?thesis by (blast intro: touched_time)
next
  case (SessionStatusSet st tm)
  with assms(1) show ?thesis
    by (auto simp: project_SessionStatusSet_def Let_def
        intro!: touched_frame [OF touched_updates(2) [OF refl, of _ _ tm st]])
qed (use assms in \<open>auto simp: project_defs and_then_Inr Let_def
      split: option.splits if_splits intro!: touched_updates intro: touched_same\<close>)

lemma touched_shown:
  assumes "touched sid rm rm'" "own_session rm sid = [r]" "shows_session r s"
  shows "\<exists>r'. own_session rm' sid = [r'] \<and> shows_session r' s"
proof -
  from assms(1) obtain f where f: "\<And>r. sr_id (f r) = sr_id r"
    "\<And>r s. shows_session r s \<Longrightarrow> shows_session (f r) s"
    "rm_sessions rm' = update_where (\<lambda>r. sr_id r = sid) f (rm_sessions rm)"
    by (auto simp: touched_def)
  with assms(2,3) show ?thesis by (simp add: own_session_def)
qed


lemma session_step:
  assumes shown: "session_shown sid rm s"
    and start: "\<not> exists s \<Longrightarrow> s = initial_session_state"
    and ok: "event_ok s e" and okr: "shown_ok s e" and p: "project_event dec sj record rm e = Inr rm'"
    and sid [simp]: "se_streamId record = sid" and own: "sessionId (evolve dec s e) = Some sid"
    and own_before: "exists s \<Longrightarrow> sessionId s = Some sid"
  shows "session_shown sid rm' (evolve dec s e)"
proof (cases "exists s")
  case False
  with ok obtain c where c: "e = SessionCreated c" by (cases e) auto
  from start [OF False] have s: "s = initial_session_state" .
  have "own_session rm sid = []" using shown False by (simp add: session_shown_def)
  then have none: "\<not> list_ex (\<lambda>r. sr_id r = sid) (rm_sessions rm)"
    by (simp add: own_session_def filter_empty_conv list_ex_iff)
  from own c have cs: "sc_sessionId c = sid"
    by (simp add: evolve_SessionCreated_def bind_legacy_resume_def with_provider_thread_def Let_def
        split: option.splits)
  from okr c have complete: "missing_created_field c = None" by simp
  have "sr_id (created_session_row c) = sid" by (simp add: created_session_row_def cs)
  with none \<open>own_session rm sid = []\<close>
  have row: "own_session (with_created_rows c rm) sid = [created_session_row c]"
    by (simp add: with_created_rows_def own_session_def insert_or_ignore_def cs)
  then have found: "find_session (with_created_rows c rm) sid = Some (created_session_row c)"
    by (simp add: find_session_def own_session_def find_filter)
  from complete obtain pr where pr: "sc_providerId c = Some pr"
    by (auto simp: missing_created_field_def split: if_splits)
  have nd: "\<not> deleted (evolve dec s e)" by (subst deleted_evolve) (simp_all add: c s)
  have shown': "shows_session (created_session_row c) (evolve dec s e)" if "or_null (sc_cursor c) = None"
    using complete that by (auto simp: c evolve_SessionCreated_def Let_def shows_session_def s
        created_session_row_def missing_created_field_def initial_session_state_def split: if_splits)
  have ex: "exists (evolve dec s e)"
    by (simp add: c evolve_SessionCreated_def bind_legacy_resume_def with_provider_thread_def Let_def
        split: option.split)
  show ?thesis
  proof (cases "or_null (sc_cursor c)")
    case None
    with p complete have "rm' = with_created_rows c rm" by (simp add: c project_SessionCreated_rows)
    with row shown' [OF None] nd ex show ?thesis by (simp add: session_shown_def)
  next
    case (Some cursor)
    let ?key = "provider_thread_id_for sid pr cursor"
    have "shows_session ((created_session_row c)\<lparr>sr_activeProviderThreadId := Some ?key,
        sr_updatedAt := sc_createdAt c\<rparr>) (evolve dec s e)"
      using complete Some by (auto simp: c evolve_SessionCreated_def Let_def shows_session_def s pr cs
        created_session_row_def missing_created_field_def initial_session_state_def
        bind_legacy_resume_def with_provider_thread_def split: if_splits)
    moreover have "sr_providerId (created_session_row c) = pr" by (simp add: created_session_row_def pr)
    moreover have "scope_provider_thread_id sid ?key = ?key" by (simp add: provider_thread_id_for_def)
    ultimately show ?thesis using p complete Some row found nd ex
      by (auto simp: c project_SessionCreated_rows cs session_shown_def bind_legacy_resume_row_def Let_def
          set_active_provider_thread_def update_session_def own_session_def)
  qed
next
  case ex: True
  have nd: "\<not> deleted s" by (rule shown_not_deleted [OF okr])
  from session_row_found [OF shown ex nd] obtain row where
    row: "own_session rm sid = [row]" "find_session rm sid = Some row" "shows_session row s" .
  have exe: "exists (evolve dec s e)" using ex
    by (cases e) (simp_all add: branch_defs helper_defs Let_def split: option.split)
  show ?thesis
  proof (cases "quiet_event e")
    case True
    then have "deleted (evolve dec s e) = deleted s" by (intro deleted_evolve) auto
    with touched_shown [OF quiet_rows [OF p True, unfolded sid] row(1) quiet_state [OF True row(3)]] nd exe
    show ?thesis by (simp add: session_shown_def)
  next
    case False
    note row' = row(1) [unfolded own_session_def]
    show ?thesis
    proof (cases "\<exists>tm. e = SessionDeleted tm")
      case True
      then obtain tm where e: "e = SessionDeleted tm" by blast
      with p have "project_SessionDeleted sj sid tm rm = Inr rm'" by simp
      from deleted_rows [OF this] have "own_session rm' sid = []" using delete_session_own(1) by metis
      then show ?thesis by (simp add: session_shown_def e next_version_def)
    next
      case nodel: False
      then have nd': "\<not> deleted (evolve dec s e)" using nd by (subst deleted_evolve) simp_all
      have "\<exists>r. own_session rm' sid = [r] \<and> shows_session r (evolve dec s e)"
      proof (cases e)
        case (SessionProviderSet pr m tm)
        with p row(1,3) show ?thesis
          by (auto simp: shows_session_def project_SessionProviderSet_def evolve_SessionProviderSet_def)
      next
        case (SessionWorktreeSet w tm)
        with row(3) have w: "sr_worktreeId row = worktreeId s" by (simp add: shows_session_def)
        show ?thesis
        proof (cases "worktreeId s = w")
          case True
          with SessionWorktreeSet p row w show ?thesis
            by (auto simp: shows_session_def project_SessionWorktreeSet_def evolve_SessionWorktreeSet_def)
        next
          case False
          with SessionWorktreeSet p row w show ?thesis
            by (auto simp: shows_session_def project_SessionWorktreeSet_def evolve_SessionWorktreeSet_def)
        qed
      next
        case (TurnsRolledBack x)
        with p row' row(3) show ?thesis
          by (auto simp: own_session_def shows_session_def project_TurnsRolledBack_def Let_def
              update_session_def evolve_TurnsRolledBack_def split: option.splits)
      next
        case (SessionArchived tm)
        with p row' row(3) show ?thesis
          by (auto simp: own_session_def shows_session_def project_SessionArchived_def update_session_def
              next_version_def)
      next
        case (SessionUnarchived tm)
        with p row' row(3) show ?thesis
          by (auto simp: own_session_def shows_session_def project_SessionUnarchived_def update_session_def
              next_version_def Let_def)
      next
        case (ActiveProviderThreadSet h tm)
        with p row' row(3) own_before [OF ex] show ?thesis
          by (auto simp: own_session_def shows_session_def set_active_provider_thread_def
              update_session_def next_version_def)
      next
        case (SessionCreated c)
        with ok ex show ?thesis by simp
      next
        case (SessionResumeSet c st h tm)
        with okr show ?thesis by simp
      next
        case (SessionDeleted tm)
        with nodel show ?thesis by simp
      next
        case (ProviderAttached pr psid tm)
        with p row' row(3) show ?thesis
          by (auto simp: own_session_def shows_session_def update_session_def next_version_def
              evolve_ProviderAttached_def reservation_is_def)
      next
        case (ProviderStopRequested pr psid tm)
        with p row' row(3) show ?thesis
          by (auto simp: own_session_def shows_session_def update_session_def next_version_def
              evolve_ProviderStopRequested_def reservation_is_def)
      next
        case (ProviderDetached pr psid tm)
        with p row' row(3) show ?thesis
          by (auto simp: own_session_def shows_session_def update_session_def next_version_def
              evolve_ProviderDetached_def reservation_is_def)
      qed (use False p row' row(3) in \<open>auto simp: own_session_def shows_session_def
            update_session_def next_version_def\<close>)
      with nd' exe show ?thesis by (simp add: session_shown_def)
    qed
  qed
qed

end
