(* ===== verification/Read_Model_Attempts.thy ===== *)
theory Read_Model_Attempts
  imports Read_Model_Tables "HOL-Library.Multiset"
begin

text \<open>
  The table of attempts: \<open>sql-attempt-projector.ts\<close> finds the attempt an event is about from the
  ordinals and sequences of its rows, the state keeps the active attempt of each turn. The lemmas
  show that the two agree, and that no statement breaks a constraint.
\<close>

section \<open>Rows of one session\<close>

lemma sort_descending:
  assumes "sorted_wrt (<) (map f xs)"
  shows "sort_key (\<lambda>x. - f x :: int) xs = rev xs"
proof (rule sort_key_inj_key_eq)
  from assms have "distinct (map f xs)" by (simp add: strict_sorted_iff)
  then show "inj_on (\<lambda>x. - f x) (set xs)" by (auto simp: distinct_map inj_on_def)
  have "sorted_wrt (\<lambda>x y. f x < f y) xs" using assms by (simp add: sorted_wrt_map)
  then have "sorted_wrt (\<lambda>x y. f y < f x) (rev xs)" by (simp add: sorted_wrt_rev)
  then show "sorted (map (\<lambda>x. - f x) (rev xs))"
    unfolding sorted_map by (rule sorted_wrt_mono_rel [rotated]) simp
qed simp

lemma own_attempts_update:
  "(\<And>r. ar_sessionId (f r) = ar_sessionId r \<and> ar_turnId (f r) = ar_turnId r) \<Longrightarrow>
   own_attempts sid k (update_where p f rows) = update_where p f (own_attempts sid k rows)"
  by (simp add: own_attempts_def filter_update_where)

lemma own_attempts_append [simp]:
  "own_attempts sid k (rows @ [r]) =
     own_attempts sid k rows @ (if ar_sessionId r = sid \<and> ar_turnId r = k then [r] else [])"
  by (simp add: own_attempts_def)

lemma in_own_attempts:
  "r \<in> set (own_attempts sid k rows) \<longleftrightarrow> r \<in> set rows \<and> ar_sessionId r = sid \<and> ar_turnId r = k"
  by (auto simp: own_attempts_def)

lemma attempt_entry:
  assumes wf: "attempts_wf t" and a: "(key, a) \<in> set (tn_attempts t)"
  shows "key = attempt_id_for (tn_id t) (att_ordinal a)" "1 \<le> att_ordinal a"
    "att_ordinal a \<le> int (length (tn_attempts t))"
proof -
  from a obtain i where i: "i < length (tn_attempts t)" "tn_attempts t ! i = (key, a)"
    by (auto simp: in_set_conv_nth)
  from wf have keys: "keys (tn_attempts t) =
      map (\<lambda>i. attempt_id_for (tn_id t) (int i + 1)) [0..<length (tn_attempts t)]"
    and ords: "map (att_ordinal \<circ> snd) (tn_attempts t) =
      map (\<lambda>i. int i + 1) [0..<length (tn_attempts t)]"
    by (simp_all add: attempts_wf_def)
  have "keys (tn_attempts t) ! i = attempt_id_for (tn_id t) (int i + 1)"
    unfolding keys using i(1) by simp
  moreover have "map (att_ordinal \<circ> snd) (tn_attempts t) ! i = int i + 1"
    unfolding ords using i(1) by simp
  ultimately have "key = attempt_id_for (tn_id t) (int i + 1)" "att_ordinal a = int i + 1"
    using i by simp_all
  with i(1) show "key = attempt_id_for (tn_id t) (att_ordinal a)" "1 \<le> att_ordinal a"
    "att_ordinal a \<le> int (length (tn_attempts t))" by simp_all
qed

lemma last_attempt:
  assumes wf: "attempts_wf t"
  shows "fst (last (tn_attempts t)) = tn_activeAttemptId t"
proof -
  let ?n = "length (tn_attempts t)"
  from wf have ne: "tn_attempts t \<noteq> []"
    and keys: "keys (tn_attempts t) = map (\<lambda>i. attempt_id_for (tn_id t) (int i + 1)) [0..<?n]"
    and active: "tn_activeAttemptId t = attempt_id_for (tn_id t) (int ?n)"
    by (simp_all add: attempts_wf_def)
  from ne obtain m where m: "?n = Suc m" by (cases ?n) auto
  have "fst (last (tn_attempts t)) = last (keys (tn_attempts t))" using ne by (simp add: last_map)
  also have "\<dots> = attempt_id_for (tn_id t) (int ?n)" unfolding keys by (simp add: m add.commute)
  finally show ?thesis by (simp add: active)
qed

section \<open>The rows of a state\<close>

lemma attempts_shownE:
  assumes "attempts_shown sid n rows s" "\<not> deleted s"
  shows "map_of (turns s) k = Some t \<Longrightarrow> list_all2 shows_attempt (own_attempts sid k rows) (tn_attempts t)"
    and "\<lbrakk>r \<in> set rows; ar_sessionId r = sid\<rbrakk> \<Longrightarrow>
      map_has (turns s) (ar_turnId r) \<and> ar_startedSequence r \<le> n \<and> ar_updatedSequence r \<le> n"
  using assms by (auto simp: attempts_shown_def)

text \<open>A row of the session names its turn in its id.\<close>

lemma attempt_row_id:
  assumes shown: "attempts_shown sid n rows s" and nd: "\<not> deleted s" and inv: "turns_inv s"
    and r: "r \<in> set rows" "ar_sessionId r = sid"
  shows "ar_id r = attempt_id_for (ar_turnId r) (ar_ordinal r)" "1 \<le> ar_ordinal r"
    "\<exists>t. map_of (turns s) (ar_turnId r) = Some t \<and> ar_ordinal r \<le> int (length (tn_attempts t))"
proof -
  from attempts_shownE(2) [OF shown nd r] obtain t where t: "map_of (turns s) (ar_turnId r) = Some t"
    by (auto dest: map_of_keys_Some)
  have wf: "attempts_wf t" "tn_id t = ar_turnId r"
    using turns_wf_entry [OF inv t] by (simp_all add: turn_entry_def)
  have "r \<in> set (own_attempts sid (ar_turnId r) rows)" using r by (simp add: in_own_attempts)
  from rows_in [OF attempts_shownE(1) [OF shown nd t] this] obtain key a
    where a: "(key, a) \<in> set (tn_attempts t)" "shows_attempt r (key, a)" by blast
  with attempt_entry [OF wf(1) a(1)] wf(2) t
  show "ar_id r = attempt_id_for (ar_turnId r) (ar_ordinal r)" "1 \<le> ar_ordinal r"
    "\<exists>t. map_of (turns s) (ar_turnId r) = Some t \<and> ar_ordinal r \<le> int (length (tn_attempts t))"
    by auto
qed

lemma latest_is_active:
  assumes shown: "attempts_shown sid n rows s" and nd: "\<not> deleted s" and n: "n \<le> seq"
    and t: "map_of (turns s) k = Some t" and wf: "attempts_wf t"
  shows "latest_attempt sid k seq rows = Some (tn_activeAttemptId t)"
proof -
  let ?own = "own_attempts sid k rows"
  note own = attempts_shownE(1) [OF shown nd t]
  have own_filter: "filter (\<lambda>r. ar_sessionId r = sid \<and> ar_turnId r = k \<and> ar_startedSequence r \<le> seq) rows = ?own"
    unfolding own_attempts_def using attempts_shownE(2) [OF shown nd] n
    by (intro filter_cong refl) fastforce
  have len: "length ?own = length (tn_attempts t)" by (rule list_all2_lengthD [OF own])
  have "map ar_ordinal ?own = map (att_ordinal \<circ> snd) (tn_attempts t)"
    using own by (induction rule: list_all2_induct) (auto simp: split_paired_all)
  also have "\<dots> = map (\<lambda>i. int i + 1) [0..<length (tn_attempts t)]"
    using wf by (simp add: attempts_wf_def)
  finally have "sorted_wrt (<) (map ar_ordinal ?own)" by (simp add: sorted_wrt_iff_nth_less)
  then have sort: "sort_key (\<lambda>r. - ar_ordinal r) ?own = rev ?own" by (rule sort_descending)
  have ne: "tn_attempts t \<noteq> []" "?own \<noteq> []" using wf len by (auto simp: attempts_wf_def)
  have "shows_attempt (last ?own) (last (tn_attempts t))"
    using own ne len by (simp add: last_conv_nth list_all2_conv_all_nth)
  then have "ar_id (last ?own) = tn_activeAttemptId t"
    using last_attempt [OF wf] by (cases "last (tn_attempts t)") simp
  moreover obtain xs where "rev ?own = last ?own # xs"
    using ne(2) by (metis append_butlast_last_id rev.simps(2) rev_append rev_rev_ident
        append.simps(1) append_Cons rev_singleton_conv)
  ultimately show ?thesis by (simp only: latest_attempt_def own_filter sort list.case)
qed

section \<open>Every statement keeps the relation\<close>

fun attempt_event :: "session_event \<Rightarrow> bool" where
  "attempt_event (TurnStarted t tm ordinal attempt thread) = True"
| "attempt_event (AttemptStarted x) = True"
| "attempt_event (AttemptProviderTurnBound t a reference tm) = True"
| "attempt_event (TurnSettled t outcome tm) = True"
| "attempt_event (SessionDeleted tm) = True"
| "attempt_event e = False"

lemma attempts_untouched:
  "\<not> attempt_event (se_event record) \<Longrightarrow> project_attempts record rows = Inr rows"
  by (cases "se_event record") (simp_all add: project_attempts_def)

text \<open>The time of an event that the projection of attempts writes as a date.\<close>

fun attempt_time :: "session_event \<Rightarrow> int option" where
  "attempt_time (TurnStarted t tm ordinal attempt thread) = Some tm"
| "attempt_time (AttemptStarted x) = Some (as_startedAt x)"
| "attempt_time (TurnSettled t outcome tm) = Some tm"
| "attempt_time e = None"

lemma attempts_dated:
  "\<lbrakk>project_attempts record rows = Inr rows'; attempt_time (se_event record) = Some tm\<rbrakk> \<Longrightarrow> date_valid tm"
  by (cases "se_event record") (simp_all add: project_attempts_def Let_def)

text \<open>The attempts of the turns of a state.\<close>

definition turn_attempts :: "session_state \<Rightarrow> string \<Rightarrow> (string, attempt_state) jsmap option" where
  "turn_attempts s k = map_option tn_attempts (map_of (turns s) k)"

lemma attempts_shown_cong:
  assumes "attempts_shown sid n rows s" "n \<le> m" "deleted s' = deleted s"
    "\<And>k. turn_attempts s' k = turn_attempts s k"
  shows "attempts_shown sid m rows s'"
proof -
  have has: "(\<exists>y. map_of (turns s') k = Some y) \<longleftrightarrow> (\<exists>y. map_of (turns s) k = Some y)" for k
    using assms(4) [of k]
    by (cases "map_of (turns s) k"; cases "map_of (turns s') k")
      (simp_all add: turn_attempts_def)
  have same: "\<exists>t'. map_of (turns s) k = Some t' \<and> tn_attempts t' = tn_attempts t"
    if "map_of (turns s') k = Some t" for k t
    using assms(4) [of k] that by (cases "map_of (turns s) k") (auto simp: turn_attempts_def)
  show ?thesis
  proof (cases "deleted s")
    case True
    with assms(1,3) show ?thesis by (simp add: attempts_shown_def)
  next
    case False
    note shown = attempts_shownE [OF assms(1) False]
    from False assms(2,3) show ?thesis
      by (auto simp: attempts_shown_def has dest!: same shown(2) dest: shown(1))
  qed
qed

lemma turn_attempts_state:
  assumes "\<not> attempt_event e" "turns_inv s"
  shows "turn_attempts (evolve dec s e) k = turn_attempts s k"
proof -
  have "tn_id t = k" if "map_of (turns s) k = Some t" for k t
    using turns_wf_entry [OF assms(2) that] by (simp add: turn_entry_def)
  with assms(1) show ?thesis
    by (cases e) (auto simp: turn_attempts_def branch_defs helper_defs Let_def current_turn_def
        option.map_comp comp_def if_distrib [of tn_attempts] split: option.splits intro!: option.map_cong)
qed


text \<open>A statement that changes the rows of one turn.\<close>

lemma attempts_shown_update:
  assumes shown: "attempts_shown sid n rows s" and nd: "\<not> deleted s"
    and s': "turns s' = AList.update k t (turns s)" "deleted s' = deleted s"
    and own: "list_all2 shows_attempt (own_attempts sid k rows') (tn_attempts t)"
    and others: "\<And>k'. \<lbrakk>k' \<noteq> k; map_has (turns s) k'\<rbrakk> \<Longrightarrow>
      own_attempts sid k' rows' = own_attempts sid k' rows"
    and all: "\<And>r. \<lbrakk>r \<in> set rows'; ar_sessionId r = sid\<rbrakk> \<Longrightarrow>
      (ar_turnId r = k \<or> map_has (turns s) (ar_turnId r)) \<and>
      ar_startedSequence r \<le> m \<and> ar_updatedSequence r \<le> m"
  shows "attempts_shown sid m rows' s'"
proof -
  have "list_all2 shows_attempt (own_attempts sid k' rows') (tn_attempts t')"
    if t': "map_of (turns s') k' = Some t'" for k' t'
  proof (cases "k' = k")
    case True
    with t' own show ?thesis by (simp add: s'(1))
  next
    case False
    with t' have "map_of (turns s) k' = Some t'" by (simp add: s'(1))
    with attempts_shownE(1) [OF shown nd this] others [OF False] show ?thesis by (simp add: map_has_iff)
  qed
  moreover have "map_has (turns s') k' \<longleftrightarrow> k' = k \<or> map_has (turns s) k'" for k'
    by (simp add: s'(1) map_has_iff)
  ultimately show ?thesis using all nd by (simp add: attempts_shown_def s'(2))
qed

lemma insert_attempt_fresh:
  assumes "0 < ar_ordinal row"
    "\<And>r. \<lbrakk>r \<in> set rows; ar_sessionId r = ar_sessionId row\<rbrakk> \<Longrightarrow>
       ar_id r \<noteq> ar_id row \<and> (ar_turnId r = ar_turnId row \<longrightarrow> ar_ordinal r \<noteq> ar_ordinal row)"
  shows "insert_attempt_row row rows = Inr (rows @ [row])"
proof -
  have "\<not> list_ex (\<lambda>r. ar_sessionId r = ar_sessionId row \<and> ar_id r = ar_id row) rows"
    "\<not> list_ex (\<lambda>r. ar_sessionId r = ar_sessionId row \<and> ar_turnId r = ar_turnId row \<and>
         ar_ordinal r = ar_ordinal row) rows"
    using assms(2) by (auto simp: list_ex_iff)
  with assms(1) show ?thesis by (simp add: insert_attempt_row_def)
qed

lemma running_attempt_row_fields [simp]:
  "ar_sessionId (running_attempt_row sid key k n r tm seq) = sid"
  "ar_id (running_attempt_row sid key k n r tm seq) = key"
  "ar_turnId (running_attempt_row sid key k n r tm seq) = k"
  "ar_ordinal (running_attempt_row sid key k n r tm seq) = n"
  "ar_reason (running_attempt_row sid key k n r tm seq) = r"
  "ar_status (running_attempt_row sid key k n r tm seq) = AttemptRunning"
  "ar_startedAt (running_attempt_row sid key k n r tm seq) = tm"
  "ar_completedAt (running_attempt_row sid key k n r tm seq) = None"
  "ar_startedSequence (running_attempt_row sid key k n r tm seq) = seq"
  "ar_updatedSequence (running_attempt_row sid key k n r tm seq) = seq"
  by (simp_all add: running_attempt_row_def)

lemma attempts_TurnStarted:
  assumes shown: "attempts_shown sid n rows s" and nd: "\<not> deleted s" and inv: "turns_inv s"
    and ok: "event_ok s (TurnStarted k tm ord att th)" and fresh: "\<not> map_has (turns s) k"
    and sid [simp]: "se_streamId record = sid" and seq: "n \<le> se_sequence record"
    and e: "se_event record = TurnStarted k tm ord att th" and date: "date_valid tm"
  shows "\<exists>rows'. project_attempts record rows = Inr rows' \<and>
    attempts_shown sid (se_sequence record) rows' (evolve dec s (TurnStarted k tm ord att th))"
proof -
  from ok obtain th' where ev: "ord = Some (turnCount s + 1)" "att = Some (attempt_id_for k 1)"
    "th = Some th'" by auto
  let ?row = "running_attempt_row sid (attempt_id_for k 1) k 1 ReasonInitial tm (se_sequence record)"
  have "insert_attempt_row ?row rows = Inr (rows @ [?row])"
  proof (rule insert_attempt_fresh)
    fix r assume "r \<in> set rows" "ar_sessionId r = ar_sessionId ?row"
    then have r: "r \<in> set rows" "ar_sessionId r = sid" by (simp_all add: running_attempt_row_def)
    from attempts_shownE(2) [OF shown nd r] fresh have "ar_turnId r \<noteq> k" by auto
    with attempt_row_id(1) [OF shown nd inv r] show "ar_id r \<noteq> ar_id ?row \<and>
        (ar_turnId r = ar_turnId ?row \<longrightarrow> ar_ordinal r \<noteq> ar_ordinal ?row)"
      by (simp add: attempt_id_for_def)
  qed simp
  then have p: "project_attempts record rows = Inr (rows @ [?row])"
    by (simp add: project_attempts_def e ev date)
  have "own_attempts sid k rows = []"
    using attempts_shownE(2) [OF shown nd] fresh by (force simp: own_attempts_def filter_empty_conv)
  then have own: "list_all2 shows_attempt (own_attempts sid k (rows @ [?row]))
      (tn_attempts (started_turn k (turnCount s + 1) tm (attempt_id_for k 1) (event_thread s (Some th'))))"
    by (simp add: started_turn_def)
  have "attempts_shown sid (se_sequence record) (rows @ [?row])
      (evolve dec s (TurnStarted k tm ord att th))"
  proof (rule attempts_shown_update [OF shown nd _ _ own])
    fix r assume r: "r \<in> set (rows @ [?row])" "ar_sessionId r = sid"
    then consider "r \<in> set rows" | "r = ?row" by auto
    then show "(ar_turnId r = k \<or> map_has (turns s) (ar_turnId r)) \<and>
        ar_startedSequence r \<le> se_sequence record \<and> ar_updatedSequence r \<le> se_sequence record"
      by cases (use attempts_shownE(2) [OF shown nd _ r(2)] seq in auto)
  qed (simp_all add: ev TurnStarted_fields deleted_evolve [of "TurnStarted _ _ _ _ _", simplified])
  with p show ?thesis by blast
qed

lemma attempts_AttemptStarted:
  assumes shown: "attempts_shown sid n rows s" and nd: "\<not> deleted s" and inv: "turns_inv s"
    and ok: "event_ok s (AttemptStarted x)"
    and sid [simp]: "se_streamId record = sid" and seq: "n < se_sequence record"
    and e: "se_event record = AttemptStarted x" and date: "date_valid (as_startedAt x)"
  shows "\<exists>rows'. project_attempts record rows = Inr rows' \<and>
    attempts_shown sid (se_sequence record) rows' (evolve dec s (AttemptStarted x))"
proof -
  let ?k = "as_turnId x" let ?seq = "se_sequence record"
  from ok have c: "currentTurnId s = Some ?k" by simp
  from current_turn_wf [OF inv c] obtain t where t: "map_of (turns s) ?k = Some t" "tn_id t = ?k"
    and wf: "attempts_wf t" "live_turn t" by blast
  from ok t have ord: "as_ordinal x = int (length (tn_attempts t)) + 1"
    and key: "as_attemptId x = attempt_id_for ?k (as_ordinal x)" by auto
  from active_attempt_state [OF wf(2)] obtain a where
    a: "map_of (tn_attempts t) (tn_activeAttemptId t) = Some a" "att_status a = AttemptRunning" by blast
  have aid: "att_id a = tn_activeAttemptId t"
    using wf(1) map_of_SomeD [OF a(1)] by (auto simp: attempts_wf_def)
  let ?a = "a\<lparr>att_status := AttemptSuperseded, att_completedAt := Some (as_startedAt x)\<rparr>"
  let ?p = "\<lambda>r. ar_sessionId r = sid \<and> ar_turnId r = ?k \<and> ar_ordinal r < as_ordinal x \<and>
      ar_status r = AttemptRunning \<and> ar_updatedSequence r < ?seq"
  let ?f = "\<lambda>r. r\<lparr>ar_status := AttemptSuperseded, ar_completedAt := Some (as_startedAt x),
      ar_updatedSequence := ?seq\<rparr>"
  let ?sup = "supersede_attempts sid ?k (as_ordinal x) (as_startedAt x) ?seq rows"
  let ?row = "running_attempt_row sid (as_attemptId x) ?k (as_ordinal x) (as_reason x)
      (as_startedAt x) ?seq"
  have sup: "?sup = update_where ?p ?f rows" by (simp add: supersede_attempts_def)
  note own = attempts_shownE(1) [OF shown nd t(1)]
  have dist: "distinct (keys (tn_attempts t))" by (rule attempt_keys_distinct [OF wf(1)])
  have "list_all2 shows_attempt (update_where ?p ?f (own_attempts sid ?k rows))
      (AList.update (tn_activeAttemptId t) ?a (tn_attempts t))"
  proof (rule rows_update [OF own dist a(1)])
    fix r key w
    assume r: "r \<in> set (own_attempts sid ?k rows)" and w: "map_of (tn_attempts t) key = Some w"
      and show_r: "shows_attempt r (key, w)"
    from map_of_SomeD [OF w] have w': "(key, w) \<in> set (tn_attempts t)" .
    have "key = tn_activeAttemptId t \<or> att_status w = AttemptSuperseded"
      using wf(1) w' by (auto simp: attempts_wf_def)
    moreover have "ar_updatedSequence r < ?seq"
      using attempts_shownE(2) [OF shown nd] r seq by (force simp: in_own_attempts)
    ultimately show "?p r \<longleftrightarrow> key = tn_activeAttemptId t"
      using attempt_entry(3) [OF wf(1) w'] r show_r w a ord by (auto simp: in_own_attempts)
  qed simp
  then have own_sup: "list_all2 shows_attempt (own_attempts sid ?k ?sup)
      (AList.update (tn_activeAttemptId t) ?a (tn_attempts t))"
    by (simp add: sup own_attempts_update)
  have all: "ar_id r = attempt_id_for (ar_turnId r) (ar_ordinal r) \<and>
      (ar_turnId r = ?k \<longrightarrow> ar_ordinal r < as_ordinal x) \<and> map_has (turns s) (ar_turnId r) \<and>
      ar_startedSequence r \<le> ?seq \<and> ar_updatedSequence r \<le> ?seq"
    if r: "r \<in> set ?sup" "ar_sessionId r = sid" for r
  proof -
    from r(1) obtain r0 where r0: "r0 \<in> set rows" "r = (if ?p r0 then ?f r0 else r0)"
      by (auto simp: sup update_where_def)
    with r(2) have s0: "ar_sessionId r0 = sid" by (simp split: if_splits)
    from attempt_row_id(1,3) [OF shown nd inv r0(1) s0] attempts_shownE(2) [OF shown nd r0(1) s0]
      t ord seq r0(2)
    show ?thesis by (auto split: if_splits)
  qed
  have "insert_attempt_row ?row ?sup = Inr (?sup @ [?row])"
    using all ord by (intro insert_attempt_fresh)
      (fastforce simp: key attempt_id_for_def)+
  moreover have "list_ex (\<lambda>r. ar_sessionId r = sid \<and> ar_turnId r = ?k) rows"
  proof -
    have "own_attempts sid ?k rows \<noteq> []"
      using own wf(1) by (auto simp: attempts_wf_def)
    then show ?thesis by (auto simp: own_attempts_def filter_empty_conv list_ex_iff)
  qed
  ultimately have p: "project_attempts record rows = Inr (?sup @ [?row])"
    by (simp add: project_attempts_def e Let_def date)
  have st: "tn_attempts (start_attempt t x) = AList.update (as_attemptId x)
      \<lparr>att_id = as_attemptId x, att_ordinal = as_ordinal x, att_reason = as_reason x,
       att_status = AttemptRunning, att_startedAt = as_startedAt x, att_completedAt = None\<rparr>
      (AList.update (tn_activeAttemptId t) ?a (tn_attempts t))"
    by (simp add: start_attempt_def a aid)
  have fresh: "as_attemptId x \<notin> set (keys (AList.update (tn_activeAttemptId t) ?a (tn_attempts t)))"
    using next_attempt_fresh [OF wf(1)] active_in_keys [OF wf(1)] ord key t(2)
    by (simp add: keys_update)
  have own': "list_all2 shows_attempt (own_attempts sid ?k (?sup @ [?row])) (tn_attempts (start_attempt t x))"
    unfolding st own_attempts_append
    by (simp, rule rows_append [OF own_sup fresh]) simp
  have s': "turns (evolve dec s (AttemptStarted x)) = AList.update ?k (start_attempt t x) (turns s)"
    using t by (simp add: evolve_AttemptStarted_def with_turn_def start_attempt_def Let_def)
  have others: "own_attempts sid k' ?sup = own_attempts sid k' rows" if "k' \<noteq> ?k" for k'
    using that unfolding sup
    by (subst own_attempts_update) (auto simp: in_own_attempts intro!: update_where_other)
  have "attempts_shown sid ?seq (?sup @ [?row]) (evolve dec s (AttemptStarted x))"
  proof (rule attempts_shown_update [OF shown nd s' _ own'])
    fix r assume r: "r \<in> set (?sup @ [?row])" "ar_sessionId r = sid"
    then consider "r \<in> set ?sup" | "r = ?row" by auto
    then show "(ar_turnId r = ?k \<or> map_has (turns s) (ar_turnId r)) \<and>
        ar_startedSequence r \<le> ?seq \<and> ar_updatedSequence r \<le> ?seq"
      by cases (use all [OF _ r(2)] in auto)
  qed (simp_all add: others deleted_evolve del: evolve.simps)
  with p show ?thesis by blast
qed

lemma attempts_TurnSettled:
  assumes shown: "attempts_shown sid n rows s" and nd: "\<not> deleted s" and inv: "turns_inv s"
    and ok: "event_ok s (TurnSettled k outcome tm)"
    and sid [simp]: "se_streamId record = sid" and seq: "n < se_sequence record"
    and e: "se_event record = TurnSettled k outcome tm" and date: "date_valid tm"
  shows "\<exists>rows'. project_attempts record rows = Inr rows' \<and>
    attempts_shown sid (se_sequence record) rows' (evolve dec s (TurnSettled k outcome tm))"
proof -
  let ?seq = "se_sequence record"
  from ok have c: "currentTurnId s = Some k" by simp
  from current_turn_wf [OF inv c] obtain t where t: "map_of (turns s) k = Some t" "tn_id t = k"
    and wf: "attempts_wf t" "live_turn t" by blast
  from active_attempt_state [OF wf(2)] obtain a where
    a: "map_of (tn_attempts t) (tn_activeAttemptId t) = Some a" by blast
  have aid: "att_id a = tn_activeAttemptId t"
    using wf(1) map_of_SomeD [OF a] by (auto simp: attempts_wf_def)
  let ?a = "a\<lparr>att_status := outcome_attempt_status outcome, att_completedAt := Some tm\<rparr>"
  let ?p = "\<lambda>r. ar_sessionId r = sid \<and> ar_updatedSequence r < ?seq \<and> ar_id r = tn_activeAttemptId t"
  let ?f = "\<lambda>r. r\<lparr>ar_status := outcome_attempt_status outcome, ar_completedAt := Some tm,
      ar_updatedSequence := ?seq\<rparr>"
  let ?rows = "update_where ?p ?f rows"
  have settle: "settle_attempt sid k outcome tm ?seq rows = ?rows"
    unfolding settle_attempt_def
    by (simp add: latest_is_active [OF shown nd less_imp_le [OF seq] t(1) wf(1)] eq_commute)
  have p: "project_attempts record rows = Inr ?rows" by (simp add: project_attempts_def e settle date)
  note row = attempts_shownE(2) [OF shown nd]
  note own = attempts_shownE(1) [OF shown nd t(1)]
  have "list_all2 shows_attempt (update_where ?p ?f (own_attempts sid k rows))
      (AList.update (tn_activeAttemptId t) ?a (tn_attempts t))"
    by (rule rows_update [OF own attempt_keys_distinct [OF wf(1)] a])
      (use row seq in \<open>force simp: in_own_attempts\<close>)+
  then have own': "list_all2 shows_attempt (own_attempts sid k ?rows)
      (tn_attempts (settle_turn_state t outcome tm))"
    by (simp add: own_attempts_update settle_turn_state_def a aid)
  have active: "tn_activeAttemptId t = attempt_id_for k (int (length (tn_attempts t)))"
    using wf(1) t(2) by (simp add: attempts_wf_def)
  have others: "own_attempts sid k' ?rows = own_attempts sid k' rows" if "k' \<noteq> k" for k'
    using that attempt_row_id(1) [OF shown nd inv]
    by (subst own_attempts_update)
      (force simp: in_own_attempts active attempt_id_for_def intro!: update_where_other)+
  have s': "turns (evolve dec s (TurnSettled k outcome tm)) =
      AList.update k (settle_turn_state t outcome tm) (turns s)"
    using t by (simp add: evolve_TurnSettled_def Let_def split: option.split)
  have "attempts_shown sid ?seq ?rows (evolve dec s (TurnSettled k outcome tm))"
  proof (rule attempts_shown_update [OF shown nd s' _ own'])
    fix r assume r: "r \<in> set ?rows" "ar_sessionId r = sid"
    from r(1) obtain r0 where r0: "r0 \<in> set rows" "r = (if ?p r0 then ?f r0 else r0)"
      by (auto simp: update_where_def)
    with r(2) have "ar_sessionId r0 = sid" by (simp split: if_splits)
    from row [OF r0(1) this] r0(2) seq
    show "(ar_turnId r = k \<or> map_has (turns s) (ar_turnId r)) \<and>
        ar_startedSequence r \<le> ?seq \<and> ar_updatedSequence r \<le> ?seq"
      by (auto split: if_splits)
  qed (simp_all add: others deleted_evolve del: evolve.simps)
  with p show ?thesis by blast
qed

lemma attempts_Bound:
  assumes shown: "attempts_shown sid n rows s" and nd: "\<not> deleted s"
    and seq: "n \<le> m" and e: "e = AttemptProviderTurnBound k key reference tm"
  shows "attempts_shown sid m
    (update_where p (\<lambda>r. r\<lparr>ar_providerTurnJson := Some reference\<rparr>) rows) (evolve dec s e)"
proof -
  let ?rows = "update_where p (\<lambda>r. r\<lparr>ar_providerTurnJson := Some reference\<rparr>) rows"
  have own: "list_all2 shows_attempt (own_attempts sid k' ?rows) (tn_attempts t)"
    if "map_of (turns s) k' = Some t" for k' t
    by (subst own_attempts_update) (auto intro!: rows_keep [OF attempts_shownE(1) [OF shown nd that]])
  have "(\<exists>t. map_of (turns s) (ar_turnId r) = Some t) \<and> ar_startedSequence r \<le> n \<and> ar_updatedSequence r \<le> n"
    if r: "r \<in> set ?rows" "ar_sessionId r = sid" for r
  proof -
    from r(1) obtain r0 where r0: "r0 \<in> set rows"
      "r = (if p r0 then r0\<lparr>ar_providerTurnJson := Some reference\<rparr> else r0)"
      by (auto simp: update_where_def)
    with r(2) have "ar_sessionId r0 = sid" by (simp split: if_splits)
    from attempts_shownE(2) [OF shown nd r0(1) this] r0(2) show ?thesis by (auto split: if_splits)
  qed
  with own nd have "attempts_shown sid n ?rows s" by (auto simp: attempts_shown_def)
  then show ?thesis
    by (rule attempts_shown_cong [OF _ seq])
      (simp_all add: e deleted_evolve turn_attempts_def evolve_AttemptProviderTurnBound_def Let_def next_version_def)
qed

text \<open>Every event of a log keeps the relation, and its statements succeed.\<close>

lemma attempts_step:
  assumes shown: "attempts_shown sid n rows s" and inv: "turns_inv s"
    and ok: "event_ok s (se_event record)" and okr: "shown_ok s (se_event record)"
    and sid [simp]: "se_streamId record = sid" and seq: "n < se_sequence record"
    and fresh: "\<And>k. started_turn_id (se_event record) = Some k \<Longrightarrow> \<not> map_has (turns s) k"
    and dates: "\<And>tm. attempt_time (se_event record) = Some tm \<Longrightarrow> date_valid tm"
  shows "\<exists>rows'. project_attempts record rows = Inr rows' \<and>
    attempts_shown sid (se_sequence record) rows' (evolve dec s (se_event record))"
proof (cases "attempt_event (se_event record)")
  case False
  then have "deleted (evolve dec s (se_event record)) = deleted s" by (intro deleted_evolve) auto
  from attempts_shown_cong [OF shown less_imp_le [OF seq] this turn_attempts_state [OF False inv]]
  show ?thesis by (simp add: attempts_untouched [OF False])
next
  case True
  note nd = shown_not_deleted [OF okr]
  from True show ?thesis
  proof (cases "se_event record")
    case (TurnStarted k tm ord att th)
    with attempts_TurnStarted [OF shown nd inv _ _ sid less_imp_le [OF seq] TurnStarted] ok fresh [of k] dates
    show ?thesis by (simp del: evolve.simps)
  next
    case (AttemptStarted x)
    with attempts_AttemptStarted [OF shown nd inv _ sid seq AttemptStarted] ok dates
    show ?thesis by (simp del: evolve.simps event_ok.simps)
  next
    case (TurnSettled k outcome tm)
    with attempts_TurnSettled [OF shown nd inv _ sid seq TurnSettled] ok dates
    show ?thesis by (simp del: evolve.simps event_ok.simps)
  next
    case (AttemptProviderTurnBound k key reference tm)
    with attempts_Bound [OF shown nd less_imp_le [OF seq] AttemptProviderTurnBound]
    show ?thesis by (simp add: project_attempts_def del: evolve.simps)
  next
    case (SessionDeleted tm)
    then show ?thesis
      by (auto simp: project_attempts_def attempts_shown_def delete_where_def next_version_def)
  qed simp_all
qed

end
