(* ===== verification/Read_Model_Steps.thy ===== *)
theory Read_Model_Steps
  imports Read_Model_Session Read_Model_Attempts
begin

text \<open>
  One record of a session's log: the projector succeeds, keeps the relation between rows and
  state, and leaves the rows of other sessions where they are.
\<close>

section \<open>The projector succeeds\<close>

text \<open>The times of an event that its projection writes as dates.\<close>

fun event_dates :: "session_event \<Rightarrow> int list" where
  "event_dates (SessionCreated c) = [sc_createdAt c]"
| "event_dates (SessionTitleSet t p tm) = [tm]"
| "event_dates (SessionModelSet m tm) = [tm]"
| "event_dates (SessionProviderSet p m tm) = [tm]"
| "event_dates (SessionRuntimeModeSet m tm) = [tm]"
| "event_dates (SessionPermissionModeSet m tm) = [tm]"
| "event_dates (SessionWorktreeSet w tm) = [tm]"
| "event_dates (SessionStatusSet st tm) = [tm]"
| "event_dates (SessionQueuePausedSet q tm) = [tm]"
| "event_dates (SessionResumeSet cursor strategy head tm) = (if cursor = None then [] else [tm])"
| "event_dates (ProviderThreadUpdated h) = [pt_createdAt h, pt_updatedAt h]"
| "event_dates (ActiveProviderThreadSet h tm) = [tm]"
| "event_dates (SessionArchived tm) = [tm]"
| "event_dates (SessionUnarchived tm) = [tm]"
| "event_dates (SessionDeleted tm) = [tm]"
| "event_dates (TurnStarted t tm ordinal attempt thread) = [tm]"
| "event_dates (AttemptStarted x) = [as_startedAt x]"
| "event_dates (TurnsRolledBack x) = [rb_rolledBackAt x]"
| "event_dates (TurnSettled t outcome tm) = [tm]"
| "event_dates (TurnInterruptRequested t a tm) = [tm]"
| "event_dates (TurnInterruptAcknowledged t tm) = [tm]"
| "event_dates (TurnInterruptFailed t r tm) = [tm]"
| "event_dates (QueuedTurnEnqueued q) = [qt_createdAt q]"
| "event_dates (QueuedTurnUpdated k i tm ready) = [tm]"
| "event_dates (QueuedTurnsReordered ids tm) = [tm]"
| "event_dates (MessagePersisted m) = [mf_createdAt m]"
| "event_dates e = []"

definition dates_valid :: "session_event \<Rightarrow> bool" where
  "dates_valid e \<longleftrightarrow> list_all date_valid (event_dates e)"

lemma attempt_time_valid: "\<lbrakk>dates_valid e; attempt_time e = Some tm\<rbrakk> \<Longrightarrow> date_valid tm"
  by (cases e) (simp_all add: dates_valid_def)

lemma previous_step_row:
  "previous_step sid k a content rows = Some p \<Longrightarrow> \<exists>r \<in> set rows. pr_step r = p"
  by (auto simp: previous_step_def find_Some_iff)

lemma evolve_step_id:
  "evolve_execution_step (Some p) i content = Some st \<Longrightarrow> xs_id st = xs_id p"
  by (cases content) (auto simp: promoted_step_def split: if_splits)

lemma write_step_total:
  assumes "evolve_execution_step (previous_step sid k a content rows)
      \<lparr>xi_sessionId = sid, xi_turnId = k, xi_attemptId = a, xi_at = tm\<rparr> content = Some st"
  shows "\<exists>rows'. write_step sid st rows = Inr rows'"
proof (cases "previous_step sid k a content rows")
  case (Some p)
  with assms evolve_step_id have "xs_id st = xs_id p" by auto
  with previous_step_row [OF Some] have "list_ex (\<lambda>r. xs_id (pr_step r) = xs_id st) rows"
    by (auto simp: list_ex_iff)
  then show ?thesis by (simp add: write_step_def)
next
  case None
  with assms obtain u where u: "content = ToolUseContent u" "xs_turnId st = k" "xs_attemptId st = a"
    "xs_itemId st = tu_itemId u"
    by (cases content) (auto simp: opened_step_def Let_def)
  from None u(1) have "\<not> list_ex (\<lambda>r. pr_sessionId r = sid \<and> xs_turnId (pr_step r) = k \<and>
      xs_attemptId (pr_step r) = a \<and> xs_itemId (pr_step r) = tu_itemId u) rows"
    by (simp add: previous_step_def find_None_iff list_ex_iff)
  with u show ?thesis by (simp add: write_step_def)
qed

lemma step_total: "\<exists>rm'. project_execution_step dec ov record rm = Inr rm'"
  using write_step_total
  by (cases "se_event record")
    (fastforce simp: project_execution_step_def project_step_message_def Let_def split: option.split)+

lemma cancel_forks_total:
  assumes "\<And>f. \<lbrakk>f \<in> set rows; p f; fr_completedAt f = None\<rbrakk> \<Longrightarrow> sj_dropMessages sj (fr_payloadJson f) \<noteq> None"
  shows "\<exists>rows'. cancel_forks sj p tm rows = Inr rows'"
  using assms by (induction rows) (force split: option.splits)+

text \<open>What a record does before its event is projected.\<close>

definition input_stage ::
  "decoder \<Rightarrow> sqlite_json \<Rightarrow> session_event stored_event \<Rightarrow> read_model \<Rightarrow> projector_error + read_model"
where
  "input_stage dec sj record rm1 =
     (case se_event record of
        MessagePersisted m \<Rightarrow> Inr rm1
      | _ \<Rightarrow> and_then (project_execution_step dec None record rm1)
               (\<lambda>rm2. Inr (project_session_input dec sj record rm2)))"

lemma stage_total: "\<exists>rm3. input_stage dec sj record rm1 = Inr rm3 \<and> same_tables rm1 rm3"
proof -
  obtain rm2 where rm2: "project_execution_step dec None record rm1 = Inr rm2"
    using step_total [of dec None "record" rm1] by blast
  have "same_tables rm1 (project_session_input dec sj record rm2)"
    by (rule same_tables_trans [OF project_execution_step_same [OF rm2] project_session_input_same])
  then show ?thesis by (cases "se_event record") (simp_all add: input_stage_def rm2)
qed

lemma event_total:
  assumes shown: "turns_shown sid (rm_turns rm) s" and inv: "turns_inv s"
    and ok: "event_ok s e" and okr: "shown_ok s e" and sid [simp]: "se_streamId record = sid"
    and start: "\<And>k. started_turn_id e = Some k \<Longrightarrow>
      \<not> map_has (turns s) k \<and> (\<forall>r \<in> set (rm_turns rm). tr_sessionId r \<noteq> sid \<longrightarrow> tr_id r \<noteq> k)"
    and forks: "\<forall>f \<in> set (rm_forks rm). fr_sessionId f = sid \<and> fr_completedAt f = None \<longrightarrow>
      sj_dropMessages sj (fr_payloadJson f) \<noteq> None"
    and dates: "dates_valid e"
  shows "\<exists>rm'. project_event dec sj record rm e = Inr rm'"
proof (cases e)
  case (SessionCreated c)
  with okr dates show ?thesis by (simp add: project_SessionCreated_rows dates_valid_def)
next
  case (SessionDeleted tm)
  have "\<exists>rows'. cancel_forks sj (\<lambda>r. fr_sessionId r = sid) tm (rm_forks rm) = Inr rows'"
    using forks by (intro cancel_forks_total) auto
  with dates show ?thesis by (auto simp: SessionDeleted project_SessionDeleted_def Let_def dates_valid_def)
next
  case (TurnStarted k tm ord att th)
  from shown shown_not_deleted [OF okr]
  have rows: "list_all2 shows_turn (own_turns sid (rm_turns rm)) (turns s)" by (simp add: turns_shown_def)
  from ok TurnStarted have ord: "ord = Some (turnCount s + 1)" by simp
  from start [of k] TurnStarted have fresh: "\<not> map_has (turns s) k"
    and free: "\<forall>r \<in> set (rm_turns rm). tr_sessionId r \<noteq> sid \<longrightarrow> tr_id r \<noteq> k" by auto
  have "insert_turn_row row (rm_turns rm) = Inr (rm_turns rm @ [row])"
    if "tr_id row = k" "tr_sessionId row = sid" "tr_ordinal row = turnCount s + 1" for row
    by (rule started_rows [OF rows inv fresh free that])
  with dates show ?thesis by (simp add: TurnStarted project_TurnStarted_def ord Let_def dates_valid_def)
next
  case (MessagePersisted m)
  have "\<exists>rm1. project_execution_step dec None record
      (project_committed_message_input dec sj record
         (rm\<lparr>rm_messages := upsert_message sid (se_sequence record) m (rm_messages rm)\<rparr>)) = Inr rm1"
    by (rule step_total)
  with dates show ?thesis by (auto simp: MessagePersisted project_MessagePersisted_def Let_def dates_valid_def)
qed (use dates in \<open>auto simp: dates_valid_def split: option.split if_splits\<close>)

section \<open>The rows of other sessions\<close>

definition foreign_turns :: "string \<Rightarrow> turn_row list \<Rightarrow> string set" where
  "foreign_turns sid rows = tr_id ` {r \<in> set rows. tr_sessionId r \<noteq> sid}"

definition foreign_queue :: "string \<Rightarrow> queue_row list \<Rightarrow> string set" where
  "foreign_queue sid rows = qr_id ` {r \<in> set rows. qr_sessionId r \<noteq> sid}"

definition foreign_threads :: "string \<Rightarrow> thread_row list \<Rightarrow> string set" where
  "foreign_threads sid rows = hr_id ` {r \<in> set rows. hr_sessionId r \<noteq> sid}"

lemma foreign_free_alt:
  "foreign_free sj sid T Q rm \<longleftrightarrow>
     foreign_turns sid (rm_turns rm) \<inter> T = {} \<and> foreign_queue sid (rm_queue rm) \<inter> Q = {} \<and>
     (\<forall>k \<in> foreign_threads sid (rm_threads rm). scope_provider_thread_id sid k \<noteq> k) \<and>
     (\<forall>f \<in> set (rm_forks rm). fr_sessionId f = sid \<and> fr_completedAt f = None \<longrightarrow>
        sj_dropMessages sj (fr_payloadJson f) \<noteq> None)"
  by (auto simp: foreign_free_def foreign_turns_def foreign_queue_def foreign_threads_def)

text \<open>What a statement may do to the rows of a table.\<close>

lemma image_update_where:
  assumes "\<And>r. g (f r) = g r" "\<And>r. q (f r) = q r"
  shows "g ` {r \<in> set (update_where p f rows). q r} = g ` {r \<in> set rows. q r}"
proof -
  let ?h = "\<lambda>r. if p r then f r else r"
  have h: "g (?h r) = g r" "q (?h r) = q r" for r using assms by (cases "p r"; simp)+
  have "q \<circ> ?h = q" by (rule ext) (simp only: comp_def h(2))
  then have "filter q (map ?h rows) = map ?h (filter q rows)" by (simp only: filter_map)
  then have "{r \<in> set (update_where p f rows). q r} = ?h ` {r \<in> set rows. q r}"
    unfolding update_where_def by (metis set_filter set_map)
  then show ?thesis by (simp only: image_image h(1))
qed

lemma foreign_turns_update:
  "(\<And>r. tr_id (f r) = tr_id r \<and> tr_sessionId (f r) = tr_sessionId r) \<Longrightarrow>
   foreign_turns sid (update_where p f rows) = foreign_turns sid rows"
  unfolding foreign_turns_def by (rule image_update_where) simp_all

lemma foreign_turns_delete: "foreign_turns sid (delete_where p rows) \<subseteq> foreign_turns sid rows"
  by (auto simp: foreign_turns_def delete_where_def)

lemma foreign_turns_insert:
  "\<lbrakk>insert_turn_row r rows = Inr rows'; tr_sessionId r = sid\<rbrakk> \<Longrightarrow>
   foreign_turns sid rows' = foreign_turns sid rows"
  by (auto simp: foreign_turns_def insert_turn_row_def split: if_splits)

lemma foreign_queue_update:
  "(\<And>r. qr_id (f r) = qr_id r \<and> qr_sessionId (f r) = qr_sessionId r) \<Longrightarrow>
   foreign_queue sid (update_where p f rows) = foreign_queue sid rows"
  unfolding foreign_queue_def by (rule image_update_where) simp_all

lemma foreign_queue_delete: "foreign_queue sid (delete_where p rows) \<subseteq> foreign_queue sid rows"
  by (auto simp: foreign_queue_def delete_where_def)

lemma foreign_queue_insert:
  "qr_sessionId r = sid \<Longrightarrow> foreign_queue sid (insert_or_ignore p r rows) = foreign_queue sid rows"
  by (auto simp: foreign_queue_def insert_or_ignore_def)

lemma foreign_threads_update:
  "(\<And>r. hr_id (f r) = hr_id r \<and> hr_sessionId (f r) = hr_sessionId r) \<Longrightarrow>
   foreign_threads sid (update_where p f rows) = foreign_threads sid rows"
  unfolding foreign_threads_def by (rule image_update_where) simp_all

lemma foreign_threads_delete: "foreign_threads sid (delete_where p rows) \<subseteq> foreign_threads sid rows"
  by (auto simp: foreign_threads_def delete_where_def)

lemma foreign_threads_upsert:
  "foreign_threads sid (rm_threads (upsert_provider_thread sid h rm)) = foreign_threads sid (rm_threads rm)"
  by (auto simp: upsert_provider_thread_def Let_def upsert_def foreign_threads_update)
    (auto simp: foreign_threads_def)

lemma foreign_threads_retire:
  "foreign_threads sid (rm_threads (retire_active_thread_row sid tm rm)) = foreign_threads sid (rm_threads rm)"
  by (simp add: retire_active_thread_row_def foreign_threads_update)

lemma foreign_threads_bind:
  "foreign_threads sid (rm_threads (bind_legacy_resume_row sid n h tm rm)) = foreign_threads sid (rm_threads rm)"
  by (simp add: bind_legacy_resume_row_def Let_def foreign_threads_upsert split: option.split)

lemma foreign_queue_reorder:
  "foreign_queue sid (rm_queue (fold (\<lambda>(p, q). update_queue_row sid q
     (\<lambda>r. r\<lparr>qr_queueOrder := int p, qr_updatedAt := tm\<rparr>)) xs rm)) = foreign_queue sid (rm_queue rm)"
  by (induction xs arbitrary: rm) (auto simp: update_queue_row_def foreign_queue_update)

lemma turns_foreign:
  assumes "project_event dec sj record rm e = Inr rm'"
  shows "foreign_turns (se_streamId record) (rm_turns rm') \<subseteq> foreign_turns (se_streamId record) (rm_turns rm)"
proof (cases "turn_event e")
  case False
  with turns_untouched [OF assms] show ?thesis by simp
next
  case True
  with assms show ?thesis
    by (cases e) (auto simp: project_TurnStarted_def project_SessionStatusSet_def project_AttemptStarted_def
        project_phase_def project_TurnsRolledBack_def project_TurnFinalizationRequested_def
        project_TurnSettled_def project_SessionDeleted_def update_turn_row_def and_then_Inr Let_def
        foreign_turns_update foreign_turns_insert dest!: foreign_turns_delete [THEN subsetD] split: option.splits if_splits)
qed

lemma queue_foreign:
  assumes "project_event dec sj record rm e = Inr rm'"
  shows "foreign_queue (se_streamId record) (rm_queue rm') \<subseteq> foreign_queue (se_streamId record) (rm_queue rm)"
proof (cases "queue_event e")
  case False
  with queue_untouched [OF assms] show ?thesis by simp
next
  case True
  have deleted: "foreign_queue (se_streamId record) (rm_queue rm') \<subseteq> foreign_queue (se_streamId record) (rm_queue rm)"
    if "project_SessionDeleted sj (se_streamId record) tm rm = Inr rm'" for tm
    using deleted_rows [OF that] delete_session_queue foreign_queue_delete by (metis order_refl)
  from True assms show ?thesis
    by (cases e) (auto simp: project_QueuedTurnEnqueued_def project_QueuedTurnsReordered_def
        foreign_queue_reorder update_queue_row_def remove_queue_row_def foreign_queue_update foreign_queue_insert
        dest: deleted [THEN subsetD] dest!: foreign_queue_delete [THEN subsetD])
qed

lemma threads_foreign:
  assumes "project_event dec sj record rm e = Inr rm'" "\<And>c. e = SessionCreated c \<Longrightarrow> sc_sessionId c = se_streamId record"
  shows "foreign_threads (se_streamId record) (rm_threads rm') \<subseteq> foreign_threads (se_streamId record) (rm_threads rm)"
proof (cases "thread_event e")
  case False
  with threads_untouched [OF assms(1)] show ?thesis by simp
next
  case True
  then show ?thesis
  proof (cases e)
    case (SessionCreated c)
    with assms have "missing_created_field c = None"
      by (cases "missing_created_field c") (simp_all add: project_SessionCreated_def)
    with assms SessionCreated show ?thesis
      by (auto simp: project_SessionCreated_rows foreign_threads_bind with_created_rows_def split: option.splits)
  next
    case (SessionWorktreeSet w tm)
    with assms(1) show ?thesis
      by (auto simp: project_SessionWorktreeSet_def Let_def foreign_threads_retire split: option.splits if_splits)
  qed (use assms(1) in \<open>auto simp: project_SessionProviderSet_def foreign_threads_retire
      foreign_threads_bind foreign_threads_upsert foreign_threads_update project_TurnStarted_def
      project_TurnsRolledBack_def project_TurnSettled_def project_SessionDeleted_def and_then_Inr Let_def
      dest!: foreign_threads_delete [THEN subsetD] split: option.splits if_splits\<close>)
qed

lemma forks_kept:
  assumes "project_event dec sj record rm e = Inr rm'" "\<And>tm. e \<noteq> SessionDeleted tm"
  shows "rm_forks rm' = rm_forks rm"
proof (cases e)
  case (MessagePersisted m)
  with assms show ?thesis by (auto dest: message_tables)
next
  case (SessionCreated c)
  with assms have "missing_created_field c = None"
    by (cases "missing_created_field c") (simp_all add: project_SessionCreated_def)
  with assms SessionCreated show ?thesis
    by (auto simp: project_SessionCreated_rows with_created_rows_def split: option.splits)
qed (use assms in \<open>auto simp: project_defs and_then_Inr Let_def split: option.splits if_splits\<close>)

lemma cancelled_forks:
  "\<lbrakk>cancel_forks sj p tm rows = Inr rows'; f \<in> set rows'; fr_completedAt f = None\<rbrakk> \<Longrightarrow>
   f \<in> set rows \<and> \<not> p f"
proof (induction rows arbitrary: rows')
  case (Cons r rows)
  from Cons.prems(1) obtain rest where rest: "cancel_forks sj p tm rows = Inr rest"
    by (auto simp: and_then_Inr)
  show ?case
  proof (cases "p r \<and> fr_completedAt r = None")
    case True
    with Cons.prems(1) rest obtain x where "rows' = (r\<lparr>fr_completedAt := Some tm, fr_cancelledAt := Some tm,
        fr_error := None, fr_payloadJson := x\<rparr>) # rest"
      by (auto split: option.splits)
    with Cons.prems(2,3) have "f \<in> set rest" by auto
    with Cons.IH [OF rest _ Cons.prems(3)] show ?thesis by simp
  next
    case False
    with Cons.prems rest have "f = r \<or> f \<in> set rest" by auto
    with Cons.IH [OF rest _ Cons.prems(3)] False Cons.prems(3) show ?thesis by auto
  qed
qed simp

lemma attempts_kept:
  assumes "project_event dec sj record rm e = Inr rm'"
  shows "rm_attempts rm' = rm_attempts rm"
proof (cases e)
  case (MessagePersisted m)
  with assms show ?thesis by (auto dest: message_tables)
next
  case (SessionCreated c)
  with assms have "missing_created_field c = None"
    by (cases "missing_created_field c") (simp_all add: project_SessionCreated_def)
  with assms SessionCreated show ?thesis
    by (auto simp: project_SessionCreated_rows with_created_rows_def split: option.splits)
qed (use assms in \<open>auto simp: project_defs and_then_Inr Let_def split: option.splits if_splits\<close>)

lemma foreign_free_event:
  assumes free: "foreign_free sj sid T Q rm" and p: "project_event dec sj record rm e = Inr rm'"
    and sid [simp]: "se_streamId record = sid" and c: "\<And>c. e = SessionCreated c \<Longrightarrow> sc_sessionId c = sid"
  shows "foreign_free sj sid T Q rm'"
proof -
  note subsets = turns_foreign [OF p, unfolded sid] queue_foreign [OF p, unfolded sid]
    threads_foreign [OF p, unfolded sid, OF c]
  have "\<forall>f \<in> set (rm_forks rm'). fr_sessionId f = sid \<and> fr_completedAt f = None \<longrightarrow>
      sj_dropMessages sj (fr_payloadJson f) \<noteq> None"
  proof (cases "\<exists>tm. e = SessionDeleted tm")
    case True
    with p cancelled_forks show ?thesis
      by (fastforce simp: project_SessionDeleted_def and_then_Inr Let_def)
  next
    case False
    with forks_kept [OF p] free show ?thesis by (simp add: foreign_free_def)
  qed
  with free subsets show ?thesis by (auto simp: foreign_free_alt)
qed

section \<open>One record\<close>

lemma same_tables_shown:
  assumes "same_tables a b"
  shows "session_shown sid a s = session_shown sid b s" "rm_turns b = rm_turns a"
    "rm_threads b = rm_threads a" "rm_queue b = rm_queue a" "rm_forks b = rm_forks a"
    "rm_attempts b = rm_attempts a"
    "foreign_free sj sid T Q a = foreign_free sj sid T Q b"
  using assms by (simp_all add: same_tables_def session_shown_def own_session_def foreign_free_def)

lemma created_id:
  "sessionId (evolve dec s (SessionCreated c)) = Some (sc_sessionId c)"
  by (simp add: evolve_SessionCreated_def bind_legacy_resume_def with_provider_thread_def Let_def
      split: option.split)

text \<open>A record whose dates are valid and whose rows have their references is projected.\<close>

lemma record_total:
  assumes shown: "displays sid n rm s" and inv: "event_inv s"
    and ok: "event_ok s (se_event record)" and okr: "shown_ok s (se_event record)"
    and sid [simp]: "se_streamId record = sid" and seq: "n < se_sequence record"
    and free: "foreign_free sj sid T Q rm"
    and start: "\<And>k. started_turn_id (se_event record) = Some k \<Longrightarrow> \<not> map_has (turns s) k \<and> k \<in> T"
    and dates: "dates_valid (se_event record)"
    and refs: "\<And>rows rm3 rm'. \<lbrakk>input_stage dec sj record (rm\<lparr>rm_attempts := rows\<rparr>) = Inr rm3;
      project_event dec sj record rm3 (se_event record) = Inr rm'\<rbrakk> \<Longrightarrow> references_hold sj rm'"
  shows "\<exists>rm'. project_session dec sj record rm = Inr rm'"
proof -
  let ?e = "se_event record"
  from shown have parts: "turns_shown sid (rm_turns rm) s" "attempts_shown sid n (rm_attempts rm) s"
    by (simp_all add: displays_def)
  from inv have tinv: "turns_inv s" by (simp add: event_inv_alt)
  from attempts_step [OF parts(2) tinv ok okr sid seq _ attempt_time_valid [OF dates]] start obtain rows where
    rows: "project_attempts record (rm_attempts rm) = Inr rows" by blast
  obtain rm3 where rm3: "input_stage dec sj record (rm\<lparr>rm_attempts := rows\<rparr>) = Inr rm3"
    "same_tables (rm\<lparr>rm_attempts := rows\<rparr>) rm3"
    using stage_total by blast
  have "\<not> map_has (turns s) k \<and> (\<forall>r \<in> set (rm_turns rm). tr_sessionId r \<noteq> sid \<longrightarrow> tr_id r \<noteq> k)"
    if "started_turn_id ?e = Some k" for k
    using start [OF that] free by (auto simp: foreign_free_def)
  then have "\<exists>rm'. project_event dec sj record rm3 ?e = Inr rm'"
    using parts(1) free same_tables_shown(2,5) [OF rm3(2)]
    by (intro event_total [OF _ tinv ok okr sid _ _ dates]) (simp_all add: foreign_free_def)
  then obtain rm' where rm': "project_event dec sj record rm3 ?e = Inr rm'" by blast
  with refs [OF rm3(1) rm'] rm3(1) rows show ?thesis
    by (simp add: project_session_def project_session_attempt_def input_stage_def)
qed

lemma record_step:
  assumes p: "project_session dec sj record rm = Inr rm'"
    and shown: "displays sid n rm s" and inv: "event_inv s"
    and ok: "event_ok s (se_event record)" and okr: "shown_ok s (se_event record)"
    and sid [simp]: "se_streamId record = sid" and seq: "n < se_sequence record"
    and free: "foreign_free sj sid T Q rm"
    and start: "\<And>k. started_turn_id (se_event record) = Some k \<Longrightarrow> \<not> map_has (turns s) k \<and> k \<in> T"
    and queue: "\<And>q. se_event record = QueuedTurnEnqueued q \<Longrightarrow> qt_queueId q \<in> Q"
    and own: "sessionId (evolve dec s (se_event record)) = Some sid"
    and own_before: "exists s \<Longrightarrow> sessionId s = Some sid"
  shows "displays sid (se_sequence record) rm' (evolve dec s (se_event record)) \<and>
    foreign_free sj sid T Q rm'"
proof -
  let ?e = "se_event record" and ?s = "evolve dec s (se_event record)"
  note i = inv [unfolded event_inv_alt]
  have created: "\<And>c. ?e = SessionCreated c \<Longrightarrow> sc_sessionId c = sid" using own created_id by auto
  from shown have parts: "session_shown sid rm s" "turns_shown sid (rm_turns rm) s"
    "attempts_shown sid n (rm_attempts rm) s" "threads_shown sid (rm_threads rm) s"
    "queue_shown sid (rm_queue rm) s"
    by (simp_all add: displays_def)
  from i have tinv: "turns_inv s" and thinv: "threads_inv s"
    and qinv: "queue_wf (queuedTurns s) (queueOrder s)"
    and fresh: "\<not> exists s \<Longrightarrow> s = initial_session_state" by blast+
  from project_session_stages [OF p] obtain rows rm3 where
    st: "project_attempts record (rm_attempts rm) = Inr rows"
      "same_tables (rm\<lparr>rm_attempts := rows\<rparr>) rm3"
      "project_event dec sj record rm3 ?e = Inr rm'" by blast
  from attempts_step [OF parts(3) tinv ok okr sid seq _ attempts_dated [OF st(1)]] start st(1)
  have rows: "attempts_shown sid (se_sequence record) rows ?s" by auto
  have tstart: "\<not> map_has (turns s) k \<and> (\<forall>r \<in> set (rm_turns rm). tr_sessionId r \<noteq> sid \<longrightarrow> tr_id r \<noteq> k)"
    if "started_turn_id ?e = Some k" for k
    using start [OF that] free by (auto simp: foreign_free_def)
  note tables = same_tables_shown [OF st(2)]
  have "own_session rm3 sid = own_session rm sid"
    using st(2) by (simp add: own_session_def same_tables_def)
  with parts(1) have session3: "session_shown sid rm3 s" by (simp only: session_shown_def)
  have turns3: "turns_shown sid (rm_turns rm3) s" "rm_turns rm3 = rm_turns rm" using parts(2) tables(2) by simp_all
  have threads3: "threads_shown sid (rm_threads rm3) s" "rm_threads rm3 = rm_threads rm"
    using parts(4) tables(3) by simp_all
  have queue3: "queue_shown sid (rm_queue rm3) s" "rm_queue rm3 = rm_queue rm" using parts(5) tables(4) by simp_all
  have free3: "foreign_free sj sid T Q rm3" using free tables(7) [of sj sid T Q] by (simp add: foreign_free_def)
  have "session_shown sid rm' ?s"
    by (rule session_step [OF session3 fresh ok okr st(3) sid own own_before])
  moreover have "turns_shown sid (rm_turns rm') ?s"
    using tstart turns3(2) own_before by (intro turns_step [OF turns3(1) tinv ok okr st(3) sid]) simp_all
  moreover have "attempts_shown sid (se_sequence record) (rm_attempts rm') ?s"
    using rows tables(6) attempts_kept [OF st(3)] by simp
  moreover have "threads_shown sid (rm_threads rm') ?s"
  proof (rule threads_step [OF session3 threads3(1) thinv _ fresh ok okr st(3) sid own own_before])
    show "own_turns sid (rm_turns rm3) = [] \<or> exists s"
      using fresh turns3(1) by (cases "exists s") (simp_all add: turns_shown_def initial_session_state_def)
  qed (use free3 in \<open>auto simp: foreign_free_def\<close>)
  moreover have "queue_shown sid (rm_queue rm') ?s"
    using queue free3 by (intro queue_step [OF queue3(1) qinv ok okr st(3) sid]) (auto simp: foreign_free_def)
  moreover have "foreign_free sj sid T Q rm'"
    by (rule foreign_free_event [OF free3 st(3) sid created])
  ultimately show ?thesis by (simp add: displays_def)
qed

end
