(* ===== verification/Read_Model_Frame.thy ===== *)
theory Read_Model_Frame
  imports Read_Model_Steps
begin

text \<open>A record of one session leaves the rows of every other session alone.\<close>

section \<open>Statements of another session\<close>

lemma filter_update_member:
  "(\<And>r. \<lbrakk>r \<in> set rows; p r\<rbrakk> \<Longrightarrow> \<not> q r \<and> \<not> q (f r)) \<Longrightarrow>
   filter q (update_where p f rows) = filter q rows"
  by (induction rows) auto

lemma filter_update_other:
  "(\<And>r. p r \<Longrightarrow> \<not> q r \<and> \<not> q (f r)) \<Longrightarrow> filter q (update_where p f rows) = filter q rows"
  by (rule filter_update_member) blast

lemma filter_delete_other:
  "(\<And>r. q r \<Longrightarrow> \<not> p r) \<Longrightarrow> filter q (delete_where p rows) = filter q rows"
  by (induction rows) (auto simp: delete_where_def)

lemma filter_insert_other: "\<not> q r \<Longrightarrow> filter q (insert_or_ignore p r rows) = filter q rows"
  by (simp add: insert_or_ignore_def)

lemma filter_upsert_other:
  "\<lbrakk>\<not> q row; \<And>r. p r \<Longrightarrow> \<not> q r \<and> \<not> q (f r)\<rbrakk> \<Longrightarrow> filter q (upsert same p f row rows) = filter q rows"
  by (auto simp: upsert_def intro!: filter_update_other)

lemmas filter_other = filter_update_other filter_delete_other filter_insert_other filter_upsert_other


lemma thread_prefix_inject: "\<lbrakk>prefix (thread_prefix a) k; prefix (thread_prefix b) k\<rbrakk> \<Longrightarrow> a = b"
proof -
  assume "prefix (thread_prefix a) k" "prefix (thread_prefix b) k"
  then obtain u v where "k = thread_prefix a @ u" "k = thread_prefix b @ v" by (meson prefixE)
  then have "split_at CHR '':'' (thread_prefix a @ u) = split_at CHR '':'' (thread_prefix b @ v)" by simp
  then show "a = b" by (simp add: split_thread_prefix encode_def)
qed

lemma scoped_once:
  "\<lbrakk>scope_provider_thread_id a k = k; scope_provider_thread_id b k = k\<rbrakk> \<Longrightarrow> a = b"
  using scope_has_prefix [of a k] scope_has_prefix [of b k] thread_prefix_inject by metis

section \<open>The tables\<close>

lemma created_complete_project:
  assumes "project_SessionCreated eid c rm = Inr rm'"
  shows "rm' = (case or_null (sc_cursor c) of
            None \<Rightarrow> with_created_rows c rm
          | Some cursor \<Rightarrow>
              bind_legacy_resume_row (sc_sessionId c) cursor (Some None) (sc_createdAt c)
                (with_created_rows c rm))"
proof -
  from assms have "missing_created_field c = None"
    by (cases "missing_created_field c") (simp_all add: project_SessionCreated_def)
  with assms show ?thesis by (simp add: project_SessionCreated_rows)
qed

lemma sessions_frame_helpers:
  assumes "a \<noteq> b"
  shows "(\<And>r. sr_id (f r) = sr_id r) \<Longrightarrow> own_session (update_session a f rm) b = own_session rm b"
    "own_session (set_active_provider_thread a h tm rm) b = own_session rm b"
    "own_session (retire_active_thread_row a tm rm) b = own_session rm b"
    "own_session (bind_legacy_resume_row a n h' tm rm) b = own_session rm b"
    "own_session (touch_session a tm rm) b = own_session rm b"
proof -
  have upd: "own_session (update_session a f rm) b = own_session rm b"
    if "\<And>r. sr_id (f r) = sr_id r" for f rm
    using assms that by (simp add: own_session_def update_session_def filter_update_other)
  then show "(\<And>r. sr_id (f r) = sr_id r) \<Longrightarrow> own_session (update_session a f rm) b = own_session rm b" .
  have act: "own_session (set_active_provider_thread a h tm rm) b = own_session rm b" for h tm rm
    by (simp add: set_active_provider_thread_def upd)
  then show "own_session (set_active_provider_thread a h tm rm) b = own_session rm b" .
  show "own_session (retire_active_thread_row a tm rm) b = own_session rm b"
    by (simp add: retire_active_thread_row_def act) (simp add: own_session_def)
  show "own_session (bind_legacy_resume_row a n h' tm rm) b = own_session rm b"
    by (simp add: bind_legacy_resume_row_def Let_def act split: option.split) (simp add: own_session_def)
  show "own_session (touch_session a tm rm) b = own_session rm b"
    by (simp add: touch_session_def upd)
qed

lemma own_session_tables [simp]:
  "own_session (rm\<lparr>rm_turns := x1\<rparr>) b = own_session rm b"
  "own_session (rm\<lparr>rm_threads := x2\<rparr>) b = own_session rm b"
  "own_session (rm\<lparr>rm_chats := x3\<rparr>) b = own_session rm b"
  "own_session (rm\<lparr>rm_messages := x4\<rparr>) b = own_session rm b"
  "own_session (rm\<lparr>rm_inputs := x5\<rparr>) b = own_session rm b"
  "own_session (rm\<lparr>rm_forks := x6\<rparr>) b = own_session rm b"
  "own_session (rm\<lparr>rm_queue := x7\<rparr>) b = own_session rm b"
  "own_session (update_turn_row k t f rm) b = own_session rm b"
  "own_session (update_queue_row k t g rm) b = own_session rm b"
  "own_session (remove_queue_row k t rm) b = own_session rm b"
  "own_session (upsert_provider_thread k h rm) b = own_session rm b"
  "own_session (replace_unavailable_active_session k tm rm) b = own_session rm b"
  "own_session (update_chat_last_message tg m rm) b = own_session rm b"
  "own_session (update_chat_last_user_message k tm rm) b = own_session rm b"
  "own_session (fold (\<lambda>(p, q). update_queue_row k q (gg p)) xs rm) b = own_session rm b"
  by (simp_all add: own_session_def)

lemma sessions_kept:
  assumes p: "project_event dec sj record rm e = Inr rm'" and other: "se_streamId record \<noteq> b"
    and c: "\<And>c. e = SessionCreated c \<Longrightarrow> sc_sessionId c = se_streamId record"
    and nd: "\<nexists>tm. e = SessionDeleted tm"
  shows "own_session rm' b = own_session rm b"
proof (cases e)
  case (SessionCreated c)
  have "own_session (with_created_rows c rm) b = own_session rm b"
    using other assms(3) [OF SessionCreated]
    by (simp add: with_created_rows_def own_session_def created_session_row_def filter_insert_other)
  with p SessionCreated assms(3) [OF SessionCreated] other show ?thesis
    by (auto simp: sessions_frame_helpers dest!: created_complete_project split: option.split)
next
  case (SessionDeleted tm)
  with nd show ?thesis by simp
next
  case (MessagePersisted m)
  with p have "project_MessagePersisted dec sj record m rm = Inr rm'" by simp
  from message_tables(6) [OF this] other show ?thesis
    by (auto simp: own_session_def filter_update_other)
qed (use p other in \<open>auto simp: sessions_frame_helpers project_SessionProviderSet_def
    project_SessionWorktreeSet_def project_SessionStatusSet_def project_SessionArchived_def
    project_SessionUnarchived_def project_QueuedTurnEnqueued_def project_QueuedTurnsReordered_def
    project_TurnStarted_def project_AttemptStarted_def project_phase_def project_TurnsRolledBack_def
    project_TurnFinalizationRequested_def project_TurnSettled_def and_then_Inr Let_def
    split: option.splits if_splits\<close>)

lemma sessions_frame:
  assumes p: "project_event dec sj record rm e = Inr rm'" and other: "se_streamId record \<noteq> b"
    and c: "\<And>c. e = SessionCreated c \<Longrightarrow> sc_sessionId c = se_streamId record"
  shows "\<exists>q. own_session rm' b =
    update_where q (\<lambda>r. r\<lparr>sr_forkedFromSessionId := None\<rparr>) (own_session rm b)"
proof (cases "\<exists>tm. e = SessionDeleted tm")
  case False
  from sessions_kept [OF p other c this] show ?thesis
    by (intro exI [of _ "\<lambda>r. False"]) (simp add: update_where_other)
next
  case True
  then obtain tm where "project_SessionDeleted sj (se_streamId record) tm rm = Inr rm'" using p by auto
  from deleted_rows [OF this] obtain rm0 where
    rm0: "rm' = delete_sessions sj (\<lambda>r. sr_id r = se_streamId record) rm0" "rm_sessions rm0 = rm_sessions rm"
    by metis
  from delete_session_own(2) [of b "se_streamId record" sj rm0] other own_session_frame [OF rm0(2), of b]
  show ?thesis by (auto simp: rm0(1))
qed

lemma session_shown_forked:
  assumes "session_shown b rm s"
    and "own_session rm' b = update_where q (\<lambda>r. r\<lparr>sr_forkedFromSessionId := None\<rparr>) (own_session rm b)"
  shows "session_shown b rm' s"
  using assms by (auto simp: session_shown_def shows_session_def split: if_splits)

lemma turns_frame:
  assumes p: "project_event dec sj record rm e = Inr rm'" and other: "se_streamId record \<noteq> b"
  shows "own_turns b (rm_turns rm') = own_turns b (rm_turns rm)"
proof (cases "turn_event e")
  case False
  with turns_untouched [OF p] show ?thesis by simp
next
  case True
  then show ?thesis
  proof (cases e)
    case (TurnStarted k tm ord att th)
    have "own_turns b rows' = own_turns b rows"
      if "insert_turn_row r rows = Inr rows'" "tr_sessionId r \<noteq> b" for r rows rows'
      using that by (auto simp: insert_turn_row_def own_turns_def split: if_splits)
    with p other TurnStarted show ?thesis
      by (auto simp: project_TurnStarted_def and_then_Inr Let_def split: option.splits)
  qed (use p other in \<open>auto simp: own_turns_def
      project_SessionStatusSet_def project_AttemptStarted_def project_phase_def
      project_TurnsRolledBack_def project_TurnFinalizationRequested_def project_TurnSettled_def
      project_SessionDeleted_def update_turn_row_def and_then_Inr Let_def
      intro!: filter_update_other filter_delete_other split: option.splits if_splits\<close>)
qed

lemma queue_frame:
  assumes p: "project_event dec sj record rm e = Inr rm'" and other: "se_streamId record \<noteq> b"
  shows "own_queue b (rm_queue rm') = own_queue b (rm_queue rm)"
proof (cases "queue_event e")
  case False
  with queue_untouched [OF p] show ?thesis by simp
next
  case True
  have reorder: "own_queue b (rm_queue (fold (\<lambda>(p, q). update_queue_row (se_streamId record) q
      (\<lambda>r. r\<lparr>qr_queueOrder := int p, qr_updatedAt := tm\<rparr>)) xs rm)) = own_queue b (rm_queue rm)" for xs tm
  proof (induction xs arbitrary: rm)
    case (Cons x xs)
    have "own_queue b (rm_queue (update_queue_row (se_streamId record) q f rm)) = own_queue b (rm_queue rm)"
      if "\<And>r. qr_sessionId (f r) = qr_sessionId r" for q f rm
      unfolding own_queue_def update_queue_row_def
      by (simp, rule filter_update_other) (use other that in auto)
    with Cons.IH show ?case by (simp add: split_def)
  qed simp
  have deleted: "filter (\<lambda>q. qr_sessionId q = b) (rm_queue rm') = filter (\<lambda>q. qr_sessionId q = b) (rm_queue rm)"
    if d: "project_SessionDeleted sj (se_streamId record) tm rm = Inr rm'" for tm
  proof -
    from deleted_rows [OF d] obtain rm0 where
      rm0: "rm' = delete_sessions sj (\<lambda>r. sr_id r = se_streamId record) rm0" "rm_queue rm0 = rm_queue rm"
      by metis
    from delete_session_queue [of sj "se_streamId record" rm0] other show ?thesis
      by (auto simp: rm0 intro!: filter_delete_other)
  qed
  from True p other show ?thesis
    by (cases e) (auto simp: project_QueuedTurnEnqueued_def project_QueuedTurnsReordered_def
        reorder [unfolded own_queue_def] update_queue_row_def remove_queue_row_def own_queue_def
        filter_insert_other deleted intro!: filter_update_other filter_delete_other)
qed

lemma threads_frame:
  assumes p: "project_event dec sj record rm e = Inr rm'" and other: "se_streamId record \<noteq> b"
    and c: "\<And>c. e = SessionCreated c \<Longrightarrow> sc_sessionId c = se_streamId record"
    and scoped: "\<forall>r \<in> set (own_threads b (rm_threads rm)). scope_provider_thread_id b (hr_id r) = hr_id r"
    and active: "\<And>k. active_thread_of rm (se_streamId record) = Some k \<Longrightarrow>
      scope_provider_thread_id (se_streamId record) k = k"
  shows "own_threads b (rm_threads rm') = own_threads b (rm_threads rm)"
proof (cases "thread_event e")
  case False
  with threads_untouched [OF p] show ?thesis by simp
next
  case True
  let ?a = "se_streamId record"
  have not_active: "hr_sessionId r \<noteq> b"
    if "r \<in> set (rm_threads rm)" "Some (hr_id r) = active_thread_of rm ?a" for r
  proof
    assume "hr_sessionId r = b"
    with that(1) scoped have "scope_provider_thread_id b (hr_id r) = hr_id r" by (simp add: in_own_threads)
    moreover have "scope_provider_thread_id ?a (hr_id r) = hr_id r" using that(2) active by metis
    ultimately show False using scoped_once other by blast
  qed
  have retire: "own_threads b (rm_threads (retire_active_thread_row ?a tm rm)) = own_threads b (rm_threads rm)" for tm
    unfolding retire_active_thread_row_def own_threads_def
    by (simp, rule filter_update_member) (use not_active in \<open>auto dest: not_active\<close>)
  have upsert: "own_threads b (rm_threads (upsert_provider_thread ?a h rm0)) = own_threads b (rm_threads rm0)" for h rm0
    using other by (simp add: upsert_provider_thread_def Let_def own_threads_def filter_upsert_other)
  have bind: "own_threads b (rm_threads (bind_legacy_resume_row ?a n h tm rm0)) = own_threads b (rm_threads rm0)" for n h tm rm0
    by (simp add: bind_legacy_resume_row_def Let_def upsert split: option.split)
  from True show ?thesis
  proof (cases e)
    case (SessionCreated c)
    with p assms(3) [OF SessionCreated] show ?thesis
      by (auto simp: bind with_created_rows_def dest!: created_complete_project split: option.split)
  next
    case (SessionWorktreeSet w tm)
    with p show ?thesis
      by (auto simp: project_SessionWorktreeSet_def Let_def retire split: option.splits if_splits)
  next
    case (TurnSettled k outcome tm)
    have "active_thread_of (update_turn_row ?a k f rm) ?a = active_thread_of rm ?a" for f
      by (simp add: active_thread_of_def find_session_def)
    moreover have "own_threads b (update_where
        (\<lambda>h. Some (hr_id h) = active_thread_of rm ?a \<and> hr_status h = ThreadActive)
        (\<lambda>h. h\<lparr>hr_status := ThreadIdle, hr_updatedAt := tm\<rparr>) (rm_threads rm)) =
        own_threads b (rm_threads rm)"
      unfolding own_threads_def by (rule filter_update_member) (simp add: not_active)
    ultimately show ?thesis using p TurnSettled
      by (auto simp: project_TurnSettled_def Let_def)
  qed (use p other in \<open>auto simp: project_SessionProviderSet_def
      retire [unfolded own_threads_def] bind [unfolded own_threads_def] upsert [unfolded own_threads_def]
      project_TurnStarted_def project_TurnsRolledBack_def project_SessionDeleted_def and_then_Inr Let_def
      own_threads_def intro!: filter_update_other filter_delete_other split: option.splits if_splits\<close>)
qed

lemma attempts_frame:
  assumes p: "project_attempts record rows = Inr rows'" and other: "se_streamId record \<noteq> b"
  shows "filter (\<lambda>r. ar_sessionId r = b) rows' = filter (\<lambda>r. ar_sessionId r = b) rows"
proof -
  have ins: "filter (\<lambda>r. ar_sessionId r = b) xs' = filter (\<lambda>r. ar_sessionId r = b) xs"
    if "insert_attempt_row r xs = Inr xs'" "ar_sessionId r \<noteq> b" for r xs xs'
    using that by (auto simp: insert_attempt_row_def split: if_splits)
  have run: "ar_sessionId (running_attempt_row (se_streamId record) key k n r tm seq) \<noteq> b" for key k n r tm seq
    using other by simp
  have sup: "filter (\<lambda>r. ar_sessionId r = b) (supersede_attempts (se_streamId record) k n tm seq rows) =
      filter (\<lambda>r. ar_sessionId r = b) rows" for k n tm seq
    unfolding supersede_attempts_def by (rule filter_update_other) (use other in auto)
  show ?thesis
    using p other
    by (cases "se_event record")
      (auto simp: project_attempts_def Let_def settle_attempt_def filter_delete_other
        sup split: if_splits dest: ins [OF _ run] intro!: filter_update_other)
qed

section \<open>One record\<close>

lemma own_attempts_filter:
  "own_attempts b k rows = filter (\<lambda>r. ar_turnId r = k) (filter (\<lambda>r. ar_sessionId r = b) rows)"
  by (simp add: own_attempts_def conj_commute)

lemma attempts_shown_frame:
  assumes shown: "attempts_shown b n rows s" and n: "n \<le> m"
    and same: "filter (\<lambda>r. ar_sessionId r = b) rows' = filter (\<lambda>r. ar_sessionId r = b) rows"
  shows "attempts_shown b m rows' s"
proof -
  have own: "own_attempts b k rows' = own_attempts b k rows" for k by (simp add: own_attempts_filter same)
  have "{r \<in> set rows'. ar_sessionId r = b} = {r \<in> set rows. ar_sessionId r = b}"
    using arg_cong [OF same, of set] by simp
  then have mem: "r \<in> set rows" if "r \<in> set rows'" "ar_sessionId r = b" for r using that by auto
  show ?thesis
  proof (cases "deleted s")
    case True
    with shown mem show ?thesis by (auto simp: attempts_shown_def)
  next
    case False
    have "map_has (turns s) (ar_turnId r) \<and> ar_startedSequence r \<le> m \<and> ar_updatedSequence r \<le> m"
      if "r \<in> set rows'" "ar_sessionId r = b" for r
      using attempts_shownE(2) [OF shown False mem [OF that] that(2)] n by simp
    with False own attempts_shownE(1) [OF shown False] show ?thesis by (simp add: attempts_shown_def)
  qed
qed

text \<open>What a session that is shown says of its own rows.\<close>

lemma displayed_threads_scoped:
  assumes "displays b n rm s" "threads_inv s" "exists s \<Longrightarrow> sessionId s = Some b"
    "\<not> exists s \<Longrightarrow> s = initial_session_state"
  shows "\<forall>r \<in> set (own_threads b (rm_threads rm)). scope_provider_thread_id b (hr_id r) = hr_id r"
    "active_thread_of rm b = Some k \<Longrightarrow> scope_provider_thread_id b k = k"
proof -
  have scoped: "scope_provider_thread_id b k = k" if "(k, h) \<in> set (providerThreads s)" for k h
  proof (cases "exists s")
    case True
    with assms(2,3) that show ?thesis by (auto simp: threads_wf_def)
  next
    case False
    with assms(4) that show ?thesis by (simp add: initial_session_state_def)
  qed
  show "\<forall>r \<in> set (own_threads b (rm_threads rm)). scope_provider_thread_id b (hr_id r) = hr_id r"
  proof (cases "deleted s")
    case True
    with assms(1) show ?thesis by (simp add: displays_def threads_shown_def)
  next
    case False
    with assms(1) have rows: "list_all2 shows_thread (own_threads b (rm_threads rm)) (providerThreads s)"
      by (simp add: displays_def threads_shown_def)
    show ?thesis using rows_in [OF rows] scoped by force
  qed
  assume k: "active_thread_of rm b = Some k"
  show "scope_provider_thread_id b k = k"
  proof (cases "exists s \<and> \<not> deleted s")
    case True
    with k assms(1) have "activeProviderThreadId s = Some k"
      using active_thread_shown [of b rm s] by (simp add: displays_def)
    with assms(2) obtain h where "map_of (providerThreads s) k = Some h" by (auto simp: threads_wf_def)
    then show ?thesis using scoped map_of_SomeD by metis
  next
    case False
    with assms(1) have "own_session rm b = []" by (auto simp: displays_def session_shown_def)
    with k show ?thesis
      by (simp add: active_thread_of_def find_session_def own_session_def find_filter)
  qed
qed

lemma record_frame:
  assumes shown: "displays b n rm s" and binv: "threads_inv s" "exists s \<Longrightarrow> sessionId s = Some b"
      "\<not> exists s \<Longrightarrow> s = initial_session_state"
    and active: "\<And>k. active_thread_of rm (se_streamId record) = Some k \<Longrightarrow>
      scope_provider_thread_id (se_streamId record) k = k"
    and other: "se_streamId record \<noteq> b" and n: "n \<le> m"
    and c: "\<And>c. se_event record = SessionCreated c \<Longrightarrow> sc_sessionId c = se_streamId record"
    and p: "project_session dec sj record rm = Inr rm'"
  shows "displays b m rm' s"
proof -
  from project_session_stages [OF p] obtain rows rm3 where
    st: "project_attempts record (rm_attempts rm) = Inr rows"
      "same_tables (rm\<lparr>rm_attempts := rows\<rparr>) rm3"
      "project_event dec sj record rm3 (se_event record) = Inr rm'" by blast
  have rm3: "rm_sessions rm3 = rm_sessions rm" "rm_turns rm3 = rm_turns rm" "rm_threads rm3 = rm_threads rm"
    "rm_queue rm3 = rm_queue rm" "rm_attempts rm3 = rows"
    using st(2) by (simp_all add: same_tables_def)
  have act: "active_thread_of rm3 (se_streamId record) = active_thread_of rm (se_streamId record)"
    by (simp add: active_thread_of_def find_session_def rm3)
  have scoped: "\<forall>r \<in> set (own_threads b (rm_threads rm3)). scope_provider_thread_id b (hr_id r) = hr_id r"
    using displayed_threads_scoped(1) [OF shown binv] by (simp add: rm3)
  have "session_shown b rm' s"
  proof -
    from sessions_frame [OF st(3) other c] obtain q where
      "own_session rm' b = update_where q (\<lambda>r. r\<lparr>sr_forkedFromSessionId := None\<rparr>) (own_session rm3 b)"
      by blast
    then have q: "own_session rm' b = update_where q (\<lambda>r. r\<lparr>sr_forkedFromSessionId := None\<rparr>) (own_session rm b)"
      by (simp only: own_session_frame [OF rm3(1)])
    have "session_shown b rm s" using shown by (simp only: displays_def)
    from session_shown_forked [OF this q] show ?thesis .
  qed
  moreover have "own_turns b (rm_turns rm') = own_turns b (rm_turns rm)"
    using turns_frame [OF st(3) other] by (simp add: rm3)
  moreover have "own_threads b (rm_threads rm') = own_threads b (rm_threads rm)"
    using threads_frame [OF st(3) other c scoped] active act by (simp add: rm3)
  moreover have "own_queue b (rm_queue rm') = own_queue b (rm_queue rm)"
    using queue_frame [OF st(3) other] by (simp add: rm3)
  moreover have "attempts_shown b m (rm_attempts rm') s"
    using shown attempts_kept [OF st(3)] attempts_frame [OF st(1) other]
    by (intro attempts_shown_frame [OF _ n, of b "rm_attempts rm"]) (simp_all add: displays_def rm3)
  ultimately show ?thesis using shown
    by (simp add: displays_def turns_shown_def threads_shown_def queue_shown_def)
qed

end
