(* ===== verification/Read_Model_References.thy ===== *)
theory Read_Model_References
  imports Read_Model_Steps
begin

text \<open>
  The rows of the read model keep their references: a record whose session has its row, and whose
  project, worktree, chat and source session exist, leaves no row without the row it refers to.
  So the check of the foreign keys refuses no such record.
\<close>

section \<open>Statements\<close>

lemma references_other [simp]:
  "references_hold sj (rm\<lparr>rm_threads := x1\<rparr>) = references_hold sj rm"
  "references_hold sj (rm\<lparr>rm_turns := x2\<rparr>) = references_hold sj rm"
  "references_hold sj (rm\<lparr>rm_attempts := x3\<rparr>) = references_hold sj rm"
  "references_hold sj (rm\<lparr>rm_steps := x4\<rparr>) = references_hold sj rm"
  "references_hold sj (rm\<lparr>rm_delegations := x5\<rparr>) = references_hold sj rm"
  "references_hold sj (rm\<lparr>rm_forks := x6\<rparr>) = references_hold sj rm"
  "references_hold sj (update_turn_row k t f rm) = references_hold sj rm"
  "references_hold sj (upsert_provider_thread k h rm) = references_hold sj rm"
  by (simp_all add: references_hold_def session_refers_def [abs_def] chat_refers_def [abs_def]
      session_row_exists_def [abs_def] chat_row_exists_def [abs_def] update_turn_row_def
      upsert_provider_thread_def Let_def)

lemma references_hold_rows:
  "references_hold sj rm \<longleftrightarrow>
     (\<forall>i \<in> set (rm_inputs rm). session_row_exists rm (ir_sessionId i)) \<and>
     (sj_foreignKeys sj \<longrightarrow>
        (\<forall>r \<in> set (rm_sessions rm). session_refers sj rm r) \<and>
        (\<forall>c \<in> set (rm_chats rm). chat_refers sj rm c) \<and>
        (\<forall>m \<in> set (rm_messages rm). session_row_exists rm (mr_sessionId m)) \<and>
        (\<forall>q \<in> set (rm_queue rm). session_row_exists rm (qr_sessionId q)))"
  by (simp add: references_hold_def list_all_iff)

text \<open>The columns of a session's row, and of a chat's row, that refer to other rows.\<close>

definition session_keys :: "session_row \<Rightarrow> string \<times> string \<times> string option \<times> string \<times> string option" where
  "session_keys r =
     (sr_id r, sr_projectId r, sr_worktreeId r, sr_chatId r, sr_forkedFromSessionId r)"

definition chat_keys :: "chat_row \<Rightarrow> string \<times> string \<times> string option \<times> string option" where
  "chat_keys c = (kr_id c, kr_projectId c, kr_worktreeId c, kr_originSessionId c)"

lemma exists_by_ids:
  "map sr_id (rm_sessions rm') = map sr_id (rm_sessions rm) \<Longrightarrow>
   session_row_exists rm' = session_row_exists rm"
  "map kr_id (rm_chats rm') = map kr_id (rm_chats rm) \<Longrightarrow> chat_row_exists rm' = chat_row_exists rm"
proof -
  show "session_row_exists rm' = session_row_exists rm"
    if "map sr_id (rm_sessions rm') = map sr_id (rm_sessions rm)"
  proof
    fix k
    have "session_row_exists rm' k \<longleftrightarrow> k \<in> set (map sr_id (rm_sessions rm'))"
      "session_row_exists rm k \<longleftrightarrow> k \<in> set (map sr_id (rm_sessions rm))"
      by (auto simp: session_row_exists_def list_ex_iff)
    then show "session_row_exists rm' k = session_row_exists rm k" by (simp only: that)
  qed
  show "chat_row_exists rm' = chat_row_exists rm"
    if "map kr_id (rm_chats rm') = map kr_id (rm_chats rm)"
  proof
    fix k
    have "chat_row_exists rm' k \<longleftrightarrow> k \<in> set (map kr_id (rm_chats rm'))"
      "chat_row_exists rm k \<longleftrightarrow> k \<in> set (map kr_id (rm_chats rm))"
      by (auto simp: chat_row_exists_def list_ex_iff)
    then show "chat_row_exists rm' k = chat_row_exists rm k" by (simp only: that)
  qed
qed

text \<open>A statement that keeps the keys of every row, and may change the active session of chats.\<close>

lemma references_kept_keys:
  assumes "references_hold sj rm"
    and "map session_keys (rm_sessions rm') = map session_keys (rm_sessions rm)"
    and "map chat_keys (rm_chats rm') = map chat_keys (rm_chats rm)"
    and "\<And>c. \<lbrakk>sj_foreignKeys sj; c \<in> set (rm_chats rm')\<rbrakk> \<Longrightarrow> refers (session_row_exists rm) (kr_activeSessionId c)"
    and "\<And>m. \<lbrakk>sj_foreignKeys sj; m \<in> set (rm_messages rm')\<rbrakk> \<Longrightarrow> session_row_exists rm (mr_sessionId m)"
    and "\<And>q. \<lbrakk>sj_foreignKeys sj; q \<in> set (rm_queue rm')\<rbrakk> \<Longrightarrow> session_row_exists rm (qr_sessionId q)"
    and "\<And>i. i \<in> set (rm_inputs rm') \<Longrightarrow> session_row_exists rm (ir_sessionId i)"
  shows "references_hold sj rm'"
proof -
  have "map fst (map session_keys (rm_sessions rm')) = map fst (map session_keys (rm_sessions rm))"
    "map fst (map chat_keys (rm_chats rm')) = map fst (map chat_keys (rm_chats rm))"
    by (simp_all only: assms(2,3))
  then have ids: "session_row_exists rm' = session_row_exists rm" "chat_row_exists rm' = chat_row_exists rm"
    by (intro exists_by_ids; simp add: session_keys_def chat_keys_def comp_def)+
  have "session_refers sj rm' r" if fk: "sj_foreignKeys sj" and r: "r \<in> set (rm_sessions rm')" for r
  proof -
    have "session_keys ` set (rm_sessions rm') = session_keys ` set (rm_sessions rm)"
      using arg_cong [OF assms(2), of set] by simp
    with r have "session_keys r \<in> session_keys ` set (rm_sessions rm)" by (metis imageI)
    then obtain r0 where r0: "r0 \<in> set (rm_sessions rm)" "session_keys r = session_keys r0" by blast
    with assms(1) fk have "session_refers sj rm r0" by (simp add: references_hold_rows)
    with r0(2) show ?thesis by (simp add: session_refers_def session_keys_def ids)
  qed
  moreover have "chat_refers sj rm' c" if fk: "sj_foreignKeys sj" and c: "c \<in> set (rm_chats rm')" for c
  proof -
    have "chat_keys ` set (rm_chats rm') = chat_keys ` set (rm_chats rm)"
      using arg_cong [OF assms(3), of set] by simp
    with c have "chat_keys c \<in> chat_keys ` set (rm_chats rm)" by (metis imageI)
    then obtain c0 where c0: "c0 \<in> set (rm_chats rm)" "chat_keys c = chat_keys c0" by blast
    with assms(1) fk have "chat_refers sj rm c0" by (simp add: references_hold_rows)
    with c0(2) assms(4) [OF fk c] show ?thesis by (simp add: chat_refers_def chat_keys_def ids)
  qed
  ultimately show ?thesis using assms(5-7) by (simp add: references_hold_rows ids)
qed

section \<open>The stages of a record\<close>

lemma map_kept:
  "(\<And>r. g (f r) = g r) \<Longrightarrow> map g (update_where p f rows) = map g rows"
  by (induction rows) auto

lemma session_keys_update [simp]:
  "(\<And>r. session_keys (f r) = session_keys r) \<Longrightarrow>
   map session_keys (rm_sessions (update_session sid f rm)) = map session_keys (rm_sessions rm)"
  by (simp add: update_session_def map_kept)

lemma step_only:
  "project_execution_step dec ov record rm = Inr rm' \<Longrightarrow> \<exists>rows. rm' = rm\<lparr>rm_steps := rows\<rparr>"
proof -
  have same: "\<exists>rows. rm = rm\<lparr>rm_steps := rows\<rparr>" by (rule exI [of _ "rm_steps rm"]) simp
  show "project_execution_step dec ov record rm = Inr rm' \<Longrightarrow> \<exists>rows. rm' = rm\<lparr>rm_steps := rows\<rparr>"
    using same
    by (cases "se_event record")
      (auto simp: project_execution_step_def project_step_message_def close_steps_def and_then_Inr Let_def
        split: option.splits if_splits)
qed

text \<open>The sessions that the rows of the inputs belong to.\<close>

lemma upsert_sessions:
  "\<lbrakk>\<And>r. ir_sessionId (f r) = ir_sessionId r; ir_sessionId row = sid\<rbrakk> \<Longrightarrow>
   ir_sessionId ` set (upsert same p f row rows) \<subseteq> insert sid (ir_sessionId ` set rows)"
  by (auto simp: upsert_def update_where_def)

lemma update_sessions:
  "(\<And>r. ir_sessionId (f r) = ir_sessionId r) \<Longrightarrow>
   ir_sessionId ` set (update_where p f rows) = ir_sessionId ` set rows"
proof -
  assume f: "\<And>r. ir_sessionId (f r) = ir_sessionId r"
  have "map ir_sessionId (update_where p f rows) = map ir_sessionId rows" by (rule map_kept) (rule f)
  then show ?thesis by (metis list.set_map)
qed

lemma request_sessions:
  "ir_sessionId ` set (request_input sid seq kind key json tm turn owner rows) \<subseteq>
     insert sid (ir_sessionId ` set rows)"
proof (cases "date_valid tm")
  case True
  then show ?thesis by (simp only: request_input_def, simp) (rule upsert_sessions; simp)
next
  case False
  then show ?thesis by (simp add: request_input_def subset_insertI)
qed

lemma resolve_sessions:
  "ir_sessionId ` set (resolve_input sid seq kind key st rows) \<subseteq> insert sid (ir_sessionId ` set rows)"
  unfolding resolve_input_def by (rule upsert_sessions) simp_all

lemma input_sessions:
  "ir_sessionId ` set (project_inputs dec sj record messages rows) \<subseteq>
     insert (se_streamId record) (ir_sessionId ` set rows)"
proof -
  note req = request_sessions [of "se_streamId record"] and res = resolve_sessions [of "se_streamId record"]
  have content: "ir_sessionId ` set (project_input_content sj (se_streamId record) seq m c messages rows) \<subseteq>
      insert (se_streamId record) (ir_sessionId ` set rows)" for seq m c
    using req res by (cases c) (simp_all add: project_input_content_def update_sessions subset_insertI)
  have del: "ir_sessionId ` set (delete_where p rows) \<subseteq> insert (se_streamId record) (ir_sessionId ` set rows)" for p
    by (auto simp: delete_where_def)
  show ?thesis
    using req res content del
    by (cases "se_event record")
      (simp_all add: project_inputs_def await_dismissal_def Let_def update_sessions subset_insertI split: option.split)
qed

lemma created_inputs:
  "se_event record = SessionCreated c \<Longrightarrow> project_inputs dec sj record messages rows = rows"
  by (simp add: project_inputs_def)

section \<open>The statements of an event\<close>

fun key_event :: "session_event \<Rightarrow> bool" where
  "key_event (SessionCreated c) = True"
| "key_event (SessionWorktreeSet w tm) = True"
| "key_event (SessionDeleted tm) = True"
| "key_event e = False"

lemma session_keys_helpers [simp]:
  "map session_keys (rm_sessions (set_active_provider_thread k h tm rm)) = map session_keys (rm_sessions rm)"
  "map session_keys (rm_sessions (touch_session k tm rm)) = map session_keys (rm_sessions rm)"
  "map session_keys (rm_sessions (retire_active_thread_row k tm rm)) = map session_keys (rm_sessions rm)"
  "map session_keys (rm_sessions (bind_legacy_resume_row k n h' tm rm)) = map session_keys (rm_sessions rm)"
proof -
  have act: "map session_keys (rm_sessions (set_active_provider_thread k h tm rm)) =
      map session_keys (rm_sessions rm)" for h tm rm
    unfolding set_active_provider_thread_def by (rule session_keys_update) (simp add: session_keys_def)
  then show "map session_keys (rm_sessions (set_active_provider_thread k h tm rm)) =
      map session_keys (rm_sessions rm)" .
  show "map session_keys (rm_sessions (touch_session k tm rm)) = map session_keys (rm_sessions rm)"
    unfolding touch_session_def by (rule session_keys_update) (simp add: session_keys_def)
  show "map session_keys (rm_sessions (retire_active_thread_row k tm rm)) = map session_keys (rm_sessions rm)"
    by (simp add: retire_active_thread_row_def act)
  show "map session_keys (rm_sessions (bind_legacy_resume_row k n h' tm rm)) = map session_keys (rm_sessions rm)"
    by (simp add: bind_legacy_resume_row_def Let_def act split: option.split)
qed

lemma keys_event:
  assumes "project_event dec sj record rm e = Inr rm'" "\<not> key_event e"
  shows "map session_keys (rm_sessions rm') = map session_keys (rm_sessions rm)"
proof (cases e)
  case (MessagePersisted m)
  with assms(1) have "project_MessagePersisted dec sj record m rm = Inr rm'" by simp
  from message_tables(6) [OF this] show ?thesis by (auto simp: session_keys_def intro!: map_kept [of session_keys])
qed (use assms in \<open>auto simp: project_SessionProviderSet_def project_SessionStatusSet_def
    project_SessionArchived_def project_SessionUnarchived_def project_QueuedTurnEnqueued_def
    project_QueuedTurnsReordered_def project_TurnStarted_def project_AttemptStarted_def project_phase_def
    project_TurnsRolledBack_def project_TurnFinalizationRequested_def project_TurnSettled_def
    and_then_Inr Let_def session_keys_def split: option.splits if_splits\<close>)

text \<open>The rows of the chats: their active session may change to one that has its row.\<close>

definition chats_ok :: "(string \<Rightarrow> bool) \<Rightarrow> chat_row list \<Rightarrow> chat_row list \<Rightarrow> bool" where
  "chats_ok has_row rows rows' \<longleftrightarrow>
     map chat_keys rows' = map chat_keys rows \<and>
     (\<forall>c \<in> set rows'. kr_activeSessionId c \<in> kr_activeSessionId ` set rows \<or>
        refers has_row (kr_activeSessionId c))"

lemma chats_ok_refl [simp]: "chats_ok has_row rows rows"
  by (simp add: chats_ok_def)

lemma chats_ok_update:
  assumes "chats_ok has_row rows0 rows"
    and "\<And>c. \<lbrakk>c \<in> set rows; p c\<rbrakk> \<Longrightarrow> chat_keys (f c) = chat_keys c \<and>
      (kr_activeSessionId (f c) = kr_activeSessionId c \<or> refers has_row (kr_activeSessionId (f c)))"
  shows "chats_ok has_row rows0 (update_where p f rows)"
proof -
  have "map chat_keys (update_where p f rows) = map chat_keys rows"
    by (rule map_update_where) (simp add: assms(2))
  moreover have "kr_activeSessionId c \<in> kr_activeSessionId ` set rows0 \<or> refers has_row (kr_activeSessionId c)"
    if c: "c \<in> set (update_where p f rows)" for c
  proof -
    from c obtain c0 where c0: "c0 \<in> set rows" "c = (if p c0 then f c0 else c0)"
      by (auto simp: update_where_def)
    have old: "kr_activeSessionId c0 \<in> kr_activeSessionId ` set rows0 \<or> refers has_row (kr_activeSessionId c0)"
      using assms(1) c0(1) by (simp add: chats_ok_def)
    show ?thesis
    proof (cases "p c0")
      case True
      with assms(2) [OF c0(1)] old c0(2) show ?thesis by auto
    next
      case False
      with old c0(2) show ?thesis by simp
    qed
  qed
  ultimately show ?thesis using assms(1) by (simp add: chats_ok_def)
qed

lemma chats_ok_recency [intro]:
  "chats_ok has_row rows (rm_chats rm) \<Longrightarrow> chats_ok has_row rows (rm_chats (update_chat_last_message tg m rm))"
  "chats_ok has_row rows (rm_chats rm) \<Longrightarrow>
   chats_ok has_row rows (rm_chats (update_chat_last_user_message k tm rm))"
  by (auto simp: update_chat_last_message_def update_chat_last_user_message_def chat_keys_def
      split: last_message_target.split intro!: chats_ok_update)

lemma first_session_in: "first_session rows = Some r \<Longrightarrow> r \<in> set rows"
proof -
  have "fold (\<lambda>x best. if newer_session x best then x else best) xs r \<in> insert r (set xs)" for xs r
    by (induction xs arbitrary: r) auto
  then show "first_session rows = Some r \<Longrightarrow> r \<in> set rows"
    by (auto simp: first_session_def split: list.splits)
qed

lemma chats_ok_replace:
  assumes "chats_ok has_row rows (rm_chats rm)" and e: "has_row = session_row_exists rm"
  shows "chats_ok has_row rows (rm_chats (replace_unavailable_active_session sid tm rm))"
proof -
  have "refers has_row (map_option sr_id (first_session (filter P (rm_sessions rm))))" for P
  proof (cases "first_session (filter P (rm_sessions rm))")
    case (Some r)
    with first_session_in [OF Some] show ?thesis
      by (auto simp: refers_def e session_row_exists_def list_ex_iff)
  qed (simp add: refers_def)
  with assms(1) show ?thesis
    by (auto simp: replace_unavailable_active_session_def chat_keys_def intro!: chats_ok_update)
qed

lemma no_chats [simp]:
  "rm_chats (set_active_provider_thread k h tm rm) = rm_chats rm"
  "rm_chats (touch_session k tm rm) = rm_chats rm"
  "rm_chats (retire_active_thread_row k tm rm) = rm_chats rm"
  "rm_chats (upsert_provider_thread k th rm) = rm_chats rm"
  "rm_chats (bind_legacy_resume_row k n h' tm rm) = rm_chats rm"
  "rm_chats (update_turn_row k t f rm) = rm_chats rm"
  "rm_chats (update_queue_row k q g rm) = rm_chats rm"
  "rm_chats (remove_queue_row k q rm) = rm_chats rm"
  "rm_chats (fold (\<lambda>(p, q). update_queue_row k q (gg p)) xs rm) = rm_chats rm"
proof -
  show r: "rm_chats (set_active_provider_thread k h tm rm) = rm_chats rm" for h rm
    by (simp add: set_active_provider_thread_def)
  show u: "rm_chats (upsert_provider_thread k th rm) = rm_chats rm" for th
    by (simp add: upsert_provider_thread_def Let_def)
  show "rm_chats (retire_active_thread_row k tm rm) = rm_chats rm"
    by (simp add: retire_active_thread_row_def r)
  show "rm_chats (bind_legacy_resume_row k n h' tm rm) = rm_chats rm"
    by (simp add: bind_legacy_resume_row_def Let_def r u split: option.split)
  have q: "rm_chats (update_queue_row k q g rm) = rm_chats rm" for q g rm
    by (simp add: update_queue_row_def)
  then show "rm_chats (update_queue_row k q g rm) = rm_chats rm" .
  show "rm_chats (fold (\<lambda>(p, q). update_queue_row k q (gg p)) xs rm) = rm_chats rm"
    by (induction xs arbitrary: rm) (auto simp: q)
qed (simp_all add: touch_session_def update_turn_row_def remove_queue_row_def)

lemma chats_event:
  assumes p: "project_event dec sj record rm e = Inr rm'" and "\<not> key_event e"
    and row: "session_row_exists rm (se_streamId record)"
  shows "chats_ok (session_row_exists rm) (rm_chats rm) (rm_chats rm')"
proof (cases e)
  case (MessagePersisted m)
  let ?stored = "rm\<lparr>rm_messages := upsert_message (se_streamId record) (se_sequence record) m (rm_messages rm)\<rparr>"
  have committed: "rm_chats (project_committed_message_input dec sj record ?stored) = rm_chats rm"
    by (simp add: project_committed_message_input_def project_session_input_def
        split: session_event.split option.split)
  from p MessagePersisted obtain rm1 where rm1:
    "project_execution_step dec None record (project_committed_message_input dec sj record ?stored) = Inr rm1"
    and rm': "rm' = (let touched = update_chat_last_message (TargetSession (se_streamId record))
                 (Some (mf_createdAt m)) (touch_session (se_streamId record) (mf_createdAt m) rm1) in
         if mf_role m = ''user''
         then update_chat_last_user_message (se_streamId record) (mf_createdAt m) touched else touched)"
    by (auto simp: project_MessagePersisted_def and_then_Inr Let_def)
  from step_only [OF rm1] committed have "rm_chats rm1 = rm_chats rm" by auto
  then show ?thesis by (auto simp: rm' Let_def intro!: chats_ok_recency)
next
  case (SessionArchived tm)
  let ?rm1 = "update_session (se_streamId record) (\<lambda>r. r\<lparr>sr_archivedAt := Some tm,
      sr_providerReservationId := None, sr_updatedAt := tm\<rparr>) rm"
  have "session_row_exists rm = session_row_exists ?rm1"
    by (intro exists_by_ids(1) [symmetric]) (simp add: update_session_def map_kept)
  with p SessionArchived show ?thesis
    by (auto simp: project_SessionArchived_def intro!: chats_ok_replace)
next
  case (SessionUnarchived tm)
  with p row show ?thesis
    by (auto simp: project_SessionUnarchived_def Let_def chat_keys_def refers_def intro!: chats_ok_update)
qed (use assms in \<open>auto simp: project_SessionProviderSet_def project_SessionStatusSet_def
    project_QueuedTurnEnqueued_def project_QueuedTurnsReordered_def project_TurnStarted_def
    project_AttemptStarted_def project_phase_def project_TurnsRolledBack_def
    project_TurnFinalizationRequested_def project_TurnSettled_def and_then_Inr Let_def
    intro!: chats_ok_recency split: option.splits if_splits\<close>)

text \<open>The sessions of messages, queue items and inputs.\<close>

lemma other_rows [simp]:
  "rm_messages (set_active_provider_thread k h tm rm) = rm_messages rm"
  "rm_inputs (set_active_provider_thread k h tm rm) = rm_inputs rm"
  "rm_messages (touch_session k tm rm) = rm_messages rm"
  "rm_inputs (touch_session k tm rm) = rm_inputs rm"
  "rm_messages (upsert_provider_thread k th rm) = rm_messages rm"
  "rm_inputs (upsert_provider_thread k th rm) = rm_inputs rm"
  "rm_messages (update_turn_row k t f rm) = rm_messages rm"
  "rm_inputs (update_turn_row k t f rm) = rm_inputs rm"
  "rm_messages (update_queue_row k q g rm) = rm_messages rm"
  "rm_inputs (update_queue_row k q g rm) = rm_inputs rm"
  "rm_messages (remove_queue_row k q rm) = rm_messages rm"
  "rm_inputs (remove_queue_row k q rm) = rm_inputs rm"
  "rm_messages (update_chat_last_message tg tm' rm) = rm_messages rm"
  "rm_inputs (update_chat_last_message tg tm' rm) = rm_inputs rm"
  "rm_messages (update_chat_last_user_message k tm rm) = rm_messages rm"
  "rm_inputs (update_chat_last_user_message k tm rm) = rm_inputs rm"
  "rm_messages (replace_unavailable_active_session k tm rm) = rm_messages rm"
  "rm_inputs (replace_unavailable_active_session k tm rm) = rm_inputs rm"
  by (simp_all add: set_active_provider_thread_def touch_session_def upsert_provider_thread_def
      update_turn_row_def update_queue_row_def remove_queue_row_def update_chat_last_message_def
      update_chat_last_user_message_def replace_unavailable_active_session_def Let_def
      split: last_message_target.split)

lemma other_rows_bound [simp]:
  "rm_messages (retire_active_thread_row k tm rm) = rm_messages rm"
  "rm_inputs (retire_active_thread_row k tm rm) = rm_inputs rm"
  "rm_messages (bind_legacy_resume_row k n h' tm rm) = rm_messages rm"
  "rm_inputs (bind_legacy_resume_row k n h' tm rm) = rm_inputs rm"
  "rm_messages (fold (\<lambda>(p, q). update_queue_row k q (gg p)) xs rm) = rm_messages rm"
  "rm_inputs (fold (\<lambda>(p, q). update_queue_row k q (gg p)) xs rm) = rm_inputs rm"
proof -
  show "rm_messages (fold (\<lambda>(p, q). update_queue_row k q (gg p)) xs rm) = rm_messages rm"
    by (induction xs arbitrary: rm) auto
  show "rm_inputs (fold (\<lambda>(p, q). update_queue_row k q (gg p)) xs rm) = rm_inputs rm"
    by (induction xs arbitrary: rm) auto
qed (simp_all add: retire_active_thread_row_def bind_legacy_resume_row_def Let_def split: option.split)

lemma stored_sessions:
  "mr_sessionId ` set (upsert_message sid seq m rows) \<subseteq> insert sid (mr_sessionId ` set rows)"
  by (auto simp: upsert_message_def upsert_def update_where_def Let_def)

lemma rest_event:
  assumes p: "project_event dec sj record rm e = Inr rm'" and k: "\<not> key_event e"
    and e: "se_event record = e"
  shows "mr_sessionId ` set (rm_messages rm') \<subseteq> insert (se_streamId record) (mr_sessionId ` set (rm_messages rm))"
    "ir_sessionId ` set (rm_inputs rm') \<subseteq> insert (se_streamId record) (ir_sessionId ` set (rm_inputs rm))"
proof -
  let ?sid = "se_streamId record"
  have "mr_sessionId ` set (rm_messages rm') \<subseteq> insert ?sid (mr_sessionId ` set (rm_messages rm)) \<and>
    ir_sessionId ` set (rm_inputs rm') \<subseteq> insert ?sid (ir_sessionId ` set (rm_inputs rm))"
  proof (cases e)
    case (MessagePersisted m)
    let ?stored = "rm\<lparr>rm_messages := upsert_message ?sid (se_sequence record) m (rm_messages rm)\<rparr>"
    let ?in = "project_committed_message_input dec sj record ?stored"
    have m: "rm_messages ?in = rm_messages ?stored"
      by (simp add: project_committed_message_input_def project_session_input_def
          split: session_event.split option.split)
    have i: "ir_sessionId ` set (rm_inputs ?in) \<subseteq> insert ?sid (ir_sessionId ` set (rm_inputs rm))"
    proof (cases "find (\<lambda>r. mr_id r = mf_messageId m \<and> mr_sessionId r = ?sid) (rm_messages ?stored)")
      case None
      then show ?thesis
        by (simp add: project_committed_message_input_def e MessagePersisted subset_insertI)
    next
      case (Some row)
      show ?thesis
        using input_sessions [of dec sj "record\<lparr>se_sequence := mr_sequence row, se_event :=
            MessagePersisted (m\<lparr>mf_contentJson := mr_contentJson row, mf_kind := mr_kind row,
              mf_createdAt := mr_createdAt row\<rparr>)\<rparr>" "rm_messages ?stored" "rm_inputs rm"] Some
        by (simp add: project_committed_message_input_def project_session_input_def e MessagePersisted
            subset_insertI)
    qed
    from p MessagePersisted obtain rm1 where rm1: "project_execution_step dec None record ?in = Inr rm1"
      and rm': "rm' = (let touched = update_chat_last_message (TargetSession ?sid)
                   (Some (mf_createdAt m)) (touch_session ?sid (mf_createdAt m) rm1) in
           if mf_role m = ''user''
           then update_chat_last_user_message ?sid (mf_createdAt m) touched else touched)"
      by (auto simp: project_MessagePersisted_def and_then_Inr Let_def)
    from step_only [OF rm1] have "rm_messages rm1 = rm_messages ?stored" "rm_inputs rm1 = rm_inputs ?in"
      using m by auto
    then show ?thesis using i stored_sessions [of ?sid "se_sequence record" m "rm_messages rm"]
      by (simp add: rm' Let_def)
  next
    case (TurnsRolledBack x)
    from p TurnsRolledBack have rm': "rm' = project_TurnsRolledBack ?sid x rm" by simp
    have "\<exists>q. rm_messages rm' = delete_where q (rm_messages rm)"
      "\<exists>q q'. rm_inputs rm' = update_where q (\<lambda>r. r\<lparr>ir_status := InputExpired, ir_awaitingDismissal := 0\<rparr>)
         (delete_where q' (rm_inputs rm))"
      by (auto simp: rm' project_TurnsRolledBack_def Let_def split: option.split)
    then obtain q q1 q2 where "rm_messages rm' = delete_where q (rm_messages rm)"
      and "rm_inputs rm' = update_where q1 (\<lambda>r. r\<lparr>ir_status := InputExpired, ir_awaitingDismissal := 0\<rparr>)
         (delete_where q2 (rm_inputs rm))" by blast
    moreover from this(2) have "ir_sessionId ` set (rm_inputs rm') = ir_sessionId ` set (delete_where q2 (rm_inputs rm))"
      using update_sessions [of "\<lambda>r. r\<lparr>ir_status := InputExpired, ir_awaitingDismissal := 0\<rparr>"] by simp
    ultimately show ?thesis by (auto simp: delete_where_def)
  qed (use p k in \<open>auto simp: project_SessionProviderSet_def project_SessionStatusSet_def
    project_SessionArchived_def project_SessionUnarchived_def
    project_QueuedTurnEnqueued_def project_QueuedTurnsReordered_def project_TurnStarted_def
    project_AttemptStarted_def project_phase_def
    project_TurnFinalizationRequested_def project_TurnSettled_def and_then_Inr Let_def
    split: option.splits if_splits\<close>)
  then show "mr_sessionId ` set (rm_messages rm') \<subseteq> insert ?sid (mr_sessionId ` set (rm_messages rm))"
    "ir_sessionId ` set (rm_inputs rm') \<subseteq> insert ?sid (ir_sessionId ` set (rm_inputs rm))"
    by blast+
qed

lemma queue_sessions:
  assumes p: "project_event dec sj record rm e = Inr rm'" and k: "\<not> key_event e"
  shows "qr_sessionId ` set (rm_queue rm') \<subseteq> insert (se_streamId record) (qr_sessionId ` set (rm_queue rm))"
proof (cases "queue_event e")
  case False
  with queue_untouched [OF p] show ?thesis by auto
next
  case True
  have upd: "qr_sessionId ` set (update_where q f rows) = qr_sessionId ` set rows"
    if f: "\<And>r. qr_sessionId (f r) = qr_sessionId r" for q f rows
  proof -
    have "map qr_sessionId (update_where q f rows) = map qr_sessionId rows" by (rule map_kept) (rule f)
    then show ?thesis by (metis list.set_map)
  qed
  have reorder: "qr_sessionId ` set (rm_queue (fold (\<lambda>(p, q). update_queue_row sid q
      (\<lambda>r. r\<lparr>qr_queueOrder := int p, qr_updatedAt := tm\<rparr>)) xs rm)) = qr_sessionId ` set (rm_queue rm)"
    for sid tm xs
  proof (induction xs arbitrary: rm)
    case (Cons x xs)
    then show ?case by (simp add: split_def) (simp add: update_queue_row_def upd)
  qed simp
  from True show ?thesis
  proof (cases e)
    case (QueuedTurnEnqueued q)
    with p have "rm' = project_QueuedTurnEnqueued (se_streamId record) q rm" by simp
    then show ?thesis by (auto simp: project_QueuedTurnEnqueued_def insert_or_ignore_def)
  next
    case (QueuedTurnUpdated key i tm ready)
    with p have "rm' = update_queue_row (se_streamId record) key
        (\<lambda>r. r\<lparr>qr_inputJson := i, qr_updatedAt := tm, qr_ready := ready\<rparr>) rm" by simp
    then show ?thesis by (simp add: update_queue_row_def upd subset_insertI)
  next
    case (QueuedTurnsReordered ids tm)
    with p have "rm' = project_QueuedTurnsReordered (se_streamId record) ids tm rm" by simp
    then show ?thesis by (simp only: project_QueuedTurnsReordered_def reorder subset_insertI)
  qed (use p k in \<open>auto simp: remove_queue_row_def delete_where_def\<close>)
qed

section \<open>A record keeps the references\<close>

lemma references_event:
  assumes rm: "references_hold sj rm" and p: "project_event dec sj record rm e = Inr rm'"
    and k: "\<not> key_event e" and e: "se_event record = e" and row: "session_row_exists rm (se_streamId record)"
  shows "references_hold sj rm'"
proof (rule references_kept_keys [OF rm keys_event [OF p k]])
  let ?E = "session_row_exists rm"
  from chats_event [OF p k row] have c: "chats_ok ?E (rm_chats rm) (rm_chats rm')" .
  then show "map chat_keys (rm_chats rm') = map chat_keys (rm_chats rm)" by (simp add: chats_ok_def)
  show "refers ?E (kr_activeSessionId c)" if "sj_foreignKeys sj" "c \<in> set (rm_chats rm')" for c
    using that rm c by (auto simp: chats_ok_def references_hold_rows chat_refers_def)
  show "?E (mr_sessionId m)" if "sj_foreignKeys sj" "m \<in> set (rm_messages rm')" for m
    using that rm row rest_event(1) [OF p k e] by (auto simp: references_hold_rows)
  show "?E (qr_sessionId q)" if "sj_foreignKeys sj" "q \<in> set (rm_queue rm')" for q
    using that rm row queue_sessions [OF p k] by (auto simp: references_hold_rows)
  show "?E (ir_sessionId i)" if "i \<in> set (rm_inputs rm')" for i
    using that rm row rest_event(2) [OF p k e] by (auto simp: references_hold_rows)
qed

text \<open>The project, worktree, chat and source session that an event names.\<close>

definition event_refers :: "sqlite_json \<Rightarrow> read_model \<Rightarrow> session_event \<Rightarrow> bool" where
  "event_refers sj rm e \<longleftrightarrow>
     (sj_foreignKeys sj \<longrightarrow>
        (case e of
           SessionCreated c \<Rightarrow>
             sj_project sj (sc_projectId c) \<and> refers (sj_worktree sj) (or_null (sc_worktreeId c)) \<and>
             chat_row_exists rm (sc_chatId c) \<and>
             refers (session_row_exists rm) (or_null (sc_forkedFromSessionId c))
         | SessionWorktreeSet w tm \<Rightarrow> refers (sj_worktree sj) w
         | _ \<Rightarrow> True))"

lemma references_created:
  assumes rm: "references_hold sj rm" and p: "project_SessionCreated eid c rm = Inr rm'"
    and refs: "event_refers sj rm (SessionCreated c)"
  shows "references_hold sj rm'"
proof -
  let ?rm1 = "with_created_rows c rm"
  have complete: "missing_created_field c = None"
    using p by (cases "missing_created_field c") (simp_all add: project_SessionCreated_def)
  have ids: "chat_row_exists ?rm1 = chat_row_exists rm"
    by (rule exists_by_ids(2)) (simp add: with_created_rows_def map_kept)
  have grows: "session_row_exists ?rm1 k" if "session_row_exists rm k" for k
    using that by (auto simp: session_row_exists_def with_created_rows_def insert_or_ignore_def)
  have own: "session_row_exists ?rm1 (sc_sessionId c)"
    by (auto simp: session_row_exists_def with_created_rows_def insert_or_ignore_def created_session_row_def)
  have up: "refers (session_row_exists ?rm1) key" if "refers (session_row_exists rm) key" for key
    using that grows by (cases key) (simp_all add: refers_def)
  have "session_refers sj ?rm1 r" if fk: "sj_foreignKeys sj" and r: "r \<in> set (rm_sessions ?rm1)" for r
  proof -
    from r have "r \<in> set (rm_sessions rm) \<or> r = created_session_row c"
      by (auto simp: with_created_rows_def insert_or_ignore_def split: if_splits)
    then show ?thesis
    proof
      assume "r \<in> set (rm_sessions rm)"
      with rm fk have "session_refers sj rm r" by (simp add: references_hold_rows)
      then show ?thesis using up by (simp add: session_refers_def ids)
    next
      assume "r = created_session_row c"
      with refs fk up show ?thesis
        by (simp add: session_refers_def created_session_row_def event_refers_def ids)
    qed
  qed
  moreover have "chat_refers sj ?rm1 x" if fk: "sj_foreignKeys sj" and x: "x \<in> set (rm_chats ?rm1)" for x
  proof -
    from x obtain x0 where x0: "x0 \<in> set (rm_chats rm)" "x = x0 \<or> x = x0\<lparr>kr_activeSessionId := Some (sc_sessionId c),
        kr_updatedAt := sc_createdAt c\<rparr>"
      by (auto simp: with_created_rows_def update_where_def)
    with rm fk have "chat_refers sj rm x0" by (simp add: references_hold_rows)
    with x0(2) up own show ?thesis by (auto simp: chat_refers_def) (auto simp: refers_def)
  qed
  moreover have "rm_messages ?rm1 = rm_messages rm" "rm_queue ?rm1 = rm_queue rm" "rm_inputs ?rm1 = rm_inputs rm"
    by (simp_all add: with_created_rows_def)
  ultimately have one: "references_hold sj ?rm1"
    using rm grows by (simp add: references_hold_rows)
  show ?thesis
  proof (cases "or_null (sc_cursor c)")
    case None
    with p complete one show ?thesis by (simp add: project_SessionCreated_rows)
  next
    case (Some cursor)
    with p complete have rm': "rm' = bind_legacy_resume_row (sc_sessionId c) cursor (Some None) (sc_createdAt c) ?rm1"
      by (simp add: project_SessionCreated_rows)
    show ?thesis unfolding rm'
      by (rule references_kept_keys [OF one]) (use one in \<open>auto simp: references_hold_rows chat_refers_def\<close>)
  qed
qed

lemma references_worktree:
  assumes rm: "references_hold sj rm" and w: "sj_foreignKeys sj \<Longrightarrow> refers (sj_worktree sj) w"
  shows "references_hold sj (project_SessionWorktreeSet sid w tm rm)"
proof -
  let ?f = "\<lambda>r. r\<lparr>sr_providerReservationId :=
      (if sr_worktreeId r = w then sr_providerReservationId r else None),
      sr_worktreeId := w, sr_updatedAt := tm\<rparr>"
  have upd: "references_hold sj (update_session sid ?f rm1)" if one: "references_hold sj rm1" for rm1
  proof -
    have ids: "session_row_exists (update_session sid ?f rm1) = session_row_exists rm1"
      "chat_row_exists (update_session sid ?f rm1) = chat_row_exists rm1"
      by (intro exists_by_ids; simp add: update_session_def map_kept)+
    have "session_refers sj (update_session sid ?f rm1) r"
      if fk: "sj_foreignKeys sj" and r: "r \<in> set (rm_sessions (update_session sid ?f rm1))" for r
    proof -
      from r obtain r0 where r0: "r0 \<in> set (rm_sessions rm1)" "r = r0 \<or> r = ?f r0"
        by (auto simp: update_session_def update_where_def)
      with one fk have "session_refers sj rm1 r0" by (simp add: references_hold_rows)
      with r0(2) w [OF fk] show ?thesis by (auto simp: session_refers_def ids)
    qed
    with one show ?thesis by (simp add: references_hold_rows ids chat_refers_def)
  qed
  have "references_hold sj (retire_active_thread_row sid tm rm)"
    by (rule references_kept_keys [OF rm]) (use rm in \<open>auto simp: references_hold_rows chat_refers_def\<close>)
  with rm have "references_hold sj (case find_session rm sid of None \<Rightarrow> rm
      | Some row \<Rightarrow> if sr_worktreeId row \<noteq> w then retire_active_thread_row sid tm rm else rm)"
    by (simp split: option.split)
  from upd [OF this] show ?thesis by (simp only: project_SessionWorktreeSet_def Let_def)
qed

lemma references_deleted:
  assumes rm: "references_hold sj rm"
  shows "references_hold sj (delete_sessions sj (\<lambda>r. sr_id r = sid) rm)"
proof -
  let ?rm = "delete_sessions sj (\<lambda>r. sr_id r = sid) rm"
  define gone where "gone = set (map sr_id (filter (\<lambda>r. sr_id r = sid) (rm_sessions rm)))"
  have ids: "session_row_exists ?rm k \<longleftrightarrow> session_row_exists rm k \<and> k \<notin> gone" for k
  proof -
    let ?kept = "delete_where (\<lambda>r. sr_id r = sid) (rm_sessions rm)"
    have "map sr_id (rm_sessions ?rm) = map sr_id ?kept"
      by (simp add: delete_sessions_def Let_def map_kept)
    then have "set (map sr_id (rm_sessions ?rm)) = set (map sr_id ?kept)" by (simp only:)
    then have "sr_id ` set (rm_sessions ?rm) = sr_id ` set ?kept" by simp
    moreover have "session_row_exists ?rm k \<longleftrightarrow> k \<in> sr_id ` set (rm_sessions ?rm)"
      "session_row_exists rm k \<longleftrightarrow> k \<in> sr_id ` set (rm_sessions rm)"
      by (auto simp: session_row_exists_def list_ex_iff)
    ultimately show ?thesis by (auto simp: delete_where_def gone_def)
  qed
  have inputs: "rm_inputs ?rm = delete_where (\<lambda>i. ir_sessionId i \<in> gone) (rm_inputs rm)"
    by (simp add: delete_sessions_def Let_def gone_def)
  have "session_row_exists ?rm (ir_sessionId i)" if "i \<in> set (rm_inputs ?rm)" for i
    using that rm ids by (auto simp: inputs references_hold_rows delete_where_def)
  moreover have "(\<forall>r \<in> set (rm_sessions ?rm). session_refers sj ?rm r) \<and>
      (\<forall>c \<in> set (rm_chats ?rm). chat_refers sj ?rm c) \<and>
      (\<forall>m \<in> set (rm_messages ?rm). session_row_exists ?rm (mr_sessionId m)) \<and>
      (\<forall>q \<in> set (rm_queue ?rm). session_row_exists ?rm (qr_sessionId q))"
    if fk: "sj_foreignKeys sj"
  proof (intro conjI ballI)
    have rows: "rm_sessions ?rm = update_where (\<lambda>r. sr_forkedFromSessionId r \<in> Some ` gone)
        (\<lambda>r. r\<lparr>sr_forkedFromSessionId := None\<rparr>) (delete_where (\<lambda>r. sr_id r = sid) (rm_sessions rm))"
      "rm_chats ?rm = update_where (\<lambda>c. kr_originSessionId c \<in> Some ` gone) (\<lambda>c. c\<lparr>kr_originSessionId := None\<rparr>)
        (update_where (\<lambda>c. kr_activeSessionId c \<in> Some ` gone) (\<lambda>c. c\<lparr>kr_activeSessionId := None\<rparr>)
          (rm_chats rm))"
      "rm_messages ?rm = delete_where (\<lambda>m. mr_sessionId m \<in> gone) (rm_messages rm)"
      "rm_queue ?rm = delete_where (\<lambda>q. qr_sessionId q \<in> gone) (rm_queue rm)"
      using fk by (simp_all add: delete_sessions_def Let_def gone_def)
    have chats: "chat_row_exists ?rm = chat_row_exists rm"
      by (rule exists_by_ids(2)) (simp add: rows map_kept)
    have left: "refers (session_row_exists ?rm) key"
      if "refers (session_row_exists rm) key" "key \<notin> Some ` gone" for key
      using that ids by (cases key) (auto simp: refers_def)
    show "session_refers sj ?rm r" if r: "r \<in> set (rm_sessions ?rm)" for r
    proof -
      from r obtain r0 where r0: "r0 \<in> set (rm_sessions rm)"
        "r = (if sr_forkedFromSessionId r0 \<in> Some ` gone then r0\<lparr>sr_forkedFromSessionId := None\<rparr> else r0)"
        unfolding rows(1) by (auto simp: update_where_def delete_where_def)
      with rm fk have "session_refers sj rm r0" by (simp add: references_hold_rows)
      then show ?thesis using left r0(2)
        by (cases "sr_forkedFromSessionId r0 \<in> Some ` gone")
          (simp_all add: session_refers_def chats refers_def [of _ None])
    qed
    show "chat_refers sj ?rm c" if c: "c \<in> set (rm_chats ?rm)" for c
    proof -
      let ?off = "\<lambda>key. if key \<in> Some ` gone then None else key"
      from c obtain c0 where c0: "c0 \<in> set (rm_chats rm)" "kr_projectId c = kr_projectId c0"
        "kr_worktreeId c = kr_worktreeId c0" "kr_activeSessionId c = ?off (kr_activeSessionId c0)"
        "kr_originSessionId c = ?off (kr_originSessionId c0)"
        unfolding rows(2) update_where_def set_map image_image by (force split: if_splits)
      with rm fk have "chat_refers sj rm c0" by (simp add: references_hold_rows)
      moreover have "refers (session_row_exists ?rm) (?off key)" if "refers (session_row_exists rm) key" for key
        using left [OF that] by (simp add: refers_def [of _ None])
      ultimately show ?thesis unfolding chat_refers_def c0(2-5) by blast
    qed
    show "session_row_exists ?rm (mr_sessionId m)" if "m \<in> set (rm_messages ?rm)" for m
      using that rm fk ids unfolding rows(3) by (auto simp: references_hold_rows delete_where_def)
    show "session_row_exists ?rm (qr_sessionId q)" if "q \<in> set (rm_queue ?rm)" for q
      using that rm fk ids unfolding rows(4) by (auto simp: references_hold_rows delete_where_def)
  qed
  ultimately show ?thesis by (simp add: references_hold_rows)
qed

lemma references_replaced:
  assumes rm: "references_hold sj rm"
  shows "references_hold sj (replace_unavailable_active_session sid tm rm)"
proof (rule references_kept_keys [OF rm])
  have c: "chats_ok (session_row_exists rm) (rm_chats rm) (rm_chats (replace_unavailable_active_session sid tm rm))"
    by (rule chats_ok_replace) simp_all
  then show "map chat_keys (rm_chats (replace_unavailable_active_session sid tm rm)) = map chat_keys (rm_chats rm)"
    by (simp add: chats_ok_def)
  show "refers (session_row_exists rm) (kr_activeSessionId x)"
    if "sj_foreignKeys sj" "x \<in> set (rm_chats (replace_unavailable_active_session sid tm rm))" for x
    using that rm c by (auto simp: chats_ok_def references_hold_rows chat_refers_def)
qed (use rm in \<open>auto simp: references_hold_rows\<close>)

text \<open>The stage before the event.\<close>

lemma references_stage:
  assumes rm: "references_hold sj rm" and st: "input_stage dec sj record (rm\<lparr>rm_attempts := rows\<rparr>) = Inr rm3"
    and row: "session_row_exists rm (se_streamId record) \<or> (\<exists>c. se_event record = SessionCreated c)"
  shows "references_hold sj rm3" "rm_sessions rm3 = rm_sessions rm" "rm_chats rm3 = rm_chats rm"
proof -
  let ?rm1 = "rm\<lparr>rm_attempts := rows\<rparr>"
  have "\<exists>steps inputs. rm3 = ?rm1\<lparr>rm_steps := steps, rm_inputs := inputs\<rparr> \<and>
    (\<forall>i \<in> set inputs. session_row_exists rm (ir_sessionId i))"
  proof (cases "\<exists>m. se_event record = MessagePersisted m")
    case True
    with st have "rm3 = ?rm1" by (auto simp: input_stage_def)
    with rm show ?thesis
      by (intro exI [of _ "rm_steps rm"] exI [of _ "rm_inputs rm"]) (simp add: references_hold_rows)
  next
    case False
    with st have "and_then (project_execution_step dec None record ?rm1)
        (\<lambda>rm2. Inr (project_session_input dec sj record rm2)) = Inr rm3"
      by (cases "se_event record") (auto simp: input_stage_def)
    then obtain rm2 where rm2: "project_execution_step dec None record ?rm1 = Inr rm2"
      "rm3 = project_session_input dec sj record rm2"
      by (auto simp: and_then_Inr)
    from step_only [OF rm2(1)] obtain steps where steps: "rm2 = ?rm1\<lparr>rm_steps := steps\<rparr>" by blast
    let ?inputs = "project_inputs dec sj record (rm_messages rm) (rm_inputs rm)"
    have "session_row_exists rm (ir_sessionId i)" if i: "i \<in> set ?inputs" for i
    proof (cases "\<exists>c. se_event record = SessionCreated c")
      case True
      with i rm show ?thesis by (auto simp: created_inputs references_hold_rows)
    next
      case False
      with row have "session_row_exists rm (se_streamId record)" by blast
      with i rm input_sessions [of dec sj "record" "rm_messages rm" "rm_inputs rm"] show ?thesis
        by (auto simp: references_hold_rows)
    qed
    then show ?thesis
      by (intro exI [of _ steps] exI [of _ ?inputs]) (simp add: rm2(2) steps project_session_input_def)
  qed
  then obtain steps inputs where rm3: "rm3 = ?rm1\<lparr>rm_steps := steps, rm_inputs := inputs\<rparr>"
    and i: "\<forall>i \<in> set inputs. session_row_exists rm (ir_sessionId i)" by blast
  show "references_hold sj rm3"
    by (rule references_kept_keys [OF rm]) (use rm i in \<open>auto simp: rm3 references_hold_rows chat_refers_def\<close>)
  show "rm_sessions rm3 = rm_sessions rm" "rm_chats rm3 = rm_chats rm" by (simp_all add: rm3)
qed

lemma references_record:
  assumes rm: "references_hold sj rm" and st: "input_stage dec sj record (rm\<lparr>rm_attempts := rows\<rparr>) = Inr rm3"
    and p: "project_event dec sj record rm3 (se_event record) = Inr rm'"
    and row: "session_row_exists rm (se_streamId record) \<or> (\<exists>c. se_event record = SessionCreated c)"
    and refs: "event_refers sj rm (se_event record)"
  shows "references_hold sj rm'"
proof -
  note rm3 = references_stage [OF rm st row]
  have same: "session_row_exists rm3 = session_row_exists rm" "chat_row_exists rm3 = chat_row_exists rm"
    by (intro exists_by_ids; simp add: rm3)+
  show ?thesis
  proof (cases "key_event (se_event record)")
    case False
    then have "session_row_exists rm3 (se_streamId record)" using row same by auto
    from references_event [OF rm3(1) p False refl this] show ?thesis .
  next
    case True
    then consider c where "se_event record = SessionCreated c" | w tm where "se_event record = SessionWorktreeSet w tm"
      | tm where "se_event record = SessionDeleted tm"
      by (cases "se_event record") auto
    then show ?thesis
    proof cases
      case 1
      with p refs show ?thesis
        by (intro references_created [OF rm3(1)]) (simp_all add: event_refers_def same)
    next
      case 2
      with p have "rm' = project_SessionWorktreeSet (se_streamId record) w tm rm3" by simp
      with refs 2 show ?thesis by (simp add: references_worktree [OF rm3(1)] event_refers_def)
    next
      case 3
      with p obtain forks where "rm' = delete_sessions sj (\<lambda>r. sr_id r = se_streamId record)
          ((replace_unavailable_active_session (se_streamId record) tm (rm3\<lparr>rm_forks := forks\<rparr>))
            \<lparr>rm_turns := delete_where (\<lambda>t. tr_sessionId t = se_streamId record) (rm_turns rm3),
             rm_threads := delete_where (\<lambda>h. hr_sessionId h = se_streamId record) (rm_threads rm3)\<rparr>)"
        by (auto simp: project_SessionDeleted_def and_then_Inr Let_def)
      moreover have "references_hold sj (rm3\<lparr>rm_forks := forks\<rparr>)" using rm3(1) by simp
      ultimately show ?thesis using references_replaced by (simp add: references_deleted)
    qed
  qed
qed

end
