(* ===== verification/Read_Model_Log.thy ===== *)
theory Read_Model_Log
  imports Read_Model_Frame Read_Model_References
begin

text \<open>
  The read model after a whole log: many sessions write to one table each, their events interleave,
  and after every record the rows of each session show the state its own events fold to.
\<close>

section \<open>The log of a session\<close>

definition own_log :: "session_event stored_event list \<Rightarrow> string \<Rightarrow> session_event list" where
  "own_log records sid = map se_event (filter (\<lambda>r. se_streamId r = sid) records)"

definition logged_state :: "decoder \<Rightarrow> session_event stored_event list \<Rightarrow> string \<Rightarrow> session_state" where
  "logged_state dec records sid = foldl (evolve dec) initial_session_state (own_log records sid)"

fun project_log ::
  "decoder \<Rightarrow> sqlite_json \<Rightarrow> session_event stored_event list \<Rightarrow> read_model \<Rightarrow>
   projector_error + read_model"
where
  "project_log dec sj [] rm = Inr rm"
| "project_log dec sj (r # rs) rm = and_then (project_session dec sj r rm) (project_log dec sj rs)"

lemma project_log_append:
  "project_log dec sj (xs @ ys) rm = and_then (project_log dec sj xs rm) (project_log dec sj ys)"
proof (induction xs arbitrary: rm)
  case (Cons x xs)
  then show ?case by (cases "project_session dec sj x rm") simp_all
qed simp

lemma own_log_simps [simp]:
  "own_log [] sid = []"
  "own_log (r # rs) sid = (if se_streamId r = sid then se_event r # own_log rs sid else own_log rs sid)"
  "own_log (xs @ ys) sid = own_log xs sid @ own_log ys sid"
  by (simp_all add: own_log_def)

lemma logged_state_Nil [simp]: "logged_state dec [] sid = initial_session_state"
  by (simp add: logged_state_def)

lemma logged_state_snoc [simp]:
  "logged_state dec (rs @ [r]) sid =
     (if se_streamId r = sid then evolve dec (logged_state dec rs sid) (se_event r)
      else logged_state dec rs sid)"
  by (simp add: logged_state_def)

section \<open>What the log promises\<close>

text \<open>The ids of queued items that an event brings in.\<close>

fun queued_id :: "session_event \<Rightarrow> string option" where
  "queued_id (QueuedTurnEnqueued q) = Some (qt_queueId q)"
| "queued_id e = None"

text \<open>
  Sequences grow; a creation is written to the stream of its session; what a stream holds is what
  accepted commands write; turns are started once; a queue id belongs to one stream.
\<close>

definition log_wf :: "decoder \<Rightarrow> session_event stored_event list \<Rightarrow> bool" where
  "log_wf dec records \<longleftrightarrow>
     sorted_wrt (<) (map se_sequence records) \<and> (\<forall>r \<in> set records. 0 < se_sequence r) \<and>
     (\<forall>sid. events_ok dec initial_session_state (own_log records sid) \<and>
            shown_events dec initial_session_state (own_log records sid)) \<and>
     (\<forall>r \<in> set records. \<forall>c. se_event r = SessionCreated c \<longrightarrow> sc_sessionId c = se_streamId r) \<and>
     distinct (started_turns (map se_event records)) \<and>
     (\<forall>r \<in> set records. \<forall>r' \<in> set records. \<forall>k.
        queued_id (se_event r) = Some k \<and> queued_id (se_event r') = Some k \<longrightarrow>
        se_streamId r = se_streamId r')"

lemma log_wf_prefix: "log_wf dec (xs @ ys) \<Longrightarrow> log_wf dec xs"
  by (auto simp: log_wf_def sorted_wrt_append events_ok_append shown_events_append)

section \<open>What the states of a log hold\<close>

lemma keys_update_subset: "set (keys (AList.update k v m)) = insert k (set (keys m))"
  by (simp add: dom_update)

lemma turn_keys_evolve:
  assumes "turns_inv s" "event_ok s e"
  shows "set (keys (turns (evolve dec s e))) \<subseteq> set (keys (turns s)) \<union> set_option (started_turn_id e)"
proof -
  have tid: "tn_id t = k" if "map_of (turns s) k = Some t" for k t
    using that assms(1) by (auto simp: turns_wf_def dest!: map_of_SomeD)
  show ?thesis
    by (cases e) (auto simp: frame_defs Let_def dom_update map_values_def tid rev_image_eqI start_attempt_def current_turn_def
        dest: map_of_SomeD tid split: option.splits if_splits)
qed

lemma queue_keys_evolve:
  "set (keys (queuedTurns (evolve dec s e))) \<subseteq> set (keys (queuedTurns s)) \<union> set_option (queued_id e)"
  by (cases e) (auto simp: frame_defs Let_def dom_update rev_image_eqI AList.delete_eq
      dest: map_of_SomeD split: option.splits if_splits)

lemma sessionId_evolve: "\<forall>c. e \<noteq> SessionCreated c \<Longrightarrow> sessionId (evolve dec s e) = sessionId s"
  by (cases e) (simp_all add: branch_defs helper_defs Let_def split: option.split)

lemma started_member:
  "k \<in> set (started_turns (own_log rs a)) \<longleftrightarrow>
     (\<exists>r \<in> set rs. se_streamId r = a \<and> started_turn_id (se_event r) = Some k)"
  by (induction rs) (auto split: option.splits)

lemma started_in_all:
  "r \<in> set rs \<Longrightarrow> started_turn_id (se_event r) = Some k \<Longrightarrow> k \<in> set (started_turns (map se_event rs))"
  by (induction rs) (auto split: option.splits)

lemma started_by_one:
  assumes "distinct (started_turns (map se_event rs))" "r \<in> set rs" "r' \<in> set rs"
    "started_turn_id (se_event r) = Some k" "started_turn_id (se_event r') = Some k"
  shows "r = r'"
  using assms by (induction rs) (auto split: option.splits dest: started_in_all)

text \<open>What holds of the state of a stream, whatever the other streams do.\<close>

lemma logged_state_facts:
  assumes "log_wf dec rs"
  shows "event_inv (logged_state dec rs a)"
    "exists (logged_state dec rs a) \<Longrightarrow> sessionId (logged_state dec rs a) = Some a"
    "set (keys (turns (logged_state dec rs a))) \<subseteq> set (started_turns (own_log rs a))"
    "set (keys (queuedTurns (logged_state dec rs a))) \<subseteq>
       {k. \<exists>r \<in> set rs. se_streamId r = a \<and> queued_id (se_event r) = Some k}"
proof -
  have "event_inv (logged_state dec rs a) \<and>
    (exists (logged_state dec rs a) \<longrightarrow> sessionId (logged_state dec rs a) = Some a) \<and>
    set (keys (turns (logged_state dec rs a))) \<subseteq> set (started_turns (own_log rs a)) \<and>
    set (keys (queuedTurns (logged_state dec rs a))) \<subseteq>
       {k. \<exists>r \<in> set rs. se_streamId r = a \<and> queued_id (se_event r) = Some k}"
    using assms
  proof (induction rs rule: rev_induct)
    case Nil
    then show ?case using session_inv_initial by (simp add: session_inv_def initial_session_state_def)
  next
    case (snoc r rs)
    let ?s = "logged_state dec rs a"
    from snoc.IH [OF log_wf_prefix [OF snoc.prems]] have ih: "event_inv ?s"
      "exists ?s \<longrightarrow> sessionId ?s = Some a"
      "set (keys (turns ?s)) \<subseteq> set (started_turns (own_log rs a))"
      "set (keys (queuedTurns ?s)) \<subseteq> {k. \<exists>r \<in> set rs. se_streamId r = a \<and> queued_id (se_event r) = Some k}"
      by blast+
    show ?case
    proof (cases "se_streamId r = a")
      case False
      with ih show ?thesis by auto
    next
      case True
      with snoc.prems have ok: "event_ok ?s (se_event r)"
        and c: "\<forall>c. se_event r = SessionCreated c \<longrightarrow> sc_sessionId c = a"
        by (auto simp: log_wf_def events_ok_append logged_state_def split: if_splits)
      have "sessionId (evolve dec ?s (se_event r)) = Some a"
      proof (cases "\<exists>c. se_event r = SessionCreated c")
        case True
        with c created_id show ?thesis by metis
      next
        case False
        then have "exists ?s" using ok by (cases "se_event r") auto
        with False ih(2) sessionId_evolve show ?thesis by metis
      qed
      moreover have "set (keys (turns (evolve dec ?s (se_event r)))) \<subseteq>
          set (started_turns (own_log (rs @ [r]) a))"
      proof -
        have "turns_inv ?s" using ih(1) by (simp add: event_inv_alt)
        from turn_keys_evolve [OF this ok, of dec] ih(3) True show ?thesis
          by (cases "started_turn_id (se_event r)") auto
      qed
      moreover have "set (keys (queuedTurns (evolve dec ?s (se_event r)))) \<subseteq>
          {k. \<exists>r' \<in> set (rs @ [r]). se_streamId r' = a \<and> queued_id (se_event r') = Some k}"
        using queue_keys_evolve [of dec ?s "se_event r"] ih(4) True
        by (cases "queued_id (se_event r)") auto
      ultimately show ?thesis using event_inv_evolve [OF ih(1) ok] True by simp
    qed
  qed
  then show "event_inv (logged_state dec rs a)"
    "exists (logged_state dec rs a) \<Longrightarrow> sessionId (logged_state dec rs a) = Some a"
    "set (keys (turns (logged_state dec rs a))) \<subseteq> set (started_turns (own_log rs a))"
    "set (keys (queuedTurns (logged_state dec rs a))) \<subseteq>
       {k. \<exists>r \<in> set rs. se_streamId r = a \<and> queued_id (se_event r) = Some k}"
    by blast+
qed

section \<open>The read model of a log\<close>

definition last_sequence :: "'e stored_event list \<Rightarrow> int" where
  "last_sequence rs = (if rs = [] then 0 else se_sequence (last rs))"

definition log_displayed ::
  "decoder \<Rightarrow> session_event stored_event list \<Rightarrow> read_model \<Rightarrow> bool"
where
  "log_displayed dec rs rm \<longleftrightarrow>
     rm_forks rm = [] \<and> (\<forall>sid. displays sid (last_sequence rs) rm (logged_state dec rs sid))"

lemma last_sequence_next:
  assumes "log_wf dec (rs @ [r])"
  shows "last_sequence rs < se_sequence r"
proof (cases rs rule: rev_cases)
  case Nil
  with assms show ?thesis by (simp add: log_wf_def last_sequence_def)
next
  case (snoc ys y)
  with assms show ?thesis by (simp add: log_wf_def last_sequence_def sorted_wrt_append)
qed

text \<open>The rows of other sessions, from what those sessions show.\<close>

lemma displayed_foreign_free:
  assumes wf: "log_wf dec (rs @ [r])" and shown: "log_displayed dec rs rm"
  defines "all \<equiv> rs @ [r]"
  shows "foreign_free sj sid (set (started_turns (own_log all sid)))
    {k. \<exists>r \<in> set all. se_streamId r = sid \<and> queued_id (se_event r) = Some k} rm"
proof -
  note wf' = log_wf_prefix [OF wf]
  have disp: "displays a (last_sequence rs) rm (logged_state dec rs a)" for a
    using shown by (simp add: log_displayed_def)
  have "tr_id t \<notin> set (started_turns (own_log all sid))"
    if t: "t \<in> set (rm_turns rm)" and other: "tr_sessionId t \<noteq> sid" for t
  proof
    assume mine: "tr_id t \<in> set (started_turns (own_log all sid))"
    let ?a = "tr_sessionId t"
    from t have own: "t \<in> set (own_turns ?a (rm_turns rm))" by (simp add: own_turns_def)
    then have rows: "list_all2 shows_turn (own_turns ?a (rm_turns rm)) (turns (logged_state dec rs ?a))"
      using disp [of ?a] by (auto simp: displays_def turns_shown_def split: if_splits)
    from rows_in [OF rows own] have "tr_id t \<in> set (keys (turns (logged_state dec rs ?a)))" by force
    from logged_state_facts(3) [OF wf', THEN subsetD, OF this] obtain r1 where
      r1: "r1 \<in> set all" "se_streamId r1 = ?a" "started_turn_id (se_event r1) = Some (tr_id t)"
      by (auto simp: started_member all_def)
    from mine obtain r2 where
      r2: "r2 \<in> set all" "se_streamId r2 = sid" "started_turn_id (se_event r2) = Some (tr_id t)"
      by (auto simp: started_member)
    have "distinct (started_turns (map se_event all))" using wf by (simp only: log_wf_def all_def)
    from started_by_one [OF this r1(1) r2(1) r1(3) r2(3)] r1(2) r2(2) other show False by simp
  qed
  moreover have "qr_id q \<notin> {k. \<exists>r \<in> set all. se_streamId r = sid \<and> queued_id (se_event r) = Some k}"
    if q: "q \<in> set (rm_queue rm)" and other: "qr_sessionId q \<noteq> sid" for q
  proof
    assume mine: "qr_id q \<in> {k. \<exists>r \<in> set all. se_streamId r = sid \<and> queued_id (se_event r) = Some k}"
    let ?a = "qr_sessionId q"
    from q have own: "q \<in> set (own_queue ?a (rm_queue rm))" by (simp add: own_queue_def)
    have rows: "list_all2 shows_queued (own_queue ?a (rm_queue rm)) (queuedTurns (logged_state dec rs ?a))"
      using disp [of ?a] own by (auto simp: displays_def queue_shown_def)
    from rows_in [OF rows own] have "qr_id q \<in> set (keys (queuedTurns (logged_state dec rs ?a)))" by force
    from logged_state_facts(4) [OF wf', THEN subsetD, OF this] obtain r1 where
      r1: "r1 \<in> set all" "se_streamId r1 = ?a" "queued_id (se_event r1) = Some (qr_id q)"
      by (auto simp: all_def)
    from mine obtain r2 where
      r2: "r2 \<in> set all" "se_streamId r2 = sid" "queued_id (se_event r2) = Some (qr_id q)" by blast
    from wf r1 r2 other show False unfolding log_wf_def all_def by metis
  qed
  moreover have "scope_provider_thread_id sid (hr_id h) \<noteq> hr_id h"
    if h: "h \<in> set (rm_threads rm)" and other: "hr_sessionId h \<noteq> sid" for h
  proof -
    let ?a = "hr_sessionId h"
    from h have own: "h \<in> set (own_threads ?a (rm_threads rm))" by (simp add: own_threads_def)
    have "scope_provider_thread_id ?a (hr_id h) = hr_id h"
      using displayed_threads_scoped(1) [OF disp [of ?a]] logged_state_facts(1,2) [OF wf', of ?a] own
      by (auto simp: event_inv_alt)
    with other scoped_once show ?thesis by metis
  qed
  ultimately show ?thesis using shown by (simp add: foreign_free_def log_displayed_def)
qed

lemma no_forks:
  assumes "project_session dec sj r rm = Inr rm'" "rm_forks rm = []"
  shows "rm_forks rm' = []"
proof -
  from project_session_stages [OF assms(1)] obtain rows rm3 where
    st: "same_tables (rm\<lparr>rm_attempts := rows\<rparr>) rm3" "project_event dec sj r rm3 (se_event r) = Inr rm'"
    by blast
  from st(1) assms(2) have "rm_forks rm3 = []" by (simp add: same_tables_def)
  with st(2) show ?thesis
  proof (cases "\<exists>tm. se_event r = SessionDeleted tm")
    case True
    with st(2) \<open>rm_forks rm3 = []\<close> show ?thesis
      by (auto simp: project_SessionDeleted_def and_then_Inr Let_def)
  next
    case False
    with forks_kept [OF st(2)] \<open>rm_forks rm3 = []\<close> show ?thesis by simp
  qed
qed

text \<open>What a record of a log finds in the state and the rows of its session.\<close>

lemma record_facts:
  assumes wf: "log_wf dec (rs @ [r])" and shown: "log_displayed dec rs rm"
  shows "event_ok (logged_state dec rs (se_streamId r)) (se_event r)"
    "shown_ok (logged_state dec rs (se_streamId r)) (se_event r)"
    "started_turn_id (se_event r) = Some k \<Longrightarrow>
       \<not> map_has (turns (logged_state dec rs (se_streamId r))) k \<and>
       k \<in> set (started_turns (own_log (rs @ [r]) (se_streamId r)))"
    "displays (se_streamId r) (last_sequence rs) rm (logged_state dec rs (se_streamId r))"
proof -
  let ?sid = "se_streamId r" let ?s = "logged_state dec rs ?sid"
  note facts = logged_state_facts [OF log_wf_prefix [OF wf]]
  from wf show "event_ok ?s (se_event r)" "shown_ok ?s (se_event r)"
    by (auto simp: log_wf_def events_ok_append shown_events_append logged_state_def split: if_splits)
  show "displays ?sid (last_sequence rs) rm ?s" using shown by (simp add: log_displayed_def)
  assume start: "started_turn_id (se_event r) = Some k"
  from wf start have "k \<notin> set (started_turns (map se_event rs))" by (simp add: log_wf_def)
  then have "k \<notin> set (started_turns (own_log rs ?sid))" using started_in_all by (auto simp: started_member)
  then have "k \<notin> set (keys (turns ?s))" using facts(3) [of ?sid] by (rule contra_subsetD [rotated])
  then show "\<not> map_has (turns ?s) k \<and> k \<in> set (started_turns (own_log (rs @ [r]) ?sid))"
    using start by (simp add: map_of_eq_None_iff)
qed

lemma log_displayed_step:
  assumes wf: "log_wf dec (rs @ [r])" and shown: "log_displayed dec rs rm"
    and p: "project_session dec sj r rm = Inr rm'"
  shows "log_displayed dec (rs @ [r]) rm'"
proof -
  let ?sid = "se_streamId r" let ?s = "logged_state dec rs ?sid"
  note facts = logged_state_facts [OF log_wf_prefix [OF wf]] and rf = record_facts [OF wf shown]
  have disp: "displays a (last_sequence rs) rm (logged_state dec rs a)" for a
    using shown by (simp add: log_displayed_def)
  from wf have c: "\<And>c. se_event r = SessionCreated c \<Longrightarrow> sc_sessionId c = ?sid"
    by (auto simp: log_wf_def)
  have queue: "qt_queueId q \<in> {k. \<exists>r' \<in> set (rs @ [r]). se_streamId r' = ?sid \<and> queued_id (se_event r') = Some k}"
    if "se_event r = QueuedTurnEnqueued q" for q
    using that by auto
  have own: "sessionId (evolve dec ?s (se_event r)) = Some ?sid"
    using logged_state_facts(2) [OF wf, of ?sid] exists_evolve [OF rf(1)] by simp
  have mine: "displays ?sid (se_sequence r) rm' (evolve dec ?s (se_event r))"
    using record_step [OF p disp [of ?sid] facts(1) rf(1,2) refl last_sequence_next [OF wf]
        displayed_foreign_free [OF wf shown, of sj ?sid] rf(3) queue own facts(2)] by blast
  have "displays a (se_sequence r) rm' (logged_state dec rs a)" if "a \<noteq> ?sid" for a
  proof (rule record_frame [OF disp [of a] _ facts(2) _ _ _ _ c p])
    show "threads_inv (logged_state dec rs a)"
      "\<not> exists (logged_state dec rs a) \<Longrightarrow> logged_state dec rs a = initial_session_state"
      using facts(1) [of a] by (simp_all add: event_inv_alt)
    show "scope_provider_thread_id ?sid k = k" if "active_thread_of rm ?sid = Some k" for k
      using displayed_threads_scoped(2) [OF disp [of ?sid] _ facts(2) _ that] facts(1) [of ?sid]
      by (simp add: event_inv_alt)
    show "?sid \<noteq> a" "last_sequence rs \<le> se_sequence r"
      using that last_sequence_next [OF wf] by simp_all
  qed
  moreover have "rm_forks rm' = []" using shown no_forks [OF p] by (simp add: log_displayed_def)
  ultimately show ?thesis using mine by (auto simp: log_displayed_def last_sequence_def)
qed

text \<open>
  The projection of a record cannot fail, if its times are dates and the rows it refers to exist.
\<close>

lemma log_record_total:
  assumes wf: "log_wf dec (rs @ [r])" and shown: "log_displayed dec rs rm"
    and dates: "dates_valid (se_event r)" and refs: "references_hold sj rm" "event_refers sj rm (se_event r)"
  shows "\<exists>rm'. project_session dec sj r rm = Inr rm'"
proof -
  let ?sid = "se_streamId r" let ?s = "logged_state dec rs ?sid"
  note facts = logged_state_facts [OF log_wf_prefix [OF wf]] and rf = record_facts [OF wf shown]
  have "session_row_exists rm ?sid \<or> (\<exists>c. se_event r = SessionCreated c)"
  proof (cases "\<exists>c. se_event r = SessionCreated c")
    case False
    then have "exists ?s" using rf(1) by (cases "se_event r") auto
    moreover have "\<not> deleted ?s" by (rule shown_not_deleted [OF rf(2)])
    ultimately obtain row where row: "own_session rm ?sid = [row]"
      using rf(4) by (auto simp: displays_def session_shown_def)
    have "row \<in> set (own_session rm ?sid)" by (simp add: row)
    then show ?thesis by (auto simp: own_session_def session_row_exists_def list_ex_iff)
  qed blast
  note row = this
  show ?thesis
  proof (rule record_total [OF rf(4) facts(1) rf(1,2) refl last_sequence_next [OF wf]
        displayed_foreign_free [OF wf shown] rf(3) dates])
    show "references_hold sj rm'"
      if "input_stage dec sj r (rm\<lparr>rm_attempts := rows\<rparr>) = Inr rm3"
        "project_event dec sj r rm3 (se_event r) = Inr rm'" for rows rm3 rm'
      by (rule references_record [OF refs(1) that row refs(2)])
  qed
qed

lemma log_record_references:
  "project_session dec sj r rm = Inr rm' \<Longrightarrow> references_hold sj rm'"
  by (elim project_session_stages)

lemma initial_displayed: "log_displayed dec [] empty_read_model"
  by (simp add: log_displayed_def displays_def empty_read_model_def initial_session_state_def
      session_shown_def own_session_def turns_shown_def own_turns_def threads_shown_def own_threads_def
      queue_shown_def own_queue_def attempts_shown_def)

theorem log_displays:
  assumes "log_wf dec rs" "project_log dec sj rs empty_read_model = Inr rm"
  shows "log_displayed dec rs rm"
  using assms
proof (induction rs arbitrary: rm rule: rev_induct)
  case Nil
  then show ?case by (simp add: initial_displayed)
next
  case (snoc r rs)
  from snoc.prems(2) obtain rm0 where rm0: "project_log dec sj rs empty_read_model = Inr rm0"
    "project_session dec sj r rm0 = Inr rm"
    by (auto simp: project_log_append and_then_Inr)
  from log_displayed_step [OF snoc.prems(1) snoc.IH [OF log_wf_prefix [OF snoc.prems(1)] rm0(1)] rm0(2)]
  show ?case .
qed

end
