(* ===== verification/Memory_Dispatch.thy ===== *)
theory Memory_Dispatch
  imports Dispatch_Laws Session_Safety
begin

text \<open>
  \<open>InMemoryDispatchStorage\<close> of \<open>engine/dispatch.ts\<close> meets the storage contract, and the engine of
  sessions on it meets the contract of an event-sourced engine.
\<close>

section \<open>The loop that appends\<close>

lemma memory_push_new:
  assumes "memory_push ai v es events = (v', events')"
  shows "\<exists>new. v' = v + int (length es) \<and> events' = events @ new \<and> length new = length es \<and>
    map (\<lambda>x. (se_eventId x, se_event x)) new = es \<and>
    (\<forall>x \<in> set new. se_streamId x = ai_streamId ai) \<and>
    map se_streamVersion new = [v + 1 .. v + int (length es)] \<and>
    map se_sequence new = [int (length events) + 1 .. int (length events) + int (length es)]"
  using assms
proof (induction es arbitrary: v events)
  case Nil
  then show ?case by simp
next
  case (Cons x es)
  obtain key e where x: "x = (key, e)" by (cases x)
  let ?r = "\<lparr>se_eventId = key, se_correlationId = ai_correlationId ai,
      se_causationEventId = ai_causationEventId ai, se_streamId = ai_streamId ai,
      se_streamVersion = v + 1, se_sequence = int (length events) + 1, se_event = e\<rparr>"
  from Cons.prems x have "memory_push ai (v + 1) es (events @ [?r]) = (v', events')" by simp
  from Cons.IH [OF this] obtain new where n: "v' = v + 1 + int (length es)"
    "events' = (events @ [?r]) @ new" "length new = length es"
    "map (\<lambda>x. (se_eventId x, se_event x)) new = es" "\<forall>x \<in> set new. se_streamId x = ai_streamId ai"
    "map se_streamVersion new = [v + 1 + 1 .. v + 1 + int (length es)]"
    "map se_sequence new =
       [int (length (events @ [?r])) + 1 .. int (length (events @ [?r])) + int (length es)]"
    by blast
  have "map se_streamVersion (?r # new) = [v + 1 .. v + int (length (x # es))]"
    unfolding length_Cons upto_step using n(6) by simp
  moreover have "map se_sequence (?r # new) =
      [int (length events) + 1 .. int (length events) + int (length (x # es))]"
    unfolding length_Cons upto_step using n(7) by (simp add: add_ac)
  ultimately show ?case using n(1-5) x by (intro exI [of _ "?r # new"]) simp
qed

section \<open>The contract\<close>

definition memory_inv :: "'e memory_store \<Rightarrow> bool" where
  "memory_inv st \<longleftrightarrow>
     (\<forall>sid. map se_streamVersion (memory_events_for st sid) =
        [1 .. int (length (memory_events_for st sid))]) \<and>
     map se_sequence (im_eventLog st) = [1 .. int (length (im_eventLog st))]"

definition memory_receipt_of :: "'e memory_store \<Rightarrow> string \<Rightarrow> command_receipt option" where
  "memory_receipt_of st command_id = map_of (im_receipts st) command_id"

lemma upto_append: "[1 .. int m] @ [int m + 1 .. int m + int n] = [1 .. int m + int n]"
  by (rule upto_join) simp_all

lemma memory_append_Inr:
  assumes "memory_inv st" "map_of (im_receipts st) (ai_commandId ai) = None"
    and "memory_append st ai = (Inr r, st')"
  shows "\<exists>new. ai_expectedVersion ai = int (length (memory_events_for st (ai_streamId ai))) \<and>
    r = receipt_for ai (ai_expectedVersion ai + int (length (ai_events ai))) \<and>
    im_receipts st' = AList.update (ai_commandId ai) r (im_receipts st) \<and>
    memory_events_for st' = (memory_events_for st)(ai_streamId ai := memory_events_for st (ai_streamId ai) @ new) \<and>
    map (\<lambda>x. (se_eventId x, se_event x)) new = ai_events ai \<and> memory_inv st'"
proof -
  obtain v events where push:
    "memory_push ai (ai_expectedVersion ai) (ai_events ai) (im_eventLog st) = (v, events)"
    by (cases "memory_push ai (ai_expectedVersion ai) (ai_events ai) (im_eventLog st)")
  with assms(2,3) have p: "memory_push ai (ai_expectedVersion ai) (ai_events ai) (im_eventLog st) = (v, events)"
    "ai_expectedVersion ai = int (length (memory_events_for st (ai_streamId ai)))"
    "r = receipt_for ai v"
    "st' = st\<lparr>im_eventLog := events,
              im_receipts := AList.update (ai_commandId ai) r (im_receipts st)\<rparr>"
    by (auto simp: memory_append_def Let_def split: if_split_asm)
  from memory_push_new [OF p(1)] obtain new where n:
    "v = ai_expectedVersion ai + int (length (ai_events ai))" "events = im_eventLog st @ new"
    "length new = length (ai_events ai)" "map (\<lambda>x. (se_eventId x, se_event x)) new = ai_events ai"
    "\<forall>x \<in> set new. se_streamId x = ai_streamId ai"
    "map se_streamVersion new =
       [ai_expectedVersion ai + 1 .. ai_expectedVersion ai + int (length (ai_events ai))]"
    "map se_sequence new =
       [int (length (im_eventLog st)) + 1 .. int (length (im_eventLog st)) + int (length (ai_events ai))]"
    by blast
  have "filter (\<lambda>x. se_streamId x = sid) new = (if sid = ai_streamId ai then new else [])" for sid
    using n(5) by (auto simp: filter_empty_conv filter_id_conv)
  then have streams: "memory_events_for st' =
      (memory_events_for st)(ai_streamId ai := memory_events_for st (ai_streamId ai) @ new)"
    by (auto simp: memory_events_for_def p(4) n(2))
  moreover have "memory_inv st'"
    using assms(1) n(3,6,7) unfolding memory_inv_def streams
    by (auto simp: p(2,4) n(2) upto_append)
  ultimately show ?thesis using p n(1,4) by (intro exI [of _ new]) simp
qed

lemma memory_append_same:
  assumes "memory_append st ai = (x, st')"
    "map_of (im_receipts st) (ai_commandId ai) \<noteq> None \<or> (\<exists>e. x = Inl e)"
  shows "st' = st"
  using assms by (auto simp: memory_append_def Let_def split: option.splits if_splits prod.splits)

interpretation memory: dispatch_storage memory_ops memory_inv memory_events_for memory_receipt_of
proof unfold_locales
  fix st :: "'a memory_store" and ai :: "'a append_input"
  assume inv: "memory_inv st"
  show "memory_inv (snd (op_append memory_ops st ai))"
  proof (cases "fst (memory_append st ai)")
    case (Inl e)
    with memory_append_same [of st ai "Inl e"] inv show ?thesis
      by (cases "memory_append st ai") (simp add: memory_ops_def)
  next
    case (Inr r)
    show ?thesis
    proof (cases "map_of (im_receipts st) (ai_commandId ai)")
      case None
      with memory_append_Inr [OF inv None, of r] Inr show ?thesis
        by (cases "memory_append st ai") (auto simp: memory_ops_def)
    next
      case (Some r0)
      with memory_append_same [of st ai "Inr r"] Inr inv show ?thesis
        by (cases "memory_append st ai") (simp add: memory_ops_def)
    qed
  qed
next
  fix st :: "'a memory_store" and ai r st'
  assume "memory_inv st" "memory_receipt_of st (ai_commandId ai) = None"
    "op_append memory_ops st ai = (Inr r, st')"
  then show "ai_expectedVersion ai = int (length (memory_events_for st (ai_streamId ai))) \<and>
    r = receipt_for ai (ai_expectedVersion ai + int (length (ai_events ai))) \<and>
    memory_receipt_of st' = (memory_receipt_of st)(ai_commandId ai \<mapsto> r) \<and>
    (\<exists>new. memory_events_for st' =
        (memory_events_for st)(ai_streamId ai := memory_events_for st (ai_streamId ai) @ new) \<and>
       map (\<lambda>x. (se_eventId x, se_event x)) new = ai_events ai)"
    using memory_append_Inr [of st ai r st']
    by (auto simp: memory_receipt_of_def memory_ops_def fun_eq_iff)
next
  fix st :: "'a memory_store" and ai r r' st'
  assume "memory_inv st" and known: "memory_receipt_of st (ai_commandId ai) = Some r"
    and app: "op_append memory_ops st ai = (Inr r', st')"
  from known app have
    "validate_command_receipt (ai_commandId ai) (ai_streamId ai) (ai_receiptIdentity ai) r = Inr r'"
    "st' = st"
    by (simp_all add: memory_receipt_of_def memory_ops_def memory_append_def)
  then show "st' = st \<and> r' = r \<and>
    validate_command_receipt (ai_commandId ai) (ai_streamId ai) (ai_receiptIdentity ai) r = Inr r"
    by (auto simp: validate_command_receipt_def split: if_splits option.splits)
next
  fix st :: "'a memory_store" and ai e st'
  assume "op_append memory_ops st ai = (Inl e, st')"
  then show "st' = st" by (auto simp: memory_ops_def intro: memory_append_same)
qed (simp_all add: memory_ops_def memory_receipt_of_def memory_inv_def)

interpretation memory_sessions: session_storage memory_ops memory_inv memory_events_for memory_receipt_of
  by unfold_locales

interpretation memory_engine:
  event_sourced memory_ops memory_inv memory_events_for memory_receipt_of
    initial_session_state "evolve dec" decide version "session_prepares dec memory_ops mk"
  for dec and mk :: "('g, 'i) id_generator"
proof unfold_locales
  fix st existing input ai
  assume "memory_inv st" "session_prepares dec memory_ops mk st existing input ai"
  with session_prepares_sound [OF memory.read_events] show
    "ai_streamId ai = di_streamId input \<and>
     ai_expectedVersion ai =
       version (foldl (evolve dec) initial_session_state (map se_event (memory_events_for st (di_streamId input)))) \<and>
     decide (foldl (evolve dec) initial_session_state (map se_event (memory_events_for st (di_streamId input))))
       (di_command input) = Inr (map snd (ai_events ai))"
    by blast
qed

lemma memory_inv_empty: "memory_inv empty_memory_store"
  by (simp add: memory_inv_def empty_memory_store_def memory_events_for_def)

end
