(* ===== verification/Codecs.thy ===== *)
theory Codecs
  imports Sql_Dispatch_Laws Chat "HOL-Library.Countable"
begin

text \<open>
  Encoders for the witnesses: every event and every receipt has a number, and the decimal
  digits of the number are its text. They stand for the JSON encoders of the schema library
  and show that \<open>codec_ok\<close> and \<open>receipt_codec_ok\<close> can hold.
\<close>

section \<open>Countable types\<close>

instance session_status :: countable by countable_datatype
instance runtime_mode :: countable by countable_datatype
instance permission_mode :: countable by countable_datatype
instance title_provenance :: countable by countable_datatype
instance resume_strategy :: countable by countable_datatype
instance settlement_outcome :: countable by countable_datatype
instance attempt_reason :: countable by countable_datatype
instance segment_kind :: countable by countable_datatype
instance thread_status :: countable by countable_datatype
instance expiry_reason :: countable by countable_datatype
instance js_number :: countable by countable_datatype
instance not_active_reason :: countable by countable_datatype
instance interrupt_receipt :: countable by countable_datatype

instance turn_reference_ext :: (countable) countable
  by (rule countable_classI [of "\<lambda>r. to_nat (ref_provider r, ref_nativeThreadId r,
      ref_nativeTurnId r, turn_reference.more r)"]) simp

instance attempt_owner_ext :: (countable) countable
  by (rule countable_classI [of "\<lambda>r. to_nat (own_turnId r, own_attemptId r,
      attempt_owner.more r)"]) simp

instance input_owner_ext :: (countable) countable
  by (rule countable_classI [of "\<lambda>r. to_nat (io_providerSessionId r, io_attempt r,
      input_owner.more r)"]) simp

instance session_delegation_ext :: (countable) countable
  by (rule countable_classI [of "\<lambda>r. to_nat (dl_parentSessionId r, dl_parentTurnId r,
      dl_parentAttemptId r, dl_providerSessionId r, dl_childTurnId r,
      session_delegation.more r)"]) simp

instance session_created_ext :: (countable) countable
  by (rule countable_classI [of "\<lambda>r. to_nat (sc_delegation r, sc_sessionId r,
      sc_chatId r, sc_projectId r, sc_createdAt r, sc_title r, sc_titleProvenance r,
      sc_providerId r, sc_model r, sc_status r, sc_cursor r, sc_resumeStrategy r,
      sc_runtimeMode r, sc_agentsJson r, sc_worktreeId r, sc_forkedFromSessionId r,
      sc_forkedFromMessageId r, sc_permissionMode r, sc_toolSearch r, sc_queuePaused r,
      sc_providerStartJson r, session_created.more r)"]) simp

instance provider_thread_ext :: (countable) countable
  by (rule countable_classI [of "\<lambda>r. to_nat (pt_id r, pt_provider r, pt_nativeThreadId r,
      pt_nativeHeadId r, pt_status r, pt_firstTurnOrdinal r, pt_lastTurnOrdinal r,
      pt_createdAt r, pt_updatedAt r, provider_thread.more r)"]) simp

instance message_fields_ext :: (countable) countable
  by (rule countable_classI [of "\<lambda>r. to_nat (mf_inputOwner r, mf_messageId r,
      mf_turnId r, mf_role r, mf_kind r, mf_contentJson r, mf_parentItemId r,
      mf_checkpointRevision r, mf_checkpointFinal r, mf_createdAt r,
      message_fields.more r)"]) simp

instance attempt_started_ext :: (countable) countable
  by (rule countable_classI [of "\<lambda>r. to_nat (as_turnId r, as_attemptId r, as_ordinal r,
      as_reason r, as_startedAt r, as_turnOrdinal r, as_providerThreadId r, as_turnRequestedAt r,
      attempt_started.more r)"]) simp

instance turns_rolled_back_ext :: (countable) countable
  by (rule countable_classI [of "\<lambda>r. to_nat (rb_rolledBackTurnIds r, rb_throughOrdinal r,
      rb_messageSequence r, rb_removedMessageIds r, rb_rolledBackAt r,
      turns_rolled_back.more r)"]) simp

instance successor_ext :: (countable) countable
  by (rule countable_classI [of "\<lambda>r. to_nat (su_predecessorTurnId r, su_turnId r,
      su_queueId r, su_inputJson r, successor.more r)"]) simp

instance queued_turn_ext :: (countable) countable
  by (rule countable_classI [of "\<lambda>r. to_nat (qt_queueId r, qt_inputJson r, qt_position r,
      qt_createdAt r, qt_ready r, queued_turn.more r)"]) simp

instance receipt_identity_ext :: (countable) countable
  by (rule countable_classI [of "\<lambda>r. to_nat (ri_fingerprint r, ri_commandKind r,
      ri_schemaVersion r, ri_storageIncarnationId r, receipt_identity.more r)"]) simp

instance command_receipt_ext :: (countable) countable
  by (rule countable_classI [of "\<lambda>r. to_nat (cr_commandId r, cr_streamId r,
      cr_streamVersion r, cr_eventIds r, cr_result r, cr_receiptIdentity r,
      command_receipt.more r)"]) simp

instance chat_created_ext :: (countable) countable
  by (rule countable_classI [of "\<lambda>r. to_nat (cc_chatId r, cc_projectId r,
      cc_worktreeId r, cc_title r, cc_titleProvenance r, cc_originSessionId r, cc_lastReadAt r,
      cc_createdAt r, chat_created.more r)"]) simp

instance session_event :: countable by countable_datatype

instance chat_event :: countable by countable_datatype

section \<open>Encoders\<close>

definition counted_codec :: "string \<Rightarrow> 'e::countable event_codec" where
  "counted_codec kind =
     \<lparr>ec_streamKind = kind, ec_tag = (\<lambda>e. ''event''), ec_encode = (\<lambda>e. nat_to_string (to_nat e)),
      ec_decode = (\<lambda>s. Inr (from_nat (read_digits 0 s)))\<rparr>"

definition counted_receipts :: receipt_codec where
  "counted_receipts =
     \<lparr>rc_encode = (\<lambda>r. nat_to_string (to_nat r)), rc_decode = (\<lambda>s. Inr (from_nat (read_digits 0 s))),
      rc_decodeIds = (\<lambda>s. Inr [])\<rparr>"

lemma counted_codec_ok: "codec_ok (counted_codec kind)"
  by (simp add: codec_ok_def counted_codec_def read_nat_to_string)

lemma counted_receipts_ok: "receipt_codec_ok counted_receipts"
  by (simp add: receipt_codec_ok_def counted_receipts_def read_nat_to_string)

end
