(* ===== verification/Dispatch_Properties.thy ===== *)
theory Dispatch_Properties
  imports Memory_Dispatch Sql_Dispatch_Laws Session_Properties Chat Codecs
begin

text \<open>
  What the server's event log promises, whatever commands run at the same time: the statements
  follow from the storage contract, which \<open>Sql_Dispatch_Laws\<close> proves for the SQL tables, and the
  aggregates of sessions and chats.
\<close>

section \<open>The engines on the SQL storage\<close>

text \<open>The aggregate that \<open>makeChatDomain\<close> gives to its engine.\<close>

definition chat_definition ::
  "(chat_state, chat_command, chat_event, chat_error) aggregate_definition" where
  "chat_definition =
     \<lparr>ad_initialState = initial_chat_state, ad_version = ch_version, ad_evolveAll = evolve_chats,
      ad_decide = decide_chat\<rparr>"

lemma sql_session_engine:
  assumes "codec_ok ec" "receipt_codec_ok rc"
  shows "event_sourced (sql_ops ec rc now) (sql_inv ec rc) (sql_stream ec) (sql_receipt_of rc)
    initial_session_state (evolve dec) decide version (session_prepares dec (sql_ops ec rc now) mk)"
proof (rule event_sourced.intro [OF sql_storage_laws [OF assms] session_agg.aggregate_axioms],
    unfold_locales)
  fix db existing input ai
  assume inv: "sql_inv ec rc db"
    and prep: "session_prepares dec (sql_ops ec rc now) mk db existing input ai"
  have "op_events (sql_ops ec rc now) db (di_streamId input) = Inr (sql_stream ec db (di_streamId input))"
    using sql_events_ok [OF inv] by (simp add: sql_ops_def)
  from session_prepares_sound [OF this prep] show
    "ai_streamId ai = di_streamId input \<and>
     ai_expectedVersion ai =
       version (foldl (evolve dec) initial_session_state (map se_event (sql_stream ec db (di_streamId input)))) \<and>
     decide (foldl (evolve dec) initial_session_state (map se_event (sql_stream ec db (di_streamId input))))
       (di_command input) = Inr (map snd (ai_events ai))"
    by blast
qed

lemma sql_chat_engine:
  assumes "codec_ok ec" "receipt_codec_ok rc"
  shows "event_sourced (sql_ops ec rc now) (sql_inv ec rc) (sql_stream ec) (sql_receipt_of rc)
    initial_chat_state evolve_chat decide_chat ch_version
    (aggregate_prepares chat_definition (sql_ops ec rc now) mk)"
proof (rule event_sourced.intro [OF sql_storage_laws [OF assms] chat_agg.aggregate_axioms],
    unfold_locales)
  fix db existing input ai
  assume inv: "sql_inv ec rc db"
    and prep: "aggregate_prepares chat_definition (sql_ops ec rc now) mk db existing input ai"
  have "op_events (sql_ops ec rc now) db (di_streamId input) = Inr (sql_stream ec db (di_streamId input))"
    using sql_events_ok [OF inv] by (simp add: sql_ops_def)
  from aggregate_prepares_sound [OF this prep] show
    "ai_streamId ai = di_streamId input \<and>
     ai_expectedVersion ai =
       ch_version (foldl evolve_chat initial_chat_state (map se_event (sql_stream ec db (di_streamId input)))) \<and>
     decide_chat (foldl evolve_chat initial_chat_state (map se_event (sql_stream ec db (di_streamId input))))
       (di_command input) = Inr (map snd (ai_events ai))"
    by (simp add: chat_definition_def evolve_chats_def)
qed

definition empty_db :: event_db where
  "empty_db = \<lparr>db_events = [], db_lastSequence = 0, db_receipts = []\<rparr>"

lemma empty_db_events: "db_events empty_db = []"
  by (simp add: empty_db_def)

lemma sql_inv_empty: "\<lbrakk>db_events db = []; db_receipts db = []\<rbrakk> \<Longrightarrow> sql_inv ec rc db"
  by (simp add: sql_inv_def streams_numbered_def sequences_grow_def rows_decode_def
      receipts_decode_def stream_rows_def)

lemma empty_stream: "db_events db = [] \<Longrightarrow> sql_stream ec db sid = []"
  by (simp add: sql_stream_def stream_rows_def)

section \<open>One command on an empty database\<close>

definition demo_ids :: "(nat, string) id_generator" where
  "demo_ids n = (Inr (nat_to_string n), n + 1)"

definition demo_input :: "session_command dispatch_input" where
  "demo_input =
     \<lparr>di_commandId = ''cmd1'', di_streamId = ''s1'', di_correlationId = None,
      di_causationEventId = None, di_receiptIdentity = None, di_expectedAttempt = None,
      di_expectedProviderSessionId = None, di_command = CreateSession demo_create\<rparr>"

abbreviation session_codec :: "session_event event_codec" where
  "session_codec \<equiv> counted_codec ''session''"

abbreviation chat_codec :: "chat_event event_codec" where
  "chat_codec \<equiv> counted_codec ''chat''"

abbreviation demo_ops :: "(event_db, sql_storage_error, session_event) storage_ops" where
  "demo_ops \<equiv> sql_ops session_codec counted_receipts (\<lambda>db. ''now'')"

definition demo_append :: "session_event append_input" where
  "demo_append =
     append_of demo_input 0 None
       [(nat_to_string 0, SessionCreated
          ((created_event demo_create)\<lparr>sc_titleProvenance := Some ProvenancePending\<rparr>))]"

lemma demo_prepared:
  "prepare_dispatch dec demo_ops demo_ids empty_db 0 None demo_input = (Appending demo_append, 1)"
proof -
  have "decide initial_session_state (CreateSession demo_create) = Inr [SessionCreated
      ((created_event demo_create)\<lparr>sc_titleProvenance := Some ProvenancePending\<rparr>)]"
    by code_simp
  then show ?thesis
    by (simp add: prepare_dispatch_def sql_ops_def sql_events_def stream_rows_def empty_db_def
        demo_input_def ownership_conflict_def prepare_append_def demo_append_def demo_ids_def
        interrupt_result_def evolve_all_foldl initial_session_state_def [THEN arg_cong, of version]
        Let_def)
qed

lemma demo_appended:
  "\<exists>db. sql_append session_codec counted_receipts (\<lambda>db. ''now'') empty_db demo_append =
     (Inr (receipt_for demo_append 1), db) \<and> length (db_events db) = 1"
  by (simp add: sql_append_def append_transaction_def sql_receipt_def empty_db_def demo_append_def
      append_of_def demo_input_def sql_current_stream_version_def stream_rows_def
      insert_event_row_def insert_receipt_row_def Let_def)

lemma demo_run:
  "\<exists>db. dispatch_run dec demo_ops demo_ids empty_db 0 demo_input = (Inr (receipt_for demo_append 1), db) \<and>
     length (db_events db) = 1 \<and>
     (\<exists>fl. interleaved demo_ops (session_prepares dec demo_ops demo_ids) empty_db db fl)"
proof -
  from demo_appended obtain db where db:
    "op_append demo_ops empty_db demo_append = (Inr (receipt_for demo_append 1), db)"
    "length (db_events db) = 1"
    by (auto simp: sql_ops_def)
  have none: "op_receipt demo_ops empty_db (di_commandId demo_input) = Inr None"
    by (simp add: sql_ops_def sql_receipt_def empty_db_def)
  have "session_prepares dec demo_ops demo_ids empty_db None demo_input demo_append"
    unfolding session_prepares_def using demo_prepared by (metis fst_conv)
  then have "interleaved demo_ops (session_prepares dec demo_ops demo_ids) empty_db db
      {Prepared demo_input demo_append, Looked demo_input None}"
    by (intro commit [OF choose [OF look [OF idle none]] _ db(1)]) simp_all
  with db none demo_prepared show ?thesis
    by (auto simp: dispatch_run_def finish_dispatch_def)
qed

section \<open>Concurrent commands\<close>

text \<open>C1: Starting from an empty database, however the steps of
  concurrent commands interleave, the events of every session are ones that accepted commands
  write one after the other, they are numbered 1, 2, 3 without gaps up to the version of the
  state they fold to, and that state is well formed.\<close>

theorem concurrent_sessions_safe:
  assumes "codec_ok ec" "receipt_codec_ok rc" "db_events db0 = []" "db_receipts db0 = []"
    and "interleaved (sql_ops ec rc now) (session_prepares dec (sql_ops ec rc now) mk) db0 db fl"
  shows "let es = map se_event (sql_stream ec db sid);
             s = evolve_all dec initial_session_state es in
    session_reachable dec es s \<and> session_inv s \<and>
    map se_streamVersion (sql_stream ec db sid) = [1 .. version s]"
proof -
  note engine = sql_session_engine [OF assms(1,2), of now dec mk]
  note storage = sql_storage_laws [OF assms(1,2), of now]
  have inv0: "sql_inv ec rc db0" by (rule sql_inv_empty [OF assms(3,4)])
  have "\<forall>sid. session_reachable dec (event_sourced.log_of (sql_stream ec) db0 sid)
      (event_sourced.replayed initial_session_state (evolve dec) (event_sourced.log_of (sql_stream ec) db0 sid))"
    using reach_start
    by (simp add: event_sourced.log_of_def [OF engine] event_sourced.replayed_def [OF engine]
        empty_stream assms(3))
  from event_sourced.interleaved_reachable [OF engine assms(5) inv0 this]
  have reach: "session_reachable dec (map se_event (sql_stream ec db sid))
      (foldl (evolve dec) initial_session_state (map se_event (sql_stream ec db sid)))"
    by (simp add: event_sourced.log_of_def [OF engine] event_sourced.replayed_def [OF engine])
  have "sql_inv ec rc db"
    using dispatch_storage.interleaved_grows [OF storage assms(5) inv0]
    by (simp add: dispatch_storage.grows_def [OF storage])
  from dispatch_storage.versions [OF storage this, of sid] reach session_reachable_inv [OF reach]
    session_agg.count_reachable [OF reach]
  show ?thesis by (simp add: evolve_all_foldl Let_def)
qed

theorem concurrent_sessions_safe_witness:
  "\<exists>db :: event_db. length (db_events db) = 1 \<and>
     (let es = map se_event (sql_stream session_codec db ''s1'');
          s = evolve_all no_decoder initial_session_state es in
      session_reachable no_decoder es s \<and> session_inv s \<and>
      map se_streamVersion (sql_stream session_codec db ''s1'') = [1 .. version s])"
proof -
  from demo_run [of no_decoder] obtain db fl where db: "length (db_events db) = 1"
    "interleaved demo_ops (session_prepares no_decoder demo_ops demo_ids) empty_db db fl"
    by blast
  have "db_events empty_db = []" "db_receipts empty_db = []" by (simp_all add: empty_db_def)
  note concurrent_sessions_safe [OF counted_codec_ok counted_receipts_ok this db(2), of "''s1''"]
  with db(1) show ?thesis by (intro exI [of _ db] conjI)
qed

text \<open>C31: The same holds for chats and their engine: every interleaving
  leaves logs that accepted commands write, gapless versions and a well-formed state.\<close>

theorem concurrent_chats_safe:
  assumes "codec_ok ec" "receipt_codec_ok rc" "db_events db0 = []" "db_receipts db0 = []"
    and "interleaved (sql_ops ec rc now) (aggregate_prepares chat_definition (sql_ops ec rc now) mk)
           db0 db fl"
  shows "let es = map se_event (sql_stream ec db cid); s = evolve_chats initial_chat_state es in
    chat_reachable es s \<and> chat_inv s \<and>
    map se_streamVersion (sql_stream ec db cid) = [1 .. ch_version s]"
proof -
  note engine = sql_chat_engine [OF assms(1,2), of now mk]
  note storage = sql_storage_laws [OF assms(1,2), of now]
  have inv0: "sql_inv ec rc db0" by (rule sql_inv_empty [OF assms(3,4)])
  have "\<forall>cid. chat_reachable (event_sourced.log_of (sql_stream ec) db0 cid)
      (event_sourced.replayed initial_chat_state evolve_chat (event_sourced.log_of (sql_stream ec) db0 cid))"
    using reach_start
    by (simp add: event_sourced.log_of_def [OF engine] event_sourced.replayed_def [OF engine]
        empty_stream assms(3))
  from event_sourced.interleaved_reachable [OF engine assms(5) inv0 this]
  have reach: "chat_reachable (map se_event (sql_stream ec db cid))
      (foldl evolve_chat initial_chat_state (map se_event (sql_stream ec db cid)))"
    by (simp add: event_sourced.log_of_def [OF engine] event_sourced.replayed_def [OF engine])
  have "sql_inv ec rc db"
    using dispatch_storage.interleaved_grows [OF storage assms(5) inv0]
    by (simp add: dispatch_storage.grows_def [OF storage])
  from dispatch_storage.versions [OF storage this, of cid] reach chat_agg.invar_reachable [OF reach]
    chat_agg.count_reachable [OF reach]
  show ?thesis by (simp add: evolve_chats_def Let_def)
qed

text \<open>One command that creates a chat\<close>

definition demo_chat_input :: "chat_command dispatch_input" where
  "demo_chat_input =
     \<lparr>di_commandId = ''cmd1'', di_streamId = ''c1'', di_correlationId = None,
      di_causationEventId = None, di_receiptIdentity = None, di_expectedAttempt = None,
      di_expectedProviderSessionId = None, di_command = CreateChat demo_chat\<rparr>"

definition demo_chat_event :: chat_event where
  "demo_chat_event = ChatCreated (demo_chat\<lparr>cc_title := ''chat'', cc_titleProvenance := Some ProvenancePending\<rparr>)"

definition demo_chat_append :: "chat_event append_input" where
  "demo_chat_append = append_of demo_chat_input 0 None [(nat_to_string 0, demo_chat_event)]"

abbreviation demo_chat_ops :: "('z event_db_scheme, sql_storage_error, chat_event) storage_ops" where
  "demo_chat_ops \<equiv> sql_ops chat_codec counted_receipts (\<lambda>db. ''now'')"

lemma demo_chat_prepared:
  assumes "db_events db = []"
  shows "prepare_aggregate_dispatch chat_definition demo_chat_ops demo_ids db 0 None demo_chat_input =
    (Appending demo_chat_append, 1)"
  using assms
  by (simp add: prepare_aggregate_dispatch_def sql_ops_def sql_events_def stream_rows_def
      chat_definition_def demo_chat_input_def demo_chat_decided [simplified] prepare_append_def demo_chat_append_def
      demo_chat_event_def demo_ids_def evolve_chats_def append_of_def Let_def)
    (simp add: initial_chat_state_def)

lemma demo_chat_commit:
  "\<exists>db fl. length (db_events db) = 1 \<and>
     interleaved demo_chat_ops (aggregate_prepares chat_definition demo_chat_ops demo_ids) empty_db db fl"
proof -
  obtain db where db: "op_append demo_chat_ops empty_db demo_chat_append = (Inr (receipt_for demo_chat_append 1), db)"
    "length (db_events db) = 1"
    by (simp add: sql_ops_def sql_append_def append_transaction_def sql_receipt_def empty_db_def
        demo_chat_append_def append_of_def demo_chat_input_def sql_current_stream_version_def stream_rows_def
        insert_event_row_def insert_receipt_row_def Let_def)
  have none: "op_receipt demo_chat_ops empty_db (di_commandId demo_chat_input) = Inr None"
    by (simp add: sql_ops_def sql_receipt_def empty_db_def)
  have "aggregate_prepares chat_definition demo_chat_ops demo_ids empty_db None demo_chat_input demo_chat_append"
    unfolding aggregate_prepares_def using demo_chat_prepared [OF empty_db_events] by (metis fst_conv)
  then have "interleaved demo_chat_ops (aggregate_prepares chat_definition demo_chat_ops demo_ids) empty_db db
      {Prepared demo_chat_input demo_chat_append, Looked demo_chat_input None}"
    by (intro commit [OF choose [OF look [OF idle none]] _ db(1)]) simp_all
  with db(2) show ?thesis by blast
qed

theorem concurrent_chats_safe_witness:
  "\<exists>db :: event_db. length (db_events db) = 1 \<and>
     (let es = map se_event (sql_stream chat_codec db ''c1''); s = evolve_chats initial_chat_state es in
      chat_reachable es s \<and> chat_inv s \<and>
      map se_streamVersion (sql_stream chat_codec db ''c1'') = [1 .. ch_version s])"
proof -
  from demo_chat_commit obtain db fl where db: "length (db_events db) = 1"
    "interleaved demo_chat_ops (aggregate_prepares chat_definition demo_chat_ops demo_ids) empty_db db fl"
    by blast
  have "db_events empty_db = []" "db_receipts empty_db = []" by (simp_all add: empty_db_def)
  note concurrent_chats_safe [OF counted_codec_ok counted_receipts_ok this db(2), of "''c1''"]
  with db(1) show ?thesis by (intro exI [of _ db] conjI)
qed

section \<open>A command takes effect once\<close>

text \<open>C5: Once a command has returned a receipt, dispatching it again changes nothing,
  whatever other commands did to the log in between, and returns the same receipt, unless the command
  names the attempt or the provider session that has to own the session and the check of that
  ownership, which comes before the receipt, refuses it by now. A command without such a guard always
  returns its receipt.\<close>

theorem command_takes_effect_once:
  assumes "codec_ok ec" "receipt_codec_ok rc" "sql_inv ec rc db"
    and "dispatch_run dec (sql_ops ec rc now) mk db g input = (Inr r, db')"
    and "interleaved (sql_ops ec rc now) (session_prepares dec (sql_ops ec rc now) mk') db' db'' fl"
  shows "let es = map se_event (sql_stream ec db'' (di_streamId input));
             conflict = ownership_conflict dec (evolve_all dec initial_session_state es) es input in
    dispatch_run dec (sql_ops ec rc now) mk'' db'' g' input =
      (case conflict of None \<Rightarrow> Inr r | Some c \<Rightarrow> Inl (DispatchConflict c), db'') \<and>
    (di_expectedAttempt input = None \<and> di_expectedProviderSessionId input = None \<longrightarrow> conflict = None)"
proof -
  note storage = session_storage.intro [OF sql_storage_laws [OF assms(1,2)]]
  from session_storage.dispatch_exactly_once [OF storage assms(3-5), of mk'' g'] show ?thesis
    by (simp add: session_storage.conflict_on_def [OF storage] ownership_conflict_def Let_def)
qed

theorem command_takes_effect_once_witness:
  "\<exists>db. length (db_events db) = 1 \<and>
     dispatch_run no_decoder demo_ops demo_ids empty_db 0 demo_input =
       (Inr (receipt_for demo_append 1), db) \<and>
     dispatch_run no_decoder demo_ops demo_ids db 7 demo_input = (Inr (receipt_for demo_append 1), db)"
proof -
  from demo_run [of no_decoder] obtain db where db: "length (db_events db) = 1"
    "dispatch_run no_decoder demo_ops demo_ids empty_db 0 demo_input =
       (Inr (receipt_for demo_append 1), db)"
    by blast
  have "sql_inv session_codec counted_receipts empty_db"
    by (simp add: sql_inv_empty empty_db_def)
  from command_takes_effect_once [OF counted_codec_ok counted_receipts_ok this db(2)
      idle [of demo_ops "session_prepares no_decoder demo_ops demo_ids"], of demo_ids 7] db
  show ?thesis by (intro exI [of _ db]) (simp add: demo_input_def Let_def)
qed

section \<open>Optimistic concurrency\<close>

text \<open>C33: An append that was prepared at a version the stream has left
  behind is refused with the actual version and changes nothing, unless its command has a
  receipt.\<close>

theorem stale_append_conflicts:
  assumes "sql_inv ec rc db" "sql_receipt_of rc db (ai_commandId ai) = None"
    and "ai_expectedVersion ai < int (length (sql_stream ec db (ai_streamId ai)))"
  shows "sql_append ec rc now db ai =
    (Inl (StorageConflict (ConcurrencyConflict (ai_streamId ai) (ai_expectedVersion ai)
       (int (length (sql_stream ec db (ai_streamId ai)))))), db)"
proof -
  have "streams_numbered db" using assms(1) by (simp add: sql_inv_def)
  from current_version_length [OF this] assms(2,3) sql_receipt_ok [OF assms(1), of "ai_commandId ai"]
  show ?thesis
    by (simp add: sql_append_def append_transaction_def sql_stream_length [OF assms(1)] Let_def)
qed

theorem stale_append_conflicts_witness:
  "\<exists>db :: event_db. sql_append session_codec counted_receipts (\<lambda>db. ''later'') db
      (demo_append\<lparr>ai_commandId := ''cmd2''\<rparr>) =
    (Inl (StorageConflict (ConcurrencyConflict ''s1'' 0 1)), db)"
proof -
  let ?ec = "session_codec"
  from demo_appended obtain db where
    app: "sql_append ?ec counted_receipts (\<lambda>db. ''now'') empty_db demo_append =
      (Inr (receipt_for demo_append 1), db)" by blast
  note storage = sql_storage_laws [OF counted_codec_ok counted_receipts_ok, of "''session''" "\<lambda>db. ''now''"]
  have inv0: "sql_inv ?ec counted_receipts empty_db"
    and none: "sql_receipt_of counted_receipts empty_db cid = None" for cid
    by (simp_all add: sql_inv_empty empty_db_def sql_receipt_of_def sql_receipt_def)
  from app have op: "op_append demo_ops empty_db demo_append = (Inr (receipt_for demo_append 1), db)"
    by (simp add: sql_ops_def)
  from dispatch_storage.append_new [OF storage inv0 none op] have
    new: "sql_receipt_of counted_receipts db ''cmd2'' = None" "length (sql_stream ?ec db ''s1'') = 1"
    by (auto simp: none demo_append_def append_of_def demo_input_def
        empty_stream [of empty_db] empty_db_events map_eq_Cons_conv)
  have inv: "sql_inv ?ec counted_receipts db"
  proof -
    have "sql_inv ?ec counted_receipts (snd (op_append demo_ops empty_db demo_append))"
      by (rule dispatch_storage.append_inv [OF storage]) (rule inv0)
    then show ?thesis by (simp only: op snd_conv)
  qed
  have "ai_streamId (demo_append\<lparr>ai_commandId := ''cmd2''\<rparr>) = ''s1''"
    "ai_expectedVersion (demo_append\<lparr>ai_commandId := ''cmd2''\<rparr>) = 0"
    by (simp_all add: demo_append_def append_of_def demo_input_def)
  with stale_append_conflicts [OF inv, of "demo_append\<lparr>ai_commandId := ''cmd2''\<rparr>" "\<lambda>db. ''later''"] new
  show ?thesis by (intro exI [of _ db]) simp
qed

section \<open>Fencing\<close>

lemma prepares_unconflicted:
  assumes "op_events ops st (di_streamId input) = Inr stored"
    and "session_prepares dec ops mk st existing input ai"
  shows "ownership_conflict dec (evolve_all dec initial_session_state (map se_event stored))
           (map se_event stored) input = None"
proof -
  from session_prepares_sound [OF assms] have "existing = None" by simp
  with assms show ?thesis
    by (auto simp: session_prepares_def prepare_dispatch_def Let_def split: option.splits)
qed

text \<open>The last attempt of a turn used a tool: no attempt of the turn starts after the message.\<close>

definition tool_used :: "decoder \<Rightarrow> string \<Rightarrow> string \<Rightarrow> session_event list \<Rightarrow> bool" where
  "tool_used dec turn_id reference events \<longleftrightarrow>
     (\<exists>older m u newer. events = older @ MessagePersisted m # newer \<and> mf_turnId m = Some turn_id \<and>
        mf_kind m = ''tool_use'' \<and> dec (mf_contentJson m) = Some (ToolUseContent u) \<and> tu_itemId u = reference \<and>
        (\<forall>e \<in> set newer. event_turn_id e = Some turn_id \<longrightarrow>
           (case e of TurnStarted t tm n a th \<Rightarrow> False | AttemptStarted x \<Rightarrow> False | _ \<Rightarrow> True)))"

lemma tool_anchor_used: "has_tool_anchor dec turn_id reference es \<Longrightarrow> tool_used dec turn_id reference (rev es)"
proof (induction es)
  case (Cons e es)
  have further: "tool_used dec turn_id reference (rev (e # es))"
    if "has_tool_anchor dec turn_id reference es"
      "event_turn_id e = Some turn_id \<Longrightarrow> (case e of TurnStarted t tm n a th \<Rightarrow> False | AttemptStarted x \<Rightarrow> False | _ \<Rightarrow> True)"
  proof -
    from Cons.IH [OF that(1)] obtain older m u newer where
      "rev es = older @ MessagePersisted m # newer" "mf_turnId m = Some turn_id"
      "mf_kind m = ''tool_use''" "dec (mf_contentJson m) = Some (ToolUseContent u)" "tu_itemId u = reference"
      "\<forall>e \<in> set newer. event_turn_id e = Some turn_id \<longrightarrow>
         (case e of TurnStarted t tm n a th \<Rightarrow> False | AttemptStarted x \<Rightarrow> False | _ \<Rightarrow> True)"
      unfolding tool_used_def by blast
    with that(2) show ?thesis
      unfolding tool_used_def
      by (intro exI [of _ older] exI [of _ m] exI [of _ u] exI [of _ "newer @ [e]"]) auto
  qed
  show ?case
  proof (cases "\<exists>m u. e = MessagePersisted m \<and> mf_turnId m = Some turn_id \<and> mf_kind m = ''tool_use'' \<and>
      dec (mf_contentJson m) = Some (ToolUseContent u) \<and> tu_itemId u = reference")
    case True
    then obtain m u where "e = MessagePersisted m" "mf_turnId m = Some turn_id" "mf_kind m = ''tool_use''"
      "dec (mf_contentJson m) = Some (ToolUseContent u)" "tu_itemId u = reference" by blast
    then show ?thesis
      unfolding tool_used_def by (intro exI [of _ "rev es"] exI [of _ m] exI [of _ u] exI [of _ "[]"]) simp
  next
    case False
    from Cons.prems False show ?thesis
      by (intro further; cases e)
        (auto split: if_splits option.splits message_content.splits)
  qed
qed simp

text \<open>C17: A command that names its attempt is appended only while that attempt is the active
  attempt of its turn, in a session that is neither archived nor deleted, and, when the runtime asks
  for it, with the turn not being interrupted; and only while that turn is the current one, save for
  two kinds of late command. Binding the provider's thread is still accepted for the last turn. A
  message is still accepted for the last turn when the turn completed, the runtime holds the reserved
  provider session and the message is about a tool that the turn's last attempt used.\<close>

theorem only_the_owner_writes:
  assumes "op_events ops st (di_streamId input) = Inr stored"
    and "session_prepares dec ops mk st existing input ai"
    and "di_expectedAttempt input = Some own"
  shows "let es = map se_event stored; s = evolve_all dec initial_session_state es;
             turn = map_of (turns s) (ao_turnId own) in
    active_attempt s (ao_turnId own) = Some (ao_attemptId own) \<and> \<not> deleted s \<and> \<not> archived s \<and>
    (ao_requireUninterrupted own = Some True \<longrightarrow> Option.bind turn tn_phase = Some PhaseRunning) \<and>
    (currentTurnId s = Some (ao_turnId own) \<or>
     (\<exists>t h tm. di_command input = BindProviderThread t h tm \<and> map_option tn_ordinal turn = Some (turnCount s)) \<or>
     (\<exists>m reference provider. di_command input = PersistMessage m \<and> mf_turnId m = Some (ao_turnId own) \<and>
        map_option tn_ordinal turn = Some (turnCount s) \<and> map_option tn_status turn = Some TurnCompleted \<and>
        di_expectedProviderSessionId input = Some provider \<and> reserved_provider_session s = Some provider \<and>
        Option.bind (dec (mf_contentJson m)) provider_tool_reference = Some reference \<and>
        tool_used dec (ao_turnId own) reference es))"
proof -
  let ?es = "map se_event stored"
  let ?s = "evolve_all dec initial_session_state ?es"
  let ?turn = "map_of (turns ?s) (ao_turnId own)"
  have owning: "owning_attempt dec ?s ?es input own = Some (ao_attemptId own)"
    and provider: "di_expectedProviderSessionId input = Some p \<Longrightarrow> reserved_provider_session ?s = Some p" for p
    using prepares_unconflicted [OF assms(1,2)] assms(3)
    by (auto simp: ownership_conflict_def Let_def split: option.splits if_splits)
  have tail: "\<exists>t h tm. di_command input = BindProviderThread t h tm \<and> map_option tn_ordinal ?turn = Some (turnCount ?s)"
    if "owns_tail ?s (di_command input) (ao_turnId own)"
    using that by (cases "di_command input") (simp_all add: owns_tail_def)
  have tool: "\<exists>m reference provider. di_command input = PersistMessage m \<and> mf_turnId m = Some (ao_turnId own) \<and>
        map_option tn_ordinal ?turn = Some (turnCount ?s) \<and> map_option tn_status ?turn = Some TurnCompleted \<and>
        di_expectedProviderSessionId input = Some provider \<and> reserved_provider_session ?s = Some provider \<and>
        Option.bind (dec (mf_contentJson m)) provider_tool_reference = Some reference \<and>
        tool_used dec (ao_turnId own) reference ?es"
    if "owns_tool_tail dec ?s ?es input (ao_turnId own)"
    using that provider tool_anchor_used [of dec "ao_turnId own" _ "rev ?es"]
    by (cases "di_command input") (auto simp: owns_tool_tail_def split: option.splits)
  from owning tail tool show ?thesis
    by (auto simp: owning_attempt_def active_attempt_def Let_def split: if_splits)
qed

definition demo_log :: "session_event list" where
  "demo_log =
     (case decide initial_session_state (CreateSessionWithInitialTurn demo_create demo_turn) of
        Inl _ \<Rightarrow> [] | Inr es \<Rightarrow> es)"

definition demo_store :: "session_event memory_store" where
  "demo_store =
     \<lparr>im_eventLog = map (\<lambda>e. \<lparr>se_eventId = ''e'', se_correlationId = ''c'', se_causationEventId = None,
         se_streamId = ''s1'', se_streamVersion = 1, se_sequence = 1, se_event = e\<rparr>) demo_log,
      im_receipts = []\<rparr>"

definition demo_owner :: attempt_ownership where
  "demo_owner =
     \<lparr>ao_requireUninterrupted = Some True, ao_turnId = ''t1'', ao_attemptId = attempt_id_for ''t1'' 1\<rparr>"

definition demo_finalize :: "session_command dispatch_input" where
  "demo_finalize = demo_input\<lparr>di_expectedAttempt := Some demo_owner,
     di_command := FinalizeTurn ''t1'' OutcomeCompleted 50\<rparr>"

fun appends :: "('f, 'e) prepared \<Rightarrow> bool" where
  "appends (Appending ai) = True"
| "appends (Finished x) = False"

lemma demo_finalize_appends:
  "appends (fst (prepare_dispatch no_decoder memory_ops demo_ids demo_store 0 None demo_finalize))"
  by code_simp

theorem only_the_owner_writes_witness:
  "let s = evolve_all no_decoder initial_session_state (map se_event (memory_events_for demo_store ''s1'')) in
    currentTurnId s = Some (ao_turnId demo_owner) \<and>
    active_attempt s (ao_turnId demo_owner) = Some (ao_attemptId demo_owner) \<and>
    \<not> deleted s \<and> \<not> archived s \<and>
    (ao_requireUninterrupted demo_owner = Some True \<longrightarrow>
       Option.bind (map_of (turns s) (ao_turnId demo_owner)) tn_phase = Some PhaseRunning)"
proof -
  from demo_finalize_appends obtain ai where
    "session_prepares no_decoder memory_ops demo_ids demo_store None demo_finalize ai"
    unfolding session_prepares_def by (metis appends.elims(2))
  moreover have "op_events memory_ops demo_store (di_streamId demo_finalize) =
      Inr (memory_events_for demo_store ''s1'')"
    by (simp add: memory_ops_def demo_finalize_def demo_input_def)
  moreover have "di_expectedAttempt demo_finalize = Some demo_owner"
    "di_command demo_finalize = FinalizeTurn ''t1'' OutcomeCompleted 50"
    by (simp_all add: demo_finalize_def)
  ultimately show ?thesis using only_the_owner_writes by (fastforce simp: Let_def)
qed

end
