(* ===== verification/Job_Worker.thy ===== *)
theory Job_Worker
  imports Jobs
begin

text \<open>
  The worker of the job ledger: \<open>agent-engine/job-worker.ts\<close> of \<open>packages/domain/src\<close>.

  One round of a worker reclaims expired leases, claims a job under an owner token of its own,
  renews the lease, executes the job and settles it. The executor is a parameter: its exit is
  the result of the execution, of a cancellation or of a lost lease. Every call of the ledger is
  atomic; the table can change between two calls, so a round is a list of calls, and \<open>run_once\<close>
  is the round nothing interferes with. The wake-up channels and the sleeping of the background
  loops are not modelled.
\<close>

section \<open>Failures\<close>

datatype job_retry = RetryAutomatic | RetryOnDemand | RetryNever

record job_execution_failure =
  jf_message :: string
  jf_retry :: job_retry
  jf_cause :: json

datatype failure_outcome = FailureRetry | FailureWaiting | FailureFailed

record job_failure =
  jfl_job :: job
  jfl_failure :: job_execution_failure
  jfl_outcome :: failure_outcome

text \<open>The exit of an execution: a typed failure, or a defect with its message.\<close>

datatype job_exit = ExitSuccess | ExitFailure job_execution_failure | ExitDefect string json

definition default_job_lease_ms :: int where
  "default_job_lease_ms = 30000"

definition default_job_max_attempts :: int where
  "default_job_max_attempts = 5"

definition default_job_poll_interval_ms :: int where
  "default_job_poll_interval_ms = 30000"

definition default_job_concurrency :: int where
  "default_job_concurrency = 4"

definition default_job_background_grace_ms :: int where
  "default_job_background_grace_ms = 250"

text \<open>A power beyond the range of a double is infinite, and the minimum is the same.\<close>

definition retry_delay_ms :: "int \<Rightarrow> int" where
  "retry_delay_ms attempt_count = min 30000 (100 * 2 ^ nat (max 0 (attempt_count - 1)))"

section \<open>Settling\<close>

definition exit_failure :: "job_exit \<Rightarrow> job_execution_failure option" where
  "exit_failure exit =
     (case exit of
        ExitSuccess \<Rightarrow> None
      | ExitFailure f \<Rightarrow> Some f
      | ExitDefect message cause \<Rightarrow>
          Some \<lparr>jf_message = message, jf_retry = RetryNever, jf_cause = cause\<rparr>)"

definition failure_outcome_of :: "int \<Rightarrow> job \<Rightarrow> job_execution_failure \<Rightarrow> failure_outcome" where
  "failure_outcome_of max_attempts job failure =
     (if jf_retry failure = RetryOnDemand then FailureWaiting
      else if jf_retry failure = RetryAutomatic \<and> jo_attemptCount job < max_attempts
      then FailureRetry else FailureFailed)"

definition settle_failure ::
  "int \<Rightarrow> string \<Rightarrow> job \<Rightarrow> job_execution_failure \<Rightarrow> failure_outcome \<Rightarrow> job_table \<Rightarrow> bool \<times> job_table"
where
  "settle_failure now owner job failure outcome =
     (case outcome of
        FailureRetry \<Rightarrow>
          retry_job now (jo_id job) owner (retry_delay_ms (jo_attemptCount job)) (jf_message failure)
      | FailureWaiting \<Rightarrow> hold_job now (jo_id job) owner (jf_message failure)
      | FailureFailed \<Rightarrow> fail_job now (jo_id job) owner (jf_message failure))"

text \<open>The failure that is reported, if one is, with the new table.\<close>

definition settle_job ::
  "int \<Rightarrow> int \<Rightarrow> job \<Rightarrow> job_exit \<Rightarrow> job_table \<Rightarrow> job_failure option \<times> job_table" where
  "settle_job max_attempts now job exit jt =
     (case jo_leaseOwner job of
        None \<Rightarrow> (None, jt)
      | Some owner \<Rightarrow>
          (case exit_failure exit of
             None \<Rightarrow> (None, snd (succeed_job now (jo_id job) owner jt))
           | Some failure \<Rightarrow>
               let outcome = failure_outcome_of max_attempts job failure in
               case settle_failure now owner job failure outcome jt of
                 (settled, jt') \<Rightarrow>
                   (if settled
                    then Some \<lparr>jfl_job = job, jfl_failure = failure, jfl_outcome = outcome\<rparr>
                    else None, jt')))"

section \<open>A round\<close>

record worker_options =
  wo_excludedKinds :: "job_kind list"
  wo_workerId :: string
  wo_leaseMs :: int
  wo_maxAttempts :: int
  wo_pollIntervalMs :: int
  wo_backgroundGraceMs :: int

text \<open>\<open>`${workerId}:${randomUUID()}`\<close>\<close>

definition claim_owner :: "worker_options \<Rightarrow> string \<Rightarrow> string" where
  "claim_owner wo uuid = wo_workerId wo @ '':'' @ uuid"

definition round_claim ::
  "worker_options \<Rightarrow> string \<Rightarrow> int \<Rightarrow> string option \<Rightarrow> int option \<Rightarrow> claim_input" where
  "round_claim wo uuid min_age session_id waiting_before =
     \<lparr>cl_excludedKinds = wo_excludedKinds wo, cl_workerId = claim_owner wo uuid,
      cl_leaseMs = wo_leaseMs wo, cl_minAgeMs = min_age, cl_sessionId = session_id,
      cl_includeWaitingBefore = waiting_before\<rparr>"

text \<open>
  The times of the calls are arguments: \<open>t1\<close> reclaims, \<open>t2\<close> claims, \<open>t3\<close> renews before the
  execution, \<open>t4\<close> settles. A lease that is lost before the execution settles as a success of
  nothing, which the ledger ignores. The result says whether a job was claimed.
\<close>

definition run_once ::
  "job_codec \<Rightarrow> worker_options \<Rightarrow> (job \<Rightarrow> job_exit) \<Rightarrow> claim_input \<Rightarrow> int \<Rightarrow> int \<Rightarrow> int \<Rightarrow> int \<Rightarrow>
   job_table \<Rightarrow> (job_ledger_error + bool \<times> job_failure option) \<times> job_table"
where
  "run_once jc wo execute input t1 t2 t3 t4 jt =
     (let jt1 = snd (reclaim_expired t1 jt) in
      case claim_next jc t2 input jt1 of
        (Inl e, jt2) \<Rightarrow> (Inl e, jt2)
      | (Inr None, jt2) \<Rightarrow> (Inr (False, None), jt2)
      | (Inr (Some job), jt2) \<Rightarrow>
          (case renew_lease t3 (jo_id job) (cl_workerId input) (wo_leaseMs wo) jt2 of
             (owned, jt3) \<Rightarrow>
               let exit = (if owned then execute job else ExitSuccess) in
               case settle_job (wo_maxAttempts wo) t4 job exit jt3 of
                 (failure, jt4) \<Rightarrow> (Inr (True, failure), jt4)))"

text \<open>How long a background loop sleeps when it found nothing to do; \<open>now\<close> is its clock.\<close>

definition idle_delay_ms :: "worker_options \<Rightarrow> int \<Rightarrow> job_table \<Rightarrow> int" where
  "idle_delay_ms wo now jt =
     (case next_available_at jt of
        None \<Rightarrow> min (wo_pollIntervalMs wo) (wo_leaseMs wo)
      | Some next_at \<Rightarrow>
          let until_available = next_at + wo_backgroundGraceMs wo - now;
              minimum_delay = (if wo_excludedKinds wo \<noteq> [] then 1000 else 25) in
          min (wo_pollIntervalMs wo) (max minimum_delay until_available))"

end
