(* ===== verification/Job_Properties.thy ===== *)
theory Job_Properties
  imports Job_Worker
begin

text \<open>
  What the job ledger promises. \<open>ledger_steps\<close> interleaves the calls of any number of workers,
  dispatches and restarts; the invariant of the table, the fate of settled jobs and the fencing
  of lost leases hold along every such sequence.
\<close>

section \<open>Interleaved calls\<close>

text \<open>A call of the ledger at a time of some clock.\<close>

datatype ledger_call =
  CallEnqueue int "pending_job list"
| CallClaim int claim_input
| CallRenew int string string int
| CallReclaim int
| CallSucceed int string string
| CallRetry int string string int string
| CallHold int string string string
| CallFail int string string string
| CallCancel int string "job_kind list" string
| CallReconcile int

fun run_call :: "job_codec \<Rightarrow> ledger_call \<Rightarrow> job_table \<Rightarrow> job_table" where
  "run_call jc (CallEnqueue now ps) jt = snd (enqueue_jobs jc now ps jt)"
| "run_call jc (CallClaim now input) jt = snd (claim_next jc now input jt)"
| "run_call jc (CallRenew now job_id owner lease) jt = snd (renew_lease now job_id owner lease jt)"
| "run_call jc (CallReclaim now) jt = snd (reclaim_expired now jt)"
| "run_call jc (CallSucceed now job_id owner) jt = snd (succeed_job now job_id owner jt)"
| "run_call jc (CallRetry now job_id owner delay err) jt = snd (retry_job now job_id owner delay err jt)"
| "run_call jc (CallHold now job_id owner err) jt = snd (hold_job now job_id owner err jt)"
| "run_call jc (CallFail now job_id owner err) jt = snd (fail_job now job_id owner err jt)"
| "run_call jc (CallCancel now sid kinds reason) jt = snd (cancel_unsettled now sid kinds reason jt)"
| "run_call jc (CallReconcile now) jt = snd (reconcile_after_process_loss now jt)"

definition ledger_calls :: "job_codec \<Rightarrow> ledger_call list \<Rightarrow> job_table \<Rightarrow> job_table" where
  "ledger_calls jc calls jt = foldl (\<lambda>jt c. run_call jc c jt) jt calls"

definition empty_job_table :: job_table where
  "empty_job_table = \<lparr>jt_rows = [], jt_lastSequence = 0\<rparr>"

section \<open>The invariant\<close>

text \<open>A job is running exactly when it has a lease, and completed exactly when it is settled.\<close>

definition row_ok :: "job_row \<Rightarrow> bool" where
  "row_ok row \<longleftrightarrow>
     (jr_status row = JobRunning \<longleftrightarrow> jr_leaseOwner row \<noteq> None) \<and>
     (jr_status row = JobRunning \<longleftrightarrow> jr_leaseExpiresAt row \<noteq> None) \<and>
     (unsettled (jr_status row) \<longleftrightarrow> jr_completedAt row = None) \<and> 0 \<le> jr_attemptCount row"

definition running_sessions :: "job_row list \<Rightarrow> string list" where
  "running_sessions rows = map jr_sessionId (filter (\<lambda>row. jr_status row = JobRunning) rows)"

definition ledger_inv :: "job_table \<Rightarrow> bool" where
  "ledger_inv jt \<longleftrightarrow>
     distinct (map jr_id (jt_rows jt)) \<and> sorted_wrt (<) (map jr_sequence (jt_rows jt)) \<and>
     (\<forall>row \<in> set (jt_rows jt). jr_sequence row \<le> jt_lastSequence jt \<and> row_ok row) \<and>
     distinct (running_sessions (jt_rows jt))"

section \<open>Updates row by row\<close>

definition same_job :: "job_row \<Rightarrow> job_row \<Rightarrow> bool" where
  "same_job x y \<longleftrightarrow>
     jr_id y = jr_id x \<and> jr_sequence y = jr_sequence x \<and> jr_sessionId y = jr_sessionId x \<and>
     jr_kind y = jr_kind x \<and> jr_requestJson y = jr_requestJson x"

text \<open>A row that a call other than a claim may change, and how.\<close>

definition row_step :: "job_row \<Rightarrow> job_row \<Rightarrow> bool" where
  "row_step x y \<longleftrightarrow>
     same_job x y \<and> unsettled (jr_status x) \<and> (row_ok x \<longrightarrow> row_ok y) \<and>
     (jr_status y = JobRunning \<longrightarrow> jr_status x = JobRunning \<and> jr_leaseOwner y = jr_leaseOwner x) \<and>
     (jr_leaseOwner y = None \<or> jr_leaseOwner y = jr_leaseOwner x)"

definition maps_rows :: "(job_row \<Rightarrow> job_row \<Rightarrow> bool) \<Rightarrow> job_table \<Rightarrow> job_table \<Rightarrow> bool" where
  "maps_rows R jt jt' \<longleftrightarrow>
     jt_lastSequence jt' = jt_lastSequence jt \<and>
     list_all2 (\<lambda>x y. y = x \<or> R x y) (jt_rows jt) (jt_rows jt')"

lemma update_jobs_maps:
  assumes "\<And>x. x \<in> set (jt_rows jt) \<Longrightarrow> p x \<Longrightarrow> R x (f x)"
  shows "maps_rows R jt (snd (update_jobs p f jt))"
  using assms by (auto simp: maps_rows_def update_jobs_def list_all2_conv_all_nth)

lemma maps_rows_refl: "maps_rows R jt jt"
  by (simp add: maps_rows_def list_all2_conv_all_nth)

lemma held_update_maps:
  assumes "\<And>x. holds_lease now job_id owner x \<Longrightarrow> R x (f x)"
  shows "maps_rows R jt (snd (held_update now job_id owner f jt))"
  using update_jobs_maps [of jt "holds_lease now job_id owner" R f] assms
  by (simp add: held_update_def case_prod_beta)

lemmas row_step_defs =
  row_step_def same_job_def row_ok_def released_def cancelled_row_def unsettled_def holds_lease_def

lemma every_kind_replayable: "k \<in> set replayable_job_kinds"
  by (cases k) (simp_all add: replayable_job_kinds_def)

lemma reconcile_table:
  "snd (reconcile_after_process_loss now jt) =
     snd (update_jobs (\<lambda>row. jr_status row = JobRunning \<or> jr_status row = JobWaiting)
       (\<lambda>row. (released row)\<lparr>jr_status := JobPending, jr_availableAt := now,
          jr_lastError := Some ''Requeued after the previous server process ended.'',
          jr_updatedAt := now\<rparr>) jt)"
  by (simp add: reconcile_after_process_loss_def update_jobs_def every_kind_replayable
      case_prod_beta Let_def)

fun quiet_call :: "ledger_call \<Rightarrow> bool" where
  "quiet_call (CallEnqueue now ps) = False"
| "quiet_call (CallClaim now input) = False"
| "quiet_call _ = True"

lemma quiet_call_maps:
  assumes "quiet_call c"
  shows "maps_rows row_step jt (run_call jc c jt)"
proof (cases c)
  case (CallCancel now sid kinds reason)
  then show ?thesis
    by (auto simp: cancel_unsettled_def maps_rows_refl row_step_defs intro!: update_jobs_maps)
next
  case (CallReconcile now)
  show ?thesis
    unfolding CallReconcile run_call.simps reconcile_table
    by (rule update_jobs_maps) (auto simp: row_step_defs)
next
  case (CallReclaim now)
  then show ?thesis
    by (auto simp: reclaim_expired_def case_prod_beta row_step_defs intro!: update_jobs_maps)
qed (use assms in \<open>auto simp: renew_lease_def succeed_job_def retry_job_def hold_job_def fail_job_def
       row_step_defs intro!: held_update_maps\<close>)

section \<open>Claims\<close>

definition claim_step :: "claim_input \<Rightarrow> int \<Rightarrow> job_row list \<Rightarrow> job_row \<Rightarrow> job_row \<Rightarrow> bool" where
  "claim_step input now rows x y \<longleftrightarrow> claimable input now rows x \<and> y = claimed_row input now x"

lemma sorted_head_least:
  assumes "sort_key f (filter P xs) = x # rest"
  shows "x \<in> set xs" "P x" "\<forall>y \<in> set xs. P y \<longrightarrow> f x \<le> f y"
proof -
  have s: "set (x # rest) = set (filter P xs)"
    unfolding assms [symmetric] by simp
  then have x: "x \<in> set (filter P xs)" by auto
  then show "x \<in> set xs" "P x" by simp_all
  have "sorted (map f (x # rest))" unfolding assms [symmetric] by simp
  then have "\<forall>y \<in> set (x # rest). f x \<le> f y" by auto
  with s show "\<forall>y \<in> set xs. P y \<longrightarrow> f x \<le> f y" by auto
qed

lemma claim_next_cases:
  assumes "ledger_inv jt"
  shows "(\<forall>x \<in> set (jt_rows jt). \<not> claimable input now (jt_rows jt) x) \<and>
      claim_next jc now input jt = (Inr None, jt) \<or>
    (\<exists>before row after. jt_rows jt = before @ row # after \<and> claimable input now (jt_rows jt) row \<and>
       (\<forall>x \<in> set (jt_rows jt). claimable input now (jt_rows jt) x \<longrightarrow> jr_sequence row \<le> jr_sequence x) \<and>
       claim_next jc now input jt =
         (case decode_job_row jc (claimed_row input now row) of Inl e \<Rightarrow> Inl e | Inr job \<Rightarrow> Inr (Some job),
          jt\<lparr>jt_rows := before @ claimed_row input now row # after\<rparr>))"
proof (cases "sort_key jr_sequence (filter (claimable input now (jt_rows jt)) (jt_rows jt))")
  case Nil
  then have "filter (claimable input now (jt_rows jt)) (jt_rows jt) = []"
    by (metis length_0_conv length_sort)
  with Nil show ?thesis by (auto simp: claim_next_def filter_empty_conv)
next
  case (Cons row rest)
  note row = sorted_head_least [OF Cons]
  from row(1) obtain before after where rows: "jt_rows jt = before @ row # after"
    by (auto dest: split_list)
  from assms have "sorted_wrt (<) (map jr_sequence (before @ row # after))"
    by (simp add: ledger_inv_def rows)
  then have "\<forall>x \<in> set before \<union> set after. jr_sequence x \<noteq> jr_sequence row"
    by (auto simp: sorted_wrt_append)
  then have "map (\<lambda>x. if jr_sequence x = jr_sequence row then claimed_row input now x else x) (jt_rows jt) =
      before @ claimed_row input now row # after"
    by (auto simp: rows intro!: map_idI)
  then have "claim_next jc now input jt =
      (case decode_job_row jc (claimed_row input now row) of Inl e \<Rightarrow> Inl e | Inr job \<Rightarrow> Inr (Some job),
       jt\<lparr>jt_rows := before @ claimed_row input now row # after\<rparr>)"
    unfolding claim_next_def Cons list.case by (simp add: update_jobs_def)
  with row rows show ?thesis by blast
qed

lemma claim_maps:
  assumes "ledger_inv jt"
  shows "maps_rows (claim_step input now (jt_rows jt)) jt (snd (claim_next jc now input jt))"
  using claim_next_cases [OF assms, of input now jc]
  by (auto simp: maps_rows_def claim_step_def maps_rows_refl list_all2_refl intro!: list_all2_appendI)

section \<open>The invariant holds\<close>

lemma maps_rows_same:
  assumes "list_all2 (\<lambda>x y. y = x \<or> R x y) xs ys" "\<And>x y. R x y \<Longrightarrow> same_job x y"
  shows "map jr_id ys = map jr_id xs \<and> map jr_sequence ys = map jr_sequence xs \<and>
    map jr_sessionId ys = map jr_sessionId xs"
  using assms(1)
  by (induction rule: list_all2_induct) (use assms(2) in \<open>auto simp: same_job_def\<close>)

lemma running_sessions_simps [simp]:
  "running_sessions [] = []"
  "running_sessions (x # xs) =
     (if jr_status x = JobRunning then jr_sessionId x # running_sessions xs else running_sessions xs)"
  "running_sessions (xs @ ys) = running_sessions xs @ running_sessions ys"
  by (simp_all add: running_sessions_def)

lemma quiet_running:
  assumes "list_all2 (\<lambda>x y. y = x \<or> row_step x y) xs ys"
  shows "set (running_sessions ys) \<subseteq> set (running_sessions xs) \<and>
    (distinct (running_sessions xs) \<longrightarrow> distinct (running_sessions ys))"
  using assms
  by (induction rule: list_all2_induct) (auto simp: row_step_def same_job_def)

lemma quiet_rows_ok:
  assumes "list_all2 (\<lambda>x y. y = x \<or> row_step x y) xs ys" "\<forall>x \<in> set xs. jr_sequence x \<le> n \<and> row_ok x"
  shows "\<forall>y \<in> set ys. jr_sequence y \<le> n \<and> row_ok y"
proof
  fix y
  assume "y \<in> set ys"
  then obtain x where "x \<in> set xs" "y = x \<or> row_step x y"
    using assms(1) unfolding list_all2_conv_all_nth in_set_conv_nth by metis
  with assms(2) show "jr_sequence y \<le> n \<and> row_ok y"
    by (elim disjE) (simp_all add: row_step_def same_job_def)
qed

lemma quiet_call_inv:
  assumes "quiet_call c" "ledger_inv jt"
  shows "ledger_inv (run_call jc c jt)"
proof -
  let ?jt = "run_call jc c jt"
  from quiet_call_maps [OF assms(1), where jc = jc and jt = jt] have m:
    "jt_lastSequence ?jt = jt_lastSequence jt"
    "list_all2 (\<lambda>x y. y = x \<or> row_step x y) (jt_rows jt) (jt_rows ?jt)"
    by (simp_all add: maps_rows_def)
  have "map jr_id (jt_rows ?jt) = map jr_id (jt_rows jt)"
    "map jr_sequence (jt_rows ?jt) = map jr_sequence (jt_rows jt)"
    using maps_rows_same [OF m(2)] by (simp_all add: row_step_def)
  moreover have "\<forall>y \<in> set (jt_rows ?jt). jr_sequence y \<le> jt_lastSequence jt \<and> row_ok y"
    using quiet_rows_ok [OF m(2)] assms(2) unfolding ledger_inv_def by blast
  moreover have "distinct (running_sessions (jt_rows ?jt))"
    using quiet_running [OF m(2)] assms(2) unfolding ledger_inv_def by blast
  ultimately show ?thesis using assms(2) by (simp only: ledger_inv_def m(1))
qed

lemma claimed_row_same: "same_job row (claimed_row input now row)"
  by (simp add: same_job_def claimed_row_def)

lemma claimed_row_ok: "\<lbrakk>row_ok row; unsettled (jr_status row)\<rbrakk> \<Longrightarrow> row_ok (claimed_row input now row)"
  by (auto simp: row_ok_def claimed_row_def unsettled_def)

lemma claim_inv:
  assumes "ledger_inv jt"
  shows "ledger_inv (snd (claim_next jc now input jt))"
  using claim_next_cases [OF assms, of input now jc]
proof (elim disjE conjE exE)
  fix before row after
  assume rows: "jt_rows jt = before @ row # after" and c: "claimable input now (jt_rows jt) row"
    and claim: "claim_next jc now input jt =
      (case decode_job_row jc (claimed_row input now row) of Inl e \<Rightarrow> Inl e | Inr job \<Rightarrow> Inr (Some job),
       jt\<lparr>jt_rows := before @ claimed_row input now row # after\<rparr>)"
  let ?row = "claimed_row input now row"
  from c have free: "jr_sessionId row \<notin> set (running_sessions (before @ row # after))"
    "jr_status row \<noteq> JobRunning" "unsettled (jr_status row)"
    by (auto simp: claimable_def rows running_sessions_def list_ex_iff unsettled_def)
  note same = claimed_row_same [of row input now, unfolded same_job_def]
  from assms have inv: "distinct (map jr_id (before @ row # after))"
    "sorted_wrt (<) (map jr_sequence (before @ row # after))"
    "\<forall>x \<in> set (before @ row # after). jr_sequence x \<le> jt_lastSequence jt \<and> row_ok x"
    "distinct (running_sessions (before @ row # after))"
    by (simp_all add: ledger_inv_def rows)
  from inv(1,2) have "distinct (map jr_id (before @ ?row # after))"
    "sorted_wrt (<) (map jr_sequence (before @ ?row # after))"
    by (simp_all add: same)
  moreover have "\<forall>x \<in> set (before @ ?row # after). jr_sequence x \<le> jt_lastSequence jt \<and> row_ok x"
    using inv(3) claimed_row_ok [OF _ free(3)] by (simp add: same)
  moreover have "distinct (running_sessions (before @ ?row # after))"
    using inv(4) free(1,2) by (simp add: same)
  ultimately show ?thesis unfolding claim by (simp add: ledger_inv_def)
qed (use assms in simp)

lemma insert_job_inv: "ledger_inv jt \<Longrightarrow> ledger_inv (snd (insert_job jc now jt p))"
  by (fastforce simp: insert_job_def ledger_inv_def list_ex_iff sorted_wrt_append row_ok_def unsettled_def)

lemma enqueue_jobs_inv: "ledger_inv jt \<Longrightarrow> ledger_inv (snd (enqueue_jobs jc now ps jt))"
proof (induction ps arbitrary: jt)
  case (Cons p ps)
  then show ?case using insert_job_inv [of jt jc now p] by (auto simp: case_prod_beta)
qed simp

lemma run_call_inv: "ledger_inv jt \<Longrightarrow> ledger_inv (run_call jc c jt)"
  using quiet_call_inv [where c = c and jt = jt and jc = jc]
  by (cases c) (auto simp: enqueue_jobs_inv claim_inv)

lemma ledger_calls_inv: "ledger_inv jt \<Longrightarrow> ledger_inv (ledger_calls jc calls jt)"
  unfolding ledger_calls_def by (induction calls arbitrary: jt) (simp_all add: run_call_inv)

lemma empty_ledger_inv: "ledger_inv empty_job_table"
  by (simp add: ledger_inv_def empty_job_table_def)

section \<open>Properties of the ledger\<close>

text \<open>C6: Whatever calls workers, dispatches and restarts make in
  whatever order, job ids and sequences stay unique, a job is running exactly while it has a
  lease, it has a completion time exactly when it is settled, and no session has two running
  jobs.\<close>

theorem one_running_job_per_session:
  "ledger_inv (ledger_calls jc calls empty_job_table)"
  by (rule ledger_calls_inv [OF empty_ledger_inv])

text \<open>A settled row is none that a call maps.\<close>

lemma run_call_keeps_settled:
  assumes "ledger_inv jt" "row \<in> set (jt_rows jt)" "\<not> unsettled (jr_status row)"
  shows "row \<in> set (jt_rows (run_call jc c jt))"
proof -
  have enq: "row \<in> set (jt_rows (snd (enqueue_jobs jc now ps jt)))" for now ps
    using assms(2)
    by (induction ps arbitrary: jt) (auto simp: case_prod_beta insert_job_def)
  have maps: "row \<in> set ys" if "list_all2 (\<lambda>x y. y = x \<or> R x y) (jt_rows jt) ys"
    "\<And>x y. R x y \<Longrightarrow> unsettled (jr_status x)" for R ys
  proof -
    from assms(2) obtain i where "i < length (jt_rows jt)" "jt_rows jt ! i = row"
      by (auto simp: in_set_conv_nth)
    with that assms(3) show ?thesis
      unfolding list_all2_conv_all_nth in_set_conv_nth by metis
  qed
  show ?thesis
  proof (cases "quiet_call c")
    case True
    from quiet_call_maps [OF this, where jc = jc and jt = jt] show ?thesis
      by (intro maps [where R = row_step]) (simp_all add: maps_rows_def row_step_def)
  next
    case False
    then obtain now ps input where "c = CallEnqueue now ps \<or> c = CallClaim now input"
      by (cases c) auto
    then show ?thesis
    proof
      assume "c = CallClaim now input"
      with claim_maps [OF assms(1), of input now jc] show ?thesis
        by (intro maps [where R = "claim_step input now (jt_rows jt)"])
          (auto simp: maps_rows_def claim_step_def claimable_def unsettled_def)
    qed (simp add: enq)
  qed
qed

text \<open>C27: A job that has succeeded, failed or been cancelled is never changed
  again: it is not claimed, retried, cancelled, requeued after a restart or enqueued a second
  time.\<close>

theorem settled_jobs_stay:
  assumes "ledger_inv jt" "row \<in> set (jt_rows jt)" "\<not> unsettled (jr_status row)"
  shows "row \<in> set (jt_rows (ledger_calls jc calls jt))"
  using assms unfolding ledger_calls_def
proof (induction calls arbitrary: jt)
  case (Cons c calls)
  then show ?case using run_call_keeps_settled [OF Cons.prems] run_call_inv [OF Cons.prems(1)] by simp
qed simp

definition demo_job_codec :: job_codec where
  "demo_job_codec = \<lparr>jc_encode = (\<lambda>r. ''request''), jc_decode = (\<lambda>s. Inr (ProviderStop None 1))\<rparr>"

definition demo_pending :: "string \<Rightarrow> pending_job" where
  "demo_pending key =
     \<lparr>pj_id = key, pj_sessionId = ''s1'', pj_request = ProviderStop None 1,
      pj_causationEventId = ''e1'', pj_correlationId = ''c1''\<rparr>"

definition demo_claim :: claim_input where
  "demo_claim =
     \<lparr>cl_excludedKinds = [], cl_workerId = ''w:1'', cl_leaseMs = 30000, cl_minAgeMs = 0,
      cl_sessionId = None, cl_includeWaitingBefore = None\<rparr>"

definition demo_jobs :: job_table where
  "demo_jobs =
     ledger_calls demo_job_codec
       [CallEnqueue 10 [demo_pending ''j1'', demo_pending ''j2''], CallClaim 20 demo_claim]
       empty_job_table"

definition demo_settled :: job_table where
  "demo_settled = run_call demo_job_codec (CallSucceed 30 ''j1'' ''w:1'') demo_jobs"

lemma demo_inv: "ledger_inv demo_jobs" "ledger_inv demo_settled"
  unfolding demo_settled_def demo_jobs_def
  by (intro run_call_inv ledger_calls_inv empty_ledger_inv)+

theorem settled_jobs_stay_witness:
  "\<exists>row. jr_id row = ''j1'' \<and> jr_status row = JobSucceeded \<and>
     row \<in> set (jt_rows (ledger_calls demo_job_codec
       [CallReconcile 40, CallCancel 50 ''s1'' job_kinds ''stop'', CallEnqueue 60 [demo_pending ''j1'']]
       demo_settled))"
proof -
  have "list_ex (\<lambda>row. jr_id row = ''j1'' \<and> jr_status row = JobSucceeded) (jt_rows demo_settled)"
    by code_simp
  then obtain row where "row \<in> set (jt_rows demo_settled)" "jr_id row = ''j1''" "jr_status row = JobSucceeded"
    by (auto simp: list_ex_iff)
  with settled_jobs_stay [OF demo_inv(2)] show ?thesis by (intro exI [of _ row]) (simp add: unsettled_def)
qed

section \<open>Leases\<close>

text \<open>The calls that settle a claim, with their time, the job and the owner they act for.\<close>

fun settles :: "ledger_call \<Rightarrow> (int \<times> string \<times> string) option" where
  "settles (CallSucceed now job_id owner) = Some (now, job_id, owner)"
| "settles (CallRetry now job_id owner delay err) = Some (now, job_id, owner)"
| "settles (CallHold now job_id owner err) = Some (now, job_id, owner)"
| "settles (CallFail now job_id owner err) = Some (now, job_id, owner)"
| "settles _ = None"

fun claims_as :: "string \<Rightarrow> ledger_call \<Rightarrow> bool" where
  "claims_as owner (CallClaim now input) = (cl_workerId input = owner)"
| "claims_as owner _ = False"

definition leased_to :: "string \<Rightarrow> string \<Rightarrow> job_table \<Rightarrow> bool" where
  "leased_to job_id owner jt \<longleftrightarrow>
     (\<exists>row \<in> set (jt_rows jt). jr_id row = job_id \<and> jr_leaseOwner row = Some owner)"

lemma settle_call_table:
  assumes "settles c = Some (now, job_id, owner)"
  shows "\<exists>f. run_call jc c jt = snd (update_jobs (holds_lease now job_id owner) f jt) \<and>
    (\<forall>x. jr_id (f x) = jr_id x \<and> jr_leaseOwner (f x) = None)"
  using assms
  by (cases c)
    (auto simp: succeed_job_def retry_job_def hold_job_def fail_job_def held_update_def
      case_prod_beta released_def)

lemma not_leased_update:
  "\<lbrakk>\<not> leased_to job_id owner jt\<rbrakk> \<Longrightarrow> snd (update_jobs (holds_lease now job_id owner) f jt) = jt"
proof -
  assume "\<not> leased_to job_id owner jt"
  then have "map (\<lambda>row. if holds_lease now job_id owner row then f row else row) (jt_rows jt) = jt_rows jt"
    by (intro map_idI) (auto simp: leased_to_def holds_lease_def)
  then show ?thesis by (simp add: update_jobs_def)
qed

lemma settled_not_leased:
  assumes "ledger_inv jt" "settles c = Some (now, job_id, owner)"
    "list_ex (holds_lease now job_id owner) (jt_rows jt)"
  shows "\<not> leased_to job_id owner (run_call jc c jt)"
proof
  from settle_call_table [OF assms(2), where jc = jc and jt = jt] obtain f where
    f: "run_call jc c jt = snd (update_jobs (holds_lease now job_id owner) f jt)"
    "\<forall>x. jr_id (f x) = jr_id x \<and> jr_leaseOwner (f x) = None" by blast
  assume "leased_to job_id owner (run_call jc c jt)"
  then obtain x where x: "x \<in> set (jt_rows jt)" "jr_id x = job_id" "\<not> holds_lease now job_id owner x"
    using f by (fastforce simp: leased_to_def update_jobs_def split: if_split_asm)
  from assms(3) obtain y where y: "y \<in> set (jt_rows jt)" "holds_lease now job_id owner y"
    by (auto simp: list_ex_iff)
  have "inj_on jr_id (set (jt_rows jt))"
    using assms(1) by (simp add: ledger_inv_def distinct_map)
  with x y have "x = y" by (auto simp: inj_on_def holds_lease_def)
  with x y show False by simp
qed

lemma run_call_not_leased:
  assumes "ledger_inv jt" "\<not> leased_to job_id owner jt" "\<not> claims_as owner c"
  shows "\<not> leased_to job_id owner (run_call jc c jt)"
proof -
  have ins: "\<not> leased_to job_id owner t \<Longrightarrow> \<not> leased_to job_id owner (snd (insert_job jc now t p))"
    for now t p
    by (auto simp: insert_job_def leased_to_def)
  have enq: "\<not> leased_to job_id owner (snd (enqueue_jobs jc now ps jt))" for now ps
    using assms(2) by (induction ps arbitrary: jt) (simp_all add: case_prod_beta ins)
  have maps: "\<not> leased_to job_id owner jt'" if "maps_rows R jt jt'"
    "\<And>x y. R x y \<Longrightarrow> jr_id y = jr_id x \<and>
       (jr_leaseOwner y = jr_leaseOwner x \<or> jr_leaseOwner y \<noteq> Some owner)" for R jt'
  proof
    assume "leased_to job_id owner jt'"
    then obtain y where y: "y \<in> set (jt_rows jt')" "jr_id y = job_id" "jr_leaseOwner y = Some owner"
      by (auto simp: leased_to_def)
    with that(1) obtain x where "x \<in> set (jt_rows jt)" "y = x \<or> R x y"
      unfolding maps_rows_def list_all2_conv_all_nth in_set_conv_nth by metis
    with that(2) [of x y] y assms(2) show False by (auto simp: leased_to_def)
  qed
  show ?thesis
  proof (cases "quiet_call c")
    case True
    from quiet_call_maps [OF this, where jc = jc and jt = jt] show ?thesis
      by (rule maps) (auto simp: row_step_def same_job_def)
  next
    case False
    then obtain now ps input where "c = CallEnqueue now ps \<or> c = CallClaim now input"
      by (cases c) auto
    then show ?thesis
    proof
      assume c: "c = CallClaim now input"
      have "\<not> leased_to job_id owner (snd (claim_next jc now input jt))"
        by (rule maps [OF claim_maps [OF assms(1)]])
          (use assms(3) in \<open>auto simp: c claim_step_def claimed_row_def\<close>)
      with c show ?thesis by simp
    qed (simp add: enq)
  qed
qed

text \<open>C19: When the holder of a lease has settled its claim, no later call for
  that claim settles it again or changes anything, however the ledger moved on, unless a new
  claim is made under the same owner token, which every acquisition draws afresh.\<close>

theorem lease_settles_once:
  assumes "ledger_inv jt" "settles c = Some (now, job_id, owner)"
    and "list_ex (holds_lease now job_id owner) (jt_rows jt)"
    and "list_all (\<lambda>c'. \<not> claims_as owner c') calls" "settles c2 = Some (now2, job_id, owner)"
  shows "let jt' = ledger_calls jc calls (run_call jc c jt) in run_call jc c2 jt' = jt'"
proof -
  have "ledger_inv (run_call jc c jt)" "\<not> leased_to job_id owner (run_call jc c jt)"
    using settled_not_leased [OF assms(1-3)] run_call_inv [OF assms(1)] by simp_all
  then have "\<not> leased_to job_id owner (ledger_calls jc calls (run_call jc c jt))"
    using assms(4) unfolding ledger_calls_def
    by (induction calls arbitrary: jt rule: rev_induct)
      (simp_all add: run_call_not_leased ledger_calls_inv [unfolded ledger_calls_def])
  with settle_call_table [OF assms(5), where jc = jc] not_leased_update show ?thesis
    unfolding Let_def by metis
qed

theorem lease_settles_once_witness:
  "let jt' = ledger_calls demo_job_codec
       [CallReclaim 60000, CallClaim 60000 (demo_claim\<lparr>cl_workerId := ''w:2''\<rparr>)]
       (run_call demo_job_codec (CallRetry 30 ''j1'' ''w:1'' 100 ''failed'') demo_jobs) in
   run_call demo_job_codec (CallSucceed 60001 ''j1'' ''w:1'') jt' = jt'"
proof -
  have "list_ex (holds_lease 30 ''j1'' ''w:1'') (jt_rows demo_jobs)" by code_simp
  then show ?thesis
    by (intro lease_settles_once [OF demo_inv(1)]) (simp_all add: demo_claim_def)
qed

section \<open>Claiming in order\<close>

text \<open>C20: A claim finds nothing exactly when no job is claimable. Otherwise
  it leases the claimable job with the smallest sequence to the claimer, counts the attempt, and
  leaves every other row alone; the session of that job had no running job.\<close>

theorem claim_takes_the_oldest:
  assumes "ledger_inv jt"
  shows "if list_ex (claimable input now (jt_rows jt)) (jt_rows jt)
    then \<exists>before row after. jt_rows jt = before @ row # after \<and>
      claimable input now (jt_rows jt) row \<and>
      list_all (\<lambda>x. claimable input now (jt_rows jt) x \<longrightarrow> jr_sequence row \<le> jr_sequence x) (jt_rows jt) \<and>
      \<not> has_running jt (jr_sessionId row) \<and>
      snd (claim_next jc now input jt) = jt\<lparr>jt_rows := before @ claimed_row input now row # after\<rparr>
    else claim_next jc now input jt = (Inr None, jt)"
  using claim_next_cases [OF assms, of input now jc]
proof (elim disjE conjE exE)
  assume "\<forall>x \<in> set (jt_rows jt). \<not> claimable input now (jt_rows jt) x"
    "claim_next jc now input jt = (Inr None, jt)"
  then show ?thesis by (simp add: list_ex_iff)
next
  fix before row after
  assume rows: "jt_rows jt = before @ row # after" and c: "claimable input now (jt_rows jt) row"
    and least: "\<forall>x \<in> set (jt_rows jt). claimable input now (jt_rows jt) x \<longrightarrow> jr_sequence row \<le> jr_sequence x"
    and claim: "claim_next jc now input jt =
      (case decode_job_row jc (claimed_row input now row) of Inl e \<Rightarrow> Inl e | Inr job \<Rightarrow> Inr (Some job),
       jt\<lparr>jt_rows := before @ claimed_row input now row # after\<rparr>)"
  from c have "\<not> has_running jt (jr_sessionId row)"
    by (auto simp: claimable_def has_running_def list_ex_iff)
  moreover have "list_ex (claimable input now (jt_rows jt)) (jt_rows jt)"
    using c rows by (auto simp: list_ex_iff)
  ultimately show ?thesis
    using rows c least unfolding claim list_all_iff by auto
qed

theorem claim_takes_the_oldest_witness:
  "if list_ex (claimable demo_claim 20 (jt_rows demo_jobs)) (jt_rows demo_jobs)
    then \<exists>before row after. jt_rows demo_jobs = before @ row # after \<and>
      claimable demo_claim 20 (jt_rows demo_jobs) row \<and>
      list_all (\<lambda>x. claimable demo_claim 20 (jt_rows demo_jobs) x \<longrightarrow> jr_sequence row \<le> jr_sequence x)
        (jt_rows demo_jobs) \<and>
      \<not> has_running demo_jobs (jr_sessionId row) \<and>
      snd (claim_next demo_job_codec 20 demo_claim demo_jobs) =
        demo_jobs\<lparr>jt_rows := before @ claimed_row demo_claim 20 row # after\<rparr>
    else claim_next demo_job_codec 20 demo_claim demo_jobs = (Inr None, demo_jobs)"
  by (rule claim_takes_the_oldest [OF demo_inv(1)])

section \<open>Enqueueing twice\<close>

definition has_job :: "job_table \<Rightarrow> string \<Rightarrow> bool" where
  "has_job jt job_id \<longleftrightarrow> list_ex (\<lambda>row. jr_id row = job_id) (jt_rows jt)"

lemma insert_job_has:
  "has_job (snd (insert_job jc now jt p)) (pj_id p)"
  "has_job jt key \<Longrightarrow> has_job (snd (insert_job jc now jt p)) key"
  by (simp_all add: has_job_def insert_job_def)

lemma enqueue_jobs_has:
  "has_job jt key \<Longrightarrow> has_job (snd (enqueue_jobs jc now ps jt)) key"
  "p \<in> set ps \<Longrightarrow> has_job (snd (enqueue_jobs jc now ps jt)) (pj_id p)"
proof -
  show mono: "has_job jt key \<Longrightarrow> has_job (snd (enqueue_jobs jc now ps jt)) key" for key jt
    by (induction ps arbitrary: jt) (simp_all add: case_prod_beta insert_job_has(2))
  show "p \<in> set ps \<Longrightarrow> has_job (snd (enqueue_jobs jc now ps jt)) (pj_id p)"
  proof (induction ps arbitrary: jt)
    case (Cons q ps)
    have "has_job jt key \<Longrightarrow> has_job (snd (enqueue_jobs jc now ps jt)) key" for key jt
      by (induction ps arbitrary: jt) (simp_all add: case_prod_beta insert_job_has(2))
    with Cons show ?case by (auto simp: case_prod_beta insert_job_has(1))
  qed simp
qed

lemma enqueue_known: "(\<forall>p \<in> set ps. has_job jt (pj_id p)) \<Longrightarrow> enqueue_jobs jc now ps jt = (0, jt)"
  by (induction ps) (auto simp: insert_job_def has_job_def)

text \<open>Enqueueing the same jobs a second time, at whatever time, inserts none
  and leaves the ledger as it is.\<close>

theorem enqueue_twice:
  "let jt' = snd (enqueue_jobs jc now ps jt) in enqueue_jobs jc now' ps jt' = (0, jt')"
  unfolding Let_def by (rule enqueue_known) (simp add: enqueue_jobs_has(2))

lemma job_id_inject:
  "job_id_for_event r i = job_id_for_event x j \<Longrightarrow> se_eventId r = se_eventId x"
  by (auto simp: job_id_for_event_def dest!: join_id_inject [rotated 2])

text \<open>C36: The jobs that the events of a log imply have different ids, so that no
  job of one event hides behind a job of another.\<close>

theorem job_ids_unique:
  assumes "distinct (map se_eventId records)"
  shows "distinct (map pj_id (concat (map jobs_for_session_event records)))"
  using assms
proof (induction records)
  case (Cons r records)
  have same: "\<exists>i. pj_id p = job_id_for_event x i" if "p \<in> set (jobs_for_session_event x)" for p x
    using that by (auto simp: jobs_for_session_event_def Let_def)
  have "distinct (map pj_id (jobs_for_session_event r))"
    by (cases "se_event r") (simp_all add: jobs_for_session_event_def)
  moreover have "pj_id p \<noteq> pj_id q"
    if "p \<in> set (jobs_for_session_event r)" "x \<in> set records" "q \<in> set (jobs_for_session_event x)" for p q x
  proof -
    from Cons.prems that(2) have "se_eventId r \<noteq> se_eventId x" by auto
    with same [OF that(1)] same [OF that(3)] show ?thesis
      by (metis job_id_inject)
  qed
  ultimately show ?case using Cons by (fastforce simp: distinct_append)
qed simp

theorem job_ids_unique_witness:
  "distinct (map pj_id (concat (map jobs_for_session_event
     [\<lparr>se_eventId = ''e1'', se_correlationId = ''c'', se_causationEventId = None, se_streamId = ''s'',
       se_streamVersion = 1, se_sequence = 1, se_event = ProviderStopRequested ''p'' None 1\<rparr>,
      \<lparr>se_eventId = ''e2'', se_correlationId = ''c'', se_causationEventId = None, se_streamId = ''s'',
       se_streamVersion = 2, se_sequence = 2, se_event = ProviderStopRequested ''p'' None 1\<rparr>])))"
  by (rule job_ids_unique) simp

section \<open>Retries end\<close>

text \<open>The clocks of a round: the token of its owner and the times of its calls.\<close>

record round_clock =
  rc_uuid :: string
  rc_reclaim :: int
  rc_claim :: int
  rc_renew :: int
  rc_settle :: int

text \<open>The rounds of a loop that claims jobs of every session once they are \<open>min_age\<close> old.\<close>

definition worker_round ::
  "job_codec \<Rightarrow> worker_options \<Rightarrow> (job \<Rightarrow> job_exit) \<Rightarrow> int \<Rightarrow> round_clock \<Rightarrow> job_table \<Rightarrow> job_table" where
  "worker_round jc wo execute min_age clock jt =
     snd (run_once jc wo execute (round_claim wo (rc_uuid clock) min_age None None)
       (rc_reclaim clock) (rc_claim clock) (rc_renew clock) (rc_settle clock) jt)"

definition worker_rounds ::
  "job_codec \<Rightarrow> worker_options \<Rightarrow> (job \<Rightarrow> job_exit) \<Rightarrow> int \<Rightarrow> round_clock list \<Rightarrow> job_table \<Rightarrow> job_table" where
  "worker_rounds jc wo execute min_age clocks jt =
     foldl (\<lambda>jt clock. worker_round jc wo execute min_age clock jt) jt clocks"

text \<open>A round keeps its lease, and the next one starts when the longest delay is over.\<close>

fun spaced :: "worker_options \<Rightarrow> int \<Rightarrow> int \<Rightarrow> round_clock list \<Rightarrow> bool" where
  "spaced wo min_age tm [] = True"
| "spaced wo min_age tm (clock # clocks) =
     (tm + min_age \<le> rc_claim clock \<and> rc_claim clock \<le> rc_renew clock \<and>
      rc_renew clock < rc_claim clock + wo_leaseMs wo \<and> rc_renew clock \<le> rc_settle clock \<and>
      rc_settle clock < rc_renew clock + wo_leaseMs wo \<and>
      spaced wo min_age (rc_settle clock + 30000) clocks)"

definition always_fails :: "(job \<Rightarrow> job_exit) \<Rightarrow> bool" where
  "always_fails execute \<longleftrightarrow>
     (\<forall>job. \<exists>f. execute job = ExitFailure f \<and> jf_retry f = RetryAutomatic)"

text \<open>The jobs a worker finds: pending ones that decode, available at a time, with attempts left.\<close>

definition retries_due :: "job_codec \<Rightarrow> int \<Rightarrow> int \<Rightarrow> job_row \<Rightarrow> bool" where
  "retries_due jc limit tm row \<longleftrightarrow>
     jr_status row \<noteq> JobRunning \<and>
     (jr_status row = JobPending \<longrightarrow>
        jr_availableAt row \<le> tm \<and> jr_attemptCount row < limit \<and> (\<exists>r. jc_decode jc (jr_requestJson row) = Inr r))"

definition attempts_left :: "int \<Rightarrow> job_table \<Rightarrow> nat" where
  "attempts_left limit jt =
     (\<Sum>row \<leftarrow> jt_rows jt. if jr_status row = JobPending then nat (limit - jr_attemptCount row) else 0)"

lemma retry_delay_bounds: "100 \<le> retry_delay_ms n \<and> retry_delay_ms n \<le> 30000"
  by (simp add: retry_delay_ms_def)

lemma held_update_one:
  assumes "distinct (map jr_id (before @ row # after))" "holds_lease tm (jr_id row) owner row"
  shows "held_update tm (jr_id row) owner f (jt\<lparr>jt_rows := before @ row # after\<rparr>) =
    (True, jt\<lparr>jt_rows := before @ f row # after\<rparr>)"
proof -
  have other: "\<not> holds_lease tm (jr_id row) owner x" if "x \<in> set before \<union> set after" for x
  proof -
    have "jr_id row \<notin> set (map jr_id (before @ after))" using assms(1) by simp
    moreover have "jr_id x \<in> set (map jr_id (before @ after))" using that by auto
    ultimately have "jr_id x \<noteq> jr_id row" by metis
    then show ?thesis by (simp add: holds_lease_def)
  qed
  have "map (\<lambda>x. if holds_lease tm (jr_id row) owner x then f x else x) xs = xs" if "set xs \<subseteq> set before \<union> set after" for xs
    using that other by (intro map_idI) auto
  then show ?thesis using assms(2) by (simp add: held_update_def update_jobs_def)
qed

text \<open>A round finds nothing, or fails one attempt of one job and leaves the others alone.\<close>

lemma round_step:
  assumes inv: "ledger_inv jt" and due: "\<forall>row \<in> set (jt_rows jt). retries_due jc (wo_maxAttempts wo) tm row"
    and wo: "wo_excludedKinds wo = []" "always_fails execute" "spaced wo min_age tm (clock # clocks)"
    and jt': "jt' = worker_round jc wo execute min_age clock jt"
  shows "(\<forall>row \<in> set (jt_rows jt). jr_status row \<noteq> JobPending) \<and> jt' = jt \<or>
    (\<exists>before row row' after. jt_rows jt = before @ row # after \<and> jr_status row = JobPending \<and>
       jt' = jt\<lparr>jt_rows := before @ row' # after\<rparr> \<and> same_job row row' \<and> (row_ok row \<longrightarrow> row_ok row') \<and>
       jr_attemptCount row' = jr_attemptCount row + 1 \<and>
       (if jr_attemptCount row + 1 < wo_maxAttempts wo
        then jr_status row' = JobPending \<and> jr_availableAt row' \<le> rc_settle clock + 30000
        else jr_status row' = JobFailed))"
proof -
  let ?in = "round_claim wo (rc_uuid clock) min_age None None"
  let ?w = "claim_owner wo (rc_uuid clock)"
  have idle: "jr_status x \<noteq> JobRunning" if "x \<in> set (jt_rows jt)" for x
    using due that by (auto simp: retries_due_def)
  have rec: "snd (reclaim_expired (rc_reclaim clock) jt) = jt"
  proof -
    have "map (\<lambda>row. if jr_status row = JobRunning \<and> Q row then f row else row) (jt_rows jt) = jt_rows jt" for Q f
      using idle by (intro map_idI) auto
    then show ?thesis by (simp add: reclaim_expired_def update_jobs_def case_prod_beta)
  qed
  have claimable: "claimable ?in (rc_claim clock) (jt_rows jt) x \<longleftrightarrow> jr_status x = JobPending"
    if x: "x \<in> set (jt_rows jt)" for x
  proof -
    have "\<not> list_ex (\<lambda>active. jr_sessionId active = jr_sessionId x \<and> jr_status active = JobRunning) (jt_rows jt)"
      using idle by (auto simp: list_ex_iff)
    moreover have "jr_status x = JobPending \<Longrightarrow> jr_availableAt x \<le> rc_claim clock - min_age"
      using due x wo(3) by (force simp: retries_due_def)
    ultimately show ?thesis by (auto simp: claimable_def round_claim_def wo(1))
  qed
  show ?thesis
  proof (cases rule: disjE [OF claim_next_cases [OF inv, of ?in "rc_claim clock" jc]])
    case 1
    then have "jt' = jt" by (simp add: jt' worker_round_def run_once_def rec Let_def)
    with 1 claimable show ?thesis by blast
  next
    case 2
    then obtain before row after where rows: "jt_rows jt = before @ row # after"
      and c: "claimable ?in (rc_claim clock) (jt_rows jt) row"
      and claim: "claim_next jc (rc_claim clock) ?in jt =
        (case decode_job_row jc (claimed_row ?in (rc_claim clock) row) of Inl e \<Rightarrow> Inl e | Inr job \<Rightarrow> Inr (Some job),
          jt\<lparr>jt_rows := before @ claimed_row ?in (rc_claim clock) row # after\<rparr>)" by blast
    have pending: "jr_status row = JobPending" using c claimable rows by simp
    with due rows obtain request where dec: "jc_decode jc (jr_requestJson row) = Inr request"
      by (auto simp: retries_due_def)
    define claimed where "claimed = claimed_row ?in (rc_claim clock) row"
    define held where "held = claimed\<lparr>jr_leaseExpiresAt := Some (rc_renew clock + wo_leaseMs wo), jr_updatedAt := rc_renew clock\<rparr>"
    have ids: "distinct (map jr_id (before @ claimed # after))" "distinct (map jr_id (before @ held # after))"
      using inv by (simp_all add: ledger_inv_def rows claimed_def held_def claimed_row_def)
    obtain job where job: "decode_job_row jc claimed = Inr job" "jo_id job = jr_id row"
      "jo_leaseOwner job = Some ?w" "jo_attemptCount job = jr_attemptCount row + 1"
      by (simp add: decode_job_row_def claimed_def claimed_row_def dec round_claim_def)
    have leased: "holds_lease (rc_renew clock) (jr_id claimed) ?w claimed"
      "holds_lease (rc_settle clock) (jr_id held) ?w held"
      using wo(3) by (simp_all add: holds_lease_def claimed_def held_def claimed_row_def round_claim_def)
    have id: "jr_id claimed = jr_id row" "jr_id held = jr_id row"
      by (simp_all add: claimed_def held_def claimed_row_def)
    have renew: "renew_lease (rc_renew clock) (jr_id row) ?w (wo_leaseMs wo) (jt\<lparr>jt_rows := before @ claimed # after\<rparr>) =
        (True, jt\<lparr>jt_rows := before @ held # after\<rparr>)"
      using held_update_one [OF ids(1) leased(1)] by (simp add: renew_lease_def id held_def)
    obtain f where f: "execute job = ExitFailure f" "jf_retry f = RetryAutomatic"
      using wo(2) by (auto simp: always_fails_def)
    have "jt' = snd (settle_job (wo_maxAttempts wo) (rc_settle clock) job (ExitFailure f)
        (jt\<lparr>jt_rows := before @ held # after\<rparr>))"
    proof -
      have "cl_workerId ?in = ?w" by (simp add: round_claim_def)
      with renew show ?thesis
        by (simp add: jt' worker_round_def run_once_def rec claim claimed_def [symmetric] job(1,2) f(1)
            Let_def case_prod_beta)
    qed
    also have "\<dots> = snd (settle_failure (rc_settle clock) ?w job f
        (if jr_attemptCount row + 1 < wo_maxAttempts wo then FailureRetry else FailureFailed)
        (jt\<lparr>jt_rows := before @ held # after\<rparr>))"
      by (simp add: settle_job_def job(3,4) exit_failure_def failure_outcome_of_def f(2) Let_def case_prod_beta)
    finally have settled: "jt' = snd (settle_failure (rc_settle clock) ?w job f
        (if jr_attemptCount row + 1 < wo_maxAttempts wo then FailureRetry else FailureFailed)
        (jt\<lparr>jt_rows := before @ held # after\<rparr>))" .
    note update = held_update_one [OF ids(2) leased(2), unfolded id]
    define row' where "row' = (if jr_attemptCount row + 1 < wo_maxAttempts wo
      then (released held)\<lparr>jr_status := JobPending,
          jr_availableAt := rc_settle clock + retry_delay_ms (jr_attemptCount row + 1),
          jr_lastError := Some (jf_message f), jr_updatedAt := rc_settle clock\<rparr>
      else (released held)\<lparr>jr_status := JobFailed, jr_lastError := Some (jf_message f),
          jr_completedAt := Some (rc_settle clock), jr_updatedAt := rc_settle clock\<rparr>)"
    have "jt' = jt\<lparr>jt_rows := before @ row' # after\<rparr>"
      unfolding settled by (simp add: settle_failure_def retry_job_def fail_job_def job(2,4) update row'_def)
    moreover have "same_job row row' \<and> (row_ok row \<longrightarrow> row_ok row') \<and> jr_attemptCount row' = jr_attemptCount row + 1 \<and>
       (if jr_attemptCount row + 1 < wo_maxAttempts wo
        then jr_status row' = JobPending \<and> jr_availableAt row' \<le> rc_settle clock + 30000
        else jr_status row' = JobFailed)"
      using retry_delay_bounds [of "jr_attemptCount row + 1"] pending
      by (simp add: row'_def held_def claimed_def claimed_row_def released_def same_job_def row_ok_def unsettled_def)
    ultimately show ?thesis using rows pending by blast
  qed
qed

text \<open>What a row has become when its attempts are used up\<close>

definition used_up :: "int \<Rightarrow> job_row \<Rightarrow> job_row \<Rightarrow> bool" where
  "used_up limit row row' \<longleftrightarrow>
     (if jr_status row = JobPending
      then same_job row row' \<and> jr_status row' = JobFailed \<and> jr_attemptCount row' = limit
      else row' = row)"

lemma list_all2_weaken_one:
  "list_all2 P (xs @ x # zs) us \<Longrightarrow> (\<And>u. P x u \<Longrightarrow> P y u) \<Longrightarrow> list_all2 P (xs @ y # zs) us"
proof (induction xs arbitrary: us)
  case Nil
  then show ?case by (cases us) auto
next
  case (Cons a xs)
  then show ?case by (cases us) auto
qed

lemma rounds_use_up:
  assumes "ledger_inv jt" "\<forall>row \<in> set (jt_rows jt). retries_due jc (wo_maxAttempts wo) tm row"
    and "wo_excludedKinds wo = []" "always_fails execute" "spaced wo min_age tm clocks" "0 \<le> min_age"
    and "attempts_left (wo_maxAttempts wo) jt \<le> length clocks"
  shows "list_all2 (used_up (wo_maxAttempts wo)) (jt_rows jt) (jt_rows (worker_rounds jc wo execute min_age clocks jt))"
  using assms
proof (induction clocks arbitrary: jt tm)
  case Nil
  have "jr_status row \<noteq> JobPending" if "row \<in> set (jt_rows jt)" for row
  proof
    assume pending: "jr_status row = JobPending"
    have "(if jr_status row = JobPending then nat (wo_maxAttempts wo - jr_attemptCount row) else 0) \<le>
        attempts_left (wo_maxAttempts wo) jt"
      unfolding attempts_left_def using that by (intro member_le_sum_list) auto
    with Nil.prems(2,7) that pending show False by (auto simp: retries_due_def)
  qed
  then show ?case by (auto simp: worker_rounds_def used_up_def list_all2_conv_all_nth)
next
  case (Cons clock clocks)
  let ?n = "wo_maxAttempts wo"
  let ?jt = "worker_round jc wo execute min_age clock jt"
  have go: "worker_rounds jc wo execute min_age (clock # clocks) jt = worker_rounds jc wo execute min_age clocks ?jt"
    by (simp add: worker_rounds_def)
  have later: "tm \<le> rc_settle clock + 30000" and rest: "spaced wo min_age (rc_settle clock + 30000) clocks"
    using Cons.prems(5,6) by simp_all
  have due: "retries_due jc ?n (rc_settle clock + 30000) row" if "retries_due jc ?n tm row" for row
    using that later by (auto simp: retries_due_def)
  note step = round_step [OF Cons.prems(1-5) refl]
  show ?case
  proof (cases rule: disjE [OF step])
    case 1
    then have same: "?jt = jt" and none: "\<forall>row \<in> set (jt_rows jt). jr_status row \<noteq> JobPending" by simp_all
    have zero: "attempts_left ?n jt = 0"
      using none by (auto simp: attempts_left_def intro!: sum_list_0)
    from Cons.IH [OF Cons.prems(1) _ Cons.prems(3,4) rest Cons.prems(6)] Cons.prems(2) due
    show ?thesis unfolding go same by (simp add: zero)
  next
    case 2
    then obtain before row row' after where r: "jt_rows jt = before @ row # after" "jr_status row = JobPending"
      "?jt = jt\<lparr>jt_rows := before @ row' # after\<rparr>" "same_job row row'" "row_ok row \<Longrightarrow> row_ok row'"
      "jr_attemptCount row' = jr_attemptCount row + 1"
      "if jr_attemptCount row + 1 < ?n
        then jr_status row' = JobPending \<and> jr_availableAt row' \<le> rc_settle clock + 30000
        else jr_status row' = JobFailed" by blast
    have count: "jr_attemptCount row < ?n" using Cons.prems(2) r(1,2) by (simp add: retries_due_def)
    have idle: "running_sessions (jt_rows ?jt) = []"
    proof -
      have "\<forall>x \<in> set before \<union> set after. jr_status x \<noteq> JobRunning"
        using Cons.prems(2) by (auto simp: r(1) retries_due_def)
      moreover have "jr_status row' \<noteq> JobRunning" using r(7) by (auto split: if_splits)
      ultimately show ?thesis by (simp add: running_sessions_def r(3) filter_empty_conv)
    qed
    have inv: "ledger_inv ?jt"
      using Cons.prems(1) r(4,5) idle by (auto simp: ledger_inv_def r(1,3) same_job_def)
    have due': "\<forall>x \<in> set (jt_rows ?jt). retries_due jc ?n (rc_settle clock + 30000) x"
    proof
      fix x assume "x \<in> set (jt_rows ?jt)"
      then consider "x \<in> set before \<union> set after" | "x = row'" by (auto simp: r(3))
      then show "retries_due jc ?n (rc_settle clock + 30000) x"
      proof cases
        case 1
        with Cons.prems(2) due show ?thesis by (auto simp: r(1))
      next
        case 2
        with Cons.prems(2) r show ?thesis by (auto simp: retries_due_def same_job_def split: if_splits)
      qed
    qed
    have "Suc (attempts_left ?n ?jt) = attempts_left ?n jt"
      using r(2,6,7) count by (auto simp: attempts_left_def r(1,3) split: if_splits)
    with Cons.prems(7) have "attempts_left ?n ?jt \<le> length clocks" by simp
    from Cons.IH [OF inv due' Cons.prems(3,4) rest Cons.prems(6) this]
    have all: "list_all2 (used_up ?n) (before @ row' # after) (jt_rows (worker_rounds jc wo execute min_age clocks ?jt))"
      by (simp add: r(3))
    have "used_up ?n row x" if "used_up ?n row' x" for x
      using that r(2,4,6,7) count by (auto simp: used_up_def same_job_def split: if_splits)
    with all show ?thesis unfolding go r(1) by (rule list_all2_weaken_one)
  qed
qed

text \<open>C35: A worker that works through a ledger alone, and whose jobs fail every time in a way
  that asks for a retry, ends with every pending job failed for good, after exactly \<open>maxAttempts\<close>
  attempts of it, and every other job as it was, whatever the jobs, their sessions and the attempts they
  already had: this takes as many rounds as attempts are left, if each round keeps its leases and
  starts when the longest delay of a retry, 30 seconds, is over.\<close>

theorem retries_end:
  assumes "ledger_inv jt" "\<forall>row \<in> set (jt_rows jt). retries_due jc (wo_maxAttempts wo) tm row"
    and "wo_excludedKinds wo = []" "always_fails execute" "spaced wo min_age tm clocks" "0 \<le> min_age"
    and "attempts_left (wo_maxAttempts wo) jt \<le> length clocks"
  shows "list_all2 (\<lambda>row row'.
      if jr_status row = JobPending
      then same_job row row' \<and> jr_status row' = JobFailed \<and> jr_attemptCount row' = wo_maxAttempts wo
      else row' = row)
    (jt_rows jt) (jt_rows (worker_rounds jc wo execute min_age clocks jt))"
  using rounds_use_up [OF assms] by (simp add: used_up_def [abs_def])

definition demo_worker :: worker_options where
  "demo_worker =
     \<lparr>wo_excludedKinds = [], wo_workerId = ''w'', wo_leaseMs = default_job_lease_ms,
      wo_maxAttempts = default_job_max_attempts, wo_pollIntervalMs = default_job_poll_interval_ms,
      wo_backgroundGraceMs = default_job_background_grace_ms\<rparr>"

definition demo_failing :: "job \<Rightarrow> job_exit" where
  "demo_failing = (\<lambda>job. ExitFailure \<lparr>jf_message = ''down'', jf_retry = RetryAutomatic, jf_cause = ''null''\<rparr>)"

definition demo_clock :: "int \<Rightarrow> round_clock" where
  "demo_clock tm = \<lparr>rc_uuid = ''u'', rc_reclaim = tm, rc_claim = tm, rc_renew = tm + 1, rc_settle = tm + 2\<rparr>"

text \<open>Two jobs of one session, the second with its first attempt behind it, and one that is settled\<close>

definition demo_due :: job_table where
  "demo_due =
     ledger_calls demo_job_codec
       [CallEnqueue 10 [demo_pending ''j1'', demo_pending ''j2'', demo_pending ''j3''], CallClaim 20 demo_claim,
        CallSucceed 30 ''j1'' ''w:1'', CallClaim 40 demo_claim, CallRetry 50 ''j2'' ''w:1'' 100 ''down'']
       empty_job_table"

theorem retries_end_witness:
  "map (\<lambda>row. (jr_id row, jr_status row, jr_attemptCount row))
     (jt_rows (worker_rounds demo_job_codec demo_worker demo_failing 250
        (map (\<lambda>i. demo_clock (500 + 40000 * i)) [0, 1, 2, 3, 4, 5, 6, 7, 8]) demo_due)) =
   [(''j1'', JobSucceeded, 1), (''j2'', JobFailed, 5), (''j3'', JobFailed, 5)]"
proof -
  have "ledger_inv demo_due" unfolding demo_due_def by (intro ledger_calls_inv empty_ledger_inv)
  moreover have rows: "map (\<lambda>row. (jr_id row, jr_status row, jr_attemptCount row, jr_availableAt row)) (jt_rows demo_due) =
      [(''j1'', JobSucceeded, 1, 10), (''j2'', JobPending, 1, 150), (''j3'', JobPending, 0, 10)]"
    by code_simp
  moreover have "\<forall>row \<in> set (jt_rows demo_due). retries_due demo_job_codec (wo_maxAttempts demo_worker) 150 row"
    using rows by (auto simp: map_eq_Cons_conv retries_due_def demo_job_codec_def demo_worker_def default_job_max_attempts_def)
  moreover have "wo_excludedKinds demo_worker = []" "always_fails demo_failing"
    by (simp_all add: demo_worker_def always_fails_def demo_failing_def)
  moreover have "spaced demo_worker 250 150 (map (\<lambda>i. demo_clock (500 + 40000 * i)) [0, 1, 2, 3, 4, 5, 6, 7, 8])"
    by (simp add: demo_clock_def demo_worker_def default_job_lease_ms_def)
  moreover have "attempts_left (wo_maxAttempts demo_worker) demo_due = 9"
    using rows by (auto simp: map_eq_Cons_conv attempts_left_def demo_worker_def default_job_max_attempts_def)
  ultimately show ?thesis
    using retries_end [of demo_due demo_job_codec demo_worker 150 demo_failing 250
        "map (\<lambda>i. demo_clock (500 + 40000 * i)) [0, 1, 2, 3, 4, 5, 6, 7, 8]"]
    by (auto simp: map_eq_Cons_conv list_all2_Cons1 same_job_def demo_worker_def default_job_max_attempts_def)
qed

end
