(* ===== verification/Session_Domain_Laws.thy ===== *)
theory Session_Domain_Laws
  imports Session_Domain Event_Log Read_Model_Log Dispatch_Properties Job_Properties
begin

text \<open>
  The invariant of the database of the session service, and that every transaction keeps it: what
  the log holds is what accepted commands write, the read model displays it, the cursor of the
  projector is at its end, and the jobs are the jobs of its events.
\<close>

section \<open>The dispatch inside the transaction\<close>

definition env_ok :: "('g, 'i) service_env \<Rightarrow> bool" where
  "env_ok env \<longleftrightarrow> codec_ok (sv_events env) \<and> receipt_codec_ok (sv_receipts env)"

abbreviation db_inv :: "('g, 'i) service_env \<Rightarrow> service_db \<Rightarrow> bool" where
  "db_inv env db \<equiv> sql_inv (sv_events env) (sv_receipts env) db"

abbreviation records :: "('g, 'i) service_env \<Rightarrow> service_db \<Rightarrow> session_event stored_event list" where
  "records env db \<equiv> logged_records (sv_events env) db"

text \<open>A command that was appended: what its events are and where they went.\<close>

definition appended ::
  "('g, 'i) service_env \<Rightarrow> service_db \<Rightarrow> session_command dispatch_input \<Rightarrow> session_event append_input \<Rightarrow>
   command_receipt \<Rightarrow> service_db \<Rightarrow> bool"
where
  "appended env db input ai receipt db' \<longleftrightarrow>
     ai_streamId ai = di_streamId input \<and> ai_commandId ai = di_commandId input \<and>
     sql_receipt_of (sv_receipts env) db (ai_commandId ai) = None \<and>
     session_prepares (sv_decoder env) (service_ops env) (sv_mint env) db None input ai \<and>
     append_transaction (sv_events env) (sv_receipts env) (sv_nowText env) db ai = Inr (receipt, db')"

lemma prepare_append_unfinished: "fst (prepare_append mk g input expected result decided) \<noteq> Finished (Inr r)"
  by (auto simp: prepare_append_def split: sum.splits prod.splits)

text \<open>A receipt that answers a command delivered again.\<close>

definition answers :: "'c dispatch_input \<Rightarrow> command_receipt \<Rightarrow> bool" where
  "answers input r \<longleftrightarrow>
     validate_command_receipt (di_commandId input) (di_streamId input) (di_receiptIdentity input) r = Inr r"

lemma validated_same: "validated input r0 = Inr r \<Longrightarrow> r0 = r \<and> answers input r"
  by (auto simp: validated_def answers_def validate_command_receipt_def
      split: sum.splits option.splits if_splits)

lemma prepare_finished_receipt:
  assumes "op_events ops st (di_streamId input) = Inr stored"
    "prepare_dispatch dec ops mk st g existing input = (p, g')" "p = Finished y" "y = Inr r"
  shows "existing = Some r \<and> answers input r"
proof -
  have p: "fst (prepare_dispatch dec ops mk st g existing input) = Finished (Inr r)"
    using assms by simp
  show ?thesis
  proof (cases existing)
    case None
    with p show ?thesis
      by (auto simp: prepare_dispatch_def assms(1) prepare_append_unfinished Let_def split: option.splits)
  next
    case (Some r0)
    with p show ?thesis
      by (auto simp: prepare_dispatch_def assms(1) Let_def dest!: validated_same split: option.splits)
  qed
qed

lemma dispatch_attempt_cases:
  assumes inv: "db_inv env db" and d: "dispatch_attempt env db g input = ((x, db'), g')"
  shows "(\<exists>e. x = Inl e \<and> db' = db) \<or>
    (\<exists>r. x = Inr r \<and> db' = db \<and>
       sql_receipt_of (sv_receipts env) db (di_commandId input) = Some r \<and> answers input r) \<or>
    (\<exists>r ai. x = Inr r \<and> appended env db input ai r db')"
proof -
  note receipt = sql_receipt_ok [OF inv, of "di_commandId input"]
  let ?existing = "sql_receipt_of (sv_receipts env) db (di_commandId input)"
  obtain p where p: "prepare_dispatch (sv_decoder env) (service_ops env) (sv_mint env) db g ?existing input = (p, g')"
    "finish_dispatch (service_ops env) db p = (x, db')"
    using d by (auto simp: dispatch_attempt_def service_ops_def sql_ops_def receipt split: prod.splits)
  have events: "op_events (service_ops env) db (di_streamId input) = Inr (sql_stream (sv_events env) db (di_streamId input))"
    using sql_events_ok [OF inv] by (simp add: service_ops_def sql_ops_def)
  show ?thesis
  proof (cases p)
    case (Finished y)
    with p(2) have y: "x = y" "db' = db" by (simp_all add: finish_dispatch_def)
    show ?thesis
    proof (cases y)
      case (Inr r)
      with p(1) Finished have "?existing = Some r \<and> answers input r"
        by (intro prepare_finished_receipt [OF events])
      then show ?thesis using y Inr by simp
    qed (use y in simp)
  next
    case (Appending ai)
    then have prep: "session_prepares (sv_decoder env) (service_ops env) (sv_mint env) db ?existing input ai"
      unfolding session_prepares_def using p(1) by (metis fst_conv)
    note sound = session_prepares_sound [OF events prep]
    have "sql_append (sv_events env) (sv_receipts env) (sv_nowText env) db ai = (y, db') \<Longrightarrow>
        (\<exists>e. y = Inl e \<and> db' = db) \<or>
        (\<exists>r. y = Inr r \<and> append_transaction (sv_events env) (sv_receipts env) (sv_nowText env) db ai = Inr (r, db'))" for y
      by (rule sql_append_cases)
    with p(2) Appending sound prep show ?thesis
      by (auto simp: finish_dispatch_def service_ops_def sql_ops_def appended_def split: prod.splits sum.splits)
  qed
qed

lemma dispatch_retrying_cases:
  assumes inv: "db_inv env db" and d: "dispatch_retrying env n db g input = (x, db')"
  shows "(\<exists>e. x = Inl e \<and> db' = db) \<or>
    (\<exists>r. x = Inr r \<and> db' = db \<and>
       sql_receipt_of (sv_receipts env) db (di_commandId input) = Some r \<and> answers input r) \<or>
    (\<exists>r ai. x = Inr r \<and> appended env db input ai r db')"
  using d
proof (induction n arbitrary: g)
  case 0
  obtain g' where "dispatch_attempt env db g input = ((x, db'), g')"
    using 0 by (cases "dispatch_attempt env db g input") auto
  then show ?case by (rule dispatch_attempt_cases [OF inv])
next
  case (Suc n)
  obtain y db1 g' where a: "dispatch_attempt env db g input = ((y, db1), g')"
    by (metis prod.exhaust)
  note cases = dispatch_attempt_cases [OF inv a]
  show ?case
  proof (cases "\<exists>e. y = Inl e \<and> is_concurrency_conflict e")
    case True
    with a Suc.prems cases have "dispatch_retrying env n db g' input = (x, db')" by auto
    then show ?thesis by (rule Suc.IH)
  next
    case False
    with a Suc.prems have "x = y" "db' = db1" by (auto split: sum.splits if_splits)
    with cases show ?thesis by simp
  qed
qed

section \<open>The projection inside the transaction\<close>

lemma project_appended_skip:
  "(\<And>r. r \<in> set rs \<Longrightarrow> se_sequence r \<le> cursor) \<Longrightarrow> project_appended env cursor rs db = Inr db"
  by (induction rs) simp_all

text \<open>What the loop over new records leaves alone, and what it does.\<close>

definition projected ::
  "('g, 'i) service_env \<Rightarrow> session_event stored_event list \<Rightarrow> service_db \<Rightarrow> service_db \<Rightarrow> bool" where
  "projected env rs db db' \<longleftrightarrow>
     db_events db' = db_events db \<and> db_lastSequence db' = db_lastSequence db \<and>
     db_receipts db' = db_receipts db \<and> sd_jobs db' = sd_jobs db \<and> sd_restores db' = sd_restores db \<and>
     project_log (sv_decoder env) (sv_json env) rs (sd_readModel db) = Inr (sd_readModel db') \<and>
     (rs \<noteq> [] \<longrightarrow> sql_cursor db' session_projector_name = se_sequence (last rs)) \<and>
     (rs = [] \<longrightarrow> db' = db)"

lemma commit_cursor_frame [simp]:
  "db_events (sql_commit_cursor now db name n) = db_events db"
  "db_lastSequence (sql_commit_cursor now db name n) = db_lastSequence db"
  "db_receipts (sql_commit_cursor now db name n) = db_receipts db"
  "sd_jobs (sql_commit_cursor now' db' name n) = sd_jobs db'"
  "sd_restores (sql_commit_cursor now' db' name n) = sd_restores db'"
  "sd_readModel (sql_commit_cursor now' db' name n) = sd_readModel db'"
  by (simp_all add: sql_commit_cursor_def)

lemma cursor_readModel [simp]: "sql_cursor (db\<lparr>sd_readModel := rm\<rparr>) name = sql_cursor db name"
  by (simp add: sql_cursor_def)

lemma project_appended_projects:
  fixes env :: "('g, 'i) service_env"
  assumes "project_appended env cursor rs db = (Inr db' :: ('i, 'x) service_error + service_db)" "sorted_wrt (<) (map se_sequence rs)"
    "\<forall>r \<in> set rs. cursor < se_sequence r" "sql_cursor db session_projector_name = cursor"
  shows "projected env rs db db'"
  using assms
proof (induction rs arbitrary: cursor db)
  case Nil
  then show ?case by (simp add: projected_def)
next
  case (Cons r rs)
  from Cons.prems(1,3) obtain rm where
    p: "project_session (sv_decoder env) (sv_json env) r (sd_readModel db) = Inr rm"
    and rest: "project_appended env (se_sequence r) rs
      (sql_commit_cursor (sv_nowText env) (db\<lparr>sd_readModel := rm\<rparr>) session_projector_name (se_sequence r)) =
      (Inr db' :: ('i, 'x) service_error + service_db)"
    by (auto simp: apply_session_record_def split: sum.splits)
  let ?db = "sql_commit_cursor (sv_nowText env) (db\<lparr>sd_readModel := rm\<rparr>) session_projector_name (se_sequence r)"
  have c: "sql_cursor ?db session_projector_name = se_sequence r"
    using Cons.prems(3,4) by simp
  have "projected env rs ?db db'"
    using Cons.prems(2) by (intro Cons.IH [OF rest _ _ c]) auto
  with p c show ?case by (auto simp: projected_def)
qed

lemma project_appended_total:
  fixes env :: "('g, 'i) service_env"
  assumes "project_log (sv_decoder env) (sv_json env) rs (sd_readModel db) = Inr rm"
    "sorted_wrt (<) (map se_sequence rs)" "\<forall>r \<in> set rs. cursor < se_sequence r"
  shows "\<exists>db'. project_appended env cursor rs db = (Inr db' :: ('i, 'x) service_error + service_db)"
  using assms
proof (induction rs arbitrary: cursor db)
  case (Cons r rs)
  from Cons.prems(1) obtain rm1 where
    p: "project_session (sv_decoder env) (sv_json env) r (sd_readModel db) = Inr rm1"
    and rest: "project_log (sv_decoder env) (sv_json env) rs rm1 = Inr rm" by (auto simp: and_then_Inr)
  let ?db = "sql_commit_cursor (sv_nowText env) (db\<lparr>sd_readModel := rm1\<rparr>) session_projector_name (se_sequence r)"
  have "\<exists>db'. project_appended env (se_sequence r) rs ?db =
      (Inr db' :: ('i, 'x) service_error + service_db)"
    by (rule Cons.IH) (use Cons.prems(2) rest in auto)
  with p Cons.prems(3) show ?case by (simp add: apply_session_record_def)
qed simp

lemma displayed_extend:
  assumes "log_wf dec (rs @ new)" "log_displayed dec rs rm" "project_log dec sj new rm = Inr rm'"
  shows "log_displayed dec (rs @ new) rm'"
  using assms
proof (induction new arbitrary: rs rm)
  case (Cons r new)
  have wf: "log_wf dec (rs @ [r])" using Cons.prems(1) log_wf_prefix [of dec "rs @ [r]" new] by simp
  from Cons.prems(3) obtain rm1 where "project_session dec sj r rm = Inr rm1" "project_log dec sj new rm1 = Inr rm'"
    by (auto simp: and_then_Inr)
  with Cons.IH [of "rs @ [r]" rm1] Cons.prems(1) log_displayed_step [OF wf Cons.prems(2)] show ?case by simp
qed simp

lemma log_references:
  "\<lbrakk>project_log dec sj rs rm = Inr rm'; references_hold sj rm\<rbrakk> \<Longrightarrow> references_hold sj rm'"
proof (induction rs arbitrary: rm)
  case (Cons r rs)
  from Cons.prems(1) obtain rm1 where "project_session dec sj r rm = Inr rm1" "project_log dec sj rs rm1 = Inr rm'"
    by (auto simp: and_then_Inr)
  with Cons.IH [of rm1] log_record_references show ?case by blast
qed simp

text \<open>A session is created once: no event after one of its events creates it.\<close>

lemma created_first:
  "\<lbrakk>events_ok dec s es; exists s; e \<in> set es\<rbrakk> \<Longrightarrow> \<forall>c. e \<noteq> SessionCreated c"
proof (induction es arbitrary: s)
  case (Cons x es)
  from Cons.prems(1) have x: "event_ok s x" "events_ok dec (evolve dec s x) es" by simp_all
  have "exists (evolve dec s x)" by (rule exists_evolve [OF x(1)])
  with Cons x show ?case by auto
qed simp

lemma log_total:
  assumes "log_wf dec (rs @ new)" "log_displayed dec rs rm" "references_hold sj rm"
    and "\<forall>r \<in> set new. se_streamId r = sid \<and> dates_valid (se_event r) \<and> event_refers sj rm (se_event r)"
  shows "\<exists>rm'. project_log dec sj new rm = Inr rm'"
  using assms
proof (induction new arbitrary: rs rm)
  case (Cons r new)
  have wf: "log_wf dec (rs @ [r])" using Cons.prems(1) log_wf_prefix [of dec "rs @ [r]" new] by simp
  from Cons.prems(4) have r: "se_streamId r = sid" "dates_valid (se_event r)" "event_refers sj rm (se_event r)"
    by simp_all
  obtain rm1 where rm1: "project_session dec sj r rm = Inr rm1"
    using log_record_total [OF wf Cons.prems(2) r(2) Cons.prems(3) r(3)] by blast
  let ?s = "logged_state dec rs sid"
  have ok: "events_ok dec ?s (own_log (r # new) sid)"
    using Cons.prems(1) by (simp add: log_wf_def events_ok_append logged_state_def)
  have "event_refers sj rm1 (se_event r')" if r': "r' \<in> set new" for r'
  proof -
    from r' Cons.prems(4) have "se_event r' \<in> set (own_log new sid)" by (auto simp: own_log_def)
    moreover have "exists (evolve dec ?s (se_event r))" "events_ok dec (evolve dec ?s (se_event r)) (own_log new sid)"
      using ok r(1) exists_evolve by simp_all
    ultimately have "\<forall>c. se_event r' \<noteq> SessionCreated c" using created_first by blast
    then have "event_refers sj rm1 (se_event r') = event_refers sj rm (se_event r')"
      by (cases "se_event r'") (simp_all add: event_refers_def)
    with r' Cons.prems(4) show ?thesis by simp
  qed
  with Cons.IH [of "rs @ [r]" rm1] Cons.prems(1,4) log_displayed_step [OF wf Cons.prems(2) rm1]
    log_record_references [OF rm1] rm1
  show ?case by simp
qed simp

section \<open>The log\<close>

text \<open>A creation is dispatched to the stream of the session it creates.\<close>

fun created_session :: "session_command \<Rightarrow> string option" where
  "created_session (CreateSession c) = Some (cs_sessionId c)"
| "created_session (CreateSessionWithInitialTurn c t) = Some (cs_sessionId c)"
| "created_session c = None"

definition own_creation :: "session_command dispatch_input \<Rightarrow> bool" where
  "own_creation input \<longleftrightarrow>
     (\<forall>sid. created_session (di_command input) = Some sid \<longrightarrow> sid = di_streamId input)"

lemma mild_not_created: "list_all mild_event es \<Longrightarrow> SessionCreated e \<notin> set es"
  by (auto simp: list_all_iff)

lemma decide_created:
  assumes d: "decide s c = Inr es" and e: "SessionCreated e \<in> set es"
  shows "created_session c = Some (sc_sessionId e)"
proof (cases "special_command c")
  case False
  from decide_mild [OF False d] mild_not_created e show ?thesis by blast
next
  case True
  then show ?thesis
  proof (cases c)
    case (CreateSession x)
    with d e show ?thesis
      by (auto simp: decide_CreateSession_def created_event_def split: if_splits
          dest: mild_not_created [OF seeds_mild, THEN notE])
  next
    case (CreateSessionWithInitialTurn x t)
    with d e show ?thesis
      by (auto simp: decide_CreateSessionWithInitialTurn_def created_event_def split: if_splits
          dest: mild_not_created [OF seeds_mild, THEN notE])
  next
    case (FinalizeTurn t outcome tm)
    with d e show ?thesis by (auto simp: with_session_Inr decide_FinalizeTurn_def split: if_splits)
  next
    case (DeleteSession tm)
    with d e show ?thesis by (auto simp: with_session_Inr)
  qed simp_all
qed

definition log_inv :: "('g, 'i) service_env \<Rightarrow> service_db \<Rightarrow> bool" where
  "log_inv env db \<longleftrightarrow>
     db_inv env db \<and> 0 \<le> db_lastSequence db \<and> (\<forall>row \<in> set (db_events db). 0 < er_sequence row) \<and>
     (\<forall>sid. session_reachable (sv_decoder env) (own_log (records env db) sid)
        (logged_state (sv_decoder env) (records env db) sid)) \<and>
     (\<forall>r \<in> set (records env db). \<forall>c. se_event r = SessionCreated c \<longrightarrow> sc_sessionId c = se_streamId r)"

text \<open>The tables an append leaves alone.\<close>

definition same_but_log :: "service_db \<Rightarrow> service_db \<Rightarrow> bool" where
  "same_but_log db db' \<longleftrightarrow>
     cd_cursors db' = cd_cursors db \<and> sd_readModel db' = sd_readModel db \<and>
     sd_jobs db' = sd_jobs db \<and> sd_restores db' = sd_restores db"

lemma records_own_log: "own_log (records env db) sid = map se_event (sql_stream (sv_events env) db sid)"
  by (simp add: own_log_def stream_of_log)

lemma appended_log:
  assumes ok: "env_ok env" and inv: "log_inv env db" and app: "appended env db input ai r db'"
    and own: "own_creation input"
  shows "log_inv env db' \<and> same_but_log db db' \<and>
    (\<exists>new. records env db' = records env db @ new \<and>
       (\<forall>x \<in> set new. last_sequence (records env db) < se_sequence x) \<and>
       receipt_records env db' (di_streamId input) r = Inr new \<and>
       map (\<lambda>x. (se_eventId x, se_event x)) new = ai_events ai \<and>
       (\<forall>x \<in> set new. se_streamId x = di_streamId input))"
proof -
  let ?ec = "sv_events env" let ?rc = "sv_receipts env" let ?dec = "sv_decoder env"
  from ok have ok': "codec_ok ?ec" "receipt_codec_ok ?rc" by (simp_all add: env_ok_def)
  from inv have dbinv: "db_inv env db" by (simp add: log_inv_def)
  from app have a: "ai_streamId ai = di_streamId input" "sql_receipt_of ?rc db (ai_commandId ai) = None"
    "session_prepares ?dec (service_ops env) (sv_mint env) db None input ai"
    "append_transaction ?ec ?rc (sv_nowText env) db ai = Inr (r, db')" using app unfolding appended_def by blast+
  obtain rows n rrow where rows:
    "db' = db\<lparr>db_events := db_events db @ rows, db_lastSequence := n, db_receipts := db_receipts db @ [rrow]\<rparr>"
    "\<forall>row \<in> set rows. db_lastSequence db < er_sequence row" "db_lastSequence db \<le> n"
    by (rule append_rows [OF dbinv a(2,4)])
  obtain new where new: "records env db' = records env db @ new"
    "\<forall>x \<in> set new. se_streamId x = ai_streamId ai \<and> db_lastSequence db < se_sequence x"
    "map (\<lambda>x. (se_eventId x, se_event x)) new = ai_events ai"
    "sql_events_in_version_range ?ec db' (ai_streamId ai)
       (cr_streamVersion r - int (length (cr_eventIds r))) (cr_streamVersion r) = Inr new"
    by (rule append_logged [OF ok' dbinv a(2,4)])
  from append_transaction_new [OF ok' dbinv a(2,4)] have inv': "db_inv env db'"
    and r: "r = receipt_for ai (ai_expectedVersion ai + int (length (ai_events ai)))" by blast+
  note engine = sql_session_engine [OF ok', of "sv_nowText env" ?dec "sv_mint env"]
  note logs = event_sourced.log_of_def [OF engine] event_sourced.replayed_def [OF engine]
  have "op_events (service_ops env) db (di_streamId input) = Inr (sql_stream ?ec db (di_streamId input))"
    by (simp add: service_ops_def sql_ops_def sql_events_ok [OF dbinv])
  from session_prepares_sound [OF this a(3)] have decided:
    "decide (foldl (evolve ?dec) initial_session_state (map se_event (sql_stream ?ec db (di_streamId input))))
       (di_command input) = Inr (map snd (ai_events ai))" by blast
  have grow: "db_lastSequence db \<le> db_lastSequence db' \<and> (\<forall>row \<in> set (db_events db'). 0 < er_sequence row)"
    using inv inv' rows by (auto simp: log_inv_def)
  have "\<forall>sid. session_reachable ?dec (own_log (records env db') sid) (logged_state ?dec (records env db') sid)"
  proof
    fix sid
    have "event_sourced.decided_on_prefix (sql_stream ?ec) initial_session_state (evolve ?dec) decide db ai"
      using event_sourced.decided_when_prepared [OF engine dbinv] a(3) by (simp add: service_ops_def)
    moreover have "op_append (sql_ops ?ec ?rc (sv_nowText env)) db ai = (Inr r, db')"
      using a(4) by (simp add: sql_ops_def sql_append_def)
    ultimately show "session_reachable ?dec (own_log (records env db') sid) (logged_state ?dec (records env db') sid)"
      using event_sourced.commit_reachable [OF engine dbinv, of ai "Inr r" db' sid] inv
      by (simp add: log_inv_def logs records_own_log logged_state_def)
  qed
  moreover have "\<forall>x \<in> set (records env db'). \<forall>c. se_event x = SessionCreated c \<longrightarrow> sc_sessionId c = se_streamId x"
  proof (intro ballI allI impI)
    fix x c
    assume x: "x \<in> set (records env db')" "se_event x = SessionCreated c"
    show "sc_sessionId c = se_streamId x"
    proof (cases "x \<in> set new")
      case True
      have "(\<lambda>x. (se_eventId x, se_event x)) x \<in> set (ai_events ai)"
        unfolding new(3) [symmetric] set_map using True by (rule imageI)
      then have "SessionCreated c \<in> set (map snd (ai_events ai))" using x(2) by force
      with decided have "created_session (di_command input) = Some (sc_sessionId c)" by (rule decide_created)
      with own new(2) True a(1) show ?thesis by (simp add: own_creation_def)
    next
      case False
      with x new(1) inv show ?thesis by (auto simp: log_inv_def)
    qed
  qed
  ultimately have "log_inv env db'" using inv inv' grow by (simp add: log_inv_def)
  moreover have "same_but_log db db'" by (simp add: same_but_log_def rows(1))
  moreover have "last_sequence (records env db) \<le> db_lastSequence db"
    using log_sequences(2) [of db ?ec] inv by (auto simp: log_inv_def sql_inv_def last_sequence_def)
  moreover have "receipt_records env db' (di_streamId input) r = Inr new"
  proof (cases "cr_eventIds r = []")
    case True
    with r new(3) have "new = []" by (simp add: receipt_for_def)
    with True show ?thesis by (simp add: receipt_records_def)
  next
    case False
    with new(4) a(1) show ?thesis by (simp add: receipt_records_def)
  qed
  moreover have "\<forall>x \<in> set new. last_sequence (records env db) < se_sequence x"
    using new(2) calculation(3) by fastforce
  moreover have "\<forall>x \<in> set new. se_streamId x = di_streamId input" using new(2) a(1) by simp
  ultimately show ?thesis using new(1,3) by blast
qed

section \<open>The jobs of a log\<close>

text \<open>Every event has its jobs, and every job is the job of an event.\<close>

definition row_of_job :: "job_codec \<Rightarrow> pending_job \<Rightarrow> job_row \<Rightarrow> bool" where
  "row_of_job jc p row \<longleftrightarrow>
     jr_id row = pj_id p \<and> jr_sessionId row = pj_sessionId p \<and>
     jr_kind row = request_kind (pj_request p) \<and> jr_requestJson row = jc_encode jc (pj_request p)"

definition jobs_of_log ::
  "job_codec \<Rightarrow> session_event stored_event list \<Rightarrow> job_table \<Rightarrow> bool" where
  "jobs_of_log jc rs jt \<longleftrightarrow>
     (\<forall>r \<in> set rs. \<forall>p \<in> set (jobs_for_session_event r). has_job jt (pj_id p)) \<and>
     (\<forall>row \<in> set (jt_rows jt). \<exists>r \<in> set rs. \<exists>p \<in> set (jobs_for_session_event r). row_of_job jc p row)"

lemma same_jobs_of_log:
  assumes "jobs_of_log jc rs jt" "list_all2 same_job (jt_rows jt) (jt_rows jt')"
  shows "jobs_of_log jc rs jt'"
proof -
  have "map jr_id (jt_rows jt') = map jr_id (jt_rows jt)"
    using assms(2) by (induction rule: list_all2_induct) (simp_all add: same_job_def)
  then have "has_job jt' k = has_job jt k" for k
    unfolding has_job_def list_ex_iff by (metis (no_types, lifting) in_set_conv_nth length_map nth_map)
  moreover have "\<exists>r \<in> set rs. \<exists>p \<in> set (jobs_for_session_event r). row_of_job jc p row"
    if "row \<in> set (jt_rows jt')" for row
  proof -
    from that assms(2) obtain x where "x \<in> set (jt_rows jt)" "same_job x row"
      by (metis in_set_conv_nth list_all2_conv_all_nth)
    with assms(1) show ?thesis by (fastforce simp: jobs_of_log_def row_of_job_def same_job_def)
  qed
  ultimately show ?thesis using assms(1) by (simp add: jobs_of_log_def)
qed

lemma maps_rows_same_job:
  assumes "maps_rows R jt jt'" "\<And>x y. R x y \<Longrightarrow> same_job x y"
  shows "list_all2 same_job (jt_rows jt) (jt_rows jt')"
  using assms by (auto simp: maps_rows_def same_job_def elim!: list_all2_mono)

lemma other_call_same_job:
  assumes "ledger_inv jt" "\<forall>now ps. c \<noteq> CallEnqueue now ps"
  shows "list_all2 same_job (jt_rows jt) (jt_rows (run_call jc c jt))"
proof (cases "\<exists>now input. c = CallClaim now input")
  case True
  then obtain now input where c: "c = CallClaim now input" by blast
  show ?thesis unfolding c run_call.simps
    by (rule maps_rows_same_job [OF claim_maps [OF assms(1)]]) (simp add: claim_step_def claimed_row_same)
next
  case False
  with assms(2) have "quiet_call c" by (cases c) auto
  then show ?thesis
    by (intro maps_rows_same_job [OF quiet_call_maps]) (auto simp: row_step_def)
qed

lemma enqueue_jobs_of_log:
  assumes "\<forall>row \<in> set (jt_rows jt). \<exists>p \<in> A. row_of_job jc p row" "set ps \<subseteq> A"
  shows "\<forall>row \<in> set (jt_rows (snd (enqueue_jobs jc now ps jt))). \<exists>p \<in> A. row_of_job jc p row"
  using assms
proof (induction ps arbitrary: jt)
  case (Cons p ps)
  have "\<forall>row \<in> set (jt_rows (snd (insert_job jc now jt p))). \<exists>p \<in> A. row_of_job jc p row"
    using Cons.prems by (auto simp: insert_job_def row_of_job_def)
  with Cons show ?case by (simp add: case_prod_beta)
qed simp

text \<open>The jobs of a transaction, with the ids of the jobs it cancels.\<close>

lemma settle_jobs_table:
  assumes inv: "ledger_inv (sd_jobs db)" and jobs: "jobs_of_log (sv_jobs env) rs (sd_jobs db)"
    and s: "settle_jobs env input new db = (x, db')"
  shows "ledger_inv (sd_jobs db') \<and> jobs_of_log (sv_jobs env) (rs @ new) (sd_jobs db') \<and>
    (\<exists>jt. db' = db\<lparr>sd_jobs := jt\<rparr>)"
proof -
  let ?jc = "sv_jobs env" let ?now = "sv_now env db" let ?events = "map se_event new"
  define jt1 where "jt1 = snd (cancel_superseded ?now input ?events (sd_jobs db))"
  define jt2 where "jt2 = snd (cancel_interrupted ?now input ?events jt1)"
  define jt3 where "jt3 = snd (enqueue_jobs ?jc ?now (concat (map jobs_for_session_event new)) jt2)"
  have db': "db' = db\<lparr>sd_jobs := jt3\<rparr>"
    using s by (auto simp: settle_jobs_def jt1_def jt2_def jt3_def Let_def split: prod.splits)
  have one: "ledger_inv (snd (cancel_unsettled ?now sid kinds reason jt)) \<and>
      jobs_of_log ?jc rs (snd (cancel_unsettled ?now sid kinds reason jt))"
    if "ledger_inv jt" "jobs_of_log ?jc rs jt" for sid kinds reason jt
    using run_call_inv [OF that(1), of ?jc "CallCancel ?now sid kinds reason"]
      same_jobs_of_log [OF that(2) other_call_same_job [OF that(1), of "CallCancel ?now sid kinds reason" ?jc]]
    by simp
  have "ledger_inv jt1 \<and> jobs_of_log ?jc rs jt1"
    unfolding jt1_def cancel_superseded_def using one [OF inv jobs] inv jobs by simp
  then have jt2: "ledger_inv jt2 \<and> jobs_of_log ?jc rs jt2"
    unfolding jt2_def cancel_interrupted_def using one by simp
  have "jobs_of_log ?jc (rs @ new) jt3"
  proof -
    let ?A = "\<Union>r \<in> set (rs @ new). set (jobs_for_session_event r)"
    have "\<forall>row \<in> set (jt_rows jt2). \<exists>p \<in> ?A. row_of_job ?jc p row"
      using jt2 unfolding jobs_of_log_def bex_UN set_append by blast
    then have "\<forall>row \<in> set (jt_rows jt3). \<exists>p \<in> ?A. row_of_job ?jc p row"
      unfolding jt3_def by (rule enqueue_jobs_of_log) auto
    moreover have "has_job jt3 (pj_id p)" if "r \<in> set (rs @ new)" "p \<in> set (jobs_for_session_event r)" for r p
    proof (cases "r \<in> set new")
      case True
      with that(2) show ?thesis unfolding jt3_def by (intro enqueue_jobs_has(2)) auto
    next
      case False
      with that jt2 show ?thesis unfolding jt3_def by (intro enqueue_jobs_has(1)) (auto simp: jobs_of_log_def)
    qed
    ultimately show ?thesis by (fastforce simp: jobs_of_log_def)
  qed
  moreover have "ledger_inv jt3" unfolding jt3_def using jt2 by (simp add: enqueue_jobs_inv)
  ultimately show ?thesis using db' by auto
qed

section \<open>The invariant of the service\<close>

definition service_inv :: "('g, 'i) service_env \<Rightarrow> service_db \<Rightarrow> bool" where
  "service_inv env db \<longleftrightarrow>
     log_inv env db \<and>
     (log_wf (sv_decoder env) (records env db) \<longrightarrow>
        log_displayed (sv_decoder env) (records env db) (sd_readModel db)) \<and>
     references_hold (sv_json env) (sd_readModel db) \<and>
     sql_cursor db session_projector_name = last_sequence (records env db) \<and>
     jobs_of_log (sv_jobs env) (records env db) (sd_jobs db) \<and> ledger_inv (sd_jobs db)"

text \<open>The invariant depends on the tables, not on the record they are part of.\<close>

lemma sql_inv_events:
  assumes "db_events db' = db_events db" "db_lastSequence db' = db_lastSequence db"
    "db_receipts db' = db_receipts db"
  shows "sql_inv ec rc db' = sql_inv ec rc db" "logged_records ec db' = logged_records ec db"
  using assms
  by (simp_all add: sql_inv_def streams_numbered_def sequences_grow_def rows_decode_def receipts_decode_def
      stream_rows_def logged_records_def)

lemma log_inv_events:
  assumes "db_events db' = db_events db" "db_lastSequence db' = db_lastSequence db"
    "db_receipts db' = db_receipts db"
  shows "log_inv env db' = log_inv env db"
  using assms by (simp add: log_inv_def sql_inv_events [OF assms])

lemma service_inv_jobs:
  assumes "service_inv env db" "ledger_inv jt" "jobs_of_log (sv_jobs env) (records env db) jt"
  shows "service_inv env (db\<lparr>sd_jobs := jt\<rparr>) \<and> records env (db\<lparr>sd_jobs := jt\<rparr>) = records env db"
proof -
  let ?db = "db\<lparr>sd_jobs := jt\<rparr>"
  have "log_inv env ?db = log_inv env db" by (rule log_inv_events) simp_all
  moreover have r: "records env ?db = records env db" by (rule sql_inv_events(2)) simp_all
  moreover have "sql_cursor ?db n = sql_cursor db n" for n by (simp add: sql_cursor_def)
  ultimately show ?thesis using assms unfolding service_inv_def r by simp
qed

lemma last_sequence_bound:
  assumes "log_inv env db" "r \<in> set (records env db)"
  shows "se_sequence r \<le> last_sequence (records env db)"
proof -
  from assms(1) have "sorted_wrt (<) (map se_sequence (records env db))"
    by (intro log_sequences) (simp add: log_inv_def sql_inv_def)
  with assms(2) show ?thesis
    by (cases "records env db" rule: rev_cases) (auto simp: last_sequence_def sorted_wrt_append)
qed

text \<open>A transaction that succeeds keeps the invariant, whatever the continuation returns.\<close>

lemma transaction_stages:
  fixes env :: "('g, 'i) service_env" and on_committed :: "('x, 'a) continuation"
  assumes "dispatch_transaction env on_committed input g db = Inr (out, db')"
  obtains receipt db1 db2 db3 where
    "dispatch_retrying env 8 db g input = (Inr receipt, db1)"
    "receipt_records env db1 (di_streamId input) receipt = Inr (do_appended out)"
    "project_appended env (sql_cursor db1 session_projector_name) (do_appended out) db1 =
       (Inr db2 :: ('i, 'x) service_error + service_db)"
    "settle_jobs env input (do_appended out) db2 = ((do_cancelled out, do_enqueued out), db3)"
    "on_committed receipt db3 = Inr (do_result out, db')"
  using assms by (auto simp: dispatch_transaction_def split: if_splits sum.splits prod.splits)

lemma transaction_inv:
  fixes env :: "('g, 'i) service_env" and on_committed :: "('x, 'a) continuation"
  assumes ok: "env_ok env" and inv: "service_inv env db" and own: "own_creation input"
    and t: "dispatch_transaction env on_committed input g db = Inr (out, db')"
    and quiet: "\<And>receipt db1 a db2. on_committed receipt db1 = Inr (a, db2) \<Longrightarrow> db2 = db1"
  shows "service_inv env db' \<and> (\<exists>new. records env db' = records env db @ new \<and> set new \<subseteq> set (do_appended out))"
proof -
  obtain receipt db1 db2 db3 where st:
    "dispatch_retrying env 8 db g input = (Inr receipt, db1)"
    "receipt_records env db1 (di_streamId input) receipt = Inr (do_appended out)"
    "project_appended env (sql_cursor db1 session_projector_name) (do_appended out) db1 =
       (Inr db2 :: ('i, 'x) service_error + service_db)"
    "settle_jobs env input (do_appended out) db2 = ((do_cancelled out, do_enqueued out), db3)"
    "on_committed receipt db3 = Inr (do_result out, db')"
    by (rule transaction_stages [OF t])
  have db': "db' = db3" using quiet [OF st(5)] .
  from inv have li: "log_inv env db" and dbinv: "db_inv env db"
    and cursor: "sql_cursor db session_projector_name = last_sequence (records env db)"
    and jobs: "jobs_of_log (sv_jobs env) (records env db) (sd_jobs db)" "ledger_inv (sd_jobs db)"
    by (simp_all add: service_inv_def log_inv_def)
  consider "db1 = db" | ai where "appended env db input ai receipt db1"
    using dispatch_retrying_cases [OF dbinv st(1)] by auto
  then show ?thesis
  proof cases
    case 1
    have "do_appended out = [] \<or> (\<exists>P. filter P (records env db) = do_appended out)"
      using st(2) dbinv unfolding 1
      by (auto simp: receipt_records_def version_range_of_stream sql_inv_def stream_of_log split: if_splits)
    then have known: "\<forall>r \<in> set (do_appended out). r \<in> set (records env db)"
      by (metis empty_iff empty_set filter_is_subset subsetD)
    then have "db2 = db"
      using st(3) last_sequence_bound [OF li] unfolding 1 by (simp add: project_appended_skip cursor)
    from settle_jobs_table [OF jobs(2,1) st(4) [unfolded this]] obtain jt where
      jt: "db3 = db\<lparr>sd_jobs := jt\<rparr>" "ledger_inv jt"
      "jobs_of_log (sv_jobs env) (records env db @ do_appended out) jt" by auto
    have "jobs_of_log (sv_jobs env) (records env db) jt"
      using jt(3) known unfolding jobs_of_log_def by (metis Un_iff set_append)
    from service_inv_jobs [OF inv jt(2) this] show ?thesis unfolding db' jt(1) by simp
  next
    case 2
    from appended_log [OF ok li 2 own] obtain new where a: "log_inv env db1" "same_but_log db db1"
      "records env db1 = records env db @ new" "\<forall>x \<in> set new. last_sequence (records env db) < se_sequence x"
      "receipt_records env db1 (di_streamId input) receipt = Inr new" by blast
    from a(5) st(2) have [simp]: "do_appended out = new" by simp
    have same: "sql_cursor db1 session_projector_name = last_sequence (records env db)"
      "sd_readModel db1 = sd_readModel db" "sd_jobs db1 = sd_jobs db"
      using a(2) cursor by (simp_all add: same_but_log_def sql_cursor_def)
    have "sorted_wrt (<) (map se_sequence (records env db1))"
      using a(1) by (intro log_sequences) (simp add: log_inv_def sql_inv_def)
    then have p: "projected env new db1 db2"
      using st(3) a(4) same(1) by (intro project_appended_projects) (auto simp: a(3) sorted_wrt_append)
    then have tables: "db_events db2 = db_events db1" "db_lastSequence db2 = db_lastSequence db1"
      "db_receipts db2 = db_receipts db1" "sd_jobs db2 = sd_jobs db"
      by (simp_all add: projected_def same(3))
    from settle_jobs_table [OF _ _ st(4), of "records env db"] jobs tables(4) obtain jt where
      jt: "db3 = db2\<lparr>sd_jobs := jt\<rparr>" "ledger_inv jt" "jobs_of_log (sv_jobs env) (records env db @ new) jt"
      by auto
    have r3: "records env db3 = records env db @ new" "log_inv env db3"
      using a(1,3) log_inv_events [of db3 db1 env] sql_inv_events(2) [of db3 db1 "sv_events env"] tables
      by (simp_all add: jt(1))
    have "log_displayed (sv_decoder env) (records env db @ new) (sd_readModel db2)"
      if wf: "log_wf (sv_decoder env) (records env db @ new)"
    proof -
      from inv log_wf_prefix [OF wf] have "log_displayed (sv_decoder env) (records env db) (sd_readModel db)"
        by (simp add: service_inv_def)
      with displayed_extend [OF wf this, of "sv_json env"] p same(2) show ?thesis
        by (simp add: projected_def)
    qed
    moreover have "references_hold (sv_json env) (sd_readModel db2)"
      using log_references [of "sv_decoder env" "sv_json env" new "sd_readModel db1"] p inv same(2)
      by (simp add: projected_def service_inv_def)
    moreover have "sql_cursor db2 session_projector_name = last_sequence (records env db @ new)"
      using p same(1) by (cases "new = []") (auto simp: projected_def last_sequence_def)
    moreover have "sql_cursor db3 n = sql_cursor db2 n" for n by (simp add: jt(1) sql_cursor_def)
    ultimately have "service_inv env db3"
      using r3 jt by (simp add: service_inv_def)
    then show ?thesis using r3(1) unfolding db' by auto
  qed
qed

end
