(* ===== verification/Session_Domain_History.thy ===== *)
theory Session_Domain_History
  imports Session_Domain_Laws Sql_Chat_Projector
begin

text \<open>
  Histories of the session service. \<open>service_history\<close> interleaves dispatches, calls of the ledger
  by workers, catch-ups of the projector, restores of checkpoints and what the projector of chats
  writes, in any order, from an empty database; the invariant holds after every such history. A chat
  is deleted after its sessions, as a foreign key may delete them with it.
\<close>

section \<open>Histories\<close>

definition empty_service_db :: service_db where
  "empty_service_db =
     \<lparr>db_events = [], db_lastSequence = 0, db_receipts = [], cd_cursors = [],
      sd_readModel = empty_read_model, sd_jobs = empty_job_table, sd_restores = []\<rparr>"

inductive service_history :: "('g, 'i) service_env \<Rightarrow> service_db \<Rightarrow> bool" for env where
  start: "service_history env empty_service_db"
| command:
    "service_history env db \<Longrightarrow> own_creation input \<Longrightarrow>
     service_dispatch env gate input g db = (x, db') \<Longrightarrow> service_history env db'"
| worker:
    "service_history env db \<Longrightarrow> \<forall>now ps. c \<noteq> CallEnqueue now ps \<Longrightarrow>
     service_history env (db\<lparr>sd_jobs := run_call (sv_jobs env) c (sd_jobs db)\<rparr>)"
| catch_up:
    "service_history env db \<Longrightarrow> service_catch_up env db = (x :: ('i, unit) service_error + int, db') \<Longrightarrow>
     service_history env db'"
| restoring: "service_history env db \<Longrightarrow> service_history env (db\<lparr>sd_restores := rows\<rparr>)"
| chats:
    "service_history env db \<Longrightarrow> project_chat (sv_json env) cid e (sd_readModel db) = Inr rm \<Longrightarrow>
     \<forall>tm. e = ChatDeleted tm \<longrightarrow> \<not> list_ex (\<lambda>r. sr_chatId r = cid) (rm_sessions (sd_readModel db)) \<Longrightarrow>
     service_history env (db\<lparr>sd_readModel := rm\<rparr>)"

lemma empty_references: "references_hold sj empty_read_model"
  by (simp add: references_hold_def empty_read_model_def)

lemma empty_service_inv: "service_inv env empty_service_db"
proof -
  let ?db = empty_service_db
  have r: "records env ?db = []" by (simp add: logged_records_def empty_service_db_def)
  have "db_inv env ?db" by (rule sql_inv_empty) (simp_all add: empty_service_db_def)
  then have "log_inv env ?db"
    unfolding log_inv_def r by (simp add: empty_service_db_def reach_start)
  then show ?thesis unfolding service_inv_def r
    by (simp add: empty_service_db_def sql_cursor_def last_sequence_def jobs_of_log_def empty_job_table_def
        initial_displayed empty_references) (simp add: ledger_inv_def running_sessions_def)
qed

lemma catch_up_at_end:
  assumes "service_inv env db"
  shows "service_catch_up env db = (Inr (last_sequence (records env db)), db)"
proof -
  from assms have dbinv: "db_inv env db"
    and cursor: "sql_cursor db session_projector_name = last_sequence (records env db)"
    by (simp_all add: service_inv_def log_inv_def)
  have "filter (\<lambda>r. last_sequence (records env db) < se_sequence r) (records env db) = []"
    using last_sequence_bound [of env db] assms by (fastforce simp: filter_empty_conv service_inv_def)
  then show ?thesis
    using dbinv by (simp add: service_catch_up_def projector_catch_up_def sql_projector_ops_def
        session_projector_def cursor all_events_of_log sql_inv_def)
qed

text \<open>The projector of chats leaves the tables of sessions as they are.\<close>

lemma no_sessions_deleted:
  assumes "\<not> list_ex p (rm_sessions rm)"
  shows "rm_sessions (delete_sessions sj p rm) = rm_sessions rm"
    "rm_queue (delete_sessions sj p rm) = rm_queue rm"
proof -
  from assms have none: "filter p (rm_sessions rm) = []" by (auto simp: filter_empty_conv list_ex_iff)
  have kept: "delete_where p (rm_sessions rm) = rm_sessions rm"
    using assms by (auto simp: delete_where_def list_ex_iff intro: filter_True)
  show "rm_sessions (delete_sessions sj p rm) = rm_sessions rm"
    by (simp add: delete_sessions_def Let_def kept none update_where_other)
  show "rm_queue (delete_sessions sj p rm) = rm_queue rm"
    by (simp add: delete_sessions_def Let_def none delete_where_def)
qed

lemma chats_leave_sessions:
  assumes p: "project_chat sj cid e rm = Inr rm'"
    and d: "\<forall>tm. e = ChatDeleted tm \<longrightarrow> \<not> list_ex (\<lambda>r. sr_chatId r = cid) (rm_sessions rm)"
  shows "rm_sessions rm' = rm_sessions rm" "rm_turns rm' = rm_turns rm" "rm_threads rm' = rm_threads rm"
    "rm_attempts rm' = rm_attempts rm" "rm_queue rm' = rm_queue rm" "rm_forks rm = [] \<Longrightarrow> rm_forks rm' = []"
    "references_hold sj rm'"
proof -
  from p have c: "project_chat_event sj cid e rm = Inr rm'" and refs: "references_hold sj rm'"
    by (auto simp: project_chat_def and_then_Inr)
  show "references_hold sj rm'" by (rule refs)
  have "rm_sessions rm' = rm_sessions rm \<and> rm_turns rm' = rm_turns rm \<and> rm_threads rm' = rm_threads rm \<and>
    rm_attempts rm' = rm_attempts rm \<and> rm_queue rm' = rm_queue rm \<and> (rm_forks rm = [] \<longrightarrow> rm_forks rm' = [])"
  proof (cases e)
    case (ChatDeleted tm)
    with d have none: "\<not> list_ex (\<lambda>r. sr_chatId r = cid) (rm_sessions rm)" by simp
    from c ChatDeleted none show ?thesis
      by (auto simp: project_ChatDeleted_def and_then_Inr Let_def no_sessions_deleted)
  qed (use c in \<open>auto simp: project_ChatCreated_def update_chat_def split: option.splits\<close>)
  then show "rm_sessions rm' = rm_sessions rm" "rm_turns rm' = rm_turns rm" "rm_threads rm' = rm_threads rm"
    "rm_attempts rm' = rm_attempts rm" "rm_queue rm' = rm_queue rm" "rm_forks rm = [] \<Longrightarrow> rm_forks rm' = []"
    by simp_all
qed

lemma log_displayed_tables:
  assumes "log_displayed dec rs rm" "rm_sessions rm' = rm_sessions rm" "rm_turns rm' = rm_turns rm"
    "rm_threads rm' = rm_threads rm" "rm_attempts rm' = rm_attempts rm" "rm_queue rm' = rm_queue rm"
    "rm_forks rm = [] \<Longrightarrow> rm_forks rm' = []"
  shows "log_displayed dec rs rm'"
proof -
  have "own_session rm' sid = own_session rm sid" for sid by (rule own_session_frame [OF assms(2)])
  with assms show ?thesis by (simp add: log_displayed_def displays_def session_shown_def)
qed

lemma service_history_inv:
  assumes "env_ok env" "service_history env db"
  shows "service_inv env db"
  using assms(2)
proof (induction rule: service_history.induct)
  case start
  show ?case by (rule empty_service_inv)
next
  case (command db input gate g x db')
  show ?case
  proof (cases x)
    case (Inl e)
    with command.hyps(3) have "db' = db"
      by (auto simp: service_dispatch_def dispatch_transactionally_def admission_run_def
          split: if_splits sum.splits prod.splits)
    with command.IH show ?thesis by simp
  next
    case (Inr out)
    with command.hyps(3) have "dispatch_transaction env (\<lambda>receipt db. Inr (receipt, db)) input g db =
        (Inr (out, db') :: ('b, unit) service_error + _)"
      by (auto simp: service_dispatch_def dispatch_transactionally_def admission_run_def
          split: if_splits sum.splits prod.splits)
    from transaction_inv [OF assms(1) command.IH command.hyps(2) this] show ?thesis by simp
  qed
next
  case (worker db c)
  from worker.IH have l: "ledger_inv (sd_jobs db)"
    and j: "jobs_of_log (sv_jobs env) (records env db) (sd_jobs db)" by (simp_all add: service_inv_def)
  from service_inv_jobs [OF worker.IH run_call_inv [OF l]
      same_jobs_of_log [OF j other_call_same_job [OF l worker.hyps(2)]]]
  show ?case by blast
next
  case (catch_up db x db')
  then show ?case by (simp add: catch_up_at_end)
next
  case (restoring db rows)
  let ?db = "db\<lparr>sd_restores := rows\<rparr>"
  have "log_inv env ?db = log_inv env db" by (rule log_inv_events) simp_all
  moreover have r: "records env ?db = records env db" by (rule sql_inv_events(2)) simp_all
  moreover have "sql_cursor ?db n = sql_cursor db n" for n by (simp add: sql_cursor_def)
  ultimately show ?case using restoring.IH unfolding service_inv_def r by simp
next
  case (chats db cid e rm)
  let ?db = "db\<lparr>sd_readModel := rm\<rparr>"
  note kept = chats_leave_sessions [OF chats.hyps(2,3)]
  have "log_inv env ?db = log_inv env db" by (rule log_inv_events) simp_all
  moreover have r: "records env ?db = records env db" by (rule sql_inv_events(2)) simp_all
  moreover have "log_displayed (sv_decoder env) rs rm" if "log_displayed (sv_decoder env) rs (sd_readModel db)" for rs
    by (rule log_displayed_tables [OF that kept(1-6)])
  ultimately show ?case using chats.IH kept(7) unfolding service_inv_def r by simp
qed

section \<open>The read model\<close>

text \<open>Turns are started once, and a queue id belongs to one session.\<close>

definition fresh_ids :: "(string \<times> session_event) list \<Rightarrow> bool" where
  "fresh_ids xs \<longleftrightarrow>
     distinct (started_turns (map snd xs)) \<and>
     (\<forall>x \<in> set xs. \<forall>y \<in> set xs.
        queued_id (snd x) \<noteq> None \<and> queued_id (snd x) = queued_id (snd y) \<longrightarrow> fst x = fst y)"

definition stream_events :: "'e stored_event list \<Rightarrow> (string \<times> 'e) list" where
  "stream_events rs = map (\<lambda>r. (se_streamId r, se_event r)) rs"

lemma inv_log_wf:
  assumes inv: "log_inv env db" and fresh: "fresh_ids (stream_events (records env db))"
  shows "log_wf (sv_decoder env) (records env db)"
  unfolding log_wf_def
proof (intro conjI allI)
  show "sorted_wrt (<) (map se_sequence (records env db))"
    using inv by (intro log_sequences) (simp add: log_inv_def sql_inv_def)
  show "\<forall>r \<in> set (records env db). 0 < se_sequence r"
    using inv by (auto simp: log_inv_def logged_records_def decoded_row_fields)
  fix sid
  have "session_reachable (sv_decoder env) (own_log (records env db) sid)
      (logged_state (sv_decoder env) (records env db) sid)"
    using inv unfolding log_inv_def by blast
  from log_ok [OF this] show
    "events_ok (sv_decoder env) initial_session_state (own_log (records env db) sid)"
    "shown_events (sv_decoder env) initial_session_state (own_log (records env db) sid)" by simp_all
next
  show "\<forall>r \<in> set (records env db). \<forall>c. se_event r = SessionCreated c \<longrightarrow> sc_sessionId c = se_streamId r"
    using inv unfolding log_inv_def by blast
  show "distinct (started_turns (map se_event (records env db)))"
    using fresh by (simp add: fresh_ids_def stream_events_def comp_def)
  show "\<forall>r \<in> set (records env db). \<forall>r' \<in> set (records env db). \<forall>k.
      queued_id (se_event r) = Some k \<and> queued_id (se_event r') = Some k \<longrightarrow> se_streamId r = se_streamId r'"
  proof (intro ballI allI impI)
    fix r r' k
    assume "r \<in> set (records env db)" "r' \<in> set (records env db)"
    then have m: "(se_streamId r, se_event r) \<in> set (stream_events (records env db))"
      "(se_streamId r', se_event r') \<in> set (stream_events (records env db))"
      by (simp_all add: stream_events_def)
    assume "queued_id (se_event r) = Some k \<and> queued_id (se_event r') = Some k"
    then have "queued_id (se_event r) \<noteq> None" "queued_id (se_event r) = queued_id (se_event r')" by simp_all
    with m fresh show "se_streamId r = se_streamId r'"
      unfolding fresh_ids_def by (metis fst_conv snd_conv)
  qed
qed

lemma service_displays:
  assumes "env_ok env" "service_history env db" "fresh_ids (stream_events (records env db))"
  shows "displays sid (last_sequence (records env db)) (sd_readModel db)
      (logged_state (sv_decoder env) (records env db) sid)"
    "event_inv (logged_state (sv_decoder env) (records env db) sid)"
proof -
  from service_history_inv [OF assms(1,2)] have inv: "service_inv env db" .
  then have wf: "log_wf (sv_decoder env) (records env db)"
    using inv_log_wf assms(3) by (auto simp: service_inv_def)
  with inv show "displays sid (last_sequence (records env db)) (sd_readModel db)
      (logged_state (sv_decoder env) (records env db) sid)"
    by (simp add: service_inv_def log_displayed_def)
  show "event_inv (logged_state (sv_decoder env) (records env db) sid)"
    by (rule logged_state_facts(1) [OF wf])
qed

section \<open>The queries\<close>

lemma own_session_find:
  "find (\<lambda>r. sr_id r = sid \<and> P r) (rm_sessions rm) = find P (own_session rm sid)"
  by (simp add: own_session_def find_filter conj_commute)

lemma reservation_shown:
  assumes "session_shown sid rm s" "event_inv s"
  shows "provider_reservation_query rm sid = map_option rsv_providerSessionId (providerReservation s)"
proof (cases "exists s \<and> \<not> deleted s")
  case True
  with assms(1) obtain r where r: "own_session rm sid = [r]" "shows_session r s"
    by (auto simp: session_shown_def)
  have "archived s \<Longrightarrow> providerReservation s = None" using assms(2) by (simp add: event_inv_def)
  with r show ?thesis
    by (cases "archived s") (simp_all add: provider_reservation_query_def own_session_find shows_session_def)
next
  case False
  with assms(1) have "own_session rm sid = []" by (auto simp: session_shown_def)
  moreover have "providerReservation s = None"
    using False assms(2) by (auto simp: event_inv_def initial_session_state_def)
  ultimately show ?thesis by (simp add: provider_reservation_query_def own_session_find)
qed

definition expected_active :: "session_state \<Rightarrow> (string \<times> string) option" where
  "expected_active s =
     (if exists s \<and> \<not> deleted s \<and> \<not> archived s
      then Option.bind (currentTurnId s) (\<lambda>t. map_option (\<lambda>a. (t, a)) (active_attempt s t))
      else None)"

lemma live_row_of_current:
  assumes rows: "list_all2 shows_turn rows ts" and "distinct (keys ts)"
    and live: "\<And>k t. (k, t) \<in> set ts \<Longrightarrow> tn_status t \<in> live_statuses \<longleftrightarrow> cur = Some k"
  shows "map (\<lambda>r. (tr_id r, tr_activeAttemptId r)) (filter (\<lambda>r. tr_status r \<in> live_statuses) rows) =
    (case cur of None \<Rightarrow> [] | Some k \<Rightarrow>
       (case map_of ts k of None \<Rightarrow> [] | Some t \<Rightarrow> [(k, tn_activeAttemptId t)]))"
  using assms
proof (induction rows ts rule: list_all2_induct)
  case (Cons r rows e ts)
  obtain k t where e: "e = (k, t)" by (cases e)
  have ih: "map (\<lambda>r. (tr_id r, tr_activeAttemptId r)) (filter (\<lambda>r. tr_status r \<in> live_statuses) rows) =
    (case cur of None \<Rightarrow> [] | Some k \<Rightarrow>
       (case map_of ts k of None \<Rightarrow> [] | Some t \<Rightarrow> [(k, tn_activeAttemptId t)]))"
    using Cons.prems by (intro Cons.IH) (auto simp: e)
  have "tn_status t \<in> live_statuses \<longleftrightarrow> cur = Some k" using Cons.prems(2) by (simp add: e)
  moreover have "cur = Some k \<Longrightarrow> map_of ts k = None" using Cons.prems(1) by (simp add: e map_of_eq_None_iff)
  ultimately show ?case using Cons.hyps(1) ih by (auto simp: e split: option.splits)
qed (simp split: option.split)

lemma active_shown:
  assumes shown: "session_shown sid rm s" "turns_shown sid (rm_turns rm) s" and inv: "event_inv s"
  shows "active_attempt_query rm sid = expected_active s"
proof -
  let ?live = "\<lambda>t. tr_status t \<in> set active_session_turn_statuses"
  let ?open = "list_ex (\<lambda>r. sr_id r = sid \<and> sr_archivedAt r = None) (rm_sessions rm)"
  have query: "active_attempt_query rm sid =
      (if ?open then
         (case sort_key (\<lambda>t. - tr_ordinal t) (filter ?live (own_turns sid (rm_turns rm))) of
            [] \<Rightarrow> None | t # _ \<Rightarrow> Some (tr_id t, tr_activeAttemptId t))
       else None)"
  proof -
    have "filter (\<lambda>t. tr_sessionId t = sid \<and> ?live t \<and>
        list_ex (\<lambda>r. sr_id r = tr_sessionId t \<and> sr_archivedAt r = None) (rm_sessions rm)) (rm_turns rm) =
        (if ?open then filter ?live (own_turns sid (rm_turns rm)) else [])"
      by (induction "rm_turns rm") (auto simp: own_turns_def filter_empty_conv intro!: filter_cong)
    then show ?thesis by (simp add: active_attempt_query_def)
  qed
  have "?open \<longleftrightarrow> list_ex (\<lambda>r. sr_archivedAt r = None) (own_session rm sid)"
    by (auto simp: list_ex_iff own_session_def)
  also have "\<dots> \<longleftrightarrow> exists s \<and> \<not> deleted s \<and> \<not> archived s"
    using shown(1) by (auto simp: session_shown_def shows_session_def split: if_splits)
  finally have op: "?open \<longleftrightarrow> exists s \<and> \<not> deleted s \<and> \<not> archived s" .
  show ?thesis
  proof (cases "exists s \<and> \<not> deleted s \<and> \<not> archived s")
    case False
    with op query show ?thesis by (auto simp: expected_active_def)
  next
    case True
    with shown(2) have rows: "list_all2 shows_turn (own_turns sid (rm_turns rm)) (turns s)"
      by (simp add: turns_shown_def)
    from inv have t: "distinct (keys (turns s))"
      "\<And>k t. (k, t) \<in> set (turns s) \<Longrightarrow> tn_status t \<in> live_statuses \<longleftrightarrow> currentTurnId s = Some k"
      by (auto simp: event_inv_def turns_wf_def live_turn_def ended_turn_def split: if_splits)
    have "map (\<lambda>r. (tr_id r, tr_activeAttemptId r)) (filter ?live (own_turns sid (rm_turns rm))) =
      (case currentTurnId s of None \<Rightarrow> [] | Some k \<Rightarrow>
         (case map_of (turns s) k of None \<Rightarrow> [] | Some t \<Rightarrow> [(k, tn_activeAttemptId t)]))"
      using live_row_of_current [OF rows t] by (simp add: active_session_turn_statuses_def live_statuses_def)
    then show ?thesis using True op
      by (auto simp: query expected_active_def active_attempt_def map_eq_Cons_conv split: option.splits)
  qed
qed

section \<open>The jobs\<close>

lemma jobs_of_event: "length (jobs_for_session_event r) \<le> 1"
  by (cases "se_event r") (simp_all add: jobs_for_session_event_def)

lemma pending_job_id: "p \<in> set (jobs_for_session_event r) \<Longrightarrow> \<exists>i. pj_id p = job_id_for_event r i"
  by (auto simp: jobs_for_session_event_def Let_def)

lemma job_of_one_event:
  assumes distinct: "distinct (map se_eventId rs)" and r: "r \<in> set rs" "r' \<in> set rs"
    and p: "p \<in> set (jobs_for_session_event r)" "p' \<in> set (jobs_for_session_event r')" "pj_id p = pj_id p'"
  shows "p = p'"
proof -
  from pending_job_id [OF p(1)] pending_job_id [OF p(2)] p(3) have "se_eventId r = se_eventId r'"
    using job_id_inject by metis
  with distinct r have "r = r'" by (auto simp: distinct_map inj_on_def)
  with p(1,2) jobs_of_event [of r] show ?thesis
    by (cases "jobs_for_session_event r") auto
qed

lemma records_event_ids: "db_inv env db \<Longrightarrow> distinct (map se_eventId (records env db))"
proof -
  assume inv: "db_inv env db"
  have "distinct (map er_eventId rows) \<Longrightarrow> distinct (map se_eventId (concat (map (decoded_row ec) rows)))"
    for ec :: "session_event event_codec" and rows
  proof (induction rows)
    case (Cons row rows)
    let ?rest = "concat (map (decoded_row ec) rows)"
    have "se_eventId ` set ?rest \<subseteq> er_eventId ` set rows" by (auto simp: decoded_row_fields)
    then have "er_eventId row \<notin> se_eventId ` set ?rest" using Cons.prems by auto
    moreover have "decoded_row ec row = [] \<or>
        (\<exists>r. decoded_row ec row = [r] \<and> se_eventId r = er_eventId row)"
      using decoded_row_fields [of _ ec row] by (rule_tac decoded_row_cases [of ec row]) auto
    ultimately show ?case using Cons by auto
  qed simp
  moreover have "distinct (map er_eventId (filter P (db_events db)))" for P
    using inv by (simp add: sql_inv_def distinct_map_filter)
  ultimately show ?thesis by (simp add: logged_records_def)
qed

lemma jobs_exactly:
  assumes "jobs_of_log jc rs jt" "ledger_inv jt" "distinct (map se_eventId rs)"
    and r: "r \<in> set rs" "p \<in> set (jobs_for_session_event r)"
  shows "\<exists>!row. row \<in> set (jt_rows jt) \<and> row_of_job jc p row"
proof (rule ex_ex1I)
  from assms(1) r have "has_job jt (pj_id p)" unfolding jobs_of_log_def by blast
  then obtain row where row: "row \<in> set (jt_rows jt)" "jr_id row = pj_id p"
    by (auto simp: has_job_def list_ex_iff)
  from assms(1) row(1) obtain r' p' where p': "r' \<in> set rs" "p' \<in> set (jobs_for_session_event r')" "row_of_job jc p' row"
    unfolding jobs_of_log_def by blast
  then have "p = p'" using job_of_one_event [OF assms(3) r(1) p'(1) r(2) p'(2)] row(2) by (simp add: row_of_job_def)
  with row p' show "\<exists>row. row \<in> set (jt_rows jt) \<and> row_of_job jc p row" by blast
next
  fix x y
  assume "x \<in> set (jt_rows jt) \<and> row_of_job jc p x" "y \<in> set (jt_rows jt) \<and> row_of_job jc p y"
  moreover from assms(2) have "distinct (map jr_id (jt_rows jt))" by (simp add: ledger_inv_def)
  ultimately show "x = y" by (auto simp: row_of_job_def distinct_map inj_on_def)
qed

end
