(* ===== verification/Session_Domain_Commit.thy ===== *)
theory Session_Domain_Commit
  imports Session_Domain_History
begin

text \<open>
  A command that is decided commits: with a command id and event ids that are new, its transaction
  neither meets a conflict nor a failure of a projection.
\<close>

section \<open>The append\<close>

lemma insert_events_ok:
  assumes "distinct (map fst es)" "fst ` set es \<inter> er_eventId ` set (db_events db) = {}"
    "\<forall>row \<in> set (db_events db). er_streamKind row = ec_streamKind ec \<and> er_streamId row = ai_streamId ai \<longrightarrow>
       er_streamVersion row \<le> v"
  shows "\<exists>db'. insert_events ec tm ai v es db = Inr (v + int (length es), db') \<and> db_receipts db' = db_receipts db"
  using assms
proof (induction es arbitrary: v db)
  case (Cons x es)
  obtain key e where x: "x = (key, e)" by (cases x)
  let ?row = "\<lparr>er_sequence = db_lastSequence db + 1, er_eventId = key,
      er_correlationId = Some (ai_correlationId ai), er_causationEventId = ai_causationEventId ai,
      er_streamKind = ec_streamKind ec, er_streamId = ai_streamId ai, er_streamVersion = v + 1,
      er_type = ec_tag ec e, er_occurredAt = tm, er_actor = None, er_payloadJson = ec_encode ec e\<rparr>"
  let ?db = "db\<lparr>db_events := db_events db @ [?row], db_lastSequence := db_lastSequence db + 1\<rparr>"
  have "\<exists>db'. insert_events ec tm ai (v + 1) es ?db = Inr (v + 1 + int (length es), db') \<and>
      db_receipts db' = db_receipts ?db"
  proof (rule Cons.IH)
    show "distinct (map fst es)" using Cons.prems(1) by simp
    have "key \<notin> fst ` set es" using Cons.prems(1) x by simp
    then show "fst ` set es \<inter> er_eventId ` set (db_events ?db) = {}" using Cons.prems(2) by auto
    have "er_streamVersion row \<le> v + 1"
      if "row \<in> set (db_events db)" "er_streamKind row = ec_streamKind ec \<and> er_streamId row = ai_streamId ai" for row
      using Cons.prems(3) that by fastforce
    then show "\<forall>row \<in> set (db_events ?db). er_streamKind row = ec_streamKind ec \<and> er_streamId row = ai_streamId ai \<longrightarrow>
        er_streamVersion row \<le> v + 1" by simp
  qed
  moreover have "\<not> list_ex (\<lambda>r. er_eventId r = key \<or> er_streamKind r = ec_streamKind ec \<and>
      er_streamId r = ai_streamId ai \<and> er_streamVersion r = v + 1) (db_events db)"
    using Cons.prems(2,3) x by (fastforce simp: list_ex_iff)
  ultimately show ?case by (auto simp: x insert_event_row_def add.commute add.left_commute)
qed simp

lemma append_ok:
  assumes inv: "sql_inv ec rc db" and known: "sql_receipt_of rc db (ai_commandId ai) = None"
    and expected: "ai_expectedVersion ai = int (length (sql_stream ec db (ai_streamId ai)))"
    and ids: "distinct (map fst (ai_events ai))" "fst ` set (ai_events ai) \<inter> er_eventId ` set (db_events db) = {}"
  shows "\<exists>r db'. append_transaction ec rc now db ai = Inr (r, db')"
proof -
  let ?v = "ai_expectedVersion ai" let ?rows = "stream_rows (ec_streamKind ec) db (ai_streamId ai)"
  note parts = inv [unfolded sql_inv_def]
  have nr: "sql_receipt rc db (ai_commandId ai) = Inr None"
    using known by (simp add: sql_receipt_ok [OF inv])
  have v: "?v = int (length ?rows)" using expected sql_stream_length [OF inv] by simp
  have ver: "sql_current_stream_version (ec_streamKind ec) db (ai_streamId ai) = ?v"
    using current_version_length [of db "ec_streamKind ec" "ai_streamId ai"] parts v by simp
  have "er_streamVersion row \<le> ?v"
    if "row \<in> set (db_events db)" "er_streamKind row = ec_streamKind ec \<and> er_streamId row = ai_streamId ai" for row
  proof -
    from that have "row \<in> set ?rows" by (simp add: stream_rows_def)
    then have "er_streamVersion row \<in> set (map er_streamVersion ?rows)" by simp
    then show ?thesis using parts v unfolding streams_numbered_def by simp
  qed
  then obtain db1 where db1: "insert_events ec (now db) ai ?v (ai_events ai) db =
      Inr (?v + int (length (ai_events ai)), db1)" "db_receipts db1 = db_receipts db"
    using insert_events_ok [OF ids] by blast
  let ?r = "receipt_for ai (?v + int (length (ai_events ai)))"
  have "filter (\<lambda>row. rr_commandId row = ai_commandId ai) (db_receipts db) = []"
    using nr by (auto simp: sql_receipt_def split: list.splits sum.splits)
  then have "\<not> list_ex (\<lambda>x. rr_commandId x = ai_commandId ai) (db_receipts db1)"
    by (simp add: db1(2) list_ex_iff filter_empty_conv)
  moreover have "rr_commandId (receipt_row_for rc (ec_streamKind ec) (now db) ?r) = ai_commandId ai"
    by (simp add: receipt_row_for_def receipt_for_def Let_def)
  ultimately show ?thesis
    by (simp add: append_transaction_def nr ver db1(1) insert_receipt_row_def Let_def)
qed

section \<open>The transaction\<close>

text \<open>
  A command whose decision, ids and owner are in order, whose times are dates, and whose project,
  worktree, chat and source session exist where the foreign keys ask for them.
\<close>

definition ready_to_commit ::
  "('g, 'i) service_env \<Rightarrow> admission_gate \<Rightarrow> session_command dispatch_input \<Rightarrow> 'g \<Rightarrow> service_db \<Rightarrow>
   session_event list \<Rightarrow> bool"
where
  "ready_to_commit env gate input g db es \<longleftrightarrow>
     (let dec = sv_decoder env; sid = di_streamId input; s = logged_state dec (records env db) sid in
      \<not> ag_closed gate \<and> \<not> command_blocked db input \<and> own_creation input \<and>
      sql_receipt_of (sv_receipts env) db (di_commandId input) = None \<and>
      ownership_conflict dec s (own_log (records env db) sid) input = None \<and>
      decide s (di_command input) = Inr es \<and>
      (\<exists>ids g'. mint (sv_mint env) g es = (Inr ids, g') \<and> distinct (map fst ids) \<and>
         fst ` set ids \<inter> er_eventId ` set (db_events db) = {}) \<and>
      fresh_ids (stream_events (records env db) @ map (Pair sid) es) \<and>
      (\<forall>e \<in> set es. dates_valid e \<and> event_refers (sv_json env) (sd_readModel db) e))"

lemma ready_appends:
  assumes ok: "env_ok env" and inv: "log_inv env db" and ready: "ready_to_commit env gate input g db es"
  shows "\<exists>r db1 ai. dispatch_retrying env n db g input = (Inr r, db1) \<and> appended env db input ai r db1 \<and>
    map snd (ai_events ai) = es \<and> (\<exists>g'. mint (sv_mint env) g es = (Inr (ai_events ai), g'))"
proof -
  let ?ec = "sv_events env" let ?rc = "sv_receipts env" let ?dec = "sv_decoder env"
  let ?sid = "di_streamId input" let ?s = "logged_state ?dec (records env db) ?sid"
  from inv have dbinv: "db_inv env db" by (simp add: log_inv_def)
  from ready obtain ids g' where r: "sql_receipt_of ?rc db (di_commandId input) = None"
    "ownership_conflict ?dec ?s (own_log (records env db) ?sid) input = None"
    "decide ?s (di_command input) = Inr es"
    "mint (sv_mint env) g es = (Inr ids, g')" "distinct (map fst ids)"
    "fst ` set ids \<inter> er_eventId ` set (db_events db) = {}"
    by (auto simp: ready_to_commit_def Let_def)
  let ?ai = "append_of input (version ?s) (interrupt_result ?s (di_command input)) ids"
  have events: "op_events (service_ops env) db ?sid = Inr (sql_stream ?ec db ?sid)"
    by (simp add: service_ops_def sql_ops_def sql_events_ok [OF dbinv])
  have s: "evolve_all ?dec initial_session_state (map se_event (sql_stream ?ec db ?sid)) = ?s"
    by (simp add: evolve_all_foldl logged_state_def records_own_log)
  have prep: "prepare_dispatch ?dec (service_ops env) (sv_mint env) db g None input = (Appending ?ai, g')"
    using r(2-4) by (simp add: prepare_dispatch_def events s records_own_log prepare_append_def Let_def)
  have "version ?s = int (length (sql_stream ?ec db ?sid))"
  proof -
    have "session_reachable ?dec (own_log (records env db) ?sid) ?s"
      using inv unfolding log_inv_def by blast
    from session_agg.count_reachable [OF this] show ?thesis by (simp add: records_own_log)
  qed
  then obtain rr db1 where app: "append_transaction ?ec ?rc (sv_nowText env) db ?ai = Inr (rr, db1)"
    using append_ok [OF dbinv, of ?ai "sv_nowText env"] r(1,5,6) by (auto simp: append_of_def)
  have receipt: "op_receipt (service_ops env) db (di_commandId input) = Inr None"
    by (simp add: service_ops_def sql_ops_def sql_receipt_ok [OF dbinv] r(1))
  have d: "dispatch_attempt env db g input = ((Inr rr, db1), g')"
    using prep app by (simp add: dispatch_attempt_def receipt finish_dispatch_def)
      (simp add: service_ops_def sql_ops_def sql_append_def)
  then have "dispatch_retrying env n db g input = (Inr rr, db1)" by (cases n) simp_all
  moreover have "session_prepares ?dec (service_ops env) (sv_mint env) db None input ?ai"
    unfolding session_prepares_def using prep by (metis fst_conv)
  ultimately show ?thesis using app r(1) mint_events [OF r(4)]
    by (intro exI [of _ rr] exI [of _ db1] exI [of _ ?ai]) (simp add: appended_def append_of_def r(4))
qed

text \<open>The ids an append adds to the tables.\<close>

lemma appended_ids:
  assumes ok: "env_ok env" and inv: "db_inv env db" and app: "appended env db input ai r db'"
  shows "er_eventId ` set (db_events db') = er_eventId ` set (db_events db) \<union> fst ` set (ai_events ai)"
    "c \<noteq> di_commandId input \<Longrightarrow> sql_receipt_of (sv_receipts env) db' c = sql_receipt_of (sv_receipts env) db c"
proof -
  from app have a: "sql_receipt_of (sv_receipts env) db (ai_commandId ai) = None"
    "append_transaction (sv_events env) (sv_receipts env) (sv_nowText env) db ai = Inr (r, db')"
    "ai_commandId ai = di_commandId input"
    unfolding appended_def by metis+
  obtain rows n rrow where rows:
    "db' = db\<lparr>db_events := db_events db @ rows, db_lastSequence := n, db_receipts := db_receipts db @ [rrow]\<rparr>"
    "list_all2 (appended_row (sv_events env) ai) (ai_events ai) rows"
    by (rule append_rows [OF inv a(1,2)])
  have "map er_eventId rows = map fst (ai_events ai)"
    using rows(2) by (induction rule: list_all2_induct) (simp_all add: appended_row_def)
  then have "er_eventId ` set rows = fst ` set (ai_events ai)" by (metis list.set_map)
  then show "er_eventId ` set (db_events db') = er_eventId ` set (db_events db) \<union> fst ` set (ai_events ai)"
    by (simp add: rows(1) image_Un)
  from ok have ok': "codec_ok (sv_events env)" "receipt_codec_ok (sv_receipts env)" by (simp_all add: env_ok_def)
  from append_transaction_new [OF ok' inv a(1,2)]
  have "sql_receipt_of (sv_receipts env) db' = (sql_receipt_of (sv_receipts env) db)(ai_commandId ai \<mapsto> r)" by blast
  then show "c \<noteq> di_commandId input \<Longrightarrow> sql_receipt_of (sv_receipts env) db' c = sql_receipt_of (sv_receipts env) db c"
    using a(3) by simp
qed

lemma ready_commits:
  fixes env :: "('g, 'i) service_env"
  assumes ok: "env_ok env" and inv: "service_inv env db" and ready: "ready_to_commit env gate input g db es"
  obtains out db' new ids g' where
    "service_dispatch env gate input g db =
      (Inr out :: ('i, unit) service_error + command_receipt dispatch_outcome, db')"
    "do_appended out = new" "records env db' = records env db @ new"
    "stream_events new = map (Pair (di_streamId input)) es"
    "\<forall>c. c \<noteq> di_commandId input \<longrightarrow>
       sql_receipt_of (sv_receipts env) db' c = sql_receipt_of (sv_receipts env) db c"
    "mint (sv_mint env) g es = (Inr ids, g')"
    "er_eventId ` set (db_events db') = er_eventId ` set (db_events db) \<union> fst ` set ids"
    "sd_restores db' = sd_restores db"
proof -
  let ?dec = "sv_decoder env"
  from inv have li: "log_inv env db" and dbinv: "db_inv env db"
    and cursor: "sql_cursor db session_projector_name = last_sequence (records env db)"
    by (simp_all add: service_inv_def log_inv_def)
  from ready have r: "\<not> ag_closed gate" "\<not> command_blocked db input" "own_creation input"
    "fresh_ids (stream_events (records env db) @ map (Pair (di_streamId input)) es)"
    "\<forall>e \<in> set es. dates_valid e \<and> event_refers (sv_json env) (sd_readModel db) e"
    by (simp_all add: ready_to_commit_def Let_def)
  from ready_appends [OF ok li ready, of 8] obtain receipt db1 ai where d:
    "dispatch_retrying env 8 db g input = (Inr receipt, db1)" "appended env db input ai receipt db1"
    "map snd (ai_events ai) = es" "\<exists>g'. mint (sv_mint env) g es = (Inr (ai_events ai), g')" by blast
  from d(4) obtain g' where g': "mint (sv_mint env) g es = (Inr (ai_events ai), g')" by blast
  note ids = appended_ids [OF ok dbinv d(2)]
  from appended_log [OF ok li d(2) r(3)] obtain new where a: "log_inv env db1" "same_but_log db db1"
    "records env db1 = records env db @ new" "\<forall>x \<in> set new. last_sequence (records env db) < se_sequence x"
    "receipt_records env db1 (di_streamId input) receipt = Inr new"
    "map (\<lambda>x. (se_eventId x, se_event x)) new = ai_events ai"
    "\<forall>x \<in> set new. se_streamId x = di_streamId input" by blast
  have "map se_event new = map snd (map (\<lambda>x. (se_eventId x, se_event x)) new)" by simp
  then have events: "map se_event new = es" by (simp only: a(6) d(3))
  have new: "stream_events new = map (Pair (di_streamId input)) es"
    unfolding stream_events_def events [symmetric] using a(7) by simp
  have same: "sql_cursor db1 session_projector_name = last_sequence (records env db)"
    "sd_readModel db1 = sd_readModel db"
    using a(2) cursor by (simp_all add: same_but_log_def sql_cursor_def)
  have "stream_events (records env db1) = stream_events (records env db) @ map (Pair (di_streamId input)) es"
    by (simp add: a(3) new [symmetric] stream_events_def)
  then have wf: "log_wf ?dec (records env db @ new)"
    using inv_log_wf [OF a(1)] r(4) a(3) by simp
  from inv log_wf_prefix [OF wf] have "log_displayed ?dec (records env db) (sd_readModel db)"
    by (simp add: service_inv_def)
  moreover have "references_hold (sv_json env) (sd_readModel db)" using inv by (simp add: service_inv_def)
  moreover have "\<forall>x \<in> set new. se_streamId x = di_streamId input \<and> dates_valid (se_event x) \<and>
      event_refers (sv_json env) (sd_readModel db) (se_event x)"
    using a(7) r(5) unfolding events [symmetric] by simp
  ultimately obtain rm where "project_log ?dec (sv_json env) new (sd_readModel db1) = Inr rm"
    using log_total [OF wf] unfolding same(2) by blast
  moreover have "sorted_wrt (<) (map se_sequence new)"
  proof -
    have "sorted_wrt (<) (map se_sequence (records env db1))"
      using a(1) by (intro log_sequences) (simp add: log_inv_def sql_inv_def)
    then show ?thesis by (simp add: a(3) sorted_wrt_append)
  qed
  ultimately obtain db2 where p: "project_appended env (sql_cursor db1 session_projector_name) new db1 =
      (Inr db2 :: ('i, unit) service_error + service_db)"
    using project_appended_total [of env new db1 rm "last_sequence (records env db)"] a(4) same(1) by metis
  obtain cancelled enqueued db3 where st: "settle_jobs env input new db2 = ((cancelled, enqueued), db3)"
    by (metis prod.exhaust)
  let ?out = "\<lparr>do_result = receipt, do_appended = new, do_enqueued = enqueued, do_cancelled = cancelled\<rparr>"
  have "dispatch_transaction env (\<lambda>receipt db. Inr (receipt, db)) input g db =
      (Inr (?out, db3) :: ('i, unit) service_error + _)"
    using r(2) by (simp add: dispatch_transaction_def d(1) a(5) p st)
  then have out: "service_dispatch env gate input g db = (Inr ?out, db3)"
    using r(1) by (simp add: service_dispatch_def dispatch_transactionally_def admission_run_def)
  have "projected env new db1 db2"
    using p a(3,4) same(1) \<open>sorted_wrt (<) (map se_sequence new)\<close>
    by (intro project_appended_projects [OF p]) simp_all
  moreover obtain jt where "db3 = db2\<lparr>sd_jobs := jt\<rparr>"
    using st by (auto simp: settle_jobs_def Let_def split: prod.splits)
  ultimately have db3: "db_events db3 = db_events db1" "db_lastSequence db3 = db_lastSequence db1"
    "db_receipts db3 = db_receipts db1" "sd_restores db3 = sd_restores db"
    using a(2) by (simp_all add: projected_def same_but_log_def)
  from sql_inv_events(2) [OF db3(1-3), of "sv_events env"] a(3) have records3: "records env db3 = records env db @ new" by simp
  moreover have "sql_receipt_of (sv_receipts env) db3 = sql_receipt_of (sv_receipts env) db1"
    by (simp add: fun_eq_iff sql_receipt_of_def sql_receipt_def db3(3))
  ultimately have receipts: "\<forall>c. c \<noteq> di_commandId input \<longrightarrow>
      sql_receipt_of (sv_receipts env) db3 c = sql_receipt_of (sv_receipts env) db c" using ids(2) by simp
  have "er_eventId ` set (db_events db3) = er_eventId ` set (db_events db) \<union> fst ` set (ai_events ai)"
    unfolding db3(1) by (rule ids(1))
  with that [OF out _ records3 new receipts g' _ db3(4)] show ?thesis by simp
qed

section \<open>A second delivery\<close>

lemma dispatch_known:
  fixes env :: "('g, 'i) service_env"
  assumes inv: "db_inv env db" and plain: "plain_input input"
    and known: "sql_receipt_of (sv_receipts env) db (di_commandId input) = Some receipt"
    and valid: "validate_command_receipt (di_commandId input) (di_streamId input) (di_receiptIdentity input) receipt =
      Inr receipt"
  shows "dispatch_retrying env n db g input = (Inr receipt, db)"
proof -
  have v: "validated input receipt = (Inr receipt :: (domain_error, sql_storage_error, 'i) dispatch_failure + command_receipt)"
    unfolding validated_def valid by simp
  have p: "prepare_dispatch (sv_decoder env) (service_ops env) (sv_mint env) db g (Some receipt) input =
      (Finished (Inr receipt), g)"
    using plain unfolding plain_input_def by (simp add: prepare_dispatch_def v)
  have r: "op_receipt (service_ops env) db (di_commandId input) = Inr (Some receipt)"
    using sql_receipt_ok [OF inv, of "di_commandId input"] known by (simp add: service_ops_def sql_ops_def)
  have "dispatch_attempt env db g input = ((Inr receipt, db), g)"
    unfolding dispatch_attempt_def r sum.case p prod.case by (simp add: finish_dispatch_def)
  then show ?thesis by (cases n) simp_all
qed

text \<open>A row after a cancellation is the cancelled row of a job, or a row that was not selected.\<close>

lemma cancel_unsettled_row:
  assumes "row \<in> set (jt_rows (snd (cancel_unsettled now sid kinds reason jt)))"
  obtains "\<not> unsettled (jr_status row)"
  | "row \<in> set (jt_rows jt)" "kinds \<noteq> [] \<longrightarrow> \<not> (jr_sessionId row = sid \<and> unsettled (jr_status row) \<and> jr_kind row \<in> set kinds)"
proof (cases "kinds = []")
  case True
  with assms that(2) show ?thesis by (simp add: cancel_unsettled_def)
next
  case False
  let ?p = "\<lambda>row. jr_sessionId row = sid \<and> unsettled (jr_status row) \<and> jr_kind row \<in> set kinds"
  from assms False obtain x where x: "x \<in> set (jt_rows jt)" "row = (if ?p x then cancelled_row now reason x else x)"
    by (auto simp: cancel_unsettled_def update_jobs_def)
  have "\<not> unsettled (jr_status (cancelled_row now reason x))" by (simp add: cancelled_row_def unsettled_def)
  with x that show ?thesis by (cases "?p x") simp_all
qed

lemma has_job_ids: "has_job jt k \<longleftrightarrow> k \<in> jr_id ` set (jt_rows jt)"
  by (auto simp: has_job_def list_ex_iff)

text \<open>
  The jobs after a transaction whose records contain the start of an attempt and are not new: the
  cancellation reaches every unsettled job of the session's turns and nothing is enqueued.
\<close>

lemma settle_jobs_known:
  assumes jobs: "\<forall>r \<in> set rs. \<forall>p \<in> set (jobs_for_session_event r). has_job (sd_jobs db) (pj_id p)"
    and started: "list_ex is_AttemptStarted (map se_event rs)"
    and s: "settle_jobs env input rs db = (x, db')" and row: "row \<in> set (jt_rows (sd_jobs db'))"
    and mine: "jr_sessionId row = di_streamId input"
      "jr_kind row \<in> {KindTurnSend, KindTurnInterrupt, KindTurnRecover}"
  shows "\<not> unsettled (jr_status row)"
proof -
  let ?now = "sv_now env db" let ?events = "map se_event rs"
  define jt1 where "jt1 = snd (cancel_superseded ?now input ?events (sd_jobs db))"
  define jt2 where "jt2 = snd (cancel_interrupted ?now input ?events jt1)"
  have jt3: "sd_jobs db' = snd (enqueue_jobs (sv_jobs env) ?now (concat (map jobs_for_session_event rs)) jt2)"
    using s by (auto simp: settle_jobs_def jt1_def jt2_def Let_def split: prod.splits)
  have has: "has_job (snd (cancel_unsettled now sid kinds reason jt)) k = has_job jt k" for now sid kinds reason jt k
  proof -
    have "map jr_id (jt_rows (snd (cancel_unsettled now sid kinds reason jt))) = map jr_id (jt_rows jt)"
      by (simp add: cancel_unsettled_def update_jobs_def cancelled_row_def released_def)
    then have "jr_id ` set (jt_rows (snd (cancel_unsettled now sid kinds reason jt))) = jr_id ` set (jt_rows jt)"
      by (metis list.set_map)
    then show ?thesis by (simp only: has_job_ids)
  qed
  have "has_job jt2 k = has_job (sd_jobs db) k" for k
    by (simp add: jt1_def jt2_def cancel_superseded_def cancel_interrupted_def has)
  then have "sd_jobs db' = jt2" unfolding jt3 using jobs by (simp add: enqueue_known)
  with row have "row \<in> set (jt_rows jt2)" by simp
  then have "row \<in> set (jt_rows jt1)" if "unsettled (jr_status row)"
    using that unfolding jt2_def cancel_interrupted_def
    by (auto split: if_splits elim: cancel_unsettled_row)
  moreover have "jt1 = snd (cancel_unsettled ?now (di_streamId input)
      [KindTurnSend, KindTurnInterrupt, KindTurnRecover] ''Superseded by a new attempt.'' (sd_jobs db))"
    using started by (simp add: jt1_def cancel_superseded_def)
  ultimately show ?thesis using mine by (auto elim!: cancel_unsettled_row)
qed

lemma project_appended_log:
  fixes env :: "('g, 'i) service_env"
  assumes "project_appended env cursor rs db = (Inr db' :: ('i, 'x) service_error + service_db)"
  shows "db_events db' = db_events db \<and> db_receipts db' = db_receipts db"
  using assms
  by (induction env cursor rs db rule: project_appended.induct)
    (auto simp: apply_session_record_def split: if_splits sum.splits)

lemma service_dispatch_Inr:
  fixes env :: "('g, 'i) service_env"
  assumes "service_dispatch env gate input g db = (Inr out, db')"
  shows "\<not> ag_closed gate"
    "dispatch_transaction env (\<lambda>receipt db. Inr (receipt, db)) input g db =
       (Inr (out, db') :: ('i, unit) service_error + _)"
  using assms by (auto simp: service_dispatch_def dispatch_transactionally_def admission_run_def
      split: if_splits sum.splits prod.splits)

text \<open>What a delivery leaves for the next one.\<close>

lemma delivered:
  fixes env :: "('g, 'i) service_env"
  assumes ok: "env_ok env" and inv: "service_inv env db"
    and d: "service_dispatch env gate input g db = (Inr out, db')"
  shows "sql_receipt_of (sv_receipts env) db' (di_commandId input) = Some (do_result out)"
    "answers input (do_result out)"
    "receipt_records env db' (di_streamId input) (do_result out) = Inr (do_appended out)"
proof -
  obtain receipt db1 db2 db3 where st:
    "dispatch_retrying env 8 db g input = (Inr receipt, db1)"
    "receipt_records env db1 (di_streamId input) receipt = Inr (do_appended out)"
    "project_appended env (sql_cursor db1 session_projector_name) (do_appended out) db1 =
       (Inr db2 :: ('i, unit) service_error + service_db)"
    "settle_jobs env input (do_appended out) db2 = ((do_cancelled out, do_enqueued out), db3)"
    "(Inr (receipt, db3) :: unit + _) = Inr (do_result out, db')"
    by (rule transaction_stages [OF service_dispatch_Inr(2) [OF d]])
  have same: "db_events db' = db_events db1" "db_receipts db' = db_receipts db1"
    using project_appended_log [OF st(3)] st(4,5) by (auto simp: settle_jobs_def Let_def split: prod.splits)
  from inv have dbinv: "db_inv env db" by (simp add: service_inv_def log_inv_def)
  have "sql_receipt_of (sv_receipts env) db1 (di_commandId input) = Some receipt \<and> answers input receipt"
    using dispatch_retrying_cases [OF dbinv st(1)]
  proof (elim disjE exE conjE)
    fix r ai
    assume "Inr receipt = (Inr r :: _ + command_receipt)" and app: "appended env db input ai r db1"
    then have a: "sql_receipt_of (sv_receipts env) db (ai_commandId ai) = None"
      "append_transaction (sv_events env) (sv_receipts env) (sv_nowText env) db ai = Inr (receipt, db1)"
      "ai_commandId ai = di_commandId input" "ai_streamId ai = di_streamId input"
      "session_prepares (sv_decoder env) (service_ops env) (sv_mint env) db None input ai"
      unfolding appended_def by auto
    have ev: "op_events (service_ops env) db (di_streamId input) = Inr (sql_stream (sv_events env) db (di_streamId input))"
      by (simp add: service_ops_def sql_ops_def sql_events_ok [OF dbinv])
    have identity: "ai_receiptIdentity ai = di_receiptIdentity input"
      using session_prepares_sound [OF ev a(5)] by blast
    from ok have ok': "codec_ok (sv_events env)" "receipt_codec_ok (sv_receipts env)" by (simp_all add: env_ok_def)
    have "op_append (sql_ops (sv_events env) (sv_receipts env) (sv_nowText env)) db ai = (Inr receipt, db1)"
      using a(2) by (simp add: sql_ops_def sql_append_def)
    from dispatch_storage.append_receipt [OF sql_storage_laws [OF ok'] dbinv this]
    show ?thesis by (simp add: answers_def a(3,4) identity)
  qed auto
  moreover have "sql_receipt_of (sv_receipts env) db' c = sql_receipt_of (sv_receipts env) db1 c" for c
    by (simp add: sql_receipt_of_def sql_receipt_def same(2))
  moreover have "receipt_records env db' sid r = receipt_records env db1 sid r" for sid r
    by (simp add: receipt_records_def sql_events_in_version_range_def stream_rows_def same(1))
  ultimately show "sql_receipt_of (sv_receipts env) db' (di_commandId input) = Some (do_result out)"
    "answers input (do_result out)"
    "receipt_records env db' (di_streamId input) (do_result out) = Inr (do_appended out)"
    using st(2,5) by simp_all
qed

text \<open>The delivery of a command whose receipt is there.\<close>

lemma deliver_known:
  fixes env :: "('g, 'i) service_env"
  assumes inv: "service_inv env db" and plain: "plain_input input"
    and known: "sql_receipt_of (sv_receipts env) db (di_commandId input) = Some receipt" "answers input receipt"
      "receipt_records env db (di_streamId input) receipt = Inr rs"
    and free: "\<not> ag_closed gate" "\<not> command_blocked db input"
  obtains out db' where
    "service_dispatch env gate input g db = (Inr out :: ('i, unit) service_error + _, db')"
    "do_result out = receipt" "do_appended out = rs" "records env db' = records env db"
    "\<forall>r \<in> set rs. r \<in> set (records env db)"
    "settle_jobs env input rs db = ((do_cancelled out, do_enqueued out), db')"
proof -
  from inv have dbinv: "db_inv env db" and li: "log_inv env db"
    and cursor: "sql_cursor db session_projector_name = last_sequence (records env db)"
    by (simp_all add: service_inv_def log_inv_def)
  have "rs = [] \<or> (\<exists>P. filter P (records env db) = rs)"
    using known(3) dbinv
    by (auto simp: receipt_records_def version_range_of_stream sql_inv_def stream_of_log split: if_splits)
  then have mem: "\<forall>r \<in> set rs. r \<in> set (records env db)"
    by (metis empty_iff empty_set filter_is_subset subsetD)
  have p: "project_appended env (sql_cursor db session_projector_name) rs db = (Inr db :: ('i, unit) service_error + _)"
    using mem last_sequence_bound [OF li] by (intro project_appended_skip) (simp add: cursor)
  obtain cancelled enqueued db3 where st: "settle_jobs env input rs db = ((cancelled, enqueued), db3)"
    by (metis prod.exhaust)
  let ?out = "\<lparr>do_result = receipt, do_appended = rs, do_enqueued = enqueued, do_cancelled = cancelled\<rparr>"
  have "dispatch_retrying env 8 db g input = (Inr receipt, db)"
    by (rule dispatch_known [OF dbinv plain known(1)]) (use known(2) in \<open>simp add: answers_def\<close>)
  then have "dispatch_transaction env (\<lambda>receipt db. Inr (receipt, db)) input g db =
      (Inr (?out, db3) :: ('i, unit) service_error + _)"
    using free(2) by (simp add: dispatch_transaction_def known(3) p st)
  then have "service_dispatch env gate input g db = (Inr ?out, db3)"
    using free(1) by (simp add: service_dispatch_def dispatch_transactionally_def admission_run_def)
  moreover have "records env db3 = records env db"
  proof -
    obtain jt where "db3 = db\<lparr>sd_jobs := jt\<rparr>"
      using st by (auto simp: settle_jobs_def Let_def split: prod.splits)
    then show ?thesis using sql_inv_events(2) [of db3 db "sv_events env"] by simp
  qed
  ultimately show ?thesis using that [of ?out db3] mem st by simp
qed

end
