(* ===== verification/Session_Domain_Properties.thy ===== *)
theory Session_Domain_Properties
  imports Session_Domain_Commit
begin

text \<open>What the session service promises, over all its histories, and a small history to apply it to.\<close>

section \<open>A small history\<close>

definition demo_json :: sqlite_json where
  "demo_json =
     \<lparr>sj_itemId = (\<lambda>_. None), sj_chatId = (\<lambda>_. None), sj_dropMessages = (\<lambda>_. None),
      sj_foreignKeys = True, sj_project = (\<lambda>key. key = ''p1''), sj_worktree = (\<lambda>_. False)\<rparr>"

definition demo_env :: "(nat, string) service_env" where
  "demo_env =
     \<lparr>sv_decoder = no_decoder, sv_json = demo_json, sv_events = session_codec,
      sv_receipts = counted_receipts, sv_jobs = demo_job_codec, sv_now = (\<lambda>_. 0),
      sv_nowText = (\<lambda>_. ''now''), sv_mint = demo_ids\<rparr>"

definition demo_dispatch :: "string \<Rightarrow> session_command \<Rightarrow> session_command dispatch_input" where
  "demo_dispatch c command =
     \<lparr>di_commandId = c, di_streamId = ''s1'', di_correlationId = None, di_causationEventId = None,
      di_receiptIdentity = None, di_expectedAttempt = None, di_expectedProviderSessionId = None,
      di_command = command\<rparr>"

lemma demo_env_ok: "env_ok demo_env"
  by (simp add: env_ok_def demo_env_def counted_codec_ok counted_receipts_ok)

lemma demo_mint: "mint demo_ids g es = (Inr (zip (map nat_to_string [g..<g + length es]) es), g + length es)"
proof (induction es arbitrary: g)
  case (Cons e es)
  have "[g..<g + length (e # es)] = g # [Suc g..<Suc g + length es]" using upt_conv_Cons [of g "g + length (e # es)"] by simp
  with Cons show ?case by (simp add: demo_ids_def)
qed simp

definition demo_reached :: "service_db \<Rightarrow> nat \<Rightarrow> session_event list \<Rightarrow> string set \<Rightarrow> bool" where
  "demo_reached db g es cs \<longleftrightarrow>
     service_history demo_env db \<and> stream_events (records demo_env db) = map (Pair ''s1'') es \<and>
     er_eventId ` set (db_events db) \<subseteq> nat_to_string ` {..<g} \<and>
     (\<forall>c. c \<notin> cs \<longrightarrow> sql_receipt_of counted_receipts db c = None) \<and> sd_restores db = []"

text \<open>The database after the projector of chats has written the chat of the session.\<close>

definition demo_db :: service_db where
  "demo_db =
     empty_service_db\<lparr>sd_readModel :=
       projr (project_chat demo_json ''c1'' (ChatCreated demo_chat) empty_read_model)\<rparr>"

lemma demo_chat_row:
  "project_chat demo_json ''c1'' (ChatCreated demo_chat) empty_read_model = Inr (sd_readModel demo_db)"
  "chat_row_exists (sd_readModel demo_db) ''c1''"
proof -
  show "project_chat demo_json ''c1'' (ChatCreated demo_chat) empty_read_model = Inr (sd_readModel demo_db)"
    by (simp add: demo_db_def) code_simp
  show "chat_row_exists (sd_readModel demo_db) ''c1''" by code_simp
qed

lemma demo_start: "demo_reached demo_db 0 [] {}"
proof -
  have e: "db_events demo_db = []" "db_receipts demo_db = []" "sd_restores demo_db = []"
    by (simp_all add: demo_db_def empty_service_db_def)
  have "service_history demo_env (empty_service_db\<lparr>sd_readModel := sd_readModel demo_db\<rparr>)"
    by (rule chats [OF service_history.start, of _ "''c1''" "ChatCreated demo_chat"])
      (use demo_chat_row(1) in \<open>simp_all add: demo_env_def empty_service_db_def\<close>)
  moreover have "empty_service_db\<lparr>sd_readModel := sd_readModel demo_db\<rparr> = demo_db"
    by (simp add: demo_db_def)
  ultimately show ?thesis using e
    by (simp add: demo_reached_def stream_events_def logged_records_def sql_receipt_of_def sql_receipt_def)
qed

lemma nat_to_string_inj: "inj nat_to_string"
  by (rule inj_on_inverseI [of _ "read_digits 0"]) (simp add: read_nat_to_string)

lemma stream_own_log: "stream_events rs = map (Pair sid) es \<Longrightarrow> own_log rs sid = es"
  unfolding own_log_def stream_events_def
  by (induction rs arbitrary: es) auto

lemma demo_minted:
  "fst ` set (zip (map nat_to_string [g..<g + length new]) new) = nat_to_string ` {g..<g + length new}"
proof -
  have "map fst (zip (map nat_to_string [g..<g + length new]) new) = map nat_to_string [g..<g + length new]"
    by (simp add: map_fst_zip)
  then have "set (map fst (zip (map nat_to_string [g..<g + length new]) new)) =
      set (map nat_to_string [g..<g + length new])" by (simp only:)
  then show ?thesis by (simp only: set_map atLeastLessThan_upt)
qed

lemma demo_unblocked:
  assumes at: "demo_reached db g es cs" and fresh: "fresh_ids (map (Pair ''s1'') es)"
  shows "\<not> command_blocked db input"
proof -
  from at have r: "service_history demo_env db" "stream_events (records demo_env db) = map (Pair ''s1'') es"
    "sd_restores db = []"
    by (simp_all add: demo_reached_def)
  from service_history_inv [OF demo_env_ok r(1)] have inv: "service_inv demo_env db" .
  have "log_wf (sv_decoder demo_env) (records demo_env db)"
    using inv fresh r(2) by (intro inv_log_wf) (simp_all add: service_inv_def)
  with inv have "rm_forks (sd_readModel db) = []" by (simp add: service_inv_def log_displayed_def)
  then show ?thesis by (simp add: command_blocked_def fork_pending_def restore_pending_def r(3))
qed

lemma demo_ready:
  assumes at: "demo_reached db g es cs" "c \<notin> cs"
    and d: "decide (foldl (evolve no_decoder) initial_session_state es) command = Inr new"
    and own: "created_session command \<in> {None, Some ''s1''}"
    and fresh: "fresh_ids (map (Pair ''s1'') (es @ new))"
    and accepted: "\<forall>e \<in> set new. dates_valid e \<and> event_refers demo_json (sd_readModel db) e"
  shows "ready_to_commit demo_env open_gate (demo_dispatch c command) g db new"
proof -
  let ?input = "demo_dispatch c command"
  from at have r: "service_history demo_env db" "stream_events (records demo_env db) = map (Pair ''s1'') es"
    "er_eventId ` set (db_events db) \<subseteq> nat_to_string ` {..<g}"
    "\<forall>c. c \<notin> cs \<longrightarrow> sql_receipt_of counted_receipts db c = None" "sd_restores db = []"
    by (simp_all add: demo_reached_def)
  have fresh_es: "fresh_ids (map (Pair ''s1'') es)"
    using fresh by (auto simp: fresh_ids_def)
  have "\<not> command_blocked db ?input" by (rule demo_unblocked [OF at(1) fresh_es])
  moreover have own: "own_creation ?input" using own by (auto simp: own_creation_def demo_dispatch_def)
  moreover have "fst ` set (zip (map nat_to_string [g..<g + length new]) new) \<inter> er_eventId ` set (db_events db) = {}"
  proof -
    have "nat_to_string ` {g..<g + length new} \<inter> nat_to_string ` {..<g} = {}"
      using nat_to_string_inj by (auto dest: injD)
    then show ?thesis using r(3) unfolding demo_minted by blast
  qed
  moreover have "distinct (map fst (zip (map nat_to_string [g..<g + length new]) new))"
    using inj_on_subset [OF nat_to_string_inj subset_UNIV] by (simp add: distinct_map)
  moreover have "mint (sv_mint demo_env) g new =
      (Inr (zip (map nat_to_string [g..<g + length new]) new), g + length new)"
    by (simp add: demo_env_def demo_mint)
  moreover have "sql_receipt_of (sv_receipts demo_env) db (di_commandId ?input) = None"
    using r(4) at(2) by (simp add: demo_env_def demo_dispatch_def)
  moreover have "ownership_conflict dec s rs ?input = None" for dec s rs
    by (simp add: ownership_conflict_def demo_dispatch_def)
  moreover have "decide (logged_state (sv_decoder demo_env) (records demo_env db) (di_streamId ?input))
      (di_command ?input) = Inr new"
    using d stream_own_log [OF r(2)] by (simp add: logged_state_def demo_dispatch_def demo_env_def)
  moreover have "fresh_ids (stream_events (records demo_env db) @ map (Pair (di_streamId ?input)) new)"
    using fresh by (simp add: r(2) demo_dispatch_def)
  moreover have "\<forall>e \<in> set new. dates_valid e \<and> event_refers (sv_json demo_env) (sd_readModel db) e"
    using accepted by (simp add: demo_env_def)
  ultimately show ?thesis
    unfolding ready_to_commit_def Let_def by (simp add: open_gate_def)
qed

lemma demo_step:
  assumes at: "demo_reached db g es cs" "c \<notin> cs"
    and d: "decide (foldl (evolve no_decoder) initial_session_state es) command = Inr new"
    and own: "created_session command \<in> {None, Some ''s1''}"
    and fresh: "fresh_ids (map (Pair ''s1'') (es @ new))"
    and accepted: "\<forall>e \<in> set new. dates_valid e \<and> event_refers demo_json (sd_readModel db) e"
  shows "\<exists>out db'. service_dispatch demo_env open_gate (demo_dispatch c command) g db = (Inr out, db') \<and>
    map se_event (do_appended out) = new \<and> own_creation (demo_dispatch c command) \<and>
    demo_reached db' (g + length new) (es @ new) (insert c cs)"
proof -
  let ?input = "demo_dispatch c command"
  from at have r: "service_history demo_env db" "stream_events (records demo_env db) = map (Pair ''s1'') es"
    "er_eventId ` set (db_events db) \<subseteq> nat_to_string ` {..<g}"
    "\<forall>c. c \<notin> cs \<longrightarrow> sql_receipt_of counted_receipts db c = None" "sd_restores db = []"
    by (simp_all add: demo_reached_def)
  from service_history_inv [OF demo_env_ok r(1)] have inv: "service_inv demo_env db" .
  note ready = demo_ready [OF assms]
  have own: "own_creation ?input" using own by (auto simp: own_creation_def demo_dispatch_def)
  obtain out db' appended ids g' where o:
    "service_dispatch demo_env open_gate ?input g db = (Inr out, db')" "do_appended out = appended"
    "records demo_env db' = records demo_env db @ appended"
    "stream_events appended = map (Pair (di_streamId ?input)) new"
    "\<forall>c'. c' \<noteq> di_commandId ?input \<longrightarrow>
      sql_receipt_of (sv_receipts demo_env) db' c' = sql_receipt_of (sv_receipts demo_env) db c'"
    "mint (sv_mint demo_env) g new = (Inr ids, g')"
    "er_eventId ` set (db_events db') = er_eventId ` set (db_events db) \<union> fst ` set ids"
    "sd_restores db' = sd_restores db" by (rule ready_commits [OF demo_env_ok inv ready])
  have "service_history demo_env db'" by (rule command [OF r(1) own o(1)])
  moreover have "stream_events (records demo_env db') = map (Pair ''s1'') (es @ new)"
    using o(3,4) r(2) by (simp add: stream_events_def demo_dispatch_def)
  moreover have "er_eventId ` set (db_events db') \<subseteq> nat_to_string ` {..<g + length new}"
  proof -
    have "fst ` set (zip (map nat_to_string [g..<g + length new]) new) \<subseteq> nat_to_string ` {..<g + length new}"
      unfolding demo_minted by auto
    moreover have "nat_to_string ` {..<g} \<subseteq> nat_to_string ` {..<g + length new}" by auto
    ultimately show ?thesis using o(6,7) r(3) by (auto simp: demo_env_def demo_mint)
  qed
  moreover have "\<forall>c'. c' \<notin> insert c cs \<longrightarrow> sql_receipt_of counted_receipts db' c' = None"
    using o(5) r(4) by (simp add: demo_env_def demo_dispatch_def)
  ultimately have "demo_reached db' (g + length new) (es @ new) (insert c cs)"
    using o(8) r(5) by (simp add: demo_reached_def)
  moreover have "map se_event appended = map snd (stream_events appended)" by (simp add: stream_events_def)
  ultimately show ?thesis using o(1,2,4) own by (auto simp: comp_def)
qed

text \<open>A session that is created with a first turn, and a retry of the turn.\<close>

definition demo_commands :: "session_command list" where
  "demo_commands =
     [CreateSessionWithInitialTurn demo_create demo_turn, RetryTurn ''t1'' ReasonRetry ''{}'' None 30]"

definition demo_first :: "session_event list" where
  "demo_first =
   [SessionCreated
     \<lparr>sc_delegation = None, sc_sessionId = ''s1'', sc_chatId = ''c1'',
        sc_projectId = ''p1'', sc_createdAt = 10, sc_title = Some ''demo'',
        sc_titleProvenance = Some ProvenancePending,
        sc_providerId = Some ''codex'', sc_model = Some ''m1'',
        sc_status = Some StatusIdle, sc_cursor = None,
        sc_resumeStrategy = None, sc_runtimeMode = Some ModeAuto,
        sc_agentsJson = Some None, sc_worktreeId = Some None,
        sc_forkedFromSessionId = Some None,
        sc_forkedFromMessageId = Some None,
        sc_permissionMode = Some PermissionDefault,
        sc_toolSearch = Some False, sc_queuePaused = Some False,
        sc_providerStartJson = None\<rparr>,
    MessagePersisted
     \<lparr>mf_inputOwner = None, mf_messageId = ''m1'', mf_turnId = Some ''t1'',
        mf_role = ''user'', mf_kind = ''user'', mf_contentJson = ''{}'',
        mf_parentItemId = None, mf_checkpointRevision = None,
        mf_checkpointFinal = None, mf_createdAt = 10\<rparr>,
    TurnStarted ''t1'' 10 (Some 1) (Some ''attempt:turn:t1:ordinal:1'')
     (Some None),
    SessionStatusSet StatusBooting 10,
    ProviderTurnRequested ''t1'' (Some ''attempt:turn:t1:ordinal:1'') ''{}''
     None 10]"

definition demo_second :: "session_event list" where
  "demo_second =
   [AttemptStarted
     \<lparr>as_turnId = ''t1'', as_attemptId = ''attempt:turn:t1:ordinal:2'',
        as_ordinal = 2, as_reason = ReasonRetry, as_startedAt = 30,
        as_turnOrdinal = 1, as_providerThreadId = None,
        as_turnRequestedAt = 10\<rparr>,
    SessionStatusSet StatusBooting 30,
    ProviderTurnRequested ''t1'' (Some ''attempt:turn:t1:ordinal:2'') ''{}''
     None 30]"

lemma demo_first_decided: "decide initial_session_state (demo_commands ! 0) = Inr demo_first"
  by code_simp

lemma demo_second_decided:
  "decide (foldl (evolve no_decoder) initial_session_state demo_first) (demo_commands ! 1) = Inr demo_second"
  by code_simp

lemma demo_decisions:
  "decide initial_session_state (demo_commands ! 0) = Inr demo_first"
  "decide (foldl (evolve no_decoder) initial_session_state demo_first) (demo_commands ! 1) = Inr demo_second"
  "fresh_ids (map (Pair ''s1'') (demo_first @ demo_second))"
  "list_ex is_AttemptStarted demo_second"
  "\<forall>c \<in> set demo_commands. created_session c \<in> {None, Some ''s1''}"
proof -
  show "decide initial_session_state (demo_commands ! 0) = Inr demo_first" by (rule demo_first_decided)
  show "decide (foldl (evolve no_decoder) initial_session_state demo_first) (demo_commands ! 1) = Inr demo_second"
    by (rule demo_second_decided)
  show "fresh_ids (map (Pair ''s1'') (demo_first @ demo_second))"
    by (simp add: fresh_ids_def demo_first_def demo_second_def)
  show "list_ex is_AttemptStarted demo_second" by (simp add: demo_second_def is_AttemptStarted_def)
  show "\<forall>c \<in> set demo_commands. created_session c \<in> {None, Some ''s1''}"
    by (simp add: demo_commands_def demo_create_def)
qed

text \<open>Their times are dates, and the project and the chat of the session exist.\<close>

lemma demo_accepted:
  "\<forall>e \<in> set demo_first. dates_valid e \<and> event_refers demo_json (sd_readModel demo_db) e"
  "\<forall>e \<in> set demo_second. dates_valid e \<and> event_refers demo_json rm e"
  using demo_chat_row(2)
  by (auto simp: demo_first_def demo_second_def dates_valid_def date_valid_def event_refers_def
      demo_json_def refers_def)


lemma demo_history:
  "\<exists>db1 out db2. demo_reached db1 (length demo_first) demo_first {''c1''} \<and>
     service_dispatch demo_env open_gate (demo_dispatch ''c2'' (demo_commands ! 1)) (length demo_first) db1 =
       (Inr out, db2) \<and>
     map se_event (do_appended out) = demo_second \<and> own_creation (demo_dispatch ''c2'' (demo_commands ! 1)) \<and>
     demo_reached db2 (length demo_first + length demo_second) (demo_first @ demo_second) {''c2'', ''c1''}"
proof -
  have own: "created_session (demo_commands ! 0) \<in> {None, Some ''s1''}"
    "created_session (demo_commands ! 1) \<in> {None, Some ''s1''}"
    using demo_decisions(5) by (simp_all add: demo_commands_def)
  have fresh: "fresh_ids (map (Pair ''s1'') ([] @ demo_first))"
    using demo_decisions(3) by (auto simp: fresh_ids_def)
  obtain db1 where db1: "demo_reached db1 (0 + length demo_first) ([] @ demo_first) (insert ''c1'' {})"
    using demo_step [OF demo_start, of "''c1''" "demo_commands ! 0" demo_first] demo_decisions(1) own(1) fresh
      demo_accepted(1)
    by auto
  then have "demo_reached db1 (length demo_first) demo_first {''c1''}" by simp
  with demo_step [OF this, of "''c2''" "demo_commands ! 1" demo_second] demo_decisions(2,3) own(2) demo_accepted(2)
  show ?thesis by auto
qed

lemma demo_send_record:
  assumes e: "stream_events rs = map (Pair ''s1'') (demo_first @ demo_second)"
  shows "\<exists>r \<in> set rs. \<exists>p \<in> set (jobs_for_session_event r).
    request_kind (pj_request p) = KindTurnSend \<and> pj_sessionId p = ''s1''"
proof -
  let ?is_send = "\<lambda>e. case e of ProviderTurnRequested t a input start tm \<Rightarrow> True | _ \<Rightarrow> False"
  have "list_ex ?is_send demo_second" by code_simp
  then obtain x where "x \<in> set demo_second" "?is_send x" by (auto simp: list_ex_iff)
  then have "(''s1'', x) \<in> set (stream_events rs)" unfolding e by simp
  then obtain r where r: "r \<in> set rs" "se_streamId r = ''s1''" "se_event r = x"
    by (auto simp: stream_events_def)
  with \<open>?is_send x\<close> have "\<exists>p \<in> set (jobs_for_session_event r).
      request_kind (pj_request p) = KindTurnSend \<and> pj_sessionId p = ''s1''"
    by (cases x) (simp_all add: jobs_for_session_event_def)
  with r(1) show ?thesis by blast
qed

section \<open>The read model follows the log\<close>





section \<open>Events and their jobs\<close>

text \<open>C3: After every history of the service, whatever ids its commands
  use, every job that an event of the log implies is in the table of jobs exactly once, with its
  session, kind and request, and every row of the table is the job of an event of the log. No side
  effect of a committed event is lost and none is scheduled for an event that did not commit.\<close>

theorem committed_events_have_jobs:
  assumes "env_ok env" "service_history env db"
  shows "(\<forall>r \<in> set (logged_records (sv_events env) db). \<forall>p \<in> set (jobs_for_session_event r).
      \<exists>!row. row \<in> set (jt_rows (sd_jobs db)) \<and> row_of_job (sv_jobs env) p row) \<and>
    (\<forall>row \<in> set (jt_rows (sd_jobs db)). \<exists>r \<in> set (logged_records (sv_events env) db).
      \<exists>p \<in> set (jobs_for_session_event r). row_of_job (sv_jobs env) p row)"
proof -
  from service_history_inv [OF assms] have inv: "db_inv env db" "jobs_of_log (sv_jobs env) (records env db) (sd_jobs db)"
    "ledger_inv (sd_jobs db)"
    by (simp_all add: service_inv_def log_inv_def)
  show ?thesis
    using jobs_exactly [OF inv(2,3) records_event_ids [OF inv(1)]] inv(2) unfolding jobs_of_log_def by blast
qed

theorem committed_events_have_jobs_witness:
  "\<exists>db row. service_history demo_env db \<and> row \<in> set (jt_rows (sd_jobs db)) \<and>
     jr_kind row = KindTurnSend \<and> jr_sessionId row = ''s1''"
proof -
  from demo_history obtain db2 where db: "demo_reached db2 (length demo_first + length demo_second)
      (demo_first @ demo_second) {''c2'', ''c1''}" by blast
  then have h: "service_history demo_env db2"
    and e: "stream_events (records demo_env db2) = map (Pair ''s1'') (demo_first @ demo_second)"
    by (simp_all add: demo_reached_def)
  from demo_send_record [OF e] obtain r p where r: "r \<in> set (records demo_env db2)"
    "p \<in> set (jobs_for_session_event r)" "request_kind (pj_request p) = KindTurnSend" "pj_sessionId p = ''s1''"
    by blast
  with committed_events_have_jobs [OF demo_env_ok h] obtain row where
    "row \<in> set (jt_rows (sd_jobs db2))" "row_of_job (sv_jobs demo_env) p row" by blast
  with h r(3,4) show ?thesis by (auto simp: row_of_job_def)
qed

section \<open>Decided commands commit\<close>



section \<open>A command delivered again\<close>

text \<open>C26: A command that started an attempt and is delivered a second time, as
  the idempotence of commands allows, returns its receipt and adds no event, but it cancels every
  pending or running turn job of its session, the one its first delivery enqueued included, and does
  not enqueue them again: the turn of the attempt is never sent to the provider.\<close>

theorem redelivery_cancels_jobs:
  assumes ok: "env_ok env" and h: "service_history env db" and own: "own_creation input"
    and plain: "plain_input input" and gate: "\<not> ag_closed gate"
    and first: "service_dispatch env gate input g db = (Inr out, db1)"
    and started: "list_ex is_AttemptStarted (map se_event (do_appended out))"
    and free: "\<not> command_blocked db1 input"
  shows "\<exists>out' db2. service_dispatch env gate input g' db1 = (Inr out', db2) \<and>
    do_result out' = do_result out \<and>
    logged_records (sv_events env) db2 = logged_records (sv_events env) db1 \<and>
    (\<forall>row \<in> set (jt_rows (sd_jobs db2)). jr_sessionId row = di_streamId input \<and>
       jr_kind row \<in> {KindTurnSend, KindTurnInterrupt, KindTurnRecover} \<longrightarrow> \<not> unsettled (jr_status row))"
proof -
  from service_history_inv [OF ok h] have inv: "service_inv env db" .
  from service_history_inv [OF ok command [OF h own first]] have inv1: "service_inv env db1" .
  note d = delivered [OF ok inv first]
  obtain out' db2 where again: "service_dispatch env gate input g' db1 = (Inr out', db2)"
    "do_result out' = do_result out" "do_appended out' = do_appended out" "records env db2 = records env db1"
    "\<forall>r \<in> set (do_appended out). r \<in> set (records env db1)"
    "settle_jobs env input (do_appended out) db1 = ((do_cancelled out', do_enqueued out'), db2)"
    by (rule deliver_known [OF inv1 plain d gate free])
  have "\<forall>r \<in> set (do_appended out). \<forall>p \<in> set (jobs_for_session_event r). has_job (sd_jobs db1) (pj_id p)"
    using again(5) inv1 unfolding service_inv_def jobs_of_log_def by blast
  from settle_jobs_known [OF this started again(6)] again(1,2,4) show ?thesis by blast
qed

theorem redelivery_cancels_jobs_witness:
  "\<exists>db1 out db2 out' db3 row. service_dispatch demo_env open_gate (demo_dispatch ''c2'' (demo_commands ! 1))
       (length demo_first) db1 = (Inr out, db2) \<and>
     service_dispatch demo_env open_gate (demo_dispatch ''c2'' (demo_commands ! 1)) 0 db2 = (Inr out', db3) \<and>
     row \<in> set (jt_rows (sd_jobs db3)) \<and> jr_kind row = KindTurnSend \<and> \<not> unsettled (jr_status row)"
proof -
  let ?input = "demo_dispatch ''c2'' (demo_commands ! 1)"
  from demo_history obtain db1 out db2 where d:
    "demo_reached db1 (length demo_first) demo_first {''c1''}"
    "service_dispatch demo_env open_gate ?input (length demo_first) db1 = (Inr out, db2)"
    "map se_event (do_appended out) = demo_second" "own_creation ?input"
    "demo_reached db2 (length demo_first + length demo_second) (demo_first @ demo_second) {''c2'', ''c1''}" by blast
  from d(1) have h1: "service_history demo_env db1" by (simp add: demo_reached_def)
  from d(5) have e2: "stream_events (records demo_env db2) = map (Pair ''s1'') (demo_first @ demo_second)"
    by (simp add: demo_reached_def)
  have plain: "plain_input ?input" by (simp add: plain_input_def demo_dispatch_def)
  have gate: "\<not> ag_closed open_gate" by (simp add: open_gate_def)
  have started: "list_ex is_AttemptStarted (map se_event (do_appended out))"
    unfolding d(3) by (rule demo_decisions(4))
  from redelivery_cancels_jobs [OF demo_env_ok h1 d(4) plain gate d(2) started
      demo_unblocked [OF d(5) demo_decisions(3)], of 0] obtain out' db3 where again:
    "service_dispatch demo_env open_gate ?input 0 db2 = (Inr out', db3)"
    "logged_records (sv_events demo_env) db3 = logged_records (sv_events demo_env) db2"
    "\<forall>row \<in> set (jt_rows (sd_jobs db3)). jr_sessionId row = di_streamId ?input \<and>
       jr_kind row \<in> {KindTurnSend, KindTurnInterrupt, KindTurnRecover} \<longrightarrow> \<not> unsettled (jr_status row)"
    by blast
  have h3: "service_history demo_env db3"
    using command [OF command [OF h1 d(4,2)] d(4) again(1)] .
  from service_history_inv [OF demo_env_ok h3] have inv: "db_inv demo_env db3"
    "jobs_of_log (sv_jobs demo_env) (records demo_env db3) (sd_jobs db3)" "ledger_inv (sd_jobs db3)"
    by (simp_all add: service_inv_def log_inv_def)
  from demo_send_record [of "records demo_env db3"] e2 again(2) obtain r p where
    r: "r \<in> set (records demo_env db3)" "p \<in> set (jobs_for_session_event r)"
      "request_kind (pj_request p) = KindTurnSend" "pj_sessionId p = ''s1''" by auto
  from jobs_exactly [OF inv(2,3) records_event_ids [OF inv(1)] r(1,2)] obtain row where
    "row \<in> set (jt_rows (sd_jobs db3))" "row_of_job (sv_jobs demo_env) p row" by blast
  then have "row \<in> set (jt_rows (sd_jobs db3))" "jr_kind row = KindTurnSend" "jr_sessionId row = ''s1''"
    using r(3,4) by (simp_all add: row_of_job_def)
  moreover from this again(3) have "\<not> unsettled (jr_status row)" by (simp add: demo_dispatch_def)
  ultimately show ?thesis using d(2) again(1) by blast
qed

end
