(* ===== verification/Reactor_Runner.thy ===== *)
theory Reactor_Runner
  imports Cursors Chat
begin

text \<open>
  Reactors: \<open>engine/reactor-runner.ts\<close> and \<open>reactors/conversation.ts\<close> of \<open>packages/domain/src\<close>. A
  reactor turns events of the log into commands; its runner hands the commands to a dispatcher and
  remembers in a cursor how far it came.

  A reactor is a function of the event, as every reactor of the repository is. The dispatcher is a
  parameter: it may change the state, also when it fails.
\<close>

section \<open>Commands of a reactor\<close>

record 'c reactor_command =
  xc_streamId :: string
  xc_command :: 'c

record 'c reactor_dispatch_input = "'c reactor_command" +
  xd_commandId :: string
  xd_correlationId :: string
  xd_causationEventId :: string

record ('e, 'c, 'err) reactor_definition =
  rx_name :: string
  rx_react :: "'e stored_event \<Rightarrow> 'err + 'c reactor_command list"

type_synonym ('st, 'c, 'err) reactor_dispatch =
  "'c reactor_dispatch_input \<Rightarrow> 'st \<Rightarrow> ('err + unit) \<times> 'st"

definition reactor_cursor_name :: "('e, 'c, 'err) reactor_definition \<Rightarrow> string" where
  "reactor_cursor_name rx = ''reactor:'' @ rx_name rx"

definition reactor_command_id :: "string \<Rightarrow> string \<Rightarrow> nat \<Rightarrow> string" where
  "reactor_command_id cursor_name event_id index =
     cursor_name @ '':'' @ event_id @ '':'' @ nat_to_string index"

definition reactor_input ::
  "string \<Rightarrow> 'e stored_event \<Rightarrow> nat \<Rightarrow> 'c reactor_command \<Rightarrow> 'c reactor_dispatch_input" where
  "reactor_input cursor_name e index command =
     \<lparr>xc_streamId = xc_streamId command, xc_command = xc_command command,
      xd_commandId = reactor_command_id cursor_name (se_eventId e) index,
      xd_correlationId = se_correlationId e, xd_causationEventId = se_eventId e\<rparr>"

text \<open>The pairs of \<open>commands.entries()\<close>\<close>

definition event_inputs ::
  "string \<Rightarrow> 'e stored_event \<Rightarrow> 'c reactor_command list \<Rightarrow> 'c reactor_dispatch_input list" where
  "event_inputs cursor_name e commands =
     map (\<lambda>(index, command). reactor_input cursor_name e index command) (enumerate 0 commands)"

section \<open>One event after the other\<close>

fun dispatch_inputs ::
  "('st, 'c, 'err) reactor_dispatch \<Rightarrow> 'c reactor_dispatch_input list \<Rightarrow> 'st \<Rightarrow> ('err + unit) \<times> 'st"
where
  "dispatch_inputs dispatch [] st = (Inr (), st)"
| "dispatch_inputs dispatch (x # xs) st =
     (case dispatch x st of
        (Inl err, st') \<Rightarrow> (Inl err, st')
      | (Inr _, st') \<Rightarrow> dispatch_inputs dispatch xs st')"

fun reactor_loop ::
  "('st, 'err, 'e stored_event, 'z) cursor_ops_scheme \<Rightarrow> ('st, 'c, 'err) reactor_dispatch \<Rightarrow>
   ('e, 'c, 'err) reactor_definition \<Rightarrow> int \<Rightarrow> 'e stored_event list \<Rightarrow> 'st \<Rightarrow> ('err + int) \<times> 'st"
where
  "reactor_loop ops dispatch rx cursor [] st = (Inr cursor, st)"
| "reactor_loop ops dispatch rx cursor (e # es) st =
     (case rx_react rx e of
        Inl err \<Rightarrow> (Inl err, st)
      | Inr commands \<Rightarrow>
          (case dispatch_inputs dispatch (event_inputs (reactor_cursor_name rx) e commands) st of
             (Inl err, st') \<Rightarrow> (Inl err, st')
           | (Inr _, st') \<Rightarrow>
               (case co_commitCursor ops st' (reactor_cursor_name rx) (se_sequence e) of
                  Inl err \<Rightarrow> (Inl err, st')
                | Inr st'' \<Rightarrow> reactor_loop ops dispatch rx (se_sequence e) es st'')))"

section \<open>Streams side by side\<close>

fun prepare_events ::
  "('e, 'c, 'err) reactor_definition \<Rightarrow> 'e stored_event list \<Rightarrow>
   'err + ('e stored_event \<times> 'c reactor_command list) list"
where
  "prepare_events rx [] = Inr []"
| "prepare_events rx (e # es) =
     (case rx_react rx e of
        Inl err \<Rightarrow> Inl err
      | Inr commands \<Rightarrow>
          (case prepare_events rx es of Inl err \<Rightarrow> Inl err | Inr rest \<Rightarrow> Inr ((e, commands) # rest)))"

definition group_input ::
  "'c reactor_dispatch_input \<Rightarrow> (string, 'c reactor_dispatch_input list) jsmap \<Rightarrow>
   (string, 'c reactor_dispatch_input list) jsmap" where
  "group_input x groups =
     AList.update (xc_streamId x) (or_else (map_of groups (xc_streamId x)) [] @ [x]) groups"

definition command_groups ::
  "string \<Rightarrow> ('e stored_event \<times> 'c reactor_command list) list \<Rightarrow>
   (string, 'c reactor_dispatch_input list) jsmap" where
  "command_groups cursor_name prepared =
     fold group_input
       (concat (map (\<lambda>(e, commands). event_inputs cursor_name e commands) prepared)) []"

text \<open>
  \<open>Effect.forEach\<close> with a bound on its fibres: a fibre works through one group, the next group
  starts when fewer than \<open>limit\<close> are active, and the first failure ends all of them. The fibres
  interleave freely between two dispatches.
\<close>

inductive groups_run ::
  "nat \<Rightarrow> ('st, 'c, 'err) reactor_dispatch \<Rightarrow> 'c reactor_dispatch_input list list \<Rightarrow>
   'c reactor_dispatch_input list list \<Rightarrow> 'st \<Rightarrow> 'err + unit \<Rightarrow> 'st \<Rightarrow> bool"
  for limit :: nat and dispatch :: "('st, 'c, 'err) reactor_dispatch"
where
  all_done: "groups_run limit dispatch [] [] st (Inr ()) st"
| group_started:
    "length active < limit \<Longrightarrow> groups_run limit dispatch waiting (active @ [g]) st r st' \<Longrightarrow>
     groups_run limit dispatch (g # waiting) active st r st'"
| group_ended:
    "groups_run limit dispatch waiting (as @ bs) st r st' \<Longrightarrow>
     groups_run limit dispatch waiting (as @ [] # bs) st r st'"
| dispatched:
    "dispatch x st = (Inr u, st1) \<Longrightarrow> groups_run limit dispatch waiting (as @ g # bs) st1 r st' \<Longrightarrow>
     groups_run limit dispatch waiting (as @ (x # g) # bs) st r st'"
| dispatch_failed:
    "dispatch x st = (Inl err, st1) \<Longrightarrow>
     groups_run limit dispatch waiting (as @ (x # g) # bs) st (Inl err) st1"

fun commit_prepared ::
  "('st, 'err, 'e stored_event, 'z) cursor_ops_scheme \<Rightarrow> string \<Rightarrow> int \<Rightarrow> 'e stored_event list \<Rightarrow>
   'st \<Rightarrow> ('err + int) \<times> 'st"
where
  "commit_prepared ops cursor_name cursor [] st = (Inr cursor, st)"
| "commit_prepared ops cursor_name cursor (e # es) st =
     (case co_commitCursor ops st cursor_name (se_sequence e) of
        Inl err \<Rightarrow> (Inl err, st)
      | Inr st' \<Rightarrow> commit_prepared ops cursor_name (se_sequence e) es st')"

section \<open>Catching up\<close>

text \<open>What both modes start from: the cursor and the events after it.\<close>

definition pending_events ::
  "('st, 'err, 'e stored_event, 'z) cursor_ops_scheme \<Rightarrow> string \<Rightarrow> 'st \<Rightarrow>
   'err + int \<times> 'e stored_event list" where
  "pending_events ops cursor_name st =
     (case co_cursor ops st cursor_name of
        Inl err \<Rightarrow> Inl err
      | Inr cursor \<Rightarrow>
          (case co_eventsAfter ops st cursor of
             Inl err \<Rightarrow> Inl err
           | Inr events \<Rightarrow> Inr (cursor, filter (\<lambda>e. se_sequence e > cursor) events)))"

definition sequential_catch_up ::
  "('st, 'err, 'e stored_event, 'z) cursor_ops_scheme \<Rightarrow> ('st, 'c, 'err) reactor_dispatch \<Rightarrow>
   ('e, 'c, 'err) reactor_definition \<Rightarrow> 'st \<Rightarrow> ('err + int) \<times> 'st" where
  "sequential_catch_up ops dispatch rx st =
     (case pending_events ops (reactor_cursor_name rx) st of
        Inl err \<Rightarrow> (Inl err, st)
      | Inr (cursor, pending) \<Rightarrow> reactor_loop ops dispatch rx cursor pending st)"

text \<open>\<open>catchUp\<close>: a run of \<open>dispatchConcurrency\<close> \<open>n\<close> ends with \<open>r\<close> and \<open>st'\<close>.\<close>

inductive reactor_catch_up ::
  "nat \<Rightarrow> ('st, 'err, 'e stored_event, 'z) cursor_ops_scheme \<Rightarrow> ('st, 'c, 'err) reactor_dispatch \<Rightarrow>
   ('e, 'c, 'err) reactor_definition \<Rightarrow> 'st \<Rightarrow> 'err + int \<Rightarrow> 'st \<Rightarrow> bool"
  for n :: nat and ops :: "('st, 'err, 'e stored_event, 'z) cursor_ops_scheme"
    and dispatch :: "('st, 'c, 'err) reactor_dispatch" and rx :: "('e, 'c, 'err) reactor_definition"
    and st :: 'st
where
  one_by_one:
    "max 1 n = 1 \<Longrightarrow> sequential_catch_up ops dispatch rx st = (r, st') \<Longrightarrow>
     reactor_catch_up n ops dispatch rx st r st'"
| unread:
    "max 1 n \<noteq> 1 \<Longrightarrow> pending_events ops (reactor_cursor_name rx) st = Inl err \<Longrightarrow>
     reactor_catch_up n ops dispatch rx st (Inl err) st"
| unprepared:
    "max 1 n \<noteq> 1 \<Longrightarrow> pending_events ops (reactor_cursor_name rx) st = Inr (cursor, pending) \<Longrightarrow>
     prepare_events rx pending = Inl err \<Longrightarrow> reactor_catch_up n ops dispatch rx st (Inl err) st"
| undelivered:
    "max 1 n \<noteq> 1 \<Longrightarrow> pending_events ops (reactor_cursor_name rx) st = Inr (cursor, pending) \<Longrightarrow>
     prepare_events rx pending = Inr prepared \<Longrightarrow>
     groups_run (max 1 n) dispatch (map snd (command_groups (reactor_cursor_name rx) prepared)) [] st
       (Inl err) st' \<Longrightarrow> reactor_catch_up n ops dispatch rx st (Inl err) st'"
| side_by_side:
    "max 1 n \<noteq> 1 \<Longrightarrow> pending_events ops (reactor_cursor_name rx) st = Inr (cursor, pending) \<Longrightarrow>
     prepare_events rx pending = Inr prepared \<Longrightarrow>
     groups_run (max 1 n) dispatch (map snd (command_groups (reactor_cursor_name rx) prepared)) [] st
       (Inr u) st1 \<Longrightarrow>
     commit_prepared ops (reactor_cursor_name rx) cursor (map fst prepared) st1 = (r, st') \<Longrightarrow>
     reactor_catch_up n ops dispatch rx st r st'"

section \<open>The reactors of a conversation\<close>

datatype auto_name_trigger = TriggerTurnStarted | TriggerStartupReleased | TriggerTurnCompleted

record auto_name =
  an_turnId :: "string option"
  an_trigger :: auto_name_trigger

record review_guide_refresh =
  rg_turnId :: string
  rg_settledAt :: "int option"

record chat_archive =
  ca_force :: bool

datatype chat_delete = DeleteChatResources

fun auto_name_command :: "session_event \<Rightarrow> auto_name option" where
  "auto_name_command (TurnStarted turn_id tm ordinal requested thread) =
     Some \<lparr>an_turnId = Some turn_id, an_trigger = TriggerTurnStarted\<rparr>"
| "auto_name_command (SessionQueuePausedSet paused tm) =
     (if paused then None else Some \<lparr>an_turnId = None, an_trigger = TriggerStartupReleased\<rparr>)"
| "auto_name_command (TurnSettled turn_id outcome tm) =
     (if outcome = OutcomeCompleted
      then Some \<lparr>an_turnId = Some turn_id, an_trigger = TriggerTurnCompleted\<rparr> else None)"
| "auto_name_command e = None"

definition auto_name_reactor :: "(session_event, auto_name, 'err) reactor_definition" where
  "auto_name_reactor =
     \<lparr>rx_name = ''auto-name-chat'',
      rx_react = (\<lambda>record. Inr
        (case auto_name_command (se_event record) of
           None \<Rightarrow> []
         | Some command \<Rightarrow> [\<lparr>xc_streamId = se_streamId record, xc_command = command\<rparr>]))\<rparr>"

fun review_guide_commands :: "session_event \<Rightarrow> review_guide_refresh list" where
  "review_guide_commands (TurnSettled turn_id outcome settled_at) =
     (if outcome = OutcomeCompleted then [\<lparr>rg_turnId = turn_id, rg_settledAt = Some settled_at\<rparr>] else [])"
| "review_guide_commands e = []"

definition review_guide_reactor ::
  "(session_event, review_guide_refresh, 'err) reactor_definition" where
  "review_guide_reactor =
     \<lparr>rx_name = ''review-guide-refresh'',
      rx_react = (\<lambda>record. Inr
        (map (\<lambda>command. \<lparr>xc_streamId = se_streamId record, xc_command = command\<rparr>)
           (review_guide_commands (se_event record))))\<rparr>"

fun chat_archive_commands :: "chat_event \<Rightarrow> chat_archive list" where
  "chat_archive_commands (ChatArchiveRequested tm force) = [\<lparr>ca_force = or_else force False\<rparr>]"
| "chat_archive_commands e = []"

definition chat_archive_reactor :: "(chat_event, chat_archive, 'err) reactor_definition" where
  "chat_archive_reactor =
     \<lparr>rx_name = ''chat-archive'',
      rx_react = (\<lambda>record. Inr
        (map (\<lambda>command. \<lparr>xc_streamId = se_streamId record, xc_command = command\<rparr>)
           (chat_archive_commands (se_event record))))\<rparr>"

fun chat_delete_commands :: "chat_event \<Rightarrow> chat_delete list" where
  "chat_delete_commands (ChatDeleteRequested tm) = [DeleteChatResources]"
| "chat_delete_commands e = []"

definition chat_delete_reactor :: "(chat_event, chat_delete, 'err) reactor_definition" where
  "chat_delete_reactor =
     \<lparr>rx_name = ''chat-delete'',
      rx_react = (\<lambda>record. Inr
        (map (\<lambda>command. \<lparr>xc_streamId = se_streamId record, xc_command = command\<rparr>)
           (chat_delete_commands (se_event record))))\<rparr>"

end
