(* ===== verification/Reactor_Laws.thy ===== *)
theory Reactor_Laws
  imports Reactor_Runner Event_Log
begin

text \<open>
  What the runner of a reactor promises, over the contract of a storage of cursors
  (\<open>cursor_storage\<close>) and of a dispatcher (\<open>reactor_world\<close>): every command of an event the cursor
  has passed was handled, and the commands that are handled for the first time come in the order
  of the log, so a receiver that ignores command ids it knows sees each command once and in order.
\<close>

section \<open>Command ids\<close>

lemma last_separator:
  assumes "d \<notin> set s" "d \<notin> set s'"
  shows "e @ d # s = e' @ d # s' \<longleftrightarrow> e = e' \<and> s = s'"
  using assms by (auto simp: append_eq_append_conv2 Cons_eq_append_conv append_eq_Cons_conv)

lemma digits_no_colon: "CHR '':'' \<notin> set (nat_to_string n)"
  using nat_to_string_digit [of "CHR '':''" n] by auto

lemma reactor_command_id_inject [simp]:
  "reactor_command_id name e i = reactor_command_id name e' i' \<longleftrightarrow> e = e' \<and> i = i'"
  using last_separator [OF digits_no_colon digits_no_colon, of e i e' i']
  by (simp add: reactor_command_id_def)

section \<open>First occurrences\<close>

definition first_occurrences :: "'a list \<Rightarrow> 'a list" where
  "first_occurrences xs = rev (remdups (rev xs))"

lemma first_occurrences_snoc:
  "first_occurrences (xs @ [x]) =
     (if x \<in> set xs then first_occurrences xs else first_occurrences xs @ [x])"
  by (simp add: first_occurrences_def)

lemma first_occurrences_simps [simp]:
  "first_occurrences [] = []"
  "set (first_occurrences xs) = set xs"
  "distinct (first_occurrences xs)"
  by (simp_all add: first_occurrences_def)

lemma first_occurrences_append:
  "first_occurrences (xs @ ys) = first_occurrences xs @ filter (\<lambda>y. y \<notin> set xs) (first_occurrences ys)"
proof (induction ys rule: rev_induct)
  case (snoc y ys)
  have "first_occurrences (xs @ ys @ [y]) = first_occurrences ((xs @ ys) @ [y])" by simp
  with snoc show ?case by (simp add: first_occurrences_snoc del: append_assoc)
qed simp

lemma first_occurrences_distinct: "distinct xs \<Longrightarrow> first_occurrences xs = xs"
  by (simp add: first_occurrences_def distinct_remdups_id)

lemma filter_first_occurrences:
  "filter P (first_occurrences xs) = first_occurrences (filter P xs)"
  by (induction xs rule: rev_induct) (auto simp: first_occurrences_snoc)

lemma filter_prefix: "prefix xs ys \<Longrightarrow> prefix (filter P xs) (filter P ys)"
  by (auto simp: prefix_def)

text \<open>A part that holds all of \<open>a\<close> and is a prefix of \<open>a @ b\<close> begins with \<open>a\<close>.\<close>

lemma prefix_covers:
  assumes "prefix f (a @ b)" "distinct (a @ b)" "set a \<subseteq> set f"
  obtains p where "f = a @ p" "prefix p b"
proof -
  from assms(1) consider "prefix f a" | p where "f = a @ p" "prefix p b"
    by (auto simp: prefix_append)
  then show ?thesis
  proof cases
    case 1
    then obtain z where z: "a = f @ z" by (auto simp: prefix_def)
    with assms(2,3) have "z = []" by (cases z) auto
    with z that [of "[]"] show ?thesis by simp
  qed (rule that)
qed

text \<open>Delivering a prefix of what is pending again keeps the first deliveries in order.\<close>

lemma redelivery_in_order:
  assumes d: "distinct (a @ b)" and known: "set a \<subseteq> set h"
    and old: "prefix (first_occurrences h) (a @ b)" and q: "prefix q b"
  shows "prefix (first_occurrences (h @ q)) (a @ b)"
proof -
  have "set a \<subseteq> set (first_occurrences h)" using known by simp
  from prefix_covers [OF old d this] obtain p where
    p: "first_occurrences h = a @ p" "prefix p b" by metis
  have h: "set h = set a \<union> set p" using p(1) by (metis first_occurrences_simps(2) set_append)
  have dq: "distinct q" using q d by (auto simp: prefix_def)
  have out: "\<forall>y \<in> set q. y \<notin> set a" using q d by (auto simp: prefix_def)
  from p(2) q consider "prefix q p" | s where "q = p @ s"
    using prefix_same_cases [of p b q] by (auto simp: prefix_def)
  then show ?thesis
  proof cases
    case 1
    then have "filter (\<lambda>y. y \<notin> set h) q = []" using h by (auto simp: filter_empty_conv prefix_def)
    then have "first_occurrences (h @ q) = a @ p"
      by (simp only: first_occurrences_append first_occurrences_distinct [OF dq] p(1) append_Nil2)
    with p(2) show ?thesis by simp
  next
    case (2 s)
    then have "filter (\<lambda>y. y \<notin> set h) q = s"
      using out dq h by (auto simp: filter_empty_conv filter_id_conv)
    then have "first_occurrences (h @ q) = (a @ p) @ s"
      by (simp only: first_occurrences_append first_occurrences_distinct [OF dq] p(1))
    with 2 q show ?thesis by simp
  qed
qed

lemma list_all2_middleE:
  assumes "list_all2 P ks (as @ b # cs)"
  obtains ks1 k ks2 where "ks = ks1 @ k # ks2" "list_all2 P ks1 as" "P k b" "list_all2 P ks2 cs"
proof -
  from assms obtain ks1 vs where "ks = ks1 @ vs" "list_all2 P ks1 as" "list_all2 P vs (b # cs)"
    unfolding list_all2_append2 by blast
  moreover from this(3) obtain k ks2 where "vs = k # ks2" "P k b" "list_all2 P ks2 cs"
    unfolding list_all2_Cons2 by blast
  ultimately show ?thesis using that by blast
qed

lemma list_all2_left: "list_all2 P ks gs \<Longrightarrow> g \<in> set gs \<Longrightarrow> \<exists>k \<in> set ks. P k g"
  by (induction rule: list_all2_induct) auto

section \<open>What the log asks for\<close>

definition inputs_of ::
  "('e, 'c, 'err) reactor_definition \<Rightarrow> 'e stored_event \<Rightarrow> 'c reactor_dispatch_input list" where
  "inputs_of rx e =
     (case rx_react rx e of
        Inl _ \<Rightarrow> [] | Inr commands \<Rightarrow> event_inputs (reactor_cursor_name rx) e commands)"

definition log_inputs ::
  "('e, 'c, 'err) reactor_definition \<Rightarrow> 'e stored_event list \<Rightarrow> 'c reactor_dispatch_input list" where
  "log_inputs rx es = concat (map (inputs_of rx) es)"

lemma log_inputs_simps [simp]:
  "log_inputs rx [] = []" "log_inputs rx (e # es) = inputs_of rx e @ log_inputs rx es"
  "log_inputs rx (es @ fs) = log_inputs rx es @ log_inputs rx fs"
  by (simp_all add: log_inputs_def)

lemma event_inputs_fields:
  "map xd_commandId (event_inputs name e commands) =
     map (reactor_command_id name (se_eventId e)) [0..<length commands]"
  "x \<in> set (event_inputs name e commands) \<Longrightarrow> xd_causationEventId x = se_eventId e"
  by (auto simp: event_inputs_def reactor_input_def enumerate_eq_zip zip_map_fst_snd
      intro!: nth_equalityI)

lemma distinct_inputs_of: "distinct (inputs_of rx e)"
proof (cases "rx_react rx e")
  case (Inr commands)
  have "distinct (map xd_commandId (inputs_of rx e))"
    by (simp add: inputs_of_def Inr event_inputs_fields distinct_map inj_on_def)
  then show ?thesis by (simp add: distinct_map)
qed (simp add: inputs_of_def)

lemma inputs_of_causation: "x \<in> set (inputs_of rx e) \<Longrightarrow> xd_causationEventId x = se_eventId e"
  by (auto simp: inputs_of_def event_inputs_fields split: sum.splits)

lemma distinct_log_inputs:
  "distinct (map se_eventId es) \<Longrightarrow> distinct (log_inputs rx es)"
proof (induction es)
  case (Cons e es)
  have "x \<notin> set (log_inputs rx es)" if "x \<in> set (inputs_of rx e)" for x
  proof
    assume "x \<in> set (log_inputs rx es)"
    then obtain f where f: "f \<in> set es" "x \<in> set (inputs_of rx f)" by (auto simp: log_inputs_def)
    with that inputs_of_causation have "se_eventId e = se_eventId f" by metis
    with f(1) Cons.prems show False by (metis (no_types, lifting) distinct.simps(2) image_eqI list.set_map list.simps(9))
  qed
  with Cons show ?case by (auto simp: distinct_inputs_of)
qed simp

lemma prefix_log_inputs: "prefix es fs \<Longrightarrow> prefix (log_inputs rx es) (log_inputs rx fs)"
  by (auto simp: prefix_def)

section \<open>The contract of a storage of cursors\<close>

locale cursor_storage =
  fixes ops :: "('st, 'err, 'e stored_event, 'z) cursor_ops_scheme"
    and inv :: "'st \<Rightarrow> bool"
    and records :: "'st \<Rightarrow> 'e stored_event list"
    and position :: "'st \<Rightarrow> string \<Rightarrow> int"
  assumes read_cursor: "inv st \<Longrightarrow> co_cursor ops st name = Inr (position st name)"
    and read_events: "inv st \<Longrightarrow> co_eventsAfter ops st n = Inr (filter (\<lambda>r. n < se_sequence r) (records st))"
    and ordered: "inv st \<Longrightarrow> sorted_wrt (<) (map se_sequence (records st))"
    and event_ids: "inv st \<Longrightarrow> distinct (map se_eventId (records st))"
    and positive: "inv st \<Longrightarrow> r \<in> set (records st) \<Longrightarrow> 0 < se_sequence r"
    and commit_moves:
      "inv st \<Longrightarrow> position st name \<le> n \<Longrightarrow>
       \<exists>st'. co_commitCursor ops st name n = Inr st' \<and> inv st' \<and> records st' = records st \<and>
         position st' = (position st)(name := n)"
begin

lemma pending_read:
  "inv st \<Longrightarrow> pending_events ops name st =
     Inr (position st name, filter (\<lambda>r. position st name < se_sequence r) (records st))"
  by (simp add: pending_events_def read_cursor read_events)

lemma commitE:
  assumes "inv st" "position st name \<le> n"
  obtains st' where "co_commitCursor ops st name n = Inr st'" "inv st'" "records st' = records st"
    "position st' = (position st)(name := n)"
  using commit_moves [OF assms] by blast

lemma log_splits:
  assumes "inv st"
  shows "records st = filter (\<lambda>r. se_sequence r \<le> n) (records st) @ filter (\<lambda>r. n < se_sequence r) (records st)"
proof -
  have "sorted_wrt (<) (map se_sequence rs) \<Longrightarrow>
      rs = filter (\<lambda>r. se_sequence r \<le> n) rs @ filter (\<lambda>r. n < se_sequence r) rs" for rs :: "'e stored_event list"
  proof (induction rs)
    case (Cons r rs)
    show ?case
    proof (cases "se_sequence r \<le> n")
      case True
      with Cons show ?thesis by simp
    next
      case False
      with Cons.prems have all: "\<forall>x \<in> set rs. n < se_sequence x" by fastforce
      then have "filter (\<lambda>r. se_sequence r \<le> n) rs = []" by (auto simp: filter_empty_conv)
      moreover from all have "filter (\<lambda>r. n < se_sequence r) rs = rs" by simp
      ultimately show ?thesis using False by simp
    qed
  qed simp
  with ordered [OF assms] show ?thesis by blast
qed

end

section \<open>The contract of a dispatcher\<close>

locale reactor_world = cursor_storage ops inv records position
  for ops :: "('st, 'err, 'e stored_event, 'z) cursor_ops_scheme" and inv records position +
  fixes dispatch :: "('st, 'c, 'err) reactor_dispatch"
    and rx :: "('e, 'c, 'err) reactor_definition"
    and handled :: "'st \<Rightarrow> 'c reactor_dispatch_input list"
  assumes dispatch_inv: "inv st \<Longrightarrow> inv (snd (dispatch x st))"
    and dispatch_log: "inv st \<Longrightarrow> prefix (records st) (records (snd (dispatch x st)))"
    and dispatch_position:
      "inv st \<Longrightarrow> position (snd (dispatch x st)) (reactor_cursor_name rx) = position st (reactor_cursor_name rx)"
    and dispatch_handles: "dispatch x st = (Inr u, st') \<Longrightarrow> handled st' = handled st @ [x]"
    and dispatch_refuses: "dispatch x st = (Inl err, st') \<Longrightarrow> handled st' = handled st"
    and commit_handles: "co_commitCursor ops st name n = Inr st' \<Longrightarrow> handled st' = handled st"
begin

lemma dispatch_inputs_result:
  assumes "inv st" "dispatch_inputs dispatch xs st = (r, st')"
  shows "inv st' \<and> prefix (records st) (records st') \<and>
    position st' (reactor_cursor_name rx) = position st (reactor_cursor_name rx) \<and>
    (\<exists>q. handled st' = handled st @ q \<and> prefix q xs \<and> (\<forall>u. r = Inr u \<longrightarrow> q = xs))"
  using assms
proof (induction xs arbitrary: st)
  case (Cons x xs)
  obtain r1 st1 where d: "dispatch x st = (r1, st1)" by (cases "dispatch x st")
  note one = dispatch_inv [OF Cons.prems(1), of x] dispatch_log [OF Cons.prems(1), of x]
    dispatch_position [OF Cons.prems(1), of x]
  show ?case
  proof (cases r1)
    case (Inl err)
    with d one Cons.prems(2) dispatch_refuses [of x st err st1] show ?thesis by auto
  next
    case (Inr u)
    with d Cons.prems(2) have rest: "dispatch_inputs dispatch xs st1 = (r, st')" by simp
    from Cons.IH [OF _ rest] one d obtain q where q: "inv st'" "prefix (records st1) (records st')"
      "position st' (reactor_cursor_name rx) = position st1 (reactor_cursor_name rx)"
      "handled st' = handled st1 @ q" "prefix q xs" "\<forall>u. r = Inr u \<longrightarrow> q = xs" by auto
    moreover have "prefix (records st) (records st')"
      using one(2) d q(2) prefix_order.trans by (metis snd_conv)
    moreover have "handled st' = handled st @ (x # q)"
      using q(4) dispatch_handles [OF d [unfolded Inr]] by simp
    moreover have "prefix (x # q) (x # xs)" using q(5) by simp
    ultimately show ?thesis using one(3) d by (metis snd_conv)
  qed
qed auto

text \<open>A run of the sequential loop stops after an event or inside of one.\<close>

lemma reactor_loop_result:
  assumes "inv st" "position st (reactor_cursor_name rx) = c" "sorted_wrt (<) (c # map se_sequence es)"
    "reactor_loop ops dispatch rx c es st = (r, st')"
  shows "inv st' \<and> prefix (records st) (records st') \<and>
    (\<exists>es1 es2 q. es = es1 @ es2 \<and> handled st' = handled st @ log_inputs rx es1 @ q \<and>
       position st' (reactor_cursor_name rx) = last (c # map se_sequence es1) \<and>
       prefix q (log_inputs rx es2) \<and> (\<forall>n. r = Inr n \<longrightarrow> es2 = [] \<and> n = last (c # map se_sequence es1)))"
  using assms
proof (induction es arbitrary: c st)
  case Nil
  then show ?case by (intro conjI exI [of _ "[]"]) auto
next
  case (Cons e es)
  let ?name = "reactor_cursor_name rx"
  show ?case
  proof (cases "rx_react rx e")
    case (Inl err)
    with Cons.prems show ?thesis
      by (intro conjI exI [of _ "[]"] exI [of _ "e # es"]) auto
  next
    case (Inr commands)
    obtain r1 st1 where d: "dispatch_inputs dispatch (event_inputs ?name e commands) st = (r1, st1)"
      by (cases "dispatch_inputs dispatch (event_inputs ?name e commands) st")
    from dispatch_inputs_result [OF Cons.prems(1) d] obtain q where
      one: "inv st1" "prefix (records st) (records st1)" "position st1 ?name = position st ?name"
        "handled st1 = handled st @ q" "prefix q (inputs_of rx e)" "\<forall>u. r1 = Inr u \<longrightarrow> q = inputs_of rx e"
      by (auto simp: inputs_of_def Inr)
    show ?thesis
    proof (cases r1)
      case (Inl err)
      with Cons.prems Inr d have "st' = st1" "r = Inl err" by auto
      with one Cons.prems(2) show ?thesis
        by (intro conjI exI [of _ "[]"] exI [of _ "e # es"] exI [of _ q]) auto
    next
      case (Inr u)
      from Cons.prems(2,3) one(3) have "position st1 ?name \<le> se_sequence e" by simp
      from commitE [OF one(1) this] obtain st2 where
        st2: "co_commitCursor ops st1 ?name (se_sequence e) = Inr st2" "inv st2" "records st2 = records st1"
          "position st2 = (position st1)(?name := se_sequence e)" by metis
      from Cons.prems(4) \<open>rx_react rx e = Inr commands\<close> d Inr st2(1)
      have rest: "reactor_loop ops dispatch rx (se_sequence e) es st2 = (r, st')" by simp
      have "sorted_wrt (<) (se_sequence e # map se_sequence es)" using Cons.prems(3) by simp
      from Cons.IH [OF st2(2) _ this rest] st2(4) obtain es1 es2 q' where
        two: "inv st'" "prefix (records st2) (records st')" "es = es1 @ es2"
          "handled st' = handled st2 @ log_inputs rx es1 @ q'"
          "position st' ?name = last (se_sequence e # map se_sequence es1)"
          "prefix q' (log_inputs rx es2)"
          "\<forall>n. r = Inr n \<longrightarrow> es2 = [] \<and> n = last (se_sequence e # map se_sequence es1)"
        by auto
      have "prefix (records st) (records st')" using one(2) two(2) st2(3) prefix_order.trans by metis
      moreover have "handled st' = handled st @ log_inputs rx (e # es1) @ q'"
        using two(4) commit_handles [OF st2(1)] one(4,6) Inr by simp
      ultimately show ?thesis using two
        by (intro conjI exI [of _ "e # es1"] exI [of _ es2] exI [of _ q']) auto
    qed
  qed
qed

text \<open>The groups of a concurrent run belong to different streams.\<close>

lemma groups_run_result:
  assumes "groups_run limit dispatch waiting active st r st'" "inv st"
    "list_all2 (\<lambda>k g. \<forall>x \<in> set g. xc_streamId x = k) ks (active @ waiting)" "distinct ks"
  shows "inv st' \<and> prefix (records st) (records st') \<and>
    position st' (reactor_cursor_name rx) = position st (reactor_cursor_name rx) \<and>
    (\<exists>q. handled st' = handled st @ q \<and>
       (\<forall>k. prefix (filter (\<lambda>x. xc_streamId x = k) q)
              (filter (\<lambda>x. xc_streamId x = k) (concat (active @ waiting)))) \<and>
       (\<forall>u. r = Inr u \<longrightarrow> set (concat (active @ waiting)) \<subseteq> set q))"
  using assms
proof (induction arbitrary: ks rule: groups_run.induct)
  case (group_ended waiting as bs st r st')
  let ?P = "\<lambda>k g. \<forall>x \<in> set g. xc_streamId x = k"
  from group_ended.prems(2) have "list_all2 ?P ks (as @ [] # (bs @ waiting))" by simp
  then obtain ks1 k ks2 where ks: "ks = ks1 @ k # ks2"
    and parts: "list_all2 ?P ks1 as" "list_all2 ?P ks2 (bs @ waiting)" by (rule list_all2_middleE)
  from parts have all: "list_all2 ?P (ks1 @ ks2) ((as @ bs) @ waiting)"
    by (simp add: list_all2_appendI)
  from group_ended.IH [OF group_ended.prems(1) all] group_ended.prems(3) show ?case
    by (simp add: ks)
next
  case (dispatched x st u st1 waiting as g bs r st')
  note one = dispatch_inv [OF dispatched.prems(1), of x] dispatch_log [OF dispatched.prems(1), of x]
    dispatch_position [OF dispatched.prems(1), of x]
  let ?P = "\<lambda>k g. \<forall>x \<in> set g. xc_streamId x = k"
  from dispatched.prems(2) have "list_all2 ?P ks (as @ (x # g) # (bs @ waiting))" by simp
  then obtain ks1 k ks2 where ks: "ks = ks1 @ k # ks2"
    and parts: "list_all2 ?P ks1 as" "?P k (x # g)" "list_all2 ?P ks2 (bs @ waiting)"
    by (rule list_all2_middleE)
  then have all: "list_all2 ?P ks ((as @ g # bs) @ waiting)" by (simp add: list_all2_appendI)
  have inv1: "inv st1" using one(1) dispatched.hyps(1) by simp
  from dispatched.IH [OF inv1 all dispatched.prems(3)] obtain q where
    two: "inv st'" "prefix (records st1) (records st')"
      "position st' (reactor_cursor_name rx) = position st1 (reactor_cursor_name rx)"
      "handled st' = handled st1 @ q"
      "\<forall>k. prefix (filter (\<lambda>x. xc_streamId x = k) q)
              (filter (\<lambda>x. xc_streamId x = k) (concat ((as @ g # bs) @ waiting)))"
      "\<forall>u. r = Inr u \<longrightarrow> set (concat ((as @ g # bs) @ waiting)) \<subseteq> set q"
    by (elim conjE exE) (rule that)
  have other: "filter (\<lambda>y. xc_streamId y = xc_streamId x) (concat as) = []"
  proof -
    have "k \<notin> set ks1" "xc_streamId x = k" using dispatched.prems(3) ks parts(2) by simp_all
    with list_all2_left [OF parts(1)] have "\<forall>g \<in> set as. \<forall>y \<in> set g. xc_streamId y \<noteq> xc_streamId x"
      by metis
    then show ?thesis by (auto simp: filter_empty_conv)
  qed
  have "prefix (filter (\<lambda>y. xc_streamId y = k) (x # q))
      (filter (\<lambda>y. xc_streamId y = k) (concat ((as @ (x # g) # bs) @ waiting)))" for k
    using two(5) [rule_format, of k] other by (cases "xc_streamId x = k") auto
  moreover have "handled st' = handled st @ (x # q)"
    using two(4) dispatch_handles [OF dispatched.hyps(1)] by simp
  moreover have "prefix (records st) (records st')"
    using one(2) two(2) dispatched.hyps(1) prefix_order.trans by (metis snd_conv)
  moreover have "position st' (reactor_cursor_name rx) = position st (reactor_cursor_name rx)"
    using one(3) two(3) dispatched.hyps(1) by simp
  moreover have "\<forall>u. r = Inr u \<longrightarrow> set (concat ((as @ (x # g) # bs) @ waiting)) \<subseteq> set (x # q)"
    using two(6) by auto
  ultimately show ?case using two(1) by blast
next
  case (dispatch_failed x st err st1 waiting as g bs)
  then show ?case
    using dispatch_inv [of st x] dispatch_log [of st x] dispatch_position [of st x]
      dispatch_refuses [of x st err st1] by (intro conjI exI [of _ "[]"]) auto
qed auto

lemma commit_prepared_result:
  assumes "inv st" "position st (reactor_cursor_name rx) = c" "sorted_wrt (<) (c # map se_sequence es)"
    "commit_prepared ops (reactor_cursor_name rx) c es st = (r, st')"
  shows "inv st' \<and> records st' = records st \<and> handled st' = handled st \<and>
    position st' (reactor_cursor_name rx) = last (c # map se_sequence es) \<and>
    r = Inr (last (c # map se_sequence es))"
  using assms
proof (induction es arbitrary: c st)
  case (Cons e es)
  let ?name = "reactor_cursor_name rx"
  from Cons.prems(2,3) have "position st ?name \<le> se_sequence e" by simp
  from commitE [OF Cons.prems(1) this] obtain st1 where
    st1: "co_commitCursor ops st ?name (se_sequence e) = Inr st1" "inv st1" "records st1 = records st"
      "position st1 = (position st)(?name := se_sequence e)" by metis
  with Cons.prems(4) have rest: "commit_prepared ops ?name (se_sequence e) es st1 = (r, st')" by simp
  have "sorted_wrt (<) (se_sequence e # map se_sequence es)" using Cons.prems(3) by simp
  from Cons.IH [OF st1(2) _ this rest] st1 commit_handles [OF st1(1)] show ?case by simp
qed simp

end

section \<open>The groups of the concurrent mode\<close>

lemma group_input_groups:
  "distinct (keys (fold group_input xs [])) \<and>
   (\<forall>k. or_else (map_of (fold group_input xs []) k) [] = filter (\<lambda>x. xc_streamId x = k) xs)"
  by (induction xs rule: rev_induct) (auto simp: group_input_def)

lemma groups_of_keys:
  fixes m :: "(string, 'c reactor_dispatch_input list) jsmap"
  assumes "distinct (keys m)" "\<And>k. \<forall>x \<in> set (or_else (map_of m k) []). xc_streamId x = k"
  shows "list_all2 (\<lambda>k g. \<forall>x \<in> set g. xc_streamId x = k) (keys m) (map snd m)"
    "filter (\<lambda>x. xc_streamId x = k) (concat (map snd m)) = or_else (map_of m k) []"
proof -
  have each: "\<forall>x \<in> set g. xc_streamId x = j" if "(j, g) \<in> set m" for j g
    using assms(2) [of j] map_of_in_set [OF assms(1), of j g] that by simp
  then show "list_all2 (\<lambda>k g. \<forall>x \<in> set g. xc_streamId x = k) (keys m) (map snd m)"
    by (auto simp: list_all2_map1 list_all2_map2 list_all2_same)
  have "distinct (keys m') \<Longrightarrow> (\<And>j g. (j, g) \<in> set m' \<Longrightarrow> \<forall>x \<in> set g. xc_streamId x = j) \<Longrightarrow>
      filter (\<lambda>x. xc_streamId x = k) (concat (map snd m')) = or_else (map_of m' k) []"
    for m' :: "(string, 'c reactor_dispatch_input list) jsmap"
  proof (induction m')
    case (Cons p m')
    obtain j g where p: "p = (j, g)" by (cases p)
    have g: "filter (\<lambda>x. xc_streamId x = k) g = (if j = k then g else [])"
      using Cons.prems(2) [of j g] p by (auto simp: filter_id_conv filter_empty_conv)
    have "map_of m' j = None" using Cons.prems(1) p by (auto simp: map_of_eq_None_iff)
    with Cons p g show ?case by (cases "j = k") auto
  qed simp
  from this [OF assms(1) each] show "filter (\<lambda>x. xc_streamId x = k) (concat (map snd m)) = or_else (map_of m k) []" .
qed

lemma prepared_events:
  "prepare_events rx es = Inr prepared \<Longrightarrow>
   map fst prepared = es \<and>
   concat (map (\<lambda>(e, commands). event_inputs (reactor_cursor_name rx) e commands) prepared) = log_inputs rx es"
  by (induction es arbitrary: prepared) (auto simp: inputs_of_def split: sum.splits)

lemma command_groups_streams:
  assumes "prepare_events rx es = Inr prepared"
  shows "list_all2 (\<lambda>k g. \<forall>x \<in> set g. xc_streamId x = k) (keys (command_groups (reactor_cursor_name rx) prepared))
      (map snd (command_groups (reactor_cursor_name rx) prepared))"
    "distinct (keys (command_groups (reactor_cursor_name rx) prepared))"
    "filter (\<lambda>x. xc_streamId x = k) (concat (map snd (command_groups (reactor_cursor_name rx) prepared))) =
       filter (\<lambda>x. xc_streamId x = k) (log_inputs rx es)"
  using groups_of_keys [of "fold group_input (log_inputs rx es) []"] group_input_groups [of "log_inputs rx es"]
    prepared_events [OF assms] by (simp_all add: command_groups_def)

section \<open>Every run and every history\<close>

text \<open>A history: runs of the reactor in any of the allowed modes, and steps \<open>env\<close> of its world.\<close>

inductive reactor_history ::
  "nat set \<Rightarrow> ('st, 'err, 'e stored_event, 'z) cursor_ops_scheme \<Rightarrow> ('st, 'c, 'err) reactor_dispatch \<Rightarrow>
   ('e, 'c, 'err) reactor_definition \<Rightarrow> ('st \<Rightarrow> 'st \<Rightarrow> bool) \<Rightarrow> ('st \<Rightarrow> bool) \<Rightarrow> 'st \<Rightarrow> bool"
  for modes :: "nat set" and ops :: "('st, 'err, 'e stored_event, 'z) cursor_ops_scheme"
    and dispatch :: "('st, 'c, 'err) reactor_dispatch" and rx :: "('e, 'c, 'err) reactor_definition"
    and env :: "'st \<Rightarrow> 'st \<Rightarrow> bool" and start :: "'st \<Rightarrow> bool"
where
  started: "start st \<Longrightarrow> reactor_history modes ops dispatch rx env start st"
| moved:
    "reactor_history modes ops dispatch rx env start st \<Longrightarrow> env st st' \<Longrightarrow>
     reactor_history modes ops dispatch rx env start st'"
| ran:
    "reactor_history modes ops dispatch rx env start st \<Longrightarrow> n \<in> modes \<Longrightarrow>
     reactor_catch_up n ops dispatch rx st r st' \<Longrightarrow>
     reactor_history modes ops dispatch rx env start st'"

context reactor_world
begin

text \<open>
  What a run adds to what was handled, from the position \<open>c\<close> to the position \<open>p\<close>: per stream a
  prefix of what is pending, in the sequential mode a prefix of all of it, and every command of
  the events up to \<open>p\<close>.
\<close>

lemma reactor_run_result:
  assumes inv: "inv st" and run: "reactor_catch_up n ops dispatch rx st r st'"
    and c: "c = position st (reactor_cursor_name rx)"
    and pending: "pending = filter (\<lambda>r. c < se_sequence r) (records st)"
  obtains q p where "inv st'" "prefix (records st) (records st')"
    "position st' (reactor_cursor_name rx) = p" "handled st' = handled st @ q"
    "\<And>k. prefix (filter (\<lambda>x. xc_streamId x = k) q) (filter (\<lambda>x. xc_streamId x = k) (log_inputs rx pending))"
    "max 1 n = 1 \<Longrightarrow> prefix q (log_inputs rx pending)"
    "p = c \<or> p \<in> se_sequence ` set pending"
    "set (log_inputs rx (filter (\<lambda>r. se_sequence r \<le> p) pending)) \<subseteq> set q"
    "\<And>m. r = Inr m \<Longrightarrow> m = p \<and> p = last (c # map se_sequence pending)"
proof -
  let ?name = "reactor_cursor_name rx"
  have read: "pending_events ops ?name st = Inr (c, pending)"
    using pending_read [OF inv] c pending by simp
  have sorted: "sorted_wrt (<) (c # map se_sequence pending)"
    using ordered [OF inv] pending by (auto simp: sorted_wrt_map intro: sorted_wrt_filter)
  have above: "filter (\<lambda>r. se_sequence r \<le> c) pending = []"
    using pending by (auto simp: filter_empty_conv)
  have all: "filter (\<lambda>r. se_sequence r \<le> last (c # map se_sequence es)) es = es"
    if "sorted_wrt (<) (c # map se_sequence es)" for es :: "'b stored_event list"
    using that by (induction es rule: rev_induct) (auto simp: sorted_wrt_append filter_id_conv)
  from run show ?thesis
  proof cases
    case one_by_one
    then have loop: "reactor_loop ops dispatch rx c pending st = (r, st')"
      by (simp add: sequential_catch_up_def read)
    from reactor_loop_result [OF inv c [symmetric] sorted loop] obtain es1 es2 q where
      run: "inv st'" "prefix (records st) (records st')" "pending = es1 @ es2"
        "handled st' = handled st @ log_inputs rx es1 @ q"
        "position st' ?name = last (c # map se_sequence es1)" "prefix q (log_inputs rx es2)"
        "\<forall>m. r = Inr m \<longrightarrow> es2 = [] \<and> m = last (c # map se_sequence es1)"
      by (elim conjE exE) (rule that)
    have q: "prefix (log_inputs rx es1 @ q) (log_inputs rx pending)" using run(3,6) by simp
    have s1: "sorted_wrt (<) (c # map se_sequence es1)"
      and s2: "\<forall>e \<in> set es2. last (c # map se_sequence es1) < se_sequence e"
      using sorted run(3) by (cases es1 rule: rev_cases; auto simp: sorted_wrt_append)+
    have "filter (\<lambda>r. se_sequence r \<le> last (c # map se_sequence es1)) es2 = []"
      using s2 by (auto simp: filter_empty_conv)
    then have "filter (\<lambda>r. se_sequence r \<le> last (c # map se_sequence es1)) pending = es1"
      using all [OF s1] run(3) by simp
    moreover have "last (c # map se_sequence es1) = c \<or> last (c # map se_sequence es1) \<in> se_sequence ` set es1"
      by (cases es1 rule: rev_cases) auto
    ultimately show ?thesis
      using run q by (intro that [of "last (c # map se_sequence es1)" "log_inputs rx es1 @ q"])
        (auto intro: filter_prefix)
  next
    case (unread err)
    with read show ?thesis by simp
  next
    case (unprepared cursor pending' err)
    with read inv c above show ?thesis by (intro that [of c "[]"]) auto
  next
    case (undelivered cursor pending' prepared err)
    then have prep: "prepare_events rx pending = Inr prepared" using read by simp
    note groups = command_groups_streams [OF prep]
    from groups_run_result [OF undelivered(5) inv, of "keys (command_groups ?name prepared)"] groups(1,2)
    obtain q where q: "inv st'" "prefix (records st) (records st')" "position st' ?name = position st ?name"
      "handled st' = handled st @ q"
      "\<forall>k. prefix (filter (\<lambda>x. xc_streamId x = k) q)
         (filter (\<lambda>x. xc_streamId x = k) (concat (map snd (command_groups ?name prepared))))"
      by auto
    with undelivered(1,2) above c groups(3) show ?thesis by (intro that [of c q]) auto
  next
    case (side_by_side cursor pending' prepared u st1)
    then have prep: "prepare_events rx pending = Inr prepared" and cur: "cursor = c" using read by simp_all
    note groups = command_groups_streams [OF prep]
    from groups_run_result [OF side_by_side(4) inv, of "keys (command_groups ?name prepared)"] groups(1,2)
    obtain q where q: "inv st1" "prefix (records st) (records st1)" "position st1 ?name = position st ?name"
      "handled st1 = handled st @ q"
      "\<forall>k. prefix (filter (\<lambda>x. xc_streamId x = k) q)
         (filter (\<lambda>x. xc_streamId x = k) (concat (map snd (command_groups ?name prepared))))"
      "set (concat (map snd (command_groups ?name prepared))) \<subseteq> set q"
      by auto
    have "set (log_inputs rx pending) \<subseteq> set (concat (map snd (command_groups ?name prepared)))"
    proof
      fix x assume "x \<in> set (log_inputs rx pending)"
      then have "x \<in> set (filter (\<lambda>y. xc_streamId y = xc_streamId x) (log_inputs rx pending))" by simp
      then have "x \<in> set (filter (\<lambda>y. xc_streamId y = xc_streamId x) (concat (map snd (command_groups ?name prepared))))"
        by (simp only: groups(3))
      then show "x \<in> set (concat (map snd (command_groups ?name prepared)))" by simp
    qed
    with q(6) have "set (log_inputs rx pending) \<subseteq> set q" by blast
    moreover from commit_prepared_result [OF q(1) _ sorted, of r st'] side_by_side(5) q(3) c cur
      prepared_events [OF prep]
    have "inv st'" "records st' = records st1" "handled st' = handled st1"
      "position st' ?name = last (c # map se_sequence pending)" "r = Inr (last (c # map se_sequence pending))"
      by auto
    moreover have "last (c # map se_sequence pending) = c \<or>
        last (c # map se_sequence pending) \<in> se_sequence ` set pending"
      by (cases pending rule: rev_cases) auto
    ultimately show ?thesis
      using q groups(3) side_by_side(1) all [OF sorted]
      by (intro that [of "last (c # map se_sequence pending)" q]) auto
  qed
qed

text \<open>With a dispatcher and a reactor that never fail, every run completes.\<close>

lemma groups_run_total:
  assumes "groups_run limit dispatch waiting active st r st'" "\<And>x st. \<not> isl (fst (dispatch x st))"
  shows "r = Inr ()"
  using assms(1)
proof induction
  case (dispatch_failed x st err st1 waiting as g bs)
  with assms(2) [of x st] show ?case by simp
qed simp_all

lemma dispatch_inputs_total:
  assumes "\<And>x st. \<not> isl (fst (dispatch x st))"
  shows "\<exists>st'. dispatch_inputs dispatch xs st = (Inr (), st')"
proof (induction xs arbitrary: st)
  case (Cons x xs)
  then show ?case using assms [of x st] by (cases "dispatch x st"; cases "fst (dispatch x st)") auto
qed simp

lemma reactor_loop_total:
  assumes "\<And>x st. \<not> isl (fst (dispatch x st))" "\<And>e. \<not> isl (rx_react rx e)"
    and "inv st" "position st (reactor_cursor_name rx) = c" "sorted_wrt (<) (c # map se_sequence es)"
  shows "\<not> isl (fst (reactor_loop ops dispatch rx c es st))"
  using assms(3-)
proof (induction es arbitrary: c st)
  case (Cons e es)
  let ?name = "reactor_cursor_name rx"
  obtain commands where react: "rx_react rx e = Inr commands"
    using assms(2) [of e] by (cases "rx_react rx e") auto
  obtain st1 where d: "dispatch_inputs dispatch (event_inputs ?name e commands) st = (Inr (), st1)"
    using dispatch_inputs_total [OF assms(1)] by blast
  from dispatch_inputs_result [OF Cons.prems(1) d] Cons.prems(2,3)
  have st1: "inv st1" "position st1 ?name \<le> se_sequence e" by auto
  from commitE [OF this] obtain st2 where
    st2: "co_commitCursor ops st1 ?name (se_sequence e) = Inr st2" "inv st2"
      "position st2 = (position st1)(?name := se_sequence e)" by metis
  have "sorted_wrt (<) (se_sequence e # map se_sequence es)" using Cons.prems(3) by simp
  with Cons.IH [OF st2(2) _ this] st2(3) show ?case by (simp add: react d st2(1))
qed simp

lemma prepare_total: "(\<And>e. \<not> isl (rx_react rx e)) \<Longrightarrow> \<exists>prepared. prepare_events rx es = Inr prepared"
proof (induction es)
  case (Cons e es)
  from Cons.prems [of e] obtain commands where "rx_react rx e = Inr commands"
    by (cases "rx_react rx e") auto
  with Cons show ?case by auto
qed simp

lemma reactor_run_total:
  assumes ok: "\<And>x st. \<not> isl (fst (dispatch x st))" "\<And>e. \<not> isl (rx_react rx e)"
    and inv: "inv st" and run: "reactor_catch_up n ops dispatch rx st r st'"
  shows "\<exists>m. r = Inr m"
proof -
  let ?name = "reactor_cursor_name rx"
  let ?pending = "filter (\<lambda>r. position st ?name < se_sequence r) (records st)"
  note read = pending_read [OF inv, of ?name]
  have sorted: "sorted_wrt (<) (position st ?name # map se_sequence ?pending)"
    using ordered [OF inv] by (auto simp: sorted_wrt_map intro: sorted_wrt_filter)
  from run show ?thesis
  proof cases
    case one_by_one
    with reactor_loop_total [OF ok inv refl sorted] read show ?thesis
      by (cases r) (auto simp: sequential_catch_up_def)
  next
    case (unread err)
    with read show ?thesis by simp
  next
    case (unprepared cursor pending err)
    with prepare_total [OF ok(2), of pending] show ?thesis by auto
  next
    case (undelivered cursor pending prepared err)
    from groups_run_total [OF undelivered(5) ok(1)] show ?thesis by simp
  next
    case (side_by_side cursor pending prepared u st1)
    have cur: "cursor = position st ?name" and pend: "pending = ?pending"
      using read side_by_side(2) by simp_all
    have prep: "prepare_events rx ?pending = Inr prepared"
      using side_by_side(3) by (simp only: pend)
    note groups = command_groups_streams [OF prep]
    from groups_run_result [OF side_by_side(4) inv, of "keys (command_groups ?name prepared)"] groups(1,2)
    have "inv st1" "position st1 ?name = position st ?name" by auto
    from commit_prepared_result [OF this sorted, of r st'] side_by_side(5) cur prepared_events [OF prep]
    show ?thesis by auto
  qed
qed

end

lemma groups_run_exists:
  "0 < limit \<Longrightarrow> \<exists>r st'. groups_run limit dispatch waiting active st r st'"
proof (induction "length (concat active) + length (concat waiting) + 2 * length waiting + length active"
    arbitrary: waiting active st rule: less_induct)
  case less
  consider (finished) "active = []" "waiting = []"
    | (start) g gs where "active = []" "waiting = g # gs"
    | (ended) as where "active = [] # as"
    | (head) x g as where "active = (x # g) # as"
    by (cases active; cases waiting; cases "hd active") auto
  then show ?case
  proof cases
    case finished
    then show ?thesis using groups_run.all_done by metis
  next
    case (start g gs)
    with less.hyps [of "[] @ [g]" gs st] less.prems groups_run.group_started [of "[]" limit dispatch gs g]
    show ?thesis by fastforce
  next
    case (ended as)
    with less.hyps [of as waiting st] less.prems groups_run.group_ended [of limit dispatch waiting "[]" as]
    show ?thesis by fastforce
  next
    case (head x g as)
    obtain r1 st1 where d: "dispatch x st = (r1, st1)" by (cases "dispatch x st")
    show ?thesis
    proof (cases r1)
      case (Inl err)
      with d head groups_run.dispatch_failed [of dispatch x st err st1 limit waiting "[]" g as]
      show ?thesis by auto
    next
      case (Inr u)
      with d head less.hyps [of "g # as" waiting st1] less.prems
        groups_run.dispatched [of dispatch x st u st1 limit waiting "[]" g as]
      show ?thesis by fastforce
    qed
  qed
qed

lemma reactor_run_exists: "\<exists>r st'. reactor_catch_up n ops dispatch rx st r st'"
proof (cases "max 1 n = 1")
  case True
  then show ?thesis
    by (cases "sequential_catch_up ops dispatch rx st") (blast intro: reactor_catch_up.one_by_one)
next
  case False
  let ?name = "reactor_cursor_name rx"
  show ?thesis
  proof (cases "pending_events ops ?name st")
    case (Inl err)
    with False show ?thesis by (blast intro: reactor_catch_up.unread)
  next
    case (Inr p)
    obtain cursor pending where p: "p = (cursor, pending)" by (cases p)
    note read = Inr [unfolded p]
    show ?thesis
    proof (cases "prepare_events rx pending")
      case (Inl err)
      from reactor_catch_up.unprepared [OF False read Inl] show ?thesis by blast
    next
      case (Inr prepared)
      have "0 < max 1 n" by simp
      from groups_run_exists [OF this, of dispatch "map snd (command_groups ?name prepared)" "[]" st]
      obtain r st1 where g: "groups_run (max 1 n) dispatch (map snd (command_groups ?name prepared)) [] st r st1"
        by blast
      show ?thesis
      proof (cases r)
        case (Inl err)
        from reactor_catch_up.undelivered [OF False read Inr g [unfolded Inl]] show ?thesis by blast
      next
        case u: (Inr u)
        obtain r' st' where "commit_prepared ops ?name cursor (map fst prepared) st1 = (r', st')"
          by (cases "commit_prepared ops ?name cursor (map fst prepared) st1")
        from reactor_catch_up.side_by_side [OF False read Inr g [unfolded u] this] show ?thesis by blast
      qed
    qed
  qed
qed

end
