(* ===== verification/Reactor_Properties.thy ===== *)
theory Reactor_Properties
  imports Reactor_Laws
begin

text \<open>
  Every history of a reactor over the storages of the repository: in the order of the log, at
  least once, and effectively once for a receiver that ignores command ids it knows.
\<close>

section \<open>Every history\<close>

locale reactor_system = reactor_world ops inv records position dispatch rx handled
  for ops :: "('st, 'err, 'e stored_event, 'z) cursor_ops_scheme" and inv records position
    and dispatch :: "('st, 'c, 'err) reactor_dispatch" and rx handled +
  fixes env :: "'st \<Rightarrow> 'st \<Rightarrow> bool" and start :: "'st \<Rightarrow> bool"
  assumes starts: "start st \<Longrightarrow> inv st \<and> position st (reactor_cursor_name rx) = 0 \<and> handled st = []"
    and moves:
      "inv st \<Longrightarrow> env st st' \<Longrightarrow>
       inv st' \<and> prefix (records st) (records st') \<and> handled st' = handled st \<and>
       position st' (reactor_cursor_name rx) = position st (reactor_cursor_name rx)"
begin

definition passed :: "'st \<Rightarrow> bool" where
  "passed st \<longleftrightarrow>
     (position st (reactor_cursor_name rx) = 0 \<or>
      position st (reactor_cursor_name rx) \<in> se_sequence ` set (records st)) \<and>
     (\<forall>r \<in> set (records st). se_sequence r \<le> position st (reactor_cursor_name rx) \<longrightarrow>
        set (inputs_of rx r) \<subseteq> set (handled st))"

text \<open>New records come after the position.\<close>

lemma new_records_after:
  assumes "inv st'" "records st' = records st @ added" "r \<in> set added"
    "n = 0 \<or> n \<in> se_sequence ` set (records st)"
  shows "n < se_sequence r"
  using assms(4)
proof
  assume "n = 0"
  with positive [OF assms(1), of r] assms(2,3) show ?thesis by simp
next
  assume "n \<in> se_sequence ` set (records st)"
  with ordered [OF assms(1)] assms(2,3) show ?thesis by (auto simp: sorted_wrt_append)
qed

lemma passed_grows:
  assumes "passed st" "inv st'" "prefix (records st) (records st')"
    "set (handled st) \<subseteq> set (handled st')"
    "position st' (reactor_cursor_name rx) = position st (reactor_cursor_name rx)"
  shows "passed st'"
proof -
  obtain added where added: "records st' = records st @ added" using assms(3) by (auto simp: prefix_def)
  let ?n = "position st (reactor_cursor_name rx)"
  from assms(1) have n: "?n = 0 \<or> ?n \<in> se_sequence ` set (records st)"
    and old: "\<And>r. r \<in> set (records st) \<Longrightarrow> se_sequence r \<le> ?n \<Longrightarrow> set (inputs_of rx r) \<subseteq> set (handled st)"
    by (simp_all add: passed_def)
  have "set (inputs_of rx r) \<subseteq> set (handled st')" if r: "r \<in> set (records st')" "se_sequence r \<le> ?n" for r
  proof -
    from new_records_after [OF assms(2) added _ n, of r] r added have "r \<in> set (records st)" by auto
    from old [OF this r(2)] assms(4) show ?thesis by blast
  qed
  with n added assms(5) show ?thesis by (auto simp: passed_def)
qed

text \<open>In order: for every class of commands that a run delivers in order.\<close>

lemma run_in_order:
  assumes inv: "inv st" and ok: "passed st"
    and old: "prefix (filter P (first_occurrences (handled st))) (filter P (log_inputs rx (records st)))"
    and q: "prefix (filter P q) (filter P (log_inputs rx
      (filter (\<lambda>r. position st (reactor_cursor_name rx) < se_sequence r) (records st))))"
  shows "prefix (filter P (first_occurrences (handled st @ q))) (filter P (log_inputs rx (records st)))"
proof -
  let ?c = "position st (reactor_cursor_name rx)"
  let ?a = "log_inputs rx (filter (\<lambda>r. se_sequence r \<le> ?c) (records st))"
  let ?b = "log_inputs rx (filter (\<lambda>r. ?c < se_sequence r) (records st))"
  have split: "log_inputs rx (records st) = ?a @ ?b"
    using log_splits [OF inv, of ?c] log_inputs_simps(3) by metis
  have "set ?a \<subseteq> set (handled st)" using ok by (auto simp: passed_def log_inputs_def)
  then have "set (filter P ?a) \<subseteq> set (filter P (handled st))" by auto
  moreover have "distinct (filter P ?a @ filter P ?b)"
    using distinct_filter [OF distinct_log_inputs [OF event_ids [OF inv]], of P rx]
    by (simp only: split filter_append)
  ultimately show ?thesis
    using redelivery_in_order [of "filter P ?a" "filter P ?b" "filter P (handled st)" "filter P q"]
      old q by (simp only: split filter_append filter_first_occurrences)
qed

lemma history_delivers:
  assumes "reactor_history modes ops dispatch rx env start st"
  shows "inv st \<and> passed st \<and>
    (\<forall>k. prefix (filter (\<lambda>x. xc_streamId x = k) (first_occurrences (handled st)))
           (filter (\<lambda>x. xc_streamId x = k) (log_inputs rx (records st)))) \<and>
    ((\<forall>n \<in> modes. n \<le> 1) \<longrightarrow> prefix (first_occurrences (handled st)) (log_inputs rx (records st)))"
  using assms
proof induction
  case (started st)
  with starts [OF started] positive [of st] show ?case by (fastforce simp: passed_def)
next
  case (moved st st')
  from moves [OF _ moved.hyps(2)] moved.IH have
    m: "inv st'" "prefix (records st) (records st')" "handled st' = handled st"
      "position st' (reactor_cursor_name rx) = position st (reactor_cursor_name rx)" by blast+
  from passed_grows [OF _ m(1,2) _ m(4)] moved.IH m(3) have "passed st'" by simp
  moreover note prefix_log_inputs [OF m(2), of rx]
  ultimately show ?case
    using moved.IH m(1,3) by (auto intro: prefix_order.trans filter_prefix)
next
  case (ran st n r st')
  let ?name = "reactor_cursor_name rx"
  let ?pending = "filter (\<lambda>r. position st ?name < se_sequence r) (records st)"
  from ran.IH have inv: "inv st" and ok: "passed st" by blast+
  obtain q p where run: "inv st'" "prefix (records st) (records st')" "position st' ?name = p"
    "handled st' = handled st @ q"
    "\<And>k. prefix (filter (\<lambda>x. xc_streamId x = k) q) (filter (\<lambda>x. xc_streamId x = k) (log_inputs rx ?pending))"
    "max 1 n = 1 \<Longrightarrow> prefix q (log_inputs rx ?pending)"
    "p = position st ?name \<or> p \<in> se_sequence ` set ?pending"
    "set (log_inputs rx (filter (\<lambda>r. se_sequence r \<le> p) ?pending)) \<subseteq> set q"
    by (rule reactor_run_result [OF inv ran.hyps(3) refl refl]) (rule that)
  obtain added where added: "records st' = records st @ added" using run(2) by (auto simp: prefix_def)
  have p: "p = 0 \<or> p \<in> se_sequence ` set (records st)"
    using run(7) ok by (auto simp: passed_def)
  have "set (inputs_of rx e) \<subseteq> set (handled st')" if e: "e \<in> set (records st')" "se_sequence e \<le> p" for e
  proof -
    from new_records_after [OF run(1) added _ p] e added have e_old: "e \<in> set (records st)" by fastforce
    show ?thesis
    proof (cases "se_sequence e \<le> position st ?name")
      case True
      with ok e_old run(4) show ?thesis by (auto simp: passed_def)
    next
      case False
      with e_old e(2) have "e \<in> set (filter (\<lambda>r. se_sequence r \<le> p) ?pending)" by simp
      with run(8) have "set (inputs_of rx e) \<subseteq> set q" by (auto simp: log_inputs_def)
      with run(4) show ?thesis by auto
    qed
  qed
  with p run(3) added have "passed st'" by (auto simp: passed_def)
  moreover have "prefix (filter (\<lambda>x. xc_streamId x = k) (first_occurrences (handled st')))
      (filter (\<lambda>x. xc_streamId x = k) (log_inputs rx (records st')))" for k
  proof -
    from ran.IH have "prefix (filter (\<lambda>x. xc_streamId x = k) (first_occurrences (handled st)))
        (filter (\<lambda>x. xc_streamId x = k) (log_inputs rx (records st)))" by blast
    from run_in_order [OF inv ok this run(5)] run(4)
    show ?thesis by (auto intro: prefix_order.trans filter_prefix [OF prefix_log_inputs [OF run(2)]])
  qed
  moreover have "prefix (first_occurrences (handled st')) (log_inputs rx (records st'))"
    if "\<forall>n \<in> modes. n \<le> 1"
  proof -
    from that ran.hyps(2) have "n \<le> 1" by blast
    then have "max 1 n = 1" by simp
    from run(6) [OF this] have "prefix (first_occurrences (handled st @ q)) (log_inputs rx (records st))"
      using run_in_order [OF inv ok, of "\<lambda>_. True" q] ran.IH that by simp
    with run(4) show ?thesis by (auto intro: prefix_order.trans prefix_log_inputs [OF run(2)])
  qed
  ultimately show ?case using run(1) by blast
qed

end

section \<open>The storages of the repository\<close>

definition memory_cursors_inv :: "('ev, 'z) memory_cursors_scheme \<Rightarrow> bool" where
  "memory_cursors_inv st \<longleftrightarrow>
     sorted_wrt (<) (map se_sequence (mc_eventLog st)) \<and> distinct (map se_eventId (mc_eventLog st)) \<and>
     (\<forall>r \<in> set (mc_eventLog st). 0 < se_sequence r)"

interpretation memory_cursors: cursor_storage memory_projector_ops memory_cursors_inv mc_eventLog
    memory_cursor_value
  by unfold_locales
    (auto simp: memory_projector_ops_def memory_events_after_def memory_cursors_inv_def
      memory_commit_cursor_def memory_cursor_value_def fun_eq_iff)

definition consumer_inv :: "'e event_codec \<Rightarrow> 'z consumer_db_scheme \<Rightarrow> bool" where
  "consumer_inv ec db \<longleftrightarrow>
     rows_decode ec db \<and> sequences_grow db \<and> distinct (map er_eventId (db_events db)) \<and>
     (\<forall>row \<in> set (db_events db). 0 < er_sequence row)"

lemma logged_ids:
  assumes "distinct (map er_eventId (db_events db))"
  shows "distinct (map se_eventId (logged_records ec db))"
proof -
  have "distinct (map er_eventId rows) \<Longrightarrow>
      distinct (map se_eventId (concat (map (decoded_row ec) rows))) \<and>
      se_eventId ` set (concat (map (decoded_row ec) rows)) \<subseteq> er_eventId ` set rows" for rows
  proof (induction rows)
    case (Cons row rows)
    from decoded_row_fields [of _ ec row] Cons show ?case
      by (cases "decode_persisted_event ec row") (auto simp: decoded_row_def)
  qed simp
  moreover have "distinct (map er_eventId (filter P (db_events db)))" for P
    using assms by (simp add: distinct_map_filter)
  ultimately show ?thesis by (simp add: logged_records_def)
qed

lemma consumer_inv_cursors:
  "consumer_inv ec (sql_commit_cursor now db name n) = consumer_inv ec db"
  "logged_records ec (sql_commit_cursor now db name n) = logged_records ec db"
  by (simp_all add: consumer_inv_def sql_commit_cursor_def logged_records_def rows_decode_def sequences_grow_def)

interpretation sql_cursors: cursor_storage "sql_projector_ops fail ec now" "consumer_inv ec"
    "logged_records ec" sql_cursor
  for fail :: "sql_storage_error \<Rightarrow> 'err" and ec :: "'e event_codec"
    and now :: "'z consumer_db_scheme \<Rightarrow> string"
proof unfold_locales
  fix db :: "'z consumer_db_scheme" and name n r
  assume inv: "consumer_inv ec db"
  show "co_cursor (sql_projector_ops fail ec now) db name = Inr (sql_cursor db name)"
    by (simp add: sql_projector_ops_def)
  show "co_eventsAfter (sql_projector_ops fail ec now) db n =
      Inr (filter (\<lambda>r. n < se_sequence r) (logged_records ec db))"
    using inv by (simp add: sql_projector_ops_def consumer_inv_def all_events_of_log)
  show "sorted_wrt (<) (map se_sequence (logged_records ec db))"
    using inv by (intro log_sequences(1)) (simp add: consumer_inv_def)
  show "distinct (map se_eventId (logged_records ec db))"
    using inv by (simp add: consumer_inv_def logged_ids)
  show "0 < se_sequence r" if "r \<in> set (logged_records ec db)"
    using that inv by (auto simp: consumer_inv_def logged_records_def decoded_row_fields)
  show "\<exists>db'. co_commitCursor (sql_projector_ops fail ec now) db name n = Inr db' \<and> consumer_inv ec db' \<and>
      logged_records ec db' = logged_records ec db \<and> sql_cursor db' = (sql_cursor db)(name := n)"
    if "sql_cursor db name \<le> n"
    using that inv
    by (auto simp: sql_projector_ops_def consumer_inv_cursors fun_eq_iff)
qed

section \<open>Reactions over SQL\<close>

text \<open>
  What the dispatcher of a reactor may do to the database, and what the rest of the world may do
  between two runs: add events and move other cursors. \<open>handled\<close> lists the commands the dispatcher
  has accepted, in order.
\<close>

definition world_step ::
  "'e event_codec \<Rightarrow> string \<Rightarrow> 'z consumer_db_scheme \<Rightarrow> 'z consumer_db_scheme \<Rightarrow> bool" where
  "world_step ec name db db' \<longleftrightarrow>
     (consumer_inv ec db \<longrightarrow>
        consumer_inv ec db' \<and> prefix (logged_records ec db) (logged_records ec db') \<and>
        sql_cursor db' name = sql_cursor db name)"

definition reactor_dispatcher ::
  "'e event_codec \<Rightarrow> ('e, 'c, 'err) reactor_definition \<Rightarrow>
   ('z consumer_db_scheme, 'c, 'err) reactor_dispatch \<Rightarrow>
   ('z consumer_db_scheme \<Rightarrow> 'c reactor_dispatch_input list) \<Rightarrow> bool" where
  "reactor_dispatcher ec rx dispatch handled \<longleftrightarrow>
     (\<forall>x db. world_step ec (reactor_cursor_name rx) db (snd (dispatch x db)) \<and>
        handled (snd (dispatch x db)) =
          (if isl (fst (dispatch x db)) then handled db else handled db @ [x])) \<and>
     (\<forall>db rows. handled (db\<lparr>cd_cursors := rows\<rparr>) = handled db)"

definition world_moves ::
  "'e event_codec \<Rightarrow> ('e, 'c, 'err) reactor_definition \<Rightarrow>
   ('z consumer_db_scheme \<Rightarrow> 'c reactor_dispatch_input list) \<Rightarrow>
   'z consumer_db_scheme \<Rightarrow> 'z consumer_db_scheme \<Rightarrow> bool" where
  "world_moves ec rx handled db db' \<longleftrightarrow>
     world_step ec (reactor_cursor_name rx) db db' \<and> handled db' = handled db"

definition reactor_start ::
  "'e event_codec \<Rightarrow> ('e, 'c, 'err) reactor_definition \<Rightarrow>
   ('z consumer_db_scheme \<Rightarrow> 'c reactor_dispatch_input list) \<Rightarrow> 'z consumer_db_scheme \<Rightarrow> bool" where
  "reactor_start ec rx handled db \<longleftrightarrow>
     consumer_inv ec db \<and> sql_cursor db (reactor_cursor_name rx) = 0 \<and> handled db = []"

lemma sql_reactor_system:
  fixes dispatch :: "('z consumer_db_scheme, 'c, 'err) reactor_dispatch"
  assumes "reactor_dispatcher ec rx dispatch handled"
  shows "reactor_system (sql_projector_ops fail ec now) (consumer_inv ec) (logged_records ec) sql_cursor
    dispatch rx handled (world_moves ec rx handled) (reactor_start ec rx handled)"
proof unfold_locales
  fix db db' :: "'z consumer_db_scheme" and x :: "'c reactor_dispatch_input" and u :: unit and err :: 'err
    and name :: string and n :: int
  note d = assms [unfolded reactor_dispatcher_def world_step_def, THEN conjunct1, rule_format]
  assume "consumer_inv ec db"
  with d [of db x] show "consumer_inv ec (snd (dispatch x db))"
    "prefix (logged_records ec db) (logged_records ec (snd (dispatch x db)))"
    "sql_cursor (snd (dispatch x db)) (reactor_cursor_name rx) = sql_cursor db (reactor_cursor_name rx)"
    by blast+
next
  fix db db' :: "'z consumer_db_scheme" and x :: "'c reactor_dispatch_input" and u :: unit and err :: 'err
    and name :: string and n :: int
  note d = assms [unfolded reactor_dispatcher_def, THEN conjunct1, rule_format, THEN conjunct2]
  show "dispatch x db = (Inr u, db') \<Longrightarrow> handled db' = handled db @ [x]"
    "dispatch x db = (Inl err, db') \<Longrightarrow> handled db' = handled db"
    using d [of x db] by simp_all
  show "co_commitCursor (sql_projector_ops fail ec now) db name n = Inr db' \<Longrightarrow> handled db' = handled db"
    using assms by (auto simp: reactor_dispatcher_def sql_projector_ops_def sql_commit_cursor_def)
qed (auto simp: reactor_start_def world_moves_def world_step_def)

section \<open>A small world\<close>

record outbox_db = consumer_db +
  ob_handled :: "auto_name reactor_dispatch_input list"

definition outbox_codec :: "session_event event_codec" where
  "outbox_codec =
     \<lparr>ec_streamKind = ''session'', ec_tag = (\<lambda>_. ''event''), ec_encode = (\<lambda>_. ''{}''),
      ec_decode = (\<lambda>_. Inr (TurnStarted ''t1'' 0 None None None))\<rparr>"

definition outbox_row :: "int \<Rightarrow> string \<Rightarrow> event_row" where
  "outbox_row n key =
     \<lparr>er_sequence = n, er_eventId = key, er_correlationId = None, er_causationEventId = None,
      er_streamKind = ''session'', er_streamId = ''s1'', er_streamVersion = n, er_type = ''event'',
      er_occurredAt = ''now'', er_actor = None, er_payloadJson = ''{}''\<rparr>"

definition outbox_db0 :: outbox_db where
  "outbox_db0 =
     \<lparr>db_events = [outbox_row 1 ''e1'', outbox_row 2 ''e2''], db_lastSequence = 2, db_receipts = [],
      cd_cursors = [], ob_handled = []\<rparr>"

definition outbox_dispatch :: "(outbox_db, auto_name, sql_storage_error) reactor_dispatch" where
  "outbox_dispatch x db = (Inr (), db\<lparr>ob_handled := ob_handled db @ [x]\<rparr>)"

lemma outbox_dispatcher: "reactor_dispatcher outbox_codec auto_name_reactor outbox_dispatch ob_handled"
  by (simp add: reactor_dispatcher_def outbox_dispatch_def world_step_def consumer_inv_def
      rows_decode_def sequences_grow_def logged_records_def sql_cursor_def)

lemma outbox_start: "reactor_start outbox_codec auto_name_reactor ob_handled outbox_db0"
  by (auto simp: reactor_start_def outbox_db0_def consumer_inv_def rows_decode_def sequences_grow_def
      outbox_row_def decode_persisted_event_def outbox_codec_def sql_cursor_def)

lemma outbox_reacts: "\<not> isl (rx_react (auto_name_reactor :: (_, _, sql_storage_error) reactor_definition) e)"
  by (simp add: auto_name_reactor_def)

abbreviation outbox_ops :: "(outbox_db, sql_storage_error, session_event stored_event) projector_ops" where
  "outbox_ops \<equiv> sql_projector_ops id outbox_codec (\<lambda>_. ''now'')"

definition outbox_run :: "outbox_db \<Rightarrow> outbox_db" where
  "outbox_run db = snd (sequential_catch_up outbox_ops outbox_dispatch auto_name_reactor db)"

lemma outbox_runs:
  "reactor_catch_up 1 outbox_ops outbox_dispatch auto_name_reactor db
     (fst (sequential_catch_up outbox_ops outbox_dispatch auto_name_reactor db)) (outbox_run db)"
  by (rule reactor_catch_up.one_by_one) (simp_all add: outbox_run_def)

section \<open>Properties\<close>

text \<open>C28: In every history of a reactor over SQL, with runs of any concurrency,
  failures included, and a log that grows meanwhile: every command of an event the cursor has passed
  was handled; without repeated command ids the handled commands of each stream are a prefix of what
  the log asks of that stream, in its order; and when no run is concurrent they are a prefix of
  what the whole log asks. Restarts repeat commands only under ids the receiver knows.\<close>

theorem reactions_in_order:
  assumes "reactor_dispatcher ec rx dispatch handled"
    and "reactor_history modes (sql_projector_ops fail ec now) dispatch rx
      (world_moves ec rx handled) (reactor_start ec rx handled) db"
  shows "(\<forall>r \<in> set (logged_records ec db). se_sequence r \<le> sql_cursor db (reactor_cursor_name rx) \<longrightarrow>
      set (inputs_of rx r) \<subseteq> set (handled db)) \<and>
    (\<forall>sid. prefix (filter (\<lambda>x. xc_streamId x = sid) (first_occurrences (handled db)))
       (filter (\<lambda>x. xc_streamId x = sid) (log_inputs rx (logged_records ec db)))) \<and>
    ((\<forall>n \<in> modes. n \<le> 1) \<longrightarrow>
       prefix (first_occurrences (handled db)) (log_inputs rx (logged_records ec db)))"
  using reactor_system.history_delivers [OF sql_reactor_system [OF assms(1)] assms(2)]
  by (simp add: reactor_system.passed_def [OF sql_reactor_system [OF assms(1)]])

theorem reactions_in_order_witness:
  "prefix (first_occurrences (ob_handled (outbox_run outbox_db0)))
     (log_inputs (auto_name_reactor :: (_, _, sql_storage_error) reactor_definition)
        (logged_records outbox_codec (outbox_run outbox_db0))) \<and>
   length (ob_handled (outbox_run outbox_db0)) = 2"
proof -
  have "reactor_history {1} outbox_ops outbox_dispatch auto_name_reactor
      (world_moves outbox_codec auto_name_reactor ob_handled)
      (reactor_start outbox_codec auto_name_reactor ob_handled) outbox_db0"
    by (rule reactor_history.started) (rule outbox_start)
  from reactor_history.ran [OF this _ outbox_runs]
  have "reactor_history {1} outbox_ops outbox_dispatch auto_name_reactor
      (world_moves outbox_codec auto_name_reactor ob_handled)
      (reactor_start outbox_codec auto_name_reactor ob_handled) (outbox_run outbox_db0)" by simp
  moreover have "length (ob_handled (outbox_run outbox_db0)) = 2" by code_simp
  ultimately show ?thesis using reactions_in_order [OF outbox_dispatcher] by auto
qed

lemma last_pending:
  fixes es :: "'a stored_event list"
  assumes "sorted_wrt (<) (map se_sequence es)" "e \<in> set es"
  shows "se_sequence e \<le> last (c # map se_sequence (filter (\<lambda>r. c < se_sequence r) es))"
proof -
  let ?p = "filter (\<lambda>r. c < se_sequence r) es"
  have top: "sorted_wrt (<) (c # map se_sequence xs) \<Longrightarrow> x \<in> set (c # map se_sequence xs) \<Longrightarrow>
      x \<le> last (c # map se_sequence xs)" for x and xs :: "'a stored_event list"
    by (induction xs rule: rev_induct) (auto simp: sorted_wrt_append)
  have "sorted_wrt (<) (c # map se_sequence ?p)"
    using assms(1) by (auto simp: sorted_wrt_map intro: sorted_wrt_filter)
  from top [OF this, of c] top [OF this, of "se_sequence e"] assms(2) show ?thesis
    by (cases "c < se_sequence e") auto
qed

text \<open>C29: Whatever the concurrency, a catch-up has a run, and when neither the
  reactor nor the dispatcher fails every run returns the sequence of the last event it found, which
  is where its cursor then stands, and every command of the log up to there was handled.\<close>

theorem reactor_run_completes:
  assumes "reactor_dispatcher ec rx dispatch handled"
    and "consumer_inv ec db" "\<And>x db. \<not> isl (fst (dispatch x db))" "\<And>e. \<not> isl (rx_react rx e)"
  shows "(\<exists>r db'. reactor_catch_up n (sql_projector_ops fail ec now) dispatch rx db r db') \<and>
    (\<forall>r db'. reactor_catch_up n (sql_projector_ops fail ec now) dispatch rx db r db' \<longrightarrow>
       r = Inr (sql_cursor db' (reactor_cursor_name rx)) \<and>
       (\<forall>e \<in> set (logged_records ec db). se_sequence e \<le> sql_cursor db' (reactor_cursor_name rx)) \<and>
       (\<forall>e \<in> set (logged_records ec db). sql_cursor db (reactor_cursor_name rx) < se_sequence e \<longrightarrow>
          set (inputs_of rx e) \<subseteq> set (handled db')))"
proof (intro conjI allI impI)
  show "\<exists>r db'. reactor_catch_up n (sql_projector_ops fail ec now) dispatch rx db r db'"
    by (rule reactor_run_exists)
next
  fix r db'
  let ?pending = "filter (\<lambda>r. sql_cursor db (reactor_cursor_name rx) < se_sequence r) (logged_records ec db)"
  let ?c = "sql_cursor db (reactor_cursor_name rx)"
  assume run: "reactor_catch_up n (sql_projector_ops fail ec now) dispatch rx db r db'"
  note sys = sql_reactor_system [OF assms(1), of fail now]
  note world = sys [unfolded reactor_system_def, THEN conjunct1]
  from reactor_world.reactor_run_total [OF world assms(3,4,2) run] obtain m where m: "r = Inr m" by blast
  obtain q p where run': "sql_cursor db' (reactor_cursor_name rx) = p" "handled db' = handled db @ q"
    "set (log_inputs rx (filter (\<lambda>r. se_sequence r \<le> p) ?pending)) \<subseteq> set q"
    "\<And>m. r = Inr m \<Longrightarrow> m = p \<and> p = last (?c # map se_sequence ?pending)"
    by (rule reactor_world.reactor_run_result [OF world assms(2) run refl refl]) (rule that)
  have sorted: "sorted_wrt (<) (map se_sequence (logged_records ec db))"
    by (rule sql_cursors.ordered [OF assms(2)])
  from last_pending [OF sorted] run'(4) [OF m]
  have all: "\<forall>e \<in> set (logged_records ec db). se_sequence e \<le> p" by simp
  with run'(1,4) m show "r = Inr (sql_cursor db' (reactor_cursor_name rx))" 
    "\<forall>e \<in> set (logged_records ec db). se_sequence e \<le> sql_cursor db' (reactor_cursor_name rx)" by auto
  fix x
  show "\<forall>e \<in> set (logged_records ec db). ?c < se_sequence e \<longrightarrow> set (inputs_of rx e) \<subseteq> set (handled db')"
    using run'(2,3) all by (force simp: log_inputs_def)
qed

theorem reactor_run_completes_witness:
  "reactor_catch_up 1 outbox_ops outbox_dispatch auto_name_reactor outbox_db0 (Inr 2) (outbox_run outbox_db0) \<and>
   sql_cursor (outbox_run outbox_db0) (reactor_cursor_name
     (auto_name_reactor :: (_, _, sql_storage_error) reactor_definition)) = 2"
proof -
  have inv: "consumer_inv outbox_codec outbox_db0" by (rule outbox_start [unfolded reactor_start_def, THEN conjunct1])
  from reactor_run_completes [OF outbox_dispatcher inv _ outbox_reacts, of 1 id "\<lambda>_. ''now''"]
  have all: "\<forall>r db'. reactor_catch_up 1 outbox_ops outbox_dispatch auto_name_reactor outbox_db0 r db' \<longrightarrow>
      r = Inr (sql_cursor db' (reactor_cursor_name
        (auto_name_reactor :: (_, _, sql_storage_error) reactor_definition)))"
    by (simp add: outbox_dispatch_def)
  have "sql_cursor (outbox_run outbox_db0) (reactor_cursor_name
     (auto_name_reactor :: (_, _, sql_storage_error) reactor_definition)) = 2" by code_simp
  with all outbox_runs [of outbox_db0] show ?thesis by metis
qed

end
