(* ===== verification/Session_Queries.thy ===== *)
theory Session_Queries
  imports Sql_Session_Projector "HOL-Library.Char_ord" "HOL-Library.List_Lexorder"
begin

text \<open>
  Reading the read model: \<open>queries/sql-message-queries.ts\<close>, \<open>queries/sql-session-queries.ts\<close>,
  \<open>queries/session-queries.ts\<close> and \<open>projectors/read-model.ts\<close> of \<open>packages/domain/src\<close>.

  A timestamp column keeps the time its ISO text prints, so \<open>Date.parse\<close> of a column never fails
  and \<open>ORDER BY\<close> of such a column is the order of the times. Text columns sort by their bytes.
\<close>

section \<open>Records\<close>

record message_read =
  me_messageId :: string
  me_sessionId :: string
  me_turnId :: "string option"
  me_role :: string
  me_kind :: string
  me_contentJson :: string
  me_parentItemId :: "string option"
  me_createdAt :: int
  me_sequence :: int
  me_checkpointRevision :: "js_number option"
  me_checkpointFinal :: "bool option"

record thread_read =
  th_id :: string
  th_provider :: string
  th_nativeThreadId :: string
  th_nativeHeadId :: "string option"
  th_status :: thread_status
  th_firstTurnOrdinal :: "int option"
  th_lastTurnOrdinal :: "int option"
  th_createdAt :: int
  th_updatedAt :: int

record session_read =
  sn_sessionId :: string
  sn_parentSessionId :: "string option"
  sn_chatId :: string
  sn_projectId :: string
  sn_title :: string
  sn_titleProvenance :: title_provenance
  sn_status :: session_status
  sn_providerId :: string
  sn_model :: string
  sn_activeProviderThread :: "thread_read option"
  sn_runtimeMode :: runtime_mode
  sn_agentsJson :: "string option"
  sn_worktreeId :: "string option"
  sn_forkedFromSessionId :: "string option"
  sn_forkedFromMessageId :: "string option"
  sn_permissionMode :: permission_mode
  sn_toolSearch :: bool
  sn_archivedAt :: "int option"
  sn_createdAt :: int
  sn_updatedAt :: int

datatype query_error =
  SessionQueryNotFound string
| SessionQueryDecodeError string string

definition message_record :: "message_row \<Rightarrow> message_read" where
  "message_record row =
     \<lparr>me_messageId = mr_id row, me_sessionId = mr_sessionId row, me_turnId = mr_turnId row,
      me_role = mr_role row, me_kind = mr_kind row, me_contentJson = mr_contentJson row,
      me_parentItemId = mr_parentItemId row, me_createdAt = mr_createdAt row,
      me_sequence = mr_sequence row, me_checkpointRevision = mr_checkpointRevision row,
      me_checkpointFinal = mr_checkpointFinal row\<rparr>"

section \<open>Statements\<close>

text \<open>\<open>LIMIT n\<close>: a negative limit is none. \<open>slice(0, n)\<close>: a negative end counts from the back.\<close>

definition sql_limit :: "int \<Rightarrow> 'r list \<Rightarrow> 'r list" where
  "sql_limit n rows = (if n < 0 then rows else take (nat n) rows)"

definition slice_to :: "int \<Rightarrow> 'r list \<Rightarrow> 'r list" where
  "slice_to n rows = take (nat (if n < 0 then int (length rows) + n else n)) rows"

definition max_safe_integer :: int where "max_safe_integer = 2 ^ 53 - 1"

section \<open>Messages\<close>

datatype message_order = BySequence | ByCreatedAt

record message_list_input =
  ml_sessionId :: string
  ml_order :: message_order
  ml_descending :: bool
  ml_limit :: "int option"
  ml_kinds :: "string list option"
  ml_role :: "string option"
  ml_afterSequence :: "int option"
  ml_throughSequence :: "int option"
  ml_turnId :: "string option"
  ml_excludedTurnId :: "string option"
  ml_excludeIdPrefix :: "string option"
  ml_excludePendingContextLinks :: bool

definition messages_of :: "string \<Rightarrow> message_list_input" where
  "messages_of sid =
     \<lparr>ml_sessionId = sid, ml_order = BySequence, ml_descending = False, ml_limit = None,
      ml_kinds = None, ml_role = None, ml_afterSequence = None, ml_throughSequence = None,
      ml_turnId = None, ml_excludedTurnId = None, ml_excludeIdPrefix = None,
      ml_excludePendingContextLinks = False\<rparr>"

record context_link_row =
  kl_targetSessionId :: string
  kl_targetMessageId :: string
  kl_firstTurnId :: "string option"
  kl_invalidatedAt :: "int option"

text \<open>A condition that is not asked for holds; a comparison with \<open>NULL\<close> does not.\<close>

definition asked :: "'a option \<Rightarrow> ('a \<Rightarrow> bool) \<Rightarrow> bool" where
  "asked x p = (case x of None \<Rightarrow> True | Some a \<Rightarrow> p a)"

definition pending_context_link :: "message_list_input \<Rightarrow> context_link_row \<Rightarrow> message_row \<Rightarrow> bool" where
  "pending_context_link input l m \<longleftrightarrow>
     kl_targetMessageId l = mr_id m \<and> kl_targetSessionId l = ml_sessionId input \<and>
     (kl_firstTurnId l = None \<or>
      (ml_excludedTurnId input \<noteq> None \<and> kl_firstTurnId l = ml_excludedTurnId input)) \<and>
     kl_invalidatedAt l = None"

definition message_selected :: "context_link_row list \<Rightarrow> message_list_input \<Rightarrow> message_row \<Rightarrow> bool" where
  "message_selected links input m \<longleftrightarrow>
     mr_sessionId m = ml_sessionId input \<and>
     asked (ml_role input) (\<lambda>r. mr_role m = r) \<and>
     asked (ml_kinds input) (\<lambda>ks. mr_kind m \<in> set ks) \<and>
     asked (ml_afterSequence input) (\<lambda>n. mr_sequence m > n) \<and>
     asked (ml_throughSequence input) (\<lambda>n. mr_sequence m \<le> n) \<and>
     asked (ml_turnId input) (\<lambda>t. mr_turnId m = Some t) \<and>
     asked (ml_excludedTurnId input) (\<lambda>t. mr_turnId m = None \<or> mr_turnId m \<noteq> Some t) \<and>
     asked (ml_excludeIdPrefix input) (\<lambda>p. take (length p) (mr_id m) \<noteq> p) \<and>
     (ml_excludePendingContextLinks input \<longrightarrow> \<not> list_ex (\<lambda>l. pending_context_link input l m) links)"

definition message_sorted :: "message_list_input \<Rightarrow> message_row list \<Rightarrow> message_row list" where
  "message_sorted input rows =
     (let dir = (if ml_descending input then - 1 else 1);
          by_seq = sort_key (\<lambda>m. dir * mr_sequence m) rows
      in case ml_order input of
           BySequence \<Rightarrow> by_seq
         | ByCreatedAt \<Rightarrow> sort_key (\<lambda>m. dir * mr_createdAt m) by_seq)"

definition message_list ::
  "context_link_row list \<Rightarrow> read_model \<Rightarrow> message_list_input \<Rightarrow> message_read list" where
  "message_list links rm input =
     (if ml_kinds input = Some [] then []
      else
        let rows = message_sorted input (filter (message_selected links input) (rm_messages rm)) in
        map message_record (case ml_limit input of None \<Rightarrow> rows | Some n \<Rightarrow> sql_limit n rows))"

definition message_boundary ::
  "read_model \<Rightarrow> string \<Rightarrow> string option \<Rightarrow> string option \<Rightarrow> (string \<times> int) option" where
  "message_boundary rm sid message_id id_prefix =
     (case sort_key (\<lambda>m. - mr_sequence m)
             (filter (\<lambda>m. mr_sessionId m = sid \<and> asked message_id (\<lambda>i. mr_id m = i) \<and>
                asked id_prefix (\<lambda>p. take (length p) (mr_id m) \<noteq> p)) (rm_messages rm)) of
        [] \<Rightarrow> None
      | row # _ \<Rightarrow> Some (mr_id row, mr_sequence row))"

definition first_user_message ::
  "context_link_row list \<Rightarrow> read_model \<Rightarrow> string \<Rightarrow> message_read option" where
  "first_user_message links rm sid =
     (case message_list links rm ((messages_of sid)\<lparr>ml_role := Some ''user'', ml_limit := Some 1\<rparr>) of
        [] \<Rightarrow> None | m # _ \<Rightarrow> Some m)"

section \<open>Sessions\<close>

definition provider_thread_from_row :: "thread_row \<Rightarrow> thread_read" where
  "provider_thread_from_row p =
     \<lparr>th_id = hr_id p, th_provider = hr_provider p, th_nativeThreadId = hr_nativeThreadId p,
      th_nativeHeadId = hr_nativeHeadId p, th_status = hr_status p,
      th_firstTurnOrdinal = hr_firstTurnOrdinal p, th_lastTurnOrdinal = hr_lastTurnOrdinal p,
      th_createdAt = hr_createdAt p, th_updatedAt = hr_updatedAt p\<rparr>"

definition decode_session_row ::
  "session_row \<times> string option \<times> thread_row option \<Rightarrow> session_read" where
  "decode_session_row = (\<lambda>(s, parent, thread).
     \<lparr>sn_sessionId = sr_id s, sn_parentSessionId = parent, sn_chatId = sr_chatId s,
      sn_projectId = sr_projectId s, sn_title = sr_title s, sn_titleProvenance = sr_titleProvenance s,
      sn_status = sr_status s, sn_providerId = sr_providerId s, sn_model = sr_model s,
      sn_activeProviderThread = map_option provider_thread_from_row thread,
      sn_runtimeMode = sr_runtimeMode s, sn_agentsJson = sr_agentsJson s,
      sn_worktreeId = sr_worktreeId s, sn_forkedFromSessionId = sr_forkedFromSessionId s,
      sn_forkedFromMessageId = sr_forkedFromMessageId s, sn_permissionMode = sr_permissionMode s,
      sn_toolSearch = sr_toolSearch s, sn_archivedAt = sr_archivedAt s, sn_createdAt = sr_createdAt s,
      sn_updatedAt = sr_updatedAt s\<rparr>)"

text \<open>\<open>LEFT JOIN\<close>: one row for each match, or one with \<open>NULL\<close>.\<close>

definition left_join :: "('r \<Rightarrow> bool) \<Rightarrow> 'r list \<Rightarrow> 'r option list" where
  "left_join on rows = (case filter on rows of [] \<Rightarrow> [None] | matches \<Rightarrow> map Some matches)"

definition session_with_provider_thread ::
  "read_model \<Rightarrow> session_row \<Rightarrow> (session_row \<times> string option \<times> thread_row option) list" where
  "session_with_provider_thread rm s =
     concat (map (\<lambda>d. map (\<lambda>p. (s, map_option dr_parentSessionId d, p))
         (left_join (\<lambda>p. Some (hr_id p) = sr_activeProviderThreadId s) (rm_threads rm)))
       (left_join (\<lambda>d. dr_childSessionId d = sr_id s) (rm_delegations rm)))"

definition select_sessions ::
  "read_model \<Rightarrow> (session_row \<Rightarrow> bool) \<Rightarrow> (session_row \<times> string option \<times> thread_row option) list" where
  "select_sessions rm p = concat (map (session_with_provider_thread rm) (filter p (rm_sessions rm)))"

definition get_session :: "read_model \<Rightarrow> string \<Rightarrow> query_error + session_read" where
  "get_session rm sid =
     (case select_sessions rm (\<lambda>s. sr_id s = sid) of
        [] \<Rightarrow> Inl (SessionQueryNotFound sid)
      | row # _ \<Rightarrow> Inr (decode_session_row row))"

definition list_sessions :: "read_model \<Rightarrow> string \<Rightarrow> bool \<Rightarrow> session_read list" where
  "list_sessions rm project_id include_archived =
     map decode_session_row
       (sort_key (\<lambda>(s, _). - sr_updatedAt s) (sort_key (\<lambda>(s, _). sr_id s)
          (select_sessions rm (\<lambda>s. sr_projectId s = project_id \<and>
             (include_archived \<or> sr_archivedAt s = None)))))"

definition list_by_chat :: "read_model \<Rightarrow> string \<Rightarrow> bool \<Rightarrow> bool \<Rightarrow> session_read list" where
  "list_by_chat rm chat_id include_archived order_created =
     map decode_session_row
       (sort_key (\<lambda>(s, _). if order_created then sr_createdAt s else - sr_updatedAt s)
         (sort_key (\<lambda>(s, _). sr_id s)
           (select_sessions rm (\<lambda>s. sr_chatId s = chat_id \<and>
              (include_archived \<or> sr_archivedAt s = None)))))"

definition active_turn_count :: "read_model \<Rightarrow> int" where
  "active_turn_count rm =
     int (length (concat (map (\<lambda>t. filter (\<lambda>s. sr_id s = tr_sessionId t \<and> sr_archivedAt s = None)
                                      (rm_sessions rm))
            (filter (\<lambda>t. tr_status t \<in> set active_session_turn_statuses) (rm_turns rm)))))"

definition session_messages ::
  "context_link_row list \<Rightarrow> read_model \<Rightarrow> string \<Rightarrow> query_error + message_read list" where
  "session_messages links rm sid =
     (case get_session rm sid of
        Inl e \<Rightarrow> Inl e | Inr s \<Rightarrow> Inr (message_list links rm (messages_of sid)))"

definition transcript ::
  "context_link_row list \<Rightarrow> read_model \<Rightarrow> string \<Rightarrow> query_error + session_read \<times> message_read list" where
  "transcript links rm sid =
     (case get_session rm sid of
        Inl e \<Rightarrow> Inl e
      | Inr s \<Rightarrow> map_sum id (\<lambda>ms. (s, ms)) (session_messages links rm sid))"

section \<open>Pages of messages\<close>

record message_page_read =
  mp_items :: "message_read list"
  mp_olderSequence :: "int option"

definition page_rows :: "read_model \<Rightarrow> string \<Rightarrow> int \<Rightarrow> int \<Rightarrow> message_row list" where
  "page_rows rm sid before limit =
     sql_limit (limit + 1)
       (sort_key (\<lambda>m. - mr_sequence m)
          (filter (\<lambda>m. mr_sessionId m = sid \<and> mr_sequence m < before) (rm_messages rm)))"

definition message_page ::
  "read_model \<Rightarrow> string \<Rightarrow> int option \<Rightarrow> int \<Rightarrow> query_error + message_page_read" where
  "message_page rm sid before_sequence limit =
     (case get_session rm sid of
        Inl e \<Rightarrow> Inl e
      | Inr s \<Rightarrow>
          let records = map message_record (page_rows rm sid (or_else before_sequence max_safe_integer) limit);
              items = rev (slice_to limit records)
          in Inr \<lparr>mp_items = items,
                  mp_olderSequence =
                    (if int (length records) > limit
                     then (case items of [] \<Rightarrow> None | m # _ \<Rightarrow> Some (me_sequence m)) else None)\<rparr>)"

section \<open>Attempts\<close>

definition attempt_provider_turn ::
  "read_model \<Rightarrow> string \<Rightarrow> string \<Rightarrow> query_error + turn_reference option" where
  "attempt_provider_turn rm sid attempt_id =
     (case get_session rm sid of
        Inl e \<Rightarrow> Inl e
      | Inr s \<Rightarrow>
          Inr (Option.bind (find (\<lambda>a. ar_sessionId a = sid \<and> ar_id a = attempt_id) (rm_attempts rm))
                 ar_providerTurnJson))"

definition attempt_record :: "attempt_row \<Rightarrow> attempt_state" where
  "attempt_record a =
     \<lparr>att_id = ar_id a, att_ordinal = ar_ordinal a, att_reason = ar_reason a,
      att_status = ar_status a, att_startedAt = ar_startedAt a, att_completedAt = ar_completedAt a\<rparr>"

text \<open>The integer of a number that is a safe integer\<close>

definition safe_integer :: "js_number \<Rightarrow> int option" where
  "safe_integer n =
     (if is_safe_integer n then (case n of Finite q \<Rightarrow> Some \<lfloor>q\<rfloor> | _ \<Rightarrow> None) else None)"

definition attempt_limit :: "js_number option \<Rightarrow> int" where
  "attempt_limit limit =
     (case Option.bind limit safe_integer of None \<Rightarrow> 50 | Some n \<Rightarrow> max 1 (min 100 n))"

definition attempt_after :: "js_number option \<Rightarrow> int" where
  "attempt_after after = (case Option.bind after safe_integer of None \<Rightarrow> 0 | Some n \<Rightarrow> max 0 n)"

definition attempt_history ::
  "read_model \<Rightarrow> string \<Rightarrow> string \<Rightarrow> js_number option \<Rightarrow> js_number option \<Rightarrow>
   query_error + attempt_state list \<times> int option" where
  "attempt_history rm sid turn_id after limit =
     (case get_session rm sid of
        Inl e \<Rightarrow> Inl e
      | Inr s \<Rightarrow>
          let n = attempt_limit limit;
              rows = sql_limit (n + 1)
                (sort_key ar_ordinal
                   (filter (\<lambda>a. ar_sessionId a = sid \<and> ar_turnId a = turn_id \<and>
                      ar_ordinal a > attempt_after after) (rm_attempts rm)));
              items = map attempt_record (slice_to n rows)
          in Inr (items,
                  if int (length rows) > n
                  then (if items = [] then None else Some (att_ordinal (last items))) else None))"

record attempt_cursor =
  ac_turnOrdinal :: js_number
  ac_attemptOrdinal :: js_number

record attempt_summary = attempt_state +
  as_turnId :: string
  as_turnOrdinal :: int
  as_rolledBack :: bool

definition positive_safe :: "js_number \<Rightarrow> bool" where
  "positive_safe n \<longleftrightarrow> is_safe_integer n \<and> js_less (js_of_int 0) n"

definition attempt_summary_of :: "attempt_row \<times> turn_row \<Rightarrow> attempt_summary" where
  "attempt_summary_of = (\<lambda>(a, t).
     \<lparr>att_id = ar_id a, att_ordinal = ar_ordinal a, att_reason = ar_reason a,
      att_status = ar_status a, att_startedAt = ar_startedAt a, att_completedAt = ar_completedAt a,
      as_turnId = ar_turnId a, as_turnOrdinal = tr_ordinal t,
      as_rolledBack = (tr_status t = TurnRolledBack)\<rparr>)"

text \<open>The join with the turns, newest turn first and newest attempt of a turn first.\<close>

definition attempts_before ::
  "read_model \<Rightarrow> string \<Rightarrow> int \<Rightarrow> int \<Rightarrow> (attempt_row \<times> turn_row) list" where
  "attempts_before rm sid before_turn before_attempt =
     sort_key (\<lambda>(a, t). - tr_ordinal t) (sort_key (\<lambda>(a, t). - ar_ordinal a)
       (filter (\<lambda>(a, t). tr_ordinal t < before_turn \<or>
            (tr_ordinal t = before_turn \<and> ar_ordinal a < before_attempt))
          (concat (map (\<lambda>a. map (Pair a)
               (filter (\<lambda>t. tr_sessionId t = ar_sessionId a \<and> tr_id t = ar_turnId a) (rm_turns rm)))
             (filter (\<lambda>a. ar_sessionId a = sid) (rm_attempts rm))))))"

definition read_session_attempt_history ::
  "read_model \<Rightarrow> string \<Rightarrow> attempt_cursor option \<Rightarrow>
   query_error + attempt_summary list \<times> (int \<times> int) option" where
  "read_session_attempt_history rm sid before =
     (case get_session rm sid of
        Inl e \<Rightarrow> Inl e
      | Inr s \<Rightarrow>
          if (case before of None \<Rightarrow> False
              | Some c \<Rightarrow> \<not> (positive_safe (ac_turnOrdinal c) \<and> positive_safe (ac_attemptOrdinal c)))
          then Inl (SessionQueryDecodeError ''attempt'' ''Invalid attempt history cursor'')
          else
            let before_turn = or_else (Option.bind before (\<lambda>c. safe_integer (ac_turnOrdinal c))) max_safe_integer;
                before_attempt =
                  or_else (Option.bind before (\<lambda>c. safe_integer (ac_attemptOrdinal c))) max_safe_integer;
                rows = sql_limit 51 (attempts_before rm sid before_turn before_attempt);
                items = map attempt_summary_of (slice_to 50 rows)
            in Inr (items,
                    if int (length rows) > 50 \<and> items \<noteq> []
                    then Some (as_turnOrdinal (last items), att_ordinal (last items)) else None))"

end
