(* ===== verification/Timeline_Snapshot.thy ===== *)
theory Timeline_Snapshot
  imports Session_Queries Timeline
begin

text \<open>
  The bounded snapshot of a timeline: \<open>queries/session-timeline-snapshot.ts\<close> of
  \<open>packages/domain/src\<close>, and the pages of older messages that \<open>engine/session-domain.ts\<close> streams
  after it.

  The decoders of JSON text, \<open>localeCompare\<close> and the sizes in bytes of a JSON text are parameters
  (\<open>snapshot_env\<close>).
\<close>

record snapshot_env =
  sp_decoders :: timeline_decoders
  sp_collate :: "string \<Rightarrow> string \<Rightarrow> int"
  sp_queueBytes :: "queue_state \<Rightarrow> int"
  sp_projectionBytes :: "timeline_projection \<Rightarrow> int"

datatype snapshot_error = QueryFailed query_error | SnapshotDied string

section \<open>Constants\<close>

definition latest_timeline_message_limit :: int where "latest_timeline_message_limit = 100"
definition max_timeline_snapshot_projection_bytes :: int where
  "max_timeline_snapshot_projection_bytes = 900 * 1024"
definition max_pending_session_interactions :: int where "max_pending_session_interactions = 100"
definition max_session_queue_items :: int where "max_session_queue_items = 100"
definition max_session_queue_total_bytes :: int where "max_session_queue_total_bytes = 384 * 1024"

section \<open>Pages of the timeline\<close>

record timeline_page =
  pg_items :: "(timeline_message \<times> int) list"
  pg_olderMessageSequence :: "int option"

definition timeline_item :: "timeline_decoders \<Rightarrow> string \<Rightarrow> message_read \<Rightarrow> (timeline_message \<times> int) list" where
  "timeline_item d sid record =
     (case (dec_content d (me_contentJson record), decode_role (me_role record)) of
        (Some content, Some role) \<Rightarrow>
          [(\<lparr>tm_id = me_messageId record, tm_sessionId = sid, tm_role = role, tm_content = content,
             tm_createdAt = me_createdAt record\<rparr>, me_sequence record)]
      | _ \<Rightarrow> [])"

definition read_timeline_message_page ::
  "timeline_decoders \<Rightarrow> read_model \<Rightarrow> string \<Rightarrow> int option \<Rightarrow> int \<Rightarrow> query_error + timeline_page" where
  "read_timeline_message_page d rm sid before_sequence limit =
     (case message_page rm sid before_sequence limit of
        Inl e \<Rightarrow> Inl e
      | Inr page \<Rightarrow>
          Inr \<lparr>pg_items = concat (map (timeline_item d sid) (mp_items page)),
               pg_olderMessageSequence = mp_olderSequence page\<rparr>)"

section \<open>Pending interactions\<close>

text \<open>\<open>ORDER BY\<close> of a column that can be \<open>NULL\<close>, which sorts first.\<close>

definition order_by_nullable :: "('r \<Rightarrow> int option) \<Rightarrow> 'r list \<Rightarrow> 'r list" where
  "order_by_nullable f rows =
     filter (\<lambda>r. f r = None) rows @ sort_key (\<lambda>r. the (f r)) (filter (\<lambda>r. f r \<noteq> None) rows)"

definition order_by_nullable_desc :: "('r \<Rightarrow> int option) \<Rightarrow> 'r list \<Rightarrow> 'r list" where
  "order_by_nullable_desc f rows =
     sort_key (\<lambda>r. - the (f r)) (filter (\<lambda>r. f r \<noteq> None) rows) @ filter (\<lambda>r. f r = None) rows"

definition question_rows :: "read_model \<Rightarrow> string \<Rightarrow> input_row list" where
  "question_rows rm sid =
     sql_limit (max_pending_session_interactions + 1)
       (order_by_nullable ir_requestedSequence
          (filter (\<lambda>r. ir_sessionId r = sid \<and> ir_kind r = InputQuestion \<and>
             (ir_status r = InputPending \<or> (ir_status r = InputExpired \<and> ir_awaitingDismissal r = 1)) \<and>
             ir_requestJson r \<noteq> None) (rm_inputs rm)))"

definition permission_rows :: "read_model \<Rightarrow> string \<Rightarrow> input_row list" where
  "permission_rows rm sid =
     sql_limit (max_pending_session_interactions + 1)
       (order_by_nullable ir_requestedSequence
          (filter (\<lambda>r. ir_sessionId r = sid \<and> ir_kind r = InputPermission \<and>
             ir_status r \<in> {InputPending, InputExpired} \<and> ir_requestJson r \<noteq> None) (rm_inputs rm)))"

definition plan_rows :: "read_model \<Rightarrow> string \<Rightarrow> input_row list" where
  "plan_rows rm sid =
     sql_limit 100
       (order_by_nullable_desc ir_requestedSequence
          (filter (\<lambda>r. ir_sessionId r = sid \<and> ir_kind r = InputPlan \<and> ir_requestJson r \<noteq> None \<and>
             ir_status r \<in> {InputPending, InputExpired}) (rm_inputs rm)))"

text \<open>\<open>new Date(null)\<close> is the epoch.\<close>

definition plan_interaction :: "input_row \<Rightarrow> interaction" where
  "plan_interaction r =
     PlanInteraction (ir_requestId r) (or_else (ir_requestedAt r) 0)
       (if ir_status r = InputExpired
        then Some (if ir_awaitingDismissal r = 2 then ReasonUncertain else ReasonExpired) else None)"

definition question_interaction :: "timeline_decoders \<Rightarrow> input_row \<Rightarrow> interaction list" where
  "question_interaction d r =
     (case (Option.bind (ir_requestJson r) (dec_content d), ir_requestedAt r) of
        (Some (UserQuestionContent item qs parent), Some requested_at) \<Rightarrow>
          [QuestionInteraction item (ir_status r = InputExpired) qs requested_at]
      | _ \<Rightarrow> [])"

definition permission_interaction :: "timeline_decoders \<Rightarrow> input_row \<Rightarrow> interaction list" where
  "permission_interaction d r =
     (case Option.bind (ir_requestJson r) (dec_permission d) of
        None \<Rightarrow> []
      | Some request \<Rightarrow>
          [PermissionInteraction (pr_id request)
             (if ir_status r = InputExpired then request\<lparr>pr_expired := True\<rparr> else request)])"

fun interaction_at :: "interaction \<Rightarrow> int" where
  "interaction_at (PlanInteraction i tm r) = tm"
| "interaction_at (QuestionInteraction i e qs tm) = tm"
| "interaction_at (PermissionInteraction i r) = pr_requestedAt r"

definition interaction_compare :: "(string \<Rightarrow> string \<Rightarrow> int) \<Rightarrow> interaction \<Rightarrow> interaction \<Rightarrow> int" where
  "interaction_compare collate l r =
     (if interaction_at l - interaction_at r \<noteq> 0 then interaction_at l - interaction_at r
      else collate (snd (interaction_key l)) (snd (interaction_key r)))"

definition read_pending_interactions ::
  "snapshot_env \<Rightarrow> read_model \<Rightarrow> string \<Rightarrow> snapshot_error + interaction list" where
  "read_pending_interactions env rm sid =
     (if int (length (question_rows rm sid)) + int (length (permission_rows rm sid)) >
         max_pending_session_interactions
      then Inl (SnapshotDied ''pending interaction limit'')
      else
        Inr (sort_by (interaction_compare (sp_collate env))
          (map plan_interaction (plan_rows rm sid) @
           concat (map (question_interaction (sp_decoders env)) (question_rows rm sid)) @
           concat (map (permission_interaction (sp_decoders env)) (permission_rows rm sid)))))"

section \<open>The head\<close>

definition timeline_turn_status_of :: "turn_status \<Rightarrow> timeline_turn_status" where
  "timeline_turn_status_of st =
     (case st of TurnRolledBack \<Rightarrow> TurnIsRolledBack | TurnFinalizing \<Rightarrow> TurnIsFinalizing
      | TurnStarting \<Rightarrow> TurnIsStarting | TurnRunning \<Rightarrow> TurnIsRunning
      | TurnCompleted \<Rightarrow> TurnIsCompleted | TurnInterrupted \<Rightarrow> TurnIsInterrupted
      | TurnFailed \<Rightarrow> TurnIsFailed)"

definition timeline_phase_of :: "turn_phase \<Rightarrow> timeline_phase" where
  "timeline_phase_of p =
     (case p of PhaseRunning \<Rightarrow> TimelineRunning | PhaseInterruptRequested \<Rightarrow> TimelineInterruptRequested
      | PhaseInterruptAcknowledged \<Rightarrow> TimelineInterruptAcknowledged)"

definition active_turn_from_head :: "turn_row option \<Rightarrow> timeline_turn option" where
  "active_turn_from_head head =
     map_option (\<lambda>t.
       \<lparr>tt_id = tr_id t, tt_ordinal = tr_ordinal t, tt_status = timeline_turn_status_of (tr_status t),
        tt_phase = timeline_phase_of (or_else (tr_phase t) PhaseRunning),
        tt_attempt = \<lparr>ta_id = tr_activeAttemptId t, ta_ordinal = tr_attemptOrdinal t,
                      ta_reason = tr_attemptReason t\<rparr>,
        tt_providerThreadId = tr_providerThreadId t, tt_requestedAt = tr_requestedAt t,
        tt_completedAt = None\<rparr>) head"

definition head_turn :: "read_model \<Rightarrow> string \<Rightarrow> turn_row option" where
  "head_turn rm sid =
     (case sort_key (\<lambda>t. - tr_ordinal t)
             (filter (\<lambda>t. tr_sessionId t = sid \<and> tr_status t \<in> {TurnStarting, TurnRunning, TurnFinalizing})
                (rm_turns rm)) of
        [] \<Rightarrow> None | t # _ \<Rightarrow> Some t)"

definition head_turn_count :: "read_model \<Rightarrow> string \<Rightarrow> int" where
  "head_turn_count rm sid =
     or_else (sql_max (map tr_ordinal (filter (\<lambda>t. tr_sessionId t = sid) (rm_turns rm)))) 0"

section \<open>Queue and steps\<close>

definition queue_rows :: "read_model \<Rightarrow> string \<Rightarrow> queue_row list" where
  "queue_rows rm sid =
     sql_limit (max_session_queue_items + 1)
       (sort_key qr_queueOrder (sort_key qr_id (filter (\<lambda>q. qr_sessionId q = sid) (rm_queue rm))))"

definition queue_item :: "timeline_decoders \<Rightarrow> string \<Rightarrow> queue_row \<Rightarrow> queued_message list" where
  "queue_item d sid row =
     (case dec_input d (qr_inputJson row) of
        None \<Rightarrow> []
      | Some (input, actor) \<Rightarrow>
          [\<lparr>qm_id = qr_id row, qm_sessionId = sid, qm_input = input, qm_actor = actor,
            qm_position = qr_queueOrder row, qm_createdAt = qr_createdAt row,
            qm_updatedAt = qr_updatedAt row, qm_ready = qr_ready row\<rparr>])"

definition snapshot_step_rows :: "read_model \<Rightarrow> string \<Rightarrow> execution_step list" where
  "snapshot_step_rows rm sid =
     sql_limit 201
       (sort_key (\<lambda>s. - xs_createdAt s) (sort_key xs_id
          (map pr_step (filter (\<lambda>r. step_row.pr_sessionId r = sid) (rm_steps rm)))))"

section \<open>The budget\<close>

text \<open>\<open>messages.shift()\<close> while the projection is too large.\<close>

fun trim_messages ::
  "((timeline_message \<times> int) list \<Rightarrow> bool) \<Rightarrow> (timeline_message \<times> int) list \<Rightarrow> int option \<Rightarrow> bool \<Rightarrow>
   (timeline_message \<times> int) list \<times> int option \<times> bool" where
  "trim_messages too_large [] cursor omitted = ([], cursor, omitted)"
| "trim_messages too_large (m # ms) cursor omitted =
     (if too_large (m # ms)
      then trim_messages too_large ms
             (Some (case ms of [] \<Rightarrow> snd m + 1 | next_m # _ \<Rightarrow> snd next_m)) True
      else (m # ms, cursor, omitted))"

text \<open>\<open>executionSteps.pop()\<close> while the projection is too large.\<close>

function trim_steps ::
  "(execution_step list \<Rightarrow> bool \<Rightarrow> bool) \<Rightarrow> execution_step list \<Rightarrow> bool \<Rightarrow> execution_step list \<times> bool" where
  "trim_steps too_large steps truncated =
     (if steps \<noteq> [] \<and> too_large steps truncated then trim_steps too_large (butlast steps) True
      else (steps, truncated))"
  by pat_completeness auto
termination by (relation "measure (\<lambda>(f, steps, t). length steps)") auto

declare trim_steps.simps [simp del]

section \<open>The snapshot\<close>

record timeline_snapshot =
  ts_projection :: timeline_projection
  ts_olderMessageSequence :: "int option"
  ts_totalMessageCount :: int

definition make_projection ::
  "session_row \<Rightarrow> timeline_turn option \<Rightarrow> int \<Rightarrow> queued_message list \<Rightarrow> interaction list \<Rightarrow>
   (timeline_message \<times> int) list \<Rightarrow> execution_step list \<Rightarrow> bool \<Rightarrow> timeline_projection" where
  "make_projection s active_turn turn_count items interactions messages steps truncated =
     \<lparr>tp_messages = map fst messages, tp_executionSteps = Some steps,
      tp_executionStepsTruncated = Some truncated, tp_runtimeObservation = None,
      tp_olderMessageSequence = Some None, tp_status = sr_status s, tp_activeTurn = active_turn,
      tp_turnCount = turn_count, tp_queue = \<lparr>qs_items = items, qs_paused = sr_queuePaused s\<rparr>,
      tp_permissionMode = sr_permissionMode s, tp_runtimeMode = sr_runtimeMode s,
      tp_interactions = interactions\<rparr>"

definition fit_snapshot ::
  "snapshot_env \<Rightarrow> ((timeline_message \<times> int) list \<Rightarrow> execution_step list \<Rightarrow> bool \<Rightarrow> timeline_projection) \<Rightarrow>
   timeline_page \<Rightarrow> execution_step list \<Rightarrow> int \<Rightarrow> snapshot_error + timeline_snapshot" where
  "fit_snapshot env mk page step_rows message_count =
     (let too_large = (\<lambda>p. sp_projectionBytes env p > max_timeline_snapshot_projection_bytes);
          steps = take 200 step_rows; truncated = length step_rows > 200;
          (messages, budget_cursor, omitted) =
            trim_messages (\<lambda>ms. too_large (mk ms steps truncated)) (pg_items page)
              (pg_olderMessageSequence page) False;
          (kept, truncated') = trim_steps (\<lambda>ss t. too_large (mk messages ss t)) steps truncated;
          projection = mk messages kept truncated';
          older = (if omitted then budget_cursor else pg_olderMessageSequence page)
      in if too_large projection then Inl (SnapshotDied ''bounded snapshot limit'')
         else Inr \<lparr>ts_projection = projection\<lparr>tp_olderMessageSequence := Some older\<rparr>,
                   ts_olderMessageSequence = older, ts_totalMessageCount = message_count\<rparr>)"

definition read_timeline_snapshot ::
  "snapshot_env \<Rightarrow> read_model \<Rightarrow> string \<Rightarrow> snapshot_error + timeline_snapshot" where
  "read_timeline_snapshot env rm sid =
     (case find_session rm sid of
        None \<Rightarrow>
          (case get_session rm sid of
             Inl e \<Rightarrow> Inl (QueryFailed e)
           | Inr s \<Rightarrow> Inl (SnapshotDied ''Session query existed without a timeline head''))
      | Some s \<Rightarrow>
          (case read_timeline_message_page (sp_decoders env) rm sid None latest_timeline_message_limit of
             Inl e \<Rightarrow> Inl (QueryFailed e)
           | Inr page \<Rightarrow>
               let message_count = int (length (filter (\<lambda>m. mr_sessionId m = sid) (rm_messages rm)));
                   queued = queue_rows rm sid;
                   items = concat (map (queue_item (sp_decoders env) sid) queued)
               in if int (length queued) > max_session_queue_items
                  then Inl (SnapshotDied ''bounded queue item limit'')
                  else if sp_queueBytes env \<lparr>qs_items = items, qs_paused = False\<rparr> > max_session_queue_total_bytes
                  then Inl (SnapshotDied ''bounded queue byte limit'')
                  else
                    (case read_pending_interactions env rm sid of
                       Inl e \<Rightarrow> Inl e
                     | Inr interactions \<Rightarrow>
                         fit_snapshot env
                           (make_projection s (active_turn_from_head (head_turn rm sid))
                              (head_turn_count rm sid) items interactions)
                           page (snapshot_step_rows rm sid) message_count)))"

end
