(* ===== verification/Message_Pages.thy ===== *)
theory Message_Pages
  imports Timeline_Snapshot "HOL-Library.Multiset"
begin

text \<open>
  Paging: the stream of older messages of \<open>engine/session-domain.ts\<close> ends, never stalls, and gives
  every message exactly once; the snapshot and the stream after it leave no message out.
\<close>

section \<open>One page\<close>

definition rows_before :: "read_model \<Rightarrow> string \<Rightarrow> int \<Rightarrow> message_row list" where
  "rows_before rm sid before =
     sort_key mr_sequence (filter (\<lambda>m. mr_sessionId m = sid \<and> mr_sequence m < before) (rm_messages rm))"

text \<open>The messages of a session have different sequences.\<close>

definition sequences_differ :: "read_model \<Rightarrow> string \<Rightarrow> bool" where
  "sequences_differ rm sid \<longleftrightarrow>
     distinct (map mr_sequence (filter (\<lambda>m. mr_sessionId m = sid) (rm_messages rm)))"

lemma rev_sort_key:
  fixes f :: "'a \<Rightarrow> int"
  assumes "distinct (map f xs)"
  shows "sort_key (\<lambda>x. - f x) xs = rev (sort_key f xs)"
proof (rule properties_for_sort_key)
  show "mset (rev (sort_key f xs)) = mset xs" by simp
  have one: "distinct (map f ys) \<Longrightarrow> k \<in> set ys \<Longrightarrow> filter (\<lambda>x. - f k = - f x) ys = [k]" for k and ys :: "'a list"
    by (induction ys) (auto simp: filter_empty_conv, metis imageI)
  have "distinct (map f (rev (sort_key f xs)))"
    using assms by (metis mset_eq_imp_distinct_iff mset_map mset_rev mset_sort)
  with assms show "filter (\<lambda>x. - f k = - f x) (rev (sort_key f xs)) = filter (\<lambda>x. - f k = - f x) xs"
    if "k \<in> set (rev (sort_key f xs))" for k
    using that one [of xs k] one [of "rev (sort_key f xs)" k] by simp
  have "sorted (map f ys) \<Longrightarrow> sorted (map (\<lambda>x. - f x) (rev ys))" for ys :: "'a list"
    by (induction ys) (auto simp: sorted_append)
  then show "sorted (map (\<lambda>x. - f x) (rev (sort_key f xs)))" by simp
qed

lemma distinct_map_filter_and:
  "distinct (map f (filter P xs)) \<Longrightarrow> distinct (map f (filter (\<lambda>x. P x \<and> Q x) xs))"
  by (induction xs) (auto split: if_splits)

lemma rows_before_props:
  "set (rows_before rm sid before) = {m \<in> set (rm_messages rm). mr_sessionId m = sid \<and> mr_sequence m < before}"
  "sorted (map mr_sequence (rows_before rm sid before))"
  "sequences_differ rm sid \<Longrightarrow> distinct (map mr_sequence (rows_before rm sid before))"
proof -
  show "set (rows_before rm sid before) = {m \<in> set (rm_messages rm). mr_sessionId m = sid \<and> mr_sequence m < before}"
    by (auto simp: rows_before_def)
  show "sorted (map mr_sequence (rows_before rm sid before))" by (simp add: rows_before_def)
  assume "sequences_differ rm sid"
  then have "distinct (map mr_sequence (filter (\<lambda>m. mr_sessionId m = sid \<and> mr_sequence m < before) (rm_messages rm)))"
    unfolding sequences_differ_def by (rule distinct_map_filter_and)
  moreover have "mset (map mr_sequence (rows_before rm sid before)) =
      mset (map mr_sequence (filter (\<lambda>m. mr_sessionId m = sid \<and> mr_sequence m < before) (rm_messages rm)))"
    by (simp add: rows_before_def)
  ultimately show "distinct (map mr_sequence (rows_before rm sid before))"
    using mset_eq_imp_distinct_iff by blast
qed

lemma rows_before_filter:
  assumes "c \<le> before"
  shows "rows_before rm sid c = filter (\<lambda>m. mr_sequence m < c) (rows_before rm sid before)"
proof -
  have both: "(\<lambda>m. mr_sessionId m = sid \<and> mr_sequence m < before \<and> mr_sequence m < c) =
      (\<lambda>m. mr_sessionId m = sid \<and> mr_sequence m < c)" using assms by auto
  show ?thesis by (simp add: rows_before_def filter_sort both)
qed

text \<open>A page is the last \<open>n\<close> rows before the cursor, and its cursor the first of them.\<close>

lemma message_page_eq:
  assumes "get_session rm sid = Inr s" "sequences_differ rm sid" "0 < n"
    and "before = or_else cursor max_safe_integer"
  shows "message_page rm sid cursor (int n) = Inr
    \<lparr>mp_items = map message_record (drop (length (rows_before rm sid before) - n) (rows_before rm sid before)),
     mp_olderSequence =
       (if n < length (rows_before rm sid before)
        then Some (mr_sequence (rows_before rm sid before ! (length (rows_before rm sid before) - n))) else None)\<rparr>"
proof -
  let ?rows = "rows_before rm sid before"
  have "distinct (map mr_sequence (filter (\<lambda>m. mr_sessionId m = sid \<and> mr_sequence m < before) (rm_messages rm)))"
    using assms(2) unfolding sequences_differ_def by (rule distinct_map_filter_and)
  then have rows: "page_rows rm sid before (int n) = take (Suc n) (rev ?rows)"
    by (simp add: page_rows_def rows_before_def rev_sort_key sql_limit_def nat_add_distrib)
  have items: "rev (slice_to (int n) (map message_record (take (Suc n) (rev ?rows)))) =
      map message_record (drop (length ?rows - n) ?rows)"
    by (simp add: slice_to_def take_map rev_map rev_take min_def)
  have first: "n < length ?rows \<Longrightarrow> drop (length ?rows - n) ?rows =
      ?rows ! (length ?rows - n) # drop (Suc (length ?rows - n)) ?rows"
    using assms(3) by (intro Cons_nth_drop_Suc [symmetric]) simp
  show ?thesis
    using assms(1) first items
    by (simp add: message_page_def rows Let_def assms(4) [symmetric] message_record_def min_def
        del: rev_rev_ident)
qed

section \<open>The stream of older messages\<close>

datatype history_end = HistoryDone | HistoryFailed query_error | HistoryStuck

lemma page_cursor_row:
  assumes "message_page rm sid (Some before) n = Inr page" "mp_olderSequence page = Some older"
  shows "\<exists>m \<in> set (rm_messages rm). mr_sessionId m = sid \<and> mr_sequence m = older \<and> older < before"
proof -
  let ?records = "map message_record (page_rows rm sid before n)"
  from assms obtain m where m: "m \<in> set (slice_to n ?records)" "me_sequence m = older"
    by (auto simp: message_page_def Let_def split: sum.splits if_splits list.splits)
      (metis in_set_conv_decomp append_Cons append_Nil set_rev)
  then have "m \<in> set ?records" by (auto simp: slice_to_def dest: in_set_takeD)
  then obtain r where r: "r \<in> set (page_rows rm sid before n)" "m = message_record r" by auto
  from r(1) have "r \<in> set (rm_messages rm) \<and> mr_sessionId r = sid \<and> mr_sequence r < before"
    by (auto simp: page_rows_def sql_limit_def split: if_splits dest: in_set_takeD)
  with r(2) m(2) show ?thesis by (auto simp: message_record_def)
qed

lemma length_filter_less:
  "x \<in> set xs \<Longrightarrow> Q x \<Longrightarrow> \<not> P x \<Longrightarrow> (\<And>y. P y \<Longrightarrow> Q y) \<Longrightarrow> length (filter P xs) < length (filter Q xs)"
proof (induction xs)
  case (Cons a xs)
  have "length (filter P xs) \<le> length (filter Q xs)" using Cons.prems(4) by (induction xs) auto
  with Cons show ?case by auto
qed simp

text \<open>
  \<open>Stream.paginate\<close>: one chunk for each page, older and older. Every page is a read of its own, made
  when the consumer asks for it: \<open>rm\<close> is what the next read sees and \<open>moments\<close> what the reads after
  it see, in order; the last of them is what all further reads see.
\<close>

function history_pages ::
  "timeline_decoders \<Rightarrow> read_model \<Rightarrow> read_model list \<Rightarrow> string \<Rightarrow> int \<Rightarrow>
   ((timeline_message \<times> int) list \<times> int option) list \<times> history_end" where
  "history_pages d rm moments sid before =
     (case read_timeline_message_page d rm sid (Some before) latest_timeline_message_limit of
        Inl e \<Rightarrow> ([], HistoryFailed e)
      | Inr page \<Rightarrow>
          (case pg_olderMessageSequence page of
             None \<Rightarrow> ([(pg_items page, None)], HistoryDone)
           | Some older \<Rightarrow>
               if older \<ge> before then ([], HistoryStuck)
               else
                 (case history_pages d (hd (moments @ [rm])) (tl moments) sid older of
                    (chunks, fin) \<Rightarrow> ((pg_items page, Some older) # chunks, fin))))"
  by pat_completeness auto
termination
proof (relation "measures [\<lambda>(d, rm, moments, sid, before). length moments, \<lambda>(d, rm, moments, sid, before).
    length (filter (\<lambda>m. mr_sessionId m = sid \<and> mr_sequence m < before) (rm_messages rm))]")
  fix d rm moments sid before page older
  assume page: "read_timeline_message_page d rm sid (Some before) latest_timeline_message_limit = Inr page"
    "pg_olderMessageSequence page = Some older" and less: "\<not> before \<le> older"
  then obtain mp where "message_page rm sid (Some before) latest_timeline_message_limit = Inr mp"
    "mp_olderSequence mp = Some older"
    by (auto simp: read_timeline_message_page_def split: sum.splits)
  from page_cursor_row [OF this] obtain m where
    "m \<in> set (rm_messages rm)" "mr_sessionId m = sid" "mr_sequence m = older" "older < before" by blast
  then have "length (filter (\<lambda>m. mr_sessionId m = sid \<and> mr_sequence m < older) (rm_messages rm)) <
      length (filter (\<lambda>m. mr_sessionId m = sid \<and> mr_sequence m < before) (rm_messages rm))"
    by (intro length_filter_less [of m]) auto
  then show "((d, hd (moments @ [rm]), tl moments, sid, older), d, rm, moments, sid, before) \<in>
    measures [\<lambda>(d, rm, moments, sid, before). length moments, \<lambda>(d, rm, moments, sid, before).
      length (filter (\<lambda>m. mr_sessionId m = sid \<and> mr_sequence m < before) (rm_messages rm))]"
    by (cases moments) simp_all
qed simp

declare history_pages.simps [simp del]

lemma page_exists:
  assumes "get_session rm sid = Inr s"
  obtains page where "read_timeline_message_page d rm sid before n = Inr page"
  using assms that by (auto simp: read_timeline_message_page_def message_page_def Let_def)

lemma page_older_less:
  assumes "read_timeline_message_page d rm sid (Some before) n = Inr page"
    "pg_olderMessageSequence page = Some older"
  shows "older < before"
  using assms page_cursor_row [of rm sid before n _ older]
  by (auto simp: read_timeline_message_page_def split: sum.splits)

lemma next_moments: "set (hd (moments @ [rm]) # tl moments) \<subseteq> set (rm # moments)"
  by (cases moments) auto

lemma history_stops:
  assumes "\<forall>m \<in> set (rm # moments). \<exists>s. get_session m sid = Inr s"
  shows "snd (history_pages d rm moments sid before) = HistoryDone"
  using assms
proof (induction d rm moments sid before rule: history_pages.induct)
  case (1 d rm moments sid before)
  from "1.prems" obtain s where "get_session rm sid = Inr s" by auto
  then obtain page where page: "read_timeline_message_page d rm sid (Some before) latest_timeline_message_limit = Inr page"
    by (rule page_exists)
  show ?case
  proof (cases "pg_olderMessageSequence page")
    case None
    then show ?thesis by (simp add: history_pages.simps [of d rm moments sid before] page)
  next
    case (Some older)
    from page_older_less [OF page Some] have less: "\<not> before \<le> older" by simp
    have "\<forall>m \<in> set (hd (moments @ [rm]) # tl moments). \<exists>s. get_session m sid = Inr s"
      using "1.prems" next_moments [of moments rm] by blast
    from "1.IH" [OF page Some less this] show ?thesis
      by (cases "history_pages d (hd (moments @ [rm])) (tl moments) sid older")
        (simp add: history_pages.simps [of d rm moments sid before] page Some less)
  qed
qed

section \<open>What the pages hold\<close>

definition items_before :: "timeline_decoders \<Rightarrow> read_model \<Rightarrow> string \<Rightarrow> int \<Rightarrow> (timeline_message \<times> int) list" where
  "items_before d rm sid before = concat (map (\<lambda>m. timeline_item d sid (message_record m)) (rows_before rm sid before))"

lemma timeline_item_sequence: "x \<in> set (timeline_item d sid r) \<Longrightarrow> snd x = me_sequence r"
  by (auto simp: timeline_item_def split: option.splits)

lemma timeline_item_cases:
  obtains "timeline_item d sid r = []" | x where "timeline_item d sid r = [x]" "snd x = me_sequence r"
  using timeline_item_sequence [of _ d sid r] that
  by (cases "dec_content d (me_contentJson r)"; cases "decode_role (me_role r)") (auto simp: timeline_item_def)

lemma items_sorted:
  assumes "sequences_differ rm sid"
  shows "sorted_wrt (<) (map snd (items_before d rm sid before))"
proof -
  have rows: "sorted_wrt (<) (map mr_sequence (rows_before rm sid before))"
    using rows_before_props(2,3) assms by (simp add: strict_sorted_iff)
  have "sorted_wrt (<) (map mr_sequence ms) \<Longrightarrow>
      sorted_wrt (<) (map snd (concat (map (\<lambda>m. timeline_item d sid (message_record m)) ms)))" for ms
  proof (induction ms)
    case (Cons m ms)
    show ?case
      by (rule timeline_item_cases [of d sid "message_record m"])
        (use Cons timeline_item_sequence in \<open>auto simp: message_record_def\<close>)
  qed simp
  from this [OF rows] show ?thesis by (simp add: items_before_def)
qed

lemma items_before_filter:
  assumes "c \<le> before"
  shows "items_before d rm sid c = filter (\<lambda>x. snd x < c) (items_before d rm sid before)"
proof -
  note rows = rows_before_filter [OF assms, of rm sid]
  have "filter (\<lambda>x. snd x < c) (concat (map (\<lambda>m. timeline_item d sid (message_record m)) ms)) =
      concat (map (\<lambda>m. timeline_item d sid (message_record m)) (filter (\<lambda>m. mr_sequence m < c) ms))" for ms
  proof (induction ms)
    case (Cons m ms)
    show ?case
      by (rule timeline_item_cases [of d sid "message_record m"]) (use Cons in \<open>auto simp: message_record_def\<close>)
  qed simp
  then show ?thesis by (simp add: items_before_def rows)
qed

lemma page_items:
  assumes "get_session rm sid = Inr s" "sequences_differ rm sid" "0 < n"
    and "before = or_else cursor max_safe_integer"
    and page: "read_timeline_message_page d rm sid cursor (int n) = Inr page"
  shows "case pg_olderMessageSequence page of
      None \<Rightarrow> pg_items page = items_before d rm sid before
    | Some older \<Rightarrow> older < before \<and>
        items_before d rm sid before = items_before d rm sid older @ pg_items page"
proof -
  let ?rows = "rows_before rm sid before" let ?k = "length (rows_before rm sid before) - n"
  note eq = message_page_eq [OF assms(1-4)]
  show ?thesis
  proof (cases "n < length ?rows")
    case False
    with page eq show ?thesis
      by (auto simp: read_timeline_message_page_def items_before_def comp_def)
  next
    case True
    let ?older = "mr_sequence (?rows ! ?k)"
    from True assms(3) have k: "?k < length ?rows" by simp
    have strict: "sorted_wrt (<) (map mr_sequence ?rows)"
      using rows_before_props(2,3) assms(2) by (simp add: strict_sorted_iff)
    have "filter (\<lambda>m. mr_sequence m < ?older) ?rows = take ?k ?rows"
    proof -
      have "\<forall>m \<in> set (take ?k ?rows). mr_sequence m < ?older"
        using strict k by (fastforce simp: in_set_conv_nth sorted_wrt_map dest: sorted_wrt_nth_less)
      moreover have "\<forall>m \<in> set (drop ?k ?rows). \<not> mr_sequence m < ?older"
      proof
        fix m assume "m \<in> set (drop ?k ?rows)"
        then obtain i where i: "i < length (drop ?k ?rows)" "m = ?rows ! (?k + i)"
          by (auto simp: in_set_conv_nth)
        then have "?k + i < length ?rows" by simp
        with rows_before_props(2) [of rm sid before] sorted_nth_mono [of "map mr_sequence ?rows" ?k "?k + i"] i(2)
        show "\<not> mr_sequence m < ?older" by simp
      qed
      ultimately have "filter (\<lambda>m. mr_sequence m < ?older) (take ?k ?rows @ drop ?k ?rows) = take ?k ?rows"
        by (simp only: filter_append) (simp add: filter_id_conv filter_empty_conv)
      then show ?thesis by simp
    qed
    moreover have less: "?older < before"
      using nth_mem [OF k] rows_before_props(1) [of rm sid before] by simp
    moreover note rows_before_filter [OF less_imp_le [OF less], of rm sid]
    ultimately have "?rows = rows_before rm sid ?older @ drop ?k ?rows" by simp
    then have "items_before d rm sid before = items_before d rm sid ?older @
        concat (map (\<lambda>m. timeline_item d sid (message_record m)) (drop ?k ?rows))"
      unfolding items_before_def by (metis concat_append map_append)
    with page eq True less show ?thesis
      by (auto simp: read_timeline_message_page_def comp_def)
  qed
qed

lemma items_of_rows: "rows_before rm' sid c = rows_before rm sid c \<Longrightarrow> items_before d rm' sid c = items_before d rm sid c"
  by (simp add: items_before_def)

text \<open>As long as the reads see the same messages before the cursor, whatever else changes.\<close>

lemma history_complete:
  assumes "\<forall>m \<in> set (rm # moments). (\<exists>s. get_session m sid = Inr s) \<and> sequences_differ m sid \<and>
      rows_before m sid before = rows_before rm sid before"
  shows "concat (rev (map fst (fst (history_pages d rm moments sid before)))) = items_before d rm sid before"
  using assms
proof (induction d rm moments sid before rule: history_pages.induct)
  case (1 d rm moments sid before)
  from "1.prems" obtain s where get: "get_session rm sid = Inr s" and differ: "sequences_differ rm sid" by auto
  obtain page where page: "read_timeline_message_page d rm sid (Some before) latest_timeline_message_limit = Inr page"
    by (rule page_exists [OF get])
  have limit: "latest_timeline_message_limit = int 100" by (simp add: latest_timeline_message_limit_def)
  from page_items [OF get differ _ _ page [unfolded limit], of before]
  have items: "case pg_olderMessageSequence page of
      None \<Rightarrow> pg_items page = items_before d rm sid before
    | Some older \<Rightarrow> older < before \<and>
        items_before d rm sid before = items_before d rm sid older @ pg_items page" by simp
  show ?case
  proof (cases "pg_olderMessageSequence page")
    case None
    with items show ?thesis by (simp add: history_pages.simps [of d rm moments sid before] page)
  next
    case (Some older)
    with items have less: "\<not> before \<le> older" by simp
    let ?rm = "hd (moments @ [rm])"
    have rows: "rows_before m sid older = rows_before rm sid older" if "m \<in> set (rm # moments)" for m
    proof -
      have "rows_before m sid before = rows_before rm sid before" using "1.prems" that by blast
      then show ?thesis
        using less rows_before_filter [of older before m sid] rows_before_filter [of older before rm sid] by simp
    qed
    have here: "?rm \<in> set (rm # moments)" using next_moments [of moments rm] by auto
    have "\<forall>m \<in> set (?rm # tl moments). (\<exists>s. get_session m sid = Inr s) \<and> sequences_differ m sid \<and>
        rows_before m sid older = rows_before ?rm sid older"
    proof
      fix m assume "m \<in> set (?rm # tl moments)"
      then have m: "m \<in> set (rm # moments)" using next_moments [of moments rm] by blast
      then show "(\<exists>s. get_session m sid = Inr s) \<and> sequences_differ m sid \<and>
          rows_before m sid older = rows_before ?rm sid older"
        using bspec [OF "1.prems" m] rows [OF m] rows [OF here] by simp
    qed
    from "1.IH" [OF page Some less this] items Some items_of_rows [OF rows [OF here], of d] show ?thesis
      by (cases "history_pages d ?rm (tl moments) sid older")
        (simp add: history_pages.simps [of d rm moments sid before] page less)
  qed
qed

text \<open>
  What the later reads have to keep of the tables the snapshot was read from: the session and its
  messages before the snapshot's cursor. What comes after the cursor may change.
\<close>

definition history_kept :: "snapshot_env \<Rightarrow> read_model \<Rightarrow> read_model \<Rightarrow> string \<Rightarrow> bool" where
  "history_kept senv rm rm' sid \<longleftrightarrow>
     sequences_differ rm sid \<and> sequences_differ rm' sid \<and>
     (\<forall>snap older. read_timeline_snapshot senv rm sid = Inr snap \<longrightarrow> ts_olderMessageSequence snap = Some older \<longrightarrow>
        rows_before rm' sid older = rows_before rm sid older)"

section \<open>The snapshot and the stream after it\<close>

lemma trim_messages_result:
  assumes "trim_messages f ms c om = (kept, c', om')"
  shows "\<exists>gone. ms = gone @ kept \<and>
    (if gone = [] then c' = c \<and> om' = om
     else om' \<and> c' = Some (case kept of [] \<Rightarrow> snd (last gone) + 1 | m # _ \<Rightarrow> snd m))"
  using assms
proof (induction f ms c om rule: trim_messages.induct)
  case (2 f m ms c om)
  show ?case
  proof (cases "f (m # ms)")
    case True
    let ?c = "Some (case ms of [] \<Rightarrow> snd m + 1 | next_m # _ \<Rightarrow> snd next_m)"
    from True "2.prems" have rest: "trim_messages f ms ?c True = (kept, c', om')" by simp
    from "2.IH" [OF True rest] obtain gone where g: "ms = gone @ kept"
      "if gone = [] then c' = ?c \<and> om' = True
       else om' \<and> c' = Some (case kept of [] \<Rightarrow> snd (last gone) + 1 | m # _ \<Rightarrow> snd m)" by blast
    then show ?thesis
      by (intro exI [of _ "m # gone"]) (auto split: if_splits list.splits)
  next
    case False
    with "2.prems" show ?thesis by (intro exI [of _ "[]"]) auto
  qed
qed auto

lemma trim_steps_result:
  "trim_steps f steps t = (kept, t') \<Longrightarrow> prefix kept steps \<and> (kept \<noteq> steps \<longrightarrow> t') \<and> (t \<longrightarrow> t')"
proof (induction f steps t rule: trim_steps.induct)
  case (1 f steps t)
  show ?case
  proof (cases "steps \<noteq> [] \<and> f steps t")
    case True
    with "1.prems" have "trim_steps f (butlast steps) True = (kept, t')"
      by (simp add: trim_steps.simps [of f steps t])
    from "1.IH" [OF True this] show ?thesis
      using prefixeq_butlast prefix_order.trans by auto
  next
    case False
    with "1.prems" show ?thesis by (auto simp: trim_steps.simps [of f steps t])
  qed
qed

text \<open>What comes before a kept suffix of sorted items is what is below its cursor.\<close>

lemma below_cursor:
  fixes a b :: "('x \<times> int) list"
  assumes "sorted_wrt (<) (map snd (a @ b))" "a \<noteq> []"
  shows "filter (\<lambda>x. snd x < (case b of [] \<Rightarrow> snd (last a) + 1 | m # _ \<Rightarrow> snd m)) (a @ b) = a"
proof -
  let ?c = "case b of [] \<Rightarrow> snd (last a) + 1 | m # _ \<Rightarrow> snd m"
  have "\<forall>x \<in> set a. snd x < ?c"
  proof (cases b)
    case Nil
    have "\<forall>x \<in> set a. snd x \<le> snd (last a)"
      using assms by (cases a rule: rev_cases) (auto simp: sorted_wrt_append)
    with Nil show ?thesis by auto
  qed (use assms in \<open>auto simp: sorted_wrt_append\<close>)
  moreover have "\<forall>x \<in> set b. \<not> snd x < ?c"
    using assms by (cases b) (auto simp: sorted_wrt_append)
  ultimately show ?thesis by (simp add: filter_id_conv filter_empty_conv)
qed

lemma get_session_found: "find_session rm sid = Some s \<Longrightarrow> \<exists>r. get_session rm sid = Inr r"
proof -
  assume "find_session rm sid = Some s"
  then have s: "s \<in> set (rm_sessions rm)" "sr_id s = sid"
    by (auto simp: find_session_def find_Some_iff)
  have ne: "left_join p rows \<noteq> []" for p and rows :: "'r list"
    by (simp add: left_join_def split: list.splits)
  have "session_with_provider_thread rm s \<noteq> []"
    using list.set_sel(1) [OF ne, of "\<lambda>d. dr_childSessionId d = sr_id s" "rm_delegations rm"]
    by (auto simp: session_with_provider_thread_def ne)
  with s have "select_sessions rm (\<lambda>s. sr_id s = sid) \<noteq> []" by (auto simp: select_sessions_def)
  then show ?thesis by (auto simp: get_session_def split: list.splits)
qed

text \<open>What a snapshot that was returned went through.\<close>

lemma snapshot_fits:
  assumes "read_timeline_snapshot env rm sid = Inr snap"
  obtains s page interactions where "find_session rm sid = Some s"
    "read_timeline_message_page (sp_decoders env) rm sid None latest_timeline_message_limit = Inr page"
    "int (length (queue_rows rm sid)) \<le> max_session_queue_items"
    "sp_queueBytes env \<lparr>qs_items = concat (map (queue_item (sp_decoders env) sid) (queue_rows rm sid)),
       qs_paused = False\<rparr> \<le> max_session_queue_total_bytes"
    "read_pending_interactions env rm sid = Inr interactions"
    "fit_snapshot env
       (make_projection s (active_turn_from_head (head_turn rm sid)) (head_turn_count rm sid)
          (concat (map (queue_item (sp_decoders env) sid) (queue_rows rm sid))) interactions)
       page (snapshot_step_rows rm sid)
       (int (length (filter (\<lambda>m. mr_sessionId m = sid) (rm_messages rm)))) = Inr snap"
  using assms that
  by (auto simp: read_timeline_snapshot_def Let_def split: option.splits sum.splits if_splits)

lemma fitted:
  assumes "fit_snapshot env mk page step_rows n = Inr snap"
  obtains messages budget_cursor omitted kept truncated where
    "trim_messages (\<lambda>ms. sp_projectionBytes env (mk ms (take 200 step_rows) (length step_rows > 200)) >
         max_timeline_snapshot_projection_bytes)
       (pg_items page) (pg_olderMessageSequence page) False = (messages, budget_cursor, omitted)"
    "trim_steps (\<lambda>ss t. sp_projectionBytes env (mk messages ss t) > max_timeline_snapshot_projection_bytes)
       (take 200 step_rows) (length step_rows > 200) = (kept, truncated)"
    "sp_projectionBytes env (mk messages kept truncated) \<le> max_timeline_snapshot_projection_bytes"
    "ts_olderMessageSequence snap = (if omitted then budget_cursor else pg_olderMessageSequence page)"
    "ts_projection snap = (mk messages kept truncated)
       \<lparr>tp_olderMessageSequence := Some (ts_olderMessageSequence snap)\<rparr>"
    "ts_totalMessageCount snap = n"
  using assms that unfolding fit_snapshot_def Let_def
  by (auto split: prod.splits if_splits)

end
