(* ===== verification/Snapshot_Properties.thy ===== *)
theory Snapshot_Properties
  imports Message_Pages
begin

text \<open>What readers of the timeline and of the attempts are promised, and small tables to apply it to.\<close>

section \<open>Small tables\<close>

definition small_session :: session_row where
  "small_session =
     \<lparr>sr_id = ''s1'', sr_projectId = ''p'', sr_title = ''t'', sr_titleProvenance = ProvenanceManual,
      sr_providerId = ''codex'', sr_model = ''m'', sr_status = StatusIdle, sr_archivedAt = None,
      sr_activeProviderThreadId = None, sr_providerReservationId = None, sr_runtimeMode = ModeAuto,
      sr_agentsJson = None, sr_worktreeId = None, sr_chatId = ''c'', sr_forkedFromSessionId = None,
      sr_forkedFromMessageId = None, sr_permissionMode = PermissionDefault, sr_toolSearch = False,
      sr_queuePaused = False, sr_createdAt = 0, sr_updatedAt = 0\<rparr>"

definition small_message :: "int \<Rightarrow> message_row" where
  "small_message n =
     \<lparr>mr_id = nat_to_string (nat n), mr_sessionId = ''s1'', mr_turnId = None, mr_role = ''user'',
      mr_kind = ''user'', mr_contentJson = ''{}'', mr_parentItemId = None, mr_createdAt = 0,
      mr_sequence = n, mr_checkpointRevision = None, mr_checkpointFinal = None\<rparr>"

definition small_attempt :: "int \<Rightarrow> attempt_row" where
  "small_attempt n =
     \<lparr>ar_sessionId = ''s1'', ar_id = nat_to_string (nat n), ar_turnId = ''t1'', ar_ordinal = n,
      ar_reason = ReasonInitial, ar_status = AttemptCompleted, ar_startedAt = 0, ar_completedAt = None,
      ar_startedSequence = n, ar_updatedSequence = n, ar_providerTurnJson = None\<rparr>"

definition small_model :: read_model where
  "small_model =
     empty_read_model\<lparr>rm_sessions := [small_session], rm_messages := map small_message [2, 5, 9],
       rm_attempts := map small_attempt [1, 2]\<rparr>"

definition small_content :: message_content where
  "small_content = UserQuestionContent ''q'' [] None"

definition small_env :: snapshot_env where
  "small_env =
     \<lparr>sp_decoders = \<lparr>dec_content = (\<lambda>_. Some small_content), dec_input = (\<lambda>_. None),
        dec_permission = (\<lambda>_. None)\<rparr>,
      sp_collate = (\<lambda>_ _. 0), sp_queueBytes = (\<lambda>_. 0),
      sp_projectionBytes = (\<lambda>p. 400 * 1024 * int (length (tp_messages p)))\<rparr>"

text \<open>Two of the three messages fit the budget.\<close>

definition small_snapshot :: timeline_snapshot where
  "small_snapshot = (case read_timeline_snapshot small_env small_model ''s1'' of Inr s \<Rightarrow> s)"

lemma small_snapshot_read: "read_timeline_snapshot small_env small_model ''s1'' = Inr small_snapshot"
proof -
  have "\<not> isl (read_timeline_snapshot small_env small_model ''s1'')" by code_simp
  then show ?thesis by (auto simp: small_snapshot_def split: sum.splits)
qed

lemma small_snapshot_cursor:
  "ts_olderMessageSequence small_snapshot = Some 5 \<and> length (tp_messages (ts_projection small_snapshot)) = 2"
  by code_simp

lemma small_differ: "sequences_differ small_model ''s1''"
  by code_simp

section \<open>Bounds\<close>





section \<open>Properties\<close>

text \<open>C23: The stream of older messages of a session that exists at every read always ends: whatever
  the tables hold and however they change between its reads, every page moves the cursor to a smaller
  sequence of a message of the session, so the error for a cursor that does not advance is never
  raised.\<close>

theorem history_ends:
  assumes "\<forall>m \<in> set (rm # moments). \<exists>s. get_session m sid = Inr s"
  shows "snd (history_pages d rm moments sid before) = HistoryDone"
  using assms by (rule history_stops)

text \<open>Between the reads two messages are added and one below the cursor is removed.\<close>

definition changed_model :: read_model where
  "changed_model = small_model\<lparr>rm_messages := map small_message [5, 9, 12, 13]\<rparr>"

lemma small_sessions: "\<exists>s. get_session small_model ''s1'' = Inr s" "\<exists>s. get_session changed_model ''s1'' = Inr s"
proof -
  have "\<not> isl (get_session small_model ''s1'')" "\<not> isl (get_session changed_model ''s1'')" by code_simp+
  then show "\<exists>s. get_session small_model ''s1'' = Inr s" "\<exists>s. get_session changed_model ''s1'' = Inr s"
    by (auto simp: isl_def) (metis sum.exhaust)+
qed

theorem history_ends_witness:
  "snd (history_pages (sp_decoders small_env) small_model [changed_model] ''s1'' 9) = HistoryDone"
  by (rule history_ends) (simp add: small_sessions)

lemma messages_complete:
  assumes "read_timeline_snapshot env rm sid = Inr snap"
    and kept: "\<forall>m \<in> set (later # moments). (\<exists>s. get_session m sid = Inr s) \<and> history_kept env rm m sid"
    and "\<forall>m \<in> set (rm_messages rm). mr_sequence m < max_safe_integer"
  shows "map fst (concat (rev (map fst (case ts_olderMessageSequence snap of
        None \<Rightarrow> [] | Some older \<Rightarrow> fst (history_pages (sp_decoders env) later moments sid older))))) @
      tp_messages (ts_projection snap) =
    map fst (concat (map (\<lambda>m. timeline_item (sp_decoders env) sid (message_record m))
      (sort_key mr_sequence (filter (\<lambda>m. mr_sessionId m = sid) (rm_messages rm)))))"
proof -
  let ?d = "sp_decoders env"
  let ?all = "items_before ?d rm sid max_safe_integer"
  obtain s page interactions where fit: "find_session rm sid = Some s"
    "read_timeline_message_page ?d rm sid None (int 100) = Inr page"
    "fit_snapshot env
       (make_projection s (active_turn_from_head (head_turn rm sid)) (head_turn_count rm sid)
          (concat (map (queue_item ?d sid) (queue_rows rm sid))) interactions)
       page (snapshot_step_rows rm sid)
       (int (length (filter (\<lambda>m. mr_sessionId m = sid) (rm_messages rm)))) = Inr snap"
    by (rule snapshot_fits [OF assms(1)]) (simp add: latest_timeline_message_limit_def that)
  from get_session_found [OF fit(1)] obtain r where get: "get_session rm sid = Inr r" by blast
  have before: "items_before ?d rm sid c = filter (\<lambda>x. snd x < c) ?all" if "c \<le> max_safe_integer" for c
    by (rule items_before_filter [OF that])
  have differ: "sequences_differ rm sid" using kept by (simp add: history_kept_def)
  have history: "concat (rev (map fst (fst (history_pages ?d later moments sid c)))) = items_before ?d rm sid c"
    if c: "ts_olderMessageSequence snap = Some c" for c
  proof -
    have rows: "rows_before m sid c = rows_before rm sid c" if "m \<in> set (later # moments)" for m
      using kept that c assms(1) by (auto simp: history_kept_def)
    have "\<forall>m \<in> set (later # moments). (\<exists>s. get_session m sid = Inr s) \<and> sequences_differ m sid \<and>
        rows_before m sid c = rows_before later sid c"
      using kept rows by (auto simp: history_kept_def)
    from history_complete [OF this, of ?d] items_of_rows [OF rows [of later], of ?d] show ?thesis by simp
  qed
  have everything: "concat (map (\<lambda>m. timeline_item ?d sid (message_record m))
      (sort_key mr_sequence (filter (\<lambda>m. mr_sessionId m = sid) (rm_messages rm)))) = ?all"
  proof -
    have "filter (\<lambda>m. mr_sessionId m = sid \<and> mr_sequence m < max_safe_integer) (rm_messages rm) =
        filter (\<lambda>m. mr_sessionId m = sid) (rm_messages rm)" using assms(3) by (intro filter_cong) auto
    then show ?thesis by (simp add: items_before_def rows_before_def)
  qed
  obtain messages budget_cursor omitted kept truncated f where
    trim: "trim_messages f (pg_items page) (pg_olderMessageSequence page) False = (messages, budget_cursor, omitted)"
    and older: "ts_olderMessageSequence snap = (if omitted then budget_cursor else pg_olderMessageSequence page)"
    and shown: "tp_messages (ts_projection snap) = map fst messages"
    by (rule fitted [OF fit(3)]) (rule that, assumption, assumption, simp add: make_projection_def)
  from trim_messages_result [OF trim] obtain gone where gone: "pg_items page = gone @ messages"
    "if gone = [] then budget_cursor = pg_olderMessageSequence page \<and> \<not> omitted
     else omitted \<and> budget_cursor = Some (case messages of [] \<Rightarrow> snd (last gone) + 1 | m # _ \<Rightarrow> snd m)"
    by auto
  have page: "case pg_olderMessageSequence page of
      None \<Rightarrow> pg_items page = ?all
    | Some o' \<Rightarrow> o' < max_safe_integer \<and> ?all = items_before ?d rm sid o' @ pg_items page"
    using page_items [OF get differ _ _ fit(2), of max_safe_integer] by simp
  obtain start where start: "?all = start @ pg_items page"
    using page by (cases "pg_olderMessageSequence page") auto
  have sorted: "sorted_wrt (<) (map snd ?all)" by (rule items_sorted [OF differ])
  have "(case ts_olderMessageSequence snap of None \<Rightarrow> [] | Some c \<Rightarrow> items_before ?d rm sid c) @ messages = ?all"
  proof (cases "gone = []")
    case True
    with gone older page show ?thesis by (auto split: option.splits)
  next
    case False
    let ?c = "case messages of [] \<Rightarrow> snd (last gone) + 1 | m # _ \<Rightarrow> snd m"
    have split: "?all = (start @ gone) @ messages" using start gone(1) by simp
    have below: "snd x < max_safe_integer" if "x \<in> set ?all" for x
      using that timeline_item_sequence [of x ?d sid] rows_before_props(1) [of rm sid max_safe_integer]
      by (fastforce simp: items_before_def message_record_def)
    have "?c \<le> max_safe_integer"
    proof (cases messages)
      case Nil
      with below [of "last gone"] False split show ?thesis by simp
    next
      case (Cons m ms)
      with below [of m] split show ?thesis by simp
    qed
    then have items: "items_before ?d rm sid ?c = filter (\<lambda>x. snd x < ?c) ?all" by (rule before)
    have end_start: "last (start @ gone) = last gone" "start @ gone \<noteq> []" using False by simp_all
    note cut = below_cursor [OF sorted [unfolded split] end_start(2), unfolded end_start(1)]
    have "items_before ?d rm sid ?c = start @ gone" by (simp only: items split cut)
    with False gone(2) older split show ?thesis by simp
  qed
  then have "map fst (case ts_olderMessageSequence snap of None \<Rightarrow> [] | Some c \<Rightarrow> items_before ?d rm sid c) @
      map fst messages = map fst ?all" by (metis map_append)
  then show ?thesis
    by (cases "ts_olderMessageSequence snap") (simp_all add: history everything shown)
qed

text \<open>C11: A client that shows the snapshot of a session and puts the pages
  of its history before it shows every message of the session that decodes, each once, in the order
  of the sequences, whether or not the budget of the snapshot left messages out of it. The pages are
  read one by one after the snapshot, from tables that may have changed in between as long as the
  session and its messages before the snapshot's cursor are still there.\<close>

theorem snapshot_and_history_complete:
  assumes "read_timeline_snapshot env rm sid = Inr snap"
    and "\<forall>m \<in> set (later # moments). (\<exists>s. get_session m sid = Inr s) \<and> history_kept env rm m sid"
    and "\<forall>m \<in> set (rm_messages rm). mr_sequence m < max_safe_integer"
  shows "map fst (concat (rev (map fst (case ts_olderMessageSequence snap of
        None \<Rightarrow> [] | Some older \<Rightarrow> fst (history_pages (sp_decoders env) later moments sid older))))) @
      tp_messages (ts_projection snap) =
    map fst (concat (map (\<lambda>m. timeline_item (sp_decoders env) sid (message_record m))
      (sort_key mr_sequence (filter (\<lambda>m. mr_sessionId m = sid) (rm_messages rm)))))"
  using assms by (rule messages_complete)

text \<open>Between the reads two messages are added behind the snapshot.\<close>

definition grown_model :: read_model where
  "grown_model = small_model\<lparr>rm_messages := map small_message [2, 5, 9, 12, 13]\<rparr>"

lemma grown_kept:
  "(\<exists>s. get_session grown_model ''s1'' = Inr s) \<and> history_kept small_env small_model grown_model ''s1''"
proof -
  have "\<not> isl (get_session grown_model ''s1'')" "sequences_differ grown_model ''s1''"
    "rows_before grown_model ''s1'' 5 = rows_before small_model ''s1'' 5" by code_simp+
  then show ?thesis
    using small_differ small_snapshot_read small_snapshot_cursor
    by (auto simp: history_kept_def isl_def) (metis sum.exhaust)
qed

theorem snapshot_and_history_complete_witness:
  "map fst (concat (rev (map fst (fst (history_pages (sp_decoders small_env) small_model [grown_model] ''s1'' 5))))) @
     tp_messages (ts_projection small_snapshot) =
   map fst (concat (map (\<lambda>m. timeline_item (sp_decoders small_env) ''s1'' (message_record m))
     (sort_key mr_sequence (filter (\<lambda>m. mr_sessionId m = ''s1'') (rm_messages small_model)))))"
proof -
  have "\<forall>m \<in> set (rm_messages small_model). mr_sequence m < max_safe_integer" by code_simp
  moreover have "\<forall>m \<in> set [small_model, grown_model]. (\<exists>s. get_session m ''s1'' = Inr s) \<and>
      history_kept small_env small_model m ''s1''"
    using grown_kept small_sessions(1) small_differ by (simp add: history_kept_def)
  ultimately show ?thesis
    using snapshot_and_history_complete [OF small_snapshot_read, of small_model "[grown_model]"] small_snapshot_cursor
    by simp
qed


text \<open>Two of three messages take the whole budget; the cursor 50000 is one byte longer than \<open>null\<close>.\<close>

definition tight_model :: read_model where
  "tight_model = small_model\<lparr>rm_messages :=
     map (\<lambda>n. (small_message n)\<lparr>mr_sequence := 10000 * n\<rparr>) [2, 5, 9]\<rparr>"

definition tight_env :: snapshot_env where
  "tight_env = small_env\<lparr>sp_projectionBytes := (\<lambda>p. 450 * 1024 * int (length (tp_messages p)) +
     (case tp_olderMessageSequence p of Some (Some n) \<Rightarrow> if 10000 \<le> n then 1 else 0 | _ \<Rightarrow> 0))\<rparr>"

definition tight_snapshot :: timeline_snapshot where
  "tight_snapshot = (case read_timeline_snapshot tight_env tight_model ''s1'' of Inr s \<Rightarrow> s)"



text \<open>The snapshot that is returned is one byte over the budget.\<close>

lemma returned_snapshot_over_budget:
  "sp_projectionBytes tight_env (ts_projection tight_snapshot) = 900 * 1024 + 1"
  by code_simp


section \<open>Pages of attempts\<close>

lemma attempt_limit_bounds: "1 \<le> attempt_limit limit \<and> attempt_limit limit \<le> 100"
  by (auto simp: attempt_limit_def split: option.splits)

lemma take_sorted:
  fixes f :: "'a \<Rightarrow> int"
  assumes "sorted_wrt (<) (map f xs)" "0 < n" "n \<le> length xs"
  shows "set (take n xs) = {x \<in> set xs. f x \<le> f (last (take n xs))}"
proof -
  obtain ys zs where parts: "take n xs = ys" "drop n xs = zs" "xs = ys @ zs"
    using that [of "take n xs" "drop n xs"] by simp
  from assms have ne: "ys \<noteq> []" using parts(1) by auto
  from assms(1) parts(3) have split: "sorted_wrt (<) (map f ys)" "\<forall>x \<in> set ys. \<forall>y \<in> set zs. f x < f y"
    by (simp_all add: sorted_wrt_append)
  have "sorted_wrt (<) (map f us) \<Longrightarrow> \<forall>y \<in> set us. f y \<le> f (last us)" for us
    by (induction us rule: rev_induct) (auto simp: sorted_wrt_append)
  from this [OF split(1)] have "\<forall>x \<in> set ys. f x \<le> f (last ys)" .
  moreover from split(2) last_in_set [OF ne] have "\<forall>x \<in> set zs. f (last ys) < f x" by blast
  ultimately show ?thesis using parts by (auto simp: not_less [symmetric])
qed

text \<open>C25: Whatever numbers a client asks with, infinite and not-a-number included, a page
  of the attempts of a turn has between 0 and 100 items, in the order of their ordinals, and holds
  exactly the attempts after the cursor up to the next cursor, or all of them when there is no next
  one; the next cursor is larger than the last. So following the cursors shows every attempt once.\<close>

theorem attempt_pages:
  assumes "attempt_history rm sid turn_id after limit = Inr (items, next_ordinal)"
    and "distinct (map ar_ordinal (filter (\<lambda>a. ar_sessionId a = sid \<and> ar_turnId a = turn_id) (rm_attempts rm)))"
  shows "length items \<le> 100 \<and> sorted_wrt (<) (map att_ordinal items) \<and>
    set items = attempt_record ` {a \<in> set (rm_attempts rm). ar_sessionId a = sid \<and> ar_turnId a = turn_id \<and>
      attempt_after after < ar_ordinal a \<and>
      (case next_ordinal of None \<Rightarrow> True | Some n \<Rightarrow> ar_ordinal a \<le> n)} \<and>
    (\<forall>n. next_ordinal = Some n \<longrightarrow> attempt_after after < n)"
proof -
  let ?rows = "sort_key ar_ordinal (filter (\<lambda>a. ar_sessionId a = sid \<and> ar_turnId a = turn_id \<and>
      ar_ordinal a > attempt_after after) (rm_attempts rm))"
  define k where "k = nat (attempt_limit limit)"
  have k: "attempt_limit limit = int k" "0 < k" "k \<le> 100"
    using attempt_limit_bounds [of limit] by (auto simp: k_def)
  have "distinct (map ar_ordinal ?rows)"
  proof -
    have "distinct (map ar_ordinal (filter (\<lambda>a. (ar_sessionId a = sid \<and> ar_turnId a = turn_id) \<and>
        ar_ordinal a > attempt_after after) (rm_attempts rm)))"
      using assms(2) by (rule distinct_map_filter_and)
    then have "distinct (map ar_ordinal (filter (\<lambda>a. ar_sessionId a = sid \<and> ar_turnId a = turn_id \<and>
        ar_ordinal a > attempt_after after) (rm_attempts rm)))" by (simp only: conj_assoc)
    moreover have "mset (map ar_ordinal ?rows) = mset (map ar_ordinal (filter (\<lambda>a. ar_sessionId a = sid \<and>
        ar_turnId a = turn_id \<and> ar_ordinal a > attempt_after after) (rm_attempts rm)))" by simp
    ultimately show ?thesis using mset_eq_imp_distinct_iff by blast
  qed
  then have strict: "sorted_wrt (<) (map ar_ordinal ?rows)" by (simp add: strict_sorted_iff)
  have ordinal: "att_ordinal \<circ> attempt_record = ar_ordinal" by (simp add: attempt_record_def comp_def)
  from assms(1) k have items: "items = map attempt_record (take k ?rows)"
    and next_eq: "next_ordinal =
      (if k < length ?rows then (if items = [] then None else Some (att_ordinal (last items))) else None)"
    by (auto simp: attempt_history_def Let_def sql_limit_def slice_to_def nat_add_distrib min_def
        split: sum.splits if_splits)
  have "sorted_wrt (<) (map att_ordinal items)"
    using sorted_wrt_take [OF strict, of k] by (simp add: items ordinal take_map)
  moreover have "length items \<le> 100" using k(3) by (simp add: items)
  moreover have "set items = attempt_record ` {a \<in> set ?rows. (case next_ordinal of None \<Rightarrow> True | Some n \<Rightarrow> ar_ordinal a \<le> n)}
      \<and> (\<forall>n. next_ordinal = Some n \<longrightarrow> attempt_after after < n)"
  proof (cases "k < length ?rows")
    case False
    with next_eq items show ?thesis by simp
  next
    case True
    then have "length (take k ?rows) = k" by (simp only: length_take min_def) simp
    with k(2) have ne: "take k ?rows \<noteq> []" by (metis length_0_conv less_not_refl)
    then have "next_ordinal = Some (ar_ordinal (last (take k ?rows)))"
      using True next_eq by (simp add: items last_map attempt_record_def)
    moreover have "last (take k ?rows) \<in> set ?rows" using last_in_set [OF ne] by (rule in_set_takeD)
    ultimately show ?thesis
      using take_sorted [OF strict k(2)] True by (simp add: items)
  qed
  ultimately show ?thesis by (simp add: conj_assoc)
qed

theorem attempt_pages_witness:
  "set (fst (projr (attempt_history small_model ''s1'' ''t1'' (Some NotANumber) (Some (js_of_int 0))))) =
     attempt_record ` {a \<in> set (rm_attempts small_model). ar_ordinal a = 1}"
proof -
  define page where "page = projr (attempt_history small_model ''s1'' ''t1'' (Some NotANumber) (Some (js_of_int 0)))"
  have "\<not> isl (attempt_history small_model ''s1'' ''t1'' (Some NotANumber) (Some (js_of_int 0)))" by code_simp
  then have read: "attempt_history small_model ''s1'' ''t1'' (Some NotANumber) (Some (js_of_int 0)) =
      Inr (fst page, snd page)" by (simp add: page_def)
  have d: "distinct (map ar_ordinal (filter (\<lambda>a. ar_sessionId a = ''s1'' \<and> ar_turnId a = ''t1'') (rm_attempts small_model)))"
    by code_simp
  have n: "snd page = Some 1" unfolding page_def by code_simp
  have "{a \<in> set (rm_attempts small_model). ar_sessionId a = ''s1'' \<and> ar_turnId a = ''t1'' \<and>
      attempt_after (Some NotANumber) < ar_ordinal a \<and> ar_ordinal a \<le> 1} =
      {a \<in> set (rm_attempts small_model). ar_ordinal a = 1}"
    by (auto simp: small_model_def small_attempt_def attempt_after_def safe_integer_def)
  with attempt_pages [OF read d] n show ?thesis by (simp add: page_def)
qed

end
