(* ===== verification/Event_Streams.thy ===== *)
theory Event_Streams
  imports Session_Domain Event_Log Message_Pages
begin

text \<open>
  The event streams of \<open>engine/session-domain.ts\<close>: the publisher of committed events, the plain
  streams of events and the synchronized stream of a client that keeps a projection.

  A subscription is the list of what the publisher announced since, each an event or the failure to
  read one; it starts before the log is read. The size of a JSON text in bytes is a parameter.
\<close>

section \<open>The publisher\<close>

type_synonym notification = "sql_storage_error + session_event stored_event"

definition is_decode_error :: "sql_storage_error \<Rightarrow> bool" where
  "is_decode_error e = (case e of DispatchPersistenceDecodeError k r c \<Rightarrow> True | _ \<Rightarrow> False)"

text \<open>One round: a failure to read is tried again later, one that does not decode is announced.\<close>

definition reconcile_durable_events ::
  "('g, 'i) service_env \<Rightarrow> nat \<Rightarrow> service_db \<Rightarrow> int \<Rightarrow> notification list \<times> int" where
  "reconcile_durable_events env subscribers db cursor =
     (if subscribers = 0 then ([], cursor)
      else
        (case sql_all_events_after_sequence (sv_events env) db cursor of
           Inl e \<Rightarrow> (if is_decode_error e then [Inl e] else [], cursor)
         | Inr records \<Rightarrow> (map Inr records, last (cursor # map se_sequence records))))"

fun reconcile_rounds ::
  "('g, 'i) service_env \<Rightarrow> (nat \<times> service_db) list \<Rightarrow> int \<Rightarrow> notification list \<times> int" where
  "reconcile_rounds env [] cursor = ([], cursor)"
| "reconcile_rounds env ((subscribers, db) # rounds) cursor =
     (case reconcile_durable_events env subscribers db cursor of
        (sent, cursor') \<Rightarrow>
          (case reconcile_rounds env rounds cursor' of (more_sent, fin) \<Rightarrow> (sent @ more_sent, fin)))"

text \<open>\<open>decodeDurableNotifications\<close>: the stream fails at the first failure.\<close>

fun decode_notifications ::
  "notification list \<Rightarrow> session_event stored_event list \<times> sql_storage_error option" where
  "decode_notifications [] = ([], None)"
| "decode_notifications (Inl e # ns) = ([], Some e)"
| "decode_notifications (Inr r # ns) =
     (case decode_notifications ns of (rs, err) \<Rightarrow> (r # rs, err))"

section \<open>Plain streams\<close>

text \<open>The filter with its moving cursor\<close>

fun after_cursor ::
  "(session_event stored_event \<Rightarrow> bool) \<Rightarrow> int \<Rightarrow> session_event stored_event list \<Rightarrow>
   session_event stored_event list" where
  "after_cursor wanted cursor [] = []"
| "after_cursor wanted cursor (r # rs) =
     (if \<not> wanted r \<or> se_sequence r \<le> cursor then after_cursor wanted cursor rs
      else r # after_cursor wanted (se_sequence r) rs)"

definition session_events_stream ::
  "('g, 'i) service_env \<Rightarrow> service_db \<Rightarrow> string \<Rightarrow> int \<Rightarrow> notification list \<Rightarrow>
   sql_storage_error + session_event stored_event list \<times> sql_storage_error option" where
  "session_events_stream env db sid after notifications =
     (case sql_events_after_sequence (sv_events env) db sid after of
        Inl e \<Rightarrow> Inl e
      | Inr replay \<Rightarrow>
          (case decode_notifications notifications of
             (tail, err) \<Rightarrow> Inr (after_cursor (\<lambda>r. se_streamId r = sid) after (replay @ tail), err)))"

definition all_events_stream ::
  "('g, 'i) service_env \<Rightarrow> service_db \<Rightarrow> int \<Rightarrow> notification list \<Rightarrow>
   sql_storage_error + session_event stored_event list \<times> sql_storage_error option" where
  "all_events_stream env db after notifications =
     (case sql_all_events_after_sequence (sv_events env) db after of
        Inl e \<Rightarrow> Inl e
      | Inr replay \<Rightarrow>
          (case decode_notifications notifications of
             (tail, err) \<Rightarrow> Inr (after_cursor (\<lambda>_. True) after (replay @ tail), err)))"

section \<open>The synchronized stream\<close>

datatype reset_reason = ResetRestored | ResetCompacted | ResetCursorInvalid

datatype synchronization_record =
  SyncSnapshot string int timeline_snapshot bool
| SyncSnapshotChunk string int "timeline_message list" "int option"
| SyncEvent string "session_event stored_event"
| SyncSynchronized string int
| SyncResetRequired string int reset_reason

datatype sync_error = SyncStorageFailed sql_storage_error | SyncSnapshotFailed snapshot_error

record sync_input =
  sy_streamId :: string
  sy_afterVersion :: "int option"
  sy_streamEpoch :: "string option"
  sy_hasProjection :: bool
  sy_background :: bool
  sy_maxDeltaEvents :: int
  sy_maxDeltaBytes :: int

text \<open>The decision before the delta is read, and what is read of it.\<close>

definition retained_version :: "sync_input \<Rightarrow> int" where
  "retained_version input = or_else (sy_afterVersion input) 0"

definition epoch_mismatch :: "string \<Rightarrow> sync_input \<Rightarrow> bool" where
  "epoch_mismatch epoch input \<longleftrightarrow> sy_streamEpoch input \<noteq> None \<and> sy_streamEpoch input \<noteq> Some epoch"

definition snapshot_needed :: "string \<Rightarrow> int \<Rightarrow> sync_input \<Rightarrow> bool" where
  "snapshot_needed epoch through input \<longleftrightarrow>
     \<not> sy_hasProjection input \<or> sy_afterVersion input = None \<or> epoch_mismatch epoch input \<or>
     retained_version input > through \<or> through - retained_version input > sy_maxDeltaEvents input"

definition capture_delta ::
  "('g, 'i) service_env \<Rightarrow> (string \<Rightarrow> session_event stored_event \<Rightarrow> int) \<Rightarrow> string \<Rightarrow> service_db \<Rightarrow>
   int \<Rightarrow> sync_input \<Rightarrow> sql_storage_error + session_event stored_event list \<times> bool" where
  "capture_delta env bytes epoch db through input =
     (if snapshot_needed epoch through input then Inr ([], True)
      else
        (case sql_events_in_version_range (sv_events env) db (sy_streamId input)
                (retained_version input) through of
           Inl e \<Rightarrow> Inl e
         | Inr captured \<Rightarrow>
             Inr (captured, sum_list (map (bytes epoch) captured) > sy_maxDeltaBytes input)))"

definition sync_reset :: "string \<Rightarrow> int \<Rightarrow> sync_input \<Rightarrow> synchronization_record list" where
  "sync_reset epoch through input =
     (if epoch_mismatch epoch input \<or> retained_version input > through
      then [SyncResetRequired epoch through
              (if epoch_mismatch epoch input then ResetRestored else ResetCursorInvalid)]
      else [])"

text \<open>The transaction: the prefix, the version it reaches and the cursor of the history.\<close>

definition sync_prefix ::
  "('g, 'i) service_env \<Rightarrow> snapshot_env \<Rightarrow> (string \<Rightarrow> session_event stored_event \<Rightarrow> int) \<Rightarrow> string \<Rightarrow>
   service_db \<Rightarrow> sync_input \<Rightarrow> sync_error + synchronization_record list \<times> int \<times> int option" where
  "sync_prefix env senv bytes epoch db input =
     (let through = current_stream_version env db (sy_streamId input) in
      case capture_delta env bytes epoch db through input of
        Inl e \<Rightarrow> Inl (SyncStorageFailed e)
      | Inr (captured, True) \<Rightarrow>
          (case read_timeline_snapshot senv (sd_readModel db) (sy_streamId input) of
             Inl e \<Rightarrow> Inl (SyncSnapshotFailed e)
           | Inr snapshot \<Rightarrow>
               Inr (sync_reset epoch through input @
                    [SyncSnapshot epoch through snapshot (sy_background input)],
                    through, ts_olderMessageSequence snapshot))
      | Inr (captured, False) \<Rightarrow>
          Inr (sync_reset epoch through input @
               map (SyncEvent epoch)
                 (filter (\<lambda>r. se_streamVersion r > retained_version input) captured),
               through, None))"

definition sync_history ::
  "snapshot_env \<Rightarrow> string \<Rightarrow> service_db \<Rightarrow> service_db list \<Rightarrow> sync_input \<Rightarrow> int \<Rightarrow> int option \<Rightarrow>
   synchronization_record list \<times> history_end" where
  "sync_history senv epoch db moments input through history_cursor =
     (case history_cursor of
        None \<Rightarrow> ([], HistoryDone)
      | Some cursor \<Rightarrow>
          if sy_background input then ([], HistoryDone)
          else
            (case history_pages (sp_decoders senv) (sd_readModel db) (map sd_readModel moments)
                    (sy_streamId input) cursor of
               (chunks, fin) \<Rightarrow>
                 (map (\<lambda>(items, older). SyncSnapshotChunk epoch through (map fst items) older) chunks, fin)))"

text \<open>The live tail: events up to \<open>liveVersion\<close> are dropped, a version that is skipped fails.\<close>

fun live_tail ::
  "int \<Rightarrow> session_event stored_event list \<Rightarrow> session_event stored_event list \<times> bool" where
  "live_tail live_version [] = ([], True)"
| "live_tail live_version (r # rs) =
     (if se_streamVersion r \<le> live_version then live_tail live_version rs
      else if se_streamVersion r \<noteq> live_version + 1 then ([], False)
      else (case live_tail (se_streamVersion r) rs of (emitted, ok) \<Rightarrow> (r # emitted, ok)))"

text \<open>The records of the stream, and whether it is still alive at their end. The history is read
  after the transaction, page by page: \<open>later\<close> is the database of the first read and \<open>moments\<close> are
  those of the reads after it.\<close>

definition synchronized_events ::
  "('g, 'i) service_env \<Rightarrow> snapshot_env \<Rightarrow> (string \<Rightarrow> session_event stored_event \<Rightarrow> int) \<Rightarrow> string \<Rightarrow>
   service_db \<Rightarrow> service_db \<Rightarrow> service_db list \<Rightarrow> sync_input \<Rightarrow> notification list \<Rightarrow>
   sync_error + synchronization_record list \<times> bool" where
  "synchronized_events env senv bytes epoch db later moments input notifications =
     (case sync_prefix env senv bytes epoch db input of
        Inl e \<Rightarrow> Inl e
      | Inr (prefix_records, through, history_cursor) \<Rightarrow>
          (case sync_history senv epoch later moments input through history_cursor of
             (chunks, fin) \<Rightarrow>
               if fin \<noteq> HistoryDone then Inr (prefix_records @ chunks, False)
               else
                 (case decode_notifications notifications of
                    (tail, err) \<Rightarrow>
                      (case live_tail through (filter (\<lambda>r. se_streamId r = sy_streamId input) tail) of
                         (emitted, ok) \<Rightarrow>
                           Inr (prefix_records @ chunks @ [SyncSynchronized epoch through] @
                                map (SyncEvent epoch) emitted, ok \<and> err = None)))))"

end
