(* ===== verification/Event_Stream_Properties.thy ===== *)
theory Event_Stream_Properties
  imports Event_Streams Session_Domain_Properties Snapshot_Properties
begin

text \<open>
  What the event streams promise. \<open>db\<close> is the database when the subscription was made, \<open>now\<close> a later
  one; the publisher reads any databases in between.
\<close>

section \<open>The publisher announces the log\<close>

lemma all_after:
  assumes "db_inv env db"
  shows "sql_all_events_after_sequence (sv_events env) db n =
    Inr (filter (\<lambda>r. n < se_sequence r) (records env db))"
  using assms by (intro all_events_of_log) (simp_all add: sql_inv_def)

lemma records_sorted: "db_inv env db \<Longrightarrow> sorted_wrt (<) (map se_sequence (records env db))"
  by (rule log_sequences(1)) (simp add: sql_inv_def)

lemma part_of_log:
  fixes L M :: "'e stored_event list"
  assumes "sorted_wrt (<) (map se_sequence (L @ M))"
  shows "filter (\<lambda>r. c < se_sequence r) L =
    filter (\<lambda>r. c < se_sequence r \<and> se_sequence r \<le> last (c # map se_sequence (filter (\<lambda>r. c < se_sequence r) L))) (L @ M)"
proof (cases "filter (\<lambda>r. c < se_sequence r) L = []")
  case True
  then show ?thesis by (auto simp: filter_empty_conv)
next
  case False
  let ?f = "filter (\<lambda>r. c < se_sequence r) L"
  have top: "sorted_wrt (<) (map se_sequence us) \<Longrightarrow> \<forall>y \<in> set us. se_sequence y \<le> last (map se_sequence us)"
    for us :: "'e stored_event list"
    by (induction us rule: rev_induct) (auto simp: sorted_wrt_append)
  have "sorted_wrt (<) (map se_sequence ?f)"
    using assms by (auto simp: sorted_wrt_append sorted_wrt_map intro: sorted_wrt_filter)
  from top [OF this] have low: "\<forall>y \<in> set L. c < se_sequence y \<longrightarrow> se_sequence y \<le> last (map se_sequence ?f)" by simp
  have "last (map se_sequence ?f) \<in> se_sequence ` set L"
    using last_in_set [OF False] False by (auto simp: last_map)
  then have high: "\<forall>y \<in> set M. last (map se_sequence ?f) < se_sequence y"
    using assms by (auto simp: sorted_wrt_append)
  let ?l = "last (map se_sequence ?f)"
  have "filter (\<lambda>r. c < se_sequence r \<and> se_sequence r \<le> ?l) L = ?f"
    using low by (intro filter_cong) auto
  moreover have "filter (\<lambda>r. c < se_sequence r \<and> se_sequence r \<le> ?l) M = []"
    using high by (auto simp: filter_empty_conv not_le)
  moreover have "last (c # map se_sequence ?f) = ?l" using False by simp
  ultimately show ?thesis by (simp only: filter_append append_Nil2)
qed

definition rounds_of_log ::
  "('g, 'i) service_env \<Rightarrow> service_db \<Rightarrow> (nat \<times> service_db) list \<Rightarrow> bool" where
  "rounds_of_log env now rounds \<longleftrightarrow>
     (\<forall>(n, db) \<in> set rounds. db_inv env db \<and> prefix (records env db) (records env now))"

lemma rounds_announce:
  assumes "db_inv env now" "rounds_of_log env now rounds" "reconcile_rounds env rounds c = (ns, c')"
  shows "c \<le> c' \<and> ns = map Inr (filter (\<lambda>r. c < se_sequence r \<and> se_sequence r \<le> c') (records env now))"
  using assms(2,3)
proof (induction rounds arbitrary: c ns)
  case (Cons round rounds)
  obtain n db where round: "round = (n, db)" by (cases round)
  obtain sent c1 where one: "reconcile_durable_events env n db c = (sent, c1)"
    by (cases "reconcile_durable_events env n db c")
  obtain ns2 where rest: "reconcile_rounds env rounds c1 = (ns2, c')" "ns = sent @ ns2"
    using Cons.prems(2) by (auto simp: round one split: prod.splits)
  from Cons.prems(1) have inv: "db_inv env db" "rounds_of_log env now rounds"
    and log: "prefix (records env db) (records env now)" by (auto simp: rounds_of_log_def round)
  from Cons.IH [OF inv(2) rest(1)] have ih: "c1 \<le> c'"
    "ns2 = map Inr (filter (\<lambda>r. c1 < se_sequence r \<and> se_sequence r \<le> c') (records env now))" by blast+
  obtain M where M: "records env now = records env db @ M" using log by (auto simp: prefix_def)
  have sorted: "sorted_wrt (<) (map se_sequence (records env now))" by (rule records_sorted [OF assms(1)])
  have first: "c \<le> c1 \<and> sent = map Inr (filter (\<lambda>r. c < se_sequence r \<and> se_sequence r \<le> c1) (records env now))"
  proof (cases "n = 0")
    case True
    with one show ?thesis by (auto simp: reconcile_durable_events_def filter_empty_conv)
  next
    case False
    with one all_after [OF inv(1), of c] have eq: "sent = map Inr (filter (\<lambda>r. c < se_sequence r) (records env db))"
      "c1 = last (c # map se_sequence (filter (\<lambda>r. c < se_sequence r) (records env db)))"
      by (auto simp: reconcile_durable_events_def)
    have "c \<le> c1"
      using last_in_set [of "map se_sequence (filter (\<lambda>r. c < se_sequence r) (records env db))"] by (auto simp: eq(2))
    with part_of_log [OF sorted [unfolded M], of c] show ?thesis by (simp only: eq M)
  qed
  have "filter (\<lambda>r. c < se_sequence r \<and> se_sequence r \<le> c') rs =
      filter (\<lambda>r. c < se_sequence r \<and> se_sequence r \<le> c1) rs @
      filter (\<lambda>r. c1 < se_sequence r \<and> se_sequence r \<le> c') rs"
    if "sorted_wrt (<) (map se_sequence rs)" for rs :: "session_event stored_event list"
    using that
  proof (induction rs)
    case (Cons r rs)
    show ?case
    proof (cases "se_sequence r \<le> c1")
      case True
      with Cons first ih(1) show ?thesis by auto
    next
      case False
      with Cons.prems have "\<forall>x \<in> set rs. \<not> se_sequence x \<le> c1" by fastforce
      then have "filter (\<lambda>r. c < se_sequence r \<and> se_sequence r \<le> c1) rs = []" by (simp add: filter_empty_conv)
      with Cons False first show ?thesis by auto
    qed
  qed simp
  from this [OF sorted] first ih rest(2) show ?case by simp
qed (auto simp: filter_empty_conv)

lemma decode_all: "decode_notifications (map Inr rs) = (rs, None)"
  by (induction rs) simp_all

section \<open>Plain streams\<close>

lemma after_cursor_append:
  "after_cursor P c (xs @ ys) =
     after_cursor P c xs @ after_cursor P (last (c # map se_sequence (after_cursor P c xs))) ys"
  by (induction xs arbitrary: c) auto

lemma after_cursor_sorted:
  "sorted_wrt (<) (map se_sequence xs) \<Longrightarrow>
   after_cursor P c xs = filter (\<lambda>r. P r \<and> c < se_sequence r) xs"
proof (induction xs arbitrary: c)
  case (Cons x xs)
  then have rest: "\<forall>r \<in> set xs. se_sequence x < se_sequence r" by simp
  show ?case
  proof (cases "P x \<and> c < se_sequence x")
    case True
    with rest have "filter (\<lambda>r. P r \<and> se_sequence x < se_sequence r) xs = filter (\<lambda>r. P r \<and> c < se_sequence r) xs"
      by (intro filter_cong) auto
    with Cons True show ?thesis by simp
  qed (use Cons in auto)
qed simp

text \<open>A replay of the log \<open>A\<close> and a tail that overlaps it, joined by the moving cursor.\<close>

lemma replay_and_tail:
  assumes sorted: "sorted_wrt (<) (map se_sequence (A @ M))"
    and c0: "\<And>r. r \<in> set M \<Longrightarrow> c0 < se_sequence r"
  shows "after_cursor P after (filter (\<lambda>r. P r \<and> after < se_sequence r) A @
      filter (\<lambda>r. c0 < se_sequence r \<and> se_sequence r \<le> c1) (A @ M)) =
    filter (\<lambda>r. P r \<and> after < se_sequence r) (A @ filter (\<lambda>r. se_sequence r \<le> c1) M)"
proof -
  let ?replay = "filter (\<lambda>r. P r \<and> after < se_sequence r) A"
  let ?tail = "filter (\<lambda>r. c0 < se_sequence r \<and> se_sequence r \<le> c1) (A @ M)"
  define c2 where "c2 = last (after # map se_sequence ?replay)"
  have sA: "sorted_wrt (<) (map se_sequence A)" using sorted by (simp add: sorted_wrt_append)
  have s_replay: "sorted_wrt (<) (map se_sequence ?replay)"
    and s_tail: "sorted_wrt (<) (map se_sequence ?tail)"
    using sA sorted by (auto simp only: sorted_wrt_map intro: sorted_wrt_filter)
  have replay: "after_cursor P after ?replay = ?replay"
  proof -
    have "filter (\<lambda>r. P r \<and> after < se_sequence r) ?replay = ?replay" by (rule filter_True) simp
    then show ?thesis by (simp only: after_cursor_sorted [OF s_replay])
  qed
  have top: "sorted_wrt (<) (map se_sequence us) \<Longrightarrow> \<forall>y \<in> set us. se_sequence y \<le> last (z # map se_sequence us)"
    for z and us :: "'a stored_event list"
    by (induction us rule: rev_induct) (auto simp: sorted_wrt_append)
  from top [OF s_replay, of after] have low: "\<forall>r \<in> set A. P r \<and> after < se_sequence r \<longrightarrow> se_sequence r \<le> c2"
    by (simp add: c2_def)
  have "c2 = after \<or> (\<exists>a \<in> set A. after < se_sequence a \<and> c2 = se_sequence a)"
  proof (cases "?replay = []")
    case False
    from last_in_set [OF this] have "last ?replay \<in> set A \<and> after < se_sequence (last ?replay)" by simp
    moreover have "c2 = se_sequence (last ?replay)" using False by (simp add: last_map c2_def)
    ultimately show ?thesis by blast
  qed (simp add: c2_def)
  moreover have "se_sequence a < se_sequence r" if "a \<in> set A" "r \<in> set M" for a r
    using sorted that by (auto simp: sorted_wrt_append)
  ultimately have above: "after \<le> c2" "\<forall>r \<in> set M. after < se_sequence r \<longleftrightarrow> c2 < se_sequence r"
    by fastforce+
  have "after_cursor P after (?replay @ ?tail) = ?replay @ after_cursor P c2 ?tail"
    by (simp only: after_cursor_append replay c2_def)
  also have "after_cursor P c2 ?tail = filter (\<lambda>r. P r \<and> c2 < se_sequence r) ?tail"
    by (rule after_cursor_sorted [OF s_tail])
  also have "\<dots> = filter (\<lambda>r. P r \<and> after < se_sequence r) (filter (\<lambda>r. se_sequence r \<le> c1) M)"
  proof -
    have "filter (\<lambda>r. P r \<and> c2 < se_sequence r) (filter (\<lambda>r. c0 < se_sequence r \<and> se_sequence r \<le> c1) A) = []"
      using low above(1) by (fastforce simp: filter_empty_conv)
    moreover have "filter (\<lambda>r. P r \<and> c2 < se_sequence r) (filter (\<lambda>r. c0 < se_sequence r \<and> se_sequence r \<le> c1) M) =
        filter (\<lambda>r. P r \<and> after < se_sequence r) (filter (\<lambda>r. se_sequence r \<le> c1) M)"
      using c0 above(2) by (auto intro!: filter_cong)
    ultimately show ?thesis by (simp only: filter_append append_Nil)
  qed
  finally show ?thesis by simp
qed

section \<open>A subscription\<close>

text \<open>
  The log grows from \<open>db\<close> to \<open>now\<close>, the publisher reads it in between, and what its cursor \<open>c0\<close> had
  passed before is in \<open>db\<close>.
\<close>

definition subscribed ::
  "('g, 'i) service_env \<Rightarrow> service_db \<Rightarrow> service_db \<Rightarrow> (nat \<times> service_db) list \<Rightarrow> int \<Rightarrow> bool" where
  "subscribed env db now rounds c0 \<longleftrightarrow>
     db_inv env db \<and> db_inv env now \<and> prefix (records env db) (records env now) \<and>
     rounds_of_log env now rounds \<and>
     (\<forall>r \<in> set (records env now). se_sequence r \<le> c0 \<longrightarrow> r \<in> set (records env db))"

text \<open>The records a subscriber can know: those of the log then, and those announced since.\<close>

definition known_record ::
  "('g, 'i) service_env \<Rightarrow> service_db \<Rightarrow> int \<Rightarrow> session_event stored_event \<Rightarrow> bool" where
  "known_record env db c1 r \<longleftrightarrow> se_sequence r \<le> c1 \<or> r \<in> set (records env db)"

lemma subscribed_log:
  assumes "subscribed env db now rounds c0" "reconcile_rounds env rounds c0 = (ns, c1)"
  obtains M where "records env now = records env db @ M"
    "sorted_wrt (<) (map se_sequence (records env db @ M))"
    "\<And>r. r \<in> set M \<Longrightarrow> c0 < se_sequence r"
    "ns = map Inr (filter (\<lambda>r. c0 < se_sequence r \<and> se_sequence r \<le> c1) (records env db @ M))"
    "\<And>P. filter (\<lambda>r. P r \<and> known_record env db c1 r) (records env now) =
       filter P (records env db) @ filter P (filter (\<lambda>r. se_sequence r \<le> c1) M)"
proof -
  note sub = assms(1) [unfolded subscribed_def]
  from sub obtain M where M: "records env now = records env db @ M" by (auto simp: prefix_def)
  have sorted: "sorted_wrt (<) (map se_sequence (records env db @ M))"
    using sub records_sorted [of env now] M by simp
  have apart: "r \<notin> set (records env db)" if "r \<in> set M" for r
    using sorted that by (auto simp: sorted_wrt_append)
  have "c0 < se_sequence r" if "r \<in> set M" for r
    using sub M apart [OF that] that by (metis Un_iff linorder_not_less set_append)
  moreover have "filter (\<lambda>r. P r \<and> known_record env db c1 r) (records env now) =
       filter P (records env db) @ filter P (filter (\<lambda>r. se_sequence r \<le> c1) M)" for P
  proof -
    have "filter (\<lambda>r. P r \<and> known_record env db c1 r) (records env db) = filter P (records env db)"
      by (rule filter_cong) (auto simp: known_record_def)
    moreover have "filter (\<lambda>r. P r \<and> known_record env db c1 r) M = filter P (filter (\<lambda>r. se_sequence r \<le> c1) M)"
      unfolding filter_filter using apart by (intro filter_cong) (auto simp: known_record_def)
    ultimately show ?thesis by (simp only: M filter_append)
  qed
  moreover have "ns = map Inr (filter (\<lambda>r. c0 < se_sequence r \<and> se_sequence r \<le> c1) (records env db @ M))"
    using rounds_announce [of env now rounds c0 ns c1] sub assms(2) M by simp
  ultimately show ?thesis using that M sorted by blast
qed

lemma stream_after:
  assumes "db_inv env db"
  shows "sql_events_after_sequence (sv_events env) db sid n =
    Inr (filter (\<lambda>r. se_streamId r = sid \<and> n < se_sequence r) (records env db))"
proof -
  let ?ec = "sv_events env"
  let ?P = "\<lambda>row. (er_streamKind row = ec_streamKind ?ec \<and> er_streamId row = sid) \<and> n < er_sequence row"
  have rows: "filter (\<lambda>row. er_sequence row > n) (stream_rows (ec_streamKind ?ec) db sid) = filter ?P (db_events db)"
    by (simp add: stream_rows_def)
  have "decode_rows ?ec (filter ?P (db_events db)) = Inr (concat (map (decoded_row ?ec) (filter ?P (db_events db))))"
    using assms by (intro decode_rows_ok) (auto simp: sql_inv_def rows_decode_def)
  moreover have "filter (\<lambda>r. se_streamId r = sid \<and> n < se_sequence r) (records env db) =
      concat (map (decoded_row ?ec) (filter (\<lambda>row. er_streamId row = sid \<and> n < er_sequence row)
        (filter (\<lambda>row. er_streamKind row = ec_streamKind ?ec) (db_events db))))"
    unfolding logged_records_def by (rule filter_decoded) (simp add: decoded_row_fields)
  moreover have "sort_key er_sequence (filter ?P (db_events db)) = filter ?P (db_events db)"
    using assms by (intro sequences_sorted_filter) (simp add: sql_inv_def)
  ultimately show ?thesis
    by (simp only: sql_events_after_sequence_def rows filter_filter conj_assoc)
qed

section \<open>The live tail\<close>

lemma live_tail_drop:
  "\<forall>r \<in> set xs. se_streamVersion r \<le> v \<Longrightarrow> live_tail v (xs @ ys) = live_tail v ys"
  by (induction xs) auto

lemma live_tail_contiguous:
  "map se_streamVersion ys = [v + 1 .. v + int (length ys)] \<Longrightarrow> live_tail v ys = (ys, True)"
proof (induction ys arbitrary: v)
  case (Cons y ys)
  then have "se_streamVersion y = v + 1" "map se_streamVersion ys = [(v + 1) + 1 .. (v + 1) + int (length ys)]"
    using upto_step [of v "length ys"] by (simp_all add: algebra_simps)
  with Cons.IH [of "v + 1"] show ?case by simp
qed simp

lemma upto_prefix: "xs @ ys = [v + 1 .. v + int (length (xs @ ys))] \<Longrightarrow> xs = [v + 1 .. v + int (length xs)]"
proof (induction xs arbitrary: v)
  case (Cons x xs)
  then have "x = v + 1" "xs @ ys = [(v + 1) + 1 .. (v + 1) + int (length (xs @ ys))]"
    using upto_step [of v "length (xs @ ys)"] by (simp_all add: algebra_simps)
  with Cons.IH [of "v + 1"] upto_step [of v "length xs"] show ?case by (simp add: algebra_simps)
qed simp

lemma stream_versions:
  assumes "env_ok env" "db_inv env db"
  shows "map se_streamVersion (filter (\<lambda>r. se_streamId r = sid) (records env db)) =
      [1 .. int (length (filter (\<lambda>r. se_streamId r = sid) (records env db)))]"
    and "current_stream_version env db sid = int (length (filter (\<lambda>r. se_streamId r = sid) (records env db)))"
proof -
  from assms(1) have ok: "codec_ok (sv_events env)" "receipt_codec_ok (sv_receipts env)" by (simp_all add: env_ok_def)
  from dispatch_storage.versions [OF sql_storage_laws [OF ok] assms(2), of sid]
  show "map se_streamVersion (filter (\<lambda>r. se_streamId r = sid) (records env db)) =
      [1 .. int (length (filter (\<lambda>r. se_streamId r = sid) (records env db)))]"
    by (simp add: stream_of_log)
  have "streams_numbered db" using assms(2) by (simp add: sql_inv_def)
  from current_version_length [OF this] sql_stream_length [OF assms(2), of sid]
  show "current_stream_version env db sid = int (length (filter (\<lambda>r. se_streamId r = sid) (records env db)))"
    by (simp add: current_stream_version_def stream_of_log)
qed

text \<open>Old events are at most the version the stream had, new ones follow it without a gap.\<close>

lemma tail_versions:
  assumes ok: "env_ok env" and sub: "subscribed env db now rounds c0"
    and M: "records env now = records env db @ M" "sorted_wrt (<) (map se_sequence (records env db @ M))"
  shows "\<forall>r \<in> set (filter (\<lambda>r. se_streamId r = sid) (records env db)).
      1 \<le> se_streamVersion r \<and> se_streamVersion r \<le> current_stream_version env db sid"
    and "map se_streamVersion (filter (\<lambda>r. se_streamId r = sid) (filter (\<lambda>r. se_sequence r \<le> c1) M)) =
      [current_stream_version env db sid + 1 .. current_stream_version env db sid +
        int (length (filter (\<lambda>r. se_streamId r = sid) (filter (\<lambda>r. se_sequence r \<le> c1) M)))]"
proof -
  let ?S = "filter (\<lambda>r. se_streamId r = sid)"
  let ?n = "current_stream_version env db sid"
  from sub have inv: "db_inv env db" "db_inv env now" by (simp_all add: subscribed_def)
  note old = stream_versions [OF ok inv(1), of sid] and new = stream_versions [OF ok inv(2), of sid]
  show "\<forall>r \<in> set (?S (records env db)). 1 \<le> se_streamVersion r \<and> se_streamVersion r \<le> ?n"
  proof
    fix r assume "r \<in> set (?S (records env db))"
    then have "se_streamVersion r \<in> set (map se_streamVersion (?S (records env db)))" by simp
    then show "1 \<le> se_streamVersion r \<and> se_streamVersion r \<le> ?n" unfolding old by simp
  qed
  have "[1 .. ?n] @ map se_streamVersion (?S M) = [1 .. ?n] @ [?n + 1 .. ?n + int (length (?S M))]"
    using new(1) old by (simp add: M(1) upto_join)
  then have all: "map se_streamVersion (?S M) = [?n + 1 .. ?n + int (length (?S M))]" by simp
  have "sorted_wrt (<) (map se_sequence rs) \<Longrightarrow>
      rs = filter (\<lambda>r. se_sequence r \<le> c1) rs @ filter (\<lambda>r. c1 < se_sequence r) rs" for rs :: "session_event stored_event list"
  proof (induction rs)
    case (Cons r rs)
    show ?case
    proof (cases "se_sequence r \<le> c1")
      case False
      with Cons.prems have "\<forall>x \<in> set rs. c1 < se_sequence x" by fastforce
      with False show ?thesis by (auto simp: filter_empty_conv filter_id_conv)
    qed (use Cons in simp)
  qed simp
  moreover have "sorted_wrt (<) (map se_sequence M)" using M(2) by (simp add: sorted_wrt_append)
  ultimately have split: "M = filter (\<lambda>r. se_sequence r \<le> c1) M @ filter (\<lambda>r. c1 < se_sequence r) M" by blast
  have "map se_streamVersion (?S (filter (\<lambda>r. se_sequence r \<le> c1) M)) @
      map se_streamVersion (?S (filter (\<lambda>r. c1 < se_sequence r) M)) = map se_streamVersion (?S M)"
    by (metis split filter_append map_append)
  with all upto_prefix [of "map se_streamVersion (?S (filter (\<lambda>r. se_sequence r \<le> c1) M))"
      "map se_streamVersion (?S (filter (\<lambda>r. c1 < se_sequence r) M))" ?n]
  show "map se_streamVersion (?S (filter (\<lambda>r. se_sequence r \<le> c1) M)) =
      [?n + 1 .. ?n + int (length (?S (filter (\<lambda>r. se_sequence r \<le> c1) M)))]"
    by (metis length_map)
qed

section \<open>A small log\<close>

definition feed_row :: "int \<Rightarrow> event_row" where
  "feed_row n =
     \<lparr>er_sequence = n, er_eventId = nat_to_string (nat n), er_correlationId = None,
      er_causationEventId = None, er_streamKind = ''session'', er_streamId = ''s1'',
      er_streamVersion = n, er_type = ''event'', er_occurredAt = ''now'', er_actor = None,
      er_payloadJson = ec_encode session_codec (TurnStarted ''t1'' 0 None None None)\<rparr>"

definition feed_db :: "int \<Rightarrow> service_db" where
  "feed_db n =
     empty_service_db\<lparr>db_events := map feed_row [1 .. n], db_lastSequence := n,
       sd_readModel := small_model\<rparr>"

definition feed_record :: "int \<Rightarrow> session_event stored_event" where
  "feed_record n =
     \<lparr>se_eventId = nat_to_string (nat n), se_correlationId = nat_to_string (nat n),
      se_causationEventId = None, se_streamId = ''s1'', se_streamVersion = n, se_sequence = n,
      se_event = TurnStarted ''t1'' 0 None None None\<rparr>"

lemma feed_decodes: "decode_persisted_event session_codec (feed_row n) = Inr (feed_record n)"
  by (simp add: decode_persisted_event_def feed_row_def feed_record_def counted_codec_def read_nat_to_string)

lemma feed_records: "records demo_env (feed_db n) = map feed_record [1 .. n]"
proof -
  have "concat (map (decoded_row session_codec) (map feed_row xs)) = map feed_record xs" for xs
    by (induction xs) (simp_all add: decoded_row_def feed_decodes)
  moreover have "filter (\<lambda>row. er_streamKind row = ''session'') (map feed_row xs) = map feed_row xs" for xs
    by (simp add: filter_map comp_def feed_row_def)
  ultimately show ?thesis
    by (simp add: logged_records_def demo_env_def feed_db_def) (simp add: counted_codec_def)
qed

lemma feed_subscribed:
  "subscribed demo_env (feed_db 1) (feed_db 2) [(1, feed_db 1), (1, feed_db 2)] 0"
proof -
  have two: "[1 .. 2] = [1, 2 :: int]" by (simp add: upto.simps)
  have inv: "db_inv demo_env (feed_db 1)" "db_inv demo_env (feed_db 2)"
    by (simp_all add: sql_inv_def demo_env_def feed_db_def two empty_service_db_def streams_numbered_def
        sequences_grow_def rows_decode_def receipts_decode_def feed_decodes)
      (auto simp: stream_rows_def feed_row_def inj_eq [OF nat_to_string_inj] counted_codec_def two)
  show ?thesis
    using inv by (auto simp: subscribed_def rounds_of_log_def feed_records two feed_record_def)
qed

lemma feed_rounds:
  "reconcile_rounds demo_env [(1, feed_db 1), (1, feed_db 2)] 0 = ([Inr (feed_record 1), Inr (feed_record 2)], 2)"
proof -
  have two: "[1 .. 2] = [1, 2 :: int]" by (simp add: upto.simps)
  have "db_inv demo_env (feed_db 1)" "db_inv demo_env (feed_db 2)"
    using feed_subscribed by (simp_all add: subscribed_def)
  then show ?thesis
    by (simp add: reconcile_durable_events_def all_after feed_records two) (simp add: feed_record_def)
qed

section \<open>Properties\<close>

text \<open>C10: A subscriber of a session's events receives, whatever rounds of the
  publisher overlapped its reading of the log, exactly the events of that session after its cursor
  that the log had or the publisher announced since: in log order, none twice, none left out.\<close>

theorem event_streams_complete:
  assumes "subscribed env db now rounds c0"
    and "reconcile_rounds env rounds c0 = (ns, c1)"
  shows "session_events_stream env db sid after ns =
      Inr (filter (\<lambda>r. se_streamId r = sid \<and> after < se_sequence r \<and> known_record env db c1 r)
             (records env now), None) \<and>
    all_events_stream env db after ns =
      Inr (filter (\<lambda>r. after < se_sequence r \<and> known_record env db c1 r) (records env now), None)"
proof -
  obtain M where M: "records env now = records env db @ M"
    "sorted_wrt (<) (map se_sequence (records env db @ M))"
    "\<And>r. r \<in> set M \<Longrightarrow> c0 < se_sequence r"
    "ns = map Inr (filter (\<lambda>r. c0 < se_sequence r \<and> se_sequence r \<le> c1) (records env db @ M))"
    "\<And>P. filter (\<lambda>r. P r \<and> known_record env db c1 r) (records env now) =
       filter P (records env db) @ filter P (filter (\<lambda>r. se_sequence r \<le> c1) M)"
    by (rule subscribed_log [OF assms]) blast
  have inv: "db_inv env db" using assms(1) by (simp add: subscribed_def)
  have known: "filter (\<lambda>r. P r \<and> after < se_sequence r) (records env db @ filter (\<lambda>r. se_sequence r \<le> c1) M) =
      filter (\<lambda>r. P r \<and> after < se_sequence r \<and> known_record env db c1 r) (records env now)" for P
    using M(5) [of "\<lambda>r. P r \<and> after < se_sequence r"] by (simp only: filter_append conj_assoc)
  note joined = replay_and_tail [OF M(2,3), where after = after and ?c1.0 = c1, unfolded known]
  have tail: "decode_notifications ns =
      (filter (\<lambda>r. c0 < se_sequence r \<and> se_sequence r \<le> c1) (records env db @ M), None)"
    by (simp only: M(4) decode_all)
  show ?thesis
    using joined [of "\<lambda>r. se_streamId r = sid"] joined [of "\<lambda>_. True"]
    by (simp add: session_events_stream_def all_events_stream_def stream_after [OF inv] all_after [OF inv] tail)
qed

theorem event_streams_complete_witness:
  "session_events_stream demo_env (feed_db 1) ''s1'' 0 [Inr (feed_record 1), Inr (feed_record 2)] =
     Inr ([feed_record 1, feed_record 2], None)"
proof -
  have two: "[1 .. 2] = [1, 2 :: int]" by (simp add: upto.simps)
  show ?thesis
    using event_streams_complete [OF feed_subscribed feed_rounds, of "''s1''" 0]
    by (simp add: feed_records two known_record_def) (simp add: feed_record_def)
qed

section \<open>The synchronized stream\<close>

definition event_records :: "synchronization_record list \<Rightarrow> session_event stored_event list" where
  "event_records out = concat (map (\<lambda>x. case x of SyncEvent epoch r \<Rightarrow> [r] | _ \<Rightarrow> []) out)"

lemma event_records_simps [simp]:
  "event_records (xs @ ys) = event_records xs @ event_records ys"
  "event_records (map (SyncEvent epoch) rs) = rs"
  "event_records (sync_reset epoch through input) = []"
  "event_records [] = []"
  "event_records (SyncSnapshot epoch through snap bg # xs) = event_records xs"
  "event_records (SyncSynchronized epoch through # xs) = event_records xs"
  "event_records (map (\<lambda>(items, older). SyncSnapshotChunk epoch through (map fst items) older) chunks) = []"
  by (auto simp: event_records_def sync_reset_def comp_def)

lemma history_has_no_events:
  "sync_history senv epoch db moments input through cursor = (chunks, fin) \<Longrightarrow> event_records chunks = []"
  by (auto simp: sync_history_def event_records_def split: option.splits if_splits prod.splits)

text \<open>The session is there at every read of its history.\<close>

abbreviation session_remains :: "service_db list \<Rightarrow> string \<Rightarrow> bool" where
  "session_remains dbs sid \<equiv> \<forall>db \<in> set dbs. \<exists>s. get_session (sd_readModel db) sid = Inr s"

lemma sync_history_done:
  assumes "sync_history senv epoch db moments input through cursor = (chunks, fin)"
    and "sy_background input \<or> session_remains (db # moments) (sy_streamId input)"
  shows "fin = HistoryDone"
proof -
  have "session_remains (db # moments) sid \<Longrightarrow>
      snd (history_pages d (sd_readModel db) (map sd_readModel moments) sid c) = HistoryDone" for d sid c
    by (rule history_stops) auto
  with assms show ?thesis
    by (auto simp: sync_history_def split: option.splits if_splits prod.splits) (metis snd_conv)
qed

text \<open>The tail of a subscription: what was logged before is dropped, the rest has no gap.\<close>

lemma live_tail_of_subscription:
  assumes ok: "env_ok env" and sub: "subscribed env db now rounds c0"
    and rounds: "reconcile_rounds env rounds c0 = (ns, c1)"
    and base: "b \<le> current_stream_version env db sid"
  obtains tail where "decode_notifications ns = (tail, None)"
    "live_tail (current_stream_version env db sid) (filter (\<lambda>r. se_streamId r = sid) tail) =
       (filter (\<lambda>r. se_streamId r = sid \<and> current_stream_version env db sid < se_streamVersion r \<and>
          known_record env db c1 r) (records env now), True)"
    "filter (\<lambda>r. se_streamId r = sid \<and> b < se_streamVersion r \<and> known_record env db c1 r) (records env now) =
       filter (\<lambda>r. se_streamId r = sid \<and> b < se_streamVersion r) (records env db) @
       filter (\<lambda>r. se_streamId r = sid \<and> current_stream_version env db sid < se_streamVersion r \<and>
          known_record env db c1 r) (records env now)"
proof -
  let ?n = "current_stream_version env db sid"
  obtain M where M: "records env now = records env db @ M"
    "sorted_wrt (<) (map se_sequence (records env db @ M))"
    "\<And>r. r \<in> set M \<Longrightarrow> c0 < se_sequence r"
    "ns = map Inr (filter (\<lambda>r. c0 < se_sequence r \<and> se_sequence r \<le> c1) (records env db @ M))"
    "\<And>P. filter (\<lambda>r. P r \<and> known_record env db c1 r) (records env now) =
       filter P (records env db) @ filter P (filter (\<lambda>r. se_sequence r \<le> c1) M)"
    by (rule subscribed_log [OF sub rounds]) blast
  note versions = tail_versions [OF ok sub M(1,2)]
  let ?new = "filter (\<lambda>r. se_streamId r = sid) (filter (\<lambda>r. se_sequence r \<le> c1) M)"
  let ?tail = "filter (\<lambda>r. c0 < se_sequence r \<and> se_sequence r \<le> c1) (records env db @ M)"
  have "set (map se_streamVersion ?new) \<subseteq> {?n <..}" unfolding versions(2) by auto
  then have newer: "\<forall>r \<in> set ?new. ?n < se_streamVersion r" by auto
  have new: "filter (\<lambda>r. se_streamId r = sid \<and> c < se_streamVersion r) (filter (\<lambda>r. se_sequence r \<le> c1) M) = ?new"
    if "c \<le> ?n" for c
    unfolding filter_filter using newer that by (intro filter_cong) auto
  have "filter (\<lambda>r. se_streamId r = sid \<and> ?n < se_streamVersion r) (records env db) = []"
    using versions(1) [of sid] by (auto simp: filter_empty_conv not_less)
  then have above: "filter (\<lambda>r. se_streamId r = sid \<and> ?n < se_streamVersion r \<and> known_record env db c1 r)
      (records env now) = ?new"
    using M(5) [of "\<lambda>r. se_streamId r = sid \<and> ?n < se_streamVersion r"] new [of ?n] by (simp only: conj_assoc append_Nil order_refl)
  show ?thesis
  proof (rule that)
    show "decode_notifications ns = (?tail, None)" by (simp only: M(4) decode_all)
    have "filter (\<lambda>r. c0 < se_sequence r \<and> se_sequence r \<le> c1) M = filter (\<lambda>r. se_sequence r \<le> c1) M"
      using M(3) by (intro filter_cong) auto
    then have tail: "filter (\<lambda>r. se_streamId r = sid) ?tail =
        filter (\<lambda>r. se_streamId r = sid) (filter (\<lambda>r. c0 < se_sequence r \<and> se_sequence r \<le> c1) (records env db)) @ ?new"
      by (simp only: filter_append)
    have "live_tail ?n (filter (\<lambda>r. se_streamId r = sid) ?tail) = live_tail ?n ?new"
      unfolding tail using versions(1) [of sid] by (intro live_tail_drop) auto
    also have "\<dots> = (?new, True)" by (rule live_tail_contiguous [OF versions(2)])
    finally show "live_tail ?n (filter (\<lambda>r. se_streamId r = sid) ?tail) =
        (filter (\<lambda>r. se_streamId r = sid \<and> ?n < se_streamVersion r \<and> known_record env db c1 r) (records env now), True)"
      by (simp only: above)
    show "filter (\<lambda>r. se_streamId r = sid \<and> b < se_streamVersion r \<and> known_record env db c1 r) (records env now) =
        filter (\<lambda>r. se_streamId r = sid \<and> b < se_streamVersion r) (records env db) @
        filter (\<lambda>r. se_streamId r = sid \<and> ?n < se_streamVersion r \<and> known_record env db c1 r) (records env now)"
      using M(5) [of "\<lambda>r. se_streamId r = sid \<and> b < se_streamVersion r"] new [OF base] above by (simp only: conj_assoc)
  qed
qed

lemma delta_of_log:
  assumes "env_ok env" "db_inv env db"
  shows "sql_events_in_version_range (sv_events env) db sid b (current_stream_version env db sid) =
    Inr (filter (\<lambda>r. se_streamId r = sid \<and> b < se_streamVersion r) (records env db))"
proof -
  let ?n = "current_stream_version env db sid"
  let ?S = "filter (\<lambda>r. se_streamId r = sid) (records env db)"
  have "set (map se_streamVersion ?S) \<subseteq> {1 .. ?n}" using stream_versions [OF assms, of sid] by simp
  then have "filter (\<lambda>r. b < se_streamVersion r \<and> se_streamVersion r \<le> ?n) ?S =
      filter (\<lambda>r. b < se_streamVersion r) ?S" by (intro filter_cong) auto
  then show ?thesis
    using assms(2) by (simp add: version_range_of_stream sql_inv_def stream_of_log)
qed

text \<open>What a prefix stands for: a snapshot at the current version, or the delta after the client's.\<close>

lemma prefix_reaches:
  assumes ok: "env_ok env" and inv: "db_inv env db" and sid: "sid = sy_streamId input"
    and pre: "sync_prefix env senv bytes epoch db input = Inr (out, through, cursor)"
  obtains base where "base \<le> through" "through = current_stream_version env db sid"
    "event_records out = filter (\<lambda>r. se_streamId r = sid \<and> base < se_streamVersion r) (records env db)"
    "(\<exists>snap. read_timeline_snapshot senv (sd_readModel db) sid = Inr snap \<and>
        SyncSnapshot epoch base snap (sy_background input) \<in> set out \<and> base = through) \<or>
     (sy_hasProjection input \<and> sy_afterVersion input = Some base)"
proof -
  let ?n = "current_stream_version env db sid"
  let ?delta = "filter (\<lambda>r. se_streamId r = sid \<and> retained_version input < se_streamVersion r) (records env db)"
  from pre have through: "through = ?n" by (auto simp: sync_prefix_def sid Let_def split: sum.splits prod.splits bool.splits)
  obtain captured snap where cap: "capture_delta env bytes epoch db ?n input = Inr (captured, snap)"
    using pre by (auto simp: sync_prefix_def sid Let_def split: sum.splits)
  show ?thesis
  proof (cases snap)
    case True
    from pre obtain s where s: "read_timeline_snapshot senv (sd_readModel db) sid = Inr s"
      "out = sync_reset epoch ?n input @ [SyncSnapshot epoch ?n s (sy_background input)]"
      by (auto simp: sync_prefix_def Let_def cap [unfolded sid] True sid split: sum.splits)
    have "filter (\<lambda>r. se_streamId r = sid \<and> ?n < se_streamVersion r) (records env db) = []"
    proof -
      have "set (map se_streamVersion (filter (\<lambda>r. se_streamId r = sid) (records env db))) \<subseteq> {1 .. ?n}"
        using stream_versions [OF ok inv, of sid] by simp
      then show ?thesis by (fastforce simp: filter_empty_conv)
    qed
    with s that [of ?n] through show ?thesis by simp
  next
    case False
    with cap have kept: "\<not> snapshot_needed epoch ?n input" "captured = ?delta"
      using delta_of_log [OF ok inv, of sid "retained_version input"]
      by (auto simp: capture_delta_def sid split: if_splits)
    from pre have out: "out = sync_reset epoch ?n input @
        map (SyncEvent epoch) (filter (\<lambda>r. se_streamVersion r > retained_version input) captured)"
      by (auto simp: sync_prefix_def Let_def cap [unfolded sid] False sid)
    from kept(1) have "retained_version input \<le> ?n" "sy_hasProjection input"
      "sy_afterVersion input = Some (retained_version input)"
      by (auto simp: snapshot_needed_def retained_version_def or_else_def split: option.splits)
    moreover have "event_records out = ?delta"
      by (simp add: out kept(2) conj_commute cong: conj_cong)
    ultimately show ?thesis using that [of "retained_version input"] through by simp
  qed
qed

section \<open>Properties of the synchronized stream\<close>

text \<open>C7: The synchronized stream of a session starts from a base, a
  snapshot of the read model at the stream's current version or the version the client holds a
  projection of, and gives exactly the events of the session after that base that were logged or
  announced since, in order. The pages of the history are read from whatever the database is at each
  of these reads, as long as the session still exists. Nothing the publisher does in the meantime makes it report a gap.\<close>

theorem synchronized_without_gaps:
  assumes "env_ok env" and "subscribed env db now rounds c0"
    and "reconcile_rounds env rounds c0 = (ns, c1)"
    and "synchronized_events env senv bytes epoch db later moments input ns = Inr (out, ok)"
    and "sy_background input \<or> session_remains (later # moments) (sy_streamId input)"
  shows "ok \<and> (\<exists>base. ((\<exists>snap. read_timeline_snapshot senv (sd_readModel db) (sy_streamId input) = Inr snap \<and>
          SyncSnapshot epoch base snap (sy_background input) \<in> set out \<and>
          base = current_stream_version env db (sy_streamId input)) \<or>
        (sy_hasProjection input \<and> sy_afterVersion input = Some base)) \<and>
      event_records out =
        filter (\<lambda>r. se_streamId r = sy_streamId input \<and> base < se_streamVersion r \<and>
          known_record env db c1 r) (records env now))"
proof -
  let ?sid = "sy_streamId input"
  have inv: "db_inv env db" using assms(2) by (simp add: subscribed_def)
  from assms(4) obtain pre through cursor where pre: "sync_prefix env senv bytes epoch db input = Inr (pre, through, cursor)"
    by (auto simp: synchronized_events_def split: sum.splits)
  obtain base where base: "base \<le> through" "through = current_stream_version env db ?sid"
    "event_records pre = filter (\<lambda>r. se_streamId r = ?sid \<and> base < se_streamVersion r) (records env db)"
    "(\<exists>snap. read_timeline_snapshot senv (sd_readModel db) ?sid = Inr snap \<and>
        SyncSnapshot epoch base snap (sy_background input) \<in> set pre \<and> base = through) \<or>
     (sy_hasProjection input \<and> sy_afterVersion input = Some base)"
    by (rule prefix_reaches [OF assms(1) inv refl pre]) blast
  obtain chunks fin where history: "sync_history senv epoch later moments input through cursor = (chunks, fin)"
    by (cases "sync_history senv epoch later moments input through cursor")
  have fin: "fin = HistoryDone" by (rule sync_history_done [OF history assms(5)])
  obtain tail where tail: "decode_notifications ns = (tail, None)"
    "live_tail (current_stream_version env db ?sid) (filter (\<lambda>r. se_streamId r = ?sid) tail) =
       (filter (\<lambda>r. se_streamId r = ?sid \<and> current_stream_version env db ?sid < se_streamVersion r \<and>
          known_record env db c1 r) (records env now), True)"
    "filter (\<lambda>r. se_streamId r = ?sid \<and> base < se_streamVersion r \<and> known_record env db c1 r) (records env now) =
       filter (\<lambda>r. se_streamId r = ?sid \<and> base < se_streamVersion r) (records env db) @
       filter (\<lambda>r. se_streamId r = ?sid \<and> current_stream_version env db ?sid < se_streamVersion r \<and>
          known_record env db c1 r) (records env now)"
    by (rule live_tail_of_subscription [OF assms(1-3) base(1) [unfolded base(2)]]) blast
  from assms(4) have out: "ok" "out = pre @ chunks @ [SyncSynchronized epoch through] @ map (SyncEvent epoch)
      (filter (\<lambda>r. se_streamId r = ?sid \<and> current_stream_version env db ?sid < se_streamVersion r \<and>
          known_record env db c1 r) (records env now))"
    by (auto simp: synchronized_events_def pre history [unfolded base(2)] fin tail(1,2) base(2))
  have "event_records out = event_records pre @ filter (\<lambda>r. se_streamId r = ?sid \<and>
      current_stream_version env db ?sid < se_streamVersion r \<and> known_record env db c1 r) (records env now)"
    by (simp add: out(2) history_has_no_events [OF history])
  with tail(3) base(3) have "event_records out =
      filter (\<lambda>r. se_streamId r = ?sid \<and> base < se_streamVersion r \<and> known_record env db c1 r) (records env now)"
    by (simp only:)
  moreover have "set pre \<subseteq> set out" by (auto simp: out(2))
  ultimately show ?thesis using out(1) base(2,4) by blast
qed

definition feed_sync :: sync_input where
  "feed_sync =
     \<lparr>sy_streamId = ''s1'', sy_afterVersion = None, sy_streamEpoch = None, sy_hasProjection = False,
      sy_background = False, sy_maxDeltaEvents = 512, sy_maxDeltaBytes = 1000\<rparr>"

text \<open>A client without a projection gets the snapshot at version 1 and then the second event.\<close>

theorem synchronized_without_gaps_witness:
  "\<exists>out. synchronized_events demo_env small_env (\<lambda>epoch r. 1) ''epoch'' (feed_db 1) (feed_db 1) [feed_db 2] feed_sync
     [Inr (feed_record 1), Inr (feed_record 2)] = Inr (out, True) \<and> event_records out = [feed_record 2]"
proof -
  have two: "[1 .. 2] = [1, 2 :: int]" by (simp add: upto.simps)
  let ?stream = "synchronized_events demo_env small_env (\<lambda>epoch r. 1) ''epoch'' (feed_db 1) (feed_db 1) [feed_db 2] feed_sync
     [Inr (feed_record 1), Inr (feed_record 2)]"
  have rm: "sd_readModel (feed_db 1) = small_model" by (simp add: feed_db_def)
  have inv: "db_inv demo_env (feed_db 1)" using feed_subscribed by (simp add: subscribed_def)
  have version: "current_stream_version demo_env (feed_db 1) ''s1'' = 1"
    using stream_versions(2) [OF demo_env_ok inv, of "''s1''"] by (simp add: feed_records) (simp add: feed_record_def)
  have "\<not> isl (get_session small_model ''s1'')" by code_simp
  then have "\<exists>s. get_session small_model ''s1'' = Inr s" by (cases "get_session small_model ''s1''") auto
  then have sess: "session_remains [feed_db 1, feed_db 2] (sy_streamId feed_sync)"
    by (simp add: feed_db_def feed_sync_def)
  have "\<not> isl (sync_prefix demo_env small_env (\<lambda>epoch r. 1) ''epoch'' (feed_db 1) feed_sync)"
    by (simp add: sync_prefix_def Let_def capture_delta_def snapshot_needed_def feed_sync_def rm small_snapshot_read)
  then have "\<not> isl ?stream"
    by (auto simp: synchronized_events_def split: sum.splits prod.splits)
  then obtain out ok where out: "?stream = Inr (out, ok)" by (cases ?stream) auto
  from synchronized_without_gaps [OF demo_env_ok feed_subscribed feed_rounds out] sess
  have "ok" "event_records out = filter (\<lambda>r. se_streamId r = ''s1'' \<and> 1 < se_streamVersion r \<and>
      known_record demo_env (feed_db 1) 2 r) (records demo_env (feed_db 2))"
    using version by (auto simp: feed_sync_def)
  with out show ?thesis
    by (simp add: feed_records two known_record_def) (simp add: feed_record_def)
qed

end
