(* ===== verification/Client_Timeline.thy ===== *)
theory Client_Timeline
  imports Event_Streams
begin

text \<open>
  The timeline a client holds: \<open>packages/client-runtime/src/session-timeline.ts\<close>, the reducer every
  client platform runs over the frames of \<open>session.events\<close>.

  The identity of JavaScript objects, which tells an optimistic message from the one the reducer
  knows, is a parameter (\<open>same\<close>). The texts of errors are a datatype with what they interpolate.
\<close>

section \<open>Frames\<close>

record stream_cursor =
  sc_epoch :: string
  sc_version :: int

record snapshot_frame =
  sf_throughVersion :: int
  sf_projection :: timeline_projection
  sf_cursor :: "stream_cursor option"
  sf_olderMessageSequence :: "int option option"
  sf_totalMessageCount :: "int option"
  sf_background :: bool

record chunk_frame =
  cf_throughVersion :: int
  cf_messages :: "timeline_message list"
  cf_olderMessageSequence :: "int option"
  cf_cursor :: "stream_cursor option"

record event_frame =
  ef_streamVersion :: int
  ef_eventId :: string
  ef_event :: timeline_event
  ef_cursor :: "stream_cursor option"

datatype timeline_frame =
  RuntimeFrame string stream_cursor runtime_observation
| SnapshotFrame string snapshot_frame
| ChunkFrame string chunk_frame
| EventFrame string event_frame
| SynchronizedFrame string int "stream_cursor option"
| ResetRequiredFrame string int stream_cursor reset_reason

section \<open>State\<close>

datatype client_phase = ClientEmpty | ClientCached | ClientSynchronizing | ClientLive | ClientStale | ClientDeleted

datatype client_error =
  SnapshotCursorMismatch int int
| ResetEpochExpected string string
| EpochChanged string string
| ChunkWithoutSnapshot string int
| SynchronizedElsewhere string int "string option" "int option"
| AssembledCount int int
| EventCursorMismatch int int
| EventBeforeReset
| EventEpochChanged string string
| EventWithoutProjection
| VersionExpected int int

record client_state =
  tc_projection :: "timeline_projection option"
  tc_cursor :: "stream_cursor option"
  tc_resetEpoch :: "string option"
  tc_phase :: client_phase
  tc_error :: "client_error option"
  tc_optimistic :: "(string, timeline_message) jsmap"
  tc_snapshotMessageCount :: "int option"

definition empty_client_state :: client_state where
  "empty_client_state =
     \<lparr>tc_projection = None, tc_cursor = None, tc_resetEpoch = None, tc_phase = ClientEmpty,
      tc_error = None, tc_optimistic = [], tc_snapshotMessageCount = None\<rparr>"

definition restore_client_state ::
  "timeline_projection option \<Rightarrow> stream_cursor option \<Rightarrow> client_state" where
  "restore_client_state projection cursor =
     (case (projection, cursor) of
        (Some p, Some c) \<Rightarrow>
          empty_client_state\<lparr>tc_projection := Some (p\<lparr>tp_runtimeObservation := None\<rparr>),
            tc_cursor := Some c, tc_phase := ClientCached\<rparr>
      | _ \<Rightarrow> empty_client_state)"

section \<open>Objects and maps\<close>

text \<open>\<open>Object.values\<close> gives the keys that are array indices first, in their order.\<close>

definition array_index :: "string \<Rightarrow> nat option" where
  "array_index s =
     (if nat_to_string (read_digits 0 s) = s \<and> read_digits 0 s < 2 ^ 32 - 1 then Some (read_digits 0 s) else None)"

definition object_entries :: "(string, 'v) jsmap \<Rightarrow> (string \<times> 'v) list" where
  "object_entries m =
     sort_key (\<lambda>(k, v). the (array_index k)) (filter (\<lambda>(k, v). array_index k \<noteq> None) m) @
     filter (\<lambda>(k, v). array_index k = None) m"

text \<open>\<open>new Map(entries)\<close>: the place of the first entry of a key and the value of its last.\<close>

definition map_from :: "('k \<times> 'v) list \<Rightarrow> ('k, 'v) jsmap" where
  "map_from entries = foldl (\<lambda>m (k, v). AList.update k v m) [] entries"

definition messages_by_id :: "timeline_message list \<Rightarrow> (string, timeline_message) jsmap" where
  "messages_by_id messages = map_from (map (\<lambda>m. (tm_id m, m)) messages)"

section \<open>Optimistic messages\<close>

text \<open>\<open>findIndex\<close> answers \<open>-1\<close>; \<open>slice(Math.max(0, -1))\<close> is then the whole list.\<close>

definition observe_optimistic ::
  "(timeline_message \<Rightarrow> timeline_message \<Rightarrow> bool) \<Rightarrow> client_state \<Rightarrow> timeline_projection \<Rightarrow> bool \<Rightarrow>
   client_state" where
  "observe_optimistic same st p history_prepend =
     (let known = (case tc_projection st of None \<Rightarrow> [] | Some q \<Rightarrow> tp_messages q);
          boundary =
            (case known of
               [] \<Rightarrow> 0
             | m # _ \<Rightarrow>
                 if history_prepend then or_else (find_index (\<lambda>x. tm_id x = tm_id m) (tp_messages p)) 0 else 0);
          previous = messages_by_id known;
          added = filter (\<lambda>m. case map_of previous (tm_id m) of None \<Rightarrow> True | Some x \<Rightarrow> \<not> same x m)
            (drop boundary (tp_messages p))
      in st\<lparr>tc_projection := Some (p\<lparr>tp_runtimeObservation :=
                Option.bind (tc_projection st) tp_runtimeObservation\<rparr>),
            tc_optimistic := foldl (\<lambda>o' m. AList.update (tm_id m) m o') (tc_optimistic st) added\<rparr>)"

definition reconcile_optimistic ::
  "timeline_projection \<Rightarrow> (string, timeline_message) jsmap \<Rightarrow>
   timeline_projection \<times> (string, timeline_message) jsmap" where
  "reconcile_optimistic p optimistic =
     (let durable_ids = map tm_id (tp_messages p);
          retained = filter (\<lambda>m. tm_id m \<notin> set durable_ids) (map snd (object_entries optimistic))
      in (p\<lparr>tp_messages := tp_messages p @ retained\<rparr>, messages_by_id retained))"

section \<open>History\<close>

definition prepend_messages ::
  "client_state \<Rightarrow> timeline_message list \<Rightarrow> int option \<Rightarrow> client_state" where
  "prepend_messages st messages older =
     (case tc_projection st of
        None \<Rightarrow> st
      | Some p \<Rightarrow>
          if messages = [] then st\<lparr>tc_projection := Some (p\<lparr>tp_olderMessageSequence := Some older\<rparr>)\<rparr>
          else
            st\<lparr>tc_projection := Some (p\<lparr>tp_messages := map snd (messages_by_id (messages @ tp_messages p)),
                  tp_olderMessageSequence := Some older\<rparr>)\<rparr>)"

definition preserve_history ::
  "timeline_projection option \<Rightarrow> stream_cursor option \<Rightarrow> timeline_projection \<Rightarrow> stream_cursor \<Rightarrow>
   timeline_projection" where
  "preserve_history previous previous_cursor nxt next_cursor =
     (case previous of
        None \<Rightarrow> nxt
      | Some q \<Rightarrow>
          if previous_cursor \<noteq> Some next_cursor \<or> or_null (tp_olderMessageSequence nxt) = None then nxt
          else
            (case tp_messages nxt of
               [] \<Rightarrow> nxt
             | m # _ \<Rightarrow>
                 (case find_index (\<lambda>x. tm_id x = tm_id m) (tp_messages q) of
                    None \<Rightarrow> nxt
                  | Some i \<Rightarrow>
                      if i = 0 then nxt
                      else nxt\<lparr>tp_messages := take i (tp_messages q) @ tp_messages nxt,
                               tp_olderMessageSequence := Some (or_null (tp_olderMessageSequence q))\<rparr>)))"

section \<open>The reducer\<close>

definition cursor_for_frame :: "client_state \<Rightarrow> int \<Rightarrow> stream_cursor option \<Rightarrow> stream_cursor" where
  "cursor_for_frame st v cursor =
     (case cursor of
        Some c \<Rightarrow> c
      | None \<Rightarrow>
          \<lparr>sc_epoch = (case tc_cursor st of None \<Rightarrow> ''legacy'' | Some c \<Rightarrow> sc_epoch c), sc_version = v\<rparr>)"

definition invalid_cursor :: "client_state \<Rightarrow> client_error \<Rightarrow> client_state" where
  "invalid_cursor st e = st\<lparr>tc_phase := ClientStale, tc_error := Some e\<rparr>"

definition reduce_runtime :: "client_state \<Rightarrow> stream_cursor \<Rightarrow> runtime_observation \<Rightarrow> client_state" where
  "reduce_runtime st cursor observation =
     (case tc_projection st of
        None \<Rightarrow> st
      | Some p \<Rightarrow>
          if tc_phase st \<noteq> ClientLive \<or> tc_cursor st \<noteq> Some cursor \<or>
             map_option (\<lambda>t. ta_id (tt_attempt t)) (tp_activeTurn p) \<noteq> ro_attemptId observation \<or>
             (case tp_runtimeObservation p of None \<Rightarrow> - 1 | Some o' \<Rightarrow> ro_observedAt o') > ro_observedAt observation
          then st
          else st\<lparr>tc_projection := Some (p\<lparr>tp_runtimeObservation := Some observation\<rparr>)\<rparr>)"

definition snapshot_older :: "snapshot_frame \<Rightarrow> int option" where
  "snapshot_older f =
     or_opt (or_null (sf_olderMessageSequence f)) (or_null (tp_olderMessageSequence (sf_projection f)))"

text \<open>An error, an older snapshot that is ignored (\<open>False\<close>), or one to show (\<open>True\<close>).\<close>

definition check_snapshot :: "client_state \<Rightarrow> snapshot_frame \<Rightarrow> stream_cursor \<Rightarrow> client_error + bool" where
  "check_snapshot st f cursor =
     (if sc_version cursor \<noteq> sf_throughVersion f
      then Inl (SnapshotCursorMismatch (sc_version cursor) (sf_throughVersion f))
      else
        (case tc_resetEpoch st of
           Some e \<Rightarrow> if sc_epoch cursor \<noteq> e then Inl (ResetEpochExpected e (sc_epoch cursor)) else Inr True
         | None \<Rightarrow>
             (case tc_cursor st of
                None \<Rightarrow> Inr True
              | Some c \<Rightarrow>
                  if sc_epoch cursor \<noteq> sc_epoch c then Inl (EpochChanged (sc_epoch c) (sc_epoch cursor))
                  else Inr (\<not> sc_version cursor < sc_version c))))"

definition show_snapshot :: "client_state \<Rightarrow> snapshot_frame \<Rightarrow> stream_cursor \<Rightarrow> client_state" where
  "show_snapshot st f cursor =
     (case reconcile_optimistic
             (preserve_history (if tc_resetEpoch st = None then tc_projection st else None) (tc_cursor st)
                ((sf_projection f)\<lparr>tp_olderMessageSequence := Some (snapshot_older f)\<rparr>) cursor)
             (tc_optimistic st) of
        (projection, optimistic) \<Rightarrow>
          st\<lparr>tc_projection := Some projection, tc_optimistic := optimistic, tc_cursor := Some cursor,
             tc_resetEpoch := None, tc_phase := ClientSynchronizing, tc_error := None,
             tc_snapshotMessageCount := (if sf_background f then None else sf_totalMessageCount f)\<rparr>)"

definition reduce_snapshot :: "client_state \<Rightarrow> snapshot_frame \<Rightarrow> client_state" where
  "reduce_snapshot st f =
     (let cursor = cursor_for_frame st (sf_throughVersion f) (sf_cursor f) in
      case check_snapshot st f cursor of
        Inl e \<Rightarrow> invalid_cursor st e
      | Inr False \<Rightarrow> st
      | Inr True \<Rightarrow> show_snapshot st f cursor)"

definition reduce_chunk :: "client_state \<Rightarrow> chunk_frame \<Rightarrow> client_state" where
  "reduce_chunk st f =
     (let cursor = cursor_for_frame st (cf_throughVersion f) (cf_cursor f) in
      if tc_projection st = None \<or> tc_cursor st \<noteq> Some cursor \<or> sc_version cursor \<noteq> cf_throughVersion f
      then invalid_cursor st (ChunkWithoutSnapshot (sc_epoch cursor) (cf_throughVersion f))
      else prepend_messages st (cf_messages f) (cf_olderMessageSequence f))"

definition reduce_synchronized :: "client_state \<Rightarrow> int \<Rightarrow> stream_cursor option \<Rightarrow> client_state" where
  "reduce_synchronized st through frame_cursor =
     (let cursor = cursor_for_frame st through frame_cursor;
          elsewhere = invalid_cursor st (SynchronizedElsewhere (sc_epoch cursor) through
            (map_option sc_epoch (tc_cursor st)) (map_option sc_version (tc_cursor st)))
      in case (tc_projection st, tc_cursor st) of
        (Some p, Some c) \<Rightarrow>
          if tc_resetEpoch st \<noteq> None \<or> sc_epoch c \<noteq> sc_epoch cursor \<or> sc_version c < sc_version cursor \<or>
             sc_version cursor \<noteq> through
          then elsewhere
          else
            (case tc_snapshotMessageCount st of
               Some n \<Rightarrow>
                 if int (length (tp_messages p)) \<noteq> n
                 then invalid_cursor st (AssembledCount n (int (length (tp_messages p))))
                 else st\<lparr>tc_phase := ClientLive, tc_error := None, tc_snapshotMessageCount := None\<rparr>
             | None \<Rightarrow> st\<lparr>tc_phase := ClientLive, tc_error := None, tc_snapshotMessageCount := None\<rparr>)
      | _ \<Rightarrow> elsewhere)"

definition reduce_reset :: "client_state \<Rightarrow> stream_cursor \<Rightarrow> client_state" where
  "reduce_reset st cursor =
     (if tc_resetEpoch st = Some (sc_epoch cursor) then st
      else st\<lparr>tc_resetEpoch := Some (sc_epoch cursor), tc_phase := ClientSynchronizing, tc_error := None\<rparr>)"

fun persisted_message :: "timeline_event \<Rightarrow> string option" where
  "persisted_message (TlMessagePersisted m turn_id) = Some (tm_id m)"
| "persisted_message _ = None"

definition apply_event_frame ::
  "collation \<Rightarrow> client_state \<Rightarrow> timeline_projection \<Rightarrow> stream_cursor \<Rightarrow> timeline_event \<Rightarrow> client_state" where
  "apply_event_frame collate st p cursor e =
     st\<lparr>tc_projection := Some (apply_timeline_event collate (p\<lparr>tp_runtimeObservation := None\<rparr>) e),
        tc_optimistic := (case persisted_message e of
            None \<Rightarrow> tc_optimistic st
          | Some i \<Rightarrow> filter (\<lambda>(k, m). k \<noteq> i) (object_entries (tc_optimistic st))),
        tc_cursor := Some cursor,
        tc_phase := (if tc_phase st = ClientLive then ClientLive else ClientSynchronizing),
        tc_error := None\<rparr>"

definition reduce_event :: "collation \<Rightarrow> client_state \<Rightarrow> event_frame \<Rightarrow> client_state" where
  "reduce_event collate st f =
     (let cursor = cursor_for_frame st (ef_streamVersion f) (ef_cursor f) in
      if sc_version cursor \<noteq> ef_streamVersion f
      then invalid_cursor st (EventCursorMismatch (sc_version cursor) (ef_streamVersion f))
      else if tc_resetEpoch st \<noteq> None then invalid_cursor st EventBeforeReset
      else
        (case tc_cursor st of
           Some c \<Rightarrow>
             if sc_epoch cursor \<noteq> sc_epoch c
             then invalid_cursor st (EventEpochChanged (sc_epoch c) (sc_epoch cursor))
             else if sc_version cursor \<le> sc_version c then st
             else
               (case tc_projection st of
                  None \<Rightarrow> invalid_cursor st EventWithoutProjection
                | Some p \<Rightarrow>
                    if ef_streamVersion f \<noteq> sc_version c + 1
                    then invalid_cursor st (VersionExpected (sc_version c + 1) (ef_streamVersion f))
                    else apply_event_frame collate st p cursor (ef_event f))
         | None \<Rightarrow>
             (case tc_projection st of
                None \<Rightarrow> invalid_cursor st EventWithoutProjection
              | Some p \<Rightarrow>
                  if ef_streamVersion f \<noteq> 1 then invalid_cursor st (VersionExpected 1 (ef_streamVersion f))
                  else apply_event_frame collate st p cursor (ef_event f))))"

definition reduce_frame :: "collation \<Rightarrow> client_state \<Rightarrow> timeline_frame \<Rightarrow> client_state" where
  "reduce_frame collate st frame =
     (if tc_phase st = ClientDeleted then st
      else
        (case frame of
           RuntimeFrame sid cursor observation \<Rightarrow> reduce_runtime st cursor observation
         | SnapshotFrame sid f \<Rightarrow> reduce_snapshot st f
         | ChunkFrame sid f \<Rightarrow> reduce_chunk st f
         | EventFrame sid f \<Rightarrow> reduce_event collate st f
         | SynchronizedFrame sid through cursor \<Rightarrow> reduce_synchronized st through cursor
         | ResetRequiredFrame sid through cursor reason \<Rightarrow> reduce_reset st cursor))"

section \<open>The server's frames\<close>

text \<open>The handler of \<open>session.events\<close> in \<open>apps/server/src/provider/handlers.ts\<close>.\<close>

fun frame_of_record :: "timeline_decoders \<Rightarrow> string \<Rightarrow> synchronization_record \<Rightarrow> timeline_frame" where
  "frame_of_record d sid (SyncResetRequired epoch through reason) =
     ResetRequiredFrame sid through \<lparr>sc_epoch = epoch, sc_version = through\<rparr> reason"
| "frame_of_record d sid (SyncSnapshot epoch through snap background) =
     SnapshotFrame sid
       \<lparr>sf_throughVersion = through, sf_projection = ts_projection snap,
        sf_cursor = Some \<lparr>sc_epoch = epoch, sc_version = through\<rparr>,
        sf_olderMessageSequence = Some (ts_olderMessageSequence snap),
        sf_totalMessageCount = Some (ts_totalMessageCount snap), sf_background = background\<rparr>"
| "frame_of_record d sid (SyncSnapshotChunk epoch through messages older) =
     ChunkFrame sid
       \<lparr>cf_throughVersion = through, cf_messages = messages, cf_olderMessageSequence = older,
        cf_cursor = Some \<lparr>sc_epoch = epoch, sc_version = through\<rparr>\<rparr>"
| "frame_of_record d sid (SyncSynchronized epoch through) =
     SynchronizedFrame sid through (Some \<lparr>sc_epoch = epoch, sc_version = through\<rparr>)"
| "frame_of_record d sid (SyncEvent epoch r) =
     EventFrame sid
       \<lparr>ef_streamVersion = se_streamVersion r, ef_eventId = se_eventId r,
        ef_event = timeline_event_from_domain d sid (se_event r),
        ef_cursor = Some \<lparr>sc_epoch = epoch, sc_version = se_streamVersion r\<rparr>\<rparr>"

section \<open>Subscribing\<close>

text \<open>
  What \<open>session-timeline-driver.ts\<close> asks for when it starts from the restored state \<open>st\<close>; the handler
  leaves the bounds of the delta to their defaults.
\<close>

definition cached_turn_may_be_stale :: "client_state \<Rightarrow> bool \<Rightarrow> bool" where
  "cached_turn_may_be_stale st background \<longleftrightarrow>
     \<not> background \<and>
     (case tc_projection st of
        None \<Rightarrow> False
      | Some p \<Rightarrow> tp_activeTurn p \<noteq> None \<or> tp_status p \<in> {StatusRunning, StatusBooting})"

definition session_request :: "string \<Rightarrow> client_state \<Rightarrow> bool \<Rightarrow> sync_input" where
  "session_request sid st background =
     \<lparr>sy_streamId = sid, sy_afterVersion = map_option sc_version (tc_cursor st),
      sy_streamEpoch = map_option sc_epoch (tc_cursor st),
      sy_hasProjection =
        (case tc_projection st of
           None \<Rightarrow> False
         | Some p \<Rightarrow> or_null (tp_olderMessageSequence p) = None \<and> \<not> cached_turn_may_be_stale st background),
      sy_background = background, sy_maxDeltaEvents = 512,
      sy_maxDeltaBytes = max_timeline_snapshot_projection_bytes\<rparr>"

text \<open>The loop over the frames fails at the first one that leaves the state stale.\<close>

fun run_frames :: "collation \<Rightarrow> client_state \<Rightarrow> timeline_frame list \<Rightarrow> client_state" where
  "run_frames collate st [] = st"
| "run_frames collate st (f # fs) =
     (let st' = reduce_frame collate st f in
      if tc_phase st' = ClientStale then st' else run_frames collate st' fs)"

end
