(* ===== verification/Client_Stream.thy ===== *)
theory Client_Stream
  imports Client_Timeline Event_Stream_Properties
begin

text \<open>
  A client at the end of the server's synchronized stream: what the reducer of the client makes of
  the frames the server sends, and when it goes live.
\<close>

section \<open>Frames\<close>

declare frame_of_record.simps [simp del]

lemma observation_kept [simp]:
  "tp_runtimeObservation (apply_timeline_event collate p e) = tp_runtimeObservation p"
  by (cases e) (simp_all add: apply_message_def apply_StatusSet_def apply_TurnUpdated_def
      apply_TranscriptRolledBack_def apply_TurnSettled_def apply_QueueEnqueued_def
      apply_QueueReordered_def with_items_def Let_def split: option.splits)

text \<open>The client shows \<open>p\<close> and has the stream up to \<open>v\<close>.\<close>

definition holds_at :: "client_state \<Rightarrow> string \<Rightarrow> int \<Rightarrow> timeline_projection \<Rightarrow> bool" where
  "holds_at st epoch v p \<longleftrightarrow>
     tc_projection st = Some p \<and> tp_runtimeObservation p = None \<and>
     tc_cursor st = Some \<lparr>sc_epoch = epoch, sc_version = v\<rparr> \<and> tc_resetEpoch st = None \<and>
     tc_phase st \<in> {ClientCached, ClientSynchronizing, ClientLive} \<and> tc_error st = None"

lemma holds_at_phase: "holds_at st epoch v p \<Longrightarrow> tc_phase st \<noteq> ClientStale \<and> tc_phase st \<noteq> ClientDeleted"
  by (auto simp: holds_at_def)

lemma run_append:
  "tc_phase (run_frames collate st xs) \<noteq> ClientStale \<Longrightarrow>
   run_frames collate st (xs @ ys) = run_frames collate (run_frames collate st xs) ys"
  by (induction xs arbitrary: st) (auto simp: Let_def split: if_splits)

abbreviation event_frames ::
  "timeline_decoders \<Rightarrow> string \<Rightarrow> string \<Rightarrow> session_event stored_event list \<Rightarrow> timeline_frame list" where
  "event_frames d sid epoch rs \<equiv> map (\<lambda>r. frame_of_record d sid (SyncEvent epoch r)) rs"

abbreviation timeline_events ::
  "timeline_decoders \<Rightarrow> string \<Rightarrow> session_event stored_event list \<Rightarrow> timeline_event list" where
  "timeline_events d sid rs \<equiv> map (\<lambda>r. timeline_event_from_domain d sid (se_event r)) rs"

lemma run_events:
  assumes "holds_at st epoch v p" "map se_streamVersion rs = [v + 1 .. v + int (length rs)]"
  shows "holds_at (run_frames collate st (event_frames d sid epoch rs)) epoch (v + int (length rs))
      (foldl (apply_timeline_event collate) p (timeline_events d sid rs)) \<and>
    tc_snapshotMessageCount (run_frames collate st (event_frames d sid epoch rs)) = tc_snapshotMessageCount st \<and>
    (tc_phase st = ClientLive \<longrightarrow> tc_phase (run_frames collate st (event_frames d sid epoch rs)) = ClientLive)"
  using assms
proof (induction rs arbitrary: st v p)
  case (Cons r rs)
  from Cons.prems(2) have v: "se_streamVersion r = v + 1"
    "map se_streamVersion rs = [(v + 1) + 1 .. (v + 1) + int (length rs)]"
    using upto_step [of v "length rs"] by (simp_all add: algebra_simps)
  let ?e = "timeline_event_from_domain d sid (se_event r)"
  define st' where "st' = reduce_frame collate st (frame_of_record d sid (SyncEvent epoch r))"
  have plain: "p\<lparr>tp_runtimeObservation := None\<rparr> = p" using Cons.prems(1) by (simp add: holds_at_def)
  have st': "st' = apply_event_frame collate st p \<lparr>sc_epoch = epoch, sc_version = v + 1\<rparr> ?e"
    using Cons.prems(1) v(1)
    by (auto simp: st'_def holds_at_def reduce_frame_def reduce_event_def cursor_for_frame_def frame_of_record.simps)
  have held: "holds_at st' epoch (v + 1) (apply_timeline_event collate p ?e)"
    using Cons.prems(1) by (auto simp: st' holds_at_def apply_event_frame_def plain)
  have same: "tc_snapshotMessageCount st' = tc_snapshotMessageCount st"
    "tc_phase st = ClientLive \<Longrightarrow> tc_phase st' = ClientLive" by (simp_all add: st' apply_event_frame_def)
  have "run_frames collate st (event_frames d sid epoch (r # rs)) = run_frames collate st' (event_frames d sid epoch rs)"
    using holds_at_phase [OF held] by (simp add: st'_def Let_def)
  with Cons.IH [OF held v(2)] same show ?case by (simp add: algebra_simps)
qed simp

lemma run_synchronized:
  assumes "holds_at st epoch v p"
    and "tc_snapshotMessageCount st = None \<or> tc_snapshotMessageCount st = Some (int (length (tp_messages p)))"
  shows "reduce_frame collate st (frame_of_record d sid (SyncSynchronized epoch v)) =
      st\<lparr>tc_phase := ClientLive, tc_error := None, tc_snapshotMessageCount := None\<rparr>"
  using assms by (auto simp: holds_at_def reduce_frame_def reduce_synchronized_def cursor_for_frame_def frame_of_record.simps)

lemma synchronized_miscounted:
  assumes "holds_at st epoch v p" "tc_snapshotMessageCount st = Some n" "n \<noteq> int (length (tp_messages p))"
  shows "reduce_frame collate st (frame_of_record d sid (SyncSynchronized epoch v)) =
      invalid_cursor st (AssembledCount n (int (length (tp_messages p))))"
  using assms by (auto simp: holds_at_def reduce_frame_def reduce_synchronized_def cursor_for_frame_def frame_of_record.simps)

section \<open>The snapshot\<close>

lemma snapshot_projection:
  assumes "read_timeline_snapshot senv rm sid = Inr snap"
  shows "tp_runtimeObservation (ts_projection snap) = None \<and>
    tp_olderMessageSequence (ts_projection snap) = Some (ts_olderMessageSequence snap) \<and>
    ts_totalMessageCount snap = int (length (filter (\<lambda>m. mr_sessionId m = sid) (rm_messages rm)))"
proof -
  obtain s page interactions where fit: "fit_snapshot senv
       (make_projection s (active_turn_from_head (head_turn rm sid)) (head_turn_count rm sid)
          (concat (map (queue_item (sp_decoders senv) sid) (queue_rows rm sid))) interactions)
       page (snapshot_step_rows rm sid)
       (int (length (filter (\<lambda>m. mr_sessionId m = sid) (rm_messages rm)))) = Inr snap"
    by (rule snapshot_fits [OF assms]) (simp add: that)
  then show ?thesis
    by (auto simp: fit_snapshot_def Let_def make_projection_def split: prod.splits if_splits)
qed

lemma no_optimistic [simp]: "reconcile_optimistic p [] = (p, [])"
  by (simp add: reconcile_optimistic_def object_entries_def messages_by_id_def map_from_def)

lemma older_of_snapshot:
  assumes "read_timeline_snapshot senv rm sid = Inr snap"
  shows "snapshot_older
      \<lparr>sf_throughVersion = v, sf_projection = ts_projection snap, sf_cursor = c,
       sf_olderMessageSequence = Some (ts_olderMessageSequence snap), sf_totalMessageCount = n,
       sf_background = bg\<rparr> = ts_olderMessageSequence snap"
  using snapshot_projection [OF assms] by (cases "ts_olderMessageSequence snap") (simp_all add: snapshot_older_def)

text \<open>A snapshot put over what was shown keeps older pages the client had read at the same version.\<close>

definition shown_over :: "timeline_projection option \<Rightarrow> timeline_projection \<Rightarrow> timeline_projection \<Rightarrow> bool" where
  "shown_over cached p q \<longleftrightarrow>
     q = p \<or>
     (\<exists>c pages rest older. cached = Some c \<and> tp_messages c = pages @ rest \<and>
        q = p\<lparr>tp_messages := pages @ tp_messages p, tp_olderMessageSequence := older\<rparr>)"

lemma preserve_shown: "shown_over previous p (preserve_history previous c p c')"
proof (cases "preserve_history previous c p c' = p")
  case False
  then obtain q m ms i where q: "previous = Some q" "tp_messages p = m # ms"
    "preserve_history previous c p c' = p\<lparr>tp_messages := take i (tp_messages q) @ tp_messages p,
       tp_olderMessageSequence := Some (or_null (tp_olderMessageSequence q))\<rparr>"
    by (auto simp: preserve_history_def split: option.splits if_splits list.splits)
  have "tp_messages q = take i (tp_messages q) @ drop i (tp_messages q)" by simp
  with q(1,3) show ?thesis unfolding shown_over_def by blast
qed (simp add: shown_over_def)

lemma restored:
  assumes "st = restore_client_state cached cursor"
  obtains "st = empty_client_state"
  | p c where "tc_projection st = Some p" "tp_runtimeObservation p = None" "tc_cursor st = Some c"
      "st = empty_client_state\<lparr>tc_projection := Some p, tc_cursor := Some c, tc_phase := ClientCached\<rparr>"
  using assms by (cases cached; cases cursor) (auto simp: restore_client_state_def)

lemma empty_fields [simp]:
  "tc_projection empty_client_state = None" "tc_cursor empty_client_state = None"
  "tc_resetEpoch empty_client_state = None" "tc_phase empty_client_state = ClientEmpty"
  "tc_optimistic empty_client_state = []" "tc_error empty_client_state = None"
  by (simp_all add: empty_client_state_def)

lemma request_fields [simp]:
  "sy_streamId (session_request sid st bg) = sid"
  "sy_afterVersion (session_request sid st bg) = map_option sc_version (tc_cursor st)"
  "sy_streamEpoch (session_request sid st bg) = map_option sc_epoch (tc_cursor st)"
  "sy_background (session_request sid st bg) = bg"
  by (simp_all add: session_request_def)

lemma show_restored:
  assumes "read_timeline_snapshot senv rm sid = Inr snap"
    and "tc_optimistic st = []" "tc_phase st \<noteq> ClientDeleted"
    and cursor: "case tc_resetEpoch st of Some e \<Rightarrow> e = epoch
      | None \<Rightarrow> (case tc_cursor st of None \<Rightarrow> True | Some c \<Rightarrow> sc_epoch c = epoch \<and> sc_version c \<le> v)"
    and shown: "q = preserve_history (if tc_resetEpoch st = None then tc_projection st else None) (tc_cursor st)
      (ts_projection snap) \<lparr>sc_epoch = epoch, sc_version = v\<rparr>"
  shows "holds_at (reduce_frame collate st (frame_of_record d sid (SyncSnapshot epoch v snap bg))) epoch v q \<and>
    tc_snapshotMessageCount (reduce_frame collate st (frame_of_record d sid (SyncSnapshot epoch v snap bg))) =
      (if bg then None else Some (ts_totalMessageCount snap))"
proof -
  note snap = snapshot_projection [OF assms(1)]
  have "(ts_projection snap)\<lparr>tp_olderMessageSequence := Some (ts_olderMessageSequence snap)\<rparr> = ts_projection snap"
    using snap by simp
  note same = this
  have "tp_runtimeObservation q = None"
    using snap by (auto simp: shown preserve_history_def split: option.splits list.splits)
  moreover have "check_snapshot st
      \<lparr>sf_throughVersion = v, sf_projection = ts_projection snap, sf_cursor = Some \<lparr>sc_epoch = epoch, sc_version = v\<rparr>,
       sf_olderMessageSequence = Some (ts_olderMessageSequence snap),
       sf_totalMessageCount = Some (ts_totalMessageCount snap), sf_background = bg\<rparr>
      \<lparr>sc_epoch = epoch, sc_version = v\<rparr> = Inr True"
    using cursor by (auto simp: check_snapshot_def split: option.splits)
  ultimately show ?thesis
    using assms(2,3)
    by (simp add: reduce_frame_def reduce_snapshot_def cursor_for_frame_def frame_of_record.simps show_snapshot_def
        older_of_snapshot [OF assms(1)] same shown [symmetric])
      (simp add: holds_at_def)
qed

lemma run_snapshot:
  assumes "env_ok env" "db_inv env db"
    and st: "st = restore_client_state cached cursor" and input: "input = session_request sid st bg"
    and v: "v = current_stream_version env db sid"
    and snap: "read_timeline_snapshot senv rm sid = Inr snap"
  shows "\<exists>q. let st' = run_frames collate st (map (frame_of_record d sid) (sync_reset epoch v input @
        [SyncSnapshot epoch v snap bg])) in
      holds_at st' epoch v q \<and> shown_over (tc_projection st) (ts_projection snap) q \<and>
      (tc_cursor st = None \<longrightarrow> q = ts_projection snap) \<and>
      tc_snapshotMessageCount st' = (if bg then None else Some (ts_totalMessageCount snap))"
proof -
  let ?reset = "epoch_mismatch epoch input \<or> retained_version input > v"
  have nat: "0 \<le> v" using stream_versions(2) [OF assms(1,2), of sid] v by simp
  define st1 where "st1 = run_frames collate st (map (frame_of_record d sid) (sync_reset epoch v input))"
  have fields: "tc_optimistic st = []" "tc_resetEpoch st = None" "tc_phase st \<in> {ClientEmpty, ClientCached}"
    by (rule restored [OF st]; simp)+
  have st1: "st1 = (if ?reset then st\<lparr>tc_resetEpoch := Some epoch, tc_phase := ClientSynchronizing, tc_error := None\<rparr> else st)"
    using fields by (auto simp: st1_def sync_reset_def reduce_frame_def reduce_reset_def frame_of_record.simps Let_def)
  then have alive: "tc_phase st1 \<notin> {ClientStale, ClientDeleted}" using fields by auto
  let ?q = "preserve_history (if tc_resetEpoch st1 = None then tc_projection st1 else None) (tc_cursor st1)
      (ts_projection snap) \<lparr>sc_epoch = epoch, sc_version = v\<rparr>"
  have "case tc_resetEpoch st1 of Some e \<Rightarrow> e = epoch
      | None \<Rightarrow> (case tc_cursor st1 of None \<Rightarrow> True | Some c \<Rightarrow> sc_epoch c = epoch \<and> sc_version c \<le> v)"
    using fields nat by (auto simp: st1 input epoch_mismatch_def retained_version_def split: option.splits)
  from show_restored [OF snap _ _ this refl, of collate d bg] alive fields
  have held: "holds_at (reduce_frame collate st1 (frame_of_record d sid (SyncSnapshot epoch v snap bg))) epoch v ?q"
    "tc_snapshotMessageCount (reduce_frame collate st1 (frame_of_record d sid (SyncSnapshot epoch v snap bg))) =
      (if bg then None else Some (ts_totalMessageCount snap))" by (auto simp: st1)
  have "shown_over (tc_projection st) (ts_projection snap) ?q"
  proof (cases ?reset)
    case False
    then have "st1 = st" by (simp only: st1 if_False)
    with fields(2) preserve_shown [of "tc_projection st" "ts_projection snap" "tc_cursor st"] show ?thesis
      by (simp only: if_True simp_thms)
  next
    case True
    then have "tc_resetEpoch st1 = Some epoch" by (simp add: st1)
    then have "?q = ts_projection snap" by (simp add: preserve_history_def)
    then show ?thesis by (simp only: shown_over_def simp_thms)
  qed
  moreover have "tc_cursor st = None \<longrightarrow> ?q = ts_projection snap"
    by (auto simp: st1 preserve_history_def split: option.splits)
  moreover have "run_frames collate st (map (frame_of_record d sid) (sync_reset epoch v input @ [SyncSnapshot epoch v snap bg])) =
      reduce_frame collate st1 (frame_of_record d sid (SyncSnapshot epoch v snap bg))"
    using alive holds_at_phase [OF held(1)]
    by (simp add: run_append st1_def [symmetric] Let_def)
  ultimately show ?thesis using held unfolding Let_def by metis
qed

section \<open>The whole stream\<close>

lemma prefix_shape:
  assumes ok: "env_ok env" and inv: "db_inv env db" and sid: "sid = sy_streamId input"
    and v: "v = current_stream_version env db sid"
    and counts: "\<forall>b. sy_afterVersion input = Some b \<longrightarrow> 0 \<le> b"
    and pre: "sync_prefix env senv bytes epoch db input = Inr (out, through, cursor)"
  obtains
    (snapshot) snap where "through = v" "read_timeline_snapshot senv (sd_readModel db) sid = Inr snap"
      "out = sync_reset epoch v input @ [SyncSnapshot epoch v snap (sy_background input)]"
      "cursor = ts_olderMessageSequence snap"
  | (delta) b rs where "through = v" "cursor = None" "out = map (SyncEvent epoch) rs" "sy_hasProjection input"
      "sy_afterVersion input = Some b" "b \<le> v" "\<not> epoch_mismatch epoch input"
      "rs = filter (\<lambda>r. se_streamId r = sid \<and> b < se_streamVersion r) (records env db)"
      "map se_streamVersion rs = [b + 1 .. v]"
proof -
  from pre have through: "through = v" by (auto simp: sync_prefix_def sid v Let_def split: sum.splits prod.splits bool.splits)
  obtain captured snap where cap: "capture_delta env bytes epoch db v input = Inr (captured, snap)"
    using pre by (auto simp: sync_prefix_def sid v Let_def split: sum.splits)
  show ?thesis
  proof (cases snap)
    case True
    with pre cap that(1) through show ?thesis
      by (auto simp: sync_prefix_def Let_def sid v split: sum.splits)
  next
    case False
    let ?b = "retained_version input"
    let ?S = "filter (\<lambda>r. se_streamId r = sid) (records env db)"
    let ?rs = "filter (\<lambda>r. se_streamId r = sid \<and> ?b < se_streamVersion r) (records env db)"
    from False cap have kept: "\<not> snapshot_needed epoch v input" "captured = ?rs"
      using delta_of_log [OF ok inv, of sid ?b] by (auto simp: capture_delta_def sid v split: if_splits)
    from pre have out: "cursor = None" "out = sync_reset epoch v input @
        map (SyncEvent epoch) (filter (\<lambda>r. se_streamVersion r > ?b) captured)"
      by (auto simp: sync_prefix_def Let_def cap [unfolded sid v] False sid v)
    have need: "?b \<le> v" "\<not> epoch_mismatch epoch input" "sy_hasProjection input" "sy_afterVersion input = Some ?b"
      using kept(1) by (auto simp: snapshot_needed_def retained_version_def or_else_def split: option.splits)
    have "map se_streamVersion (filter (\<lambda>r. ?b < se_streamVersion r) ?S) = filter (\<lambda>x. ?b < x) (map se_streamVersion ?S)"
      by (simp add: filter_map comp_def)
    also have "\<dots> = filter (\<lambda>x. ?b < x) [1 .. v]" using stream_versions [OF ok inv, of sid] by (simp add: v)
    finally have versions: "map se_streamVersion ?rs = filter (\<lambda>x. ?b < x) [1 .. v]" by (simp add: conj_commute)
    have "[1 .. v] = [1 .. ?b] @ [?b + 1 .. v]" using upto_join [OF counts [rule_format, OF need(4)] need(1)] by simp
    then have "filter (\<lambda>x. ?b < x) [1 .. v] = [?b + 1 .. v]"
      by (simp add: filter_empty_conv filter_id_conv)
    with that(2) [of ?rs ?b] through out kept need versions show ?thesis
      by (simp add: sync_reset_def filter_id_conv)
  qed
qed

text \<open>What the stream holds: prefix, history and events after it.\<close>

lemma stream_shape:
  assumes ok: "env_ok env" and sub: "subscribed env db now rounds c0"
    and rounds: "reconcile_rounds env rounds c0 = (ns, c1)"
    and counts: "\<forall>b. sy_afterVersion input = Some b \<longrightarrow> 0 \<le> b"
    and out: "synchronized_events env senv bytes epoch db later moments input ns = Inr (out, alive)"
    and session: "sy_background input \<or> session_remains (later # moments) (sy_streamId input)"
    and sid: "sid = sy_streamId input" and v: "v = current_stream_version env db sid"
  obtains pre cursor chunks rs where
    "sync_prefix env senv bytes epoch db input = Inr (pre, v, cursor)"
    "sync_history senv epoch later moments input v cursor = (chunks, HistoryDone)"
    "out = pre @ chunks @ [SyncSynchronized epoch v] @ map (SyncEvent epoch) rs"
    "rs = filter (\<lambda>r. se_streamId r = sid \<and> v < se_streamVersion r \<and> known_record env db c1 r) (records env now)"
    "map se_streamVersion rs = [v + 1 .. v + int (length rs)]"
    "\<forall>b \<le> v.
      filter (\<lambda>r. se_streamId r = sid \<and> b < se_streamVersion r \<and> known_record env db c1 r) (records env now) =
      filter (\<lambda>r. se_streamId r = sid \<and> b < se_streamVersion r) (records env db) @ rs"
proof -
  have inv: "db_inv env db" using sub by (simp add: subscribed_def)
  from out obtain pre through cursor where pre: "sync_prefix env senv bytes epoch db input = Inr (pre, through, cursor)"
    by (auto simp: synchronized_events_def split: sum.splits)
  have through: "through = v" by (rule prefix_shape [OF ok inv sid v counts pre])
  obtain chunks fin where history: "sync_history senv epoch later moments input v cursor = (chunks, fin)"
    by (cases "sync_history senv epoch later moments input v cursor")
  have fin: "fin = HistoryDone" by (rule sync_history_done [OF history session])
  define rs where "rs = filter (\<lambda>r. se_streamId r = sid \<and> v < se_streamVersion r \<and> known_record env db c1 r) (records env now)"
  obtain tail where tail: "decode_notifications ns = (tail, None)"
    "live_tail v (filter (\<lambda>r. se_streamId r = sid) tail) = (rs, True)"
    by (rule live_tail_of_subscription [OF ok sub rounds order_refl, of sid]) (simp add: v rs_def that)
  have all: "filter (\<lambda>r. se_streamId r = sid \<and> b < se_streamVersion r \<and> known_record env db c1 r) (records env now) =
      filter (\<lambda>r. se_streamId r = sid \<and> b < se_streamVersion r) (records env db) @ rs" if "b \<le> v" for b
    by (rule live_tail_of_subscription [OF ok sub rounds that [unfolded v]]) (simp add: v rs_def)
  have "map se_streamVersion rs = [v + 1 .. v + int (length rs)]"
  proof -
    have "live_tail w xs = (ys, True) \<Longrightarrow> map se_streamVersion ys = [w + 1 .. w + int (length ys)]" for w xs ys
    proof (induction xs arbitrary: w ys)
      case (Cons x xs)
      show ?case
      proof (cases "se_streamVersion x \<le> w")
        case True
        with Cons show ?thesis by simp
      next
        case False
        with Cons.prems obtain zs where zs: "se_streamVersion x = w + 1" "live_tail (w + 1) xs = (zs, True)" "ys = x # zs"
          by (auto split: if_splits prod.splits)
        from Cons.IH [OF zs(2)] show ?thesis using upto_step [of w "length zs"] by (simp add: zs algebra_simps)
      qed
    qed simp
    from this [OF tail(2)] show ?thesis .
  qed
  moreover have "out = pre @ chunks @ [SyncSynchronized epoch v] @ map (SyncEvent epoch) rs"
    using out by (auto simp: synchronized_events_def pre through history fin tail sid [symmetric])
  ultimately show ?thesis using that pre through history fin all rs_def by blast
qed

lemma run_finish:
  assumes held: "holds_at st epoch v p"
    and count: "tc_snapshotMessageCount st = None \<or> tc_snapshotMessageCount st = Some (int (length (tp_messages p)))"
    and versions: "map se_streamVersion rs = [v + 1 .. v + int (length rs)]"
    and final: "final = run_frames collate st (map (frame_of_record d sid) ([SyncSynchronized epoch v] @ map (SyncEvent epoch) rs))"
  shows "tc_phase final = ClientLive \<and> holds_at final epoch (v + int (length rs))
      (foldl (apply_timeline_event collate) p (timeline_events d sid rs))"
proof -
  let ?live = "st\<lparr>tc_phase := ClientLive, tc_error := None, tc_snapshotMessageCount := None\<rparr>"
  have live: "holds_at ?live epoch v p" "tc_phase ?live = ClientLive" using held by (simp_all add: holds_at_def)
  have "final = run_frames collate ?live (event_frames d sid epoch rs)"
    unfolding final by (simp add: run_synchronized [OF held count] Let_def comp_def)
  with run_events [OF live(1) versions] live(2) show ?thesis by simp
qed

section \<open>Assembling the history\<close>

lemma map_from_distinct: "distinct (map fst es) \<Longrightarrow> map_from es = es"
proof (induction es rule: rev_induct)
  case (snoc e es)
  have new: "k \<notin> set (keys m) \<Longrightarrow> AList.update k v m = m @ [(k, v)]" for k :: 'a and v :: 'b and m
    by (induction m) auto
  from snoc have "map_from es = es" "fst e \<notin> set (map fst es)" by auto
  with new [of "fst e" es "snd e"] show ?case by (simp add: map_from_def split_def)
qed (simp add: map_from_def)

lemma by_id_distinct: "distinct (map tm_id ms) \<Longrightarrow> map snd (messages_by_id ms) = ms"
  by (simp add: messages_by_id_def map_from_distinct comp_def)

abbreviation chunk_frames ::
  "timeline_decoders \<Rightarrow> string \<Rightarrow> string \<Rightarrow> int \<Rightarrow> ((timeline_message \<times> int) list \<times> int option) list \<Rightarrow> timeline_frame list"
where
  "chunk_frames d sid epoch v chunks \<equiv>
     map (\<lambda>(items, older). frame_of_record d sid (SyncSnapshotChunk epoch v (map fst items) older)) chunks"

lemma run_chunks:
  assumes "holds_at st epoch v p"
    and "distinct (map tm_id (map fst (concat (rev (map fst chunks))) @ tp_messages p))"
  shows "\<exists>st'. run_frames collate st (chunk_frames d sid epoch v chunks) = st' \<and>
    holds_at st' epoch v (p\<lparr>tp_messages := map fst (concat (rev (map fst chunks))) @ tp_messages p,
      tp_olderMessageSequence := (if chunks = [] then tp_olderMessageSequence p else Some (snd (last chunks)))\<rparr>) \<and>
    tc_snapshotMessageCount st' = tc_snapshotMessageCount st"
  using assms
proof (induction chunks arbitrary: st p)
  case (Cons chunk chunks)
  obtain items older where chunk: "chunk = (items, older)" by (cases chunk)
  let ?p = "p\<lparr>tp_messages := map fst items @ tp_messages p, tp_olderMessageSequence := Some older\<rparr>"
  have ids: "distinct (map tm_id (map fst items @ tp_messages p))" using Cons.prems(2) by (auto simp: chunk)
  have step: "reduce_frame collate st (frame_of_record d sid (SyncSnapshotChunk epoch v (map fst items) older)) =
      st\<lparr>tc_projection := Some ?p\<rparr>"
    using Cons.prems(1) by_id_distinct [OF ids]
    by (auto simp: holds_at_def reduce_frame_def reduce_chunk_def cursor_for_frame_def frame_of_record.simps prepend_messages_def)
  have held: "holds_at (st\<lparr>tc_projection := Some ?p\<rparr>) epoch v ?p"
    using Cons.prems(1) by (simp add: holds_at_def)
  have "distinct (map tm_id (map fst (concat (rev (map fst chunks))) @ tp_messages ?p))"
    using Cons.prems(2) by (simp add: chunk)
  note ih = Cons.IH [OF held this]
  have "run_frames collate st (chunk_frames d sid epoch v (chunk # chunks)) =
      run_frames collate (st\<lparr>tc_projection := Some ?p\<rparr>) (chunk_frames d sid epoch v chunks)"
    using holds_at_phase [OF held] by (simp add: chunk step Let_def)
  with ih show ?case by (cases "chunks = []") (simp_all add: chunk)
qed simp

lemma history_last:
  "history_pages d rm moments sid before = (chunks, HistoryDone) \<Longrightarrow> chunks \<noteq> [] \<and> snd (last chunks) = None"
proof (induction d rm moments sid before arbitrary: chunks rule: history_pages.induct)
  case (1 d rm moments sid before)
  from "1.prems" show ?case
    by (subst (asm) history_pages.simps)
      (auto split: sum.splits option.splits if_splits prod.splits dest!: "1.IH")
qed

abbreviation session_rows :: "read_model \<Rightarrow> string \<Rightarrow> message_row list" where
  "session_rows rm sid \<equiv> sort_key mr_sequence (filter (\<lambda>m. mr_sessionId m = sid) (rm_messages rm))"

definition readable_messages :: "timeline_decoders \<Rightarrow> string \<Rightarrow> message_row list \<Rightarrow> timeline_message list" where
  "readable_messages d sid rows = map fst (concat (map (\<lambda>m. timeline_item d sid (message_record m)) rows))"

lemma readable_ids:
  assumes "distinct (map mr_id rows)"
  shows "distinct (map tm_id (readable_messages d sid rows))"
proof -
  have one: "map (\<lambda>x. tm_id (fst x)) (timeline_item d sid (message_record m)) \<in> {[], [mr_id m]}" for m
    by (simp add: timeline_item_def message_record_def split: option.splits)
  have "set (map (\<lambda>x. tm_id (fst x)) (concat (map (\<lambda>m. timeline_item d sid (message_record m)) ms))) \<subseteq> mr_id ` set ms" for ms
  proof (induction ms)
    case (Cons m ms)
    with one [of m] show ?case by auto
  qed simp
  note sub = this
  have "distinct (map mr_id ms) \<Longrightarrow>
      distinct (map (\<lambda>x. tm_id (fst x)) (concat (map (\<lambda>m. timeline_item d sid (message_record m)) ms)))" for ms
  proof (induction ms)
    case (Cons m ms)
    let ?f = "\<lambda>x. tm_id (fst x)"
    let ?one = "timeline_item d sid (message_record m)"
    let ?rest = "concat (map (\<lambda>m. timeline_item d sid (message_record m)) ms)"
    have "set (map ?f ?one) \<subseteq> {mr_id m}" "distinct (map ?f ?one)" using one [of m] by auto
    moreover have "set (map ?f ?one) \<inter> set (map ?f ?rest) = {}"
    proof -
      have "mr_id m \<notin> mr_id ` set ms" using Cons.prems by simp
      with calculation(1) sub [of ms] show ?thesis by blast
    qed
    ultimately show ?case using Cons by (simp only: list.map concat.simps map_append distinct_append) simp
  qed simp
  from this [OF assms] show ?thesis by (simp add: readable_messages_def comp_def)
qed

lemma snapshot_with_later_history:
  assumes "read_timeline_snapshot senv rm sid = Inr snap"
    and "\<forall>m \<in> set (later # moments). (\<exists>s. get_session m sid = Inr s) \<and> history_kept senv rm m sid"
    and "\<forall>m \<in> set (rm_messages rm). mr_sequence m < max_safe_integer"
  shows "map fst (concat (rev (map fst (case ts_olderMessageSequence snap of
        None \<Rightarrow> [] | Some older \<Rightarrow> fst (history_pages (sp_decoders senv) later moments sid older))))) @
      tp_messages (ts_projection snap) = readable_messages (sp_decoders senv) sid (session_rows rm sid)"
  using messages_complete [OF assms] by (simp add: readable_messages_def)

end
