(* ===== verification/Client_Properties.thy ===== *)
theory Client_Properties
  imports Client_Stream
begin

text \<open>What a client shows when it follows the server's stream.\<close>

lemma run_prefix:
  assumes ok: "env_ok env" and inv: "db_inv env db"
    and st: "st = restore_client_state cached cursor" and input: "input = session_request sid st bg"
    and counts: "\<forall>c. tc_cursor st = Some c \<longrightarrow> 0 \<le> sc_version c"
    and v: "v = current_stream_version env db sid"
    and pre: "sync_prefix env senv bytes epoch db input = Inr (pre, v, history)"
  obtains
    (snapshot) snap q where "read_timeline_snapshot senv (sd_readModel db) sid = Inr snap"
      "SyncSnapshot epoch v snap bg \<in> set pre" "history = ts_olderMessageSequence snap"
      "holds_at (run_frames collate st (map (frame_of_record d sid) pre)) epoch v q"
      "shown_over (tc_projection st) (ts_projection snap) q"
      "tc_cursor st = None \<longrightarrow> q = ts_projection snap"
      "tc_snapshotMessageCount (run_frames collate st (map (frame_of_record d sid) pre)) =
        (if bg then None else Some (ts_totalMessageCount snap))"
  | (delta) p b rs where "history = None" "tc_projection st = Some p"
      "tc_cursor st = Some \<lparr>sc_epoch = epoch, sc_version = b\<rparr>" "b \<le> v"
      "rs = filter (\<lambda>r. se_streamId r = sid \<and> b < se_streamVersion r) (records env db)"
      "map se_streamVersion rs = [b + 1 .. v]"
      "holds_at (run_frames collate st (map (frame_of_record d sid) pre)) epoch v
         (foldl (apply_timeline_event collate) p (timeline_events d sid rs))"
      "tc_snapshotMessageCount (run_frames collate st (map (frame_of_record d sid) pre)) = None"
proof -
  have sid: "sid = sy_streamId input" by (simp add: input)
  have nat: "\<forall>b. sy_afterVersion input = Some b \<longrightarrow> 0 \<le> b" using counts by (auto simp: input)
  show ?thesis
  proof (cases rule: prefix_shape [OF ok inv sid v nat pre, consumes 0, case_names snap del])
    case (snap snap)
    from run_snapshot [OF ok inv st input v snap(2), of collate d epoch] obtain q where
      "holds_at (run_frames collate st (map (frame_of_record d sid) pre)) epoch v q"
      "shown_over (tc_projection st) (ts_projection snap) q"
      "tc_cursor st = None \<longrightarrow> q = ts_projection snap"
      "tc_snapshotMessageCount (run_frames collate st (map (frame_of_record d sid) pre)) =
        (if bg then None else Some (ts_totalMessageCount snap))"
      unfolding Let_def snap(3) by (auto simp: input)
    then show ?thesis by (intro that(1) [of snap q] snap(2,4)) (simp_all add: snap(3) input)
  next
    case (del b rs)
    obtain p c where at: "tc_projection st = Some p" "tp_runtimeObservation p = None" "tc_cursor st = Some c"
      "st = empty_client_state\<lparr>tc_projection := Some p, tc_cursor := Some c, tc_phase := ClientCached\<rparr>"
    proof (cases rule: restored [OF st, case_names none some])
      case none
      with del(5) show ?thesis by (simp add: input)
    next
      case (some p c)
      with that show ?thesis by blast
    qed
    have c: "c = \<lparr>sc_epoch = epoch, sc_version = b\<rparr>"
      using del(5,7) by (cases c) (auto simp: input at(3) epoch_mismatch_def)
    have held: "holds_at st epoch b p"
      using at(2) by (simp add: at(4) c holds_at_def)
    have len: "int (length rs) = v - b"
    proof -
      have "length (map se_streamVersion rs) = length [b + 1 .. v]" using del(9) by simp
      then show ?thesis using del(6) by simp
    qed
    have versions: "map se_streamVersion rs = [b + 1 .. b + int (length rs)]" using del(9) len by simp
    have pre_frames: "map (frame_of_record d sid) pre = event_frames d sid epoch rs" by (simp add: del(3))
    from run_events [OF held versions, of collate d sid] len
    have "holds_at (run_frames collate st (map (frame_of_record d sid) pre)) epoch v
         (foldl (apply_timeline_event collate) p (timeline_events d sid rs))"
      "tc_snapshotMessageCount (run_frames collate st (map (frame_of_record d sid) pre)) = None"
      by (simp_all add: pre_frames at(4) empty_client_state_def)
    with that(2) at(1,3) c del(2,6,8,9) show ?thesis by blast
  qed
qed

section \<open>A small stream\<close>



lemma feed_model: "sd_readModel (feed_db n) = small_model" by (simp add: feed_db_def)

lemma feed_session: "\<exists>s. get_session (sd_readModel (feed_db n)) ''s1'' = Inr s"
  by (simp add: feed_model small_sessions)

abbreviation feed_stream :: "snapshot_env \<Rightarrow> bool \<Rightarrow> sync_error + synchronization_record list \<times> bool" where
  "feed_stream senv background \<equiv>
     synchronized_events demo_env senv (\<lambda>epoch r. 1) ''epoch'' (feed_db 1) (feed_db 1) [feed_db 2]
       (session_request ''s1'' empty_client_state background) [Inr (feed_record 1), Inr (feed_record 2)]"

lemma feed_streams:
  assumes "\<not> isl (read_timeline_snapshot senv small_model ''s1'')"
  obtains out alive where "feed_stream senv background = Inr (out, alive)"
proof -
  from assms obtain snap where "read_timeline_snapshot senv small_model ''s1'' = Inr snap"
    by (cases "read_timeline_snapshot senv small_model ''s1''") auto
  then have "\<not> isl (sync_prefix demo_env senv (\<lambda>epoch r. 1) ''epoch'' (feed_db 1)
      (session_request ''s1'' empty_client_state background))"
    by (simp add: sync_prefix_def Let_def capture_delta_def snapshot_needed_def session_request_def feed_model)
  then have "\<not> isl (feed_stream senv background)"
    by (auto simp: synchronized_events_def split: sum.splits prod.splits)
  with that show ?thesis by (cases "feed_stream senv background") auto
qed

section \<open>Properties\<close>



text \<open>C12: A client that has nothing and does not read its history in the
  background assembles the snapshot and the pages after it into the readable messages of the session,
  each once and in order. The pages are read one by one later, while the messages before the
  snapshot's cursor stay. It goes live exactly when every row of the session is readable: the count
  the snapshot declares is that of the rows, the messages sent are those that decode, so with one row
  that does not decode the client rejects the stream, and every later one, as wrongly assembled.\<close>

theorem client_needs_every_message:
  assumes "env_ok env" "subscribed env db now rounds c0" "reconcile_rounds env rounds c0 = (ns, c1)"
    and "synchronized_events env senv bytes epoch db later moments
      (session_request sid empty_client_state False) ns = Inr (out, alive)"
    and "session_remains (later # moments) sid"
    and "\<forall>m \<in> set (later # moments). history_kept senv (sd_readModel db) (sd_readModel m) sid"
    and "\<forall>m \<in> set (rm_messages (sd_readModel db)). mr_sequence m < max_safe_integer"
    and "distinct (map mr_id (session_rows (sd_readModel db) sid))"
    and "rows = session_rows (sd_readModel db) sid" "messages = readable_messages (sp_decoders senv) sid rows"
    and "final = run_frames collate empty_client_state (map (frame_of_record d sid) out)"
  shows "if length messages = length rows
    then tc_phase final = ClientLive \<and> tc_error final = None \<and>
      (\<exists>snap. read_timeline_snapshot senv (sd_readModel db) sid = Inr snap \<and>
         tc_projection final = Some (foldl (apply_timeline_event collate)
           ((ts_projection snap)\<lparr>tp_messages := messages, tp_olderMessageSequence := Some None\<rparr>)
           (map (\<lambda>r. timeline_event_from_domain d sid (se_event r))
              (filter (\<lambda>r. se_streamId r = sid \<and> current_stream_version env db sid < se_streamVersion r \<and>
                 known_record env db c1 r) (records env now)))))
    else tc_phase final = ClientStale \<and>
      tc_error final = Some (AssembledCount (int (length rows)) (int (length messages)))"
proof -
  define v where "v = current_stream_version env db sid"
  let ?st = empty_client_state and ?input = "session_request sid empty_client_state False"
  have inv: "db_inv env db" using assms(2) by (simp add: subscribed_def)
  have restored: "?st = restore_client_state None None" by (simp add: restore_client_state_def)
  obtain pre history chunks rs where shape:
    "sync_prefix env senv bytes epoch db ?input = Inr (pre, v, history)"
    "sync_history senv epoch later moments ?input v history = (chunks, HistoryDone)"
    "out = pre @ chunks @ [SyncSynchronized epoch v] @ map (SyncEvent epoch) rs"
    "rs = filter (\<lambda>r. se_streamId r = sid \<and> v < se_streamVersion r \<and> known_record env db c1 r) (records env now)"
    "map se_streamVersion rs = [v + 1 .. v + int (length rs)]"
  proof -
    have counts: "\<forall>b. sy_afterVersion ?input = Some b \<longrightarrow> 0 \<le> b"
      and sess: "sy_background ?input \<or> session_remains (later # moments) (sy_streamId ?input)"
      and sid: "sid = sy_streamId ?input" using assms(5) by simp_all
    show ?thesis by (rule stream_shape [OF assms(1-3) counts assms(4) sess sid v_def]) (rule that)
  qed
  obtain snap where snap: "read_timeline_snapshot senv (sd_readModel db) sid = Inr snap"
    "history = ts_olderMessageSequence snap"
    "holds_at (run_frames collate ?st (map (frame_of_record d sid) pre)) epoch v (ts_projection snap)"
    "tc_snapshotMessageCount (run_frames collate ?st (map (frame_of_record d sid) pre)) =
      Some (ts_totalMessageCount snap)"
  proof -
    have none: "\<forall>c. tc_cursor ?st = Some c \<longrightarrow> 0 \<le> sc_version c" by simp
    show ?thesis
    proof (cases rule: run_prefix [OF assms(1) inv restored refl none v_def shape(1), where collate = collate and d = d,
        consumes 0, case_names snap del])
      case (snap snap q)
      from snap(6) have "q = ts_projection snap" by simp
      with snap(1,3,4,7) show ?thesis by (intro that [of snap]) simp_all
    next
      case (del p b rs)
      then show ?thesis by simp
    qed
  qed
  let ?pages = "case ts_olderMessageSequence snap of
      None \<Rightarrow> [] | Some older \<Rightarrow> fst (history_pages (sp_decoders senv) (sd_readModel later) (map sd_readModel moments) sid older)"
  have all: "map fst (concat (rev (map fst ?pages))) @ tp_messages (ts_projection snap) = messages"
  proof -
    have "\<forall>m \<in> set (sd_readModel later # map sd_readModel moments).
        (\<exists>s. get_session m sid = Inr s) \<and> history_kept senv (sd_readModel db) m sid"
      using assms(5,6) by simp
    from snapshot_with_later_history [OF snap(1) this assms(7)] show ?thesis using assms(9,10) by simp
  qed
  have ids: "distinct (map tm_id messages)" using readable_ids assms(8-10) by blast
  have chunks: "chunks = map (\<lambda>(items, older). SyncSnapshotChunk epoch v (map fst items) older) ?pages"
    "if ?pages = [] then ts_olderMessageSequence snap = None else snd (last ?pages) = None"
  proof -
    have "chunks = map (\<lambda>(items, older). SyncSnapshotChunk epoch v (map fst items) older) ?pages \<and>
      (if ?pages = [] then ts_olderMessageSequence snap = None else snd (last ?pages) = None)"
    proof (cases "ts_olderMessageSequence snap")
      case None
      with shape(2) show ?thesis by (simp add: sync_history_def snap(2))
    next
      case (Some older)
      obtain hs fin where hs: "history_pages (sp_decoders senv) (sd_readModel later) (map sd_readModel moments) sid older = (hs, fin)"
        by (cases "history_pages (sp_decoders senv) (sd_readModel later) (map sd_readModel moments) sid older")
      with shape(2) Some have fin: "fin = HistoryDone"
        "chunks = map (\<lambda>(items, older). SyncSnapshotChunk epoch v (map fst items) older) hs"
        by (simp_all add: sync_history_def snap(2))
      from history_last [OF hs [unfolded fin(1)]] fin(2) Some hs show ?thesis by simp
    qed
    then show "chunks = map (\<lambda>(items, older). SyncSnapshotChunk epoch v (map fst items) older) ?pages"
      "if ?pages = [] then ts_olderMessageSequence snap = None else snd (last ?pages) = None" by blast+
  qed
  let ?base = "(ts_projection snap)\<lparr>tp_messages := messages, tp_olderMessageSequence := Some None\<rparr>"
  let ?shown = "run_frames collate ?st (map (frame_of_record d sid) pre)"
  define st where "st = run_frames collate ?shown (map (frame_of_record d sid) chunks)"
  have frames: "map (frame_of_record d sid) chunks = chunk_frames d sid epoch v ?pages"
    by (simp add: chunks(1) comp_def split_def)
  have older: "(if ?pages = [] then tp_olderMessageSequence (ts_projection snap) else Some (snd (last ?pages))) = Some None"
    using chunks(2) snapshot_projection [OF snap(1)] by (cases "?pages = []") simp_all
  from run_chunks [OF snap(3), of ?pages collate d sid, unfolded all older] ids
  have held: "holds_at st epoch v ?base" "tc_snapshotMessageCount st = Some (ts_totalMessageCount snap)"
    by (auto simp: st_def frames snap(4))
  have total: "ts_totalMessageCount snap = int (length rows)"
    using snapshot_projection [OF snap(1)] by (simp add: assms(9))
  let ?tail = "map (frame_of_record d sid) ([SyncSynchronized epoch v] @ map (SyncEvent epoch) rs)"
  have final: "final = run_frames collate st ?tail"
    using run_append [of collate ?st _ "map (frame_of_record d sid) chunks @ ?tail"] holds_at_phase [OF snap(3)]
      run_append [of collate ?shown "map (frame_of_record d sid) chunks" ?tail] holds_at_phase [OF held(1)]
    by (simp add: assms(11) shape(3) st_def)
  show ?thesis
  proof (cases "length messages = length rows")
    case True
    then have "tc_snapshotMessageCount st = Some (int (length (tp_messages ?base)))" by (simp add: held(2) total)
    with run_finish [OF held(1) _ shape(5) final] True snap(1) show ?thesis
      by (auto simp: holds_at_def v_def [symmetric] shape(4))
  next
    case False
    from synchronized_miscounted [OF held, of collate d sid] False total
    have "reduce_frame collate st (frame_of_record d sid (SyncSynchronized epoch v)) =
        invalid_cursor st (AssembledCount (int (length rows)) (int (length messages)))" by simp
    then have "final = invalid_cursor st (AssembledCount (int (length rows)) (int (length messages)))"
      by (simp add: final Let_def invalid_cursor_def)
    with False show ?thesis by (simp add: invalid_cursor_def)
  qed
qed

definition unreadable_env :: snapshot_env where
  "unreadable_env =
     \<lparr>sp_decoders = \<lparr>dec_content = (\<lambda>_. None), dec_input = (\<lambda>_. None), dec_permission = (\<lambda>_. None)\<rparr>,
      sp_collate = (\<lambda>_ _. 0), sp_queueBytes = (\<lambda>_. 0), sp_projectionBytes = (\<lambda>_. 0)\<rparr>"

text \<open>Three rows none of which decodes\<close>

theorem client_needs_every_message_witness:
  "\<exists>out alive. feed_stream unreadable_env False = Inr (out, alive) \<and>
     tc_error (run_frames (\<lambda>a b. 0) empty_client_state
       (map (frame_of_record (sp_decoders unreadable_env) ''s1'') out)) = Some (AssembledCount 3 0)"
proof -
  have "\<not> isl (read_timeline_snapshot unreadable_env small_model ''s1'')" by code_simp
  then obtain out alive where out: "feed_stream unreadable_env False = Inr (out, alive)" by (rule feed_streams)
  have s: "session_remains [feed_db 1, feed_db 2] ''s1''" by (simp add: feed_model small_sessions)
  have kept: "\<forall>m \<in> set [feed_db 1, feed_db 2].
      history_kept unreadable_env (sd_readModel (feed_db 1)) (sd_readModel m) ''s1''"
    by (simp add: history_kept_def feed_model small_differ)
  have bound: "\<forall>m \<in> set (rm_messages (sd_readModel (feed_db 1))). mr_sequence m < max_safe_integer"
    unfolding feed_model by code_simp
  have ids: "distinct (map mr_id (session_rows (sd_readModel (feed_db 1)) ''s1''))"
    unfolding feed_model by code_simp
  have rows: "length (session_rows (sd_readModel (feed_db 1)) ''s1'') = 3"
    unfolding feed_model by code_simp
  have none: "length (readable_messages (sp_decoders unreadable_env) ''s1''
      (session_rows (sd_readModel (feed_db 1)) ''s1'')) = 0"
    unfolding feed_model by code_simp
  from client_needs_every_message [OF demo_env_ok feed_subscribed feed_rounds out s kept bound ids refl refl refl,
      where collate = "\<lambda>a b. 0" and d = "sp_decoders unreadable_env"]
  have "tc_error (run_frames (\<lambda>a b. 0) empty_client_state
       (map (frame_of_record (sp_decoders unreadable_env) ''s1'') out)) = Some (AssembledCount 3 0)"
    unfolding rows none by simp
  with out show ?thesis by blast
qed

end
