(* ===== verification/Client_Pager.thy ===== *)
theory Client_Pager
  imports Client_Stream Timeline_Properties
begin

text \<open>
  Loading older messages while the stream is live: \<open>packages/client-runtime/src/session-message-pager.ts\<close>
  and the cell of \<open>client-bus.ts\<close> that it shares with the driver of the timeline.

  Of a resource only what fences updates is modelled: its data, its cursor and the generation of its
  connection. Whether two JavaScript objects are the same one is an input where the code asks for it;
  objects with different contents are different.
\<close>

section \<open>The cell\<close>

record timeline_view =
  vw_data :: "timeline_projection option"
  vw_generation :: int
  vw_cursor :: "stream_cursor option"

record driver_update =
  du_accessDenied :: bool
  du_data :: "timeline_projection option"
  du_cursor :: "stream_cursor option"
  du_resetEpoch :: bool

definition cursor_is_accepted :: "stream_cursor option \<Rightarrow> stream_cursor option \<Rightarrow> bool \<Rightarrow> bool \<Rightarrow> bool" where
  "cursor_is_accepted current nxt reset_epoch has_data =
     (case (nxt, current) of
        (Some n, Some c) \<Rightarrow>
          if reset_epoch then True
          else if sc_epoch n \<noteq> sc_epoch c then False
          else if sc_version n = sc_version c then \<not> has_data
          else sc_version n > sc_version c
      | _ \<Rightarrow> True)"

text \<open>
  The driver of the current connection; one of an earlier connection is not heard. After a denial the
  cell is empty, so nothing is applied to it before a driver has new data.
\<close>

definition accept_driver_update :: "timeline_view \<Rightarrow> driver_update \<Rightarrow> timeline_view option" where
  "accept_driver_update view upd =
     (if cursor_is_accepted (vw_cursor view) (du_cursor upd) (du_resetEpoch upd) (du_data upd \<noteq> None)
      then Some
        (if du_accessDenied upd then view\<lparr>vw_data := None, vw_cursor := None\<rparr>
         else view\<lparr>vw_data := or_opt (du_data upd) (vw_data view),
                   vw_cursor := or_opt (du_cursor upd) (vw_cursor view)\<rparr>)
      else None)"

definition bus_update ::
  "timeline_view \<Rightarrow> int \<Rightarrow> stream_cursor option \<Rightarrow> (timeline_projection \<Rightarrow> timeline_projection option) \<Rightarrow>
   timeline_view option" where
  "bus_update view expected_generation expected_cursor update =
     (if vw_generation view \<noteq> expected_generation \<or> vw_cursor view \<noteq> expected_cursor then None
      else
        (case vw_data view of
           None \<Rightarrow> None
         | Some current \<Rightarrow> map_option (\<lambda>data. view\<lparr>vw_data := Some data\<rparr>) (update current)))"

section \<open>The pager\<close>

record page_flight =
  pf_generation :: int
  pf_cursor :: "stream_cursor option"
  pf_before :: int

record message_page_result =
  pr_messages :: "timeline_message list"
  pr_olderMessageSequence :: "int option"

record older_result =
  or_applied :: bool
  or_loaded :: nat
  or_hasMore :: bool

definition message_count :: "timeline_projection option \<Rightarrow> nat" where
  "message_count data = (case data of None \<Rightarrow> 0 | Some p \<Rightarrow> length (tp_messages p))"

definition message_head :: "timeline_projection option \<Rightarrow> int option" where
  "message_head data = Option.bind data (\<lambda>p. or_null (tp_olderMessageSequence p))"

text \<open>A request, unless there is nothing older.\<close>

definition pager_load :: "timeline_view \<Rightarrow> page_flight option" where
  "pager_load view =
     map_option (\<lambda>before. \<lparr>pf_generation = vw_generation view, pf_cursor = vw_cursor view, pf_before = before\<rparr>)
       (message_head (vw_data view))"

definition pager_cursor :: "bool \<Rightarrow> timeline_view \<Rightarrow> page_flight \<Rightarrow> stream_cursor option" where
  "pager_cursor allow_live latest flight =
     (if allow_live \<and> vw_generation latest = pf_generation flight \<and>
         map_option sc_epoch (vw_cursor latest) = map_option sc_epoch (pf_cursor flight) \<and>
         (case vw_cursor latest of None \<Rightarrow> 0 | Some c \<Rightarrow> sc_version c) \<ge>
         (case pf_cursor flight of None \<Rightarrow> 0 | Some c \<Rightarrow> sc_version c)
      then vw_cursor latest else pf_cursor flight)"

definition merge_page :: "page_flight \<Rightarrow> message_page_result \<Rightarrow> timeline_projection \<Rightarrow> timeline_projection option" where
  "merge_page flight page projection =
     (if or_null (tp_olderMessageSequence projection) \<noteq> Some (pf_before flight) then None
      else tc_projection
        (prepend_messages (restore_client_state (Some projection) (pf_cursor flight))
           (pr_messages page) (pr_olderMessageSequence page)))"

text \<open>The answer to a request: \<open>None\<close> when the promise is rejected.\<close>

definition pager_answer ::
  "bool \<Rightarrow> timeline_view \<Rightarrow> page_flight \<Rightarrow> message_page_result option \<Rightarrow> older_result option \<times> timeline_view"
where
  "pager_answer allow_live view flight answer =
     (case answer of
        None \<Rightarrow> (Some \<lparr>or_applied = False, or_loaded = 0, or_hasMore = True\<rparr>, view)
      | Some page \<Rightarrow>
          if (case pr_olderMessageSequence page of None \<Rightarrow> False | Some older \<Rightarrow> older \<ge> pf_before flight)
          then (None, view)
          else
            (case bus_update view (pf_generation flight) (pager_cursor allow_live view flight) (merge_page flight page) of
               None \<Rightarrow> (Some \<lparr>or_applied = False, or_loaded = 0, or_hasMore = True\<rparr>, view)
             | Some view' \<Rightarrow>
                 (Some \<lparr>or_applied = True,
                        or_loaded = message_count (vw_data view') - message_count (vw_data view),
                        or_hasMore = pr_olderMessageSequence page \<noteq> None\<rparr>, view')))"

section \<open>The server's page\<close>

text \<open>
  The handler of \<open>session.messages.page\<close>. \<open>None\<close>: \<open>decodeUnknownSync\<close> or \<open>Message.make\<close> throws, the
  request dies.
\<close>

datatype page_error = PageSessionNotFound string | PageDied

definition message_from_record :: "timeline_decoders \<Rightarrow> message_read \<Rightarrow> timeline_message option" where
  "message_from_record d r =
     (case (decode_role (me_role r), dec_content d (me_contentJson r)) of
        (Some role, Some content) \<Rightarrow>
          Some \<lparr>tm_id = me_messageId r, tm_sessionId = me_sessionId r, tm_role = role, tm_content = content,
                tm_createdAt = me_createdAt r\<rparr>
      | _ \<Rightarrow> None)"

definition session_messages_page ::
  "timeline_decoders \<Rightarrow> read_model \<Rightarrow> string \<Rightarrow> int option \<Rightarrow> int option \<Rightarrow> page_error + message_page_result"
where
  "session_messages_page d rm sid before limit =
     (case message_page rm sid before (max 1 (min 200 (or_else limit 100))) of
        Inl e \<Rightarrow> Inl (PageSessionNotFound sid)
      | Inr page \<Rightarrow>
          (case those (map (message_from_record d) (mp_items page)) of
             None \<Rightarrow> Inl PageDied
           | Some messages \<Rightarrow>
               Inr \<lparr>pr_messages = messages, pr_olderMessageSequence = mp_olderSequence page\<rparr>))"

section \<open>The driver and the cell\<close>

text \<open>
  One frame of the loop of \<open>session-timeline-driver.ts\<close>. \<open>differs\<close> and \<open>renewed\<close> say whether the data
  of the cell is another object than the projection of the driver, and whether the reducer made new
  objects of equal contents.
\<close>

definition driver_observe ::
  "(timeline_message \<Rightarrow> timeline_message \<Rightarrow> bool) \<Rightarrow> bool \<Rightarrow> bool \<Rightarrow> client_state \<Rightarrow> timeline_view \<Rightarrow> client_state" where
  "driver_observe same background differs st view =
     (case vw_data view of
        Some data \<Rightarrow>
          if (differs \<or> tc_projection st \<noteq> Some data) \<and> vw_cursor view = tc_cursor st
          then observe_optimistic same st data background else st
      | None \<Rightarrow> st)"

definition driver_emission :: "bool \<Rightarrow> client_state \<Rightarrow> client_state \<Rightarrow> timeline_frame \<Rightarrow> driver_update" where
  "driver_emission renewed previous st frame =
     \<lparr>du_accessDenied = False,
      du_data = (if renewed \<or> tc_projection st \<noteq> tc_projection previous then tc_projection st else None),
      du_cursor = (if tc_cursor st \<noteq> tc_cursor previous then tc_cursor st else None),
      du_resetEpoch = (case frame of SnapshotFrame sid f \<Rightarrow> tc_resetEpoch previous \<noteq> None | _ \<Rightarrow> False)\<rparr>"

definition driver_frame ::
  "(timeline_message \<Rightarrow> timeline_message \<Rightarrow> bool) \<Rightarrow> collation \<Rightarrow> bool \<Rightarrow> bool \<Rightarrow> bool \<Rightarrow> client_state \<Rightarrow>
   timeline_view \<Rightarrow> timeline_frame \<Rightarrow> client_state \<times> timeline_view"
where
  "driver_frame same collate background differs renewed st view frame =
     (let previous = driver_observe same background differs st view;
          st' = reduce_frame collate previous frame
      in if st' = previous \<and> \<not> renewed then (st', view)
         else (st', or_else (accept_driver_update view (driver_emission renewed previous st' frame)) view))"

text \<open>
  Frames and pages in any order, on one connection: \<open>frames\<close> are those that arrived, \<open>pages\<close> the
  messages of the pages that were applied. \<open>answers\<close> says what the reader of pages may return.
\<close>

inductive paged_run ::
  "(timeline_message \<Rightarrow> timeline_message \<Rightarrow> bool) \<Rightarrow> collation \<Rightarrow> bool \<Rightarrow> bool \<Rightarrow>
   (int \<Rightarrow> message_page_result \<Rightarrow> bool) \<Rightarrow> client_state \<Rightarrow> timeline_view \<Rightarrow>
   timeline_frame list \<Rightarrow> timeline_message list list \<Rightarrow> client_state \<Rightarrow> timeline_view \<Rightarrow> page_flight set \<Rightarrow> bool"
  for same collate background allow_live answers st0 view0
where
  open_run: "paged_run same collate background allow_live answers st0 view0 [] [] st0 view0 {}"
| frame:
    "paged_run same collate background allow_live answers st0 view0 frames pages st view flights \<Longrightarrow>
     tc_phase st \<noteq> ClientStale \<Longrightarrow>
     driver_frame same collate background differs renewed st view f = (st', view') \<Longrightarrow>
     paged_run same collate background allow_live answers st0 view0 (frames @ [f]) pages st' view' flights"
| load:
    "paged_run same collate background allow_live answers st0 view0 frames pages st view flights \<Longrightarrow>
     pager_load view = Some flight \<Longrightarrow>
     paged_run same collate background allow_live answers st0 view0 frames pages st view (insert flight flights)"
| answer:
    "paged_run same collate background allow_live answers st0 view0 frames pages st view flights \<Longrightarrow>
     flight \<in> flights \<Longrightarrow> (\<forall>page. answer = Some page \<longrightarrow> answers (pf_before flight) page) \<Longrightarrow>
     pager_answer allow_live view flight answer = (res, view') \<Longrightarrow>
     pages' = (case (res, answer) of
        (Some r, Some page) \<Rightarrow> if or_applied r then pages @ [pr_messages page] else pages
      | _ \<Rightarrow> pages) \<Longrightarrow>
     paged_run same collate background allow_live answers st0 view0 frames pages' st view' (flights - {flight})"

section \<open>Prepending and the events\<close>

definition prepend :: "timeline_message list \<Rightarrow> timeline_message list \<Rightarrow> timeline_message list" where
  "prepend older ms = map snd (messages_by_id (older @ ms))"

definition upsert_by_id :: "timeline_message \<Rightarrow> timeline_message list \<Rightarrow> timeline_message list" where
  "upsert_by_id m ms =
     (case find_index (\<lambda>x. tm_id x = tm_id m) ms of None \<Rightarrow> ms @ [m] | Some n \<Rightarrow> ms[n := m])"

abbreviation put_message :: "(string, timeline_message) jsmap \<Rightarrow> timeline_message \<Rightarrow> (string, timeline_message) jsmap" where
  "put_message M m \<equiv> AList.update (tm_id m) m M"

definition keyed :: "(string, timeline_message) jsmap \<Rightarrow> bool" where
  "keyed M \<longleftrightarrow> distinct (map fst M) \<and> (\<forall>(k, m) \<in> set M. tm_id m = k)"

lemma by_id_foldl: "messages_by_id ms = foldl put_message [] ms"
  by (simp add: messages_by_id_def map_from_def foldl_map)

lemma keyed_put: "keyed M \<Longrightarrow> keyed (put_message M m)"
  by (auto simp: keyed_def set_update)

lemma keyed_foldl: "keyed M \<Longrightarrow> keyed (foldl put_message M ms)"
  by (induction ms arbitrary: M) (simp_all add: keyed_put)

lemma keyed_by_id: "keyed (messages_by_id ms)"
  unfolding by_id_foldl by (rule keyed_foldl) (simp add: keyed_def)

lemma keyed_distinct: "keyed M \<Longrightarrow> distinct (map tm_id (map snd M))"
proof -
  assume M: "keyed M"
  then have "map tm_id (map snd M) = map fst M" by (auto simp: keyed_def)
  with M show ?thesis by (simp only: keyed_def)
qed

lemma prepend_distinct: "distinct (map tm_id (prepend older ms))"
  unfolding prepend_def by (rule keyed_distinct [OF keyed_by_id])

lemma upsert_Cons:
  "upsert_by_id m (x # ms) = (if tm_id x = tm_id m then m # ms else x # upsert_by_id m ms)"
  by (simp add: upsert_by_id_def split: option.splits)

lemma upsert_values: "keyed M \<Longrightarrow> upsert_by_id m (map snd M) = map snd (put_message M m)"
proof (induction M)
  case Nil
  then show ?case by (simp add: upsert_by_id_def)
next
  case (Cons x M)
  then show ?case by (cases x) (auto simp: upsert_Cons keyed_def)
qed

lemma put_swap: "k \<noteq> l \<Longrightarrow> k \<in> fst ` set M \<Longrightarrow> AList.update k v (AList.update l w M) = AList.update l w (AList.update k v M)"
  by (induction M) auto

lemma put_later:
  "tm_id m \<in> fst ` set M \<Longrightarrow> tm_id m \<notin> tm_id ` set ms \<Longrightarrow>
   put_message (foldl put_message M ms) m = foldl put_message (put_message M m) ms"
proof (induction ms arbitrary: M)
  case (Cons x ms)
  then have "put_message (foldl put_message (put_message M x) ms) m = foldl put_message (put_message (put_message M x) m) ms"
    by (simp add: dom_update)
  also have "put_message (put_message M x) m = put_message (put_message M m) x"
    using Cons.prems by (intro put_swap) auto
  finally show ?case by simp
qed simp

lemma foldl_upsert:
  "distinct (map tm_id ms) \<Longrightarrow> foldl put_message M (upsert_by_id m ms) = put_message (foldl put_message M ms) m"
proof (induction ms arbitrary: M)
  case Nil
  then show ?case by (simp add: upsert_by_id_def)
next
  case (Cons x ms)
  show ?case
  proof (cases "tm_id x = tm_id m")
    case True
    with Cons.prems have "put_message (foldl put_message (put_message M x) ms) m =
        foldl put_message (put_message (put_message M x) m) ms"
      by (intro put_later) (auto simp: dom_update)
    with True show ?thesis by (simp add: upsert_Cons)
  next
    case False
    with Cons show ?thesis by (simp add: upsert_Cons)
  qed
qed

lemma upsert_prepend:
  "distinct (map tm_id ms) \<Longrightarrow> upsert_by_id m (prepend older ms) = prepend older (upsert_by_id m ms)"
  by (simp add: prepend_def upsert_values keyed_by_id) (simp add: by_id_foldl foldl_upsert)

lemma foldl_values: "foldl put_message M (map snd (messages_by_id xs)) = foldl put_message M xs"
proof (induction xs rule: rev_induct)
  case Nil
  then show ?case by (simp add: by_id_foldl)
next
  case (snoc x xs)
  have "map snd (messages_by_id (xs @ [x])) = upsert_by_id x (map snd (messages_by_id xs))"
    by (simp only: upsert_values keyed_by_id) (simp add: by_id_foldl)
  with snoc show ?case by (simp only: foldl_upsert [OF keyed_distinct [OF keyed_by_id]]) simp
qed

lemma prepend_prepend: "prepend page (prepend older ms) = prepend (page @ older) ms"
proof -
  have "foldl put_message (foldl put_message [] page) (map snd (messages_by_id (older @ ms))) =
      foldl put_message (foldl put_message [] page) (older @ ms)" by (rule foldl_values)
  then have "messages_by_id (page @ map snd (messages_by_id (older @ ms))) = messages_by_id (page @ older @ ms)"
    by (simp only: by_id_foldl foldl_append)
  then show ?thesis by (simp add: prepend_def)
qed

lemma event_messages:
  "tp_messages (apply_timeline_event collate p e) =
     (case e of
        TlMessagePersisted m turn_id \<Rightarrow> upsert_by_id m (tp_messages p)
      | TlTranscriptRolledBack turn_ids tm removed \<Rightarrow> filter (\<lambda>m. tm_id m \<notin> set removed) (tp_messages p)
      | _ \<Rightarrow> tp_messages p)"
  by (cases e) (simp_all add: apply_message_def apply_StatusSet_def apply_TurnUpdated_def
      apply_TranscriptRolledBack_def apply_TurnSettled_def apply_QueueEnqueued_def
      apply_QueueReordered_def with_items_def upsert_by_id_def Let_def split: option.splits)

lemma event_head [simp]:
  "tp_olderMessageSequence (apply_timeline_event collate p e) = tp_olderMessageSequence p"
  by (cases e) (simp_all add: apply_message_def apply_StatusSet_def apply_TurnUpdated_def
      apply_TranscriptRolledBack_def apply_TurnSettled_def apply_QueueEnqueued_def
      apply_QueueReordered_def with_items_def Let_def split: option.splits)

lemma upsert_by_id_distinct: "distinct (map tm_id ms) \<Longrightarrow> distinct (map tm_id (upsert_by_id m ms))"
  unfolding upsert_by_id_def by (rule upsert_distinct)

section \<open>The reducer over a state with pages\<close>

text \<open>Frames of a stream that is past its snapshot, none of which takes messages away.\<close>

fun tail_frame :: "timeline_frame \<Rightarrow> bool" where
  "tail_frame (RuntimeFrame sid c observation) = True"
| "tail_frame (SynchronizedFrame sid through c) = True"
| "tail_frame (EventFrame sid f) =
     (case ef_event f of TlTranscriptRolledBack turn_ids tm removed \<Rightarrow> False | _ \<Rightarrow> True)"
| "tail_frame _ = False"

text \<open>\<open>st\<close> is where \<open>e\<close> is.\<close>

definition aligned :: "client_state \<Rightarrow> client_state \<Rightarrow> bool" where
  "aligned st e \<longleftrightarrow>
     tc_cursor st = tc_cursor e \<and> tc_resetEpoch st = tc_resetEpoch e \<and> tc_phase st = tc_phase e \<and>
     tc_snapshotMessageCount st = None \<and> tc_snapshotMessageCount e = None \<and> tc_cursor e \<noteq> None"

text \<open>The projection has the messages \<open>older\<close> before those of the other one.\<close>

definition with_older ::
  "timeline_message list \<Rightarrow> int option \<Rightarrow> timeline_projection option \<Rightarrow> timeline_projection option \<Rightarrow> bool" where
  "with_older older h data other \<longleftrightarrow>
     (\<exists>p q. data = Some p \<and> other = Some q \<and> tp_messages p = prepend older (tp_messages q) \<and>
       distinct (map tm_id (tp_messages q)) \<and> or_null (tp_olderMessageSequence p) = h)"

lemma with_older_event:
  assumes "with_older older h (Some p) (Some q)" "tail_frame (EventFrame sid f)"
  shows "with_older older h (Some (apply_timeline_event collate (p\<lparr>tp_runtimeObservation := None\<rparr>) (ef_event f)))
    (Some (apply_timeline_event collate (q\<lparr>tp_runtimeObservation := None\<rparr>) (ef_event f)))"
  using assms unfolding with_older_def option.sel event_messages tail_frame.simps
  by (auto simp: event_messages upsert_prepend upsert_by_id_distinct simp del: apply_timeline_event.simps
      split: timeline_event.splits)

lemma reduce_tail:
  assumes "aligned st e" "with_older older h (tc_projection st) (tc_projection e)" "tail_frame f"
  shows "aligned (reduce_frame collate st f) (reduce_frame collate e f) \<and>
    with_older older h (tc_projection (reduce_frame collate st f)) (tc_projection (reduce_frame collate e f))"
proof (cases "tc_phase st = ClientDeleted")
  case True
  with assms show ?thesis by (simp add: reduce_frame_def aligned_def)
next
  case False
  from assms(2) obtain p q where proj: "tc_projection st = Some p" "tc_projection e = Some q"
    by (auto simp: with_older_def)
  from assms(1) obtain c where cursor: "tc_cursor st = Some c" "tc_cursor e = Some c" by (auto simp: aligned_def)
  show ?thesis
  proof (cases f)
    case (RuntimeFrame sid c observation)
    with False assms proj show ?thesis
      by (auto simp: reduce_frame_def aligned_def reduce_runtime_def with_older_def)
  next
    case (SynchronizedFrame sid through fc)
    have "cursor_for_frame st through fc = cursor_for_frame e through fc"
      using cursor by (simp add: cursor_for_frame_def split: option.splits)
    with SynchronizedFrame False assms proj cursor show ?thesis
      by (auto simp: reduce_frame_def aligned_def reduce_synchronized_def invalid_cursor_def Let_def)
  next
    case (EventFrame sid ef)
    have "cursor_for_frame st (ef_streamVersion ef) (ef_cursor ef) = cursor_for_frame e (ef_streamVersion ef) (ef_cursor ef)"
      using cursor by (simp add: cursor_for_frame_def split: option.splits)
    with EventFrame False assms proj cursor with_older_event [OF _ assms(3) [unfolded EventFrame], of older h p q collate]
    show ?thesis
      by (auto simp: reduce_frame_def aligned_def reduce_event_def apply_event_frame_def invalid_cursor_def Let_def)
  qed (use assms(3) in simp_all)
qed

lemma same_cursor:
  "tc_cursor (reduce_runtime st c observation) = tc_cursor st"
  "tc_cursor (reduce_synchronized st through fc) = tc_cursor st"
  by (auto simp: reduce_runtime_def reduce_synchronized_def invalid_cursor_def Let_def split: option.splits)

lemma event_cursor:
  "tc_cursor st = Some c \<Longrightarrow> \<exists>c'. tc_cursor (reduce_event collate st ef) = Some c' \<and>
     (c' = c \<or> (sc_epoch c' = sc_epoch c \<and> sc_version c < sc_version c'))"
  by (auto simp: reduce_event_def apply_event_frame_def invalid_cursor_def Let_def split: option.splits)

lemma tail_cursor:
  assumes "tc_cursor st = Some c" "tail_frame f"
  shows "\<exists>c'. tc_cursor (reduce_frame collate st f) = Some c' \<and>
    (c' = c \<or> (sc_epoch c' = sc_epoch c \<and> sc_version c < sc_version c'))"
proof (cases "tc_phase st = ClientDeleted")
  case False
  with assms event_cursor [OF assms(1)] show ?thesis by (cases f) (simp_all add: reduce_frame_def same_cursor)
qed (simp add: reduce_frame_def assms(1))

section \<open>The driver and the pager on one cell\<close>

text \<open>The cell has the pages and is where the driver is.\<close>

definition shows_pages ::
  "timeline_message list \<Rightarrow> int option \<Rightarrow> client_state \<Rightarrow> timeline_view \<Rightarrow> client_state \<Rightarrow> bool" where
  "shows_pages older h st view e \<longleftrightarrow>
     aligned st e \<and> tc_projection st \<noteq> None \<and> vw_cursor view = tc_cursor st \<and>
     with_older older h (vw_data view) (tc_projection e)"

lemma observed:
  assumes "shows_pages older h st view e"
  shows "aligned (driver_observe same background differs st view) e \<and>
    with_older older h (tc_projection (driver_observe same background differs st view)) (tc_projection e) \<and>
    tc_cursor (driver_observe same background differs st view) = tc_cursor st"
  using assms
  by (auto simp: shows_pages_def aligned_def driver_observe_def observe_optimistic_def with_older_def Let_def
      split: option.splits)

lemma driver_frame_state:
  "fst (driver_frame same collate background differs renewed st view f) =
     reduce_frame collate (driver_observe same background differs st view) f"
  by (simp add: driver_frame_def Let_def)

lemma driver_frame_emits:
  assumes "driver_frame same collate background differs renewed st view f = (st', view')"
    and "reduce_frame collate (driver_observe same background differs st view) f = new"
    and "\<not> (new = driver_observe same background differs st view \<and> \<not> renewed)"
  shows "view' = or_else (accept_driver_update view
    (driver_emission renewed (driver_observe same background differs st view) new f)) view"
  using assms(1) unfolding driver_frame_def Let_def assms(2) if_not_P [OF assms(3)] by auto

lemma driver_frame_shows:
  assumes pages: "shows_pages older h st view e" and tail: "tail_frame f"
    and step: "driver_frame same collate background differs renewed st view f = (st', view')"
  shows "shows_pages older h st' view' (reduce_frame collate e f) \<and> vw_generation view' = vw_generation view"
proof -
  let ?prev = "driver_observe same background differs st view"
  let ?new = "reduce_frame collate ?prev f" and ?e = "reduce_frame collate e f"
  note obs = observed [OF pages, of same background differs]
  from obs reduce_tail [OF _ _ tail, of ?prev e older h collate]
  have new: "aligned ?new ?e" "with_older older h (tc_projection ?new) (tc_projection ?e)" by blast+
  from pages obs obtain c where c: "tc_cursor ?prev = Some c" "vw_cursor view = Some c"
    by (auto simp: shows_pages_def aligned_def)
  from tail_cursor [OF c(1) tail] obtain c' where c': "tc_cursor ?new = Some c'"
      "c' = c \<or> (sc_epoch c' = sc_epoch c \<and> sc_version c < sc_version c')" by blast
  have same_data: "with_older older h (vw_data view) (tc_projection ?e)"
    if "tc_projection ?new = tc_projection ?prev"
    using that new(2) pages obs by (auto simp: shows_pages_def with_older_def)
  from step have st': "st' = ?new"
    using driver_frame_state [of same collate background differs renewed st view f] by simp
  show ?thesis
  proof (cases "?new = ?prev \<and> \<not> renewed")
    case True
    with step have "view' = view" by (simp add: driver_frame_def Let_def)
    with True st' new same_data c pages show ?thesis by (auto simp: shows_pages_def with_older_def)
  next
    case False
    let ?upd = "driver_emission renewed ?prev ?new f"
    have "cursor_is_accepted (vw_cursor view) (du_cursor ?upd) (du_resetEpoch ?upd) (du_data ?upd \<noteq> None)"
      using c c' by (auto simp: cursor_is_accepted_def driver_emission_def)
    then have "accept_driver_update view ?upd = Some (view\<lparr>vw_data := or_opt (du_data ?upd) (vw_data view),
        vw_cursor := or_opt (du_cursor ?upd) (vw_cursor view)\<rparr>)" by (simp add: accept_driver_update_def driver_emission_def)
    with driver_frame_emits [OF step refl False] have view': "view' = view\<lparr>vw_data := or_opt (du_data ?upd) (vw_data view),
        vw_cursor := or_opt (du_cursor ?upd) (vw_cursor view)\<rparr>" by simp
    have "vw_cursor view' = tc_cursor ?new" using view' c c' by (auto simp: driver_emission_def)
    moreover have "with_older older h (vw_data view') (tc_projection ?e)"
      using view' new(2) same_data by (auto simp: with_older_def driver_emission_def)
    ultimately show ?thesis using st' new view' by (auto simp: shows_pages_def with_older_def)
  qed
qed

lemma pager_loads:
  "pager_load view = Some flight \<Longrightarrow> message_head (vw_data view) = Some (pf_before flight)"
  by (auto simp: pager_load_def)

lemma merge_pages:
  assumes "merge_page flight page p = Some p'"
  shows "or_null (tp_olderMessageSequence p) = Some (pf_before flight)"
    "distinct (map tm_id (tp_messages p)) \<Longrightarrow> tp_messages p' = prepend (pr_messages page) (tp_messages p)"
    "or_null (tp_olderMessageSequence p') = pr_olderMessageSequence page"
  using assms
  by (auto simp: merge_page_def restore_client_state_def prepend_messages_def empty_client_state_def
      prepend_def by_id_distinct split: if_splits option.splits)

lemma bus_updated:
  "bus_update view g c f = Some v \<Longrightarrow> \<exists>p p'. vw_data view = Some p \<and> f p = Some p' \<and> v = view\<lparr>vw_data := Some p'\<rparr>"
  by (auto simp: bus_update_def split: option.splits if_splits)

text \<open>An answer that is not applied changes nothing; one that is was read at the head it goes to.\<close>

lemma answer_applied:
  assumes "pager_answer allow_live view flight answer = (res, view')"
  obtains (kept) "view' = view" "\<forall>r. res = Some r \<longrightarrow> \<not> or_applied r"
  | (applied) page p p' r where "answer = Some page" "res = Some r" "or_applied r"
      "vw_data view = Some p" "merge_page flight page p = Some p'"
      "view' = view\<lparr>vw_data := Some p'\<rparr>"
      "\<forall>older. pr_olderMessageSequence page = Some older \<longrightarrow> older < pf_before flight"
proof (cases answer)
  case None
  with assms kept show ?thesis by (auto simp: pager_answer_def)
next
  case (Some page)
  let ?stuck = "case pr_olderMessageSequence page of None \<Rightarrow> False | Some older \<Rightarrow> older \<ge> pf_before flight"
  show ?thesis
  proof (cases ?stuck)
    case True
    with assms have "view' = view" "res = None" by (simp_all add: pager_answer_def Some)
    with kept show ?thesis by simp
  next
    case False
    show ?thesis
    proof (cases "bus_update view (pf_generation flight) (pager_cursor allow_live view flight) (merge_page flight page)")
      case None
      from assms have "view' = view" "\<forall>r. res = Some r \<longrightarrow> \<not> or_applied r"
        unfolding pager_answer_def Some option.case None if_not_P [OF False] by auto
      with kept show ?thesis by blast
    next
      case (Some v)
      let ?r = "\<lparr>or_applied = True, or_loaded = message_count (vw_data v) - message_count (vw_data view),
          or_hasMore = pr_olderMessageSequence page \<noteq> None\<rparr>"
      have "pager_answer allow_live view flight answer = (Some ?r, v)"
        by (simp only: pager_answer_def \<open>answer = Some page\<close> option.case Some if_not_P [OF False])
      from this [unfolded assms] have r: "res = Some ?r" "or_applied ?r" "view' = v" by (auto simp only: prod.inject older_result.simps)
      from bus_updated [OF Some] obtain p p' where "vw_data view = Some p" "merge_page flight page p = Some p'"
        "view' = view\<lparr>vw_data := Some p'\<rparr>" unfolding r(3) by blast
      moreover from False have "\<forall>older. pr_olderMessageSequence page = Some older \<longrightarrow> older < pf_before flight"
        by auto
      ultimately show ?thesis using applied \<open>answer = Some page\<close> r by blast
    qed
  qed
qed

lemma answer_shows:
  assumes pages: "shows_pages older h st view e" and head: "message_head (vw_data view) = h"
    and step: "pager_answer allow_live view flight answer = (res, view')"
    and applied: "answer = Some page" "res = Some r" "or_applied r"
  shows "shows_pages (pr_messages page @ older) (pr_olderMessageSequence page) st view' e \<and>
    h = Some (pf_before flight)"
proof (cases rule: answer_applied [OF step, consumes 0, case_names kept applied])
  case kept
  with applied show ?thesis by simp
next
  case (applied page' p p' r')
  with assms(4-6) have same: "page' = page" by simp
  from pages applied(4) obtain q where q: "tc_projection e = Some q" "tp_messages p = prepend older (tp_messages q)"
    "distinct (map tm_id (tp_messages q))" by (auto simp: shows_pages_def with_older_def)
  then have "distinct (map tm_id (tp_messages p))" by (simp only: prepend_distinct)
  with merge_pages [OF applied(5)] q same have "tp_messages p' = prepend (pr_messages page @ older) (tp_messages q)"
    "or_null (tp_olderMessageSequence p') = pr_olderMessageSequence page"
    "or_null (tp_olderMessageSequence p) = Some (pf_before flight)"
    by (simp_all add: prepend_prepend)
  with pages q head applied(4,6) show ?thesis
    by (simp add: shows_pages_def with_older_def message_head_def)
qed

section \<open>A source of pages\<close>

text \<open>
  What a reader of pages promises: the page before \<open>b\<close> ends where the items before \<open>b\<close> end, and goes
  back to its own head.
\<close>

locale page_source =
  fixes answers :: "int \<Rightarrow> message_page_result \<Rightarrow> bool"
    and items :: "int \<Rightarrow> timeline_message list"
    and start :: int
  assumes last_page: "answers b page \<Longrightarrow> b \<le> start \<Longrightarrow> pr_olderMessageSequence page = None \<Longrightarrow>
      items b = pr_messages page"
    and next_page: "answers b page \<Longrightarrow> b \<le> start \<Longrightarrow> pr_olderMessageSequence page = Some older \<Longrightarrow>
      older < b \<and> items b = items older @ pr_messages page"
begin

definition reached :: "int option \<Rightarrow> timeline_message list \<Rightarrow> bool" where
  "reached h older \<longleftrightarrow>
     (case h of None \<Rightarrow> items start = older | Some b \<Rightarrow> b \<le> start \<and> items start = items b @ older)"

lemma reached_start: "reached (Some start) []"
  by (simp add: reached_def)

lemma reached_next:
  assumes "reached (Some b) older" "answers b page"
  shows "reached (pr_olderMessageSequence page) (pr_messages page @ older)"
proof -
  from assms(1) have b: "b \<le> start" "items start = items b @ older" by (simp_all add: reached_def)
  show ?thesis
  proof (cases "pr_olderMessageSequence page")
    case None
    from last_page [OF assms(2) b(1) None] b(2) show ?thesis by (simp add: None reached_def)
  next
    case (Some n)
    from next_page [OF assms(2) b(1) Some] b show ?thesis by (simp add: Some reached_def)
  qed
qed

lemma run_shows:
  assumes run: "paged_run same collate background allow_live answers st0 view0 frames pages st view flights"
    and start: "shows_pages [] (Some start) st0 view0 st0"
    and tail: "\<forall>f \<in> set frames. tail_frame f"
  shows "shows_pages (concat (rev pages)) (message_head (vw_data view)) st view (run_frames collate st0 frames) \<and>
    reached (message_head (vw_data view)) (concat (rev pages))"
  using run tail
proof (induction rule: paged_run.induct)
  case open_run
  from start have "message_head (vw_data view0) = Some start" by (auto simp: shows_pages_def with_older_def message_head_def)
  with start reached_start show ?case by simp
next
  case (frame frames pages st view flights differs renewed f st' view')
  then have shown: "shows_pages (concat (rev pages)) (message_head (vw_data view)) st view (run_frames collate st0 frames)"
    and reached: "reached (message_head (vw_data view)) (concat (rev pages))" by simp_all
  from frame.hyps(2) shown have "tc_phase (run_frames collate st0 frames) \<noteq> ClientStale"
    by (simp add: shows_pages_def aligned_def)
  then have run: "run_frames collate st0 (frames @ [f]) = reduce_frame collate (run_frames collate st0 frames) f"
    by (simp add: run_append Let_def)
  from driver_frame_shows [OF shown _ frame.hyps(3)] frame.prems
  have next_shown: "shows_pages (concat (rev pages)) (message_head (vw_data view)) st' view' (run_frames collate st0 (frames @ [f]))"
    by (simp add: run)
  then have "message_head (vw_data view') = message_head (vw_data view)"
    by (auto simp: shows_pages_def with_older_def message_head_def)
  with next_shown reached show ?case by simp
next
  case (load frames pages st view flights flight)
  then show ?case by simp
next
  case (answer frames pages st view flights flight answer' res view' pages')
  then have shown: "shows_pages (concat (rev pages)) (message_head (vw_data view)) st view (run_frames collate st0 frames)"
    and reached: "reached (message_head (vw_data view)) (concat (rev pages))" by simp_all
  show ?case
  proof (cases rule: answer_applied [OF answer.hyps(4), consumes 0, case_names kept applied])
    case kept
    then have "pages' = pages" by (auto simp: answer.hyps(5) split: option.splits)
    with kept shown reached show ?thesis by simp
  next
    case (applied page p p' r)
    note got = answer_shows [OF shown refl answer.hyps(4) applied(1-3)]
    from applied have pages': "pages' = pages @ [pr_messages page]" by (simp add: answer.hyps(5))
    from got reached answer.hyps(3) applied(1) reached_next [of "pf_before flight" "concat (rev pages)" page]
    have "reached (pr_olderMessageSequence page) (pr_messages page @ concat (rev pages))" by simp
    moreover from got have "message_head (vw_data view') = pr_olderMessageSequence page"
      by (auto simp: shows_pages_def with_older_def message_head_def)
    ultimately show ?thesis using got by (simp add: pages')
  qed
qed

end

section \<open>The server's pages\<close>

text \<open>
  What the server may answer for the page before \<open>b\<close>: it reads at any later time, from tables that
  still have the readable messages of \<open>rm\<close> before \<open>start\<close>, with any limit.
\<close>

definition server_answers ::
  "timeline_decoders \<Rightarrow> read_model \<Rightarrow> string \<Rightarrow> int \<Rightarrow> int \<Rightarrow> message_page_result \<Rightarrow> bool" where
  "server_answers d rm sid start b page \<longleftrightarrow>
     (\<exists>rm' limit. sequences_differ rm' sid \<and> items_before d rm' sid start = items_before d rm sid start \<and>
       session_messages_page d rm' sid (Some b) limit = Inr page)"

lemma decoded_records:
  assumes "those (map (message_from_record d) reads) = Some messages"
    and "\<forall>r \<in> set reads. me_sessionId r = sid"
  shows "map fst (concat (map (timeline_item d sid) reads)) = messages"
  using assms
proof (induction reads arbitrary: messages)
  case (Cons r reads)
  then show ?case
    by (auto simp: message_from_record_def timeline_item_def split: option.splits)
qed simp

lemma page_of_session:
  assumes "message_page rm sid before n = Inr page"
  shows "\<forall>r \<in> set (mp_items page). me_sessionId r = sid"
  using assms
  by (auto simp: message_page_def page_rows_def slice_to_def sql_limit_def message_record_def Let_def
      split: sum.splits if_splits dest!: in_set_takeD)

lemma session_page_read:
  assumes "session_messages_page d rm sid before limit = Inr page"
  obtains tp n where "0 < n" "read_timeline_message_page d rm sid before (int n) = Inr tp"
    "pr_messages page = map fst (pg_items tp)" "pr_olderMessageSequence page = pg_olderMessageSequence tp"
proof -
  let ?n = "nat (max 1 (min 200 (or_else limit 100)))"
  have n: "int ?n = max 1 (min 200 (or_else limit 100))" by simp
  from assms obtain mp where mp: "message_page rm sid before (int ?n) = Inr mp"
    "those (map (message_from_record d) (mp_items mp)) = Some (pr_messages page)"
    "pr_olderMessageSequence page = mp_olderSequence mp"
    unfolding n session_messages_page_def by (auto split: sum.splits option.splits)
  have read: "read_timeline_message_page d rm sid before (int ?n) =
      Inr \<lparr>pg_items = concat (map (timeline_item d sid) (mp_items mp)), pg_olderMessageSequence = mp_olderSequence mp\<rparr>"
    by (simp only: read_timeline_message_page_def mp(1) sum.case)
  show ?thesis
  proof (rule that)
    show "0 < ?n" by simp
    show "read_timeline_message_page d rm sid before (int ?n) =
      Inr \<lparr>pg_items = concat (map (timeline_item d sid) (mp_items mp)), pg_olderMessageSequence = mp_olderSequence mp\<rparr>"
      by (rule read)
  qed (use decoded_records [OF mp(2) page_of_session [OF mp(1)]] mp(3) in simp_all)
qed

lemma server_page_items:
  assumes "server_answers d rm sid start b page" "b \<le> start"
  shows "case pr_olderMessageSequence page of
      None \<Rightarrow> map fst (items_before d rm sid b) = pr_messages page
    | Some older \<Rightarrow> older < b \<and> map fst (items_before d rm sid b) = map fst (items_before d rm sid older) @ pr_messages page"
proof -
  from assms(1) obtain rm' limit where later: "sequences_differ rm' sid"
    "items_before d rm' sid start = items_before d rm sid start"
    "session_messages_page d rm' sid (Some b) limit = Inr page" by (auto simp: server_answers_def)
  have same: "items_before d rm' sid c = items_before d rm sid c" if "c \<le> start" for c
    using later(2) items_before_filter [OF that, of d rm' sid] items_before_filter [OF that, of d rm sid] by simp
  obtain tp n where tp: "0 < n" "read_timeline_message_page d rm' sid (Some b) (int n) = Inr tp"
    "pr_messages page = map fst (pg_items tp)" "pr_olderMessageSequence page = pg_olderMessageSequence tp"
    by (rule session_page_read [OF later(3)])
  from tp(2) obtain s where "get_session rm' sid = Inr s"
    by (auto simp: read_timeline_message_page_def message_page_def split: sum.splits)
  from page_items [OF this later(1) tp(1) _ tp(2), of b] assms(2) same show ?thesis
    by (auto simp: tp(3,4) split: option.splits)
qed

interpretation server_pages: page_source "server_answers d rm sid start" "\<lambda>b. map fst (items_before d rm sid b)" start
  for d rm sid start
  using server_page_items [of d rm sid start]
  by unfold_locales (fastforce split: option.splits)+

end
