(* ===== verification/Client_Pager_Properties.thy ===== *)
theory Client_Pager_Properties
  imports Client_Pager Snapshot_Properties
begin

text \<open>
  Loading older messages beside a live stream: the pages join what the stream shows, and a page that
  was read before a rollback brings back what the rollback removed.
\<close>


text \<open>A live client that has nothing of the session before its fifth message\<close>

definition live_cursor :: "int \<Rightarrow> stream_cursor" where
  "live_cursor v = \<lparr>sc_epoch = ''epoch'', sc_version = v\<rparr>"

definition live_projection :: timeline_projection where
  "live_projection = empty_timeline_projection\<lparr>tp_olderMessageSequence := Some (Some 5)\<rparr>"

definition live_state :: client_state where
  "live_state = empty_client_state\<lparr>tc_projection := Some live_projection, tc_cursor := Some (live_cursor 1),
     tc_phase := ClientLive\<rparr>"

definition live_view :: timeline_view where
  "live_view = \<lparr>vw_data = Some live_projection, vw_generation = 1, vw_cursor = Some (live_cursor 1)\<rparr>"

definition live_flight :: page_flight where
  "live_flight = \<lparr>pf_generation = 1, pf_cursor = Some (live_cursor 1), pf_before = 5\<rparr>"

definition live_frame :: "timeline_event \<Rightarrow> timeline_frame" where
  "live_frame e = EventFrame ''s1''
     \<lparr>ef_streamVersion = 2, ef_eventId = ''e2'', ef_event = e, ef_cursor = Some (live_cursor 2)\<rparr>"

definition live_step :: "timeline_event \<Rightarrow> client_state \<times> timeline_view" where
  "live_step e = driver_frame (\<lambda>_ _. True) (\<lambda>_ _. 0) True False False live_state live_view (live_frame e)"


definition older_page :: message_page_result where
  "older_page = projr (session_messages_page (sp_decoders small_env) small_model ''s1'' (Some 5) None)"

lemma live_load: "pager_load live_view = Some live_flight"
  by code_simp


lemma older_page_ids: "map tm_id (pr_messages older_page) = [''2'']" "pr_olderMessageSequence older_page = None"
  by code_simp+


lemma first_of_page:
  assumes "m \<in> set ms" "distinct (map tm_id ms)"
  shows "(tm_id m, m) \<in> set (foldl put_message [] ms)"
proof -
  have "foldl put_message [] ms = map (\<lambda>m. (tm_id m, m)) ms"
    using map_from_distinct [of "map (\<lambda>m. (tm_id m, m)) ms"] assms(2)
    by (simp add: by_id_foldl [symmetric] messages_by_id_def comp_def)
  with assms(1) show ?thesis by auto
qed

lemma kept_by_others:
  "(tm_id m, m) \<in> set M \<Longrightarrow> \<forall>x \<in> set xs. tm_id x \<noteq> tm_id m \<Longrightarrow> m \<in> set (map snd (foldl put_message M xs))"
proof (induction xs arbitrary: M)
  case (Cons x xs)
  have put: "(k, v) \<in> set (AList.update l w M')" if "(k, v) \<in> set M'" "k \<noteq> l"
    for k l and v w :: timeline_message and M' :: "(string, timeline_message) jsmap"
    using that by (induction M') auto
  from Cons.prems have "(tm_id m, m) \<in> set (put_message M x)" by (intro put) auto
  with Cons.IH Cons.prems(2) show ?case by simp
qed (auto intro: rev_image_eqI)

text \<open>C14: A page that is requested before a rollback reaches the client and
  answered after it brings back the messages the rollback removed, when the application allows pages
  to be applied after the stream has advanced. An application that does not allow it refuses the page.\<close>

theorem rolled_back_page_returns:
  assumes "vw_data view = Some p" "tc_projection st = Some p" "tc_cursor st = Some c" "vw_cursor view = Some c"
    and "tc_resetEpoch st = None" "tc_phase st = ClientLive" "pager_load view = Some flight"
    and "driver_frame same collate background differs renewed st view
      (EventFrame sid \<lparr>ef_streamVersion = sc_version c + 1, ef_eventId = i,
         ef_event = TlTranscriptRolledBack turn_ids tm removed,
         ef_cursor = Some \<lparr>sc_epoch = sc_epoch c, sc_version = sc_version c + 1\<rparr>\<rparr>) = (st', view')"
    and "m \<in> set (pr_messages page)" "tm_id m \<in> set removed" "distinct (map tm_id (pr_messages page))"
    and "\<forall>older. pr_olderMessageSequence page = Some older \<longrightarrow> older < pf_before flight"
  shows "\<exists>q r. vw_data view' = Some q \<and> (\<forall>x \<in> set (tp_messages q). tm_id x \<notin> set removed) \<and>
    vw_data (snd (pager_answer True view' flight (Some page))) = Some r \<and> m \<in> set (tp_messages r) \<and>
    snd (pager_answer False view' flight (Some page)) = view'"
proof -
  let ?c = "\<lparr>sc_epoch = sc_epoch c, sc_version = sc_version c + 1\<rparr>"
  let ?f = "\<lparr>ef_streamVersion = sc_version c + 1, ef_eventId = i,
      ef_event = TlTranscriptRolledBack turn_ids tm removed, ef_cursor = Some ?c\<rparr>"
  let ?prev = "driver_observe same background differs st view"
  have prev: "tc_projection ?prev = Some p" "tc_cursor ?prev = Some c" "tc_resetEpoch ?prev = None"
    "tc_phase ?prev = ClientLive"
    using assms(1-6) by (simp_all add: driver_observe_def observe_optimistic_def Let_def)
  let ?q = "apply_timeline_event collate (p\<lparr>tp_runtimeObservation := None\<rparr>) (TlTranscriptRolledBack turn_ids tm removed)"
  let ?new = "apply_event_frame collate ?prev p ?c (TlTranscriptRolledBack turn_ids tm removed)"
  have reduced: "reduce_frame collate ?prev (EventFrame sid ?f) = ?new"
    using prev by (simp add: reduce_frame_def reduce_event_def cursor_for_frame_def)
  obtain q where q: "tc_projection ?new = Some q" "\<forall>x \<in> set (tp_messages q). tm_id x \<notin> set removed"
    "tp_olderMessageSequence q = tp_olderMessageSequence p"
  proof
    show "tc_projection ?new = Some ?q" by (simp add: apply_event_frame_def del: apply_timeline_event.simps)
    show "\<forall>x \<in> set (tp_messages ?q). tm_id x \<notin> set removed"
      by (simp add: event_messages del: apply_timeline_event.simps)
    show "tp_olderMessageSequence ?q = tp_olderMessageSequence p"
      by (simp del: apply_timeline_event.simps)
  qed
  have new: "tc_cursor ?new = Some ?c" by (simp add: apply_event_frame_def)
  have moved: "c \<noteq> ?c" by (cases c) simp
  with prev(2) new have changed: "?new \<noteq> ?prev" by auto
  have view': "view' = view\<lparr>vw_data := Some q, vw_cursor := Some ?c\<rparr>"
  proof -
    have "view' = or_else (accept_driver_update view (driver_emission renewed ?prev ?new (EventFrame sid ?f))) view"
      using changed by (intro driver_frame_emits [OF assms(8) reduced]) simp
    moreover have "\<exists>data. driver_emission renewed ?prev ?new (EventFrame sid ?f) =
        \<lparr>du_accessDenied = False, du_data = data, du_cursor = Some ?c, du_resetEpoch = False\<rparr> \<and> or_opt data (vw_data view) = Some q"
      using assms(1) q(1) new prev(1,2) moved by (auto simp: driver_emission_def)
    ultimately show ?thesis
      using assms(4) by (auto simp: accept_driver_update_def cursor_is_accepted_def)
  qed
  have flight: "pf_generation flight = vw_generation view" "pf_cursor flight = Some c"
    "or_null (tp_olderMessageSequence p) = Some (pf_before flight)"
    using assms(1,4,7) by (auto simp: pager_load_def message_head_def)
  have "pr_messages page \<noteq> []" using assms(9) by auto
  with flight(2,3) q(3) obtain r where r: "merge_page flight page q = Some r"
    "tp_messages r = map snd (messages_by_id (pr_messages page @ tp_messages q))"
    by (auto simp: merge_page_def restore_client_state_def prepend_messages_def empty_client_state_def)
  have returned: "m \<in> set (tp_messages r)"
    unfolding r(2) by_id_foldl foldl_append
    using first_of_page [OF assms(9,11)] q(2) assms(10) by (intro kept_by_others) auto
  have cursor: "pager_cursor True view' flight = Some ?c" "pager_cursor False view' flight = Some c"
    by (simp_all add: pager_cursor_def view' flight)
  have ok: "\<not> (case pr_olderMessageSequence page of None \<Rightarrow> False | Some older \<Rightarrow> pf_before flight \<le> older)"
    using assms(12) by (auto split: option.splits)
  have "bus_update view' (pf_generation flight) (Some ?c) (merge_page flight page) = Some (view'\<lparr>vw_data := Some r\<rparr>)"
    "bus_update view' (pf_generation flight) (Some c) (merge_page flight page) = None"
    using moved by (simp_all add: bus_update_def view' flight(1) r(1))
  then have "snd (pager_answer True view' flight (Some page)) = view'\<lparr>vw_data := Some r\<rparr>"
    "snd (pager_answer False view' flight (Some page)) = view'"
    by (simp_all only: pager_answer_def option.case cursor if_not_P [OF ok] snd_conv)
  with returned q(2) view' show ?thesis by simp
qed

theorem rolled_back_page_returns_witness:
  "\<exists>r. vw_data (snd (pager_answer True (snd (live_step (TlTranscriptRolledBack None None [''2'']))) live_flight
       (Some older_page))) = Some r \<and> map tm_id (tp_messages r) = [''2'']"
proof -
  let ?e = "TlTranscriptRolledBack None None [''2'']"
  obtain m where m: "pr_messages older_page = [m]" "tm_id m = ''2''" using older_page_ids(1) by (auto simp: map_eq_Cons_conv)
  have step: "driver_frame (\<lambda>_ _. True) (\<lambda>_ _. 0) True False False live_state live_view (EventFrame ''s1''
      \<lparr>ef_streamVersion = sc_version (live_cursor 1) + 1, ef_eventId = ''e2'', ef_event = ?e,
       ef_cursor = Some \<lparr>sc_epoch = sc_epoch (live_cursor 1), sc_version = sc_version (live_cursor 1) + 1\<rparr>\<rparr>) =
      (fst (live_step ?e), snd (live_step ?e))"
    by (simp add: live_step_def live_frame_def live_cursor_def)
  from rolled_back_page_returns [OF _ _ _ _ _ _ live_load step, of live_projection m older_page] m older_page_ids(2)
  obtain r where r: "vw_data (snd (pager_answer True (snd (live_step ?e)) live_flight (Some older_page))) = Some r"
    by (auto simp: live_view_def live_state_def empty_client_state_def)
  moreover have "map_option (\<lambda>p. map tm_id (tp_messages p))
      (vw_data (snd (pager_answer True (snd (live_step ?e)) live_flight (Some older_page)))) = Some [''2'']" by code_simp
  ultimately show ?thesis by simp
qed

end
