(* ===== verification/Backfill.thy ===== *)
theory Backfill
  imports Session_State Execution_Steps
begin

text \<open>
  The events that stand for the rows of an installation older than the event log:
  \<open>engine/backfill.ts\<close>. The two JavaScript sets of known ids are sets; \<open>localeCompare\<close> is the
  parameter \<open>collate\<close>.
\<close>

section \<open>Snapshots\<close>

record legacy_thread =
  lt_provider :: string
  lt_nativeThreadId :: string
  lt_nativeHeadId :: "string option"

record legacy_session =
  ls_sessionId :: string
  ls_chatId :: string
  ls_projectId :: string
  ls_title :: string
  ls_providerId :: string
  ls_model :: string
  ls_status :: session_status
  ls_providerThread :: "legacy_thread option"
  ls_runtimeMode :: runtime_mode
  ls_agentsJson :: "string option"
  ls_worktreeId :: "string option"
  ls_forkedFromSessionId :: "string option"
  ls_forkedFromMessageId :: "string option"
  ls_permissionMode :: permission_mode
  ls_toolSearch :: bool
  ls_queuePaused :: bool
  ls_createdAt :: int
  ls_updatedAt :: int
  ls_archivedAt :: "int option"
  ls_deletedAt :: "int option"

record legacy_message =
  lm_rowId :: int
  lm_messageId :: string
  lm_sessionId :: string
  lm_role :: string
  lm_kind :: string
  lm_contentJson :: string
  lm_parentItemId :: "string option"
  lm_createdAt :: int

record backfill_input =
  bi_sessions :: "legacy_session list"
  bi_messages :: "legacy_message list"
  bi_existingEventIds :: "string set"
  bi_existingMessageIds :: "string set"

record backfill_event =
  be_eventId :: string
  be_correlationId :: string
  be_streamId :: string
  be_occurredAt :: int
  be_event :: session_event

section \<open>Events of a snapshot\<close>

definition session_created_event_from_snapshot :: "legacy_session \<Rightarrow> session_event" where
  "session_created_event_from_snapshot s =
     SessionCreated
       \<lparr>sc_delegation = None, sc_sessionId = ls_sessionId s, sc_chatId = ls_chatId s,
        sc_projectId = ls_projectId s, sc_createdAt = ls_createdAt s, sc_title = Some (ls_title s),
        sc_titleProvenance = None, sc_providerId = Some (ls_providerId s), sc_model = Some (ls_model s),
        sc_status = Some (ls_status s), sc_cursor = None, sc_resumeStrategy = None,
        sc_runtimeMode = Some (ls_runtimeMode s), sc_agentsJson = Some (ls_agentsJson s),
        sc_worktreeId = Some (ls_worktreeId s), sc_forkedFromSessionId = Some (ls_forkedFromSessionId s),
        sc_forkedFromMessageId = Some (ls_forkedFromMessageId s),
        sc_permissionMode = Some (ls_permissionMode s), sc_toolSearch = Some (ls_toolSearch s),
        sc_queuePaused = Some (ls_queuePaused s), sc_providerStartJson = None\<rparr>"

definition provider_thread_events_from_snapshot :: "legacy_session \<Rightarrow> session_event list" where
  "provider_thread_events_from_snapshot s =
     (case ls_providerThread s of
        None \<Rightarrow> []
      | Some thread \<Rightarrow>
          let key = provider_thread_id_for (ls_sessionId s) (lt_provider thread) (lt_nativeThreadId thread) in
          [ProviderThreadUpdated
             \<lparr>pt_id = key, pt_provider = lt_provider thread, pt_nativeThreadId = lt_nativeThreadId thread,
              pt_nativeHeadId = lt_nativeHeadId thread, pt_status = ThreadIdle,
              pt_firstTurnOrdinal = None, pt_lastTurnOrdinal = None, pt_createdAt = ls_createdAt s,
              pt_updatedAt = ls_updatedAt s\<rparr>,
           ActiveProviderThreadSet (Some key) (ls_updatedAt s)])"

definition message_event_from_snapshot :: "legacy_message \<Rightarrow> session_event" where
  "message_event_from_snapshot m =
     MessagePersisted
       \<lparr>mf_inputOwner = None, mf_messageId = lm_messageId m, mf_turnId = None, mf_role = lm_role m,
        mf_kind = lm_kind m, mf_contentJson = lm_contentJson m, mf_parentItemId = lm_parentItemId m,
        mf_checkpointRevision = None, mf_checkpointFinal = None, mf_createdAt = lm_createdAt m\<rparr>"

definition backfill_id :: "string \<Rightarrow> string \<Rightarrow> string" where
  "backfill_id kind entity_id = ''backfill:'' @ kind @ '':'' @ entity_id"

section \<open>The synthesis\<close>

definition backfill_append ::
  "string set \<Rightarrow> string \<Rightarrow> string \<Rightarrow> int \<Rightarrow> session_event \<Rightarrow> backfill_event list" where
  "backfill_append existing stream_id event_id occurred_at e =
     (if event_id \<in> existing then []
      else [\<lparr>be_eventId = event_id, be_correlationId = event_id, be_streamId = stream_id,
             be_occurredAt = occurred_at, be_event = e\<rparr>])"

definition session_before :: "collation \<Rightarrow> legacy_session \<Rightarrow> legacy_session \<Rightarrow> int" where
  "session_before collate l r =
     (if ls_createdAt l - ls_createdAt r \<noteq> 0 then ls_createdAt l - ls_createdAt r
      else collate (ls_sessionId l) (ls_sessionId r))"

definition message_before :: "legacy_message \<Rightarrow> legacy_message \<Rightarrow> int" where
  "message_before l r =
     (if lm_createdAt l - lm_createdAt r \<noteq> 0 then lm_createdAt l - lm_createdAt r
      else lm_rowId l - lm_rowId r)"

text \<open>The group of a session in \<open>messagesBySession\<close>, sorted.\<close>

definition messages_of_session :: "backfill_input \<Rightarrow> string \<Rightarrow> legacy_message list" where
  "messages_of_session input sid =
     sort_by message_before (filter (\<lambda>m. lm_sessionId m = sid) (bi_messages input))"

definition backfill_session :: "backfill_input \<Rightarrow> legacy_session \<Rightarrow> backfill_event list" where
  "backfill_session input s =
     (let sid = ls_sessionId s;
          put = backfill_append (bi_existingEventIds input) sid
      in put (backfill_id ''session-created'' sid) (ls_createdAt s) (session_created_event_from_snapshot s) @
         concat (map (\<lambda>(i, e). put (backfill_id (''provider-thread-'' @ nat_to_string i) sid) (ls_updatedAt s) e)
           (enumerate 0 (provider_thread_events_from_snapshot s))) @
         concat (map (\<lambda>m. put (backfill_id ''message'' (lm_messageId m)) (lm_createdAt m) (message_event_from_snapshot m))
           (filter (\<lambda>m. lm_messageId m \<notin> bi_existingMessageIds input) (messages_of_session input sid))) @
         (case ls_archivedAt s of
            None \<Rightarrow> []
          | Some tm \<Rightarrow> put (backfill_id ''session-archived'' sid) tm (SessionArchived tm)) @
         put (backfill_id ''session-title'' sid) (ls_updatedAt s) (SessionTitleSet (ls_title s) None (ls_updatedAt s)) @
         (case ls_deletedAt s of
            None \<Rightarrow> []
          | Some tm \<Rightarrow> put (backfill_id ''session-deleted'' sid) tm (SessionDeleted tm)))"

definition synthesize_backfill :: "collation \<Rightarrow> backfill_input \<Rightarrow> backfill_event list" where
  "synthesize_backfill collate input =
     concat (map (backfill_session input) (sort_by (session_before collate) (bi_sessions input)))"

section \<open>Running it again\<close>

lemma append_existing:
  "backfill_append E sid i tm e = filter (\<lambda>x. be_eventId x \<notin> E) (backfill_append {} sid i tm e)"
  by (simp add: backfill_append_def)

lemma session_existing:
  "backfill_session (input\<lparr>bi_existingEventIds := E\<rparr>) s =
     filter (\<lambda>x. be_eventId x \<notin> E) (backfill_session (input\<lparr>bi_existingEventIds := {}\<rparr>) s)"
  by (simp add: backfill_session_def Let_def messages_of_session_def filter_concat comp_def split_def
      append_existing [of E] split: option.splits)

definition fresh_backfill :: "legacy_session list \<Rightarrow> legacy_message list \<Rightarrow> backfill_input" where
  "fresh_backfill sessions messages =
     \<lparr>bi_sessions = sessions, bi_messages = messages, bi_existingEventIds = {}, bi_existingMessageIds = {}\<rparr>"

section \<open>Identifiers\<close>

lemma append_ids: "map be_eventId (backfill_append {} sid i tm e) = [i]"
  by (simp add: backfill_append_def)

lemma session_ids:
  "map be_eventId (backfill_session (fresh_backfill sessions messages) s) =
     [backfill_id ''session-created'' (ls_sessionId s)] @
     (case ls_providerThread s of None \<Rightarrow> []
      | Some t \<Rightarrow> [backfill_id ''provider-thread-0'' (ls_sessionId s), backfill_id ''provider-thread-1'' (ls_sessionId s)]) @
     map (\<lambda>m. backfill_id ''message'' (lm_messageId m))
       (messages_of_session (fresh_backfill sessions messages) (ls_sessionId s)) @
     (case ls_archivedAt s of None \<Rightarrow> [] | Some tm \<Rightarrow> [backfill_id ''session-archived'' (ls_sessionId s)]) @
     [backfill_id ''session-title'' (ls_sessionId s)] @
     (case ls_deletedAt s of None \<Rightarrow> [] | Some tm \<Rightarrow> [backfill_id ''session-deleted'' (ls_sessionId s)])"
proof -
  have n: "nat_to_string 0 = ''0''" "nat_to_string (Suc 0) = ''1''" by code_simp+
  have one: "map be_eventId (concat (map (\<lambda>m. backfill_append {} sid (f m) (g m) (h m)) ms)) = map f ms"
    for sid f g h and ms :: "legacy_message list"
    by (induction ms) (simp_all add: append_ids)
  show ?thesis
    by (simp add: backfill_session_def fresh_backfill_def Let_def append_ids one n
        provider_thread_events_from_snapshot_def split: option.splits)
qed

lemma backfill_id_inj:
  assumes "CHR '':'' \<notin> set k" "CHR '':'' \<notin> set k'"
  shows "backfill_id k e = backfill_id k' e' \<longleftrightarrow> k = k' \<and> e = e'"
proof
  assume eq: "backfill_id k e = backfill_id k' e'"
  have split: "takeWhile (\<lambda>c. c \<noteq> CHR '':'') (k @ CHR '':'' # e) = k" if "CHR '':'' \<notin> set k" for k e :: string
    using that by (induction k) auto
  from eq have same: "k @ CHR '':'' # e = k' @ CHR '':'' # e'" by (simp add: backfill_id_def)
  then have "k = k'" using split [OF assms(1), of e] split [OF assms(2), of e'] by simp
  with same show "k = k' \<and> e = e'" by simp
qed simp

lemma session_ids_of:
  assumes "x \<in> set (map be_eventId (backfill_session (fresh_backfill sessions messages) s))"
  shows "(\<exists>k \<in> {''session-created'', ''provider-thread-0'', ''provider-thread-1'', ''session-archived'', ''session-title'',
        ''session-deleted''}. x = backfill_id k (ls_sessionId s)) \<or>
    (\<exists>m \<in> set messages. lm_sessionId m = ls_sessionId s \<and> x = backfill_id ''message'' (lm_messageId m))"
  using assms unfolding session_ids
  by (auto simp: messages_of_session_def fresh_backfill_def split: option.splits)

lemma session_ids_distinct:
  assumes "distinct (map lm_messageId messages)"
  shows "distinct (map be_eventId (backfill_session (fresh_backfill sessions messages) s))"
proof -
  have "distinct (map lm_messageId (filter (\<lambda>m. lm_sessionId m = ls_sessionId s) messages))"
    using assms by (rule distinct_map_filter)
  then have "distinct (map lm_messageId (messages_of_session (fresh_backfill sessions messages) (ls_sessionId s)))"
    by (simp add: messages_of_session_def fresh_backfill_def)
  then have "distinct (map (\<lambda>m. backfill_id ''message'' (lm_messageId m))
      (messages_of_session (fresh_backfill sessions messages) (ls_sessionId s)))"
    by (simp add: distinct_map inj_on_def backfill_id_inj)
  then show ?thesis
    unfolding session_ids by (auto simp: backfill_id_inj split: option.splits)
qed

lemma backfill_ids_distinct:
  assumes "distinct (map ls_sessionId sessions)" "distinct (map lm_messageId messages)"
  shows "distinct (map be_eventId (synthesize_backfill collate (fresh_backfill sessions messages)))"
proof -
  let ?f = "backfill_session (fresh_backfill sessions messages)"
  have apart: "ls_sessionId s = ls_sessionId s'"
    if "x \<in> set (map be_eventId (?f s))" "x \<in> set (map be_eventId (?f s'))" for x s s'
  proof -
    have same: "ls_sessionId s = ls_sessionId s'"
      if "m \<in> set messages" "m' \<in> set messages" "lm_messageId m = lm_messageId m'"
        "lm_sessionId m = ls_sessionId s" "lm_sessionId m' = ls_sessionId s'" for m m'
    proof -
      have "m = m'" using assms(2) that(1-3) by (auto simp: distinct_map dest: inj_onD)
      with that(4,5) show ?thesis by simp
    qed
    from session_ids_of [OF that(1)] session_ids_of [OF that(2)] show ?thesis
      by (elim disjE bexE conjE) (auto simp: backfill_id_inj intro: same)
  qed
  have "distinct (map ls_sessionId ss) \<Longrightarrow> distinct (map be_eventId (concat (map ?f ss)))" for ss
  proof (induction ss)
    case (Cons s ss)
    have "x \<notin> set (map be_eventId (concat (map ?f ss)))" if "x \<in> set (map be_eventId (?f s))" for x
    proof
      assume "x \<in> set (map be_eventId (concat (map ?f ss)))"
      then obtain s' where "s' \<in> set ss" "x \<in> set (map be_eventId (?f s'))" by auto
      with apart [OF that] Cons.prems show False by auto
    qed
    then have "set (map be_eventId (?f s)) \<inter> set (map be_eventId (concat (map ?f ss))) = {}" by blast
    with Cons session_ids_distinct [OF assms(2)] show ?case
      by (simp only: list.map concat.simps map_append distinct_append) simp
  qed simp
  then show ?thesis using assms(1) by (simp add: synthesize_backfill_def fresh_backfill_def)
qed

section \<open>Folding the events\<close>

lemma evolve_messages:
  "\<exists>E R. foldl (evolve dec) s (map message_event_from_snapshot ms) =
     s\<lparr>expiredQuestionIds := E, resolvedQuestionIds := R,
       messageIds := messageIds s \<union> lm_messageId ` set ms, version := version s + int (length ms)\<rparr>"
proof (induction ms arbitrary: s)
  case (Cons m ms)
  have one: "\<exists>E R. evolve dec s (message_event_from_snapshot m) =
      s\<lparr>expiredQuestionIds := E, resolvedQuestionIds := R, messageIds := insert (lm_messageId m) (messageIds s),
        version := version s + 1\<rparr>"
    by (rule exI [of _ "expiredQuestionIds (evolve dec s (message_event_from_snapshot m))"],
        rule exI [of _ "resolvedQuestionIds (evolve dec s (message_event_from_snapshot m))"])
      (simp add: message_event_from_snapshot_def evolve_message_def Let_def)
  then obtain E R where step: "evolve dec s (message_event_from_snapshot m) =
      s\<lparr>expiredQuestionIds := E, resolvedQuestionIds := R, messageIds := insert (lm_messageId m) (messageIds s),
        version := version s + 1\<rparr>" by blast
  from Cons.IH [of "evolve dec s (message_event_from_snapshot m)"] show ?case
    by (simp add: step insert_commute algebra_simps)
next
  case Nil
  show ?case by (rule exI [of _ "expiredQuestionIds s"], rule exI [of _ "resolvedQuestionIds s"]) simp
qed

lemma session_events:
  "map be_event (backfill_session (fresh_backfill sessions messages) s) =
     session_created_event_from_snapshot s # provider_thread_events_from_snapshot s @
     map message_event_from_snapshot (messages_of_session (fresh_backfill sessions messages) (ls_sessionId s)) @
     (case ls_archivedAt s of None \<Rightarrow> [] | Some tm \<Rightarrow> [SessionArchived tm]) @
     [SessionTitleSet (ls_title s) None (ls_updatedAt s)] @
     (case ls_deletedAt s of None \<Rightarrow> [] | Some tm \<Rightarrow> [SessionDeleted tm])"
proof -
  have put: "map be_event (backfill_append {} sid i tm e) = [e]" for sid i tm e by (simp add: backfill_append_def)
  have one: "map be_event (concat (map (\<lambda>m. backfill_append {} sid (f m) (g m) (h m)) ms)) = map h ms"
    for sid f g h and ms :: "legacy_message list"
    by (induction ms) (simp_all add: put)
  show ?thesis
    by (simp add: backfill_session_def fresh_backfill_def Let_def put one
        provider_thread_events_from_snapshot_def split: option.splits)
qed

lemma own_events:
  assumes "distinct (map ls_sessionId sessions)" "s \<in> set sessions"
  shows "filter (\<lambda>x. be_streamId x = ls_sessionId s) (synthesize_backfill collate (fresh_backfill sessions messages)) =
    backfill_session (fresh_backfill sessions messages) s"
proof -
  let ?f = "backfill_session (fresh_backfill sessions messages)"
  have own: "be_streamId x = ls_sessionId r" if "x \<in> set (?f r)" for x r
    using that by (auto simp: backfill_session_def backfill_append_def fresh_backfill_def Let_def split: option.splits)
  then have keep: "filter (\<lambda>x. be_streamId x = sid) (?f r) = (if ls_sessionId r = sid then ?f r else [])" for r sid
    by (auto simp: filter_id_conv filter_empty_conv)
  have "distinct (map ls_sessionId ss) \<Longrightarrow> s \<in> set ss \<Longrightarrow>
      filter (\<lambda>x. be_streamId x = ls_sessionId s) (concat (map ?f ss)) = ?f s" for ss
  proof (induction ss)
    case (Cons r ss)
    have none: "ls_sessionId s \<notin> ls_sessionId ` set rs \<Longrightarrow>
        filter (\<lambda>x. be_streamId x = ls_sessionId s) (concat (map ?f rs)) = []" for rs
      by (induction rs) (auto simp: keep)
    show ?case
    proof (cases "ls_sessionId r = ls_sessionId s")
      case True
      with Cons.prems have "r = s" by (auto simp: image_iff)
      with Cons.prems none [of ss] show ?thesis by (auto simp: keep)
    next
      case False
      with Cons show ?thesis by (auto simp: keep)
    qed
  qed simp
  with assms show ?thesis by (simp add: synthesize_backfill_def fresh_backfill_def)
qed

section \<open>Properties\<close>

text \<open>C40: The identifiers of the synthesized events are different, so all of them fit the
  table of events, and a backfill that is run again where some of them are in the log already gives
  exactly the others, in the same order; where all are, it gives none.\<close>

theorem backfill_resumes:
  assumes "distinct (map ls_sessionId sessions)" "distinct (map lm_messageId messages)"
  shows "distinct (map be_eventId (synthesize_backfill collate (fresh_backfill sessions messages))) \<and>
    synthesize_backfill collate ((fresh_backfill sessions messages)\<lparr>bi_existingEventIds := done_ids\<rparr>) =
      filter (\<lambda>x. be_eventId x \<notin> done_ids) (synthesize_backfill collate (fresh_backfill sessions messages))"
proof -
  have fresh: "(fresh_backfill sessions messages)\<lparr>bi_existingEventIds := {}\<rparr> = fresh_backfill sessions messages"
    by (simp add: fresh_backfill_def)
  have "backfill_session ((fresh_backfill sessions messages)\<lparr>bi_existingEventIds := done_ids\<rparr>) =
      (\<lambda>s. filter (\<lambda>x. be_eventId x \<notin> done_ids) (backfill_session (fresh_backfill sessions messages) s))"
    by (rule ext) (simp only: session_existing [where E = done_ids] fresh)
  then show ?thesis
    using backfill_ids_distinct [OF assms] by (simp add: synthesize_backfill_def filter_concat comp_def)
qed

definition old_session :: legacy_session where
  "old_session =
     \<lparr>ls_sessionId = ''s1'', ls_chatId = ''c1'', ls_projectId = ''p1'', ls_title = ''t'', ls_providerId = ''codex'',
      ls_model = ''m'', ls_status = StatusIdle,
      ls_providerThread = Some \<lparr>lt_provider = ''codex'', lt_nativeThreadId = ''n1'', lt_nativeHeadId = None\<rparr>,
      ls_runtimeMode = ModeAuto, ls_agentsJson = None, ls_worktreeId = None, ls_forkedFromSessionId = None,
      ls_forkedFromMessageId = None, ls_permissionMode = PermissionDefault, ls_toolSearch = False,
      ls_queuePaused = False, ls_createdAt = 1, ls_updatedAt = 5, ls_archivedAt = Some 4, ls_deletedAt = None\<rparr>"

definition old_message :: legacy_message where
  "old_message =
     \<lparr>lm_rowId = 1, lm_messageId = ''m1'', lm_sessionId = ''s1'', lm_role = ''user'', lm_kind = ''user'',
      lm_contentJson = ''{}'', lm_parentItemId = None, lm_createdAt = 2\<rparr>"

theorem backfill_resumes_witness:
  "length (synthesize_backfill (\<lambda>a b. 0) (fresh_backfill [old_session] [old_message])) = 6 \<and>
   synthesize_backfill (\<lambda>a b. 0)
     ((fresh_backfill [old_session] [old_message])\<lparr>bi_existingEventIds := {backfill_id ''message'' ''m1''}\<rparr>) =
     filter (\<lambda>x. be_eventId x \<notin> {backfill_id ''message'' ''m1''})
       (synthesize_backfill (\<lambda>a b. 0) (fresh_backfill [old_session] [old_message]))"
proof -
  have "length (synthesize_backfill (\<lambda>a b. 0) (fresh_backfill [old_session] [old_message])) = 6"
    by code_simp
  then show ?thesis using backfill_resumes [of "[old_session]" "[old_message]"] by simp
qed

text \<open>C39: The events synthesized for a session fold to the session the old rows held:
  its fields, whether it is archived or deleted, its messages and its provider thread, which is active;
  it has no turn.\<close>

theorem backfill_restores:
  assumes "distinct (map ls_sessionId sessions)" "s \<in> set sessions"
  shows "let st = evolve_all dec initial_session_state (map be_event
        (filter (\<lambda>x. be_streamId x = ls_sessionId s) (synthesize_backfill collate (fresh_backfill sessions messages)))) in
    exists st \<and> sessionId st = Some (ls_sessionId s) \<and> chatId st = Some (ls_chatId s) \<and>
    projectId st = Some (ls_projectId s) \<and> title st = Some (ls_title s) \<and>
    providerId st = Some (ls_providerId s) \<and> model st = Some (ls_model s) \<and> status st = Some (ls_status s) \<and>
    runtimeMode st = Some (ls_runtimeMode s) \<and> worktreeId st = ls_worktreeId s \<and>
    permissionMode st = Some (ls_permissionMode s) \<and> queuePaused st = ls_queuePaused s \<and>
    archived st = (ls_archivedAt s \<noteq> None) \<and> deleted st = (ls_deletedAt s \<noteq> None) \<and>
    messageIds st = lm_messageId ` {m \<in> set messages. lm_sessionId m = ls_sessionId s} \<and>
    turns st = [] \<and> currentTurnId st = None \<and>
    (case ls_providerThread s of
       None \<Rightarrow> providerThreads st = [] \<and> activeProviderThreadId st = None
     | Some t \<Rightarrow> (\<exists>thread. providerThreads st = [(pt_id thread, thread)] \<and>
         activeProviderThreadId st = Some (pt_id thread) \<and> pt_provider thread = lt_provider t \<and>
         pt_nativeThreadId thread = lt_nativeThreadId t \<and> pt_nativeHeadId thread = lt_nativeHeadId t))"
proof -
  let ?ms = "messages_of_session (fresh_backfill sessions messages) (ls_sessionId s)"
  define bound where "bound = foldl (evolve dec) initial_session_state
    (session_created_event_from_snapshot s # provider_thread_events_from_snapshot s)"
  have ms: "set ?ms = {m \<in> set messages. lm_sessionId m = ls_sessionId s}"
    by (auto simp: messages_of_session_def fresh_backfill_def)
  from evolve_messages [of dec bound ?ms] obtain E R where E: "foldl (evolve dec) bound (map message_event_from_snapshot ?ms) =
     bound\<lparr>expiredQuestionIds := E, resolvedQuestionIds := R,
       messageIds := messageIds bound \<union> lm_messageId ` set ?ms, version := version bound + int (length ?ms)\<rparr>"
    by blast
  have fold: "evolve_all dec initial_session_state (map be_event
        (filter (\<lambda>x. be_streamId x = ls_sessionId s) (synthesize_backfill collate (fresh_backfill sessions messages)))) =
      foldl (evolve dec) (foldl (evolve dec) bound (map message_event_from_snapshot ?ms))
        ((case ls_archivedAt s of None \<Rightarrow> [] | Some tm \<Rightarrow> [SessionArchived tm]) @
         [SessionTitleSet (ls_title s) None (ls_updatedAt s)] @
         (case ls_deletedAt s of None \<Rightarrow> [] | Some tm \<Rightarrow> [SessionDeleted tm]))"
    by (simp only: own_events [OF assms] session_events evolve_all_foldl bound_def foldl_append foldl_Cons append_Cons)
  show ?thesis
    unfolding fold E ms
    by (cases "ls_providerThread s"; cases "ls_archivedAt s"; cases "ls_deletedAt s")
      (simp_all add: bound_def Let_def provider_thread_events_from_snapshot_def
        session_created_event_from_snapshot_def evolve_SessionCreated_def evolve_ProviderThreadUpdated_def
        with_provider_thread_def next_version_def initial_session_state_def provider_thread_id_for_def)
qed

theorem backfill_restores_witness:
  "archived (evolve_all (\<lambda>_. None) initial_session_state (map be_event
     (filter (\<lambda>x. be_streamId x = ''s1'')
        (synthesize_backfill (\<lambda>a b. 0) (fresh_backfill [old_session] [old_message])))))"
  using backfill_restores [of "[old_session]" old_session "\<lambda>_. None" "\<lambda>a b. 0" "[old_message]"]
  by (simp add: Let_def) (simp add: old_session_def)

end
