(* ===== verification/Chat_Domain.thy ===== *)
theory Chat_Domain
  imports Session_Domain_Properties Sql_Chat_Projector
begin

text \<open>
  The service of chats: \<open>engine/chat-domain.ts\<close>. A dispatch appends the events of a chat in its own
  transaction and then lets the projector of chats catch up, every event in a transaction with its
  cursor.
\<close>

record ('g, 'i) chat_env =
  cv_json :: sqlite_json
  cv_events :: "chat_event event_codec"
  cv_receipts :: receipt_codec
  cv_nowText :: "service_db \<Rightarrow> string"
  cv_mint :: "('g, 'i) id_generator"

datatype 'i chat_service_error =
  ChatDispatchFailed "(chat_error, sql_storage_error, 'i) dispatch_failure"
| ChatStorageFailed sql_storage_error
| ChatProjectionFailed projector_error

definition apply_chat_record ::
  "('g, 'i) chat_env \<Rightarrow> chat_event stored_event \<Rightarrow> service_db \<Rightarrow> 'i chat_service_error + service_db" where
  "apply_chat_record env record db =
     (case project_chat (cv_json env) (se_streamId record) (se_event record) (sd_readModel db) of
        Inl e \<Rightarrow> Inl (ChatProjectionFailed e)
      | Inr rm \<Rightarrow> Inr (db\<lparr>sd_readModel := rm\<rparr>))"

definition chat_projector ::
  "('g, 'i) chat_env \<Rightarrow> (service_db, 'i chat_service_error, chat_event stored_event) projector_definition" where
  "chat_projector env =
     \<lparr>pd_name = chat_projector_name, pd_sequenceOf = se_sequence, pd_apply = apply_chat_record env\<rparr>"

abbreviation chat_cursors ::
  "('g, 'i) chat_env \<Rightarrow> (service_db, 'i chat_service_error, chat_event stored_event) projector_ops" where
  "chat_cursors env \<equiv> sql_projector_ops ChatStorageFailed (cv_events env) (cv_nowText env)"

definition chat_catch_up ::
  "('g, 'i) chat_env \<Rightarrow> service_db \<Rightarrow> ('i chat_service_error + int) \<times> service_db" where
  "chat_catch_up env db = projector_catch_up (chat_cursors env) (chat_projector env) db"

definition chat_dispatch ::
  "('g, 'i) chat_env \<Rightarrow> service_db \<Rightarrow> 'g \<Rightarrow> chat_command dispatch_input \<Rightarrow>
   ('i chat_service_error + command_receipt) \<times> service_db" where
  "chat_dispatch env db g input =
     (case aggregate_dispatch_run chat_definition (sql_ops (cv_events env) (cv_receipts env) (cv_nowText env))
             (cv_mint env) db g input of
        (Inl e, db1) \<Rightarrow> (Inl (ChatDispatchFailed e), db1)
      | (Inr receipt, db1) \<Rightarrow>
          (case chat_catch_up env db1 of
             (Inl e, db2) \<Rightarrow> (Inl e, db2)
           | (Inr n, db2) \<Rightarrow> (Inr receipt, db2)))"

section \<open>Projecting exactly once\<close>

text \<open>The read model after a list of events\<close>

fun project_chats ::
  "sqlite_json \<Rightarrow> chat_event stored_event list \<Rightarrow> read_model \<Rightarrow> projector_error + read_model" where
  "project_chats sj [] rm = Inr rm"
| "project_chats sj (r # rs) rm =
     (case project_chat sj (se_streamId r) (se_event r) rm of
        Inl e \<Rightarrow> Inl e
      | Inr rm' \<Rightarrow> project_chats sj rs rm')"

abbreviation chat_position :: "service_db \<Rightarrow> int" where
  "chat_position db \<equiv> sql_cursor db chat_projector_name"

text \<open>From \<open>db\<close> to \<open>db'\<close> the projector has handled \<open>rs\<close>, and nothing else has changed.\<close>

definition projected :: "('g, 'i) chat_env \<Rightarrow> chat_event stored_event list \<Rightarrow> service_db \<Rightarrow> service_db \<Rightarrow> bool" where
  "projected env rs db db' \<longleftrightarrow>
     project_chats (cv_json env) rs (sd_readModel db) = Inr (sd_readModel db') \<and>
     chat_position db' = last (chat_position db # map se_sequence rs) \<and>
     db_events db' = db_events db \<and> db_receipts db' = db_receipts db \<and> db_lastSequence db' = db_lastSequence db"

lemma projected_nil: "projected env [] db db"
  by (simp add: projected_def)

lemma chat_loop_step:
  "catch_up_loop (chat_cursors env) (chat_projector env) c (r # es) db =
     (if se_sequence r \<le> c then catch_up_loop (chat_cursors env) (chat_projector env) c es db
      else
        (case project_chat (cv_json env) (se_streamId r) (se_event r) (sd_readModel db) of
           Inl p \<Rightarrow> (Inl (ChatProjectionFailed p), db)
         | Inr rm \<Rightarrow> catch_up_loop (chat_cursors env) (chat_projector env) (se_sequence r) es
             (sql_commit_cursor (cv_nowText env) (db\<lparr>sd_readModel := rm\<rparr>) chat_projector_name (se_sequence r))))"
  by (simp add: chat_projector_def sql_projector_ops_def apply_chat_record_def Let_def split: sum.splits)

lemma chat_loop:
  assumes "sorted_wrt (<) (chat_position db # map se_sequence es)"
    and "catch_up_loop (chat_cursors env) (chat_projector env) (chat_position db) es db = (res, db')"
  shows "\<exists>done rest. es = done @ rest \<and> projected env done db db' \<and>
    (case res of
       Inr n \<Rightarrow> rest = []
     | Inl e \<Rightarrow> (\<exists>r rs p. rest = r # rs \<and> e = ChatProjectionFailed p \<and>
         project_chat (cv_json env) (se_streamId r) (se_event r) (sd_readModel db') = Inl p))"
  using assms
proof (induction es arbitrary: db)
  case Nil
  then show ?case by (auto simp: projected_nil)
next
  case (Cons r es)
  from Cons.prems(1) have above: "chat_position db < se_sequence r" by simp
  show ?case
  proof (cases "project_chat (cv_json env) (se_streamId r) (se_event r) (sd_readModel db)")
    case (Inl p)
    with Cons.prems(2) above have "res = Inl (ChatProjectionFailed p)" "db' = db"
      by (simp_all add: chat_loop_step del: catch_up_loop.simps)
    with Inl show ?thesis
      by (intro exI [of _ "[]"] exI [of _ "r # es"]) (simp add: projected_nil)
  next
    case (Inr rm)
    let ?db = "sql_commit_cursor (cv_nowText env) (db\<lparr>sd_readModel := rm\<rparr>) chat_projector_name (se_sequence r)"
    have position: "chat_position ?db = se_sequence r"
    proof -
      have "chat_position (db\<lparr>sd_readModel := rm\<rparr>) = chat_position db" by (simp add: sql_cursor_def)
      with above show ?thesis by (simp only: sql_cursor_commit) simp
    qed
    from Cons.prems(2) above Inr
    have loop: "catch_up_loop (chat_cursors env) (chat_projector env) (chat_position ?db) es ?db = (res, db')"
      unfolding position by (simp add: chat_loop_step del: catch_up_loop.simps)
    have "sorted_wrt (<) (chat_position ?db # map se_sequence es)"
      unfolding position using Cons.prems(1) by simp
    from Cons.IH [OF this loop] obtain done_rs rest where step: "es = done_rs @ rest" "projected env done_rs ?db db'"
      "case res of
       Inr n \<Rightarrow> rest = []
     | Inl e \<Rightarrow> (\<exists>r rs p. rest = r # rs \<and> e = ChatProjectionFailed p \<and>
         project_chat (cv_json env) (se_streamId r) (se_event r) (sd_readModel db') = Inl p)" by blast
    have "projected env (r # done_rs) db db'"
      using step(2) Inr position by (simp add: projected_def sql_commit_cursor_def)
    with step(1,3) show ?thesis by (intro exI [of _ "r # done_rs"] exI [of _ rest]) simp
  qed
qed

section \<open>Dispatching\<close>

lemma chat_append:
  assumes ok: "codec_ok (cv_events env)" "receipt_codec_ok (cv_receipts env)"
    and inv: "sql_inv (cv_events env) (cv_receipts env) db"
    and run: "aggregate_dispatch_run chat_definition (sql_ops (cv_events env) (cv_receipts env) (cv_nowText env))
      mk db g input = (x, db1)"
  shows "sql_inv (cv_events env) (cv_receipts env) db1 \<and>
    prefix (logged_records (cv_events env) db) (logged_records (cv_events env) db1) \<and>
    sd_readModel db1 = sd_readModel db \<and> cd_cursors db1 = cd_cursors db \<and>
    (\<forall>r. x = Inr r \<longrightarrow> sql_receipt_of (cv_receipts env) db1 (di_commandId input) = Some r) \<and>
    (isl x \<longrightarrow> db1 = db)"
proof -
  let ?ops = "sql_ops (cv_events env) (cv_receipts env) (cv_nowText env)"
  let ?rc = "cv_receipts env"
  note storage = sql_storage_laws [OF ok, of "cv_nowText env"]
  have receipt: "op_receipt ?ops db c = Inr (sql_receipt_of ?rc db c)" for c
    by (rule dispatch_storage.read_receipt [OF storage inv])
  let ?p = "fst (prepare_aggregate_dispatch chat_definition ?ops mk db g (sql_receipt_of ?rc db (di_commandId input)) input)"
  from run have fin: "finish_dispatch ?ops db ?p = (x, db1)"
    by (simp add: aggregate_dispatch_run_def receipt)
  show ?thesis
  proof (cases ?p)
    case (Finished y)
    with fin have same: "db1 = db" "x = y" by (simp_all add: finish_dispatch_def)
    have "sql_receipt_of ?rc db (di_commandId input) = Some r" if "y = Inr r" for r
    proof (cases "sql_receipt_of ?rc db (di_commandId input)")
      case None
      with Finished that show ?thesis
        by (auto simp: prepare_aggregate_dispatch_def prepare_append_def Let_def
            split: sum.splits option.splits prod.splits)
    next
      case (Some r0)
      with Finished that show ?thesis
        by (auto simp: prepare_aggregate_dispatch_def validated_def validate_command_receipt_def
            split: sum.splits if_splits option.splits)
    qed
    with same inv show ?thesis by simp
  next
    case (Appending ai)
    have prep: "aggregate_prepares chat_definition ?ops mk db (sql_receipt_of ?rc db (di_commandId input)) input ai"
      unfolding aggregate_prepares_def using Appending by blast
    have events: "op_events ?ops db (di_streamId input) = Inr (sql_stream (cv_events env) db (di_streamId input))"
      by (rule dispatch_storage.read_events [OF storage inv])
    from aggregate_prepares_sound [OF events prep] have none: "sql_receipt_of ?rc db (di_commandId input) = None"
      and command: "ai_commandId ai = di_commandId input" by simp_all
    show ?thesis
    proof (cases "append_transaction (cv_events env) ?rc (cv_nowText env) db ai")
      case (Inl e)
      with fin Appending have "db1 = db" "x = Inl (StorageFailure e)"
        by (simp_all add: finish_dispatch_def sql_ops_def sql_append_def)
      with inv show ?thesis by simp
    next
      case (Inr y)
      then obtain r db2 where app: "append_transaction (cv_events env) ?rc (cv_nowText env) db ai = Inr (r, db2)"
        by (cases y) auto
      with fin Appending have done_db: "db1 = db2" "x = Inr r"
        by (simp_all add: finish_dispatch_def sql_ops_def sql_append_def)
      note none' = none [folded command]
      from append_transaction_new [OF ok inv none' app] have new: "sql_inv (cv_events env) ?rc db2"
        "sql_receipt_of ?rc db2 = (sql_receipt_of ?rc db)(ai_commandId ai \<mapsto> r)" by blast+
      obtain rows n rrow where "db2 = db\<lparr>db_events := db_events db @ rows, db_lastSequence := n,
          db_receipts := db_receipts db @ [rrow]\<rparr>" by (rule append_rows [OF inv none' app])
      moreover obtain log where "logged_records (cv_events env) db2 = logged_records (cv_events env) db @ log"
        by (rule append_logged [OF ok inv none' app])
      ultimately show ?thesis using new command by (simp add: done_db)
    qed
  qed
qed

section \<open>Properties\<close>

text \<open>C32: Whatever a dispatch of a chat command answers, the log of the chats only
  grew, and the projector went on from where its cursor was: the events it handled are a first part of
  those after the cursor, each applied once and in order to the read model, and the cursor is at the
  last of them. A command that is answered with a receipt has it stored and every event of the log
  is then projected; when an event cannot be projected the dispatch fails, although the command was
  committed, and the next catch-up starts with that event.\<close>

theorem chat_projected_once:
  assumes "codec_ok (cv_events env)" "receipt_codec_ok (cv_receipts env)"
    and "sql_inv (cv_events env) (cv_receipts env) db"
    and "chat_dispatch env db g input = (res, db')"
  shows "sql_inv (cv_events env) (cv_receipts env) db' \<and>
    prefix (logged_records (cv_events env) db) (logged_records (cv_events env) db') \<and>
    (\<exists>handled rest.
       filter (\<lambda>r. chat_position db < se_sequence r) (logged_records (cv_events env) db') = handled @ rest \<and>
       project_chats (cv_json env) handled (sd_readModel db) = Inr (sd_readModel db') \<and>
       chat_position db' = last (chat_position db # map se_sequence handled) \<and>
       (\<forall>receipt. res = Inr receipt \<longrightarrow> rest = [] \<and>
          sql_receipt_of (cv_receipts env) db' (di_commandId input) = Some receipt) \<and>
       (\<forall>p. res = Inl (ChatProjectionFailed p) \<longrightarrow> (\<exists>r rs. rest = r # rs \<and>
          project_chat (cv_json env) (se_streamId r) (se_event r) (sd_readModel db') = Inl p)))"
proof -
  let ?ec = "cv_events env" and ?rc = "cv_receipts env"
  obtain x db1 where run: "aggregate_dispatch_run chat_definition (sql_ops ?ec ?rc (cv_nowText env))
      (cv_mint env) db g input = (x, db1)"
    by (cases "aggregate_dispatch_run chat_definition (sql_ops ?ec ?rc (cv_nowText env)) (cv_mint env) db g input")
  note appended = chat_append [OF assms(1-3) run]
  have position: "chat_position db1 = chat_position db" using appended by (simp add: sql_cursor_def)
  show ?thesis
  proof (cases x)
    case (Inl e)
    with assms(4) run appended have "db' = db" "res = Inl (ChatDispatchFailed e)" by (simp_all add: chat_dispatch_def)
    with assms(3) show ?thesis
      by (auto intro!: exI [of _ "[]"] simp: projected_def)
  next
    case (Inr receipt)
    let ?new = "filter (\<lambda>r. chat_position db1 < se_sequence r) (logged_records ?ec db1)"
    obtain y db2 where caught: "chat_catch_up env db1 = (y, db2)" by (cases "chat_catch_up env db1")
    from assms(4) run Inr caught have res: "db' = db2" "res = (case y of Inl e \<Rightarrow> Inl e | Inr n \<Rightarrow> Inr receipt)"
      by (simp_all add: chat_dispatch_def split: sum.splits)
    have inv1: "sql_inv ?ec ?rc db1" using appended by blast
    then have events: "sql_all_events_after_sequence ?ec db1 (chat_position db1) = Inr ?new"
      by (intro all_events_of_log) (simp_all add: sql_inv_def)
    have loop: "catch_up_loop (chat_cursors env) (chat_projector env) (chat_position db1) ?new db1 = (y, db2)"
    proof -
      have "co_cursor (chat_cursors env) db1 (pd_name (chat_projector env)) = Inr (chat_position db1)"
        "co_eventsAfter (chat_cursors env) db1 (chat_position db1) = Inr ?new"
        by (simp_all add: sql_projector_ops_def chat_projector_def events)
      with caught show ?thesis by (simp add: chat_catch_up_def projector_catch_up_def)
    qed
    have "sorted_wrt (<) (map se_sequence (logged_records ?ec db1))"
      using inv1 by (intro log_sequences) (simp add: sql_inv_def)
    then have "sorted_wrt (<) (chat_position db1 # map se_sequence ?new)"
      by (auto simp: sorted_wrt_map intro: sorted_wrt_filter)
    from chat_loop [OF this loop] obtain handled rest where done_rs: "?new = handled @ rest"
      "projected env handled db1 db2"
      "case y of Inr n \<Rightarrow> rest = []
       | Inl e \<Rightarrow> (\<exists>r rs p. rest = r # rs \<and> e = ChatProjectionFailed p \<and>
           project_chat (cv_json env) (se_streamId r) (se_event r) (sd_readModel db2) = Inl p)" by blast
    have same: "db_events db2 = db_events db1" "db_receipts db2 = db_receipts db1" "db_lastSequence db2 = db_lastSequence db1"
      using done_rs(2) by (simp_all add: projected_def)
    then have log: "logged_records ?ec db2 = logged_records ?ec db1"
      "sql_receipt_of ?rc db2 c = sql_receipt_of ?rc db1 c" for c
      by (simp_all add: logged_records_def sql_receipt_of_def sql_receipt_def)
    have "sql_inv ?ec ?rc db2"
      using inv1 same by (simp add: sql_inv_def streams_numbered_def sequences_grow_def rows_decode_def
          receipts_decode_def stream_rows_def)
    moreover have "prefix (logged_records ?ec db) (logged_records ?ec db2)" using appended log(1) by simp
    moreover have "filter (\<lambda>r. chat_position db < se_sequence r) (logged_records ?ec db2) = handled @ rest"
      using done_rs(1) by (simp only: log position)
    moreover have "project_chats (cv_json env) handled (sd_readModel db) = Inr (sd_readModel db2)"
      "chat_position db2 = last (chat_position db # map se_sequence handled)"
      using done_rs(2) appended position by (simp_all only: projected_def)
    moreover have "\<forall>r. res = Inr r \<longrightarrow> rest = [] \<and> sql_receipt_of ?rc db2 (di_commandId input) = Some r"
    proof (intro allI impI)
      fix r assume "res = Inr r"
      then obtain n where "y = Inr n" "receipt = r" by (cases y) (simp_all add: res(2))
      moreover have "sql_receipt_of ?rc db1 (di_commandId input) = Some receipt" using appended Inr by blast
      ultimately show "rest = [] \<and> sql_receipt_of ?rc db2 (di_commandId input) = Some r"
        using done_rs(3) by (simp add: log(2))
    qed
    moreover have "\<forall>p. res = Inl (ChatProjectionFailed p) \<longrightarrow> (\<exists>r rs. rest = r # rs \<and>
        project_chat (cv_json env) (se_streamId r) (se_event r) (sd_readModel db2) = Inl p)"
    proof (intro allI impI)
      fix p assume "res = Inl (ChatProjectionFailed p)"
      then have "y = Inl (ChatProjectionFailed p)" by (cases y) (simp_all add: res(2))
      with done_rs(3) show "\<exists>r rs. rest = r # rs \<and>
          project_chat (cv_json env) (se_streamId r) (se_event r) (sd_readModel db2) = Inl p" by auto
    qed
    ultimately show ?thesis unfolding res(1) by blast
  qed
qed

definition demo_chat_env :: "(nat, string) chat_env" where
  "demo_chat_env =
     \<lparr>cv_json = demo_json, cv_events = chat_codec, cv_receipts = counted_receipts,
      cv_nowText = (\<lambda>db. ''now''), cv_mint = demo_ids\<rparr>"

lemma demo_chat_projects: "\<exists>rm. project_chat demo_json sid demo_chat_event empty_read_model = Inr rm"
  by (simp add: project_chat_def demo_chat_event_def demo_chat_def date_valid_def check_references_def
      references_hold_def project_ChatCreated_def insert_or_ignore_def empty_read_model_def
      session_refers_def chat_refers_def refers_def demo_json_def)

lemma demo_chat_dispatched:
  "\<exists>db. chat_dispatch demo_chat_env empty_service_db 0 demo_chat_input = (Inr (receipt_for demo_chat_append 1), db)"
proof -
  let ?ops = "sql_ops chat_codec counted_receipts (\<lambda>db. ''now'')"
  obtain db r where db: "op_append ?ops empty_service_db demo_chat_append = (Inr (receipt_for demo_chat_append 1), db)"
    "cd_cursors db = []" "sql_all_events_after_sequence chat_codec db 0 = Inr [r]" "0 < se_sequence r"
    "se_event r = demo_chat_event" "sd_readModel db = empty_read_model"
    by (simp add: sql_ops_def sql_append_def append_transaction_def sql_receipt_def empty_service_db_def
        demo_chat_append_def append_of_def demo_chat_input_def sql_current_stream_version_def stream_rows_def
        insert_event_row_def insert_receipt_row_def sql_all_events_after_sequence_def counted_codec_def
        decode_persisted_event_def read_nat_to_string Let_def)
  have "op_receipt ?ops empty_service_db (di_commandId demo_chat_input) = Inr None"
    by (simp add: sql_ops_def sql_receipt_def empty_service_db_def)
  moreover have "db_events empty_service_db = []" by (simp add: empty_service_db_def)
  from demo_chat_prepared [OF this]
  have "fst (prepare_aggregate_dispatch chat_definition ?ops demo_ids empty_service_db 0 None demo_chat_input) =
      Appending demo_chat_append" by simp
  ultimately have "aggregate_dispatch_run chat_definition ?ops demo_ids empty_service_db 0
      demo_chat_input = (Inr (receipt_for demo_chat_append 1), db)"
    using db(1) by (simp add: aggregate_dispatch_run_def finish_dispatch_def)
  moreover have "\<exists>n db'. chat_catch_up demo_chat_env db = (Inr n, db')"
    using db(2-6) demo_chat_projects [of "se_streamId r"]
    by (auto simp: chat_catch_up_def projector_catch_up_def chat_projector_def sql_projector_ops_def
        sql_cursor_def demo_chat_env_def apply_chat_record_def Let_def)
  ultimately show ?thesis by (auto simp: chat_dispatch_def demo_chat_env_def)
qed

theorem chat_projected_once_witness:
  "\<exists>db'. chat_dispatch demo_chat_env empty_service_db 0 demo_chat_input = (Inr (receipt_for demo_chat_append 1), db') \<and>
     project_chats demo_json (filter (\<lambda>r. chat_position empty_service_db < se_sequence r) (logged_records chat_codec db'))
       empty_read_model = Inr (sd_readModel db')"
proof -
  obtain db' where db': "chat_dispatch demo_chat_env empty_service_db 0 demo_chat_input =
      (Inr (receipt_for demo_chat_append 1), db')" using demo_chat_dispatched by blast
  have "codec_ok (cv_events demo_chat_env)" "receipt_codec_ok (cv_receipts demo_chat_env)"
    by (simp_all add: demo_chat_env_def counted_codec_ok counted_receipts_ok)
  moreover have "sql_inv (cv_events demo_chat_env) (cv_receipts demo_chat_env) empty_service_db"
    by (rule sql_inv_empty) (simp_all add: empty_service_db_def)
  ultimately show ?thesis
    using chat_projected_once [OF _ _ _ db'] db'
    by (intro exI [of _ db']) (auto simp: demo_chat_env_def empty_service_db_def)
qed

end
