(* ===== verification/Spec2Isabelle.thy ===== *)
theory Spec2Isabelle
  imports Session_Properties Chat Timeline_Properties Sql_Chat_Projector
    Session_Domain_Properties Reactor_Properties Snapshot_Properties Event_Stream_Properties
    Client_Properties Client_Pager_Properties Backfill Chat_Domain
begin

text \<open>
  Zuse: the event-sourced core of \<open>packages/domain/src\<close>.

  Zuse runs coding agents in chats. The domain package decides what may happen: a command is
  checked by a decider against the state of its aggregate, the decider returns events, and the
  events are appended to a log, folded into the state and projected into what clients show.

  \<^item> \<open>Prelude\<close> and \<open>Js_Strings\<close>: the part of the JavaScript library the code uses (maps with
    insertion order, nullable fields, guarded numbers, \<open>trim\<close>, \<open>encodeURIComponent\<close>,
    \<open>JSON.stringify\<close> of strings), with its lemmas.
  \<^item> \<open>Agent_Ids\<close> (\<open>agent-engine/ids.ts\<close>) and \<open>Contracts\<close> (the shared vocabulary of
    \<open>packages/contracts/src\<close>): derived identifiers, enumerations, message contents.
  \<^item> \<open>Session_Types\<close>, \<open>Session_State\<close>, \<open>Session_Decider\<close> (\<open>core/*.ts\<close>): commands, events,
    state, fold and decider of a session. \<open>Aggregate\<close> is the contract of an aggregate and the
    relation of the states that accepted commands reach. \<open>Session_Invariants\<close> and
    \<open>Session_Safety\<close> prove that every command keeps the invariant of a session, and
    \<open>Session_Properties\<close> states what follows.
  \<^item> \<open>Chat\<close> (\<open>chat/*.ts\<close>): the aggregate of a chat, on the same contract.
  \<^item> \<open>Execution_Steps\<close>, \<open>Timeline\<close>, \<open>Timeline_Properties\<close> (\<open>projectors/execution-steps.ts\<close>,
    \<open>projectors/timeline-*.ts\<close>): the projection clients and the server share.
  \<^item> \<open>Dispatch\<close> (\<open>engine/dispatch.ts\<close>, \<open>engine/aggregate-dispatch.ts\<close>) prepares a command against
    the log and appends its events under optimistic concurrency; \<open>Dispatch_Laws\<close> states the
    contract of a storage as locales and proves what every interleaving of dispatches keeps;
    \<open>Memory_Dispatch\<close> and \<open>Sql_Dispatch\<close>, \<open>Sql_Dispatch_Laws\<close> (\<open>engine/sql-dispatch-storage.ts\<close>,
    \<open>engine/persisted-event.ts\<close>) are its two providers; \<open>Codecs\<close> shows that the assumptions on
    the JSON codecs can be met, and \<open>Dispatch_Properties\<close> states the results.
  \<^item> \<open>Jobs\<close> (\<open>agent-engine/jobs.ts\<close>, \<open>agent-engine/job-ledger.ts\<close>) and \<open>Job_Worker\<close>
    (\<open>agent-engine/job-worker.ts\<close>): the durable jobs of events, their leases and the worker's
    round; \<open>Job_Properties\<close> proves the invariant of the ledger under all histories of calls.
  \<^item> \<open>Read_Model\<close> (the tables of \<open>test/sql-schema.ts\<close>), \<open>Sql_Projectors\<close>, \<open>Sql_Session_Projector\<close>,
    \<open>Sql_Chat_Projector\<close> (\<open>projectors/sql-*.ts\<close>): every statement the projectors run, as functions
    on lists of rows. \<open>Read_Model_Refinement\<close> says when rows show a state (\<open>displays\<close>);
    \<open>Read_Model_Events\<close>, \<open>_Tables\<close>, \<open>_Session\<close>, \<open>_Attempts\<close>, \<open>_Steps\<close>, \<open>_Threads\<close>, \<open>_Frame\<close> prove,
    table by table, that projecting an event follows \<open>evolve\<close>, and \<open>Read_Model_Log\<close> folds this
    over a log.
  \<^item> \<open>Cursors\<close> (\<open>engine/projector-runner.ts\<close>, \<open>engine/cursor-storage.ts\<close>,
    \<open>engine/sql-consumer-storage.ts\<close>): the catch-up of a projector and both storages of its
    position; \<open>Event_Log\<close>: the log as one list of records and what an append adds to it;
    \<open>Admission\<close> (\<open>engine/admission.ts\<close>): the gate as steps of the transactions that check it.
  \<^item> \<open>Session_Domain\<close> (\<open>engine/session-domain.ts\<close>): the transaction of a command, from its guards
    over dispatch, projection and jobs to its receipt. \<open>Session_Domain_Laws\<close> proves what one
    transaction does, \<open>Session_Domain_History\<close> the invariant of every history of dispatches,
    calls of the ledger, catch-ups and restores, \<open>Session_Domain_Commit\<close> that an accepted command
    commits; \<open>Session_Domain_Properties\<close> states the results for the whole service.
  \<^item> \<open>Chat_Domain\<close> (\<open>engine/chat-domain.ts\<close>): the service of chats, which projects after the commit.
  \<^item> \<open>Reactor_Runner\<close> (\<open>engine/reactor-runner.ts\<close>, \<open>reactors/conversation.ts\<close>): both modes of the
    runner, the concurrent one as a relation of all interleavings, and the four reactors;
    \<open>Reactor_Laws\<close> and \<open>Reactor_Properties\<close>: order, at-least-once and completion.
  \<^item> \<open>Session_Queries\<close> (\<open>queries/sql-*.ts\<close>, \<open>queries/session-queries.ts\<close>), \<open>Timeline_Snapshot\<close>
    (\<open>queries/session-timeline-snapshot.ts\<close>): what clients read; \<open>Message_Pages\<close> and
    \<open>Snapshot_Properties\<close>: the pages meet without a gap, the snapshot keeps its bounds.
  \<^item> \<open>Event_Streams\<close> (the streams of \<open>engine/session-domain.ts\<close>) and \<open>Event_Stream_Properties\<close>: the
    rounds of the publisher, both plain streams and the synchronized stream.
  \<^item> \<open>Client_Timeline\<close> (\<open>packages/client-runtime/src/session-timeline.ts\<close>, the request and the loop
    of \<open>session-timeline-driver.ts\<close>, the frames of \<open>session.events\<close> in
    \<open>apps/server/src/provider/handlers.ts\<close>): the other end of the stream. \<open>Client_Stream\<close> runs the
    reducer over each part of the stream and \<open>Client_Properties\<close> composes server and client.
  \<^item> \<open>Client_Pager\<close> (\<open>session-message-pager.ts\<close>, the updates of a cell in \<open>client-bus.ts\<close>, the handler of
    \<open>session.messages.page\<close>): older pages loaded beside the live stream, over the contract of a
    source of pages that the server's handler is shown to meet; \<open>Client_Pager_Properties\<close>.
  \<^item> \<open>Backfill\<close> (\<open>engine/backfill.ts\<close>): the logs seeded for the rows of before the log.

  Times, counters and ordinals are integers, except the numbers whose integrality the code
  tests (\<open>js_number\<close>); ISO timestamps of the tables are their milliseconds. JSON text that no
  modelled code reads stays text; the decoders of the schema library, the JSON functions and the
  clock of SQLite, the sizes of JSON texts, \<open>localeCompare\<close> and the identity of objects are
  parameters. A transaction is a function of the database, since transactions of SQLite do not
  overlap; what runs between them is an explicit sequence of steps or a relation.

  No fuel is used. The recursions over lists are structural; the stream of older messages
  (\<open>history_pages\<close>) ends because every page lowers its cursor, and the omission of execution
  steps (\<open>trim_steps\<close>) and of white space (\<open>drop_spaces\<close>) because every round drops one. The retry of a conflicting dispatch
  (\<open>dispatch_retrying\<close>) counts down the attempts of the code.

  Not modelled: the wake-up hubs and timers (when a round of the publisher or of a worker runs is
  an input), the heartbeat of a lease, the foreign keys of the server's migrations, the checkpoints
  and the continuity timer of the client driver, the rest of its bus, \<open>startup-input.ts\<close>, the
  remote procedure definitions of the contracts, and everything around this core: the server's
  drivers and handlers, the user interfaces, the cloud services, the packages of adapters and
  glue, which do I/O, render, or call hosted providers.
\<close>

end
